(* ===== verification/Prelude.thy ===== *)
theory Prelude
  imports
    Main
    "HOL-Library.Char_ord"
    "HOL-Library.List_Lexorder"
    "HOL-Library.Product_Lexorder"
    "HOL-Library.Option_ord"
    "HOL-Library.Sublist"
begin

text \<open>
  Shared base of the development: the Rust notions every component uses, and the generic
  lemmas about them.

  \<^item> \<open>Result<T, E>\<close> is the sum type \<open>'e + 't\<close> (\<open>Inl\<close> is \<open>Err\<close>); \<open>Option<T>\<close> is \<open>'t option\<close>.
  \<^item> Unsigned machine integers are \<open>nat\<close> with the width written out wherever the source uses a
    checked or saturating operation: \<open>checked_add_u w\<close>, \<open>checked_mul_u w\<close>, \<open>saturating_add_u w\<close>.
    Saturating subtraction is subtraction on \<open>nat\<close>.
  \<^item> \<open>SystemTime\<close> and \<open>Instant\<close> are nanosecond counts (\<open>int\<close>), \<open>Duration\<close> is a \<open>nat\<close> of
    nanoseconds; \<open>duration_since\<close> fails when the argument is later.
  \<^item> \<open>std::cmp::Reverse\<close> is a one-constructor datatype with the reversed linear order, so that
    the source's \<open>sort_by_key\<close> calls are the library's stable \<open>sort_key\<close> on the same key.
  \<^item> \<open>String\<close> is a list of bytes (\<open>string\<close>) holding UTF-8, ordered lexicographically as
    \<open>Ord for str\<close> is.
\<close>

named_theorems guard_simps \<open>unfolding rules for the guards the constructors check\<close>
named_theorems inv_intros \<open>an operation keeps its component's invariant\<close>


section \<open>Results\<close>

abbreviation Ok :: "'t \<Rightarrow> 'e + 't" where "Ok \<equiv> Inr"
abbreviation Err :: "'e \<Rightarrow> 'e + 't" where "Err \<equiv> Inl"

definition ok :: "'e + 't \<Rightarrow> 't option" where
  "ok r = (case r of Inl _ \<Rightarrow> None | Inr v \<Rightarrow> Some v)"

lemma ok_simps [simp]: "ok (Inl e) = None" "ok (Inr v) = Some v"
  by (simp_all add: ok_def)

lemma ok_eq_Some [simp]: "ok r = Some v \<longleftrightarrow> r = Inr v"
  by (cases r) auto

definition ok_or :: "'t option \<Rightarrow> 'e \<Rightarrow> 'e + 't" where
  "ok_or x e = (case x of None \<Rightarrow> Inl e | Some v \<Rightarrow> Inr v)"

lemma ok_or_simps [simp]: "ok_or None e = Inl e" "ok_or (Some v) e = Inr v"
  by (simp_all add: ok_or_def)

lemma ok_or_eq_Inr [simp]: "ok_or x e = Inr v \<longleftrightarrow> x = Some v"
  by (cases x) auto


section \<open>Options\<close>

abbreviation is_some :: "'a option \<Rightarrow> bool" where "is_some x \<equiv> x \<noteq> None"

definition is_some_and :: "'a option \<Rightarrow> ('a \<Rightarrow> bool) \<Rightarrow> bool" where
  "is_some_and x p = (case x of None \<Rightarrow> False | Some v \<Rightarrow> p v)"

definition is_none_or :: "'a option \<Rightarrow> ('a \<Rightarrow> bool) \<Rightarrow> bool" where
  "is_none_or x p = (case x of None \<Rightarrow> True | Some v \<Rightarrow> p v)"

definition or_else :: "'a option \<Rightarrow> 'a option \<Rightarrow> 'a option" where
  "or_else x y = (case x of None \<Rightarrow> y | Some v \<Rightarrow> Some v)"

definition unwrap_or :: "'a option \<Rightarrow> 'a \<Rightarrow> 'a" where
  "unwrap_or x d = (case x of None \<Rightarrow> d | Some v \<Rightarrow> v)"

definition filter_option :: "('a \<Rightarrow> bool) \<Rightarrow> 'a option \<Rightarrow> 'a option" where
  "filter_option p x = (case x of None \<Rightarrow> None | Some v \<Rightarrow> if p v then Some v else None)"

lemma is_some_and_simps [simp]: "\<not> is_some_and None p" "is_some_and (Some v) p = p v"
  by (simp_all add: is_some_and_def)

lemma is_none_or_simps [simp]: "is_none_or None p" "is_none_or (Some v) p = p v"
  by (simp_all add: is_none_or_def)

lemma or_else_simps [simp]: "or_else None y = y" "or_else (Some v) y = Some v"
  by (simp_all add: or_else_def)

lemma unwrap_or_simps [simp]: "unwrap_or None d = d" "unwrap_or (Some v) d = v"
  by (simp_all add: unwrap_or_def)

lemma filter_option_simps [simp]:
  "filter_option p None = None" "filter_option p (Some v) = (if p v then Some v else None)"
  by (simp_all add: filter_option_def)

lemma filter_option_eq_Some: "filter_option p x = Some v \<longleftrightarrow> x = Some v \<and> p v"
  by (cases x) auto

lemma is_some_and_iff: "is_some_and x p \<longleftrightarrow> (\<exists>v. x = Some v \<and> p v)"
  by (cases x) auto

lemma is_none_or_iff: "is_none_or x p \<longleftrightarrow> (\<forall>v. x = Some v \<longrightarrow> p v)"
  by (cases x) auto


section \<open>Machine integers of a written-out width\<close>

definition checked_add_u :: "nat \<Rightarrow> nat \<Rightarrow> nat \<Rightarrow> nat option" where
  "checked_add_u w a b = (if a + b < 2 ^ w then Some (a + b) else None)"

definition checked_mul_u :: "nat \<Rightarrow> nat \<Rightarrow> nat \<Rightarrow> nat option" where
  "checked_mul_u w a b = (if a * b < 2 ^ w then Some (a * b) else None)"

definition checked_sub_u :: "nat \<Rightarrow> nat \<Rightarrow> nat option" where
  "checked_sub_u a b = (if b \<le> a then Some (a - b) else None)"

definition checked_div_u :: "nat \<Rightarrow> nat \<Rightarrow> nat option" where
  "checked_div_u a b = (if b = 0 then None else Some (a div b))"

definition saturating_add_u :: "nat \<Rightarrow> nat \<Rightarrow> nat \<Rightarrow> nat" where
  "saturating_add_u w a b = min (a + b) (2 ^ w - 1)"

lemma checked_add_u_eq_Some [simp]:
  "checked_add_u w a b = Some c \<longleftrightarrow> c = a + b \<and> a + b < 2 ^ w"
  by (auto simp: checked_add_u_def)

lemma checked_mul_u_eq_Some [simp]:
  "checked_mul_u w a b = Some c \<longleftrightarrow> c = a * b \<and> a * b < 2 ^ w"
  by (auto simp: checked_mul_u_def)

lemma checked_sub_u_eq_Some [simp]:
  "checked_sub_u a b = Some c \<longleftrightarrow> b \<le> a \<and> c = a - b"
  by (auto simp: checked_sub_u_def)

lemma checked_div_u_eq_Some [simp]:
  "checked_div_u a b = Some c \<longleftrightarrow> b \<noteq> 0 \<and> c = a div b"
  by (auto simp: checked_div_u_def)

lemma saturating_add_u_exact: "a + b < 2 ^ w \<Longrightarrow> saturating_add_u w a b = a + b"
  by (simp add: saturating_add_u_def)

lemma saturating_add_u_bound: "saturating_add_u w a b < 2 ^ w"
proof -
  have "(0::nat) < 2 ^ w" by simp
  then show ?thesis unfolding saturating_add_u_def by linarith
qed

lemma saturating_add_u_mono:
  "a \<le> a' \<Longrightarrow> b \<le> b' \<Longrightarrow> saturating_add_u w a b \<le> saturating_add_u w a' b'"
  by (auto simp: saturating_add_u_def min_def)


section \<open>Time\<close>

type_synonym system_time = int
type_synonym duration = nat

definition NANOS_PER_SEC :: nat where "NANOS_PER_SEC = 1000000000"

definition from_secs :: "nat \<Rightarrow> duration" where "from_secs s = s * NANOS_PER_SEC"

definition from_millis :: "nat \<Rightarrow> duration" where "from_millis ms = ms * 1000000"

text \<open>\<open>SystemTime::duration_since\<close>: \<open>Err\<close> when the argument is later than the receiver.\<close>

definition duration_since :: "system_time \<Rightarrow> system_time \<Rightarrow> duration option" where
  "duration_since t earlier = (if earlier \<le> t then Some (nat (t - earlier)) else None)"

text \<open>\<open>SystemTime::checked_add\<close>: the seconds of the result must fit a signed 64-bit integer.\<close>

definition checked_add_time :: "system_time \<Rightarrow> duration \<Rightarrow> system_time option" where
  "checked_add_time t d =
     (if t + int d < 2 ^ 63 * int NANOS_PER_SEC then Some (t + int d) else None)"

lemma duration_since_eq_Some:
  "duration_since t e = Some d \<longleftrightarrow> e \<le> t \<and> d = nat (t - e)"
  by (auto simp: duration_since_def)


section \<open>Reversed order\<close>

datatype 'a reverse = Reverse (unreverse: 'a)

instantiation reverse :: (linorder) linorder
begin

definition less_eq_reverse :: "'a reverse \<Rightarrow> 'a reverse \<Rightarrow> bool" where
  "less_eq_reverse x y = (unreverse y \<le> unreverse x)"

definition less_reverse :: "'a reverse \<Rightarrow> 'a reverse \<Rightarrow> bool" where
  "less_reverse x y = (unreverse y < unreverse x)"

instance
  by standard (auto simp: less_eq_reverse_def less_reverse_def intro: reverse.expand)

end

lemma Reverse_le [simp]: "Reverse a \<le> Reverse b \<longleftrightarrow> b \<le> a"
  by (simp add: less_eq_reverse_def)

lemma Reverse_less [simp]: "Reverse a < Reverse b \<longleftrightarrow> b < a"
  by (simp add: less_reverse_def)


section \<open>Lists\<close>

text \<open>The first element of a non-empty sorted list is a minimum of the key.\<close>

lemma hd_sort_key_le:
  assumes "x \<in> set xs"
  shows "f (hd (sort_key f xs)) \<le> f x"
proof -
  from assms have ne: "sort_key f xs \<noteq> []" by (metis list.set(1) set_sort empty_iff)
  then obtain y ys where eq: "sort_key f xs = y # ys" by (cases "sort_key f xs") auto
  have "sorted (map f (sort_key f xs))" by (rule sorted_sort_key)
  with eq have "\<forall>z \<in> set (y # ys). f y \<le> f z" by auto
  moreover have "x \<in> set (y # ys)" using assms eq by (metis set_sort)
  ultimately show ?thesis using eq by auto
qed

lemma hd_sort_key_in: "xs \<noteq> [] \<Longrightarrow> hd (sort_key f xs) \<in> set xs"
  by (metis hd_in_set length_0_conv length_sort set_sort)

lemma sort_key_eq_Nil [simp]: "sort_key f xs = [] \<longleftrightarrow> xs = []"
  by (metis length_0_conv length_sort)

lemma first_sorted:
  "(case sort_key f xs of [] \<Rightarrow> None | y # _ \<Rightarrow> Some y) = (if xs = [] then None else Some (hd (sort_key f xs)))"
proof (cases "sort_key f xs")
  case Nil
  then have "xs = []" by simp
  then show ?thesis by simp
next
  case (Cons y ys)
  then have "xs \<noteq> []" by auto
  then show ?thesis by (simp add: Cons)
qed

lemma find_Some_in: "List.find p xs = Some x \<Longrightarrow> x \<in> set xs \<and> p x"
  by (induction xs) (auto split: if_splits)

lemma find_None_all: "List.find p xs = None \<longleftrightarrow> (\<forall>x \<in> set xs. \<not> p x)"
  by (induction xs) auto

end
