(* ===== verification/Rust_Text.thy ===== *)
theory Rust_Text
  imports Prelude
begin

text \<open>
  The text layer of \<open>gateway-core\<close>: the string predicates of the Rust standard library that the
  constructors use, \<open>validation.rs\<close> (\<open>validate_text\<close> and \<open>IdentifierError\<close>), and the identifier
  newtypes of \<open>identity.rs\<close>, \<open>account/model.rs\<close>, \<open>account/scope.rs\<close>, \<open>policy/mod.rs\<close> and
  \<open>upstream.rs\<close>. A \<open>String\<close> is its UTF-8 bytes. \<open>char::is_control\<close> is the Unicode category Cc,
  that is U+0000 to U+001F and U+007F to U+009F, whose encodings are the bytes below 0x20, the
  byte 0x7F, and 0xC2 followed by a byte in 0x80 to 0x9F; \<open>str::trim\<close> removes characters with
  the \<open>White_Space\<close> property, given here by their encodings.

  The lemmas show that each constructor accepts exactly the texts its guards describe and keeps
  the text unchanged.
\<close>


section \<open>String predicates\<close>

definition byte :: "char \<Rightarrow> nat" where "byte c = of_char c"

definition is_ascii_digit :: "char \<Rightarrow> bool" where
  "is_ascii_digit c \<longleftrightarrow> 48 \<le> byte c \<and> byte c \<le> 57"

definition is_ascii_uppercase :: "char \<Rightarrow> bool" where
  "is_ascii_uppercase c \<longleftrightarrow> 65 \<le> byte c \<and> byte c \<le> 90"

definition is_ascii_graphic :: "char \<Rightarrow> bool" where
  "is_ascii_graphic c \<longleftrightarrow> 33 \<le> byte c \<and> byte c \<le> 126"

definition is_ascii_control :: "char \<Rightarrow> bool" where
  "is_ascii_control c \<longleftrightarrow> byte c < 32 \<or> byte c = 127"

text \<open>\<open>value.chars().any(char::is_control)\<close> on UTF-8 bytes.\<close>

fun has_control :: "string \<Rightarrow> bool" where
  "has_control [] = False"
| "has_control (c # cs) =
     (is_ascii_control c
      \<or> (byte c = 194 \<and> (case cs of [] \<Rightarrow> False | d # _ \<Rightarrow> 128 \<le> byte d \<and> byte d \<le> 159))
      \<or> has_control cs)"

text \<open>The encodings of the \<open>White_Space\<close> characters.\<close>

definition whitespace :: "string list" where
  "whitespace =
     [[CHR 0x09], [CHR 0x0A], [CHR 0x0B], [CHR 0x0C], [CHR 0x0D], [CHR 0x20],
      [CHR 0xC2, CHR 0x85], [CHR 0xC2, CHR 0xA0],
      [CHR 0xE1, CHR 0x9A, CHR 0x80],
      [CHR 0xE2, CHR 0x80, CHR 0x80], [CHR 0xE2, CHR 0x80, CHR 0x81],
      [CHR 0xE2, CHR 0x80, CHR 0x82], [CHR 0xE2, CHR 0x80, CHR 0x83],
      [CHR 0xE2, CHR 0x80, CHR 0x84], [CHR 0xE2, CHR 0x80, CHR 0x85],
      [CHR 0xE2, CHR 0x80, CHR 0x86], [CHR 0xE2, CHR 0x80, CHR 0x87],
      [CHR 0xE2, CHR 0x80, CHR 0x88], [CHR 0xE2, CHR 0x80, CHR 0x89],
      [CHR 0xE2, CHR 0x80, CHR 0x8A],
      [CHR 0xE2, CHR 0x80, CHR 0xA8], [CHR 0xE2, CHR 0x80, CHR 0xA9],
      [CHR 0xE2, CHR 0x80, CHR 0xAF], [CHR 0xE2, CHR 0x81, CHR 0x9F],
      [CHR 0xE3, CHR 0x80, CHR 0x80]]"

lemma whitespace_nonempty: "w \<in> set whitespace \<Longrightarrow> w \<noteq> []"
  by (auto simp: whitespace_def)

function trim_start :: "string \<Rightarrow> string" where
  "trim_start s =
     (case List.find (\<lambda>w. prefix w s) whitespace of
        None \<Rightarrow> s
      | Some w \<Rightarrow> trim_start (drop (length w) s))"
  by pat_completeness auto
termination
proof (relation "measure length", simp)
  fix s :: string and w
  assume "List.find (\<lambda>w. prefix w s) whitespace = Some w"
  then have "w \<in> set whitespace" "prefix w s"
    by (auto dest: find_Some_in)
  then have "0 < length w" "length w \<le> length s"
    using whitespace_nonempty by (auto dest: prefix_length_le)
  then show "(drop (length w) s, s) \<in> measure length" by (cases w) auto
qed

function trim_end :: "string \<Rightarrow> string" where
  "trim_end s =
     (case List.find (\<lambda>w. suffix w s) whitespace of
        None \<Rightarrow> s
      | Some w \<Rightarrow> trim_end (take (length s - length w) s))"
  by pat_completeness auto
termination
proof (relation "measure length", simp)
  fix s :: string and w
  assume "List.find (\<lambda>w. suffix w s) whitespace = Some w"
  then have "w \<in> set whitespace" "suffix w s"
    by (auto dest: find_Some_in)
  then have "0 < length w" "length w \<le> length s"
    using whitespace_nonempty by (auto dest: suffix_length_le)
  then show "(take (length s - length w) s, s) \<in> measure length" by (cases w) auto
qed

definition trim :: "string \<Rightarrow> string" where
  "trim s = trim_end (trim_start s)"

declare trim_start.simps [simp del] trim_end.simps [simp del]

lemma trim_start_suffix: "suffix (trim_start s) s"
proof (induction s rule: trim_start.induct)
  case (1 s)
  show ?case
    using 1 by (subst trim_start.simps)
      (auto split: option.split intro: suffix_order.trans suffix_drop)
qed

lemma trim_end_prefix: "prefix (trim_end s) s"
proof (induction s rule: trim_end.induct)
  case (1 s)
  show ?case
    using 1 by (subst trim_end.simps)
      (auto split: option.split intro: prefix_order.trans take_is_prefix)
qed

lemma trim_end_stop: "w \<in> set whitespace \<Longrightarrow> \<not> suffix w (trim_end s)"
proof (induction s rule: trim_end.induct)
  case (1 s)
  show ?case
    using 1 by (subst trim_end.simps) (auto split: option.split simp: find_None_all)
qed

lemma length_trim: "length (trim s) \<le> length s"
  using prefix_length_le [OF trim_end_prefix, of "trim_start s"]
    suffix_length_le [OF trim_start_suffix, of s]
  by (simp add: trim_def)

lemma trim_start_stop: "w \<in> set whitespace \<Longrightarrow> \<not> prefix w (trim_start s)"
proof (induction s rule: trim_start.induct)
  case (1 s)
  show ?case
    using 1 by (subst trim_start.simps) (auto split: option.split simp: find_None_all)
qed

text \<open>Trimmed text has no white space at either end, and trimming it again changes nothing.\<close>

lemma trim_ends:
  assumes "w \<in> set whitespace"
  shows "\<not> prefix w (trim s)" and "\<not> suffix w (trim s)"
  using assms trim_start_stop [of w s] trim_end_stop [of w "trim_start s"]
    trim_end_prefix [of "trim_start s"]
  by (auto simp: trim_def dest: prefix_order.trans)

lemma trim_idem [simp]: "trim (trim s) = trim s"
proof -
  have "List.find (\<lambda>w. prefix w (trim s)) whitespace = None"
    using trim_ends(1) by (auto simp: find_None_all)
  then have start: "trim_start (trim s) = trim s" by (subst trim_start.simps) simp
  have "List.find (\<lambda>w. suffix w (trim s)) whitespace = None"
    using trim_ends(2) by (auto simp: find_None_all)
  then have "trim_end (trim s) = trim s" by (subst trim_end.simps) simp
  with start show ?thesis by (simp add: trim_def)
qed

lemma has_control_append: "has_control s \<Longrightarrow> has_control (p @ s @ q)"
proof (induction p)
  case Nil
  then show ?case
  proof (induction s)
    case (Cons c cs)
    then show ?case by (cases cs) auto
  qed simp
qed simp

lemma has_control_trim: "has_control (trim s) \<Longrightarrow> has_control s"
proof -
  assume c: "has_control (trim s)"
  obtain p where p: "s = p @ trim_start s" using trim_start_suffix by (metis suffix_def)
  obtain q where "trim_start s = trim s @ q"
    using trim_end_prefix [of "trim_start s"] by (auto simp: trim_def prefix_def)
  with p have eq: "s = p @ trim s @ q" by (simp only:)
  show ?thesis by (subst eq) (rule has_control_append [OF c])
qed


section \<open>\<open>validation.rs\<close>: errors and text constraints\<close>

datatype IdentifierError =
    Empty
  | TooLong nat
  | ReservedPrefix
  | ControlCharacter
  | MissingPrefix string
  | InvalidFormat

datatype PolicyError = Denied string

datatype MeteringError = InvalidDecimal | InvalidCurrency

definition validate_text ::
  "string \<Rightarrow> nat \<Rightarrow> bool \<Rightarrow> string option \<Rightarrow> IdentifierError + unit" where
  "validate_text v max_bytes reject_reserved_prefix required_prefix =
     (if v = [] then Err Empty
      else if max_bytes < length v then Err (TooLong max_bytes)
      else if has_control v then Err ControlCharacter
      else if reject_reserved_prefix \<and> prefix ''__'' v then Err ReservedPrefix
      else case required_prefix of
             Some p \<Rightarrow> if \<not> prefix p v then Err (MissingPrefix p) else Ok ()
           | None \<Rightarrow> Ok ())"

text \<open>The texts that pass, as one condition.\<close>

definition text_ok :: "string \<Rightarrow> nat \<Rightarrow> bool \<Rightarrow> string option \<Rightarrow> bool" where
  "text_ok v m r p \<longleftrightarrow>
     v \<noteq> [] \<and> length v \<le> m \<and> \<not> has_control v \<and> (r \<longrightarrow> \<not> prefix ''__'' v)
     \<and> is_none_or p (\<lambda>q. prefix q v)"

lemma validate_text_iff [guard_simps]: "validate_text v m r p = Ok u \<longleftrightarrow> text_ok v m r p"
  by (auto simp: validate_text_def text_ok_def split: option.splits)

text \<open>The newtypes wrap the text behind this check; one rule serves all of them.\<close>

lemma validated_newtype_iff:
  "(case validate_text v m r p of Inl e \<Rightarrow> Err e | Inr _ \<Rightarrow> Ok x) = Ok k
     \<longleftrightarrow> k = x \<and> text_ok v m r p"
  using validate_text_iff [of v m r p "()"] by (cases "validate_text v m r p") auto

text \<open>Which error is reported: the first guard that fails, in the order of the source.\<close>

lemma validate_text_first_error:
  "validate_text v m r p = Err e \<longleftrightarrow>
     (e = Empty \<and> v = [])
     \<or> (e = TooLong m \<and> v \<noteq> [] \<and> m < length v)
     \<or> (e = ControlCharacter \<and> v \<noteq> [] \<and> length v \<le> m \<and> has_control v)
     \<or> (e = ReservedPrefix \<and> v \<noteq> [] \<and> length v \<le> m \<and> \<not> has_control v
          \<and> r \<and> prefix ''__'' v)
     \<or> (\<exists>q. e = MissingPrefix q \<and> p = Some q \<and> v \<noteq> [] \<and> length v \<le> m \<and> \<not> has_control v
          \<and> (r \<longrightarrow> \<not> prefix ''__'' v) \<and> \<not> prefix q v)"
  by (auto simp: validate_text_def split: option.splits)


section \<open>Identifier newtypes\<close>

datatype ProviderKind = ProviderKind (provider_kind_str: string)

definition new_ProviderKind :: "string \<Rightarrow> IdentifierError + ProviderKind" where
  "new_ProviderKind v =
     (case validate_text v 64 True None of Inl e \<Rightarrow> Err e | Inr _ \<Rightarrow> Ok (ProviderKind v))"

datatype ProviderAccountId = ProviderAccountId (account_id_str: string)

definition new_ProviderAccountId :: "string \<Rightarrow> IdentifierError + ProviderAccountId" where
  "new_ProviderAccountId v =
     (case validate_text v 128 False (Some ''acct_'') of
        Inl e \<Rightarrow> Err e | Inr _ \<Rightarrow> Ok (ProviderAccountId v))"

datatype AccountGroupId = AccountGroupId (group_id_str: string)

definition is_lower_hex :: "char \<Rightarrow> bool" where
  "is_lower_hex c \<longleftrightarrow> is_ascii_digit c \<or> (97 \<le> byte c \<and> byte c \<le> 102)"

definition new_AccountGroupId :: "string \<Rightarrow> IdentifierError + AccountGroupId" where
  "new_AccountGroupId v =
     (if \<not> prefix ''grp_'' v then Err (MissingPrefix ''grp_'')
      else let suffix = drop 4 v in
           if length suffix \<noteq> 32 \<or> \<not> list_all is_lower_hex suffix then Err InvalidFormat
           else Ok (AccountGroupId v))"

datatype ClientApiKeyId = ClientApiKeyId (client_key_id_str: string)

definition new_ClientApiKeyId :: "string \<Rightarrow> IdentifierError + ClientApiKeyId" where
  "new_ClientApiKeyId v =
     (case validate_text v 128 False None of Inl e \<Rightarrow> Err e | Inr _ \<Rightarrow> Ok (ClientApiKeyId v))"

datatype PlaintextClientApiKey = PlaintextClientApiKey (expose_for_auth: string)

definition validate_PlaintextClientApiKey :: "string \<Rightarrow> IdentifierError + unit" where
  "validate_PlaintextClientApiKey v =
     (if v = [] then Err Empty
      else if \<not> list_all is_ascii_graphic v then Err InvalidFormat
      else Ok ())"

definition new_PlaintextClientApiKey :: "string \<Rightarrow> IdentifierError + PlaintextClientApiKey" where
  "new_PlaintextClientApiKey v =
     (case validate_PlaintextClientApiKey v of
        Inl e \<Rightarrow> Err e | Inr _ \<Rightarrow> Ok (PlaintextClientApiKey v))"

datatype UpstreamTransport = UpstreamTransport (transport_str: string)

definition new_UpstreamTransport :: "string \<Rightarrow> IdentifierError + UpstreamTransport" where
  "new_UpstreamTransport v =
     (case validate_text v 64 True None of Inl e \<Rightarrow> Err e | Inr _ \<Rightarrow> Ok (UpstreamTransport v))"

lemma new_ProviderKind_iff [guard_simps]:
  "new_ProviderKind v = Ok k \<longleftrightarrow> k = ProviderKind v \<and> text_ok v 64 True None"
  by (simp add: new_ProviderKind_def validated_newtype_iff)

lemma new_ProviderAccountId_iff [guard_simps]:
  "new_ProviderAccountId v = Ok k \<longleftrightarrow>
     k = ProviderAccountId v \<and> text_ok v 128 False (Some ''acct_'')"
  by (simp add: new_ProviderAccountId_def validated_newtype_iff)

lemma new_ClientApiKeyId_iff [guard_simps]:
  "new_ClientApiKeyId v = Ok k \<longleftrightarrow> k = ClientApiKeyId v \<and> text_ok v 128 False None"
  by (simp add: new_ClientApiKeyId_def validated_newtype_iff)

lemma new_AccountGroupId_iff [guard_simps]:
  "new_AccountGroupId v = Ok g \<longleftrightarrow>
     g = AccountGroupId v \<and> prefix ''grp_'' v \<and> length v = 36 \<and> list_all is_lower_hex (drop 4 v)"
  by (auto simp: new_AccountGroupId_def Let_def dest: prefix_length_le)

lemma new_PlaintextClientApiKey_iff [guard_simps]:
  "new_PlaintextClientApiKey v = Ok k \<longleftrightarrow>
     k = PlaintextClientApiKey v \<and> v \<noteq> [] \<and> list_all is_ascii_graphic v"
  by (auto simp: new_PlaintextClientApiKey_def validate_PlaintextClientApiKey_def)

text \<open>Account identifiers are ordered by their text, as the derived \<open>Ord\<close> of the newtype is.\<close>

instantiation ProviderAccountId :: linorder
begin

definition less_eq_ProviderAccountId :: "ProviderAccountId \<Rightarrow> ProviderAccountId \<Rightarrow> bool" where
  "less_eq_ProviderAccountId a b = (account_id_str a \<le> account_id_str b)"

definition less_ProviderAccountId :: "ProviderAccountId \<Rightarrow> ProviderAccountId \<Rightarrow> bool" where
  "less_ProviderAccountId a b = (account_id_str a < account_id_str b)"

instance
  by standard
    (auto simp: less_eq_ProviderAccountId_def less_ProviderAccountId_def
      intro: ProviderAccountId.expand)

end

end
