(* ===== verification/Decimal_Text.thy ===== *)
theory Decimal_Text
  imports Rust_Text "HOL-Library.Monad_Syntax"
begin

text \<open>
  The fixed-point amounts of \<open>metering/mod.rs\<close>: \<open>Decimal\<close>, a non-negative value scaled by
  \<open>10 ^ 10\<close> that fits the column type \<open>numeric(20, 10)\<close>, with its checked arithmetic, its two
  printers (\<open>Display\<close> and \<open>canonical\<close>) and its parser \<open>FromStr\<close>. The first section is the
  decimal text of an unsigned integer (\<open>to_string\<close>, \<open>parse\<close>, the \<open>:010\<close> padding,
  \<open>trim_end_matches\<close>, \<open>split\<close>) as the standard library defines it.

  Main results: both printers are inverted by the parser on every value in range, the parser
  only produces values in range and gives the value the text denotes, and the arithmetic stays
  in range.
\<close>


section \<open>Decimal text of unsigned integers\<close>

definition digit_char :: "nat \<Rightarrow> char" where "digit_char d = char_of (48 + d)"

definition digit_value :: "char \<Rightarrow> nat" where "digit_value c = byte c - 48"

fun u_to_string :: "nat \<Rightarrow> string" where
  "u_to_string n = (if n < 10 then [digit_char n] else u_to_string (n div 10) @ [digit_char (n mod 10)])"

declare u_to_string.simps [simp del]

definition digits_value :: "string \<Rightarrow> nat" where
  "digits_value s = foldl (\<lambda>acc c. acc * 10 + digit_value c) 0 s"

text \<open>\<open>str::parse::<uN>\<close> on a text of ASCII digits: empty text and overflow are errors.\<close>

definition parse_u :: "nat \<Rightarrow> string \<Rightarrow> nat option" where
  "parse_u w s =
     (if s = [] \<or> \<not> list_all is_ascii_digit s then None
      else if digits_value s < 2 ^ w then Some (digits_value s) else None)"

definition pad_zero :: "nat \<Rightarrow> string \<Rightarrow> string" where
  "pad_zero w s = replicate (w - length s) (CHR ''0'') @ s"

definition trim_end_zeros :: "string \<Rightarrow> string" where
  "trim_end_zeros s = rev (dropWhile (\<lambda>c. c = CHR ''0'') (rev s))"

fun split_on :: "char \<Rightarrow> string \<Rightarrow> string list" where
  "split_on sep [] = [[]]"
| "split_on sep (c # cs) =
     (if c = sep then [] # split_on sep cs
      else case split_on sep cs of [] \<Rightarrow> [[c]] | p # ps \<Rightarrow> (c # p) # ps)"

lemma byte_digit_char [simp]: "d < 10 \<Longrightarrow> byte (digit_char d) = 48 + d"
  by (simp add: byte_def digit_char_def)

lemma digit_value_digit_char [simp]: "d < 10 \<Longrightarrow> digit_value (digit_char d) = d"
  by (simp add: digit_value_def)

lemma is_ascii_digit_digit_char [simp]: "d < 10 \<Longrightarrow> is_ascii_digit (digit_char d)"
  by (simp add: is_ascii_digit_def)

lemma zero_char [simp]: "digit_value (CHR ''0'') = 0" "is_ascii_digit (CHR ''0'')"
  by (simp_all add: digit_value_def byte_def is_ascii_digit_def)

lemma not_digit [simp]:
  "\<not> is_ascii_digit (CHR ''.'')" "\<not> is_ascii_digit (CHR ''-'')" "\<not> is_ascii_digit (CHR ''+'')"
  by (simp_all add: is_ascii_digit_def byte_def)

lemma digits_value_Nil [simp]: "digits_value [] = 0"
  by (simp add: digits_value_def)

lemma digits_value_append:
  "digits_value (s @ t) = digits_value s * 10 ^ length t + digits_value t"
proof (induction t rule: rev_induct)
  case (snoc c t)
  then show ?case by (simp add: digits_value_def algebra_simps flip: append_assoc)
qed simp

lemma digits_value_single [simp]: "digits_value [c] = digit_value c"
  by (simp add: digits_value_def)

lemma digits_value_zeros [simp]: "digits_value (replicate k (CHR ''0'')) = 0"
proof (induction k)
  case (Suc k)
  have "replicate (Suc k) (CHR ''0'') = [CHR ''0''] @ replicate k (CHR ''0'')" by simp
  then show ?case using Suc by (simp only: digits_value_append) simp
qed simp

lemma u_to_string_nonempty [simp]: "u_to_string n \<noteq> []"
  by (subst u_to_string.simps) simp

lemma u_to_string_digits [simp]: "list_all is_ascii_digit (u_to_string n)"
  by (induction n rule: u_to_string.induct) (subst u_to_string.simps, simp)

lemma digits_value_u_to_string [simp]: "digits_value (u_to_string n) = n"
proof (induction n rule: u_to_string.induct)
  case (1 n)
  then show ?case
    by (subst u_to_string.simps) (simp add: digits_value_append)
qed

lemma length_u_to_string: "0 < k \<Longrightarrow> n < 10 ^ k \<Longrightarrow> length (u_to_string n) \<le> k"
proof (induction k arbitrary: n)
  case (Suc k)
  show ?case
  proof (cases "n < 10")
    case True
    then show ?thesis by (subst u_to_string.simps) simp
  next
    case False
    then have "k \<noteq> 0" using Suc.prems by (cases k) auto
    moreover have "n div 10 < 10 ^ k"
      using Suc.prems by (simp add: less_mult_imp_div_less mult.commute)
    ultimately have "length (u_to_string (n div 10)) \<le> k" using Suc.IH by simp
    with False show ?thesis by (subst u_to_string.simps) simp
  qed
qed simp

lemma pad_zero_facts:
  "digits_value (pad_zero w s) = digits_value s"
  "list_all is_ascii_digit s \<Longrightarrow> list_all is_ascii_digit (pad_zero w s)"
  "length s \<le> w \<Longrightarrow> length (pad_zero w s) = w"
  by (auto simp: pad_zero_def digits_value_append list_all_iff)

lemma trim_end_zeros_decomp:
  "\<exists>k. s = trim_end_zeros s @ replicate k (CHR ''0'')"
proof -
  let ?z = "takeWhile (\<lambda>c. c = CHR ''0'') (rev s)"
  have z: "?z = replicate (length ?z) (CHR ''0'')"
    by (rule replicate_eqI [symmetric, THEN sym]) (auto dest: set_takeWhileD)
  have "rev s = ?z @ dropWhile (\<lambda>c. c = CHR ''0'') (rev s)" by simp
  then have "s = trim_end_zeros s @ rev ?z"
    unfolding trim_end_zeros_def by (metis rev_append rev_rev_ident)
  moreover have "rev ?z = replicate (length ?z) (CHR ''0'')"
    using z by (metis rev_replicate)
  ultimately show ?thesis by metis
qed

lemma split_on_nonempty [simp]: "split_on sep s \<noteq> []"
  by (induction s) (auto split: list.splits)

lemma split_on_no_sep: "sep \<notin> set s \<Longrightarrow> split_on sep s = [s]"
  by (induction s) auto

lemma split_on_append:
  "sep \<notin> set s \<Longrightarrow> split_on sep (s @ sep # t) = s # split_on sep t"
  by (induction s) auto

lemma digits_no_dot: "list_all is_ascii_digit s \<Longrightarrow> CHR ''.'' \<notin> set s"
  by (auto simp: list_all_iff)

lemma digits_value_bound: "list_all is_ascii_digit s \<Longrightarrow> digits_value s < 10 ^ length s"
proof (induction s rule: rev_induct)
  case (snoc c s)
  then have "digits_value s < 10 ^ length s" "digit_value c \<le> 9"
    by (auto simp: is_ascii_digit_def digit_value_def)
  then show ?case by (simp add: digits_value_append)
qed simp


section \<open>\<open>Decimal\<close>\<close>

definition DECIMAL_SCALE :: nat where "DECIMAL_SCALE = 10000000000"

definition MAX_SCALED_DECIMAL :: nat where "MAX_SCALED_DECIMAL = 99999999999999999999"

datatype Decimal = Decimal (scaled: nat)

definition Decimal_ZERO :: Decimal where "Decimal_ZERO = Decimal 0"

definition Decimal_MAX :: Decimal where "Decimal_MAX = Decimal MAX_SCALED_DECIMAL"

definition from_scaled :: "nat \<Rightarrow> MeteringError + Decimal" where
  "from_scaled v = (if MAX_SCALED_DECIMAL < v then Err InvalidDecimal else Ok (Decimal v))"

definition saturating_sub :: "Decimal \<Rightarrow> Decimal \<Rightarrow> Decimal" where
  "saturating_sub a b = Decimal (scaled a - scaled b)"

definition checked_add :: "Decimal \<Rightarrow> Decimal \<Rightarrow> Decimal option" where
  "checked_add a b =
     map_option Decimal
       (filter_option (\<lambda>v. v \<le> MAX_SCALED_DECIMAL) (checked_add_u 128 (scaled a) (scaled b)))"

definition checked_div_u64 :: "Decimal \<Rightarrow> nat \<Rightarrow> Decimal option" where
  "checked_div_u64 a divisor =
     do { v \<leftarrow> (if divisor \<noteq> 0 then checked_div_u (scaled a) divisor else None);
          ok (from_scaled v) }"

definition canonical :: "Decimal \<Rightarrow> string" where
  "canonical d =
     (let integer = scaled d div DECIMAL_SCALE; fraction = scaled d mod DECIMAL_SCALE in
      if fraction = 0 then u_to_string integer
      else u_to_string integer @ ''.'' @ trim_end_zeros (pad_zero 10 (u_to_string fraction)))"

definition display :: "Decimal \<Rightarrow> string" where
  "display d =
     u_to_string (scaled d div DECIMAL_SCALE) @ ''.''
       @ pad_zero 10 (u_to_string (scaled d mod DECIMAL_SCALE))"

definition from_str :: "string \<Rightarrow> MeteringError + Decimal" where
  "from_str v =
     (if v = [] \<or> hd v = CHR ''-'' \<or> hd v = CHR ''+'' then Err InvalidDecimal
      else
        let parts = split_on (CHR ''.'') v;
            integer = hd parts;
            fraction = (case tl parts of [] \<Rightarrow> [] | f # _ \<Rightarrow> f) in
        if 2 < length parts \<or> integer = [] \<or> 10 < length integer
           \<or> \<not> list_all is_ascii_digit integer
           \<or> 10 < length fraction \<or> \<not> list_all is_ascii_digit fraction
        then Err InvalidDecimal
        else
          case do { i \<leftarrow> parse_u 128 integer;
                    f \<leftarrow> (if fraction = [] then Some 0
                         else map_option (\<lambda>f. f * 10 ^ (10 - length fraction)) (parse_u 128 fraction));
                    whole \<leftarrow> checked_mul_u 128 i DECIMAL_SCALE;
                    checked_add_u 128 whole f } of
            None \<Rightarrow> Err InvalidDecimal
          | Some s \<Rightarrow> from_scaled s)"

text \<open>The order derived on the newtype.\<close>

instantiation Decimal :: linorder
begin

definition less_eq_Decimal :: "Decimal \<Rightarrow> Decimal \<Rightarrow> bool" where
  "less_eq_Decimal a b = (scaled a \<le> scaled b)"

definition less_Decimal :: "Decimal \<Rightarrow> Decimal \<Rightarrow> bool" where
  "less_Decimal a b = (scaled a < scaled b)"

instance
  by standard (auto simp: less_eq_Decimal_def less_Decimal_def intro: Decimal.expand)

end


section \<open>Range\<close>

text \<open>The range of the database column: the invariant of every value the module produces.\<close>

definition decimal_ok :: "Decimal \<Rightarrow> bool" where
  "decimal_ok d \<longleftrightarrow> scaled d \<le> MAX_SCALED_DECIMAL"

lemma decimal_limits:
  "MAX_SCALED_DECIMAL < 2 ^ 128" "MAX_SCALED_DECIMAL + 1 = 10 ^ 10 * DECIMAL_SCALE"
  by (simp_all add: MAX_SCALED_DECIMAL_def DECIMAL_SCALE_def)

lemma from_scaled_iff [simp]: "from_scaled v = Ok d \<longleftrightarrow> d = Decimal v \<and> v \<le> MAX_SCALED_DECIMAL"
  by (auto simp: from_scaled_def)

lemma from_scaled_ok [inv_intros]: "from_scaled v = Ok d \<Longrightarrow> decimal_ok d"
  by (simp add: decimal_ok_def)

lemma decimal_const_ok [inv_intros]: "decimal_ok Decimal_ZERO" "decimal_ok Decimal_MAX"
  by (simp_all add: decimal_ok_def Decimal_ZERO_def Decimal_MAX_def)

lemma saturating_sub_ok [inv_intros]: "decimal_ok a \<Longrightarrow> decimal_ok (saturating_sub a b)"
  by (simp add: decimal_ok_def saturating_sub_def)

lemma checked_add_iff:
  "checked_add a b = Some c \<longleftrightarrow>
     c = Decimal (scaled a + scaled b) \<and> scaled a + scaled b \<le> MAX_SCALED_DECIMAL"
  using decimal_limits(1)
  by (cases "checked_add_u 128 (scaled a) (scaled b)")
    (auto simp: checked_add_def checked_add_u_def split: if_splits)

lemma checked_add_ok [inv_intros]: "checked_add a b = Some c \<Longrightarrow> decimal_ok c"
  by (simp add: checked_add_iff decimal_ok_def)

lemma checked_div_u64_iff:
  "decimal_ok a \<Longrightarrow> checked_div_u64 a n = Some c \<longleftrightarrow> n \<noteq> 0 \<and> c = Decimal (scaled a div n)"
  using le_trans [OF div_le_dividend, of "scaled a" MAX_SCALED_DECIMAL n]
  by (auto simp: checked_div_u64_def decimal_ok_def checked_div_u_def)

lemma checked_div_u64_ok [inv_intros]: "checked_div_u64 a n = Some c \<Longrightarrow> decimal_ok c"
  by (auto simp: checked_div_u64_def decimal_ok_def checked_div_u_def split: if_splits)


section \<open>Parsing\<close>

text \<open>
  What a text of the accepted shape denotes: the digits before the point in units of the scale,
  the digits after it padded to ten places.
\<close>

definition text_value :: "string \<Rightarrow> string \<Rightarrow> nat" where
  "text_value i f = digits_value i * DECIMAL_SCALE + digits_value f * 10 ^ (10 - length f)"

lemma parse_u_digits:
  assumes "s \<noteq> []" and "list_all is_ascii_digit s" and "length s \<le> 10"
  shows "parse_u 128 s = Some (digits_value s)"
proof -
  have "digits_value s < 10 ^ length s" using assms(2) by (rule digits_value_bound)
  also have "\<dots> \<le> 10 ^ 10" using assms(3) by (intro power_increasing) auto
  also have "\<dots> < (2::nat) ^ 128" by simp
  finally show ?thesis using assms by (simp add: parse_u_def)
qed

lemma text_value_bound:
  assumes "list_all is_ascii_digit i" "length i \<le> 10"
    and "list_all is_ascii_digit f" "length f \<le> 10"
  shows "text_value i f \<le> MAX_SCALED_DECIMAL"
proof -
  have i: "digits_value i < 10 ^ 10"
    using digits_value_bound [OF assms(1)] power_increasing [OF assms(2), of "10::nat"] by simp
  have "digits_value f * 10 ^ (10 - length f) < 10 ^ length f * (10::nat) ^ (10 - length f)"
    using digits_value_bound [OF assms(3)] by simp
  also have "\<dots> = 10 ^ 10" using assms(4) by (simp flip: power_add)
  finally show ?thesis
    using i by (simp add: text_value_def DECIMAL_SCALE_def MAX_SCALED_DECIMAL_def)
qed

lemma from_str_shape:
  assumes i: "i \<noteq> []" "list_all is_ascii_digit i" "length i \<le> 10"
    and f: "list_all is_ascii_digit f" "length f \<le> 10"
  shows "from_str (i @ ''.'' @ f) = Ok (Decimal (text_value i f))"
    and "from_str i = Ok (Decimal (text_value i []))"
proof -
  have hd: "hd i \<noteq> CHR ''-''" "hd i \<noteq> CHR ''+''" using i by (cases i; auto)+
  have nodot: "CHR ''.'' \<notin> set i" "CHR ''.'' \<notin> set f" using i f by (auto dest: digits_no_dot)
  have bound: "text_value i f \<le> MAX_SCALED_DECIMAL" "text_value i [] \<le> MAX_SCALED_DECIMAL"
    using i f text_value_bound by auto
  have pi: "parse_u 128 i = Some (digits_value i)" using i by (rule parse_u_digits)
  have pf: "f \<noteq> [] \<Longrightarrow> parse_u 128 f = Some (digits_value f)"
    using f parse_u_digits [of f] by simp
  have small: "digits_value i * DECIMAL_SCALE < 2 ^ 128" "text_value i f < 2 ^ 128"
    using bound decimal_limits(1) by (auto simp: text_value_def)
  have s1: "split_on (CHR ''.'') (i @ ''.'' @ f) = [i, f]"
    using split_on_append [OF nodot(1), of f] split_on_no_sep [OF nodot(2)] by simp
  have s2: "split_on (CHR ''.'') i = [i]" using nodot(1) by (rule split_on_no_sep)
  show "from_str (i @ ''.'' @ f) = Ok (Decimal (text_value i f))"
    unfolding from_str_def Let_def s1
    using i f hd pi pf small bound
    by (cases "f = []") (simp_all add: checked_mul_u_def checked_add_u_def text_value_def from_scaled_def)
  show "from_str i = Ok (Decimal (text_value i []))"
    unfolding from_str_def Let_def s2
    using i hd pi small bound
    by (simp add: checked_mul_u_def checked_add_u_def text_value_def from_scaled_def)
qed

lemma from_str_ok [inv_intros]: "from_str s = Ok d \<Longrightarrow> decimal_ok d"
  by (auto simp: from_str_def Let_def decimal_ok_def split: if_splits option.splits)

text \<open>Every accepted text has the shape of the grammar, and the result is the value it denotes.\<close>

lemma from_str_inversion:
  assumes "from_str s = Ok d"
  obtains i f where "s = i \<or> s = i @ ''.'' @ f" "s = i \<longrightarrow> f = []"
    "i \<noteq> []" "list_all is_ascii_digit i" "length i \<le> 10"
    "list_all is_ascii_digit f" "length f \<le> 10" "d = Decimal (text_value i f)"
proof -
  let ?parts = "split_on (CHR ''.'') s"
  have join: "\<And>t. t = concat (map (\<lambda>p. p @ ''.'') (butlast (split_on (CHR ''.'') t)))
                  @ last (split_on (CHR ''.'') t)"
    subgoal for t by (induction t) (auto split: list.splits if_splits)
    done
  define i where "i = hd ?parts"
  define f where "f = (case tl ?parts of [] \<Rightarrow> [] | f # _ \<Rightarrow> f)"
  have guards: "length ?parts \<le> 2" "i \<noteq> []" "length i \<le> 10" "list_all is_ascii_digit i"
    "length f \<le> 10" "list_all is_ascii_digit f"
    using assms by (auto simp: from_str_def Let_def i_def f_def split: if_splits)
  have s: "(s = i \<and> f = []) \<or> s = i @ ''.'' @ f"
  proof (cases ?parts)
    case (Cons p ps)
    then show ?thesis using guards(1) join [of s] by (cases ps) (auto simp: i_def f_def)
  qed simp
  then have "d = Decimal (text_value i f)"
    using assms from_str_shape [OF guards(2,4,3,6,5)] by auto
  then show ?thesis using that [of i f] s guards by auto
qed


section \<open>Round trips\<close>

lemma integer_part_facts:
  assumes "decimal_ok d"
  shows "length (u_to_string (scaled d div DECIMAL_SCALE)) \<le> 10"
proof -
  have "scaled d < 10 ^ 10 * DECIMAL_SCALE" using assms decimal_limits(2) by (simp add: decimal_ok_def)
  then have "scaled d div DECIMAL_SCALE < 10 ^ 10" by (simp add: less_mult_imp_div_less)
  then show ?thesis by (intro length_u_to_string) auto
qed

lemma fraction_part_facts:
  shows "length (pad_zero 10 (u_to_string (n mod DECIMAL_SCALE))) = 10"
    and "list_all is_ascii_digit (pad_zero 10 (u_to_string (n mod DECIMAL_SCALE)))"
    and "digits_value (pad_zero 10 (u_to_string (n mod DECIMAL_SCALE))) = n mod DECIMAL_SCALE"
proof -
  have "n mod DECIMAL_SCALE < 10 ^ 10" by (simp add: DECIMAL_SCALE_def)
  then have "length (u_to_string (n mod DECIMAL_SCALE)) \<le> 10" by (intro length_u_to_string) auto
  then show "length (pad_zero 10 (u_to_string (n mod DECIMAL_SCALE))) = 10" by (rule pad_zero_facts)
qed (simp_all add: pad_zero_facts)

lemma from_str_display:
  assumes "decimal_ok d"
  shows "from_str (display d) = Ok d"
proof -
  let ?i = "u_to_string (scaled d div DECIMAL_SCALE)"
  let ?p = "pad_zero 10 (u_to_string (scaled d mod DECIMAL_SCALE))"
  have "from_str (?i @ ''.'' @ ?p) = Ok (Decimal (text_value ?i ?p))"
    using integer_part_facts [OF assms] fraction_part_facts [of "scaled d"]
    by (intro from_str_shape(1)) simp_all
  moreover have "text_value ?i ?p = scaled d"
    using fraction_part_facts [of "scaled d"] by (simp add: text_value_def)
  ultimately show ?thesis by (simp only: display_def Decimal.collapse)
qed

lemma trimmed_fraction_value:
  assumes "length s = 10"
  shows "digits_value (trim_end_zeros s) * 10 ^ (10 - length (trim_end_zeros s)) = digits_value s"
    and "length (trim_end_zeros s) \<le> 10"
proof -
  obtain k where k: "s = trim_end_zeros s @ replicate k (CHR ''0'')"
    using trim_end_zeros_decomp by blast
  then have "length (trim_end_zeros s) + k = 10"
    using assms by (metis length_append length_replicate)
  moreover have "digits_value s = digits_value (trim_end_zeros s) * 10 ^ k"
    by (subst k) (simp add: digits_value_append)
  ultimately show "digits_value (trim_end_zeros s) * 10 ^ (10 - length (trim_end_zeros s)) = digits_value s"
    and "length (trim_end_zeros s) \<le> 10" by auto
qed

lemma trim_end_zeros_digits: "list_all is_ascii_digit s \<Longrightarrow> list_all is_ascii_digit (trim_end_zeros s)"
  by (auto simp: trim_end_zeros_def list_all_iff dest: set_dropWhileD)

lemma from_str_canonical:
  assumes "decimal_ok d"
  shows "from_str (canonical d) = Ok d"
proof -
  let ?i = "u_to_string (scaled d div DECIMAL_SCALE)"
  let ?p = "pad_zero 10 (u_to_string (scaled d mod DECIMAL_SCALE))"
  have i: "?i \<noteq> []" "list_all is_ascii_digit ?i" "length ?i \<le> 10"
    using integer_part_facts [OF assms] by auto
  have p: "list_all is_ascii_digit (trim_end_zeros ?p)" "length (trim_end_zeros ?p) \<le> 10"
    using fraction_part_facts [of "scaled d"]
    by (auto intro: trim_end_zeros_digits trimmed_fraction_value(2))
  have "text_value ?i (trim_end_zeros ?p) = scaled d"
    using fraction_part_facts [of "scaled d"] trimmed_fraction_value(1) [of ?p]
    by (simp add: text_value_def)
  moreover have "scaled d mod DECIMAL_SCALE = 0 \<Longrightarrow> text_value ?i [] = scaled d"
    by (simp add: text_value_def) (metis mod_0_imp_dvd dvd_div_mult_self)
  ultimately show ?thesis
    using from_str_shape(1) [OF i p] from_str_shape(2) [OF i p]
    unfolding canonical_def Let_def by (cases d) auto
qed

end
