(* ===== verification/Wire_Enum.thy ===== *)
theory Wire_Enum
  imports Rust_Text
begin

text \<open>
  The contract of an enum with a stable text form: \<open>as_str\<close> gives the text that is stored in the
  database or sent on the wire and \<open>parse\<close> reads it back. Each enum of the account domain
  interprets the locale; its consequences (injectivity, exactness of \<open>parse\<close>, the finite set of
  accepted texts) are proved once here.
\<close>

locale wire_enum =
  fixes as_str :: "'e \<Rightarrow> string"
    and parse :: "string \<Rightarrow> 'e option"
  assumes parse_as_str: "parse (as_str e) = Some e"
    and parse_exact: "parse s = Some e \<Longrightarrow> s = as_str e"
begin

lemma parse_iff: "parse s = Some e \<longleftrightarrow> s = as_str e"
  using parse_as_str parse_exact by blast

lemma as_str_inj: "as_str a = as_str b \<longleftrightarrow> a = b"
  using parse_as_str by (metis option.inject)

lemma parse_None_iff: "parse s = None \<longleftrightarrow> s \<notin> range as_str"
  using parse_iff by (metis not_None_eq rangeE rangeI)

text \<open>Reading back a stored column never yields a different value.\<close>

lemma roundtrip_list: "map parse (map as_str es) = map Some es"
  by (induction es) (simp_all add: parse_as_str)

end

end
