(* ===== verification/Float64.thy ===== *)
theory Float64
  imports Complex_Main Prelude
begin

text \<open>
  The \<open>f64\<close> arithmetic the account scheduler uses. A finite \<open>f64\<close> is the rational number it
  denotes; every operation is the exact rational operation followed by \<open>f64_round\<close>, IEEE 754
  round-to-nearest, ties to even, to 53 significant bits with gradual underflow at \<open>2 ^ -1074\<close>.
  The scheduler's values stay far below \<open>2 ^ 1024\<close> (weights up to ten, rates and scores of that
  size, millisecond counts below \<open>2 ^ 64\<close>), so overflow to infinity is not represented; NaN and
  infinite inputs are \<open>None\<close> where the source tests for them. All zeros the scheduler computes are
  sums and products of non-negative values, so \<open>total_cmp\<close> is the order of the rationals.

  Lemmas: rounding is monotone, exact on representable numbers, odd, and within half a unit of
  its argument; these carry every numeric property of the scheduler.
\<close>


named_theorems f64_mono \<open>monotonicity of the rounded operations\<close>


section \<open>Rounding\<close>

function ilog2 :: "int \<Rightarrow> int" where
  "ilog2 n = (if n < 2 then 0 else 1 + ilog2 (n div 2))"
  by pat_completeness auto
termination by (relation "measure nat") auto

declare ilog2.simps [simp del]

definition exponent_of :: "rat \<Rightarrow> int" where
  "exponent_of x =
     (let (p, q) = quotient_of x; k = ilog2 p - ilog2 q
      in if 2 powi k \<le> x then k else k - 1)"

definition ulp :: "rat \<Rightarrow> rat" where
  "ulp x = 2 powi (max (exponent_of \<bar>x\<bar> - 52) (- 1074))"

definition round_half_even :: "rat \<Rightarrow> int" where
  "round_half_even x =
     (let n = \<lfloor>x\<rfloor>; d = x - of_int n
      in if d < 1 / 2 then n
         else if d > 1 / 2 then n + 1
         else if even n then n else n + 1)"

definition f64_round :: "rat \<Rightarrow> rat" where
  "f64_round x = (if x = 0 then 0 else ulp x * of_int (round_half_even (x / ulp x)))"

definition fadd :: "rat \<Rightarrow> rat \<Rightarrow> rat" where "fadd x y = f64_round (x + y)"
definition fsub :: "rat \<Rightarrow> rat \<Rightarrow> rat" where "fsub x y = f64_round (x - y)"
definition fmul :: "rat \<Rightarrow> rat \<Rightarrow> rat" where "fmul x y = f64_round (x * y)"
definition fdiv :: "rat \<Rightarrow> rat \<Rightarrow> rat" where "fdiv x y = f64_round (x / y)"

text \<open>\<open>as f64\<close> and \<open>f64::from\<close> on unsigned integers; \<open>f64::round\<close> on non-negative values
  (halves away from zero); \<open>f64::clamp\<close>.\<close>

definition f64_of_nat :: "nat \<Rightarrow> rat" where "f64_of_nat n = f64_round (of_nat n)"

definition f64_round_int :: "rat \<Rightarrow> nat" where "f64_round_int x = nat \<lfloor>x + 1 / 2\<rfloor>"

definition f64_clamp :: "rat \<Rightarrow> rat \<Rightarrow> rat \<Rightarrow> rat" where
  "f64_clamp x lo hi = (if x < lo then lo else if x > hi then hi else x)"

text \<open>The numbers an \<open>f64\<close> can hold.\<close>

definition is_f64 :: "rat \<Rightarrow> bool" where
  "is_f64 x \<longleftrightarrow> f64_round x = x"


section \<open>The exponent\<close>

lemma powi2_less_iff: "(2::rat) powi a < 2 powi b \<longleftrightarrow> a < b"
  by (meson linorder_not_le one_le_numeral one_less_numeral_iff power_int_increasing
      power_int_strict_increasing semiring_norm(76) zero_neq_numeral)

lemma powi2_le_iff: "(2::rat) powi a \<le> 2 powi b \<longleftrightarrow> a \<le> b"
  by (meson linorder_not_le powi2_less_iff)

lemma ilog2_bounds:
  assumes "1 \<le> n"
  shows "0 \<le> ilog2 n \<and> (2::rat) powi (ilog2 n) \<le> of_int n \<and> of_int n < (2::rat) powi (ilog2 n + 1)"
  using assms
proof (induction n rule: ilog2.induct)
  case (1 n)
  show ?case
  proof (cases "n < 2")
    case True
    with 1 have "n = 1" by simp
    then show ?thesis by (simp add: ilog2.simps)
  next
    case False
    let ?k = "ilog2 (n div 2)"
    have IH: "0 \<le> ?k" "(2::rat) powi ?k \<le> of_int (n div 2)" "of_int (n div 2) < (2::rat) powi (?k + 1)"
      using 1 False by auto
    define m :: nat where "m = nat ?k"
    have k: "?k = int m" using IH(1) by (simp add: m_def)
    from IH(2,3) have "(of_int (2 ^ m) :: rat) \<le> of_int (n div 2)"
      "(of_int (n div 2) :: rat) < of_int (2 ^ (m + 1))"
      by (simp_all add: k power_int_add)
    then have "2 ^ m \<le> n div 2" "n div 2 < 2 ^ (m + 1)"
      by (simp_all only: of_int_le_iff of_int_less_iff)
    then have "2 * 2 ^ m \<le> n" "n < 2 * (2 ^ (m + 1))" by auto
    then have "(of_int (2 * 2 ^ m) :: rat) \<le> of_int n" "(of_int n :: rat) < of_int (2 * 2 ^ (m + 1))"
      by (simp_all only: of_int_le_iff of_int_less_iff)
    then show ?thesis using False by (simp add: ilog2.simps [of n] k power_int_add)
  qed
qed

lemma exponent_of_bounds:
  assumes "0 < x"
  shows "2 powi (exponent_of x) \<le> x" "x < 2 powi (exponent_of x + 1)"
proof -
  obtain p q where pq: "quotient_of x = (p, q)" by fastforce
  have q: "0 < q" using quotient_of_denom_pos [OF pq] .
  have x: "x = of_int p / of_int q" using quotient_of_div [OF pq] .
  have p: "0 < p" using assms q by (simp add: x zero_less_divide_iff)
  define a where "a = ilog2 p"
  define b where "b = ilog2 q"
  have pb: "(2::rat) powi a \<le> of_int p" "of_int p < (2::rat) powi (a + 1)"
    and qb: "(2::rat) powi b \<le> of_int q" "of_int q < (2::rat) powi (b + 1)"
    using ilog2_bounds [of p] ilog2_bounds [of q] p q by (simp_all add: a_def b_def)
  have "x \<ge> 2 powi a / 2 powi (b + 1)"
    unfolding x using pb(1) qb(2) q p by (intro frac_le) auto
  then have lo: "2 powi (a - b - 1) \<le> x" by (simp add: power_int_diff power_int_add field_simps)
  have "x < 2 powi (a + 1) / 2 powi b"
    unfolding x using pb(2) qb(1) q p by (intro frac_less) auto
  then have hi: "x < 2 powi (a - b + 1)" by (simp add: power_int_diff power_int_add field_simps)
  show "2 powi (exponent_of x) \<le> x" "x < 2 powi (exponent_of x + 1)"
    using lo hi by (auto simp: exponent_of_def pq a_def b_def Let_def)
qed

lemma exponent_of_unique:
  assumes "0 < x" "2 powi e \<le> x" "x < 2 powi (e + 1)"
  shows "exponent_of x = e"
proof -
  note b = exponent_of_bounds [OF assms(1)]
  have "(2::rat) powi e < 2 powi (exponent_of x + 1)" "(2::rat) powi (exponent_of x) < 2 powi (e + 1)"
    using b assms by (auto intro: le_less_trans)
  then have "e < exponent_of x + 1" "exponent_of x < e + 1"
    by (simp_all add: powi2_less_iff)
  then show ?thesis by simp
qed

lemma exponent_of_mono:
  assumes "0 < x" "x \<le> y"
  shows "exponent_of x \<le> exponent_of y"
proof -
  have "0 < y" using assms by simp
  have "(2::rat) powi (exponent_of x) < 2 powi (exponent_of y + 1)"
    using exponent_of_bounds [OF assms(1)] exponent_of_bounds [OF \<open>0 < y\<close>] assms(2)
    by (meson le_less_trans order_trans)
  then show ?thesis by (simp add: powi2_less_iff)
qed


section \<open>Rounding to an integer\<close>

lemma round_half_even_of_int [simp]: "round_half_even (of_int n) = n"
  by (simp add: round_half_even_def)

lemma round_half_even_0 [simp]: "round_half_even 0 = 0"
  by (simp add: round_half_even_def)

lemma round_half_even_error: "\<bar>of_int (round_half_even x) - x\<bar> \<le> 1 / 2"
proof -
  have "of_int \<lfloor>x\<rfloor> \<le> x" "x < of_int \<lfloor>x\<rfloor> + 1" by linarith+
  then show ?thesis by (auto simp: round_half_even_def Let_def)
qed

lemma round_half_even_mono:
  assumes "x \<le> y"
  shows "round_half_even x \<le> round_half_even y"
proof -
  have fl: "\<lfloor>x\<rfloor> \<le> \<lfloor>y\<rfloor>" using assms by (rule floor_mono)
  show ?thesis
  proof (cases "\<lfloor>x\<rfloor> = \<lfloor>y\<rfloor>")
    case True
    then show ?thesis using assms by (auto simp: round_half_even_def Let_def)
  next
    case False
    then have "\<lfloor>x\<rfloor> + 1 \<le> \<lfloor>y\<rfloor>" using fl by simp
    moreover have "round_half_even x \<le> \<lfloor>x\<rfloor> + 1" "\<lfloor>y\<rfloor> \<le> round_half_even y"
      by (auto simp: round_half_even_def Let_def)
    ultimately show ?thesis by linarith
  qed
qed

lemma round_half_even_minus: "round_half_even (- x) = - round_half_even x"
proof (cases "x = of_int \<lfloor>x\<rfloor>")
  case True
  then show ?thesis by (metis of_int_minus round_half_even_of_int)
next
  case False
  have "of_int \<lfloor>x\<rfloor> \<le> x" "x < of_int \<lfloor>x\<rfloor> + 1" by linarith+
  with False have "of_int \<lfloor>x\<rfloor> < x" "x < of_int \<lfloor>x\<rfloor> + 1" by order+
  then have "\<lfloor>- x\<rfloor> = - \<lfloor>x\<rfloor> - 1" by (intro floor_unique) auto
  then show ?thesis using False by (auto simp: round_half_even_def Let_def)
qed

lemma round_half_even_unique:
  assumes "\<bar>of_int n - x\<bar> < 1 / 2"
  shows "round_half_even x = n"
proof -
  have "\<bar>of_int (round_half_even x) - (of_int n :: rat)\<bar> < 1"
    using assms round_half_even_error [of x] by linarith
  then have "\<bar>round_half_even x - n\<bar> < 1" by (simp flip: of_int_diff add: abs_if split: if_splits)
  then show ?thesis by simp
qed


section \<open>Rounding to an \<open>f64\<close>\<close>

lemma ulp_pos [simp]: "0 < ulp x" by (simp add: ulp_def)

lemma ulp_nonzero [simp]: "ulp x \<noteq> 0" by (simp add: ulp_def)

lemma ulp_abs [simp]: "\<bar>ulp x\<bar> = ulp x" by (simp add: ulp_def)

lemma ulp_minus [simp]: "ulp (- x) = ulp x" by (simp add: ulp_def)

lemma f64_round_0 [simp]: "f64_round 0 = 0" by (simp add: f64_round_def)

lemma f64_round_minus: "f64_round (- x) = - f64_round x"
  by (simp add: f64_round_def round_half_even_minus)

lemma f64_round_eq: "f64_round x = ulp x * of_int (round_half_even (x / ulp x))"
  by (simp add: f64_round_def)

lemma f64_round_error: "\<bar>f64_round x - x\<bar> \<le> ulp x / 2"
proof -
  have "f64_round x - x = ulp x * (of_int (round_half_even (x / ulp x)) - x / ulp x)"
    by (simp add: f64_round_eq algebra_simps)
  then have "\<bar>f64_round x - x\<bar> = ulp x * \<bar>of_int (round_half_even (x / ulp x)) - x / ulp x\<bar>"
    by (simp add: abs_mult)
  also have "\<dots> \<le> ulp x * (1 / 2)"
    by (rule mult_left_mono [OF round_half_even_error]) (simp add: less_imp_le)
  finally show ?thesis by simp
qed

lemma powi2_multiple:
  assumes "a \<le> b"
  shows "(2::rat) powi b = 2 powi a * of_int (2 ^ nat (b - a))"
proof -
  have "(2::rat) powi b = 2 powi a * 2 powi (b - a)" by (simp flip: power_int_add)
  also have "(2::rat) powi (b - a) = of_int (2 ^ nat (b - a))" using assms by (simp add: power_int_def)
  finally show ?thesis .
qed

text \<open>A power of two that is not below the last place of \<open>x\<close> bounds \<open>x\<close> and its rounding alike.\<close>

lemma f64_round_le_powi:
  assumes "x \<le> 2 powi k" "ulp x \<le> 2 powi k"
  shows "f64_round x \<le> 2 powi k"
proof -
  let ?a = "max (exponent_of \<bar>x\<bar> - 52) (- 1074)"
  define n :: int where "n = 2 ^ nat (k - ?a)"
  have u: "ulp x = 2 powi ?a" by (simp add: ulp_def)
  have k: "2 powi k = ulp x * of_int n"
    unfolding u n_def using assms(2) by (intro powi2_multiple) (simp add: u powi2_le_iff)
  have "x / ulp x \<le> of_int n" using assms(1) by (simp add: k pos_divide_le_eq mult.commute)
  then have "round_half_even (x / ulp x) \<le> n" using round_half_even_mono by fastforce
  then show ?thesis by (simp add: f64_round_eq k)
qed

lemma f64_round_ge_powi:
  assumes "2 powi k \<le> x" "ulp x \<le> 2 powi k"
  shows "2 powi k \<le> f64_round x"
proof -
  let ?a = "max (exponent_of \<bar>x\<bar> - 52) (- 1074)"
  define n :: int where "n = 2 ^ nat (k - ?a)"
  have u: "ulp x = 2 powi ?a" by (simp add: ulp_def)
  have k: "2 powi k = ulp x * of_int n"
    unfolding u n_def using assms(2) by (intro powi2_multiple) (simp add: u powi2_le_iff)
  have "of_int n \<le> x / ulp x" using assms(1) by (simp add: k pos_le_divide_eq mult.commute)
  then have "n \<le> round_half_even (x / ulp x)" using round_half_even_mono by fastforce
  then show ?thesis by (simp add: f64_round_eq k)
qed

lemma f64_round_nonneg:
  assumes "0 \<le> x"
  shows "0 \<le> f64_round x"
proof -
  have "0 \<le> x / ulp x" using assms by (simp add: ulp_def)
  then have "0 \<le> round_half_even (x / ulp x)"
    using round_half_even_mono [of 0] by simp
  then show ?thesis by (simp add: f64_round_eq ulp_def)
qed

lemma f64_round_mono_pos:
  assumes "0 < x" "x \<le> y"
  shows "f64_round x \<le> f64_round y"
proof (cases "ulp x = ulp y")
  case True
  have "x / ulp y \<le> y / ulp y" using assms(2) by (simp add: divide_right_mono less_imp_le)
  then show ?thesis by (simp add: f64_round_eq True round_half_even_mono)
next
  case False
  have xy: "0 < y" using assms by simp
  define e where "e = exponent_of y"
  have le: "exponent_of x \<le> e" unfolding e_def by (rule exponent_of_mono [OF assms])
  have "max (exponent_of x - 52) (- 1074) \<noteq> max (e - 52) (- 1074)"
    using False assms xy by (auto simp: ulp_def e_def)
  then have e: "exponent_of x < e" "- 1074 < e - 52" using le by linarith+
  have ux: "ulp x \<le> 2 powi e" and uy: "ulp y \<le> 2 powi e"
    using e assms xy by (simp_all add: ulp_def powi2_le_iff e_def)
  have "x < 2 powi (exponent_of x + 1)" using exponent_of_bounds(2) [OF assms(1)] .
  also have "\<dots> \<le> 2 powi e" using e by (simp only: powi2_le_iff)
  finally have "f64_round x \<le> 2 powi e" by (intro f64_round_le_powi ux) simp
  also have "2 powi e \<le> f64_round y"
    by (intro f64_round_ge_powi uy) (simp add: e_def exponent_of_bounds xy)
  finally show ?thesis .
qed

lemma f64_round_mono:
  assumes "x \<le> y"
  shows "f64_round x \<le> f64_round y"
proof (cases "0 < x")
  case True
  then show ?thesis using assms by (rule f64_round_mono_pos)
next
  case x: False
  show ?thesis
  proof (cases "y < 0")
    case True
    then have "f64_round (- y) \<le> f64_round (- x)" using assms by (intro f64_round_mono_pos) auto
    then show ?thesis by (simp add: f64_round_minus)
  next
    case False
    have "0 \<le> f64_round (- x)" using x by (intro f64_round_nonneg) simp
    moreover have "0 \<le> f64_round y" using False by (intro f64_round_nonneg) simp
    ultimately show ?thesis by (simp add: f64_round_minus)
  qed
qed

text \<open>The nearest multiple of the unit decides the rounding.\<close>

lemma f64_roundI:
  assumes "ulp x = 2 powi k" "\<bar>of_int m * 2 powi k - x\<bar> < 2 powi k / 2"
  shows "f64_round x = of_int m * 2 powi k"
proof -
  have "of_int m - x / ulp x = (of_int m * 2 powi k - x) / 2 powi k"
    by (simp add: assms(1) diff_divide_distrib)
  then have "\<bar>of_int m - x / ulp x\<bar> = \<bar>of_int m * 2 powi k - x\<bar> / 2 powi k"
    by (simp add: abs_divide)
  also have "\<dots> < 1 / 2" using assms(2) by (simp add: divide_less_eq)
  finally have "round_half_even (x / ulp x) = m" by (rule round_half_even_unique)
  then show ?thesis by (simp add: f64_round_eq assms(1))
qed

lemma ulp_eqI:
  assumes "2 powi (k + 52) \<le> x" "x < 2 powi (k + 53)" "- 1074 \<le> k"
  shows "ulp x = 2 powi k"
proof -
  have "0 < x" using assms(1) by (rule less_le_trans [rotated]) simp
  then have "exponent_of x = k + 52" using assms by (intro exponent_of_unique) (simp_all add: add.assoc)
  then show ?thesis using \<open>0 < x\<close> assms(3) by (simp add: ulp_def)
qed


lemma is_f64_multiple:
  assumes "\<bar>m\<bar> \<le> 2 ^ 53" "- 1074 \<le> k"
  shows "f64_round (of_int m * 2 powi k) = of_int m * 2 powi k"
proof (cases "m = 0")
  case False
  let ?x = "of_int m * 2 powi k :: rat"
  have pos: "0 < \<bar>?x\<bar>" using False by simp
  have "\<bar>?x\<bar> = of_int \<bar>m\<bar> * 2 powi k" by (simp add: abs_mult)
  also have "\<dots> \<le> of_int (2 ^ 53) * 2 powi k"
    by (intro mult_right_mono) (use assms(1) in \<open>simp_all only: of_int_le_iff\<close>, simp)
  also have "\<dots> = 2 powi (k + 53)" by (simp add: power_int_add)
  finally have le: "\<bar>?x\<bar> \<le> 2 powi (k + 53)" .
  have "exponent_of \<bar>?x\<bar> \<le> k + 53"
    using exponent_of_bounds(1) [OF pos] le by (meson order_trans powi2_le_iff)
  then consider "exponent_of \<bar>?x\<bar> = k + 53" | "max (exponent_of \<bar>?x\<bar> - 52) (- 1074) \<le> k"
    using assms(2) by fastforce
  then show ?thesis
  proof cases
    case 1
    then have "\<bar>?x\<bar> = 2 powi (k + 53)" using exponent_of_bounds(1) [OF pos] le by simp
    moreover have "f64_round (2 powi (k + 53)) = 2 powi (k + 53)"
    proof -
      have "ulp (2 powi (k + 53)) = 2 powi (k + 1)"
        by (rule ulp_eqI) (use assms(2) in \<open>simp_all add: powi2_less_iff powi2_le_iff\<close>)
      then have "ulp (2 powi (k + 53)) \<le> 2 powi (k + 53)" by (simp add: powi2_le_iff)
      then show ?thesis by (intro order.antisym f64_round_le_powi f64_round_ge_powi) simp_all
    qed
    ultimately show ?thesis by (metis abs_if f64_round_minus minus_minus)
  next
    case 2
    define w where "w = ulp ?x"
    have w: "w \<noteq> 0" by (simp add: w_def)
    have "w = 2 powi max (exponent_of \<bar>?x\<bar> - 52) (- 1074)" by (simp add: w_def ulp_def)
    then obtain n :: int where n: "2 powi k = w * of_int n"
      using powi2_multiple [OF 2] by blast
    have x: "?x = w * of_int (m * n)" by (simp add: n)
    have "f64_round ?x = w * of_int (round_half_even (?x / w))" by (simp only: f64_round_eq w_def)
    also have "?x / w = of_int (m * n)" using w by (simp add: x)
    finally show ?thesis by (simp only: round_half_even_of_int x)
  qed
qed simp

lemma is_f64_of_int: "\<bar>m\<bar> \<le> 2 ^ 53 \<Longrightarrow> f64_round (of_int m) = of_int m"
  using is_f64_multiple [of m 0] by simp

lemma f64_round_1 [simp]: "f64_round 1 = 1"
  using is_f64_of_int [of 1] by simp

lemma f64_of_nat_exact: "n \<le> 2 ^ 53 \<Longrightarrow> f64_of_nat n = of_nat n"
  using is_f64_of_int [of "int n"] by (simp add: f64_of_nat_def)


lemma f64_round_idem [simp]: "f64_round (f64_round x) = f64_round x"
proof -
  let ?k = "max (exponent_of \<bar>x\<bar> - 52) (- 1074)" and ?m = "round_half_even (x / ulp x)"
  have "\<bar>x\<bar> \<le> 2 powi (?k + 53)"
  proof (cases "x = 0")
    case False
    then have "\<bar>x\<bar> < 2 powi (exponent_of \<bar>x\<bar> + 1)" by (intro exponent_of_bounds) simp
    also have "\<dots> \<le> 2 powi (?k + 53)" by (simp only: powi2_le_iff)
    finally show ?thesis by simp
  qed simp
  then have le: "\<bar>x / ulp x\<bar> \<le> of_int (2 ^ 53)"
    by (simp add: ulp_def pos_divide_le_eq power_int_add mult.commute)
  have "round_half_even (x / ulp x) \<le> 2 ^ 53"
    using round_half_even_mono [of "x / ulp x" "of_int (2 ^ 53)"] le
    by (simp only: round_half_even_of_int abs_le_iff)
  moreover have "round_half_even (- (x / ulp x)) \<le> 2 ^ 53"
    using round_half_even_mono [of "- (x / ulp x)" "of_int (2 ^ 53)"] le
    by (simp only: round_half_even_of_int abs_le_iff)
  ultimately have "\<bar>?m\<bar> \<le> 2 ^ 53" by (simp add: abs_le_iff round_half_even_minus)
  then have "f64_round (of_int ?m * 2 powi ?k) = of_int ?m * 2 powi ?k"
    by (rule is_f64_multiple) simp
  moreover have "f64_round x = of_int ?m * 2 powi ?k" by (simp add: f64_round_eq ulp_def)
  ultimately show ?thesis by simp
qed

lemma f64_round_relative:
  assumes "2 powi (- 1022) \<le> \<bar>x\<bar>"
  shows "\<bar>f64_round x - x\<bar> \<le> \<bar>x\<bar> / 2 ^ 53"
proof -
  have pos: "0 < \<bar>x\<bar>" using assms by (rule less_le_trans [rotated]) simp
  have "(2::rat) powi (- 1022) < 2 powi (exponent_of \<bar>x\<bar> + 1)"
    using assms exponent_of_bounds(2) [OF pos] by (rule le_less_trans)
  then have "- 1022 < exponent_of \<bar>x\<bar> + 1" by (simp only: powi2_less_iff)
  then have "ulp x = 2 powi (exponent_of \<bar>x\<bar> - 52)" by (simp add: ulp_def)
  then have "ulp x / 2 = 2 powi (exponent_of \<bar>x\<bar>) / 2 ^ 53" by (simp add: power_int_diff)
  also have "\<dots> \<le> \<bar>x\<bar> / 2 ^ 53" using exponent_of_bounds(1) [OF pos] by (simp add: divide_right_mono)
  finally show ?thesis using f64_round_error [of x] by linarith
qed

lemma f64_round_le_1 [f64_mono]: "x \<le> 1 \<Longrightarrow> f64_round x \<le> 1"
  using f64_round_mono [of x 1] by simp

lemma f64_round_ge_1: "1 \<le> x \<Longrightarrow> 1 \<le> f64_round x"
  using f64_round_mono [of 1 x] by simp

lemma f64_of_nat_mono: "m \<le> n \<Longrightarrow> f64_of_nat m \<le> f64_of_nat n"
  by (simp add: f64_of_nat_def f64_round_mono)

lemma f64_of_nat_nonneg [simp]: "0 \<le> f64_of_nat n"
  by (simp add: f64_of_nat_def f64_round_nonneg)

lemma f64_of_nat_pos: "0 < n \<Longrightarrow> 0 < f64_of_nat n"
  using f64_round_ge_1 [of "of_nat n"] by (simp add: f64_of_nat_def)


section \<open>Monotonicity of the operations\<close>

lemma f64_op_nonneg [simp]:
  "0 \<le> x \<Longrightarrow> 0 \<le> y \<Longrightarrow> 0 \<le> fadd x y"
  "0 \<le> x \<Longrightarrow> 0 \<le> y \<Longrightarrow> 0 \<le> fmul x y"
  "0 \<le> x \<Longrightarrow> 0 \<le> y \<Longrightarrow> 0 \<le> fdiv x y"
  "y \<le> x \<Longrightarrow> 0 \<le> fsub x y"
  by (simp_all add: fadd_def fmul_def fdiv_def fsub_def f64_round_nonneg)

lemma f64_op_mono [f64_mono]:
  "x \<le> x' \<Longrightarrow> y \<le> y' \<Longrightarrow> fadd x y \<le> fadd x' y'"
  "x \<le> x' \<Longrightarrow> y' \<le> y \<Longrightarrow> fsub x y \<le> fsub x' y'"
  "0 \<le> x \<Longrightarrow> x \<le> x' \<Longrightarrow> 0 \<le> y \<Longrightarrow> y \<le> y' \<Longrightarrow> fmul x y \<le> fmul x' y'"
  "0 \<le> x \<Longrightarrow> x \<le> x' \<Longrightarrow> 0 < y' \<Longrightarrow> y' \<le> y \<Longrightarrow> fdiv x y \<le> fdiv x' y'"
  by (auto simp: fadd_def fsub_def fmul_def fdiv_def
      intro!: f64_round_mono add_mono diff_mono mult_mono frac_le)

lemma f64_clamp_mono [f64_mono]: "lo \<le> hi \<Longrightarrow> x \<le> x' \<Longrightarrow> f64_clamp x lo hi \<le> f64_clamp x' lo hi"
  by (auto simp: f64_clamp_def)

lemma f64_clamp_bounds: "lo \<le> hi \<Longrightarrow> lo \<le> f64_clamp x lo hi \<and> f64_clamp x lo hi \<le> hi"
  by (auto simp: f64_clamp_def)

lemma fsub_self [simp]: "fsub x x = 0"
  by (simp add: fsub_def)

end
