(* ===== verification/Metering.thy ===== *)
theory Metering
  imports Decimal_Text "HOL-Library.AList"
begin

text \<open>
  The rest of \<open>gateway-core/src/metering\<close>: currency codes and money, the token usage record and
  its merge, cost estimates and their provenance, the calculated cost breakdown with its custom
  multiplier, and \<open>pricing.rs\<close> (token prices, overrides, \<open>merge_pricing\<close>); and the limit record
  of \<open>engine/budget.rs\<close>. A \<open>BTreeMap\<close> is an association list with distinct keys, updated in
  place (\<open>AList.update\<close>); what is read from it is \<open>map_of\<close>.

  Main results: the itemised amounts of a breakdown still add up to its total after a custom
  multiplier, a multiplier of one changes no amount, a discount always succeeds and never raises
  the total; merging usage keeps the newest fact per field; merging price tables is pointwise.
\<close>


section \<open>Currency and money\<close>

datatype CurrencyCode = CurrencyCode (currency_str: string)

definition new_CurrencyCode :: "string \<Rightarrow> MeteringError + CurrencyCode" where
  "new_CurrencyCode v =
     (if length v \<noteq> 3 \<or> \<not> list_all is_ascii_uppercase v then Err InvalidCurrency
      else Ok (CurrencyCode v))"

abbreviation USD :: CurrencyCode where "USD \<equiv> CurrencyCode ''USD''"

record Money =
  money_amount :: Decimal
  money_currency :: CurrencyCode

abbreviation new_Money :: "Decimal \<Rightarrow> CurrencyCode \<Rightarrow> Money" where
  "new_Money a c \<equiv> \<lparr>money_amount = a, money_currency = c\<rparr>"

abbreviation ticks :: "Money \<Rightarrow> nat" where "ticks m \<equiv> scaled (money_amount m)"

definition money_checked_add :: "Money \<Rightarrow> Money \<Rightarrow> Money option" where
  "money_checked_add a b =
     (if money_currency a \<noteq> money_currency b then None
      else map_option (\<lambda>d. new_Money d (money_currency a))
             (checked_add (money_amount a) (money_amount b)))"

definition money_ok :: "Money \<Rightarrow> bool" where
  "money_ok m \<longleftrightarrow> decimal_ok (money_amount m)"

lemma USD_valid: "new_CurrencyCode ''USD'' = Ok USD"
  by (simp add: new_CurrencyCode_def is_ascii_uppercase_def byte_def)

lemma money_checked_add_iff:
  "money_checked_add a b = Some c \<longleftrightarrow>
     money_currency a = money_currency b \<and> ticks a + ticks b \<le> MAX_SCALED_DECIMAL
     \<and> c = new_Money (Decimal (ticks a + ticks b)) (money_currency a)"
  by (auto simp: money_checked_add_def checked_add_iff)

lemma money_checked_add_ok [inv_intros]: "money_checked_add a b = Some c \<Longrightarrow> money_ok c"
  by (auto simp: money_checked_add_iff money_ok_def decimal_ok_def)


section \<open>Usage\<close>

record Usage =
  input_tokens :: "nat option"
  output_tokens :: "nat option"
  cached_tokens :: "nat option"
  cache_write_tokens :: "nat option"
  reasoning_tokens :: "nat option"
  image_input_tokens :: "nat option"
  image_output_tokens :: "nat option"
  total_tokens :: "nat option"

definition new_Usage :: Usage where
  "new_Usage =
     \<lparr>input_tokens = None, output_tokens = None, cached_tokens = None, cache_write_tokens = None,
      reasoning_tokens = None, image_input_tokens = None, image_output_tokens = None,
      total_tokens = None\<rparr>"

definition usage_merge :: "Usage \<Rightarrow> Usage \<Rightarrow> Usage" where
  "usage_merge self newer =
     self\<lparr>input_tokens := (if is_some (input_tokens newer) then input_tokens newer else input_tokens self),
          output_tokens := (if is_some (output_tokens newer) then output_tokens newer else output_tokens self),
          cached_tokens := (if is_some (cached_tokens newer) then cached_tokens newer else cached_tokens self),
          cache_write_tokens := (if is_some (cache_write_tokens newer) then cache_write_tokens newer else cache_write_tokens self),
          reasoning_tokens := (if is_some (reasoning_tokens newer) then reasoning_tokens newer else reasoning_tokens self),
          image_input_tokens := (if is_some (image_input_tokens newer) then image_input_tokens newer else image_input_tokens self),
          image_output_tokens := (if is_some (image_output_tokens newer) then image_output_tokens newer else image_output_tokens self),
          total_tokens := (if is_some (total_tokens newer) then total_tokens newer else total_tokens self)\<rparr>"

text \<open>The eight fields behave alike: the newer value where there is one.\<close>

lemma usage_merge_fields [simp]:
  "input_tokens (usage_merge u n) = or_else (input_tokens n) (input_tokens u)"
  "output_tokens (usage_merge u n) = or_else (output_tokens n) (output_tokens u)"
  "cached_tokens (usage_merge u n) = or_else (cached_tokens n) (cached_tokens u)"
  "cache_write_tokens (usage_merge u n) = or_else (cache_write_tokens n) (cache_write_tokens u)"
  "reasoning_tokens (usage_merge u n) = or_else (reasoning_tokens n) (reasoning_tokens u)"
  "image_input_tokens (usage_merge u n) = or_else (image_input_tokens n) (image_input_tokens u)"
  "image_output_tokens (usage_merge u n) = or_else (image_output_tokens n) (image_output_tokens u)"
  "total_tokens (usage_merge u n) = or_else (total_tokens n) (total_tokens u)"
  by (simp_all add: usage_merge_def or_else_def split: option.split)

lemma or_else_assoc: "or_else x (or_else y z) = or_else (or_else x y) z"
  by (cases x) auto

lemma or_else_None [simp]: "or_else x None = x"
  by (cases x) auto

text \<open>The last known value of a field over a sequence of observations.\<close>

definition last_known :: "'a option list \<Rightarrow> 'a option" where
  "last_known xs = fold or_else xs None"

lemma fold_or_else: "fold or_else xs d = or_else (fold or_else xs None) d"
proof (induction xs arbitrary: d)
  case (Cons x xs)
  show ?case
    using Cons [of "or_else x d"] Cons [of x] by (simp add: or_else_assoc)
qed simp

lemma usage_merge_assoc: "usage_merge (usage_merge a b) c = usage_merge a (usage_merge b c)"
  by (rule Usage.equality) (simp_all add: or_else_assoc)

lemma usage_merge_new [simp]: "usage_merge new_Usage u = u" "usage_merge u new_Usage = u"
  by (rule Usage.equality; simp add: new_Usage_def)+

lemma usage_merge_idem: "usage_merge (usage_merge a b) b = usage_merge a b"
  by (rule Usage.equality) (auto simp: or_else_def split: option.splits)

lemma foldl_usage_merge:
  "input_tokens (foldl usage_merge new_Usage obs) = last_known (map input_tokens obs)"
  "output_tokens (foldl usage_merge new_Usage obs) = last_known (map output_tokens obs)"
  "cached_tokens (foldl usage_merge new_Usage obs) = last_known (map cached_tokens obs)"
  "cache_write_tokens (foldl usage_merge new_Usage obs) = last_known (map cache_write_tokens obs)"
  "reasoning_tokens (foldl usage_merge new_Usage obs) = last_known (map reasoning_tokens obs)"
  "image_input_tokens (foldl usage_merge new_Usage obs) = last_known (map image_input_tokens obs)"
  "image_output_tokens (foldl usage_merge new_Usage obs) = last_known (map image_output_tokens obs)"
  "total_tokens (foldl usage_merge new_Usage obs) = last_known (map total_tokens obs)"
  by (induction obs rule: rev_induct)
    (simp_all add: new_Usage_def last_known_def)


section \<open>Cost estimates\<close>

datatype CostSource = ProviderReported | Calculated | Unavailable

datatype CostEstimateStatus = Known | Unknown

record ImageCostBreakdown =
  image_tokens_in :: nat
  image_tokens_cached :: nat
  image_input_amount :: Money
  image_cache_read_amount :: Money
  image_input_price :: Money
  image_cache_read_price :: Money

record CalculatedCostAmounts =
  amounts_input :: Money
  amounts_output :: Money
  amounts_cache_read :: Money
  amounts_cache_write :: Money
  amounts_standard :: Money
  amounts_total :: Money

record CalculatedCostRates =
  rates_input :: Money
  rates_output :: Money
  rates_cache_read :: Money
  rates_cache_write :: Money

record CalculatedCostBreakdown =
  long_context_billing_applied :: bool
  breakdown_image :: "ImageCostBreakdown option"
  input_amount :: Money
  output_amount :: Money
  cache_read_amount :: Money
  cache_write_amount :: Money
  standard_amount :: Money
  total_amount :: Money
  input_price_per_million :: Money
  output_price_per_million :: Money
  cache_read_price_per_million :: Money
  cache_write_price_per_million :: Money
  service_tier :: "string option"
  multiplier_percent :: nat
  custom_multiplier_bps :: nat

record CostEstimate =
  cost_status :: CostEstimateStatus
  cost_source :: CostSource
  cost_total :: "Money option"
  cost_breakdown :: "CalculatedCostBreakdown option"

record CalculatedCost =
  calculated_total :: Money
  calculated_breakdown :: "CalculatedCostBreakdown option"

datatype ProviderReportedCost = ProviderReportedCost (reported_total: Money)

definition new_CalculatedCostBreakdown ::
  "CalculatedCostAmounts \<Rightarrow> CalculatedCostRates \<Rightarrow> string option \<Rightarrow> nat \<Rightarrow> CalculatedCostBreakdown" where
  "new_CalculatedCostBreakdown amounts rates tier percent =
     \<lparr>long_context_billing_applied = False,
      breakdown_image = None,
      input_amount = amounts_input amounts,
      output_amount = amounts_output amounts,
      cache_read_amount = amounts_cache_read amounts,
      cache_write_amount = amounts_cache_write amounts,
      standard_amount = amounts_standard amounts,
      total_amount = amounts_total amounts,
      input_price_per_million = rates_input rates,
      output_price_per_million = rates_output rates,
      cache_read_price_per_million = rates_cache_read rates,
      cache_write_price_per_million = rates_cache_write rates,
      service_tier = tier,
      multiplier_percent = percent,
      custom_multiplier_bps = 10000\<rparr>"

definition with_long_context_billing ::
  "CalculatedCostBreakdown \<Rightarrow> bool \<Rightarrow> CalculatedCostBreakdown" where
  "with_long_context_billing b applied = b\<lparr>long_context_billing_applied := applied\<rparr>"

definition with_image ::
  "CalculatedCostBreakdown \<Rightarrow> ImageCostBreakdown \<Rightarrow> CalculatedCostBreakdown" where
  "with_image b i = b\<lparr>breakdown_image := Some i\<rparr>"

definition calculated_cost :: "CalculatedCostBreakdown \<Rightarrow> CalculatedCost" where
  "calculated_cost b = \<lparr>calculated_total = total_amount b, calculated_breakdown = Some b\<rparr>"

definition reported_from_usd_ticks :: "nat \<Rightarrow> MeteringError + ProviderReportedCost" where
  "reported_from_usd_ticks t =
     (case from_scaled t of
        Inl e \<Rightarrow> Err e | Inr d \<Rightarrow> Ok (ProviderReportedCost (new_Money d USD)))"

definition reported_into_estimate :: "ProviderReportedCost \<Rightarrow> CostEstimate" where
  "reported_into_estimate c =
     \<lparr>cost_status = Known, cost_source = ProviderReported,
      cost_total = Some (reported_total c), cost_breakdown = None\<rparr>"

definition calculated_from_usd_ticks :: "nat \<Rightarrow> MeteringError + CalculatedCost" where
  "calculated_from_usd_ticks t =
     (case from_scaled t of
        Inl e \<Rightarrow> Err e
      | Inr d \<Rightarrow> Ok \<lparr>calculated_total = new_Money d USD, calculated_breakdown = None\<rparr>)"

definition calculated_into_estimate :: "CalculatedCost \<Rightarrow> CostEstimate" where
  "calculated_into_estimate c =
     \<lparr>cost_status = Known, cost_source = Calculated,
      cost_total = Some (calculated_total c), cost_breakdown = calculated_breakdown c\<rparr>"

definition cost_unavailable :: CostEstimate where
  "cost_unavailable =
     \<lparr>cost_status = Unknown, cost_source = Unavailable, cost_total = None, cost_breakdown = None\<rparr>"

text \<open>Every estimate the module builds agrees in its three provenance fields.\<close>

definition estimate_ok :: "CostEstimate \<Rightarrow> bool" where
  "estimate_ok e \<longleftrightarrow>
     (cost_status e = Known \<longleftrightarrow> cost_total e \<noteq> None)
     \<and> (cost_source e = Unavailable \<longleftrightarrow> cost_total e = None)
     \<and> (cost_breakdown e \<noteq> None \<longrightarrow>
          cost_source e = Calculated)"

lemma estimates_ok [inv_intros]:
  "estimate_ok (reported_into_estimate c)"
  "estimate_ok (calculated_into_estimate k)"
  "estimate_ok cost_unavailable"
  by (simp_all add: estimate_ok_def reported_into_estimate_def calculated_into_estimate_def
      cost_unavailable_def)


section \<open>The custom multiplier\<close>

definition scale_money :: "nat \<Rightarrow> Money \<Rightarrow> Money option" where
  "scale_money bps m =
     do { t \<leftarrow> checked_mul_u 128 (ticks m) bps;
          t \<leftarrow> checked_add_u 128 t 5000;
          t \<leftarrow> checked_div_u t 10000;
          d \<leftarrow> ok (from_scaled t);
          Some (new_Money d (money_currency m)) }"

definition scale_image :: "nat \<Rightarrow> ImageCostBreakdown \<Rightarrow> ImageCostBreakdown option" where
  "scale_image bps i =
     do { ia \<leftarrow> scale_money bps (image_input_amount i);
          ca \<leftarrow> scale_money bps (image_cache_read_amount i);
          ip \<leftarrow> scale_money bps (image_input_price i);
          cp \<leftarrow> scale_money bps (image_cache_read_price i);
          Some (i\<lparr>image_input_amount := ia, image_cache_read_amount := ca,
                  image_input_price := ip, image_cache_read_price := cp\<rparr>) }"

definition image_checked_add :: "nat \<Rightarrow> ImageCostBreakdown option \<Rightarrow> nat option" where
  "image_checked_add t i =
     (case i of
        None \<Rightarrow> Some t
      | Some im \<Rightarrow>
          do { t \<leftarrow> checked_add_u 128 t (ticks (image_input_amount im));
               checked_add_u 128 t (ticks (image_cache_read_amount im)) })"

definition with_custom_multiplier ::
  "CalculatedCostBreakdown \<Rightarrow> nat \<Rightarrow> CalculatedCostBreakdown option" where
  "with_custom_multiplier b bps =
     (if 1000000 < bps then None
      else
        let previous_total = total_amount b;
            same_standard = (standard_amount b = previous_total) in
        do { t \<leftarrow> checked_add_u 128 (ticks (input_amount b)) (ticks (output_amount b));
             t \<leftarrow> checked_add_u 128 t (ticks (cache_read_amount b));
             t \<leftarrow> checked_add_u 128 t (ticks (cache_write_amount b));
             token_total \<leftarrow> image_checked_add t (breakdown_image b);
             image' \<leftarrow> (case breakdown_image b of None \<Rightarrow> Some None
                       | Some im \<Rightarrow> map_option Some (scale_image bps im));
             rest \<leftarrow> checked_sub_u (ticks previous_total) token_total;
             d \<leftarrow> ok (from_scaled rest);
             let other = new_Money d (money_currency previous_total);
             ia \<leftarrow> scale_money bps (input_amount b);
             oa \<leftarrow> scale_money bps (output_amount b);
             ra \<leftarrow> scale_money bps (cache_read_amount b);
             wa \<leftarrow> scale_money bps (cache_write_amount b);
             sa \<leftarrow> scale_money bps (standard_amount b);
             t \<leftarrow> checked_add_u 128 (ticks ia) (ticks oa);
             t \<leftarrow> checked_add_u 128 t (ticks ra);
             t \<leftarrow> checked_add_u 128 t (ticks wa);
             so \<leftarrow> scale_money bps other;
             t \<leftarrow> checked_add_u 128 t (ticks so);
             total \<leftarrow> image_checked_add t image';
             td \<leftarrow> ok (from_scaled total);
             let total' = new_Money td (money_currency previous_total);
             ip \<leftarrow> scale_money bps (input_price_per_million b);
             op \<leftarrow> scale_money bps (output_price_per_million b);
             rp \<leftarrow> scale_money bps (cache_read_price_per_million b);
             wp \<leftarrow> scale_money bps (cache_write_price_per_million b);
             Some (b\<lparr>breakdown_image := image', input_amount := ia, output_amount := oa,
                     cache_read_amount := ra, cache_write_amount := wa,
                     standard_amount := (if same_standard then total' else sa),
                     total_amount := total',
                     input_price_per_million := ip, output_price_per_million := op,
                     cache_read_price_per_million := rp, cache_write_price_per_million := wp,
                     custom_multiplier_bps := bps\<rparr>) })"

text \<open>Rounding to the nearest tick, halves up.\<close>

definition scaled_ticks :: "nat \<Rightarrow> nat \<Rightarrow> nat" where
  "scaled_ticks bps t = (t * bps + 5000) div 10000"

lemma scaled_ticks_one [simp]: "scaled_ticks 10000 t = t"
  by (simp add: scaled_ticks_def)

lemma scaled_ticks_zero [simp]: "scaled_ticks bps 0 = 0"
  by (simp add: scaled_ticks_def)

lemma scaled_ticks_discount:
  assumes "bps \<le> 10000" shows "scaled_ticks bps t \<le> t"
proof -
  have "t * bps + 5000 \<le> t * 10000 + 5000" using assms by simp
  then have "(t * bps + 5000) div 10000 \<le> (t * 10000 + 5000) div 10000" by (rule div_le_mono)
  then show ?thesis by (simp add: scaled_ticks_def)
qed

lemma scaled_ticks_nearest: "\<bar>int (10000 * scaled_ticks bps t) - int (t * bps)\<bar> \<le> 5000"
proof -
  have "t * bps + 5000 = 10000 * scaled_ticks bps t + (t * bps + 5000) mod 10000"
    unfolding scaled_ticks_def by (metis mult_div_mod_eq)
  then have "int (t * bps) + 5000 = int (10000 * scaled_ticks bps t) + int ((t * bps + 5000) mod 10000)"
    by (metis of_nat_add of_nat_numeral)
  moreover have "int ((t * bps + 5000) mod 10000) < 10000" by simp
  moreover have "0 \<le> int ((t * bps + 5000) mod 10000)" by simp
  ultimately show ?thesis by linarith
qed

lemma scale_money_iff:
  "scale_money bps m = Some m' \<longleftrightarrow>
     ticks m * bps + 5000 < 2 ^ 128 \<and> scaled_ticks bps (ticks m) \<le> MAX_SCALED_DECIMAL
     \<and> m' = new_Money (Decimal (scaled_ticks bps (ticks m))) (money_currency m)"
  unfolding scale_money_def scaled_ticks_def by (auto simp: Option.bind_eq_Some_conv)

lemma scale_money_ticks:
  "scale_money bps m = Some m' \<Longrightarrow>
     ticks m' = scaled_ticks bps (ticks m) \<and> money_currency m' = money_currency m \<and> money_ok m'"
  by (simp add: scale_money_iff money_ok_def decimal_ok_def)

definition image_ticks :: "ImageCostBreakdown option \<Rightarrow> nat" where
  "image_ticks i =
     (case i of None \<Rightarrow> 0
      | Some im \<Rightarrow> ticks (image_input_amount im) + ticks (image_cache_read_amount im))"

text \<open>The sum of the itemised amounts of a breakdown.\<close>

definition item_ticks :: "CalculatedCostBreakdown \<Rightarrow> nat" where
  "item_ticks b =
     ticks (input_amount b) + ticks (output_amount b) + ticks (cache_read_amount b)
     + ticks (cache_write_amount b) + image_ticks (breakdown_image b)"

lemma image_checked_add_iff:
  "image_checked_add t i = Some r \<longleftrightarrow> r = t + image_ticks i \<and> (i = None \<or> t + image_ticks i < 2 ^ 128)"
  by (auto simp: image_checked_add_def image_ticks_def Option.bind_eq_Some_conv split: option.splits)

lemma with_custom_multiplierE:
  assumes "with_custom_multiplier b bps = Some b'"
  obtains im' other ia oa ra wa sa so ip op rp wp total where
    "bps \<le> 1000000"
    "item_ticks b \<le> ticks (total_amount b)"
    "(case breakdown_image b of None \<Rightarrow> Some None
      | Some im \<Rightarrow> map_option Some (scale_image bps im)) = Some im'"
    "other = new_Money (Decimal (ticks (total_amount b) - item_ticks b)) (money_currency (total_amount b))"
    "scale_money bps (input_amount b) = Some ia"
    "scale_money bps (output_amount b) = Some oa"
    "scale_money bps (cache_read_amount b) = Some ra"
    "scale_money bps (cache_write_amount b) = Some wa"
    "scale_money bps (standard_amount b) = Some sa"
    "scale_money bps other = Some so"
    "scale_money bps (input_price_per_million b) = Some ip"
    "scale_money bps (output_price_per_million b) = Some op"
    "scale_money bps (cache_read_price_per_million b) = Some rp"
    "scale_money bps (cache_write_price_per_million b) = Some wp"
    "ticks ia + ticks oa + ticks ra + ticks wa + ticks so + image_ticks im' \<le> MAX_SCALED_DECIMAL"
    "total = new_Money (Decimal (ticks ia + ticks oa + ticks ra + ticks wa + ticks so + image_ticks im'))
               (money_currency (total_amount b))"
    "b' = b\<lparr>breakdown_image := im', input_amount := ia, output_amount := oa,
           cache_read_amount := ra, cache_write_amount := wa,
           standard_amount := (if standard_amount b = total_amount b then total else sa),
           total_amount := total,
           input_price_per_million := ip, output_price_per_million := op,
           cache_read_price_per_million := rp, cache_write_price_per_million := wp,
           custom_multiplier_bps := bps\<rparr>"
proof -
  have bps: "\<not> 1000000 < bps" using assms by (auto simp: with_custom_multiplier_def)
  show ?thesis
    using assms unfolding with_custom_multiplier_def if_not_P [OF bps] Let_def
    apply (simp add: Option.bind_eq_Some_conv image_checked_add_iff item_ticks_def [symmetric]
        split del: if_split)
    apply (elim exE conjE)
    apply (rule that)
    using bps
                    apply (simp only: not_less | rule refl | assumption | erule sym)+
    done
qed

lemma with_custom_multiplier_facts:
  assumes "with_custom_multiplier b bps = Some b'"
  shows "bps \<le> 1000000"
    and "item_ticks b \<le> ticks (total_amount b)"
    and "item_ticks b' + scaled_ticks bps (ticks (total_amount b) - item_ticks b) = ticks (total_amount b')"
    and "ticks (total_amount b') \<le> MAX_SCALED_DECIMAL"
    and "custom_multiplier_bps b' = bps"
    and "standard_amount b = total_amount b \<Longrightarrow> standard_amount b' = total_amount b'"
    and "ticks (input_amount b') = scaled_ticks bps (ticks (input_amount b))"
    and "ticks (output_amount b') = scaled_ticks bps (ticks (output_amount b))"
    and "ticks (cache_read_amount b') = scaled_ticks bps (ticks (cache_read_amount b))"
    and "ticks (cache_write_amount b') = scaled_ticks bps (ticks (cache_write_amount b))"
  using assms
  by (elim with_custom_multiplierE; simp add: item_ticks_def scale_money_iff)+

definition image_ok :: "ImageCostBreakdown \<Rightarrow> bool" where
  "image_ok i \<longleftrightarrow> money_ok (image_input_amount i) \<and> money_ok (image_cache_read_amount i)
     \<and> money_ok (image_input_price i) \<and> money_ok (image_cache_read_price i)"

text \<open>A breakdown whose amounts are in range and whose items do not exceed its total.\<close>

definition breakdown_ok :: "CalculatedCostBreakdown \<Rightarrow> bool" where
  "breakdown_ok b \<longleftrightarrow>
     money_ok (input_amount b) \<and> money_ok (output_amount b) \<and> money_ok (cache_read_amount b)
     \<and> money_ok (cache_write_amount b) \<and> money_ok (standard_amount b) \<and> money_ok (total_amount b)
     \<and> money_ok (input_price_per_million b) \<and> money_ok (output_price_per_million b)
     \<and> money_ok (cache_read_price_per_million b) \<and> money_ok (cache_write_price_per_million b)
     \<and> (case breakdown_image b of None \<Rightarrow> True | Some i \<Rightarrow> image_ok i)
     \<and> item_ticks b \<le> ticks (total_amount b)"

lemma scale_image_ok: "scale_image bps i = Some i' \<Longrightarrow> image_ok i'"
  by (auto simp: scale_image_def image_ok_def Option.bind_eq_Some_conv dest!: scale_money_ticks)

lemma with_custom_multiplier_ok [inv_intros]:
  assumes "with_custom_multiplier b bps = Some b'"
  shows "breakdown_ok b'"
proof -
  have "item_ticks b' \<le> ticks (total_amount b')"
    using with_custom_multiplier_facts(3) [OF assms] by linarith
  moreover have "case breakdown_image b' of None \<Rightarrow> True | Some i \<Rightarrow> image_ok i"
    using assms by (elim with_custom_multiplierE) (auto split: option.splits dest: scale_image_ok)
  ultimately show ?thesis
    using assms unfolding breakdown_ok_def
    by (elim with_custom_multiplierE) (simp add: scale_money_iff money_ok_def decimal_ok_def)
qed

lemma scale_money_discount:
  assumes "money_ok m" "bps \<le> 10000"
  shows "scale_money bps m = Some (new_Money (Decimal (scaled_ticks bps (ticks m))) (money_currency m))"
proof -
  have "ticks m * bps \<le> MAX_SCALED_DECIMAL * 10000"
    using assms by (intro mult_mono) (auto simp: money_ok_def decimal_ok_def)
  moreover have "MAX_SCALED_DECIMAL * 10000 + 5000 < 2 ^ 128" by (simp add: MAX_SCALED_DECIMAL_def)
  ultimately have "ticks m * bps + 5000 < 2 ^ 128" by linarith
  moreover have "scaled_ticks bps (ticks m) \<le> MAX_SCALED_DECIMAL"
    using scaled_ticks_discount [OF assms(2), of "ticks m"] assms(1)
    by (simp add: money_ok_def decimal_ok_def)
  ultimately show ?thesis by (simp add: scale_money_iff)
qed

lemma scale_image_discount:
  assumes "image_ok i" "bps \<le> 10000"
  shows "\<exists>i'. scale_image bps i = Some i' \<and> image_ticks (Some i') \<le> image_ticks (Some i)"
  using assms scaled_ticks_discount [OF assms(2)]
  by (auto simp: scale_image_def image_ok_def scale_money_discount image_ticks_def intro!: add_mono)

lemma checked_add_u_le: "a + b \<le> MAX_SCALED_DECIMAL \<Longrightarrow> checked_add_u 128 a b = Some (a + b)"
  using decimal_limits(1) by simp

lemma image_checked_add_le:
  "t + image_ticks i \<le> MAX_SCALED_DECIMAL \<Longrightarrow> image_checked_add t i = Some (t + image_ticks i)"
  using decimal_limits(1) by (simp add: image_checked_add_iff)

lemma with_custom_multiplier_discount:
  assumes b: "breakdown_ok b" and bps: "bps \<le> 10000"
  shows "\<exists>b'. with_custom_multiplier b bps = Some b'"
proof -
  let ?S = "scaled_ticks bps"
  have le: "?S t \<le> t" for t using bps by (rule scaled_ticks_discount)
  have tot: "ticks (total_amount b) \<le> MAX_SCALED_DECIMAL" "item_ticks b \<le> ticks (total_amount b)"
    using b by (auto simp: breakdown_ok_def money_ok_def decimal_ok_def)
  let ?o = "ticks (total_amount b) - item_ticks b"
  obtain im' where im': "(case breakdown_image b of None \<Rightarrow> Some None
      | Some im \<Rightarrow> map_option Some (scale_image bps im)) = Some im'"
    and imle: "image_ticks im' \<le> image_ticks (breakdown_image b)"
    using b scale_image_discount [OF _ bps]
    by (cases "breakdown_image b") (fastforce simp: breakdown_ok_def)+
  have o: "scale_money bps (new_Money (Decimal ?o) c) = Some (new_Money (Decimal (?S ?o)) c)" for c
    using scale_money_discount [of "new_Money (Decimal ?o) c", OF _ bps] tot
    by (simp add: money_ok_def decimal_ok_def)
  have sum: "?S (ticks (input_amount b)) + ?S (ticks (output_amount b)) + ?S (ticks (cache_read_amount b))
      + ?S (ticks (cache_write_amount b)) + ?S ?o + image_ticks im' \<le> ticks (total_amount b)"
    using le [of "ticks (input_amount b)"] le [of "ticks (output_amount b)"]
      le [of "ticks (cache_read_amount b)"] le [of "ticks (cache_write_amount b)"] le [of ?o] imle tot(2)
    by (simp add: item_ticks_def)
  have items: "ticks (input_amount b) + ticks (output_amount b) + ticks (cache_read_amount b)
      + ticks (cache_write_amount b) + image_ticks (breakdown_image b) \<le> MAX_SCALED_DECIMAL"
    using tot by (simp add: item_ticks_def)
  have old: "checked_add_u 128 (ticks (input_amount b)) (ticks (output_amount b))
      = Some (ticks (input_amount b) + ticks (output_amount b))"
    "checked_add_u 128 (ticks (input_amount b) + ticks (output_amount b)) (ticks (cache_read_amount b))
      = Some (ticks (input_amount b) + ticks (output_amount b) + ticks (cache_read_amount b))"
    "checked_add_u 128 (ticks (input_amount b) + ticks (output_amount b) + ticks (cache_read_amount b))
        (ticks (cache_write_amount b))
      = Some (ticks (input_amount b) + ticks (output_amount b) + ticks (cache_read_amount b)
         + ticks (cache_write_amount b))"
    "image_checked_add (ticks (input_amount b) + ticks (output_amount b) + ticks (cache_read_amount b)
         + ticks (cache_write_amount b)) (breakdown_image b) = Some (item_ticks b)"
    unfolding item_ticks_def
    by (rule checked_add_u_le image_checked_add_le, use items in linarith)+
  let ?a = "?S (ticks (input_amount b)) + ?S (ticks (output_amount b))"
  let ?c = "?a + ?S (ticks (cache_read_amount b)) + ?S (ticks (cache_write_amount b))"
  have new: "checked_add_u 128 (?S (ticks (input_amount b))) (?S (ticks (output_amount b))) = Some ?a"
    "checked_add_u 128 ?a (?S (ticks (cache_read_amount b))) = Some (?a + ?S (ticks (cache_read_amount b)))"
    "checked_add_u 128 (?a + ?S (ticks (cache_read_amount b))) (?S (ticks (cache_write_amount b))) = Some ?c"
    "checked_add_u 128 ?c (?S ?o) = Some (?c + ?S ?o)"
    "image_checked_add (?c + ?S ?o) im' = Some (?c + ?S ?o + image_ticks im')"
    by (rule checked_add_u_le image_checked_add_le, use sum tot in linarith)+
  have range: "from_scaled ?o = Ok (Decimal ?o)"
    "from_scaled (?c + ?S ?o + image_ticks im') = Ok (Decimal (?c + ?S ?o + image_ticks im'))"
    "checked_sub_u (ticks (total_amount b)) (item_ticks b) = Some ?o"
    using sum tot by auto
  show ?thesis
    using b bps unfolding with_custom_multiplier_def breakdown_ok_def Let_def
    by (simp add: scale_money_discount old new range im' o)
qed

lemma scale_image_ticks:
  "scale_image bps i = Some i' \<Longrightarrow>
     image_ticks (Some i') = scaled_ticks bps (ticks (image_input_amount i))
                             + scaled_ticks bps (ticks (image_cache_read_amount i))"
  by (auto simp: scale_image_def Option.bind_eq_Some_conv image_ticks_def scale_money_iff)

lemma with_custom_multiplier_image:
  assumes "bps \<le> 10000" "with_custom_multiplier b bps = Some b'"
  shows "image_ticks (breakdown_image b') \<le> image_ticks (breakdown_image b)"
proof -
  have "(case breakdown_image b of None \<Rightarrow> Some None
      | Some im \<Rightarrow> map_option Some (scale_image bps im)) = Some (breakdown_image b')"
    using assms(2) by (elim with_custom_multiplierE) simp
  then show ?thesis
    using add_mono [OF scaled_ticks_discount scaled_ticks_discount, OF assms(1) assms(1)]
      scale_image_ticks
    by (cases "breakdown_image b"; cases "breakdown_image b'") (auto simp: image_ticks_def [of "Some _"])
qed

lemma with_custom_multiplier_total_le:
  assumes "bps \<le> 10000" "with_custom_multiplier b bps = Some b'"
  shows "ticks (total_amount b') \<le> ticks (total_amount b)"
proof -
  note f = with_custom_multiplier_facts [OF assms(2)]
  note le = scaled_ticks_discount [OF assms(1)]
  have "item_ticks b' \<le> item_ticks b"
    using f(7-10) with_custom_multiplier_image [OF assms] le
    unfolding item_ticks_def by (intro add_mono) simp_all
  then show ?thesis
    using f(2,3) le [of "ticks (total_amount b) - item_ticks b"] by linarith
qed

lemma scale_money_one: "money_ok m \<Longrightarrow> scale_money 10000 m = Some m"
  by (simp add: scale_money_discount)

lemma scale_image_one: "image_ok i \<Longrightarrow> scale_image 10000 i = Some i"
  by (simp add: scale_image_def image_ok_def scale_money_one)

lemma with_custom_multiplier_one:
  assumes "breakdown_ok b"
  shows "with_custom_multiplier b 10000 = Some (b\<lparr>custom_multiplier_bps := 10000\<rparr>)"
proof -
  obtain b' where b': "with_custom_multiplier b 10000 = Some b'"
    using with_custom_multiplier_discount [OF assms, of 10000] by auto
  have "b' = b\<lparr>custom_multiplier_bps := 10000\<rparr>"
    using b'
  proof (elim with_custom_multiplierE)
    fix im' other ia oa ra wa sa so ip op rp wp total
    assume 1: "item_ticks b \<le> ticks (total_amount b)"
      and im: "(case breakdown_image b of None \<Rightarrow> Some None
         | Some im \<Rightarrow> map_option Some (scale_image 10000 im)) = Some im'"
      and 2: "other = new_Money (Decimal (ticks (total_amount b) - item_ticks b)) (money_currency (total_amount b))"
      and m: "scale_money 10000 (input_amount b) = Some ia" "scale_money 10000 (output_amount b) = Some oa"
        "scale_money 10000 (cache_read_amount b) = Some ra" "scale_money 10000 (cache_write_amount b) = Some wa"
        "scale_money 10000 (standard_amount b) = Some sa" "scale_money 10000 other = Some so"
        "scale_money 10000 (input_price_per_million b) = Some ip"
        "scale_money 10000 (output_price_per_million b) = Some op"
        "scale_money 10000 (cache_read_price_per_million b) = Some rp"
        "scale_money 10000 (cache_write_price_per_million b) = Some wp"
      and 3: "total = new_Money (Decimal (ticks ia + ticks oa + ticks ra + ticks wa + ticks so
               + image_ticks im')) (money_currency (total_amount b))"
      and eq: "b' = b\<lparr>breakdown_image := im', input_amount := ia, output_amount := oa,
           cache_read_amount := ra, cache_write_amount := wa,
           standard_amount := (if standard_amount b = total_amount b then total else sa),
           total_amount := total, input_price_per_million := ip, output_price_per_million := op,
           cache_read_price_per_million := rp, cache_write_price_per_million := wp,
           custom_multiplier_bps := 10000\<rparr>"
    have same: "im' = breakdown_image b" "ia = input_amount b" "oa = output_amount b"
      "ra = cache_read_amount b" "wa = cache_write_amount b" "sa = standard_amount b"
      "ip = input_price_per_million b" "op = output_price_per_million b"
      "rp = cache_read_price_per_million b" "wp = cache_write_price_per_million b"
      using m im assms
      by (auto simp: breakdown_ok_def scale_money_one scale_image_one split: option.splits)
    have "ticks so = ticks (total_amount b) - item_ticks b"
      using m(6) 2 by (simp add: scale_money_iff)
    then have "total = total_amount b"
      using 1 3 same by (simp add: item_ticks_def)
    with same eq show "b' = b\<lparr>custom_multiplier_bps := 10000\<rparr>" by simp
  qed
  with b' show ?thesis by simp
qed


section \<open>\<open>pricing.rs\<close>\<close>

datatype TokenPrice = TokenPrice (price_decimal: Decimal)

datatype PriceError = PriceNotDecimal | PriceOutOfRange | MultiplierOutOfRange | UnsupportedBand

definition ticks_per_token :: "TokenPrice \<Rightarrow> nat" where
  "ticks_per_token p = scaled (price_decimal p) div 1000000"

definition token_price_try_from :: "string \<Rightarrow> PriceError + TokenPrice" where
  "token_price_try_from v =
     (case from_str v of
        Inl _ \<Rightarrow> Err PriceNotDecimal
      | Inr amount \<Rightarrow>
          if scaled amount mod 1000000 \<noteq> 0 \<or> 1000000 * 10000000000 < scaled amount
          then Err PriceOutOfRange
          else Ok (TokenPrice amount))"

definition token_price_into_string :: "TokenPrice \<Rightarrow> string" where
  "token_price_into_string p = canonical (price_decimal p)"

record TokenPriceOverride =
  override_input :: TokenPrice
  override_output :: TokenPrice
  override_cache_read :: TokenPrice
  override_cache_write :: TokenPrice

record ModelPriceOverride =
  multiplier_bps :: nat
  bands :: "(string \<times> TokenPriceOverride) list"

definition supported_bands :: "string list" where
  "supported_bands =
     [''standard'', ''fast'', ''flex'', ''long_standard'', ''long_fast'', ''long_flex'', ''image'']"

definition validate_override :: "ModelPriceOverride \<Rightarrow> PriceError + unit" where
  "validate_override ov =
     (if 1000000 < multiplier_bps ov then Err MultiplierOutOfRange
      else if \<exists>band \<in> set (map fst (bands ov)). band \<notin> set supported_bands then Err UnsupportedBand
      else Ok ())"

type_synonym PricingOverrides = "(string \<times> (string \<times> ModelPriceOverride) list) list"

text \<open>\<open>BTreeMap::extend\<close>: the later entries overwrite.\<close>

definition btree_extend :: "('k \<times> 'v) list \<Rightarrow> ('k \<times> 'v) list \<Rightarrow> ('k \<times> 'v) list" where
  "btree_extend m new = foldl (\<lambda>m (k, v). AList.update k v m) m new"

definition merge_model ::
  "(string \<times> ModelPriceOverride) list \<Rightarrow> string \<times> ModelPriceOverride
     \<Rightarrow> (string \<times> ModelPriceOverride) list" where
  "merge_model target entry =
     (case entry of (model, pricing) \<Rightarrow>
        let old = unwrap_or (map_of target model) \<lparr>multiplier_bps = 10000, bands = []\<rparr>;
            new = old\<lparr>multiplier_bps := multiplier_bps pricing, bands := btree_extend (bands old) (bands pricing)\<rparr>
        in AList.update model new target)"

definition merge_provider ::
  "PricingOverrides \<Rightarrow> string \<times> (string \<times> ModelPriceOverride) list \<Rightarrow> PricingOverrides" where
  "merge_provider base entry =
     (case entry of (provider, models) \<Rightarrow>
        AList.update provider
          (foldl merge_model (unwrap_or (map_of base provider) []) models) base)"

definition merge_pricing :: "PricingOverrides \<Rightarrow> PricingOverrides \<Rightarrow> PricingOverrides" where
  "merge_pricing base overrides = foldl merge_provider base overrides"


text \<open>Reading back a table built by per-key updates: one lemma for both levels of the merge.\<close>

lemma map_of_foldl_update:
  assumes "\<And>t k v. step t (k, v) = AList.update k (f (map_of t k) v) t"
    and "distinct (map fst es)"
  shows "map_of (foldl step t es) k =
           (case map_of es k of None \<Rightarrow> map_of t k | Some v \<Rightarrow> Some (f (map_of t k) v))"
  using assms(2)
proof (induction es arbitrary: t)
  case (Cons e es)
  obtain k' v' where e: "e = (k', v')" by fastforce
  have "map_of es k' = None" using Cons.prems e by (simp add: map_of_eq_None_iff)
  then show ?case
    using Cons e by (auto simp: assms(1) update_conv' split: option.splits)
qed simp

definition merged_override ::
  "ModelPriceOverride option \<Rightarrow> ModelPriceOverride \<Rightarrow> ModelPriceOverride" where
  "merged_override old pricing =
     \<lparr>multiplier_bps = multiplier_bps pricing,
      bands = btree_extend (bands (unwrap_or old \<lparr>multiplier_bps = 10000, bands = []\<rparr>)) (bands pricing)\<rparr>"

lemma merge_model_eq:
  "merge_model t (m, p) = AList.update m (merged_override (map_of t m) p) t"
  by (cases "unwrap_or (map_of t m) \<lparr>multiplier_bps = 10000, bands = []\<rparr>")
    (simp add: merge_model_def merged_override_def Let_def)

lemma merge_provider_eq:
  "merge_provider t (p, ms) = AList.update p (foldl merge_model (unwrap_or (map_of t p) []) ms) t"
  by (simp add: merge_provider_def)

lemma map_of_btree_extend:
  "distinct (map fst new) \<Longrightarrow>
     map_of (btree_extend m new) k = or_else (map_of new k) (map_of m k)"
  using map_of_foldl_update [of "\<lambda>m (k, v). AList.update k v m" "\<lambda>_ v. v" new m k]
  by (simp add: btree_extend_def or_else_def split: option.splits)

definition price_lookup :: "PricingOverrides \<Rightarrow> string \<Rightarrow> string \<Rightarrow> ModelPriceOverride option" where
  "price_lookup t p m = do { ms \<leftarrow> map_of t p; map_of ms m }"

definition pricing_wf :: "PricingOverrides \<Rightarrow> bool" where
  "pricing_wf t \<longleftrightarrow> distinct (map fst t) \<and> list_all (\<lambda>(p, ms). distinct (map fst ms)) t"

lemma price_lookup_merge:
  assumes "pricing_wf overrides"
  shows "price_lookup (merge_pricing base overrides) p m =
           (case price_lookup overrides p m of
              None \<Rightarrow> price_lookup base p m
            | Some ov \<Rightarrow> Some (merged_override (price_lookup base p m) ov))"
proof -
  have outer: "map_of (merge_pricing base overrides) p =
      (case map_of overrides p of None \<Rightarrow> map_of base p
       | Some ms \<Rightarrow> Some (foldl merge_model (unwrap_or (map_of base p) []) ms))"
    unfolding merge_pricing_def
    using assms by (intro map_of_foldl_update) (simp_all add: merge_provider_eq pricing_wf_def)
  show ?thesis
  proof (cases "map_of overrides p")
    case None
    then show ?thesis by (simp add: price_lookup_def outer)
  next
    case (Some ms)
    then have "distinct (map fst ms)"
      using assms map_of_SomeD [OF Some] by (auto simp: pricing_wf_def list_all_iff)
    then have "map_of (foldl merge_model t ms) m =
        (case map_of ms m of None \<Rightarrow> map_of t m | Some ov \<Rightarrow> Some (merged_override (map_of t m) ov))" for t
      by (intro map_of_foldl_update) (simp_all add: merge_model_eq)
    then show ?thesis
      using Some by (cases "map_of base p") (auto simp: price_lookup_def outer split: option.splits)
  qed
qed

definition token_price_ok :: "TokenPrice \<Rightarrow> bool" where
  "token_price_ok p \<longleftrightarrow>
     scaled (price_decimal p) mod 1000000 = 0 \<and> scaled (price_decimal p) \<le> 10000000000000000"

lemma token_price_ok_decimal: "token_price_ok p \<Longrightarrow> decimal_ok (price_decimal p)"
  by (simp add: token_price_ok_def decimal_ok_def MAX_SCALED_DECIMAL_def)

lemma token_price_try_from_ok [inv_intros]: "token_price_try_from v = Ok p \<Longrightarrow> token_price_ok p"
  by (auto simp: token_price_try_from_def token_price_ok_def split: sum.splits if_splits)


section \<open>\<open>engine/budget.rs\<close>: limits\<close>

record ClientBudgetLimits =
  daily_usd :: Decimal
  weekly_usd :: Decimal

definition is_limited :: "ClientBudgetLimits \<Rightarrow> bool" where
  "is_limited l \<longleftrightarrow> daily_usd l \<noteq> Decimal_ZERO \<or> weekly_usd l \<noteq> Decimal_ZERO"


section \<open>Properties\<close>

text \<open>
  C40: both printers of \<open>Decimal\<close> are inverted by the parser. For every amount that fits the
  database column, parsing the \<open>Display\<close> text and parsing the canonical wire text give back
  exactly that amount.
\<close>

theorem decimal_print_parse_roundtrip:
  assumes "decimal_ok d"
  shows "from_str (display d) = Ok d \<and> from_str (canonical d) = Ok d"
  using from_str_display [OF assms] from_str_canonical [OF assms] by simp

theorem decimal_print_parse_roundtrip_witness:
  "from_str (display (Decimal 12340000000000)) = Ok (Decimal 12340000000000)
   \<and> from_str (canonical (Decimal 12340000000000)) = Ok (Decimal 12340000000000)"
  by (rule decimal_print_parse_roundtrip) (simp add: decimal_ok_def MAX_SCALED_DECIMAL_def)

text \<open>
  The parser accepts only the documented grammar and computes the denoted value. An accepted
  text is one to ten digits, optionally followed by a point and up to ten digits; the amount is
  the integer part in units of \<open>10 ^ 10\<close> plus the fraction padded to ten places, and it fits
  \<open>numeric(20, 10)\<close>.
\<close>

theorem decimal_parse_sound:
  assumes "from_str s = Ok d"
  shows "\<exists>i f. (s = i \<and> f = [] \<or> s = i @ ''.'' @ f)
           \<and> list_all is_ascii_digit i \<and> 1 \<le> length i \<and> length i \<le> 10
           \<and> list_all is_ascii_digit f \<and> length f \<le> 10
           \<and> scaled d = digits_value i * DECIMAL_SCALE + digits_value f * 10 ^ (10 - length f)
           \<and> decimal_ok d"
proof -
  obtain i f where "s = i \<or> s = i @ ''.'' @ f" "s = i \<longrightarrow> f = []" "i \<noteq> []"
    "list_all is_ascii_digit i" "length i \<le> 10" "list_all is_ascii_digit f" "length f \<le> 10"
    "d = Decimal (text_value i f)"
    using assms by (rule from_str_inversion)
  then show ?thesis
    using from_str_ok [OF assms] by (intro exI [of _ i] exI [of _ f]) (cases i; auto simp: text_value_def)
qed

theorem decimal_parse_sound_witness:
  "\<exists>i f. (''12.5'' = i \<and> f = [] \<or> ''12.5'' = i @ ''.'' @ f)
     \<and> list_all is_ascii_digit i \<and> 1 \<le> length i \<and> length i \<le> 10
     \<and> list_all is_ascii_digit f \<and> length f \<le> 10
     \<and> scaled (Decimal 125000000000) = digits_value i * DECIMAL_SCALE + digits_value f * 10 ^ (10 - length f)
     \<and> decimal_ok (Decimal 125000000000)"
proof (rule decimal_parse_sound)
  show "from_str ''12.5'' = Ok (Decimal 125000000000)"
    using from_str_shape(1) [of "''12''" "''5''"]
    by (simp add: text_value_def digits_value_def digit_value_def byte_def is_ascii_digit_def
        DECIMAL_SCALE_def)
qed

text \<open>The multiple of an amount by \<open>bps\<close> ten-thousandths, rounded to the nearest tick, halves up; the currency stays.\<close>

definition nearest_multiple :: "nat \<Rightarrow> Money \<Rightarrow> Money \<Rightarrow> bool" where
  "nearest_multiple bps m m' \<longleftrightarrow>
     10000 * ticks m' \<le> ticks m * bps + 5000 \<and> ticks m * bps < 10000 * ticks m' + 5000
     \<and> money_currency m' = money_currency m"

definition image_repriced :: "nat \<Rightarrow> ImageCostBreakdown option \<Rightarrow> ImageCostBreakdown option \<Rightarrow> bool" where
  "image_repriced bps i i' \<longleftrightarrow>
     (case (i, i') of
        (None, None) \<Rightarrow> True
      | (Some im, Some im') \<Rightarrow>
          nearest_multiple bps (image_input_amount im) (image_input_amount im')
          \<and> nearest_multiple bps (image_cache_read_amount im) (image_cache_read_amount im')
          \<and> nearest_multiple bps (image_input_price im) (image_input_price im')
          \<and> nearest_multiple bps (image_cache_read_price im) (image_cache_read_price im')
          \<and> image_tokens_in im' = image_tokens_in im \<and> image_tokens_cached im' = image_tokens_cached im
      | _ \<Rightarrow> False)"

text \<open>Every item and every unit price is multiplied on its own; what the multiplier does not concern is kept.\<close>

definition items_repriced :: "nat \<Rightarrow> CalculatedCostBreakdown \<Rightarrow> CalculatedCostBreakdown \<Rightarrow> bool" where
  "items_repriced bps b b' \<longleftrightarrow>
     nearest_multiple bps (input_amount b) (input_amount b')
     \<and> nearest_multiple bps (output_amount b) (output_amount b')
     \<and> nearest_multiple bps (cache_read_amount b) (cache_read_amount b')
     \<and> nearest_multiple bps (cache_write_amount b) (cache_write_amount b')
     \<and> nearest_multiple bps (input_price_per_million b) (input_price_per_million b')
     \<and> nearest_multiple bps (output_price_per_million b) (output_price_per_million b')
     \<and> nearest_multiple bps (cache_read_price_per_million b) (cache_read_price_per_million b')
     \<and> nearest_multiple bps (cache_write_price_per_million b) (cache_write_price_per_million b')
     \<and> image_repriced bps (breakdown_image b) (breakdown_image b')
     \<and> custom_multiplier_bps b' = bps \<and> multiplier_percent b' = multiplier_percent b
     \<and> service_tier b' = service_tier b \<and> long_context_billing_applied b' = long_context_billing_applied b"

lemma scale_money_nearest: "scale_money bps m = Some m' \<Longrightarrow> nearest_multiple bps m m'"
  unfolding nearest_multiple_def scale_money_iff scaled_ticks_def
  using div_times_less_eq_dividend [of "ticks m * bps + 5000" 10000]
    dividend_less_times_div [of 10000 "ticks m * bps + 5000"]
  by auto

lemma scale_image_repriced: "scale_image bps im = Some im' \<Longrightarrow> image_repriced bps (Some im) (Some im')"
  by (auto simp: scale_image_def image_repriced_def Option.bind_eq_Some_conv scale_money_nearest)

lemma with_custom_multiplier_repriced:
  assumes "with_custom_multiplier b bps = Some b'"
  shows "items_repriced bps b b'"
    and "standard_amount b \<noteq> total_amount b \<Longrightarrow> nearest_multiple bps (standard_amount b) (standard_amount b')"
    and "money_currency (total_amount b') = money_currency (total_amount b)"
proof -
  show "items_repriced bps b b'"
    using assms
    by (elim with_custom_multiplierE)
      (auto simp: items_repriced_def scale_money_nearest scale_image_repriced image_repriced_def [of _ None None]
        split: option.splits)
qed (use assms in \<open>elim with_custom_multiplierE; simp add: scale_money_nearest\<close>)+

text \<open>
  C25: a custom multiplier reprices a breakdown item by item and keeps it consistent. If
  \<open>with_custom_multiplier\<close> succeeds, every itemised amount and every unit price (those of images included) is
  its multiple rounded to the nearest tick, halves up, in its own currency; the items of the result plus the rounded
  remainder (the part of the old total that no item explains) are exactly the new total; the standard amount is the
  new total where it was the old one, and otherwise its own rounded multiple; every amount is in range, and where
  the old total was exactly its items, so is the new one.
\<close>

theorem custom_multiplier_keeps_the_sum:
  assumes "with_custom_multiplier b bps = Some b'"
  shows "item_ticks b' + scaled_ticks bps (ticks (total_amount b) - item_ticks b) = ticks (total_amount b')
     \<and> (item_ticks b = ticks (total_amount b) \<longrightarrow> item_ticks b' = ticks (total_amount b'))
     \<and> (standard_amount b = total_amount b \<longrightarrow> standard_amount b' = total_amount b')
     \<and> breakdown_ok b'
     \<and> items_repriced bps b b'
     \<and> (standard_amount b \<noteq> total_amount b \<longrightarrow> nearest_multiple bps (standard_amount b) (standard_amount b'))
     \<and> money_currency (total_amount b') = money_currency (total_amount b)"
  using with_custom_multiplier_facts(3,6) [OF assms] with_custom_multiplier_ok [OF assms]
    with_custom_multiplier_repriced [OF assms] by auto

definition sample_breakdown :: CalculatedCostBreakdown where
  "sample_breakdown =
     new_CalculatedCostBreakdown
       \<lparr>amounts_input = new_Money (Decimal 15) USD, amounts_output = new_Money (Decimal 5) USD,
        amounts_cache_read = new_Money (Decimal 3) USD, amounts_cache_write = new_Money (Decimal 0) USD,
        amounts_standard = new_Money (Decimal 23) USD, amounts_total = new_Money (Decimal 23) USD\<rparr>
       \<lparr>rates_input = new_Money (Decimal 100) USD, rates_output = new_Money (Decimal 100) USD,
        rates_cache_read = new_Money (Decimal 100) USD, rates_cache_write = new_Money (Decimal 100) USD\<rparr>
       None 100"

lemma sample_breakdown_ok: "breakdown_ok sample_breakdown"
  by (simp add: sample_breakdown_def new_CalculatedCostBreakdown_def breakdown_ok_def money_ok_def
      decimal_ok_def item_ticks_def image_ticks_def MAX_SCALED_DECIMAL_def)

theorem custom_multiplier_keeps_the_sum_witness:
  "\<exists>b'. with_custom_multiplier sample_breakdown 15000 = Some b'
     \<and> item_ticks b' + scaled_ticks 15000 (ticks (total_amount sample_breakdown) - item_ticks sample_breakdown)
        = ticks (total_amount b') \<and> ticks (total_amount b') = 36"
proof -
  define b' where "b' = the (with_custom_multiplier sample_breakdown 15000)"
  have ex: "with_custom_multiplier sample_breakdown 15000 \<noteq> None
      \<and> ticks (total_amount (the (with_custom_multiplier sample_breakdown 15000))) = 36"
    by (simp add: with_custom_multiplier_def sample_breakdown_def new_CalculatedCostBreakdown_def
        scale_money_def checked_add_u_def checked_mul_u_def checked_sub_u_def checked_div_u_def
        image_checked_add_def from_scaled_def MAX_SCALED_DECIMAL_def Let_def)
  then have "with_custom_multiplier sample_breakdown 15000 = Some b'" by (auto simp: b'_def)
  then show ?thesis using custom_multiplier_keeps_the_sum ex b'_def by blast
qed

text \<open>
  a multiplier of at most one never fails and never charges more. On a breakdown whose
  amounts are in range and whose items do not exceed its total, every multiplier up to 10000
  basis points succeeds, the new total is at most the old one, and at exactly 10000 basis points
  nothing but the recorded multiplier changes.
\<close>

theorem discount_succeeds:
  assumes "breakdown_ok b" and "bps \<le> 10000"
  shows "\<exists>b'. with_custom_multiplier b bps = Some b'
     \<and> ticks (total_amount b') \<le> ticks (total_amount b)
     \<and> (bps = 10000 \<longrightarrow> b' = b\<lparr>custom_multiplier_bps := 10000\<rparr>)"
proof -
  obtain b' where b': "with_custom_multiplier b bps = Some b'"
    using with_custom_multiplier_discount [OF assms] by blast
  moreover have "ticks (total_amount b') \<le> ticks (total_amount b)"
    using assms(2) b' by (rule with_custom_multiplier_total_le)
  ultimately show ?thesis using with_custom_multiplier_one [OF assms(1)] by auto
qed

theorem discount_succeeds_witness:
  "\<exists>b'. with_custom_multiplier sample_breakdown 5000 = Some b'
     \<and> ticks (total_amount b') \<le> ticks (total_amount sample_breakdown)
     \<and> ((5000::nat) = 10000 \<longrightarrow> b' = sample_breakdown\<lparr>custom_multiplier_bps := 10000\<rparr>)"
  by (rule discount_succeeds [OF sample_breakdown_ok]) simp

text \<open>
  merging usage observations keeps the newest known value of every field. After any sequence
  of observations, each of the eight token counts is the last value that some observation
  reported, and unknown when none did.
\<close>

theorem usage_merge_keeps_newest:
  "input_tokens (foldl usage_merge new_Usage obs) = last_known (map input_tokens obs)
     \<and> output_tokens (foldl usage_merge new_Usage obs) = last_known (map output_tokens obs)
     \<and> cached_tokens (foldl usage_merge new_Usage obs) = last_known (map cached_tokens obs)
     \<and> cache_write_tokens (foldl usage_merge new_Usage obs) = last_known (map cache_write_tokens obs)
     \<and> reasoning_tokens (foldl usage_merge new_Usage obs) = last_known (map reasoning_tokens obs)
     \<and> image_input_tokens (foldl usage_merge new_Usage obs) = last_known (map image_input_tokens obs)
     \<and> image_output_tokens (foldl usage_merge new_Usage obs) = last_known (map image_output_tokens obs)
     \<and> total_tokens (foldl usage_merge new_Usage obs) = last_known (map total_tokens obs)"
  by (simp add: foldl_usage_merge)

text \<open>
  merging price tables is pointwise. The merged entry of a provider and model is the base
  entry where the overrides have none; otherwise its multiplier is the override's, and each band
  is the override's band where it has one and the base's band elsewhere.
\<close>

theorem merge_pricing_pointwise:
  assumes "pricing_wf overrides"
  shows "price_lookup (merge_pricing base overrides) p m =
           (case price_lookup overrides p m of
              None \<Rightarrow> price_lookup base p m
            | Some ov \<Rightarrow> Some (merged_override (price_lookup base p m) ov))
     \<and> (\<forall>old ov band. distinct (map fst (bands ov)) \<longrightarrow>
           map_of (bands (merged_override old ov)) band =
             or_else (map_of (bands ov) band) (do { e \<leftarrow> old; map_of (bands e) band }))"
  using price_lookup_merge [OF assms]
  by (auto simp: merged_override_def map_of_btree_extend unwrap_or_def split: option.splits)

definition sample_pricing :: "nat \<Rightarrow> PricingOverrides" where
  "sample_pricing bps = [(''openai'', [(''gpt'', \<lparr>multiplier_bps = bps, bands = []\<rparr>)])]"

theorem merge_pricing_pointwise_witness:
  "price_lookup (merge_pricing (sample_pricing 10000) (sample_pricing 20000)) ''openai'' ''gpt''
   = Some \<lparr>multiplier_bps = 20000, bands = []\<rparr>"
proof -
  have "price_lookup (merge_pricing (sample_pricing 10000) (sample_pricing 20000)) ''openai'' ''gpt''
      = (case price_lookup (sample_pricing 20000) ''openai'' ''gpt'' of
           None \<Rightarrow> price_lookup (sample_pricing 10000) ''openai'' ''gpt''
         | Some ov \<Rightarrow> Some (merged_override (price_lookup (sample_pricing 10000) ''openai'' ''gpt'') ov))"
    by (rule merge_pricing_pointwise [THEN conjunct1]) (simp add: pricing_wf_def sample_pricing_def)
  then show ?thesis
    by (simp add: price_lookup_def merged_override_def btree_extend_def sample_pricing_def)
qed

end
