(* ===== verification/Account_Model.thy ===== *)
theory Account_Model
  imports Wire_Enum
begin

text \<open>
  \<open>gateway-core/src/account/model.rs\<close>, \<open>model_access.rs\<close>, \<open>location.rs\<close>, \<open>proxy.rs\<close> and
  \<open>error.rs\<close>: the value objects of a provider account. Credential and quota state are separate
  facts, and one resolver derives the five-valued public status from them. JSON objects that the
  gateway only carries (\<open>PlaintextCredential\<close>, \<open>OpaqueProviderData\<close>) are an uninterpreted type;
  URL parsing (the \<open>url\<close> crate) is a parameter of \<open>OutboundProxy::parse\<close>.

  Main results: every enum's stored text reads back exactly; the resolver's status is decided by
  the documented precedence and \<open>Normal\<close> means exactly that no blocking fact holds; quota states
  keep the shape that the persisted columns are checked against; an unknown observation never
  erases a verdict; revisions advance by one without wrapping; the refresh query, the model
  policy and the CAS write keep their contracts.
\<close>


section \<open>Concurrency, weight, revision\<close>

datatype CredentialError =
    InvalidRevision
  | RevisionOverflow
  | ProfileAccountMismatch
  | InvalidRefreshSchedule

datatype AccountConcurrencyLimit = AccountConcurrencyLimit (limit_get: nat)

definition new_AccountConcurrencyLimit :: "nat \<Rightarrow> AccountConcurrencyLimit option" where
  "new_AccountConcurrencyLimit v = (if v = 0 then None else Some (AccountConcurrencyLimit v))"

datatype AccountConcurrency = Unlimited | Limited nat

definition new_AccountConcurrency :: "nat \<Rightarrow> AccountConcurrency" where
  "new_AccountConcurrency v = (if v = 0 then Unlimited else Limited v)"

fun concurrency_get :: "AccountConcurrency \<Rightarrow> nat" where
  "concurrency_get Unlimited = 0"
| "concurrency_get (Limited n) = n"

fun concurrency_limit :: "AccountConcurrency \<Rightarrow> nat option" where
  "concurrency_limit Unlimited = None"
| "concurrency_limit (Limited n) = Some n"

fun excluding_reserved :: "AccountConcurrency \<Rightarrow> nat \<Rightarrow> AccountConcurrency" where
  "excluding_reserved Unlimited reserved = Unlimited"
| "excluding_reserved (Limited n) reserved =
     (if n - reserved = 0 then Limited 1 else Limited (n - reserved))"

text \<open>\<open>NonZeroU32\<close>: the limit of a bounded account is positive.\<close>

definition concurrency_ok :: "AccountConcurrency \<Rightarrow> bool" where
  "concurrency_ok c \<longleftrightarrow> (case c of Unlimited \<Rightarrow> True | Limited n \<Rightarrow> 0 < n)"

lemma concurrency_ok_intros [inv_intros]:
  "concurrency_ok (new_AccountConcurrency v)"
  "concurrency_ok (excluding_reserved c r)"
  by (cases c; simp add: concurrency_ok_def new_AccountConcurrency_def)+

lemma concurrency_new_get: "concurrency_ok c \<Longrightarrow> new_AccountConcurrency (concurrency_get c) = c"
  by (cases c) (auto simp: concurrency_ok_def new_AccountConcurrency_def)

lemma excluding_reserved_limit:
  "concurrency_ok c \<Longrightarrow> concurrency_limit (excluding_reserved c r) = Some n \<Longrightarrow>
     (\<exists>m. concurrency_limit c = Some m \<and> n = max 1 (m - r) \<and> n \<le> m)"
  by (cases c) (auto simp: concurrency_ok_def split: if_splits)

lemma excluding_reserved_zero: "concurrency_ok c \<Longrightarrow> excluding_reserved c 0 = c"
  by (cases c) (auto simp: concurrency_ok_def)

datatype AccountWeight = AccountWeight (weight_get: nat)

definition AccountWeight_MAX :: nat where "AccountWeight_MAX = 100"

definition AccountWeight_DEFAULT :: AccountWeight where "AccountWeight_DEFAULT = AccountWeight 1"

definition new_AccountWeight :: "nat \<Rightarrow> AccountWeight option" where
  "new_AccountWeight v = (if v \<noteq> 0 \<and> v \<le> AccountWeight_MAX then Some (AccountWeight v) else None)"

instantiation AccountWeight :: linorder
begin

definition less_eq_AccountWeight :: "AccountWeight \<Rightarrow> AccountWeight \<Rightarrow> bool" where
  "less_eq_AccountWeight a b = (weight_get a \<le> weight_get b)"

definition less_AccountWeight :: "AccountWeight \<Rightarrow> AccountWeight \<Rightarrow> bool" where
  "less_AccountWeight a b = (weight_get a < weight_get b)"

instance
  by standard
    (auto simp: less_eq_AccountWeight_def less_AccountWeight_def intro: AccountWeight.expand)

end

datatype CredentialRevision = CredentialRevision (revision_get: nat)

definition new_CredentialRevision :: "nat \<Rightarrow> CredentialError + CredentialRevision" where
  "new_CredentialRevision v = (if v = 0 then Err InvalidRevision else Ok (CredentialRevision v))"

definition next_revision :: "CredentialRevision \<Rightarrow> CredentialError + CredentialRevision" where
  "next_revision r =
     (case checked_add_u 64 (revision_get r) 1 of
        None \<Rightarrow> Err RevisionOverflow
      | Some v \<Rightarrow> if v = 0 then Err RevisionOverflow else Ok (CredentialRevision v))"

lemma next_revision_iff:
  "next_revision r = Ok r' \<longleftrightarrow>
     revision_get r' = revision_get r + 1 \<and> revision_get r + 1 < 2 ^ 64"
  by (cases r') (auto simp: next_revision_def checked_add_u_def)

record ProviderAccountIdentity =
  identity_upstream_user_id :: string
  identity_upstream_account_id :: "string option"

text \<open>JSON objects the gateway carries without reading.\<close>

typedecl JsonObject

datatype PlaintextCredential = PlaintextCredential (credential_into_inner: JsonObject)

datatype OpaqueProviderData = OpaqueProviderData (opaque_into_inner: JsonObject)


section \<open>Enums with a stable text\<close>

datatype AccountErrorReason =
    AccountUnverified
  | AccessTokenExpired
  | CredentialExpired
  | CredentialInvalid
  | AccountBanned

fun AccountErrorReason_as_str :: "AccountErrorReason \<Rightarrow> string" where
  "AccountErrorReason_as_str AccountUnverified = ''account_unverified''"
| "AccountErrorReason_as_str AccessTokenExpired = ''access_token_expired''"
| "AccountErrorReason_as_str CredentialExpired = ''credential_expired''"
| "AccountErrorReason_as_str CredentialInvalid = ''credential_invalid''"
| "AccountErrorReason_as_str AccountBanned = ''account_banned''"

definition AccountErrorReason_parse :: "string \<Rightarrow> AccountErrorReason option" where
  "AccountErrorReason_parse v =
     (if v = ''account_unverified'' then Some AccountUnverified
      else if v = ''access_token_expired'' then Some AccessTokenExpired
      else if v = ''credential_expired'' then Some CredentialExpired
      else if v = ''credential_invalid'' then Some CredentialInvalid
      else if v = ''account_banned'' then Some AccountBanned
      else None)"

datatype CredentialState = CsUnknown | Ready | Expired | Banned | Invalid

fun CredentialState_as_str :: "CredentialState \<Rightarrow> string" where
  "CredentialState_as_str CsUnknown = ''unknown''"
| "CredentialState_as_str Ready = ''ready''"
| "CredentialState_as_str Expired = ''expired''"
| "CredentialState_as_str Banned = ''banned''"
| "CredentialState_as_str Invalid = ''invalid''"

fun CredentialState_error_reason :: "CredentialState \<Rightarrow> AccountErrorReason option" where
  "CredentialState_error_reason CsUnknown = Some AccountUnverified"
| "CredentialState_error_reason Expired = Some CredentialExpired"
| "CredentialState_error_reason Banned = Some AccountBanned"
| "CredentialState_error_reason Invalid = Some CredentialInvalid"
| "CredentialState_error_reason Ready = None"

definition CredentialState_parse :: "string \<Rightarrow> CredentialState option" where
  "CredentialState_parse v =
     (if v = ''unknown'' then Some CsUnknown
      else if v = ''ready'' then Some Ready
      else if v = ''expired'' then Some Expired
      else if v = ''banned'' then Some Banned
      else if v = ''invalid'' then Some Invalid
      else None)"

datatype QuotaAccessState = QaUnknown | Allowed | Exhausted

fun QuotaAccessState_as_str :: "QuotaAccessState \<Rightarrow> string" where
  "QuotaAccessState_as_str QaUnknown = ''unknown''"
| "QuotaAccessState_as_str Allowed = ''allowed''"
| "QuotaAccessState_as_str Exhausted = ''exhausted''"

definition QuotaAccessState_parse :: "string \<Rightarrow> QuotaAccessState option" where
  "QuotaAccessState_parse v =
     (if v = ''unknown'' then Some QaUnknown
      else if v = ''allowed'' then Some Allowed
      else if v = ''exhausted'' then Some Exhausted
      else None)"

datatype QuotaEvidence = ProviderDenied | AccountLimitReached | UsageLimitReached | PaymentRequired

fun QuotaEvidence_as_str :: "QuotaEvidence \<Rightarrow> string" where
  "QuotaEvidence_as_str ProviderDenied = ''provider_denied''"
| "QuotaEvidence_as_str AccountLimitReached = ''account_limit_reached''"
| "QuotaEvidence_as_str UsageLimitReached = ''usage_limit_reached''"
| "QuotaEvidence_as_str PaymentRequired = ''payment_required''"

definition QuotaEvidence_parse :: "string \<Rightarrow> QuotaEvidence option" where
  "QuotaEvidence_parse v =
     (if v = ''provider_denied'' then Some ProviderDenied
      else if v = ''account_limit_reached'' then Some AccountLimitReached
      else if v = ''usage_limit_reached'' then Some UsageLimitReached
      else if v = ''payment_required'' then Some PaymentRequired
      else None)"

datatype AccountStatus = Normal | QuotaExhausted | RateLimited | Disabled | Error

fun AccountStatus_as_str :: "AccountStatus \<Rightarrow> string" where
  "AccountStatus_as_str Normal = ''normal''"
| "AccountStatus_as_str QuotaExhausted = ''quota_exhausted''"
| "AccountStatus_as_str RateLimited = ''rate_limited''"
| "AccountStatus_as_str Disabled = ''disabled''"
| "AccountStatus_as_str Error = ''error''"

definition AccountStatus_parse :: "string \<Rightarrow> AccountStatus option" where
  "AccountStatus_parse v =
     (if v = ''normal'' then Some Normal
      else if v = ''quota_exhausted'' then Some QuotaExhausted
      else if v = ''rate_limited'' then Some RateLimited
      else if v = ''disabled'' then Some Disabled
      else if v = ''error'' then Some Error
      else None)"

fun sort_rank :: "AccountStatus \<Rightarrow> nat" where
  "sort_rank Normal = 0"
| "sort_rank RateLimited = 1"
| "sort_rank QuotaExhausted = 2"
| "sort_rank Error = 3"
| "sort_rank Disabled = 4"

datatype AccountCooldownKind = RateLimit | CapacityFreeze | CapacityFreezeProbe

fun AccountCooldownKind_as_str :: "AccountCooldownKind \<Rightarrow> string" where
  "AccountCooldownKind_as_str RateLimit = ''rate_limit''"
| "AccountCooldownKind_as_str CapacityFreeze = ''capacity_freeze''"
| "AccountCooldownKind_as_str CapacityFreezeProbe = ''capacity_freeze_probe''"

fun is_capacity_freeze :: "AccountCooldownKind \<Rightarrow> bool" where
  "is_capacity_freeze CapacityFreeze = True"
| "is_capacity_freeze CapacityFreezeProbe = True"
| "is_capacity_freeze _ = False"

fun requires_probe :: "AccountCooldownKind \<Rightarrow> bool" where
  "requires_probe CapacityFreezeProbe = True"
| "requires_probe _ = False"

definition AccountCooldownKind_parse :: "string \<Rightarrow> AccountCooldownKind option" where
  "AccountCooldownKind_parse v =
     (if v = ''rate_limit'' then Some RateLimit
      else if v = ''capacity_freeze'' then Some CapacityFreeze
      else if v = ''capacity_freeze_probe'' then Some CapacityFreezeProbe
      else None)"

lemma sort_rank_inj: "sort_rank a = sort_rank b \<longleftrightarrow> a = b"
  by (cases a; cases b) simp_all

interpretation error_reason_wire: wire_enum AccountErrorReason_as_str AccountErrorReason_parse
proof
  show "AccountErrorReason_parse (AccountErrorReason_as_str e) = Some e" for e
    by (cases e) (simp_all add: AccountErrorReason_parse_def)
  show "AccountErrorReason_parse s = Some e \<Longrightarrow> s = AccountErrorReason_as_str e" for s e
    by (auto simp: AccountErrorReason_parse_def split: if_splits)
qed

interpretation credential_state_wire: wire_enum CredentialState_as_str CredentialState_parse
proof
  show "CredentialState_parse (CredentialState_as_str e) = Some e" for e
    by (cases e) (simp_all add: CredentialState_parse_def)
  show "CredentialState_parse s = Some e \<Longrightarrow> s = CredentialState_as_str e" for s e
    by (auto simp: CredentialState_parse_def split: if_splits)
qed

interpretation quota_access_wire: wire_enum QuotaAccessState_as_str QuotaAccessState_parse
proof
  show "QuotaAccessState_parse (QuotaAccessState_as_str e) = Some e" for e
    by (cases e) (simp_all add: QuotaAccessState_parse_def)
  show "QuotaAccessState_parse s = Some e \<Longrightarrow> s = QuotaAccessState_as_str e" for s e
    by (auto simp: QuotaAccessState_parse_def split: if_splits)
qed

interpretation quota_evidence_wire: wire_enum QuotaEvidence_as_str QuotaEvidence_parse
proof
  show "QuotaEvidence_parse (QuotaEvidence_as_str e) = Some e" for e
    by (cases e) (simp_all add: QuotaEvidence_parse_def)
  show "QuotaEvidence_parse s = Some e \<Longrightarrow> s = QuotaEvidence_as_str e" for s e
    by (auto simp: QuotaEvidence_parse_def split: if_splits)
qed

interpretation account_status_wire: wire_enum AccountStatus_as_str AccountStatus_parse
proof
  show "AccountStatus_parse (AccountStatus_as_str e) = Some e" for e
    by (cases e) (simp_all add: AccountStatus_parse_def)
  show "AccountStatus_parse s = Some e \<Longrightarrow> s = AccountStatus_as_str e" for s e
    by (auto simp: AccountStatus_parse_def split: if_splits)
qed

interpretation cooldown_kind_wire: wire_enum AccountCooldownKind_as_str AccountCooldownKind_parse
proof
  show "AccountCooldownKind_parse (AccountCooldownKind_as_str e) = Some e" for e
    by (cases e) (simp_all add: AccountCooldownKind_parse_def)
  show "AccountCooldownKind_parse s = Some e \<Longrightarrow> s = AccountCooldownKind_as_str e" for s e
    by (auto simp: AccountCooldownKind_parse_def split: if_splits)
qed


section \<open>Quota access facts\<close>

record QuotaState =
  quota_access :: QuotaAccessState
  quota_evidence :: "QuotaEvidence option"
  quota_observed_at :: "system_time option"
  quota_reset_at :: "system_time option"

definition quota_unknown :: QuotaState where
  "quota_unknown = \<lparr>quota_access = QaUnknown, quota_evidence = None, quota_observed_at = None,
     quota_reset_at = None\<rparr>"

definition quota_observed_unknown :: "system_time \<Rightarrow> QuotaState" where
  "quota_observed_unknown t = \<lparr>quota_access = QaUnknown, quota_evidence = None,
     quota_observed_at = Some t, quota_reset_at = None\<rparr>"

definition quota_allowed :: "system_time \<Rightarrow> QuotaState" where
  "quota_allowed t = \<lparr>quota_access = Allowed, quota_evidence = None, quota_observed_at = Some t,
     quota_reset_at = None\<rparr>"

definition quota_exhausted ::
  "QuotaEvidence \<Rightarrow> system_time \<Rightarrow> system_time option \<Rightarrow> QuotaState" where
  "quota_exhausted ev t reset = \<lparr>quota_access = Exhausted, quota_evidence = Some ev,
     quota_observed_at = Some t, quota_reset_at = reset\<rparr>"

fun from_persisted ::
  "QuotaAccessState \<Rightarrow> QuotaEvidence option \<Rightarrow> system_time option \<Rightarrow> system_time option
     \<Rightarrow> QuotaState option" where
  "from_persisted QaUnknown ev obs reset =
     (if ev = None \<and> reset = None
      then Some \<lparr>quota_access = QaUnknown, quota_evidence = ev, quota_observed_at = obs,
                 quota_reset_at = reset\<rparr>
      else None)"
| "from_persisted Allowed ev obs reset =
     (if ev = None \<and> is_some obs \<and> reset = None
      then Some \<lparr>quota_access = Allowed, quota_evidence = ev, quota_observed_at = obs,
                 quota_reset_at = reset\<rparr>
      else None)"
| "from_persisted Exhausted ev obs reset =
     (if is_some ev \<and> is_some obs
      then Some \<lparr>quota_access = Exhausted, quota_evidence = ev, quota_observed_at = obs,
                 quota_reset_at = reset\<rparr>
      else None)"

definition is_exhausted :: "QuotaState \<Rightarrow> bool" where
  "is_exhausted q \<longleftrightarrow> quota_access q = Exhausted"

definition exhaustion_refresh_due :: "QuotaState \<Rightarrow> system_time \<Rightarrow> duration \<Rightarrow> bool" where
  "exhaustion_refresh_due q now fallback_interval =
     (if \<not> is_exhausted q then False
      else
        let due_at = or_else (quota_reset_at q)
                       (Option.bind (quota_observed_at q)
                          (\<lambda>observed_at. checked_add_time observed_at fallback_interval))
        in is_none_or due_at (\<lambda>due_at. due_at \<le> now))"

definition merge_observation :: "QuotaState \<Rightarrow> QuotaState \<Rightarrow> QuotaState" where
  "merge_observation self observation =
     (if quota_access observation = QaUnknown \<and> quota_access self \<noteq> QaUnknown
      then self else observation)"

text \<open>The shape that the four constructors produce, and that persisted rows must have.\<close>

definition quota_ok :: "QuotaState \<Rightarrow> bool" where
  "quota_ok q \<longleftrightarrow>
     (quota_evidence q \<noteq> None \<longleftrightarrow> quota_access q = Exhausted)
     \<and> (quota_access q \<noteq> QaUnknown \<longrightarrow> quota_observed_at q \<noteq> None)
     \<and> (quota_reset_at q \<noteq> None \<longrightarrow> quota_access q = Exhausted)"

lemma quota_constructors_ok [inv_intros]:
  "quota_ok quota_unknown" "quota_ok (quota_observed_unknown t)" "quota_ok (quota_allowed t)"
  "quota_ok (quota_exhausted ev t reset)"
  by (simp_all add: quota_ok_def quota_unknown_def quota_observed_unknown_def quota_allowed_def
      quota_exhausted_def)

lemma merge_observation_ok [inv_intros]:
  "quota_ok q \<Longrightarrow> quota_ok obs \<Longrightarrow> quota_ok (merge_observation q obs)"
  by (simp add: merge_observation_def)

lemma from_persisted_iff:
  "from_persisted a ev obs reset = Some q \<longleftrightarrow>
     q = \<lparr>quota_access = a, quota_evidence = ev, quota_observed_at = obs, quota_reset_at = reset\<rparr>
     \<and> quota_ok q"
  by (cases a) (auto simp: quota_ok_def)

lemma from_persisted_columns:
  "quota_ok q \<Longrightarrow>
     from_persisted (quota_access q) (quota_evidence q) (quota_observed_at q) (quota_reset_at q) = Some q"
  by (simp add: from_persisted_iff)

lemma exhaustion_refresh_due_reset:
  "quota_reset_at q = Some r \<Longrightarrow>
     exhaustion_refresh_due q now iv \<longleftrightarrow> is_exhausted q \<and> r \<le> now"
  by (simp add: exhaustion_refresh_due_def)


section \<open>Cooldown and the status resolver\<close>

record AccountCooldown =
  cooldown_until :: system_time
  cooldown_kind :: AccountCooldownKind

definition cooldown_is_active :: "AccountCooldown \<Rightarrow> system_time \<Rightarrow> bool" where
  "cooldown_is_active c now \<longleftrightarrow> requires_probe (cooldown_kind c) \<or> now < cooldown_until c"

definition cooldown_from_time :: "system_time \<Rightarrow> AccountCooldown" where
  "cooldown_from_time until = \<lparr>cooldown_until = until, cooldown_kind = RateLimit\<rparr>"

record AccountStatusFacts =
  facts_enabled :: bool
  facts_credential_state :: CredentialState
  facts_access_token_expires_at :: "system_time option"
  facts_quota :: QuotaState
  facts_cooldown :: "AccountCooldown option"
  facts_last_error_reason :: "AccountErrorReason option"
  facts_last_error_message :: "string option"

record AccountStatusProjection =
  status :: AccountStatus
  error_reason :: "AccountErrorReason option"
  error_message :: "string option"
  projection_cooldown :: "AccountCooldown option"

definition plain_projection :: "AccountStatus \<Rightarrow> AccountStatusProjection" where
  "plain_projection st =
     \<lparr>status = st, error_reason = None, error_message = None, projection_cooldown = None\<rparr>"

definition credential_error :: "AccountStatusFacts \<Rightarrow> system_time \<Rightarrow> AccountErrorReason option" where
  "credential_error facts now =
     or_else (CredentialState_error_reason (facts_credential_state facts))
       (if is_some_and (facts_access_token_expires_at facts) (\<lambda>expires_at. expires_at \<le> now)
        then Some AccessTokenExpired else None)"

definition resolve_account_status ::
  "AccountStatusFacts \<Rightarrow> system_time \<Rightarrow> AccountStatusProjection" where
  "resolve_account_status facts now =
     (if \<not> facts_enabled facts then plain_projection Disabled
      else
        case credential_error facts now of
          Some default_reason \<Rightarrow>
            \<lparr>status = Error,
             error_reason = Some (unwrap_or (facts_last_error_reason facts) default_reason),
             error_message = facts_last_error_message facts,
             projection_cooldown = None\<rparr>
        | None \<Rightarrow>
            if is_exhausted (facts_quota facts) then plain_projection QuotaExhausted
            else if is_some_and (facts_cooldown facts) (\<lambda>c. cooldown_is_active c now)
            then \<lparr>status = RateLimited, error_reason = None, error_message = None,
                  projection_cooldown = facts_cooldown facts\<rparr>
            else plain_projection Normal)"

text \<open>The facts that the resolver looks at, one predicate per status.\<close>

definition credential_blocks :: "AccountStatusFacts \<Rightarrow> system_time \<Rightarrow> bool" where
  "credential_blocks f now \<longleftrightarrow>
     facts_credential_state f \<noteq> Ready
     \<or> (\<exists>t. facts_access_token_expires_at f = Some t \<and> t \<le> now)"

definition cooldown_blocks :: "AccountStatusFacts \<Rightarrow> system_time \<Rightarrow> bool" where
  "cooldown_blocks f now \<longleftrightarrow>
     (\<exists>c. facts_cooldown f = Some c \<and> (cooldown_kind c = CapacityFreezeProbe \<or> now < cooldown_until c))"

lemma error_reason_None_iff: "CredentialState_error_reason c = None \<longleftrightarrow> c = Ready"
  by (cases c) simp_all

lemma requires_probe_iff: "requires_probe k \<longleftrightarrow> k = CapacityFreezeProbe"
  by (cases k) simp_all

lemma credential_error_iff: "credential_error f now = None \<longleftrightarrow> \<not> credential_blocks f now"
  by (auto simp: credential_error_def credential_blocks_def or_else_def is_some_and_iff
      split: option.splits simp flip: error_reason_None_iff)

lemma resolve_account_status_cases:
  "status (resolve_account_status f now) =
     (if \<not> facts_enabled f then Disabled
      else if credential_blocks f now then Error
      else if quota_access (facts_quota f) = Exhausted then QuotaExhausted
      else if cooldown_blocks f now then RateLimited
      else Normal)"
proof -
  have c: "is_some_and (facts_cooldown f) (\<lambda>c. cooldown_is_active c now) \<longleftrightarrow> cooldown_blocks f now"
    by (auto simp: is_some_and_iff cooldown_is_active_def requires_probe_iff cooldown_blocks_def)
  show ?thesis
    using credential_error_iff [of f now]
    by (auto simp: resolve_account_status_def plain_projection_def c is_exhausted_def
        split: option.splits)
qed

lemma resolve_account_status_details:
  "let p = resolve_account_status f now in
     (error_reason p \<noteq> None \<longleftrightarrow> status p = Error)
     \<and> (error_message p \<noteq> None \<longrightarrow> status p = Error)
     \<and> (projection_cooldown p \<noteq> None \<longrightarrow> status p = RateLimited \<and> cooldown_blocks f now)"
  by (auto simp: resolve_account_status_def plain_projection_def Let_def is_some_and_iff
      cooldown_is_active_def requires_probe_iff cooldown_blocks_def split: option.splits)


section \<open>Model policy of an account\<close>

definition MAX_ACCOUNT_ACCESS_MODELS :: nat where "MAX_ACCOUNT_ACCESS_MODELS = 256"

datatype AccountModelAccessMode = AllModels | Allowlist | Denylist

record AccountModelAccess =
  access_mode :: AccountModelAccessMode
  access_models :: "string set"

datatype InvalidAccountModelAccess = InvalidAccountModelAccess

definition access_all :: AccountModelAccess where
  "access_all = \<lparr>access_mode = AllModels, access_models = {}\<rparr>"

definition invalid_model_id :: "string \<Rightarrow> bool" where
  "invalid_model_id model \<longleftrightarrow>
     trim model \<noteq> model \<or> trim model = [] \<or> CHR ''*'' \<in> set model
     \<or> validate_text model 256 True None \<noteq> Ok ()"

definition new_AccountModelAccess ::
  "AccountModelAccessMode \<Rightarrow> string list \<Rightarrow> InvalidAccountModelAccess + AccountModelAccess" where
  "new_AccountModelAccess mode models =
     (if MAX_ACCOUNT_ACCESS_MODELS < length models
         \<or> (mode = AllModels) \<noteq> (models = [])
         \<or> list_ex invalid_model_id models
      then Err InvalidAccountModelAccess
      else Ok \<lparr>access_mode = mode, access_models = set models\<rparr>)"

definition model_access_allows :: "AccountModelAccess \<Rightarrow> string \<Rightarrow> bool" where
  "model_access_allows a upstream_model =
     (case access_mode a of
        AllModels \<Rightarrow> True
      | Allowlist \<Rightarrow> upstream_model \<in> access_models a
      | Denylist \<Rightarrow> upstream_model \<notin> access_models a)"

lemma new_AccountModelAccess_iff [guard_simps]:
  "new_AccountModelAccess mode models = Ok a \<longleftrightarrow>
     length models \<le> 256 \<and> (mode = AllModels \<longleftrightarrow> models = [])
     \<and> (\<forall>m \<in> set models. trim m = m \<and> m \<noteq> [] \<and> CHR ''*'' \<notin> set m \<and> text_ok m 256 True None)
     \<and> a = \<lparr>access_mode = mode, access_models = set models\<rparr>"
  using validate_text_iff [of _ 256 True None "()"]
  by (auto simp: new_AccountModelAccess_def MAX_ACCOUNT_ACCESS_MODELS_def list_ex_iff
      invalid_model_id_def)

lemma access_all_allows [simp]: "model_access_allows access_all m"
  by (simp add: model_access_allows_def access_all_def)


section \<open>Request location\<close>

datatype Tz = Tz (tz_name: string)

record RequestLocation =
  country :: string
  region :: string
  city :: string
  timezone :: Tz

datatype InvalidRequestLocation = InvalidCountry | InvalidRegion | InvalidCity

definition default_RequestLocation :: RequestLocation where
  "default_RequestLocation =
     \<lparr>country = ''US'', region = ''Ohio'', city = ''Piketon'', timezone = Tz ''America/New_York''\<rparr>"

text \<open>\<open>chars().count()\<close>: the bytes that are not UTF-8 continuation bytes.\<close>

definition chars_count :: "string \<Rightarrow> nat" where
  "chars_count s = length (filter (\<lambda>c. \<not> (128 \<le> byte c \<and> byte c < 192)) s)"

definition place_invalid :: "string \<Rightarrow> bool" where
  "place_invalid v \<longleftrightarrow> has_control v \<or> trim v = [] \<or> 128 < chars_count (trim v)"

definition validate_RequestLocation :: "RequestLocation \<Rightarrow> InvalidRequestLocation + unit" where
  "validate_RequestLocation l =
     (if length (country l) \<noteq> 2 \<or> \<not> list_all is_ascii_uppercase (country l) then Err InvalidCountry
      else if place_invalid (region l) then Err InvalidRegion
      else if place_invalid (city l) then Err InvalidCity
      else Ok ())"

definition normalized :: "RequestLocation \<Rightarrow> InvalidRequestLocation + RequestLocation" where
  "normalized l =
     (case validate_RequestLocation l of
        Inl e \<Rightarrow> Err e
      | Inr _ \<Rightarrow> Ok (l\<lparr>region := trim (region l), city := trim (city l)\<rparr>))"

lemma place_invalid_trim: "\<not> place_invalid v \<Longrightarrow> \<not> place_invalid (trim v)"
  using has_control_trim [of v] by (auto simp: place_invalid_def trim_idem)

lemma normalized_stable:
  "normalized l = Ok l' \<Longrightarrow> validate_RequestLocation l' = Ok () \<and> normalized l' = Ok l'"
  by (auto simp: normalized_def validate_RequestLocation_def place_invalid_trim trim_idem
      split: if_splits sum.splits)


section \<open>Outbound proxy\<close>

record ParsedUrl =
  url_text :: string
  url_scheme :: string
  url_host :: "string option"
  url_port_or_known_default :: "nat option"
  url_path :: string
  url_query :: "string option"
  url_fragment :: "string option"

datatype InvalidOutboundProxy = InvalidOutboundProxy

datatype OutboundProxy = OutboundProxy (proxy_url: ParsedUrl)

text \<open>\<open>url_parse\<close> is \<open>Url::parse\<close> of the \<open>url\<close> crate.\<close>

definition parse_OutboundProxy ::
  "(string \<Rightarrow> ParsedUrl option) \<Rightarrow> string \<Rightarrow> InvalidOutboundProxy + OutboundProxy" where
  "parse_OutboundProxy url_parse v =
     (if 4096 < length v \<or> has_control v then Err InvalidOutboundProxy
      else
        case url_parse v of
          None \<Rightarrow> Err InvalidOutboundProxy
        | Some url \<Rightarrow>
            if url_scheme url \<notin> {''http'', ''https'', ''socks5'', ''socks5h''}
               \<or> url_host url = None
               \<or> is_none_or (url_port_or_known_default url) (\<lambda>port. port = 0)
               \<or> url_path url \<notin> {[], ''/''}
               \<or> is_some (url_query url)
               \<or> is_some (url_fragment url)
            then Err InvalidOutboundProxy
            else Ok (OutboundProxy url))"


section \<open>Properties\<close>

text \<open>
  every stored enum text reads back as the value that wrote it, and no other text is
  accepted. This covers credential state, quota access, quota evidence, public status, error
  reason and cooldown kind.
\<close>

theorem enum_texts_roundtrip:
  "(CredentialState_parse s = Some c \<longleftrightarrow> s = CredentialState_as_str c)
   \<and> (QuotaAccessState_parse s = Some q \<longleftrightarrow> s = QuotaAccessState_as_str q)
   \<and> (QuotaEvidence_parse s = Some ev \<longleftrightarrow> s = QuotaEvidence_as_str ev)
   \<and> (AccountStatus_parse s = Some st \<longleftrightarrow> s = AccountStatus_as_str st)
   \<and> (AccountErrorReason_parse s = Some r \<longleftrightarrow> s = AccountErrorReason_as_str r)
   \<and> (AccountCooldownKind_parse s = Some k \<longleftrightarrow> s = AccountCooldownKind_as_str k)"
  by (simp only: credential_state_wire.parse_iff quota_access_wire.parse_iff
      quota_evidence_wire.parse_iff account_status_wire.parse_iff error_reason_wire.parse_iff
      cooldown_kind_wire.parse_iff simp_thms)

text \<open>
  The status resolver follows one precedence. Disabled wins over a credential error, which wins
  over exhausted quota, which wins over an active cooldown; \<open>Normal\<close> is exactly the absence of all
  four. An error reason is reported exactly in the error state, and a cooldown only while it
  really blocks.
\<close>

theorem status_resolver_precedence:
  "let p = resolve_account_status f now in
     status p =
       (if \<not> facts_enabled f then Disabled
        else if credential_blocks f now then Error
        else if quota_access (facts_quota f) = Exhausted then QuotaExhausted
        else if cooldown_blocks f now then RateLimited
        else Normal)
     \<and> (error_reason p \<noteq> None \<longleftrightarrow> status p = Error)
     \<and> (error_message p \<noteq> None \<longrightarrow> status p = Error)
     \<and> (projection_cooldown p \<noteq> None \<longrightarrow> status p = RateLimited \<and> cooldown_blocks f now)"
  using resolve_account_status_cases [of f now] resolve_account_status_details [of f now]
  by (simp add: Let_def)

theorem status_resolver_precedence_witness:
  "status (resolve_account_status
     \<lparr>facts_enabled = True, facts_credential_state = Ready, facts_access_token_expires_at = Some 10,
      facts_quota = quota_allowed 0, facts_cooldown = Some (cooldown_from_time 9),
      facts_last_error_reason = None, facts_last_error_message = None\<rparr> 5) = RateLimited"
  using status_resolver_precedence
    [of "\<lparr>facts_enabled = True, facts_credential_state = Ready, facts_access_token_expires_at = Some 10,
      facts_quota = quota_allowed 0, facts_cooldown = Some (cooldown_from_time 9),
      facts_last_error_reason = None, facts_last_error_message = None\<rparr>" 5]
  by (simp add: credential_blocks_def cooldown_blocks_def quota_allowed_def cooldown_from_time_def
      Let_def)

text \<open>
  Quota verdicts survive storage and idle time. Every state built by a constructor or by merging
  observations is accepted again from its persisted columns and read back unchanged; an unknown
  observation never replaces a verdict; and an exhausted quota blocks an otherwise healthy account
  at every later time, whatever its reset time, until a new observation is merged.
\<close>

theorem quota_verdicts_persist:
  assumes "quota_ok q" and "quota_ok obs"
  shows "from_persisted (quota_access q) (quota_evidence q) (quota_observed_at q) (quota_reset_at q) = Some q
     \<and> quota_ok (merge_observation q obs)
     \<and> (quota_access q \<noteq> QaUnknown \<longrightarrow> quota_access obs = QaUnknown \<longrightarrow> merge_observation q obs = q)
     \<and> (quota_access obs \<noteq> QaUnknown \<longrightarrow> merge_observation q obs = obs)
     \<and> (is_exhausted q \<longrightarrow> facts_quota f = q \<longrightarrow> status (resolve_account_status f now) \<noteq> Normal)"
  using assms from_persisted_columns [OF assms(1)] merge_observation_ok [OF assms]
    resolve_account_status_cases [of f now]
  by (auto simp: merge_observation_def is_exhausted_def)

theorem quota_verdicts_persist_witness:
  "merge_observation (quota_exhausted ProviderDenied 3 (Some 4)) (quota_observed_unknown 100)
     = quota_exhausted ProviderDenied 3 (Some 4)"
  using quota_verdicts_persist
    [OF quota_constructors_ok(4) [of ProviderDenied 3 "Some 4"] quota_constructors_ok(2) [of 100],
      of undefined 0]
  by (simp add: quota_exhausted_def quota_observed_unknown_def)

text \<open>
  The account model policy is exactly its mode over the validated identifiers. A policy that the
  constructor accepts has at most 256 identifiers, each non-empty, trimmed, wildcard-free and free
  of control characters; \<open>all\<close> carries none and allows everything, an allowlist allows exactly its
  members and a denylist exactly the others.
\<close>

theorem model_policy_exact:
  assumes "new_AccountModelAccess mode models = Ok a"
  shows "length models \<le> 256
     \<and> (\<forall>m \<in> set models. trim m = m \<and> m \<noteq> [] \<and> CHR ''*'' \<notin> set m \<and> \<not> has_control m \<and> length m \<le> 256)
     \<and> (model_access_allows a m \<longleftrightarrow>
          mode = AllModels \<or> mode = Allowlist \<and> m \<in> set models \<or> mode = Denylist \<and> m \<notin> set models)"
  using assms
  by (cases mode) (auto simp: guard_simps model_access_allows_def text_ok_def)

theorem model_policy_exact_witness:
  "model_access_allows (projr (new_AccountModelAccess Denylist [''gpt-5''])) ''gpt-4''"
proof -
  have ok: "new_AccountModelAccess Denylist [''gpt-5'']
      = Ok \<lparr>access_mode = Denylist, access_models = {''gpt-5''}\<rparr>"
  proof -
    have "trim ''gpt-5'' = ''gpt-5''"
      by (simp add: trim_def trim_start.simps trim_end.simps whitespace_def suffix_def
          append_eq_Cons_conv)
    then show ?thesis
      by (simp add: guard_simps text_ok_def is_ascii_control_def byte_def)
  qed
  show ?thesis using model_policy_exact [OF ok, of "''gpt-4''"] ok by simp
qed

end
