(* ===== verification/Provider_Account.thy ===== *)
theory Provider_Account
  imports Account_Model
begin

text \<open>
  The second half of \<open>gateway-core/src/account/model.rs\<close>: the account snapshot \<open>ProviderAccount\<close>
  with its builders and its status projection, the bounded refresh query, and the compare-and-swap
  write of a refreshed credential. Accessor methods are the record selectors.

  Main results: a request location is only ever kept together with the proxy it belongs to; the
  refresh query selects exactly the accounts whose token may and must be refreshed now; a CAS
  write carries a consistent error fact and never schedules a refresh without a refresh token.
\<close>


section \<open>The account snapshot\<close>

record ProviderAccount =
  account_id :: ProviderAccountId
  account_provider :: ProviderKind
  account_name :: string
  account_email :: "string option"
  upstream_user_id :: "string option"
  upstream_account_id :: "string option"
  plan_type :: "string option"
  authentication_kind :: string
  account_revision :: CredentialRevision
  account_enabled :: bool
  account_concurrency_limit :: "AccountConcurrencyLimit option"
  account_weight :: AccountWeight
  account_model_access :: AccountModelAccess
  account_credential_state :: CredentialState
  account_quota :: QuotaState
  account_last_error_reason :: "AccountErrorReason option"
  account_last_error_message :: "string option"
  access_token_expires_at :: "system_time option"
  next_refresh_at :: "system_time option"
  has_refresh_token :: bool
  outbound_proxy :: "OutboundProxy option"
  request_location :: "RequestLocation option"

definition new_ProviderAccount ::
  "ProviderAccountId \<Rightarrow> ProviderKind \<Rightarrow> string \<Rightarrow> string option \<Rightarrow> string
     \<Rightarrow> CredentialRevision \<Rightarrow> system_time option \<Rightarrow> ProviderAccount" where
  "new_ProviderAccount ident provider name user auth revision expires =
     \<lparr>account_id = ident, account_provider = provider, account_name = name, account_email = None,
      upstream_user_id = user, upstream_account_id = None, plan_type = None,
      authentication_kind = auth, account_revision = revision, account_enabled = True,
      account_concurrency_limit = None, account_weight = AccountWeight_DEFAULT,
      account_model_access = access_all, account_credential_state = CsUnknown,
      account_quota = quota_unknown, account_last_error_reason = None,
      account_last_error_message = None, access_token_expires_at = expires,
      next_refresh_at = None, has_refresh_token = False, outbound_proxy = None,
      request_location = None\<rparr>"

definition with_profile ::
  "ProviderAccount \<Rightarrow> string option \<Rightarrow> string option \<Rightarrow> string option \<Rightarrow> ProviderAccount" where
  "with_profile a email upstream plan =
     a\<lparr>account_email := email, upstream_account_id := upstream, plan_type := plan\<rparr>"

definition with_model_access :: "ProviderAccount \<Rightarrow> AccountModelAccess \<Rightarrow> ProviderAccount" where
  "with_model_access a access = a\<lparr>account_model_access := access\<rparr>"

definition with_outbound_proxy :: "ProviderAccount \<Rightarrow> OutboundProxy option \<Rightarrow> ProviderAccount" where
  "with_outbound_proxy a proxy = a\<lparr>request_location := None, outbound_proxy := proxy\<rparr>"

definition with_request_location ::
  "ProviderAccount \<Rightarrow> RequestLocation option \<Rightarrow> ProviderAccount" where
  "with_request_location a location =
     a\<lparr>request_location := (if outbound_proxy a = None then None else location)\<rparr>"

definition with_account_facts ::
  "ProviderAccount \<Rightarrow> bool \<Rightarrow> CredentialState \<Rightarrow> QuotaState \<Rightarrow> AccountErrorReason option
     \<Rightarrow> string option \<Rightarrow> ProviderAccount" where
  "with_account_facts a enabled state quota reason message =
     a\<lparr>account_enabled := enabled, account_credential_state := state, account_quota := quota,
       account_last_error_reason := reason, account_last_error_message := message\<rparr>"

definition with_scheduling ::
  "ProviderAccount \<Rightarrow> AccountConcurrencyLimit option \<Rightarrow> AccountWeight \<Rightarrow> ProviderAccount" where
  "with_scheduling a limit weight =
     a\<lparr>account_concurrency_limit := limit, account_weight := weight\<rparr>"

definition with_refresh_schedule ::
  "ProviderAccount \<Rightarrow> bool \<Rightarrow> system_time option \<Rightarrow> ProviderAccount" where
  "with_refresh_schedule a has_rt next = a\<lparr>has_refresh_token := has_rt, next_refresh_at := next\<rparr>"

definition effective_concurrency :: "ProviderAccount \<Rightarrow> AccountConcurrency \<Rightarrow> AccountConcurrency" where
  "effective_concurrency a dflt =
     (case account_concurrency_limit a of
        Some limit \<Rightarrow> Limited (limit_get limit) | None \<Rightarrow> dflt)"

definition status_projection ::
  "ProviderAccount \<Rightarrow> system_time \<Rightarrow> AccountCooldown option \<Rightarrow> AccountStatusProjection" where
  "status_projection a now cooldown =
     resolve_account_status
       \<lparr>facts_enabled = account_enabled a,
        facts_credential_state = account_credential_state a,
        facts_access_token_expires_at = access_token_expires_at a,
        facts_quota = account_quota a,
        facts_cooldown = cooldown,
        facts_last_error_reason = account_last_error_reason a,
        facts_last_error_message = account_last_error_message a\<rparr>
       now"

text \<open>
  The invariant of a snapshot: a location belongs to a proxy, and the non-zero integer types are
  non-zero.
\<close>

definition account_ok :: "ProviderAccount \<Rightarrow> bool" where
  "account_ok a \<longleftrightarrow>
     (request_location a \<noteq> None \<longrightarrow> outbound_proxy a \<noteq> None)
     \<and> (\<forall>l. account_concurrency_limit a = Some l \<longrightarrow> 0 < limit_get l)
     \<and> 1 \<le> weight_get (account_weight a) \<and> weight_get (account_weight a) \<le> AccountWeight_MAX"

datatype account_edit =
    EditProfile "string option" "string option" "string option"
  | EditModelAccess AccountModelAccess
  | EditProxy "OutboundProxy option"
  | EditLocation "RequestLocation option"
  | EditFacts bool CredentialState QuotaState "AccountErrorReason option" "string option"
  | EditScheduling "AccountConcurrencyLimit option" AccountWeight
  | EditRefresh bool "system_time option"

fun apply_edit :: "ProviderAccount \<Rightarrow> account_edit \<Rightarrow> ProviderAccount" where
  "apply_edit a (EditProfile e u p) = with_profile a e u p"
| "apply_edit a (EditModelAccess m) = with_model_access a m"
| "apply_edit a (EditProxy p) = with_outbound_proxy a p"
| "apply_edit a (EditLocation l) = with_request_location a l"
| "apply_edit a (EditFacts e c q r m) = with_account_facts a e c q r m"
| "apply_edit a (EditScheduling l w) = with_scheduling a l w"
| "apply_edit a (EditRefresh h n) = with_refresh_schedule a h n"

text \<open>Arguments that the source's types rule out (zero limits, weights over the maximum).\<close>

fun edit_ok :: "account_edit \<Rightarrow> bool" where
  "edit_ok (EditScheduling l w) =
     ((\<forall>n. l = Some n \<longrightarrow> 0 < limit_get n) \<and> 1 \<le> weight_get w \<and> weight_get w \<le> AccountWeight_MAX)"
| "edit_ok _ = True"

lemmas builder_defs = with_profile_def with_model_access_def with_outbound_proxy_def
  with_request_location_def with_account_facts_def with_scheduling_def with_refresh_schedule_def

lemma new_ProviderAccount_ok [inv_intros]: "account_ok (new_ProviderAccount i p n u a r e)"
  by (simp add: account_ok_def new_ProviderAccount_def AccountWeight_DEFAULT_def AccountWeight_MAX_def)

lemma apply_edit_ok [inv_intros]: "account_ok a \<Longrightarrow> edit_ok e \<Longrightarrow> account_ok (apply_edit a e)"
  by (cases e) (auto simp: account_ok_def builder_defs)

lemma apply_edit_identity:
  "account_id (apply_edit a e) = account_id a" "account_provider (apply_edit a e) = account_provider a"
  "account_revision (apply_edit a e) = account_revision a"
  by (cases e; simp add: builder_defs)+

lemma apply_edit_proxy_change:
  "outbound_proxy (apply_edit a e) \<noteq> outbound_proxy a \<Longrightarrow> request_location (apply_edit a e) = None"
  by (cases e) (auto simp: builder_defs)

lemma new_AccountConcurrencyLimit_pos:
  "new_AccountConcurrencyLimit v = Some l \<Longrightarrow> 0 < limit_get l"
  by (auto simp: new_AccountConcurrencyLimit_def split: if_splits)

lemma new_AccountWeight_range:
  "new_AccountWeight v = Some w \<Longrightarrow> weight_get w = v \<and> 1 \<le> v \<and> v \<le> AccountWeight_MAX"
  by (auto simp: new_AccountWeight_def split: if_splits)

lemma effective_concurrency_ok [inv_intros]:
  "account_ok a \<Longrightarrow> concurrency_ok d \<Longrightarrow> concurrency_ok (effective_concurrency a d)"
  by (auto simp: account_ok_def effective_concurrency_def concurrency_ok_def split: option.splits)


section \<open>The refresh query\<close>

record ProviderRefreshQuery =
  query_provider :: ProviderKind
  refresh_due_before :: system_time
  force_due_before :: system_time
  query_observed_at :: system_time
  excluded_account_ids :: "ProviderAccountId list"
  query_limit :: nat

definition query_contains :: "ProviderRefreshQuery \<Rightarrow> ProviderAccount \<Rightarrow> bool" where
  "query_contains q a \<longleftrightarrow>
     account_provider a = query_provider q
     \<and> has_refresh_token a
     \<and> account_credential_state a \<in> {CsUnknown, Ready}
     \<and> \<not> List.member (excluded_account_ids q) (account_id a)
     \<and> is_some_and (access_token_expires_at a)
         (\<lambda>expires_at. expires_at \<le> force_due_before q
            \<or> (expires_at \<le> refresh_due_before q
               \<and> is_none_or (next_refresh_at a) (\<lambda>retry_at. retry_at \<le> query_observed_at q)))"

lemma query_contains_mono:
  assumes "query_contains q a"
    and "refresh_due_before q \<le> refresh_due_before q'" "force_due_before q \<le> force_due_before q'"
    and "query_observed_at q \<le> query_observed_at q'" "query_provider q' = query_provider q"
    and "set (excluded_account_ids q') \<subseteq> set (excluded_account_ids q)"
  shows "query_contains q' a"
  using assms by (auto simp: query_contains_def is_some_and_iff is_none_or_iff subset_iff)


section \<open>The credential CAS write\<close>

record ProviderAccountUpdate =
  update_account_id :: ProviderAccountId
  update_name :: string
  update_email :: "string option"
  update_plan_type :: "string option"

record CredentialStateWrite =
  write_credential_state :: CredentialState
  write_observed_at :: system_time
  write_error_reason :: "AccountErrorReason option"
  write_message :: "string option"

record CredentialCasUpdate =
  cas_account_id :: ProviderAccountId
  cas_expected_revision :: CredentialRevision
  cas_profile :: ProviderAccountUpdate
  cas_preserve_profile :: bool
  cas_credential :: PlaintextCredential
  cas_has_refresh_token :: bool
  cas_access_token_expires_at :: "system_time option"
  cas_next_refresh_at :: "system_time option"
  cas_account_state :: "CredentialStateWrite option"

definition new_CredentialCasUpdate ::
  "ProviderAccountId \<Rightarrow> CredentialRevision \<Rightarrow> ProviderAccountUpdate \<Rightarrow> PlaintextCredential
     \<Rightarrow> bool \<Rightarrow> system_time option \<Rightarrow> system_time option \<Rightarrow> CredentialError + CredentialCasUpdate" where
  "new_CredentialCasUpdate ident expected profile credential has_rt expires next =
     (if update_account_id profile \<noteq> ident then Err ProfileAccountMismatch
      else if \<not> has_rt \<and> is_some next then Err InvalidRefreshSchedule
      else Ok \<lparr>cas_account_id = ident, cas_expected_revision = expected, cas_profile = profile,
               cas_preserve_profile = False, cas_credential = credential,
               cas_has_refresh_token = has_rt, cas_access_token_expires_at = expires,
               cas_next_refresh_at = next, cas_account_state = None\<rparr>)"

definition preserving_profile :: "CredentialCasUpdate \<Rightarrow> CredentialCasUpdate" where
  "preserving_profile u = u\<lparr>cas_preserve_profile := True\<rparr>"

definition with_account_state ::
  "CredentialCasUpdate \<Rightarrow> CredentialState \<Rightarrow> system_time \<Rightarrow> AccountErrorReason option
     \<Rightarrow> string option \<Rightarrow> CredentialCasUpdate" where
  "with_account_state u state observed reason message =
     (let message = filter_option (\<lambda>v. trim v \<noteq> []) message;
          reason = (if state = Ready then (if message = None then None else reason)
                    else or_else reason (CredentialState_error_reason state))
      in u\<lparr>cas_account_state :=
             Some \<lparr>write_credential_state = state, write_observed_at = observed,
                   write_error_reason = reason, write_message = message\<rparr>\<rparr>)"

text \<open>What a write carries: its own account, a schedulable refresh, a coherent error fact.\<close>

definition state_write_ok :: "CredentialStateWrite \<Rightarrow> bool" where
  "state_write_ok w \<longleftrightarrow>
     (write_credential_state w \<noteq> Ready \<longrightarrow> write_error_reason w \<noteq> None)
     \<and> (write_credential_state w = Ready \<longrightarrow> write_message w = None \<longrightarrow> write_error_reason w = None)
     \<and> (\<forall>m. write_message w = Some m \<longrightarrow> trim m \<noteq> [])"

definition cas_ok :: "CredentialCasUpdate \<Rightarrow> bool" where
  "cas_ok u \<longleftrightarrow>
     update_account_id (cas_profile u) = cas_account_id u
     \<and> (cas_next_refresh_at u \<noteq> None \<longrightarrow> cas_has_refresh_token u)
     \<and> (\<forall>w. cas_account_state u = Some w \<longrightarrow> state_write_ok w)"

lemma new_CredentialCasUpdate_ok [inv_intros]:
  "new_CredentialCasUpdate i r p c h e n = Ok u \<Longrightarrow> cas_ok u"
  by (auto simp: new_CredentialCasUpdate_def cas_ok_def split: if_splits)

lemma preserving_profile_ok [inv_intros]: "cas_ok u \<Longrightarrow> cas_ok (preserving_profile u)"
  by (simp add: cas_ok_def preserving_profile_def)

lemma with_account_state_ok [inv_intros]: "cas_ok u \<Longrightarrow> cas_ok (with_account_state u st t r m)"
  by (cases st)
    (auto simp: cas_ok_def with_account_state_def state_write_ok_def Let_def filter_option_eq_Some
      or_else_def split: option.splits)

datatype CredentialCasOutcome = Updated CredentialRevision | Conflict


section \<open>Properties\<close>

text \<open>
  No sequence of builder calls breaks the account invariant. From a fresh account, any list of
  edits with well-typed arguments gives an account whose request location is present only together
  with an outbound proxy, whose concurrency override is positive and whose weight is between 1 and
  100; identity, provider and credential revision never change, and an edit that changes the proxy
  drops the location of the old one.
\<close>

theorem account_edits_keep_invariant:
  assumes "a = foldl apply_edit (new_ProviderAccount i p n u auth r e) edits" and "list_all edit_ok edits"
  shows "account_ok a \<and> account_id a = i \<and> account_provider a = p \<and> account_revision a = r
     \<and> (\<forall>edit. outbound_proxy (apply_edit a edit) \<noteq> outbound_proxy a \<longrightarrow>
            request_location (apply_edit a edit) = None)"
proof -
  have "account_ok b \<Longrightarrow> list_all edit_ok edits \<Longrightarrow>
      account_ok (foldl apply_edit b edits)
      \<and> account_id (foldl apply_edit b edits) = account_id b
      \<and> account_provider (foldl apply_edit b edits) = account_provider b
      \<and> account_revision (foldl apply_edit b edits) = account_revision b" for b
    by (induction edits arbitrary: b) (simp_all add: apply_edit_ok apply_edit_identity)
  from this [OF new_ProviderAccount_ok assms(2), of i p n u auth r e] show ?thesis
    using assms(1) apply_edit_proxy_change by (auto simp: new_ProviderAccount_def)
qed

theorem account_edits_keep_invariant_witness:
  "account_ok (foldl apply_edit
     (new_ProviderAccount (ProviderAccountId ''acct_1'') (ProviderKind ''openai'') ''a'' None ''oauth''
        (CredentialRevision 1) None)
     [EditLocation (Some default_RequestLocation), EditScheduling None (AccountWeight 7)])"
  using account_edits_keep_invariant
    [OF refl, of "[EditLocation (Some default_RequestLocation), EditScheduling None (AccountWeight 7)]"
      "ProviderAccountId ''acct_1''" "ProviderKind ''openai''" "''a''" None "''oauth''"
      "CredentialRevision 1" None]
  by (simp add: AccountWeight_MAX_def)

text \<open>
  the refresh query selects exactly the accounts that can be refreshed and are due. An account
  is a candidate when it belongs to the provider, has a refresh token, is not excluded, its
  credential is not known to be dead, its access token has an expiry, and either the expiry has
  reached the forced bound, or it has reached the normal bound and no failed refresh is still
  backing off.
\<close>

theorem refresh_query_exact:
  "query_contains q a =
     (account_provider a = query_provider q \<and> has_refresh_token a
     \<and> account_id a \<notin> set (excluded_account_ids q)
     \<and> account_credential_state a \<notin> {Expired, Banned, Invalid}
     \<and> (\<exists>t. access_token_expires_at a = Some t
          \<and> (t \<le> force_due_before q
             \<or> t \<le> refresh_due_before q
               \<and> (next_refresh_at a = None \<or> (\<exists>r. next_refresh_at a = Some r \<and> r \<le> query_observed_at q)))))"
proof -
  have "account_credential_state a \<in> {CsUnknown, Ready} \<longleftrightarrow>
      account_credential_state a \<notin> {Expired, Banned, Invalid}"
    by (cases "account_credential_state a") auto
  then show ?thesis
    by (auto simp: query_contains_def is_some_and_iff is_none_or_iff)
qed

text \<open>
  A credential write-back is coherent. A CAS update that the constructor accepts belongs to one
  account and schedules a refresh only with a refresh token; recording account state on it, with or
  without preserving the profile, keeps that and always stores an error reason for a credential
  that is not ready, none for a ready one without a message, and never a blank message.
\<close>

theorem cas_update_coherent:
  assumes "new_CredentialCasUpdate i r p c h e n = Ok u"
  shows "cas_ok u \<and> cas_ok (with_account_state u st t reason message)
     \<and> cas_ok (with_account_state (preserving_profile u) st t reason message)
     \<and> cas_expected_revision (with_account_state u st t reason message) = r
     \<and> (\<exists>w. cas_account_state (with_account_state u st t reason message) = Some w
          \<and> write_credential_state w = st \<and> state_write_ok w)"
proof -
  have u: "cas_ok u" using assms by (rule new_CredentialCasUpdate_ok)
  moreover have "cas_expected_revision u = r"
    using assms by (auto simp: new_CredentialCasUpdate_def split: if_splits)
  moreover have "cas_ok (with_account_state u st t reason message)"
    using u by (rule with_account_state_ok)
  ultimately show ?thesis
    using preserving_profile_ok [OF u] with_account_state_ok
    by (auto simp: with_account_state_def Let_def cas_ok_def)
qed

definition sample_update :: ProviderAccountUpdate where
  "sample_update = \<lparr>update_account_id = ProviderAccountId ''acct_1'', update_name = ''a'',
     update_email = None, update_plan_type = None\<rparr>"

theorem cas_update_coherent_witness:
  "\<exists>u. new_CredentialCasUpdate (ProviderAccountId ''acct_1'') (CredentialRevision 3) sample_update
          (PlaintextCredential undefined) True None (Some 5) = Ok u
     \<and> cas_ok (with_account_state u Expired 9 None (Some '' ''))"
proof -
  obtain u where u: "new_CredentialCasUpdate (ProviderAccountId ''acct_1'') (CredentialRevision 3)
      sample_update (PlaintextCredential undefined) True None (Some 5) = Ok u"
    by (auto simp: new_CredentialCasUpdate_def sample_update_def)
  then show ?thesis using cas_update_coherent [OF u] by blast
qed

end
