(* ===== verification/Account_Scope.thy ===== *)
theory Account_Scope
  imports Provider_Account
begin

text \<open>
  \<open>gateway-core/src/account/scope.rs\<close>: the account directory shared by a runtime snapshot, the
  permission a client key compiles to, and the frozen scope that a request carries, with its two
  narrowing operations. A \<open>BTreeMap\<close> of accounts is an association list with distinct keys, a
  \<open>BTreeSet\<close> a set, and the group set of an account the list in which the constructor iterates
  it. \<open>Arc\<close> sharing of immutable values is invisible in the model.

  The locale \<open>narrowing_scope\<close> states what the rest of the gateway relies on: how \<open>allows\<close>
  changes under the two operations. Its consequences for any sequence of narrowings (nothing is
  ever widened, order and repetition do not matter) are proved once and interpreted on
  \<open>FrozenAccountScope\<close>.
\<close>


section \<open>Directory\<close>

record RuntimeAccount =
  rt_provider_kind :: ProviderKind
  rt_group_ids :: "AccountGroupId list"
  rt_model_access :: AccountModelAccess

definition new_RuntimeAccount :: "ProviderKind \<Rightarrow> AccountGroupId list \<Rightarrow> RuntimeAccount" where
  "new_RuntimeAccount provider groups =
     \<lparr>rt_provider_kind = provider, rt_group_ids = groups, rt_model_access = access_all\<rparr>"

definition rt_with_model_access :: "RuntimeAccount \<Rightarrow> AccountModelAccess \<Rightarrow> RuntimeAccount" where
  "rt_with_model_access a access = a\<lparr>rt_model_access := access\<rparr>"

record RuntimeAccountDirectory =
  dir_accounts :: "(ProviderAccountId \<times> RuntimeAccount) list"
  providers_with_accounts :: "ProviderKind set"
  providers_by_group :: "AccountGroupId \<rightharpoonup> ProviderKind set"

definition insert_group_provider ::
  "ProviderKind \<Rightarrow> AccountGroupId \<Rightarrow> (AccountGroupId \<rightharpoonup> ProviderKind set)
     \<Rightarrow> (AccountGroupId \<rightharpoonup> ProviderKind set)" where
  "insert_group_provider provider gid m =
     m(gid \<mapsto> insert provider (unwrap_or (m gid) {}))"

definition index_account ::
  "ProviderAccountId \<times> RuntimeAccount
     \<Rightarrow> ProviderKind set \<times> (AccountGroupId \<rightharpoonup> ProviderKind set)
     \<Rightarrow> ProviderKind set \<times> (AccountGroupId \<rightharpoonup> ProviderKind set)" where
  "index_account entry idx =
     (case (entry, idx) of ((_, account), (providers, by_group)) \<Rightarrow>
        (insert (rt_provider_kind account) providers,
         fold (insert_group_provider (rt_provider_kind account)) (rt_group_ids account) by_group))"

definition new_RuntimeAccountDirectory ::
  "(ProviderAccountId \<times> RuntimeAccount) list \<Rightarrow> RuntimeAccountDirectory" where
  "new_RuntimeAccountDirectory accounts =
     (let (providers, by_group) = fold index_account accounts ({}, Map.empty)
      in \<lparr>dir_accounts = accounts, providers_with_accounts = providers,
          providers_by_group = by_group\<rparr>)"

definition dir_account :: "RuntimeAccountDirectory \<Rightarrow> ProviderAccountId \<Rightarrow> RuntimeAccount option" where
  "dir_account d i = map_of (dir_accounts d) i"

definition providers_for_groups :: "RuntimeAccountDirectory \<Rightarrow> AccountGroupId list \<Rightarrow> ProviderKind set" where
  "providers_for_groups d groups =
     \<Union> (set (List.map_filter (providers_by_group d) groups))"

text \<open>A \<open>BTreeMap\<close> has one entry per key.\<close>

definition dir_wf :: "RuntimeAccountDirectory \<Rightarrow> bool" where
  "dir_wf d \<longleftrightarrow> distinct (map fst (dir_accounts d))"

lemma insert_group_provider_apply:
  "unwrap_or (insert_group_provider p h m g) {} =
     unwrap_or (m g) {} \<union> (if g = h then {p} else {})"
  by (simp add: insert_group_provider_def)

lemma fold_insert_group_provider:
  "unwrap_or (fold (insert_group_provider p) gs m g) {} =
     unwrap_or (m g) {} \<union> (if g \<in> set gs then {p} else {})"
  by (induction gs arbitrary: m) (simp_all add: insert_group_provider_apply)

lemma index_account_simps:
  "fst (index_account e idx) = insert (rt_provider_kind (snd e)) (fst idx)"
  "unwrap_or (snd (index_account e idx) g) {} =
     unwrap_or (snd idx g) {} \<union> (if g \<in> set (rt_group_ids (snd e)) then {rt_provider_kind (snd e)} else {})"
  by (cases e; cases idx; simp add: index_account_def fold_insert_group_provider)+

lemma fold_index_account:
  "fst (fold index_account es idx) = fst idx \<union> rt_provider_kind ` snd ` set es"
  "unwrap_or (snd (fold index_account es idx) g) {} =
     unwrap_or (snd idx g) {} \<union> {rt_provider_kind a |i a. (i, a) \<in> set es \<and> g \<in> set (rt_group_ids a)}"
proof (induction es arbitrary: idx)
  case (Cons e es)
  { case 1 show ?case by (simp add: Cons.IH(1) index_account_simps) }
  { case 2 show ?case by (cases e) (auto simp: Cons.IH(2) index_account_simps) }
qed simp_all

lemma providers_for_groups_union:
  "providers_for_groups d gs = (\<Union>g \<in> set gs. unwrap_or (providers_by_group d g) {})"
  by (induction gs)
    (auto simp: providers_for_groups_def List.map_filter_def unwrap_or_def split: option.splits)

lemma new_directory_simps [simp]:
  "dir_accounts (new_RuntimeAccountDirectory es) = es"
  "providers_with_accounts (new_RuntimeAccountDirectory es) = rt_provider_kind ` snd ` set es"
  "unwrap_or (providers_by_group (new_RuntimeAccountDirectory es) g) {} =
     {rt_provider_kind a |i a. (i, a) \<in> set es \<and> g \<in> set (rt_group_ids a)}"
  using fold_index_account [of es "({}, Map.empty)"]
  by (simp_all add: new_RuntimeAccountDirectory_def split_beta)


section \<open>Client permission and its history form\<close>

datatype AccountRoutingScopeKind = ScopeAll | ScopeGroups

fun AccountRoutingScopeKind_as_str :: "AccountRoutingScopeKind \<Rightarrow> string" where
  "AccountRoutingScopeKind_as_str ScopeAll = ''all''"
| "AccountRoutingScopeKind_as_str ScopeGroups = ''groups''"

record RoutingGroupSnapshot =
  group_snapshot_id :: AccountGroupId
  group_snapshot_name :: string

record AccountRoutingSnapshot =
  snapshot_kind :: AccountRoutingScopeKind
  snapshot_groups :: "RoutingGroupSnapshot list"

definition routing_snapshot_all :: AccountRoutingSnapshot where
  "routing_snapshot_all = \<lparr>snapshot_kind = ScopeAll, snapshot_groups = []\<rparr>"

definition routing_snapshot_groups :: "RoutingGroupSnapshot list \<Rightarrow> AccountRoutingSnapshot" where
  "routing_snapshot_groups gs = \<lparr>snapshot_kind = ScopeGroups, snapshot_groups = gs\<rparr>"

datatype RoutingScopeError = InvalidAccountScope

datatype ClientRoutingScope =
    AllAccounts
  | Restricted (bound_groups: "RoutingGroupSnapshot list") (enabled_group_ids: "AccountGroupId set")
      (scope_providers: "ProviderKind set")

definition restricted ::
  "RoutingGroupSnapshot list \<Rightarrow> AccountGroupId set \<Rightarrow> ProviderKind set
     \<Rightarrow> RoutingScopeError + ClientRoutingScope" where
  "restricted groups enabled providers =
     (if groups = [] then Err InvalidAccountScope else Ok (Restricted groups enabled providers))"


section \<open>The frozen scope\<close>

record FrozenAccountScope =
  scope_disable_fast :: bool
  scope_request_profiles :: "ProviderKind \<rightharpoonup> OpaqueProviderData"
  scope_directory :: RuntimeAccountDirectory
  scope_client :: ClientRoutingScope
  scope_provider_kinds :: "ProviderKind set"
  allowed_account_ids :: "ProviderAccountId set option"
  scope_excluded_ids :: "ProviderAccountId set"

definition with_request_profiles ::
  "FrozenAccountScope \<Rightarrow> (ProviderKind \<rightharpoonup> OpaqueProviderData) \<Rightarrow> FrozenAccountScope" where
  "with_request_profiles s profiles = s\<lparr>scope_request_profiles := profiles\<rparr>"

definition with_disable_fast :: "FrozenAccountScope \<Rightarrow> bool \<Rightarrow> FrozenAccountScope" where
  "with_disable_fast s flag = s\<lparr>scope_disable_fast := flag\<rparr>"

definition new_FrozenAccountScope ::
  "RuntimeAccountDirectory \<Rightarrow> ClientRoutingScope \<Rightarrow> FrozenAccountScope" where
  "new_FrozenAccountScope directory client_scope =
     \<lparr>scope_disable_fast = False, scope_request_profiles = Map.empty,
      scope_directory = directory, scope_client = client_scope,
      scope_provider_kinds =
        (case client_scope of
           AllAccounts \<Rightarrow> providers_with_accounts directory
         | Restricted _ _ providers \<Rightarrow> providers),
      allowed_account_ids = None, scope_excluded_ids = {}\<rparr>"

definition allows :: "FrozenAccountScope \<Rightarrow> ProviderAccountId \<Rightarrow> bool" where
  "allows s i =
     (case dir_account (scope_directory s) i of
        None \<Rightarrow> False
      | Some account \<Rightarrow>
          if i \<in> scope_excluded_ids s
             \<or> rt_provider_kind account \<notin> scope_provider_kinds s
             \<or> is_some_and (allowed_account_ids s) (\<lambda>accounts. i \<notin> accounts)
          then False
          else case scope_client s of
                 AllAccounts \<Rightarrow> True
               | Restricted _ enabled _ \<Rightarrow> list_ex (\<lambda>g. g \<in> enabled) (rt_group_ids account))"

definition restricted_to ::
  "FrozenAccountScope \<Rightarrow> ProviderKind set \<Rightarrow> ProviderAccountId set \<Rightarrow> FrozenAccountScope" where
  "restricted_to s providers accounts =
     (let kinds = (if providers = {} then scope_provider_kinds s
                   else scope_provider_kinds s \<inter> providers);
          allowed = {a \<in> accounts. allows s a}
      in if accounts = {} then s\<lparr>scope_provider_kinds := kinds\<rparr>
         else s\<lparr>allowed_account_ids := Some allowed,
                scope_provider_kinds :=
                  {p \<in> kinds. \<exists>a \<in> allowed.
                     is_some_and (dir_account (scope_directory s) a)
                       (\<lambda>entry. rt_provider_kind entry = p)}\<rparr>)"

definition excluding_account :: "FrozenAccountScope \<Rightarrow> ProviderAccountId \<Rightarrow> FrozenAccountScope" where
  "excluding_account s account =
     s\<lparr>scope_excluded_ids := insert account (scope_excluded_ids s)\<rparr>"

definition allows_model :: "FrozenAccountScope \<Rightarrow> ProviderAccountId \<Rightarrow> string \<Rightarrow> bool" where
  "allows_model s i upstream_model \<longleftrightarrow>
     allows s i
     \<and> is_some_and (dir_account (scope_directory s) i)
         (\<lambda>account. model_access_allows (rt_model_access account) upstream_model)"

definition allows_provider_model :: "FrozenAccountScope \<Rightarrow> ProviderKind \<Rightarrow> string \<Rightarrow> bool" where
  "allows_provider_model s provider upstream_model \<longleftrightarrow>
     provider \<in> scope_provider_kinds s
     \<and> list_ex (\<lambda>(i, account). rt_provider_kind account = provider \<and> allows_model s i upstream_model)
         (dir_accounts (scope_directory s))"

definition scope_account_provider :: "FrozenAccountScope \<Rightarrow> ProviderAccountId \<Rightarrow> ProviderKind option" where
  "scope_account_provider s i = map_option rt_provider_kind (dir_account (scope_directory s) i)"

definition routing_snapshot :: "FrozenAccountScope \<Rightarrow> AccountRoutingSnapshot" where
  "routing_snapshot s =
     (case scope_client s of
        AllAccounts \<Rightarrow> routing_snapshot_all
      | Restricted groups _ _ \<Rightarrow> routing_snapshot_groups groups)"


section \<open>The interface the gateway narrows scopes through\<close>

text \<open>One narrowing of a scope: a request-local intersection or the exclusion of an account.\<close>

datatype ('p, 'a) narrowing = Restrict "'p set" "'a set" | Exclude 'a

fun narrow_with ::
  "('s \<Rightarrow> 'p set \<Rightarrow> 'a set \<Rightarrow> 's) \<Rightarrow> ('s \<Rightarrow> 'a \<Rightarrow> 's) \<Rightarrow> ('p, 'a) narrowing \<Rightarrow> 's \<Rightarrow> 's" where
  "narrow_with restrict exclude (Restrict P A) s = restrict s P A"
| "narrow_with restrict exclude (Exclude a) s = exclude s a"

text \<open>What one narrowing still permits of an account \<open>a\<close> whose provider is \<open>p\<close>.\<close>

fun permits :: "('p, 'a) narrowing \<Rightarrow> 'p option \<Rightarrow> 'a \<Rightarrow> bool" where
  "permits (Restrict P A) p a \<longleftrightarrow> (P = {} \<or> is_some_and p (\<lambda>q. q \<in> P)) \<and> (A = {} \<or> a \<in> A)"
| "permits (Exclude b) p a \<longleftrightarrow> a \<noteq> b"

locale narrowing_scope =
  fixes scope_allows :: "'s \<Rightarrow> 'a \<Rightarrow> bool"
    and provider_of :: "'s \<Rightarrow> 'a \<Rightarrow> 'p option"
    and restrict :: "'s \<Rightarrow> 'p set \<Rightarrow> 'a set \<Rightarrow> 's"
    and exclude :: "'s \<Rightarrow> 'a \<Rightarrow> 's"
  assumes allows_restrict:
      "scope_allows (restrict s P A) a \<longleftrightarrow> scope_allows s a \<and> permits (Restrict P A) (provider_of s a) a"
    and allows_exclude: "scope_allows (exclude s b) a \<longleftrightarrow> scope_allows s a \<and> a \<noteq> b"
    and provider_restrict: "provider_of (restrict s P A) a = provider_of s a"
    and provider_exclude: "provider_of (exclude s b) a = provider_of s a"
begin

lemma narrow_provider: "provider_of (narrow_with restrict exclude n s) a = provider_of s a"
  by (cases n) (simp_all add: provider_restrict provider_exclude)

lemma narrow_allows:
  "scope_allows (narrow_with restrict exclude n s) a \<longleftrightarrow> scope_allows s a \<and> permits n (provider_of s a) a"
  by (cases n) (auto simp: allows_restrict allows_exclude)

lemma narrowings_allow:
  "scope_allows (fold (narrow_with restrict exclude) ns s) a
     \<longleftrightarrow> scope_allows s a \<and> (\<forall>n \<in> set ns. permits n (provider_of s a) a)"
  by (induction ns arbitrary: s) (auto simp: narrow_allows narrow_provider)

lemma narrowings_order_free:
  assumes "set ns = set ms"
  shows "scope_allows (fold (narrow_with restrict exclude) ns s)
           = scope_allows (fold (narrow_with restrict exclude) ms s)"
  using assms by (auto simp: narrowings_allow fun_eq_iff)

end

lemma allows_iff:
  "allows s i \<longleftrightarrow>
     (\<exists>account. dir_account (scope_directory s) i = Some account
        \<and> i \<notin> scope_excluded_ids s
        \<and> rt_provider_kind account \<in> scope_provider_kinds s
        \<and> is_none_or (allowed_account_ids s) (\<lambda>ids. i \<in> ids)
        \<and> (case scope_client s of
             AllAccounts \<Rightarrow> True
           | Restricted _ enabled _ \<Rightarrow> set (rt_group_ids account) \<inter> enabled \<noteq> {}))"
  by (auto simp: allows_def list_ex_iff is_some_and_iff is_none_or_iff
      split: option.splits ClientRoutingScope.splits)

lemma narrowing_keeps [simp]:
  "scope_directory (restricted_to s P A) = scope_directory s"
  "scope_client (restricted_to s P A) = scope_client s"
  "scope_disable_fast (restricted_to s P A) = scope_disable_fast s"
  "scope_request_profiles (restricted_to s P A) = scope_request_profiles s"
  "scope_excluded_ids (restricted_to s P A) = scope_excluded_ids s"
  "scope_directory (excluding_account s b) = scope_directory s"
  "scope_client (excluding_account s b) = scope_client s"
  "scope_disable_fast (excluding_account s b) = scope_disable_fast s"
  "scope_request_profiles (excluding_account s b) = scope_request_profiles s"
  "scope_provider_kinds (excluding_account s b) = scope_provider_kinds s"
  "allowed_account_ids (excluding_account s b) = allowed_account_ids s"
  by (simp_all add: restricted_to_def excluding_account_def Let_def)

lemma restricted_to_some_accounts:
  assumes "A \<noteq> {}"
  shows "allowed_account_ids (restricted_to s P A) = Some {a \<in> A. allows s a}"
    and "p \<in> scope_provider_kinds (restricted_to s P A) \<longleftrightarrow>
           p \<in> scope_provider_kinds s \<and> (P = {} \<or> p \<in> P)
           \<and> (\<exists>a \<in> A. allows s a \<and> scope_account_provider s a = Some p)"
  using assms
  by (auto simp: restricted_to_def Let_def scope_account_provider_def is_some_and_iff)

lemma allows_restricted_to:
  "allows (restricted_to s P A) i \<longleftrightarrow>
     allows s i \<and> permits (Restrict P A) (scope_account_provider s i) i"
proof (cases "A = {}")
  case True
  then show ?thesis
    by (auto simp: allows_iff scope_account_provider_def restricted_to_def Let_def)
next
  case False
  note kinds = restricted_to_some_accounts [OF False]
  show ?thesis
  proof (cases "i \<in> A \<and> allows s i")
    case True
    then obtain account where account: "dir_account (scope_directory s) i = Some account"
      by (auto simp: allows_iff)
    have "allows (restricted_to s P A) i \<longleftrightarrow>
            rt_provider_kind account \<in> scope_provider_kinds (restricted_to s P A)"
      using True account by (auto simp: allows_iff [of "restricted_to s P A"] kinds(1))
        (auto simp: allows_iff [of s])
    also have "\<dots> \<longleftrightarrow> P = {} \<or> rt_provider_kind account \<in> P"
      using True account
      by (auto simp: kinds(2) scope_account_provider_def allows_iff [of s i] intro: bexI [of _ i])
    finally show ?thesis using True account by (auto simp: scope_account_provider_def)
  next
    case outside: False
    then show ?thesis using False by (auto simp: allows_iff [of "restricted_to s P A"] kinds(1))
  qed
qed

interpretation frozen: narrowing_scope allows scope_account_provider restricted_to excluding_account
proof unfold_locales
  fix s i b P A
  show "allows (restricted_to s P A) i \<longleftrightarrow>
          allows s i \<and> permits (Restrict P A) (scope_account_provider s i) i"
    by (rule allows_restricted_to)
  show "allows (excluding_account s b) i \<longleftrightarrow> allows s i \<and> i \<noteq> b"
    by (auto simp: allows_iff) (auto simp: excluding_account_def)
qed (simp_all add: scope_account_provider_def)

lemma narrowings_keep_permission:
  fixes s :: FrozenAccountScope and ns :: "(ProviderKind, ProviderAccountId) narrowing list"
  shows "scope_client (fold (narrow_with restricted_to excluding_account) ns s) = scope_client s"
    and "scope_disable_fast (fold (narrow_with restricted_to excluding_account) ns s) = scope_disable_fast s"
    and "scope_request_profiles (fold (narrow_with restricted_to excluding_account) ns s)
           = scope_request_profiles s"
    and "scope_directory (fold (narrow_with restricted_to excluding_account) ns s) = scope_directory s"
proof (induction ns arbitrary: s)
  case (Cons n ns)
  { case 1 show ?case by (cases n) (simp_all add: Cons.IH) }
  { case 2 show ?case by (cases n) (simp_all add: Cons.IH) }
  { case 3 show ?case by (cases n) (simp_all add: Cons.IH) }
  { case 4 show ?case by (cases n) (simp_all add: Cons.IH) }
qed simp_all

lemma allows_provider_model_iff:
  assumes "dir_wf (scope_directory s)"
  shows "allows_provider_model s p m \<longleftrightarrow>
           (\<exists>i. scope_account_provider s i = Some p \<and> allows_model s i m)"
proof -
  have entry: "(i, account) \<in> set (dir_accounts (scope_directory s))
      \<longleftrightarrow> dir_account (scope_directory s) i = Some account" for i account
    using assms by (simp add: dir_account_def dir_wf_def)
  have "allows_model s i m \<Longrightarrow> scope_account_provider s i = Some p \<Longrightarrow> p \<in> scope_provider_kinds s" for i
    by (auto simp: allows_model_def allows_iff scope_account_provider_def)
  moreover have "(\<exists>i account. (i, account) \<in> set (dir_accounts (scope_directory s))
        \<and> rt_provider_kind account = p \<and> allows_model s i m)
      \<longleftrightarrow> (\<exists>i. scope_account_provider s i = Some p \<and> allows_model s i m)"
    by (auto simp: entry scope_account_provider_def)
  ultimately show ?thesis
    by (auto simp: allows_provider_model_def list_ex_iff)
qed


section \<open>Properties\<close>

text \<open>the directory's reverse indexes agree with the accounts it was built from: a provider
  is listed exactly when some account has it, and the providers of a set of groups are exactly
  those of the accounts that belong to one of them.\<close>

theorem directory_indexes_exact:
  "providers_with_accounts (new_RuntimeAccountDirectory es) =
     {rt_provider_kind a |i a. (i, a) \<in> set es}
   \<and> providers_for_groups (new_RuntimeAccountDirectory es) gs =
     {rt_provider_kind a |i a g. (i, a) \<in> set es \<and> g \<in> set (rt_group_ids a) \<and> g \<in> set gs}"
  by (rule conjI; force simp: providers_for_groups_union)

text \<open>Any sequence of request-local restrictions and account exclusions permits exactly the
  accounts the original scope permits and every narrowing of the sequence permits. In particular
  nothing is ever widened, a restriction with an empty intersection stays empty, and the order of
  the narrowings is irrelevant. The client key's permission, its Fast limit and its request
  profiles are untouched.\<close>

theorem scope_narrowings_exact:
  fixes s :: FrozenAccountScope and ns :: "(ProviderKind, ProviderAccountId) narrowing list"
  shows "let s' = fold (narrow_with restricted_to excluding_account) ns s in
           (allows s' i \<longleftrightarrow>
              allows s i \<and> list_all (\<lambda>n. permits n (scope_account_provider s i) i) ns)
           \<and> routing_snapshot s' = routing_snapshot s
           \<and> scope_disable_fast s' = scope_disable_fast s
           \<and> scope_request_profiles s' = scope_request_profiles s"
  using narrowings_keep_permission [of ns s]
  by (simp add: routing_snapshot_def frozen.narrowings_allow list_all_iff Let_def)

end
