(* ===== verification/Smart_Scheduling.thy ===== *)
theory Smart_Scheduling
  imports Float64
begin

text \<open>
  \<open>gateway-core/src/account/smart_scheduling.rs\<close>: the smart scheduler's coefficients, stored as
  tenths in a \<open>u8\<close> and exchanged as \<open>f64\<close>. A weight array is a list of six entries; a wire weight
  that is NaN or infinite is \<open>None\<close>. The result is that validation accepts exactly the weights a
  stored configuration prints, so the wire form and the stored form determine each other in spite
  of the binary rounding in between.
\<close>

record SmartSchedulingConfig =
  tenths :: "nat list"
  cfg_prefer_higher_weight :: bool

definition default_SmartSchedulingConfig :: SmartSchedulingConfig where
  "default_SmartSchedulingConfig = \<lparr>tenths = [10, 8, 10, 5, 0, 0], cfg_prefer_higher_weight = False\<rparr>"

datatype SmartSchedulingConfigError = InvalidWeight string | EmptyWeights

definition weight_fields :: "string list" where
  "weight_fields =
     [''loadWeight'', ''quotaWeight'', ''healthWeight'', ''latencyWeight'', ''resetWeight'', ''queueWeight'']"

text \<open>The body of the constructor's loop and the loop itself. The cast of a float to \<open>u8\<close> saturates.\<close>

definition weight_tenths :: "string \<Rightarrow> rat option \<Rightarrow> SmartSchedulingConfigError + nat" where
  "weight_tenths field weight =
     (case weight of
        None \<Rightarrow> Err (InvalidWeight field)
      | Some v \<Rightarrow>
          if \<not> (0 \<le> v \<and> v \<le> 10)
             \<or> fdiv (of_nat (f64_round_int (fmul v 10))) 10 \<noteq> v
          then Err (InvalidWeight field)
          else Ok (min (f64_round_int (fmul v 10)) 255))"

fun collect_tenths :: "(string \<times> rat option) list \<Rightarrow> SmartSchedulingConfigError + nat list" where
  "collect_tenths [] = Ok []"
| "collect_tenths ((field, weight) # rest) =
     (case weight_tenths field weight of
        Inl e \<Rightarrow> Err e
      | Inr t \<Rightarrow> (case collect_tenths rest of Inl e \<Rightarrow> Err e | Inr ts \<Rightarrow> Ok (t # ts)))"

definition new_SmartSchedulingConfig ::
  "rat option list \<Rightarrow> bool \<Rightarrow> SmartSchedulingConfigError + SmartSchedulingConfig" where
  "new_SmartSchedulingConfig weights prefer =
     (case collect_tenths (zip weight_fields weights) of
        Inl e \<Rightarrow> Err e
      | Inr ts \<Rightarrow>
          if list_all (\<lambda>t. t = 0) ts then Err EmptyWeights
          else Ok \<lparr>tenths = ts, cfg_prefer_higher_weight = prefer\<rparr>)"

definition config_weights :: "SmartSchedulingConfig \<Rightarrow> rat list" where
  "config_weights c = map (\<lambda>t. fdiv (of_nat t) 10) (tenths c)"

definition score_tolerance :: "SmartSchedulingConfig \<Rightarrow> rat" where
  "score_tolerance c = fdiv (fmul (f64_round (1 / 20)) (of_nat (sum_list (take 5 (tenths c))))) 33"

record SmartSchedulingValues =
  load_weight :: "rat option"
  quota_weight :: "rat option"
  health_weight :: "rat option"
  latency_weight :: "rat option"
  reset_weight :: "rat option"
  queue_weight :: "rat option"
  values_prefer_higher_weight :: bool

definition config_try_from :: "SmartSchedulingValues \<Rightarrow> SmartSchedulingConfigError + SmartSchedulingConfig" where
  "config_try_from v =
     new_SmartSchedulingConfig
       [load_weight v, quota_weight v, health_weight v, latency_weight v, reset_weight v, queue_weight v]
       (values_prefer_higher_weight v)"

definition values_from_config :: "SmartSchedulingConfig \<Rightarrow> SmartSchedulingValues" where
  "values_from_config c =
     (let w = config_weights c
      in \<lparr>load_weight = Some (w ! 0), quota_weight = Some (w ! 1), health_weight = Some (w ! 2),
          latency_weight = Some (w ! 3), reset_weight = Some (w ! 4), queue_weight = Some (w ! 5),
          values_prefer_higher_weight = cfg_prefer_higher_weight c\<rparr>)"

text \<open>What a stored configuration satisfies: six tenths, none above ten, not all zero.\<close>

definition config_ok :: "SmartSchedulingConfig \<Rightarrow> bool" where
  "config_ok c \<longleftrightarrow>
     length (tenths c) = 6 \<and> list_all (\<lambda>t. t \<le> 100) (tenths c) \<and> \<not> list_all (\<lambda>t. t = 0) (tenths c)"


section \<open>Rounding does not lose a tenth\<close>

lemma f64_round_int_unique:
  assumes "\<bar>x - of_nat n\<bar> < 1 / 2"
  shows "f64_round_int x = n"
proof -
  have "x - of_nat n < 1 / 2" "- (x - of_nat n) < 1 / 2" using assms by linarith+
  then have "\<lfloor>x + 1 / 2\<rfloor> = int n" by (intro floor_unique) auto
  then show ?thesis by (simp add: f64_round_int_def)
qed

lemma weight_range:
  assumes "n \<le> 100"
  shows "0 \<le> fdiv (of_nat n) 10 \<and> fdiv (of_nat n) 10 \<le> 10"
proof -
  have "fdiv (of_nat n) 10 \<le> fdiv 100 10" using assms by (intro f64_mono) auto
  moreover have "fdiv 100 10 = 10" using is_f64_of_int [of 10] by (simp add: fdiv_def)
  ultimately show ?thesis by simp
qed

lemma tenths_survive:
  assumes "n \<le> 100"
  shows "f64_round_int (fmul (fdiv (of_nat n) 10) 10) = n"
proof (cases "n = 0")
  case True
  then show ?thesis by (simp add: fmul_def fdiv_def f64_round_int_def)
next
  case False
  let ?x = "of_nat n / 10 :: rat" and ?v = "fdiv (of_nat n) 10"
  have n: "1 \<le> (of_nat n :: rat)" "(of_nat n :: rat) \<le> 100"
    using False assms by (metis of_nat_le_iff of_nat_1 less_one linorder_not_le)
      (metis assms of_nat_le_iff of_nat_numeral)
  have small: "(2::rat) powi (- 1022) \<le> 1 / 16"
  proof -
    have "(2::rat) powi (- 1022) \<le> 2 powi (- 4)" by (simp only: powi2_le_iff)
    also have "\<dots> = 1 / 16" by (simp add: power_int_def power_divide)
    finally show ?thesis .
  qed
  have e1: "\<bar>?v - ?x\<bar> \<le> ?x / 2 ^ 53"
    unfolding fdiv_def using n small by (intro f64_round_relative [THEN order_trans]) auto
  have "?x / 2 ^ 53 \<le> 1 / 1000" using n by (simp add: field_simps)
  with e1 have v: "\<bar>?v - ?x\<bar> \<le> 1 / 1000" by linarith
  have v2: "1 / 16 \<le> ?v" "?v \<le> 11" using v n by linarith+
  have "\<bar>f64_round (?v * 10) - ?v * 10\<bar> \<le> \<bar>?v * 10\<bar> / 2 ^ 53"
    using v2 small by (intro f64_round_relative) auto
  also have "\<dots> \<le> 1 / 1000" using v2 by (simp add: field_simps)
  finally have e2: "\<bar>fmul ?v 10 - ?v * 10\<bar> \<le> 1 / 1000" by (simp add: fmul_def)
  have "\<bar>fmul ?v 10 - of_nat n\<bar> < 1 / 2" using e2 v by linarith
  then show ?thesis by (rule f64_round_int_unique)
qed

lemma weight_tenths_of_tenths:
  assumes "n \<le> 100"
  shows "weight_tenths f (Some (fdiv (of_nat n) 10)) = Ok n"
  using assms weight_range [OF assms] by (simp add: weight_tenths_def tenths_survive)

lemma weight_tenths_ok:
  assumes "weight_tenths f w = Ok n"
  shows "n \<le> 100 \<and> w = Some (fdiv (of_nat n) 10)"
proof -
  from assms obtain v where v: "w = Some v" "0 \<le> v" "v \<le> 10"
    "fdiv (of_nat (f64_round_int (fmul v 10))) 10 = v" "n = min (f64_round_int (fmul v 10)) 255"
    by (auto simp: weight_tenths_def split: option.splits if_splits)
  have "fmul v 10 \<le> fmul 10 10" using v by (intro f64_mono) auto
  moreover have "fmul 10 10 = 100" using is_f64_of_int [of 100] by (simp add: fmul_def)
  ultimately have "fmul v 10 + 1 / 2 < 101" by linarith
  then have "\<lfloor>fmul v 10 + 1 / 2\<rfloor> < 101" by (simp add: floor_less_iff)
  then have "f64_round_int (fmul v 10) \<le> 100" unfolding f64_round_int_def by linarith
  then show ?thesis using v by simp
qed

lemma collect_tenths_iff:
  "collect_tenths fws = Ok ts \<longleftrightarrow>
     length ts = length fws \<and> list_all (\<lambda>t. t \<le> 100) ts
     \<and> map snd fws = map (\<lambda>t. Some (fdiv (of_nat t) 10)) ts"
proof (induction fws arbitrary: ts rule: collect_tenths.induct)
  case (2 f w rest)
  show ?case
  proof (cases ts)
    case (Cons t us)
    have "collect_tenths ((f, w) # rest) = Ok ts \<longleftrightarrow>
            weight_tenths f w = Ok t \<and> collect_tenths rest = Ok us"
      by (auto simp: Cons split: sum.splits)
    also have "weight_tenths f w = Ok t \<longleftrightarrow> t \<le> 100 \<and> w = Some (fdiv (of_nat t) 10)"
      using weight_tenths_ok weight_tenths_of_tenths by metis
    also have "collect_tenths rest = Ok us \<longleftrightarrow> length us = length rest \<and> list_all (\<lambda>t. t \<le> 100) us
        \<and> map snd rest = map (\<lambda>t. Some (fdiv (of_nat t) 10)) us" if "w = Some (fdiv (of_nat t) 10)" "t \<le> 100"
      using that by (intro 2) (simp add: weight_tenths_of_tenths)
    then have "(t \<le> 100 \<and> w = Some (fdiv (of_nat t) 10)) \<and> collect_tenths rest = Ok us \<longleftrightarrow>
        (t \<le> 100 \<and> w = Some (fdiv (of_nat t) 10)) \<and> length us = length rest \<and> list_all (\<lambda>t. t \<le> 100) us
        \<and> map snd rest = map (\<lambda>t. Some (fdiv (of_nat t) 10)) us" by blast
    finally show ?thesis by (auto simp: Cons)
  qed (auto split: sum.splits)
qed auto

lemma new_SmartSchedulingConfig_iff:
  assumes "length ws = 6"
  shows "new_SmartSchedulingConfig ws p = Ok c \<longleftrightarrow>
           config_ok c \<and> ws = map Some (config_weights c) \<and> cfg_prefer_higher_weight c = p"
proof -
  have "map snd (zip weight_fields ws) = ws" "length (zip weight_fields ws) = 6"
    using assms by (simp_all add: weight_fields_def)
  note collect = collect_tenths_iff [of "zip weight_fields ws", unfolded this]
  have "new_SmartSchedulingConfig ws p = Ok c \<longleftrightarrow>
          (\<exists>ts. collect_tenths (zip weight_fields ws) = Ok ts \<and> \<not> list_all (\<lambda>t. t = 0) ts
             \<and> c = \<lparr>tenths = ts, cfg_prefer_higher_weight = p\<rparr>)"
    by (auto simp: new_SmartSchedulingConfig_def split: sum.splits)
  then show ?thesis
    by (cases c) (auto simp: collect config_ok_def config_weights_def comp_def)
qed


section \<open>Properties\<close>

text \<open>the wire form of the smart scheduler's coefficients is validated exactly: reading six
  floats succeeds with a configuration exactly when that configuration is well formed (tenths of at
  most ten, not all zero) and prints those floats, bit for bit.\<close>

theorem smart_weights_roundtrip:
  "config_try_from v = Ok c \<longleftrightarrow> config_ok c \<and> v = values_from_config c"
proof -
  have six: "length ws = 6 \<Longrightarrow> [ws ! 0, ws ! 1, ws ! 2, ws ! 3, ws ! 4, ws ! 5] = ws" for ws :: "rat list"
    by (intro nth_equalityI) (auto simp: less_Suc_eq numeral_eq_Suc)
  have "[load_weight v, quota_weight v, health_weight v, latency_weight v, reset_weight v,
          queue_weight v] = map Some (config_weights c) \<and> cfg_prefer_higher_weight c = values_prefer_higher_weight v
        \<longleftrightarrow> v = values_from_config c" if "config_ok c"
  proof -
    have len: "length (config_weights c) = 6" using that by (simp add: config_weights_def config_ok_def)
    show ?thesis
      by (subst six [OF len, symmetric]) (cases v, auto simp: values_from_config_def Let_def)
  qed
  then show ?thesis by (auto simp: config_try_from_def new_SmartSchedulingConfig_iff)
qed

end
