(* ===== verification/Account_Feedback.thy ===== *)
theory Account_Feedback
  imports Float64 Rust_Text
begin

text \<open>
  The process-wide health feedback of \<open>gateway-core/src/account/selection.rs\<close>: an exponentially
  weighted failure rate that decays with a half-life of fifteen minutes, and an exponentially
  weighted first-output latency, per provider and account.

  \<open>f64::powf\<close> has unspecified precision, so \<open>0.5_f64.powf\<close> is the parameter \<open>pow_half\<close>; the
  results rely only on \<open>pow_half_ok\<close>: its values at non-negative exponents lie between zero and
  one. An \<open>Instant\<close> is a nanosecond count. A mutex-protected value is updated by a function, and
  the lock-free update of the latency is the loop over its compare-exchange attempts, against an
  arbitrary sequence of memory contents written by other threads. The \<open>NaN\<close> that marks an empty
  sample is \<open>None\<close>.
\<close>

section \<open>Constants\<close>

definition ACCOUNT_FEEDBACK_EWMA_ALPHA :: rat where
  "ACCOUNT_FEEDBACK_EWMA_ALPHA = f64_round (1 / 5)"

definition ACCOUNT_CAPACITY_FAILURE_EWMA_ALPHA :: rat where
  "ACCOUNT_CAPACITY_FAILURE_EWMA_ALPHA = f64_round (2 / 5)"

definition ACCOUNT_FAILURE_RATE_HALF_LIFE :: duration where
  "ACCOUNT_FAILURE_RATE_HALF_LIFE = from_secs (15 * 60)"

text \<open>\<open>Duration::as_secs_f64\<close>.\<close>

definition as_secs_f64 :: "duration \<Rightarrow> rat" where
  "as_secs_f64 d =
     fadd (f64_of_nat (d div NANOS_PER_SEC))
       (fdiv (f64_of_nat (d mod NANOS_PER_SEC)) (f64_of_nat NANOS_PER_SEC))"


section \<open>The decaying failure rate\<close>

record DecayingAccountFailureRate =
  rate_value :: rat
  rate_updated_at :: "system_time option"

definition default_rate :: DecayingAccountFailureRate where
  "default_rate = \<lparr>rate_value = 0, rate_updated_at = None\<rparr>"

definition value_at :: "(rat \<Rightarrow> rat) \<Rightarrow> DecayingAccountFailureRate \<Rightarrow> system_time \<Rightarrow> rat" where
  "value_at pow_half r now =
     (case rate_updated_at r of
        None \<Rightarrow> rate_value r
      | Some updated_at \<Rightarrow>
          fmul (rate_value r)
            (pow_half (fdiv (as_secs_f64 (unwrap_or (duration_since now updated_at) 0))
                            (as_secs_f64 ACCOUNT_FAILURE_RATE_HALF_LIFE))))"

definition ewma :: "rat \<Rightarrow> rat \<Rightarrow> rat \<Rightarrow> rat" where
  "ewma alpha sample previous = fadd (fmul alpha sample) (fmul (fsub 1 alpha) previous)"

definition rate_report_at ::
  "(rat \<Rightarrow> rat) \<Rightarrow> DecayingAccountFailureRate \<Rightarrow> rat \<Rightarrow> rat \<Rightarrow> system_time \<Rightarrow> DecayingAccountFailureRate" where
  "rate_report_at pow_half r sample alpha now0 =
     (let now = (case rate_updated_at r of None \<Rightarrow> now0 | Some updated_at \<Rightarrow> max updated_at now0)
      in \<lparr>rate_value = ewma alpha sample (value_at pow_half r now), rate_updated_at = Some now\<rparr>)"


section \<open>The latency cell\<close>

definition next_first_output :: "rat \<Rightarrow> rat option \<Rightarrow> rat" where
  "next_first_output sample previous =
     (case previous of
        None \<Rightarrow> sample
      | Some p \<Rightarrow> ewma ACCOUNT_FEEDBACK_EWMA_ALPHA sample p)"

text \<open>
  One attempt of the loop finds the cell holding \<open>observed\<close>; \<open>compare_exchange_weak\<close> stores the
  new value when that is the value the loop last read, unless it fails spuriously. The result is
  the pair of the replaced and the stored value, or \<open>None\<close> while the attempts run out.
\<close>

fun update_feedback_ewma ::
  "rat \<Rightarrow> rat option \<Rightarrow> (rat option \<times> bool) list \<Rightarrow> (rat option \<times> rat option) option" where
  "update_feedback_ewma sample current [] = None"
| "update_feedback_ewma sample current ((observed, spurious) # attempts) =
     (if observed = current \<and> \<not> spurious
      then Some (observed, Some (next_first_output sample current))
      else update_feedback_ewma sample observed attempts)"


section \<open>Feedback of one account\<close>

datatype AccountAttemptFeedback =
    Succeeded "nat option"
  | Failed "nat option"
  | CapacityRejected "nat option"

record AccountFeedback =
  fb_failure_rate :: DecayingAccountFailureRate
  fb_first_output_ms :: "rat option"

definition default_AccountFeedback :: AccountFeedback where
  "default_AccountFeedback = \<lparr>fb_failure_rate = default_rate, fb_first_output_ms = None\<rparr>"

definition feedback_report_at ::
  "(rat \<Rightarrow> rat) \<Rightarrow> AccountFeedback \<Rightarrow> AccountAttemptFeedback \<Rightarrow> system_time \<Rightarrow> AccountFeedback" where
  "feedback_report_at pow_half fb feedback now =
     (let (failure, alpha, first_output_ms) =
            (case feedback of
               Succeeded ms \<Rightarrow> (0, ACCOUNT_FEEDBACK_EWMA_ALPHA, ms)
             | Failed ms \<Rightarrow> (1, ACCOUNT_FEEDBACK_EWMA_ALPHA, ms)
             | CapacityRejected ms \<Rightarrow> (1, ACCOUNT_CAPACITY_FAILURE_EWMA_ALPHA, ms))
      in \<lparr>fb_failure_rate = rate_report_at pow_half (fb_failure_rate fb) failure alpha now,
          fb_first_output_ms =
            (case filter_option (\<lambda>ms. ms > 0) first_output_ms of
               None \<Rightarrow> fb_first_output_ms fb
             | Some ms \<Rightarrow> Some (next_first_output (f64_of_nat ms) (fb_first_output_ms fb)))\<rparr>)"

definition feedback_signals_at ::
  "(rat \<Rightarrow> rat) \<Rightarrow> AccountFeedback \<Rightarrow> system_time \<Rightarrow> nat option \<times> nat option" where
  "feedback_signals_at pow_half fb now =
     (Some (min (f64_round_int (fmul (f64_clamp (value_at pow_half (fb_failure_rate fb) now) 0 1) 10000))
                (2 ^ 16 - 1)),
      map_option (\<lambda>v. min (f64_round_int v) (2 ^ 64 - 1))
        (filter_option (\<lambda>v. v > 0) (fb_first_output_ms fb)))"


section \<open>Feedback of all accounts\<close>

type_synonym AccountFeedbackStats = "(ProviderKind \<times> ProviderAccountId) \<rightharpoonup> AccountFeedback"

definition scheduling_signals_at ::
  "(rat \<Rightarrow> rat) \<Rightarrow> AccountFeedbackStats \<Rightarrow> ProviderKind \<Rightarrow> ProviderAccountId \<Rightarrow> system_time
     \<Rightarrow> nat option \<times> nat option" where
  "scheduling_signals_at pow_half stats provider account now =
     (case stats (provider, account) of
        None \<Rightarrow> (None, None)
      | Some fb \<Rightarrow> feedback_signals_at pow_half fb now)"

definition report_at ::
  "(rat \<Rightarrow> rat) \<Rightarrow> AccountFeedbackStats \<Rightarrow> ProviderKind \<Rightarrow> ProviderAccountId \<Rightarrow> AccountAttemptFeedback
     \<Rightarrow> system_time \<Rightarrow> AccountFeedbackStats" where
  "report_at pow_half stats provider account feedback observed_at =
     (case stats (provider, account) of
        Some fb \<Rightarrow> stats((provider, account) \<mapsto> feedback_report_at pow_half fb feedback observed_at)
      | None \<Rightarrow> stats((provider, account) \<mapsto>
                  feedback_report_at pow_half default_AccountFeedback feedback observed_at))"

text \<open>A history of reports, from any number of threads in the order their locks were taken.\<close>

type_synonym feedback_event = "ProviderKind \<times> ProviderAccountId \<times> AccountAttemptFeedback \<times> system_time"

fun reports :: "(rat \<Rightarrow> rat) \<Rightarrow> feedback_event list \<Rightarrow> AccountFeedbackStats \<Rightarrow> AccountFeedbackStats" where
  "reports pow_half [] stats = stats"
| "reports pow_half ((p, a, f, t) # es) stats = reports pow_half es (report_at pow_half stats p a f t)"

definition pow_half_ok :: "(rat \<Rightarrow> rat) \<Rightarrow> bool" where
  "pow_half_ok pow_half \<longleftrightarrow> (\<forall>x \<ge> 0. 0 \<le> pow_half x \<and> pow_half x \<le> 1)"

definition rate_ok :: "DecayingAccountFailureRate \<Rightarrow> bool" where
  "rate_ok r \<longleftrightarrow> 0 \<le> rate_value r \<and> rate_value r \<le> 1"

definition feedback_ok :: "AccountFeedback \<Rightarrow> bool" where
  "feedback_ok fb \<longleftrightarrow> rate_ok (fb_failure_rate fb) \<and> is_none_or (fb_first_output_ms fb) (\<lambda>v. 1 \<le> v)"


section \<open>Lemmas\<close>

lemma alpha_facts:
  "0 \<le> ACCOUNT_FEEDBACK_EWMA_ALPHA" "ACCOUNT_FEEDBACK_EWMA_ALPHA \<le> 1"
  "0 \<le> ACCOUNT_CAPACITY_FAILURE_EWMA_ALPHA" "ACCOUNT_CAPACITY_FAILURE_EWMA_ALPHA \<le> 1"
  by code_simp+

lemma alpha_complement:
  "fadd ACCOUNT_FEEDBACK_EWMA_ALPHA (fsub 1 ACCOUNT_FEEDBACK_EWMA_ALPHA) = 1"
  "fadd ACCOUNT_CAPACITY_FAILURE_EWMA_ALPHA (fsub 1 ACCOUNT_CAPACITY_FAILURE_EWMA_ALPHA) = 1"
  by code_simp+

lemma ewma_mono:
  assumes "0 \<le> alpha" "alpha \<le> 1" "0 \<le> s" "s \<le> s'" "0 \<le> p" "p \<le> p'"
  shows "ewma alpha s p \<le> ewma alpha s' p'"
  unfolding ewma_def using assms by (intro f64_mono) auto

lemma ewma_one:
  assumes "f64_round alpha = alpha" "fadd alpha (fsub 1 alpha) = 1"
  shows "ewma alpha 1 1 = 1"
  using assms by (simp add: ewma_def fmul_def fsub_def)

lemma ewma_ones:
  "ewma ACCOUNT_FEEDBACK_EWMA_ALPHA 1 1 = 1"
  "ewma ACCOUNT_CAPACITY_FAILURE_EWMA_ALPHA 1 1 = 1"
  using alpha_complement
  by (simp_all add: ewma_one ACCOUNT_FEEDBACK_EWMA_ALPHA_def ACCOUNT_CAPACITY_FAILURE_EWMA_ALPHA_def)

lemma as_secs_f64_nonneg [simp]: "0 \<le> as_secs_f64 d"
  by (simp add: as_secs_f64_def)

lemma value_at_bounds:
  assumes "pow_half_ok pow_half" "rate_ok r"
  shows "0 \<le> value_at pow_half r now \<and> value_at pow_half r now \<le> 1"
proof (cases "rate_updated_at r")
  case None
  then show ?thesis using assms(2) by (simp add: value_at_def rate_ok_def)
next
  case (Some u)
  let ?e = "fdiv (as_secs_f64 (unwrap_or (duration_since now u) 0)) (as_secs_f64 ACCOUNT_FAILURE_RATE_HALF_LIFE)"
  have "0 \<le> ?e" by simp
  then have p: "0 \<le> pow_half ?e" "pow_half ?e \<le> 1" using assms(1) unfolding pow_half_ok_def by blast+
  have "rate_value r * pow_half ?e \<le> 1" using assms(2) p by (simp add: rate_ok_def mult_le_one)
  then show ?thesis using assms(2) p Some
    by (simp add: value_at_def rate_ok_def fmul_def f64_round_nonneg f64_round_le_1)
qed

lemma rate_report_ok [inv_intros]:
  assumes "pow_half_ok pow_half" "rate_ok r" "0 \<le> sample" "sample \<le> 1"
    and "0 \<le> alpha" "alpha \<le> 1" "ewma alpha 1 1 = 1"
  shows "rate_ok (rate_report_at pow_half r sample alpha now)"
proof -
  let ?now = "case rate_updated_at r of None \<Rightarrow> now | Some u \<Rightarrow> max u now"
  let ?v = "value_at pow_half r ?now"
  note v = value_at_bounds [OF assms(1,2), of ?now]
  have "ewma alpha sample ?v \<le> ewma alpha 1 1" using assms v by (intro ewma_mono) auto
  moreover have "0 \<le> ewma alpha sample ?v" using assms v by (simp add: ewma_def)
  ultimately show ?thesis using assms(7) by (simp add: rate_report_at_def rate_ok_def Let_def)
qed

lemma next_first_output_ge_1:
  assumes "1 \<le> s" "is_none_or prev (\<lambda>v. 1 \<le> v)"
  shows "1 \<le> next_first_output s prev"
proof (cases prev)
  case (Some p)
  then have "ewma ACCOUNT_FEEDBACK_EWMA_ALPHA 1 1 \<le> ewma ACCOUNT_FEEDBACK_EWMA_ALPHA s p"
    using assms alpha_facts by (intro ewma_mono) auto
  then show ?thesis by (simp add: next_first_output_def Some ewma_ones)
qed (use assms in \<open>simp add: next_first_output_def\<close>)

lemma feedback_report_ok [inv_intros]:
  assumes "pow_half_ok pow_half" "feedback_ok fb"
  shows "feedback_ok (feedback_report_at pow_half fb f now)"
proof -
  have rate: "rate_ok (rate_report_at pow_half (fb_failure_rate fb) s a now)"
    if "s \<in> {0, 1}" "a \<in> {ACCOUNT_FEEDBACK_EWMA_ALPHA, ACCOUNT_CAPACITY_FAILURE_EWMA_ALPHA}" for s a
    using that assms alpha_facts ewma_ones by (intro inv_intros) (auto simp: feedback_ok_def)
  have ms: "1 \<le> next_first_output (f64_of_nat n) (fb_first_output_ms fb)" if "n > 0" for n
    using assms(2) that f64_of_nat_mono [of 1 n]
    by (intro next_first_output_ge_1) (auto simp: feedback_ok_def f64_of_nat_exact)
  show ?thesis
    using assms(2) by (cases f)
      (auto simp: feedback_report_at_def feedback_ok_def rate ms filter_option_def split: option.splits)
qed

lemma default_feedback_ok [inv_intros]: "feedback_ok default_AccountFeedback"
  by (simp add: feedback_ok_def default_AccountFeedback_def default_rate_def rate_ok_def)

lemma report_at_simps:
  "report_at pow_half stats p a f t =
     stats((p, a) \<mapsto> feedback_report_at pow_half (unwrap_or (stats (p, a)) default_AccountFeedback) f t)"
  by (simp add: report_at_def split: option.splits)

lemma reports_ok:
  assumes "pow_half_ok pow_half" "\<And>k fb. stats k = Some fb \<Longrightarrow> feedback_ok fb"
  shows "reports pow_half es stats k = Some fb \<Longrightarrow> feedback_ok fb"
  using assms(2)
proof (induction es arbitrary: stats)
  case (Cons e es)
  obtain p a f t where e: "e = (p, a, f, t)" by (cases e)
  have "feedback_ok (unwrap_or (stats (p, a)) default_AccountFeedback)"
    using Cons.prems(2) default_feedback_ok by (cases "stats (p, a)") auto
  then have "feedback_ok fb'" if "report_at pow_half stats p a f t k' = Some fb'" for k' fb'
    using that Cons.prems(2) feedback_report_ok [OF assms(1)]
    by (auto simp: report_at_simps split: if_splits)
  then show ?case using Cons by (auto simp: e)
qed simp

lemma feedback_signals_bounds:
  assumes "pow_half_ok pow_half" "feedback_ok fb"
  shows "is_some_and (fst (feedback_signals_at pow_half fb now)) (\<lambda>bp. bp \<le> 10000)
         \<and> is_none_or (snd (feedback_signals_at pow_half fb now)) (\<lambda>ms. 1 \<le> ms \<and> ms < 2 ^ 64)"
proof -
  let ?v = "f64_clamp (value_at pow_half (fb_failure_rate fb) now) 0 1"
  have "fmul ?v 10000 \<le> fmul 1 10000"
    using f64_clamp_bounds [of 0 1 "value_at pow_half (fb_failure_rate fb) now"] by (intro f64_mono) auto
  also have "fmul 1 10000 = 10000" using is_f64_of_int [of 10000] by (simp add: fmul_def)
  finally have "f64_round_int (fmul ?v 10000) \<le> 10000" unfolding f64_round_int_def by linarith
  moreover have "1 \<le> f64_round_int v" if "1 \<le> v" for v
    using that unfolding f64_round_int_def by linarith
  ultimately show ?thesis using assms(2)
    by (auto simp: feedback_signals_at_def feedback_ok_def is_none_or_iff filter_option_eq_Some)
qed


section \<open>Properties\<close>

text \<open>Whatever attempts are reported, in whatever order and at whatever instants (clocks may
  run backwards), the signals the scheduler reads stay in range: a reported account has a failure
  rate of at most 10000 basis points, and a latency, where present, of at least one millisecond
  that fits its \<open>u64\<close>; an account with no report has neither.\<close>

theorem feedback_signals_in_range:
  assumes "pow_half_ok pow_half"
  shows "case scheduling_signals_at pow_half (reports pow_half es Map.empty) p a now of
           (failure, latency) \<Rightarrow>
             is_none_or failure (\<lambda>bp. bp \<le> 10000)
             \<and> is_none_or latency (\<lambda>ms. 1 \<le> ms \<and> ms < 2 ^ 64)
             \<and> (failure = None \<longleftrightarrow> reports pow_half es Map.empty (p, a) = None)"
proof (cases "reports pow_half es Map.empty (p, a)")
  case None
  then show ?thesis by (simp add: scheduling_signals_at_def)
next
  case (Some fb)
  have "feedback_ok fb" by (rule reports_ok [OF assms _ Some]) simp
  from feedback_signals_bounds [OF assms this, of now] show ?thesis
    by (auto simp: scheduling_signals_at_def Some is_some_and_iff split: prod.splits)
qed

definition stepwise_half :: "rat \<Rightarrow> rat" where
  "stepwise_half x = f64_round ((1 / 2) ^ nat \<lfloor>x\<rfloor>)"

lemma stepwise_half_ok: "pow_half_ok stepwise_half"
  by (auto simp: pow_half_ok_def stepwise_half_def f64_round_nonneg f64_round_le_1 power_le_one)

theorem feedback_signals_in_range_witness:
  "case scheduling_signals_at stepwise_half
          (reports stepwise_half
             [(ProviderKind ''openai'', ProviderAccountId ''acct_1'', Failed (Some 1200), 5),
              (ProviderKind ''openai'', ProviderAccountId ''acct_1'', Succeeded None, 3)] Map.empty)
          (ProviderKind ''openai'') (ProviderAccountId ''acct_1'') 9 of
     (failure, latency) \<Rightarrow> is_some_and failure (\<lambda>bp. bp \<le> 10000)"
  using feedback_signals_in_range
    [OF stepwise_half_ok, of
      "[(ProviderKind ''openai'', ProviderAccountId ''acct_1'', Failed (Some 1200), 5),
        (ProviderKind ''openai'', ProviderAccountId ''acct_1'', Succeeded None, 3)]"
      "ProviderKind ''openai''" "ProviderAccountId ''acct_1''" 9]
  by (auto simp: is_none_or_iff is_some_and_iff report_at_simps split: prod.splits)

text \<open>a lock-free latency update is atomic: whenever the compare-exchange loop finishes, the
  value it stored is the weighted average of its sample and the very value it replaced, whatever
  other threads stored in between; and it finishes at the first attempt that meets the value it
  last read without failing spuriously.\<close>

theorem latency_update_atomic:
  "case update_feedback_ewma sample current attempts of
     None \<Rightarrow>
       list_all (\<lambda>(read, observed, spurious). \<not> (observed = read \<and> \<not> spurious))
         (zip (current # map fst attempts) attempts)
   | Some (replaced, stored) \<Rightarrow>
       stored = Some (next_first_output sample replaced) \<and> (replaced, False) \<in> set attempts"
  by (induction sample current attempts rule: update_feedback_ewma.induct)
    (auto split: option.splits)

end
