(* ===== verification/Concurrency_Queue.thy ===== *)
theory Concurrency_Queue
  imports Float64
begin

text \<open>
  \<open>gateway-core/src/concurrency.rs\<close>: the bounded wait queues requests stand in while their client
  key or account has no free slot. A queue per key holds waiters of two classes; the whole
  structure is guarded by one mutex, so every method is one atomic function on \<open>QueueState\<close>.

  The identity of a waiter is the address of its waker; addresses come from the counter
  \<open>next_waker\<close>, which stands for the allocator (\<open>Arc::ptr_eq\<close> compares addresses). \<open>Instant::now()\<close>
  is the argument \<open>now\<close>. The asynchronous methods are modelled by what one poll of their future
  returns. \<open>CapacityWait\<close> carries the shared deadline cell of its wait budget.

  The locale \<open>two_class_queue\<close> states the contract of joining and leaving a queue; its history
  lemmas (no reordering, high before normal, what a newcomer may overtake) are interpreted on the
  model's insertion and removal. An abstract specification keeps one FIFO list per class; the
  single-list implementation refines it.
\<close>

section \<open>Data\<close>

definition MAX_TOTAL_WAITING :: nat where "MAX_TOTAL_WAITING = 1024"

definition CAPACITY_RECHECK_INTERVAL :: duration where "CAPACITY_RECHECK_INTERVAL = from_millis 100"

record ConcurrencyQueuePolicy =
  max_waiting :: nat
  policy_timeout :: duration

datatype QueueRejection = QueueFull | QueueTimeout

datatype WaitPriority = NormalPriority | HighPriority

record Waiter =
  waker :: nat
  waiter_priority :: WaitPriority

record 'k QueueState =
  queues :: "'k \<rightharpoonup> Waiter list"
  total :: nat
  next_waker :: nat

record 'k WaitTicket =
  ticket_key :: 'k
  ticket_waker :: nat
  ticket_deadline :: system_time

definition empty_queue :: "'k QueueState" where
  "empty_queue = \<lparr>queues = Map.empty, total = 0, next_waker = 0\<rparr>"

text \<open>The waiters of a key; a key without an entry has none.\<close>

definition waiters :: "'k QueueState \<Rightarrow> 'k \<Rightarrow> Waiter list" where
  "waiters st k = unwrap_or (queues st k) []"

definition is_high :: "Waiter \<Rightarrow> bool" where "is_high w \<longleftrightarrow> waiter_priority w = HighPriority"


section \<open>Operations\<close>

definition has_waiters :: "'k QueueState \<Rightarrow> 'k \<Rightarrow> bool" where
  "has_waiters st k = is_some_and (queues st k) (\<lambda>queue. queue \<noteq> [])"

definition has_waiters_ahead_of :: "'k QueueState \<Rightarrow> 'k \<Rightarrow> WaitPriority \<Rightarrow> bool" where
  "has_waiters_ahead_of st k priority =
     is_some_and (queues st k)
       (list_ex (\<lambda>waiter. priority = NormalPriority \<or> waiter_priority waiter = priority))"

text \<open>\<open>Iterator::position\<close>.\<close>

fun position :: "('a \<Rightarrow> bool) \<Rightarrow> 'a list \<Rightarrow> nat option" where
  "position p [] = None"
| "position p (x # xs) = (if p x then Some 0 else map_option Suc (position p xs))"

text \<open>\<open>min_by\<close> under the reversed score order: the best score, the first one on a tie.\<close>

fun best_scored :: "('k \<times> rat) list \<Rightarrow> ('k \<times> rat) option" where
  "best_scored [] = None"
| "best_scored (x # xs) =
     (case best_scored xs of
        None \<Rightarrow> Some x
      | Some y \<Rightarrow> if snd x \<ge> snd y then Some x else Some y)"

definition admitted :: "'k QueueState \<Rightarrow> nat \<Rightarrow> WaitPriority \<Rightarrow> 'k \<Rightarrow> bool" where
  "admitted st max_wait wp k \<longleftrightarrow>
     0 < max_wait \<and> (wp = HighPriority \<or> length (waiters st k) < max_wait)"

definition insert_at :: "nat \<Rightarrow> 'a \<Rightarrow> 'a list \<Rightarrow> 'a list" where
  "insert_at i x xs = take i xs @ x # drop i xs"

definition insert_position :: "WaitPriority \<Rightarrow> Waiter list \<Rightarrow> nat" where
  "insert_position wp queue =
     (case wp of
        NormalPriority \<Rightarrow> length queue
      | HighPriority \<Rightarrow>
          unwrap_or (position (\<lambda>waiter. waiter_priority waiter = NormalPriority) queue) (length queue))"

definition join_queue :: "'k \<Rightarrow> WaitPriority \<Rightarrow> 'k QueueState \<Rightarrow> 'k QueueState" where
  "join_queue k wp st =
     (let queue = waiters st k;
          waiter = \<lparr>waker = next_waker st, waiter_priority = wp\<rparr>
      in st\<lparr>queues := (queues st)(k \<mapsto> insert_at (insert_position wp queue) waiter queue),
            total := total st + 1,
            next_waker := next_waker st + 1\<rparr>)"

definition enqueue_ranked ::
  "system_time \<Rightarrow> 'k list \<Rightarrow> nat \<Rightarrow> system_time \<Rightarrow> WaitPriority \<Rightarrow> ('k \<Rightarrow> nat \<Rightarrow> rat)
     \<Rightarrow> 'k QueueState \<Rightarrow> (QueueRejection + 'k WaitTicket) \<times> 'k QueueState" where
  "enqueue_ranked now keys max_wait deadline wp score st =
     (if now \<ge> deadline then (Err QueueTimeout, st)
      else if total st \<ge> MAX_TOTAL_WAITING then (Err QueueFull, st)
      else
        case best_scored
               (map (\<lambda>k. (k, score k (length (waiters st k)))) (filter (admitted st max_wait wp) keys)) of
          None \<Rightarrow> (Err QueueFull, st)
        | Some (k, _) \<Rightarrow>
            (Ok \<lparr>ticket_key = k, ticket_waker = next_waker st, ticket_deadline = deadline\<rparr>,
             join_queue k wp st))"

definition enqueue_with_priority ::
  "system_time \<Rightarrow> 'k list \<Rightarrow> nat \<Rightarrow> system_time \<Rightarrow> ('k \<Rightarrow> nat \<Rightarrow> rat)
     \<Rightarrow> 'k QueueState \<Rightarrow> (QueueRejection + 'k WaitTicket) \<times> 'k QueueState" where
  "enqueue_with_priority now keys max_wait deadline score =
     enqueue_ranked now keys max_wait deadline NormalPriority score"

definition shortest_first :: "'k \<Rightarrow> nat \<Rightarrow> rat" where
  "shortest_first k waiting = - f64_of_nat waiting"

definition enqueue ::
  "system_time \<Rightarrow> 'k list \<Rightarrow> nat \<Rightarrow> system_time
     \<Rightarrow> 'k QueueState \<Rightarrow> (QueueRejection + 'k WaitTicket) \<times> 'k QueueState" where
  "enqueue now keys max_wait deadline = enqueue_with_priority now keys max_wait deadline shortest_first"

definition is_head :: "'k QueueState \<Rightarrow> 'k WaitTicket \<Rightarrow> bool" where
  "is_head st t =
     is_some_and (queues st (ticket_key t))
       (\<lambda>queue. case queue of [] \<Rightarrow> False | head # _ \<Rightarrow> waker head = ticket_waker t)"

text \<open>\<open>Drop for WaitTicket\<close>; the second component is the waker that is woken.\<close>

definition remove_at :: "nat \<Rightarrow> 'a list \<Rightarrow> 'a list" where
  "remove_at i xs = take i xs @ drop (Suc i) xs"

definition drop_ticket :: "'k WaitTicket \<Rightarrow> 'k QueueState \<Rightarrow> 'k QueueState \<times> nat option" where
  "drop_ticket t st =
     (case queues st (ticket_key t) of
        None \<Rightarrow> (st, None)
      | Some queue \<Rightarrow>
          (case position (\<lambda>item. waker item = ticket_waker t) queue of
             None \<Rightarrow> (st, None)
           | Some index \<Rightarrow>
               (let queue' = remove_at index queue;
                    next = (case queue' of [] \<Rightarrow> None | head # _ \<Rightarrow> Some (waker head));
                    queues' = (if queue' = [] then (queues st)(ticket_key t := None)
                               else (queues st)(ticket_key t \<mapsto> queue'))
                in (st\<lparr>queues := queues', total := total st - 1\<rparr>,
                    if index = 0 then next else None))))"

text \<open>One poll of \<open>turn\<close> and of \<open>retry\<close> (started at \<open>started\<close>): \<open>None\<close> is pending.\<close>

definition turn_poll :: "system_time \<Rightarrow> 'k WaitTicket \<Rightarrow> 'k QueueState \<Rightarrow> (QueueRejection + unit) option" where
  "turn_poll now t st =
     (if now \<ge> ticket_deadline t then Some (Err QueueTimeout)
      else if is_head st t then (if now < ticket_deadline t then Some (Ok ()) else Some (Err QueueTimeout))
      else None)"

definition retry_poll ::
  "system_time \<Rightarrow> system_time \<Rightarrow> 'k WaitTicket \<Rightarrow> 'k QueueState \<Rightarrow> (QueueRejection + unit) option" where
  "retry_poll started now t st =
     (if now < started + int (min CAPACITY_RECHECK_INTERVAL
                                (unwrap_or (duration_since (ticket_deadline t) started) 0))
      then None
      else turn_poll now t st)"


section \<open>Capacity waits\<close>

text \<open>\<open>OnceLock\<close>: the first write wins. Wall-clock and monotonic time share one axis here.\<close>

definition budget_deadline ::
  "system_time option \<Rightarrow> system_time \<Rightarrow> duration \<Rightarrow> system_time \<Rightarrow> system_time \<times> system_time option" where
  "budget_deadline cell now timeout request_deadline =
     (let remaining = unwrap_or (duration_since request_deadline now) 0;
          deadline = unwrap_or cell (now + int timeout)
      in (min deadline (now + int remaining), Some deadline))"

record 'k CapacityWait =
  wait_policy :: ConcurrencyQueuePolicy
  wait_request_deadline :: system_time
  wait_budget :: "system_time option"
  wait_priority :: WaitPriority
  wait_started_at :: "system_time option"
  wait_ticket :: "'k WaitTicket option"

definition new_CapacityWait ::
  "ConcurrencyQueuePolicy \<Rightarrow> system_time \<Rightarrow> system_time option \<Rightarrow> 'k CapacityWait" where
  "new_CapacityWait policy request_deadline budget =
     \<lparr>wait_policy = policy, wait_request_deadline = request_deadline, wait_budget = budget,
      wait_priority = NormalPriority, wait_started_at = None, wait_ticket = None\<rparr>"

definition with_priority :: "'k CapacityWait \<Rightarrow> WaitPriority \<Rightarrow> 'k CapacityWait" where
  "with_priority w p = w\<lparr>wait_priority := p\<rparr>"

definition can_try :: "'k CapacityWait \<Rightarrow> 'k QueueState \<Rightarrow> 'k \<Rightarrow> bool" where
  "can_try w st k =
     (case filter_option (\<lambda>t. ticket_key t = k) (wait_ticket w) of
        Some t \<Rightarrow> is_head st t
      | None \<Rightarrow> \<not> has_waiters_ahead_of st k (wait_priority w))"

definition wait_elapsed :: "'k CapacityWait \<Rightarrow> system_time \<Rightarrow> duration" where
  "wait_elapsed w now =
     (case wait_started_at w of None \<Rightarrow> 0 | Some start \<Rightarrow> unwrap_or (duration_since now start) 0)"

definition release_ticket :: "'k CapacityWait \<Rightarrow> 'k QueueState \<Rightarrow> 'k CapacityWait \<times> 'k QueueState" where
  "release_ticket w st =
     (case wait_ticket w of
        None \<Rightarrow> (w, st)
      | Some t \<Rightarrow> (w\<lparr>wait_ticket := None\<rparr>, fst (drop_ticket t st)))"

text \<open>
  The synchronous part of \<open>wait_with_priority\<close>: everything before it awaits the ticket's
  \<open>retry\<close>. The result is the rejection of the enqueue, or the ticket to wait on. Its first half
  starts the clock, fixes the deadline and gives up a ticket whose key is no longer eligible.
\<close>

definition wait_prepare ::
  "system_time \<Rightarrow> 'k list \<Rightarrow> 'k CapacityWait \<Rightarrow> 'k QueueState
     \<Rightarrow> system_time \<times> 'k CapacityWait \<times> 'k QueueState" where
  "wait_prepare now keys w0 st0 =
     (let (deadline, budget) =
            budget_deadline (wait_budget w0) now (policy_timeout (wait_policy w0)) (wait_request_deadline w0);
          w1 = w0\<lparr>wait_started_at := Some (unwrap_or (wait_started_at w0) now), wait_budget := budget\<rparr>
      in (deadline,
          if is_some_and (wait_ticket w1) (\<lambda>t. ticket_key t \<notin> set keys)
          then release_ticket w1 st0 else (w1, st0)))"

definition wait_with_priority ::
  "system_time \<Rightarrow> 'k list \<Rightarrow> ('k \<Rightarrow> nat \<Rightarrow> rat) \<Rightarrow> 'k CapacityWait \<Rightarrow> 'k QueueState
     \<Rightarrow> (QueueRejection + 'k WaitTicket) \<times> 'k CapacityWait \<times> 'k QueueState" where
  "wait_with_priority now keys score w0 st0 =
     (let (deadline, w, st) = wait_prepare now keys w0 st0
      in case wait_ticket w of
           Some t \<Rightarrow> (Ok t, w, st)
         | None \<Rightarrow>
             (case enqueue_ranked now keys (max_waiting (wait_policy w)) deadline (wait_priority w)
                     score st of
                (Inl e, st') \<Rightarrow> (Err e, w, st')
              | (Inr t, st') \<Rightarrow> (Ok t, w\<lparr>wait_ticket := Some t\<rparr>, st')))"

text \<open>The keys the score callback is called for: the admitting ones of an enqueue that gets that far.\<close>

definition scored_keys :: "system_time \<Rightarrow> 'k list \<Rightarrow> 'k CapacityWait \<Rightarrow> 'k QueueState \<Rightarrow> 'k list" where
  "scored_keys now keys w0 st0 =
     (let (deadline, w, st) = wait_prepare now keys w0 st0
      in if wait_ticket w \<noteq> None \<or> now \<ge> deadline \<or> total st \<ge> MAX_TOTAL_WAITING then []
         else filter (admitted st (max_waiting (wait_policy w)) (wait_priority w)) keys)"

definition wait_default ::
  "system_time \<Rightarrow> 'k list \<Rightarrow> 'k CapacityWait \<Rightarrow> 'k QueueState
     \<Rightarrow> (QueueRejection + 'k WaitTicket) \<times> 'k CapacityWait \<times> 'k QueueState" where
  "wait_default now keys = wait_with_priority now keys shortest_first"


section \<open>List lemmas\<close>

lemma position_takeWhile:
  "unwrap_or (position p xs) (length xs) = length (takeWhile (\<lambda>x. \<not> p x) xs)"
proof (induction xs)
  case (Cons x xs)
  then show ?case by (cases "position p xs") auto
qed simp

lemma position_None: "position p xs = None \<longleftrightarrow> (\<forall>x \<in> set xs. \<not> p x)"
  by (induction xs) auto

lemma position_SomeD:
  "position p xs = Some i \<Longrightarrow> i < length xs \<and> p (xs ! i) \<and> take i xs = takeWhile (\<lambda>x. \<not> p x) xs"
  by (induction xs arbitrary: i) (auto split: if_splits)

lemma insert_at_takeWhile:
  "insert_at (length (takeWhile p xs)) x xs = takeWhile p xs @ x # dropWhile p xs"
  by (simp add: insert_at_def takeWhile_eq_take [symmetric] dropWhile_eq_drop [symmetric])

lemma remove_at_position:
  assumes "position (\<lambda>x. f x = a) xs = Some i" "distinct (map f xs)"
  shows "remove_at i xs = filter (\<lambda>x. f x \<noteq> a) xs"
  using assms
proof (induction xs arbitrary: i)
  case (Cons x xs)
  show ?case
  proof (cases "f x = a")
    case True
    then have "filter (\<lambda>y. f y \<noteq> a) xs = xs" using Cons.prems(2)
      unfolding filter_id_conv by (metis distinct.simps(2) imageI list.map(2) list.set_map)
    then show ?thesis using True Cons.prems by (simp add: remove_at_def)
  next
    case False
    then obtain j where "position (\<lambda>x. f x = a) xs = Some j" "i = Suc j" using Cons.prems(1) by auto
    then show ?thesis using Cons False by (simp add: remove_at_def)
  qed
qed simp

lemma length_remove_at: "i < length xs \<Longrightarrow> length (remove_at i xs) = length xs - 1"
  by (simp add: remove_at_def)

text \<open>High waiters precede normal ones.\<close>

definition class_sorted :: "Waiter list \<Rightarrow> bool" where
  "class_sorted q \<longleftrightarrow> q = filter is_high q @ filter (\<lambda>w. \<not> is_high w) q"

lemma class_sorted_append:
  assumes "\<forall>w \<in> set hs. is_high w" "\<forall>w \<in> set ns. \<not> is_high w"
  shows "class_sorted (hs @ ns)"
  using assms by (simp add: class_sorted_def filter_empty_conv filter_id_conv [THEN iffD2])

lemma class_sorted_snoc:
  assumes "class_sorted q" "\<not> is_high w"
  shows "class_sorted (q @ [w])"
proof -
  have "(filter is_high q @ filter (\<lambda>w. \<not> is_high w) q) @ [w] = filter is_high (q @ [w]) @ filter (\<lambda>w. \<not> is_high w) (q @ [w])"
    using assms(2) by simp
  then show ?thesis using assms(1) by (metis class_sorted_def)
qed

lemma class_sorted_split:
  assumes "class_sorted q"
  shows "takeWhile is_high q = filter is_high q" "dropWhile is_high q = filter (\<lambda>w. \<not> is_high w) q"
proof -
  have "takeWhile is_high (filter is_high q @ filter (\<lambda>w. \<not> is_high w) q) = filter is_high q"
    "dropWhile is_high (filter is_high q @ filter (\<lambda>w. \<not> is_high w) q) = filter (\<lambda>w. \<not> is_high w) q"
    by (induction q) (auto simp: takeWhile_append dropWhile_append)
  then show "takeWhile is_high q = filter is_high q" "dropWhile is_high q = filter (\<lambda>w. \<not> is_high w) q"
    using assms unfolding class_sorted_def by metis+
qed

lemma class_sorted_filter [intro]:
  assumes "class_sorted q"
  shows "class_sorted (filter p q)"
proof -
  have "filter p q = filter p (filter is_high q) @ filter p (filter (\<lambda>w. \<not> is_high w) q)"
    using assms unfolding class_sorted_def by (metis filter_append)
  moreover have "class_sorted (filter p (filter is_high q) @ filter p (filter (\<lambda>w. \<not> is_high w) q))"
    by (rule class_sorted_append) auto
  ultimately show ?thesis by simp
qed


section \<open>The contract of a two-class queue\<close>

locale two_class_queue =
  fixes inv :: "'s \<Rightarrow> bool"
    and line :: "'s \<Rightarrow> 'k \<Rightarrow> 'w list"
    and high :: "'w \<Rightarrow> bool"
    and ident :: "'w \<Rightarrow> nat"
    and clock :: "'s \<Rightarrow> nat"
    and newcomer :: "'p \<Rightarrow> 's \<Rightarrow> 'w"
    and room :: "'s \<Rightarrow> bool"
    and join :: "'k \<Rightarrow> 'p \<Rightarrow> 's \<Rightarrow> 's"
    and leave :: "'k \<Rightarrow> nat \<Rightarrow> 's \<Rightarrow> 's"
  assumes join_inv: "inv s \<Longrightarrow> room s \<Longrightarrow> inv (join k p s)"
    and leave_inv: "inv s \<Longrightarrow> inv (leave k i s)"
    and classes: "inv s \<Longrightarrow> line s k = filter high (line s k) @ filter (\<lambda>w. \<not> high w) (line s k)"
    and ident_newcomer: "ident (newcomer p s) = clock s"
    and join_clock: "clock (join k p s) = Suc (clock s)"
    and leave_clock: "clock (leave k i s) = clock s"
    and line_join: "inv s \<Longrightarrow> line (join k p s) k' =
          (if k' \<noteq> k then line s k'
           else if high (newcomer p s)
             then filter high (line s k) @ newcomer p s # filter (\<lambda>w. \<not> high w) (line s k)
             else line s k @ [newcomer p s])"
    and line_leave: "inv s \<Longrightarrow> line (leave k i s) k' =
          (if k' \<noteq> k then line s k' else filter (\<lambda>w. ident w \<noteq> i) (line s k))"
begin

text \<open>How a line may change: the waiters that were there keep their order, whoever is new is
  younger.\<close>

definition evolves :: "'s \<Rightarrow> 's \<Rightarrow> bool" where
  "evolves s s' \<longleftrightarrow>
     clock s \<le> clock s' \<and> (\<forall>c k. c \<le> clock s \<longrightarrow>
        subseq (filter (\<lambda>w. ident w < c) (line s' k)) (filter (\<lambda>w. ident w < c) (line s k)))"

lemma evolves_refl: "evolves s s"
  by (simp add: evolves_def)

lemma evolves_trans: "evolves s t \<Longrightarrow> evolves t u \<Longrightarrow> evolves s u"
  unfolding evolves_def by (meson order_trans subseq_order.order_trans)

lemma leave_evolves: "inv s \<Longrightarrow> evolves s (leave k i s)"
  unfolding evolves_def
  by (auto simp: leave_clock line_leave filter_filter intro: subseq_filter_left)

lemma join_evolves:
  assumes "inv s"
  shows "evolves s (join k p s)"
proof -
  have "filter (\<lambda>w. ident w < c) (line (join k p s) k') = filter (\<lambda>w. ident w < c) (line s k')"
    if "c \<le> clock s" for c k'
  proof -
    have "filter (\<lambda>w. ident w < c) (line s k) =
        filter (\<lambda>w. ident w < c) (filter high (line s k))
        @ filter (\<lambda>w. ident w < c) (filter (\<lambda>w. \<not> high w) (line s k))"
      using classes [OF assms, of k] by (metis filter_append)
    then show ?thesis using that by (simp add: line_join [OF assms] ident_newcomer)
  qed
  then show ?thesis by (simp add: evolves_def join_clock)
qed

lemma old_waiters_keep_order:
  assumes "evolves s s'" "\<forall>w \<in> set (line s k). ident w < clock s"
  shows "subseq (filter (\<lambda>w. ident w < clock s) (line s' k)) (line s k)"
proof -
  have "subseq (filter (\<lambda>w. ident w < clock s) (line s' k)) (filter (\<lambda>w. ident w < clock s) (line s k))"
    using assms(1) by (simp add: evolves_def)
  then show ?thesis using assms(2) by (simp add: filter_id_conv [THEN iffD2])
qed

end


section \<open>The invariant\<close>

lemma waiters_simps [simp]:
  "queues st k = Some q \<Longrightarrow> waiters st k = q"
  "queues st k = None \<Longrightarrow> waiters st k = []"
  by (simp_all add: waiters_def)

definition waiting_count :: "'k QueueState \<Rightarrow> nat" where
  "waiting_count st = (\<Sum>k \<in> dom (queues st). length (waiters st k))"

lemma waiting_count_split:
  assumes "finite (dom (queues st))"
  shows "waiting_count st = length (waiters st k) + (\<Sum>x \<in> dom (queues st) - {k}. length (waiters st x))"
proof (cases "k \<in> dom (queues st)")
  case True
  then show ?thesis using assms by (simp add: waiting_count_def sum.remove)
next
  case False
  then have "queues st k = None" by blast
  then show ?thesis using False by (simp add: waiting_count_def)
qed

lemma waiting_count_change:
  assumes "finite (dom (queues st))" "finite (dom (queues st'))"
    and "\<And>x. x \<noteq> k \<Longrightarrow> queues st' x = queues st x"
  shows "waiting_count st' + length (waiters st k) = waiting_count st + length (waiters st' k)"
proof -
  have "dom (queues st') - {k} = dom (queues st) - {k}" using assms(3) by (auto simp: domIff)
  moreover have "waiters st' x = waiters st x" if "x \<noteq> k" for x
    using assms(3) [OF that] by (simp add: waiters_def)
  ultimately have "(\<Sum>x \<in> dom (queues st') - {k}. length (waiters st' x))
      = (\<Sum>x \<in> dom (queues st) - {k}. length (waiters st x))" by (intro sum.cong) auto
  then show ?thesis
    using waiting_count_split [OF assms(1), of k] waiting_count_split [OF assms(2), of k] by simp
qed

definition queue_ok :: "'k QueueState \<Rightarrow> bool" where
  "queue_ok st \<longleftrightarrow>
     finite (dom (queues st))
     \<and> (\<forall>k. queues st k \<noteq> Some [])
     \<and> total st = waiting_count st
     \<and> total st \<le> MAX_TOTAL_WAITING
     \<and> (\<forall>k. class_sorted (waiters st k) \<and> distinct (map waker (waiters st k))
          \<and> (\<forall>w \<in> set (waiters st k). waker w < next_waker st))"

lemma queue_okD:
  assumes "queue_ok st"
  shows "class_sorted (waiters st k)" "distinct (map waker (waiters st k))"
    "w \<in> set (waiters st k) \<Longrightarrow> waker w < next_waker st"
    "queues st k = Some q \<Longrightarrow> q \<noteq> []"
  using assms unfolding queue_ok_def by blast+

lemma is_high_simps [simp]:
  "is_high \<lparr>waker = a, waiter_priority = HighPriority\<rparr>"
  "\<not> is_high \<lparr>waker = a, waiter_priority = NormalPriority\<rparr>"
  by (simp_all add: is_high_def)

lemma insert_position_high:
  "insert_position HighPriority q = length (takeWhile is_high q)"
proof -
  have "(\<lambda>x. waiter_priority x \<noteq> NormalPriority) = is_high"
    by (intro ext) (metis is_high_def WaitPriority.exhaust WaitPriority.distinct(1))
  then show ?thesis by (simp add: insert_position_def position_takeWhile)
qed

definition newcomer_of :: "WaitPriority \<Rightarrow> 'k QueueState \<Rightarrow> Waiter" where
  "newcomer_of wp st = \<lparr>waker = next_waker st, waiter_priority = wp\<rparr>"

lemma waiters_join:
  assumes "queue_ok st"
  shows "waiters (join_queue k wp st) k' =
          (if k' \<noteq> k then waiters st k'
           else if is_high (newcomer_of wp st)
             then filter is_high (waiters st k) @ newcomer_of wp st # filter (\<lambda>w. \<not> is_high w) (waiters st k)
             else waiters st k @ [newcomer_of wp st])"
proof -
  note sorted = class_sorted_split [OF queue_okD(1) [OF assms, of k]]
  have "insert_at (insert_position wp (waiters st k)) (newcomer_of wp st) (waiters st k) =
        (if is_high (newcomer_of wp st)
         then filter is_high (waiters st k) @ newcomer_of wp st # filter (\<lambda>w. \<not> is_high w) (waiters st k)
         else waiters st k @ [newcomer_of wp st])"
    by (cases wp) (simp add: newcomer_of_def insert_position_def insert_at_def,
        simp add: newcomer_of_def insert_position_high insert_at_takeWhile flip: sorted)
  then show ?thesis by (auto simp: join_queue_def Let_def newcomer_of_def waiters_def)
qed

lemma join_ok [inv_intros]:
  assumes ok: "queue_ok st" and room: "total st < MAX_TOTAL_WAITING"
  shows "queue_ok (join_queue k wp st)"
proof -
  note line = waiters_join [OF ok, of k wp]
  have others: "queues (join_queue k wp st) x = queues st x" if "x \<noteq> k" for x
    using that by (simp add: join_queue_def Let_def)
  have entry: "queues (join_queue k wp st) k = Some (waiters (join_queue k wp st) k)"
    by (simp add: join_queue_def Let_def waiters_def)
  have fin: "finite (dom (queues (join_queue k wp st)))"
    using ok by (simp add: join_queue_def Let_def queue_ok_def)
  have len: "length (waiters (join_queue k wp st) k) = Suc (length (waiters st k))"
    by (simp add: join_queue_def Let_def insert_at_def waiters_def)
  have sum: "waiting_count (join_queue k wp st) = Suc (waiting_count st)"
    using waiting_count_change [of st "join_queue k wp st" k] fin others ok len
    by (simp add: queue_ok_def)
  have "class_sorted (waiters (join_queue k wp st) k')" for k'
  proof (cases "k' = k")
    case True
    have "class_sorted (filter is_high (waiters st k) @ newcomer_of wp st # filter (\<lambda>w. \<not> is_high w) (waiters st k))"
      if "is_high (newcomer_of wp st)"
      using class_sorted_append [of "filter is_high (waiters st k) @ [newcomer_of wp st]"] that by auto
    moreover have "class_sorted (waiters st k @ [newcomer_of wp st])" if "\<not> is_high (newcomer_of wp st)"
      using class_sorted_snoc [OF queue_okD(1) [OF ok] that] .
    ultimately show ?thesis using True by (simp add: line)
  qed (simp add: line queue_okD [OF ok])
  moreover have "distinct (map waker (waiters (join_queue k wp st) k'))" for k'
  proof (cases "k' = k")
    case True
    have new: "waker (newcomer_of wp st) \<notin> waker ` set (waiters st k)"
      by (auto simp: newcomer_of_def dest: queue_okD(3) [OF ok])
    have split: "waiters st k = filter is_high (waiters st k) @ filter (\<lambda>w. \<not> is_high w) (waiters st k)"
      using queue_okD(1) [OF ok, of k] by (simp only: class_sorted_def)
    have dist: "distinct (map waker (waiters st k))" by (rule queue_okD(2) [OF ok])
    show ?thesis
    proof (cases "is_high (newcomer_of wp st)")
      case high: True
      have "distinct (map waker (filter is_high (waiters st k) @ newcomer_of wp st # filter (\<lambda>w. \<not> is_high w) (waiters st k)))"
        using new dist by (subst (asm) (2) split) auto
      then show ?thesis using True high by (simp add: line)
    qed (use True new dist in \<open>simp add: line\<close>)
  qed (simp add: line queue_okD(2) [OF ok])
  moreover have "\<forall>w \<in> set (waiters (join_queue k wp st) k'). waker w < Suc (next_waker st)" for k'
    using queue_okD(3) [OF ok, of _ k'] by (auto simp: line newcomer_of_def less_Suc_eq)
  moreover have "queues (join_queue k wp st) k' \<noteq> Some []" for k'
  proof (cases "k' = k")
    case True
    then show ?thesis using entry len by (metis Zero_neq_Suc list.size(3) option.inject)
  next
    case False
    then show ?thesis using others [OF False] queue_okD(4) [OF ok, of k' "[]"] by auto
  qed
  moreover have "total (join_queue k wp st) = Suc (total st)" "next_waker (join_queue k wp st) = Suc (next_waker st)"
    by (simp_all add: join_queue_def Let_def)
  ultimately show ?thesis using ok room sum fin by (simp add: queue_ok_def)
qed


text \<open>Leaving a queue: dropping the ticket of a waiter.\<close>

definition leave_queue :: "'k \<Rightarrow> nat \<Rightarrow> 'k QueueState \<Rightarrow> 'k QueueState" where
  "leave_queue k a st = fst (drop_ticket \<lparr>ticket_key = k, ticket_waker = a, ticket_deadline = 0\<rparr> st)"

lemma drop_is_leave: "fst (drop_ticket t st) = leave_queue (ticket_key t) (ticket_waker t) st"
  by (simp add: leave_queue_def drop_ticket_def Let_def split: option.splits)

lemma leave_cases [consumes 1, case_names absent present]:
  assumes "queue_ok st"
  obtains "leave_queue k a st = st" "\<forall>w \<in> set (waiters st k). waker w \<noteq> a"
  | q q' where "queues st k = Some q" "q' = filter (\<lambda>w. waker w \<noteq> a) q" "length q = Suc (length q')"
      "leave_queue k a st =
         st\<lparr>queues := (queues st)(k := (if q' = [] then None else Some q')), total := total st - 1\<rparr>"
proof (cases "\<exists>w \<in> set (waiters st k). waker w = a")
  case False
  then have "position (\<lambda>w. waker w = a) q = None" if "queues st k = Some q" for q
    using that by (simp add: position_None)
  then have "leave_queue k a st = st"
    by (auto simp: leave_queue_def drop_ticket_def split: option.splits)
  then show thesis using False that(1) by blast
next
  case True
  then obtain q where q: "queues st k = Some q" by (cases "queues st k") auto
  then obtain i where i: "position (\<lambda>w. waker w = a) q = Some i"
    using True by (cases "position (\<lambda>w. waker w = a) q") (auto simp: position_None)
  have "distinct (map waker q)" using queue_okD(2) [OF assms, of k] q by simp
  note rem = remove_at_position [OF i this]
  have "length q = Suc (length (remove_at i q))" using position_SomeD [OF i] by (cases q) (simp_all add: length_remove_at)
  moreover have "leave_queue k a st =
      st\<lparr>queues := (queues st)(k := (if remove_at i q = [] then None else Some (remove_at i q))),
         total := total st - 1\<rparr>"
    by (simp add: leave_queue_def drop_ticket_def q i Let_def)
  ultimately show thesis using that(2) [OF q] rem by metis
qed

lemma waiters_leave:
  assumes "queue_ok st"
  shows "waiters (leave_queue k a st) k' =
          (if k' \<noteq> k then waiters st k' else filter (\<lambda>w. waker w \<noteq> a) (waiters st k))"
  using assms
proof (cases rule: leave_cases [where k = k and a = a])
  case absent
  then show ?thesis by (auto simp: filter_id_conv)
next
  case (present q q')
  then show ?thesis by (auto simp: waiters_def)
qed

lemma leave_ok [inv_intros]:
  assumes ok: "queue_ok st"
  shows "queue_ok (leave_queue k a st)"
  using ok
proof (cases rule: leave_cases [where k = k and a = a])
  case absent
  then show ?thesis using ok by simp
next
  case (present q q')
  let ?st = "leave_queue k a st"
  have fin: "finite (dom (queues ?st))"
    using ok by (auto simp: present queue_ok_def intro: finite_subset [of _ "dom (queues st)"])
  have "length (waiters ?st k) = length q'" by (auto simp: present waiters_def)
  then have count: "Suc (waiting_count ?st) = waiting_count st"
    using waiting_count_change [of st ?st k] fin ok present(1,3)
    by (simp add: queue_ok_def) (simp add: present(4))
  have "total ?st = total st - 1" "next_waker ?st = next_waker st" by (simp_all add: present)
  moreover have "class_sorted (waiters ?st x) \<and> distinct (map waker (waiters ?st x))
      \<and> (\<forall>w \<in> set (waiters ?st x). waker w < next_waker st)" for x
    using queue_okD(1-3) [OF ok] by (auto simp: waiters_leave [OF ok] distinct_map_filter)
  moreover have "queues ?st x \<noteq> Some []" for x
    using ok by (simp add: present queue_ok_def)
  ultimately show ?thesis using ok fin count by (auto simp: queue_ok_def)
qed

interpretation wait_queue: two_class_queue
  queue_ok waiters is_high waker next_waker newcomer_of "\<lambda>st. total st < MAX_TOTAL_WAITING"
  join_queue leave_queue
proof unfold_locales
  fix st :: "'k QueueState" and k k' wp a
  show "queue_ok st \<Longrightarrow> total st < MAX_TOTAL_WAITING \<Longrightarrow> queue_ok (join_queue k wp st)"
    by (rule join_ok)
  show "queue_ok st \<Longrightarrow> queue_ok (leave_queue k a st)" by (rule leave_ok)
  show "queue_ok st \<Longrightarrow> waiters st k = filter is_high (waiters st k) @ filter (\<lambda>w. \<not> is_high w) (waiters st k)"
    by (drule queue_okD(1) [where k = k]) (simp only: class_sorted_def)
  show "waker (newcomer_of wp st) = next_waker st" by (simp add: newcomer_of_def)
  show "next_waker (join_queue k wp st) = Suc (next_waker st)" by (simp add: join_queue_def Let_def)
  show "next_waker (leave_queue k a st) = next_waker st"
    by (simp add: leave_queue_def drop_ticket_def Let_def split: option.splits)
  show "queue_ok st \<Longrightarrow> waiters (join_queue k wp st) k' =
      (if k' \<noteq> k then waiters st k'
       else if is_high (newcomer_of wp st)
         then filter is_high (waiters st k) @ newcomer_of wp st # filter (\<lambda>w. \<not> is_high w) (waiters st k)
         else waiters st k @ [newcomer_of wp st])"
    by (rule waiters_join)
  show "queue_ok st \<Longrightarrow> waiters (leave_queue k a st) k' =
      (if k' \<noteq> k then waiters st k' else filter (\<lambda>w. waker w \<noteq> a) (waiters st k))"
    by (rule waiters_leave)
qed


section \<open>Enqueueing and reachable states\<close>

lemma best_scored_None [simp]: "best_scored xs = None \<longleftrightarrow> xs = []"
  by (cases xs) (auto split: option.splits)

lemma best_scored_SomeD:
  assumes "best_scored xs = Some y"
  shows "\<exists>pre post. xs = pre @ y # post \<and> (\<forall>x \<in> set pre. snd x < snd y) \<and> (\<forall>x \<in> set post. snd x \<le> snd y)"
  using assms
proof (induction xs arbitrary: y)
  case (Cons x xs)
  show ?case
  proof (cases "best_scored xs")
    case None
    then have "x # xs = [] @ y # []" using Cons.prems by simp
    then show ?thesis by (metis empty_iff list.set(1))
  next
    case (Some z)
    then obtain pre post where z: "xs = pre @ z # post" "\<forall>x \<in> set pre. snd x < snd z"
      "\<forall>x \<in> set post. snd x \<le> snd z" using Cons.IH by blast
    show ?thesis
    proof (cases "snd x \<ge> snd z")
      case True
      then have "y = x" using Cons.prems Some by simp
      moreover have "\<forall>w \<in> set xs. snd w \<le> snd x" using z True by auto
      ultimately have "x # xs = [] @ y # xs \<and> (\<forall>w \<in> set xs. snd w \<le> snd y)" by simp
      then show ?thesis by (metis empty_iff list.set(1))
    next
      case False
      then have "y = z" using Cons.prems Some by simp
      then have "x # xs = (x # pre) @ y # post \<and> (\<forall>w \<in> set (x # pre). snd w < snd y)
          \<and> (\<forall>w \<in> set post. snd w \<le> snd y)" using z False by auto
      then show ?thesis by blast
    qed
  qed
qed simp

lemma enqueue_cases:
  obtains (rejected) e where "enqueue_ranked now keys mw dl wp score st = (Err e, st)"
  | (joined) k t where "enqueue_ranked now keys mw dl wp score st = (Ok t, join_queue k wp st)"
      "ticket_key t = k" "ticket_waker t = next_waker st" "ticket_deadline t = dl"
      "k \<in> set keys" "admitted st mw wp k" "total st < MAX_TOTAL_WAITING" "now < dl"
proof -
  let ?scored = "map (\<lambda>k. (k, score k (length (waiters st k)))) (filter (admitted st mw wp) keys)"
  consider "now \<ge> dl \<or> total st \<ge> MAX_TOTAL_WAITING \<or> best_scored ?scored = None"
    | k v where "now < dl" "total st < MAX_TOTAL_WAITING" "best_scored ?scored = Some (k, v)"
    by (metis linorder_not_le option.exhaust surj_pair)
  then show thesis
  proof cases
    case 1
    then show thesis
      by (intro rejected [of "if now \<ge> dl then QueueTimeout else QueueFull"])
        (auto simp: enqueue_ranked_def split: option.splits)
  next
    case (2 k v)
    have "(k, v) \<in> set ?scored" using best_scored_SomeD [OF 2(3)] by force
    then have "k \<in> set keys" "admitted st mw wp k" by auto
    then show thesis
      using 2 by (intro joined [of "\<lparr>ticket_key = k, ticket_waker = next_waker st, ticket_deadline = dl\<rparr>" k])
        (auto simp: enqueue_ranked_def not_le)
  qed
qed

text \<open>Everything that happens to the shared queue: an enqueue of any request, successful or not,
  and the drop of any ticket.\<close>

inductive queue_step :: "'k QueueState \<Rightarrow> 'k QueueState \<Rightarrow> bool" where
  enqueue_step: "queue_step st (snd (enqueue_ranked now keys mw dl wp score st))"
| drop_step: "queue_step st (fst (drop_ticket t st))"

inductive_cases queue_stepE: "queue_step st st'"

lemma queue_step_keeps:
  assumes "queue_step st st'" "queue_ok st"
  shows "queue_ok st' \<and> wait_queue.evolves st st'"
  using assms(1)
proof (cases rule: queue_step.cases)
  case (enqueue_step now keys mw dl wp score)
  then show ?thesis
    using assms(2) join_ok wait_queue.join_evolves wait_queue.evolves_refl
    by (cases rule: enqueue_cases [of now keys mw dl wp score st]) auto
next
  case (drop_step t)
  then show ?thesis using assms(2) by (simp add: drop_is_leave leave_ok wait_queue.leave_evolves)
qed

lemma queue_steps_keep:
  assumes "queue_step\<^sup>*\<^sup>* st st'" "queue_ok st"
  shows "queue_ok st' \<and> wait_queue.evolves st st'"
  using assms
  by (induction rule: rtranclp_induct) (auto dest: queue_step_keeps intro: wait_queue.evolves_refl wait_queue.evolves_trans)

lemma empty_queue_ok [inv_intros]: "queue_ok empty_queue"
  by (simp add: queue_ok_def empty_queue_def waiting_count_def waiters_def class_sorted_def)


section \<open>The abstract specification: one FIFO list per class\<close>

definition abs_line :: "'k QueueState \<Rightarrow> 'k \<Rightarrow> nat list \<times> nat list" where
  "abs_line st k = (map waker (filter is_high (waiters st k)),
                    map waker (filter (\<lambda>w. \<not> is_high w) (waiters st k)))"

fun spec_join :: "WaitPriority \<Rightarrow> nat \<Rightarrow> nat list \<times> nat list \<Rightarrow> nat list \<times> nat list" where
  "spec_join HighPriority a (hs, ns) = (hs @ [a], ns)"
| "spec_join NormalPriority a (hs, ns) = (hs, ns @ [a])"

definition spec_leave :: "nat \<Rightarrow> nat list \<times> nat list \<Rightarrow> nat list \<times> nat list" where
  "spec_leave a = map_prod (filter (\<lambda>b. b \<noteq> a)) (filter (\<lambda>b. b \<noteq> a))"

definition spec_head :: "nat list \<times> nat list \<Rightarrow> nat option" where
  "spec_head l = (case fst l @ snd l of [] \<Rightarrow> None | a # _ \<Rightarrow> Some a)"

lemma abs_line_empty [simp]: "abs_line empty_queue k = ([], [])"
  by (simp add: abs_line_def waiters_def empty_queue_def)

lemma abs_line_join:
  assumes "queue_ok st"
  shows "abs_line (join_queue k wp st) k' =
           (if k' = k then spec_join wp (next_waker st) (abs_line st k) else abs_line st k')"
  by (cases wp) (simp_all add: abs_line_def waiters_join [OF assms] newcomer_of_def filter_empty_conv)

lemma abs_line_leave:
  assumes "queue_ok st"
  shows "abs_line (leave_queue k a st) k' =
           (if k' = k then spec_leave a (abs_line st k) else abs_line st k')"
  by (simp add: abs_line_def waiters_leave [OF assms] spec_leave_def filter_map comp_def conj_commute)

lemma abs_line_flat:
  assumes "queue_ok st"
  shows "fst (abs_line st k) @ snd (abs_line st k) = map waker (waiters st k)"
  using queue_okD(1) [OF assms, of k] unfolding class_sorted_def abs_line_def
  by (metis fst_conv map_append snd_conv)

lemma spec_head_leave:
  assumes "spec_head (spec_leave a l) = Some b" "spec_head l \<noteq> Some a"
  shows "spec_head l = Some b"
proof -
  have "fst (spec_leave a l) @ snd (spec_leave a l) = filter (\<lambda>b. b \<noteq> a) (fst l @ snd l)"
    by (simp add: spec_leave_def)
  then show ?thesis using assms by (cases "fst l @ snd l") (auto simp: spec_head_def split: if_splits)
qed

lemma is_head_iff: "is_head st t \<longleftrightarrow> (\<exists>w ws. waiters st (ticket_key t) = w # ws \<and> waker w = ticket_waker t)"
  by (cases "queues st (ticket_key t)") (auto simp: is_head_def split: list.splits)

lemma is_head_spec:
  assumes "queue_ok st"
  shows "is_head st t \<longleftrightarrow> spec_head (abs_line st (ticket_key t)) = Some (ticket_waker t)"
  by (auto simp: is_head_iff spec_head_def abs_line_flat [OF assms] split: list.splits)


lemma drop_wakes_iff:
  assumes "queue_ok st"
  shows "snd (drop_ticket t st) =
           (if is_head st t then spec_head (abs_line (fst (drop_ticket t st)) (ticket_key t)) else None)"
proof (cases "is_head st t")
  case True
  then obtain w ws where w: "waiters st (ticket_key t) = w # ws" "waker w = ticket_waker t"
    by (auto simp: is_head_iff)
  then have q: "queues st (ticket_key t) = Some (w # ws)"
    by (cases "queues st (ticket_key t)") auto
  have ok: "queue_ok (fst (drop_ticket t st))" by (simp add: drop_is_leave leave_ok [OF assms])
  have "snd (drop_ticket t st) = (case ws of [] \<Rightarrow> None | v # _ \<Rightarrow> Some (waker v))"
    by (simp add: drop_ticket_def q w remove_at_def Let_def)
  moreover have "waiters (fst (drop_ticket t st)) (ticket_key t) = ws"
    by (simp add: drop_ticket_def q w remove_at_def Let_def waiters_def)
  ultimately show ?thesis
    using True by (simp add: spec_head_def abs_line_flat [OF ok] split: list.splits)
next
  case False
  have "0 < i" if "queues st (ticket_key t) = Some q" "position (\<lambda>w. waker w = ticket_waker t) q = Some i" for q i
    using that False position_SomeD [OF that(2)] by (cases q) (auto simp: is_head_iff)
  then show ?thesis using False
    by (auto simp: drop_ticket_def Let_def split: option.splits)
qed

text \<open>A normal waiter, then a high one that overtakes it.\<close>

lemma sample_queue:
  "enqueue_ranked 0 [7] 1 10 NormalPriority shortest_first (empty_queue :: nat QueueState) =
     (Ok \<lparr>ticket_key = 7, ticket_waker = 0, ticket_deadline = 10\<rparr>,
      \<lparr>queues = [7 \<mapsto> [\<lparr>waker = 0, waiter_priority = NormalPriority\<rparr>]], total = 1, next_waker = 1\<rparr>)"
  "enqueue_ranked 0 [7] 1 10 HighPriority shortest_first
     \<lparr>queues = [7 \<mapsto> [\<lparr>waker = 0, waiter_priority = NormalPriority\<rparr>]], total = 1, next_waker = 1\<rparr> =
     (Ok \<lparr>ticket_key = 7, ticket_waker = 1, ticket_deadline = 10\<rparr>,
      \<lparr>queues = [7 \<mapsto> [\<lparr>waker = 1, waiter_priority = HighPriority\<rparr>,
                         \<lparr>waker = 0, waiter_priority = NormalPriority\<rparr>]], total = 2, next_waker = 2\<rparr>)"
  by (simp_all add: enqueue_ranked_def empty_queue_def MAX_TOTAL_WAITING_def admitted_def
      waiters_def [abs_def] join_queue_def insert_position_def insert_at_def Let_def)


section \<open>Properties\<close>

text \<open>C23: in every reachable state of the shared wait queue the global count equals the number of
  waiters and never exceeds 1024, no key keeps an empty queue, waiters are distinct and high
  priority waiters precede normal ones.\<close>

theorem queue_reachable_ok:
  assumes "queue_step\<^sup>*\<^sup>* empty_queue st"
  shows "total st = (\<Sum>k \<in> dom (queues st). length (waiters st k)) \<and> total st \<le> 1024
         \<and> (\<forall>k. queues st k \<noteq> Some [] \<and> class_sorted (waiters st k) \<and> distinct (map waker (waiters st k)))"
  using queue_steps_keep [OF assms empty_queue_ok]
  by (simp add: queue_ok_def waiting_count_def MAX_TOTAL_WAITING_def)

theorem queue_reachable_ok_witness:
  "\<exists>st :: nat QueueState. queue_step\<^sup>*\<^sup>* empty_queue st \<and> total st = 1 \<and> total st \<le> 1024
     \<and> class_sorted (waiters st 7)"
proof -
  let ?st = "snd (enqueue_ranked 0 [7] 1 10 NormalPriority shortest_first empty_queue) :: nat QueueState"
  have reach: "queue_step\<^sup>*\<^sup>* empty_queue ?st" by (intro r_into_rtranclp enqueue_step)
  moreover have "total ?st = 1" by (simp add: sample_queue del: One_nat_def)
  ultimately show ?thesis using queue_reachable_ok [OF reach] by blast
qed

text \<open>waiters are never reordered. Whatever requests enqueue or drop their tickets between two
  states, the waiters of a key that were there in the first state and still are in the second
  stand in the same order.\<close>

theorem waiters_keep_their_order:
  assumes "queue_step\<^sup>*\<^sup>* empty_queue st" "queue_step\<^sup>*\<^sup>* st st'"
  shows "subseq (filter (\<lambda>w. waker w < next_waker st) (waiters st' k)) (waiters st k)"
proof -
  have ok: "queue_ok st" using queue_steps_keep [OF assms(1) empty_queue_ok] by simp
  have "wait_queue.evolves st st'" using queue_steps_keep [OF assms(2) ok] by simp
  then show ?thesis by (rule wait_queue.old_waiters_keep_order) (use queue_okD(3) [OF ok] in blast)
qed

theorem waiters_keep_their_order_witness:
  "\<exists>st st' :: nat QueueState. queue_step\<^sup>*\<^sup>* empty_queue st \<and> queue_step\<^sup>*\<^sup>* st st'
     \<and> map waker (waiters st' 7) = [1, 0] \<and> next_waker st = 1
     \<and> subseq (filter (\<lambda>w. waker w < next_waker st) (waiters st' 7)) (waiters st 7)"
proof -
  let ?st = "snd (enqueue_ranked 0 [7] 1 10 NormalPriority shortest_first empty_queue) :: nat QueueState"
  let ?st' = "snd (enqueue_ranked 0 [7] 1 10 HighPriority shortest_first ?st)"
  have reach: "queue_step\<^sup>*\<^sup>* empty_queue ?st" "queue_step\<^sup>*\<^sup>* ?st ?st'"
    by (intro r_into_rtranclp enqueue_step)+
  moreover have "map waker (waiters ?st' 7) = [1, 0]" "next_waker ?st = 1"
    by (simp_all add: sample_queue waiters_def del: One_nat_def)
  ultimately show ?thesis
    by (intro exI [of _ ?st] exI [of _ ?st'] conjI waiters_keep_their_order [OF reach]) simp_all
qed


text \<open>C24: the single list of a key implements two FIFO lines. A request is enqueued exactly when
  its deadline has not passed, the global bound leaves room and one of its keys admits it; it then
  stands last of its class in the line of an admitting key that scores best (the first of them),
  every other line unchanged, and a rejected request changes nothing. A normal request never
  lengthens a line beyond the per-key bound.\<close>

theorem enqueue_refines_two_lines:
  assumes "queue_ok st"
  shows "case enqueue_ranked now keys mw dl wp score st of
      (Inl e, st') \<Rightarrow>
        st' = st \<and> e = (if dl \<le> now then QueueTimeout else QueueFull)
        \<and> (dl \<le> now \<or> MAX_TOTAL_WAITING \<le> total st \<or> filter (admitted st mw wp) keys = [])
    | (Inr t, st') \<Rightarrow>
        now < dl \<and> total st < MAX_TOTAL_WAITING \<and> ticket_deadline t = dl
        \<and> ticket_key t \<in> set (filter (admitted st mw wp) keys)
        \<and> score (ticket_key t) (length (waiters st (ticket_key t)))
            = Max ((\<lambda>k. score k (length (waiters st k))) ` set (filter (admitted st mw wp) keys))
        \<and> (\<forall>k. abs_line st' k = (if k = ticket_key t then spec_join wp (ticket_waker t) (abs_line st k)
                                    else abs_line st k))
        \<and> (wp = HighPriority \<or> length (waiters st' (ticket_key t)) \<le> mw)"
proof -
  let ?f = "\<lambda>k. (k, score k (length (waiters st k)))" and ?ks = "filter (admitted st mw wp) keys"
  show ?thesis
  proof (cases "dl \<le> now \<or> MAX_TOTAL_WAITING \<le> total st \<or> ?ks = []")
    case True
    then show ?thesis by (auto simp: enqueue_ranked_def)
  next
    case False
    then obtain k v where kv: "best_scored (map ?f ?ks) = Some (k, v)"
      by (cases "best_scored (map ?f ?ks)") auto
    obtain pre post where split: "map ?f ?ks = pre @ (k, v) # post"
      "\<forall>x \<in> set pre. snd x < v" "\<forall>x \<in> set post. snd x \<le> v"
      using best_scored_SomeD [OF kv] by auto
    have "(k, v) \<in> set (map ?f ?ks)" unfolding split(1) by simp
    then have mem: "(k, v) \<in> ?f ` set ?ks" by (simp only: list.set_map)
    then have k: "k \<in> set ?ks" "v = score k (length (waiters st k))" by auto
    have "score x (length (waiters st x)) \<le> v" if "x \<in> set ?ks" for x
    proof -
      have "?f x \<in> set (map ?f ?ks)" using that by auto
      then have "?f x \<in> set (pre @ (k, v) # post)" by (simp only: split(1))
      then show ?thesis using split(2,3) by (auto dest: bspec less_imp_le)
    qed
    then have max: "Max ((\<lambda>k. score k (length (waiters st k))) ` set ?ks) = v"
      using k by (intro Max_eqI) auto
    have len: "length (waiters (join_queue k wp st) k) = Suc (length (waiters st k))"
      by (simp add: join_queue_def Let_def insert_at_def waiters_def)
    have eq: "enqueue_ranked now keys mw dl wp score st =
        (Ok \<lparr>ticket_key = k, ticket_waker = next_waker st, ticket_deadline = dl\<rparr>, join_queue k wp st)"
      using False by (simp add: enqueue_ranked_def kv not_le)
    have "wp = HighPriority \<or> length (waiters (join_queue k wp st) k) \<le> mw"
      using k(1) len by (auto simp: admitted_def)
    moreover have "score k (length (waiters st k)) = Max ((\<lambda>k. score k (length (waiters st k))) ` set ?ks)"
      by (simp only: max k(2))
    ultimately show ?thesis
      unfolding eq prod.case sum.case WaitTicket.simps
      using False k(1) by (intro conjI allI) (simp_all add: abs_line_join [OF assms])
  qed
qed

theorem enqueue_refines_two_lines_witness:
  "abs_line (snd (enqueue_ranked 0 [7] 1 10 NormalPriority shortest_first (empty_queue :: nat QueueState))) 7
     = ([], [0])"
  using enqueue_refines_two_lines
    [OF empty_queue_ok, where now = 0 and keys = "[7::nat]" and mw = 1 and dl = 10
       and wp = NormalPriority and score = shortest_first]
  by (simp add: sample_queue abs_line_empty del: One_nat_def)

text \<open>Dropping a ticket removes exactly its waiter from its line and wakes the waiter that
  thereby becomes first, so no wake-up is lost: whoever is at the head afterwards either was at
  the head before or is woken by the drop.\<close>

theorem drop_wakes_the_new_head:
  assumes "queue_ok st"
  shows "case drop_ticket t st of (st', woken) \<Rightarrow>
      (\<forall>k. abs_line st' k = (if k = ticket_key t then spec_leave (ticket_waker t) (abs_line st k)
                              else abs_line st k))
      \<and> (\<forall>a. spec_head (abs_line st' (ticket_key t)) = Some a \<longrightarrow>
            spec_head (abs_line st (ticket_key t)) = Some a \<or> woken = Some a)"
proof -
  have line: "abs_line (fst (drop_ticket t st)) k =
      (if k = ticket_key t then spec_leave (ticket_waker t) (abs_line st k) else abs_line st k)" for k
    by (simp add: drop_is_leave abs_line_leave [OF assms])
  obtain st' woken where drop: "drop_ticket t st = (st', woken)" by fastforce
  have "woken = (if is_head st t then spec_head (abs_line st' (ticket_key t)) else None)"
    using drop_wakes_iff [OF assms, of t] by (simp only: drop fst_conv snd_conv)
  moreover have "spec_head (abs_line st (ticket_key t)) = Some a"
    if "spec_head (abs_line st' (ticket_key t)) = Some a" "\<not> is_head st t" for a
  proof (rule spec_head_leave)
    show "spec_head (spec_leave (ticket_waker t) (abs_line st (ticket_key t))) = Some a"
      using that(1) line [of "ticket_key t"] by (simp add: drop)
    show "spec_head (abs_line st (ticket_key t)) \<noteq> Some (ticket_waker t)"
      using that(2) by (simp add: is_head_spec [OF assms])
  qed
  ultimately show ?thesis unfolding drop prod.case using line by (simp add: drop)
qed

theorem drop_wakes_the_new_head_witness:
  "case drop_ticket \<lparr>ticket_key = 7, ticket_waker = 1, ticket_deadline = 10\<rparr>
          (snd (enqueue_ranked 0 [7] 1 10 HighPriority shortest_first
             (snd (enqueue_ranked 0 [7] 1 10 NormalPriority shortest_first (empty_queue :: nat QueueState))))) of
     (st', woken) \<Rightarrow> abs_line st' 7 = ([], [0]) \<and> woken = Some 0"
proof -
  let ?t = "\<lparr>ticket_key = 7, ticket_waker = 1, ticket_deadline = 10\<rparr> :: nat WaitTicket"
  let ?st = "snd (enqueue_ranked 0 [7] 1 10 HighPriority shortest_first
             (snd (enqueue_ranked 0 [7] 1 10 NormalPriority shortest_first (empty_queue :: nat QueueState))))"
  have "queue_step\<^sup>*\<^sup>* empty_queue ?st" by (meson enqueue_step r_into_rtranclp rtranclp_trans)
  then have ok: "queue_ok ?st" using queue_steps_keep empty_queue_ok by blast
  have "abs_line ?st 7 = ([1], [0])"
    by (simp add: sample_queue abs_line_def waiters_def del: One_nat_def)
  moreover have "snd (drop_ticket ?t ?st) = Some 0"
    by (simp add: sample_queue drop_ticket_def remove_at_def Let_def del: One_nat_def)
  ultimately show ?thesis
    using drop_wakes_the_new_head [OF ok, of ?t] by (auto simp: spec_leave_def split: prod.splits)
qed


text \<open>waiting never extends a deadline and never moves a position. Between its first wait and
  any later one a request keeps the deadline the first wait fixed, cut to its own deadline; while
  the key of its ticket stays eligible it keeps that very ticket and the shared queue is
  untouched; a rejected wait leaves it without a ticket.\<close>

theorem capacity_wait_keeps_position:
  "case wait_with_priority now keys score w st of (r, w', st') \<Rightarrow>
     wait_budget w' = Some (unwrap_or (wait_budget w) (now + int (policy_timeout (wait_policy w))))
     \<and> wait_started_at w' = Some (unwrap_or (wait_started_at w) now)
     \<and> (case r of Inl e \<Rightarrow> wait_ticket w' = None | Inr t \<Rightarrow> wait_ticket w' = Some t \<and> ticket_key t \<in> set keys)
     \<and> (if is_some_and (wait_ticket w) (\<lambda>t. ticket_key t \<in> set keys)
        then wait_ticket w' = wait_ticket w \<and> st' = st
        else is_none_or (wait_ticket w') (\<lambda>t.
               ticket_deadline t \<le> unwrap_or (wait_budget w) (now + int (policy_timeout (wait_policy w)))
               \<and> ticket_deadline t \<le> max now (wait_request_deadline w)))"
proof -
  let ?dl = "fst (budget_deadline (wait_budget w) now (policy_timeout (wait_policy w)) (wait_request_deadline w))"
  have dl: "?dl \<le> unwrap_or (wait_budget w) (now + int (policy_timeout (wait_policy w)))"
    "?dl \<le> max now (wait_request_deadline w)"
    by (auto simp: budget_deadline_def Let_def duration_since_def)
  show ?thesis
  proof (cases "is_some_and (wait_ticket w) (\<lambda>t. ticket_key t \<in> set keys)")
    case True
    then show ?thesis
      by (auto simp: wait_with_priority_def wait_prepare_def budget_deadline_def Let_def is_some_and_iff)
  next
    case False
    let ?st = "case wait_ticket w of None \<Rightarrow> st | Some t \<Rightarrow> fst (drop_ticket t st)"
    let ?enq = "enqueue_ranked now keys (max_waiting (wait_policy w)) ?dl (wait_priority w) score ?st"
    show ?thesis
      by (cases rule: enqueue_cases [of now keys "max_waiting (wait_policy w)" ?dl "wait_priority w" score ?st])
        (use False dl in \<open>auto simp: wait_with_priority_def wait_prepare_def budget_deadline_def Let_def release_ticket_def
          split: option.splits\<close>)
  qed
qed

text \<open>No request barges past the queue. In a reachable state a normal request without a
  ticket may try a key only when nobody waits for it, a high priority one only when no high
  priority request does, and of the requests holding tickets for a key at most one may try: the
  one whose waiter is first.\<close>

theorem no_barging:
  assumes "queue_step\<^sup>*\<^sup>* empty_queue st" "can_try w st k"
  shows "case filter_option (\<lambda>t. ticket_key t = k) (wait_ticket w) of
           None \<Rightarrow> (case wait_priority w of
                      NormalPriority \<Rightarrow> waiters st k = []
                    | HighPriority \<Rightarrow> fst (abs_line st k) = [])
         | Some t \<Rightarrow> spec_head (abs_line st k) = Some (ticket_waker t)"
proof (cases "filter_option (\<lambda>t. ticket_key t = k) (wait_ticket w)")
  case None
  then have "\<not> has_waiters_ahead_of st k (wait_priority w)" using assms(2) by (simp add: can_try_def)
  then have "list_all (\<lambda>v. wait_priority w \<noteq> NormalPriority \<and> waiter_priority v \<noteq> wait_priority w) (waiters st k)"
    by (cases "queues st k") (auto simp: has_waiters_ahead_of_def list_all_iff list_ex_iff)
  then show ?thesis
    using None by (cases "waiters st k")
      (auto simp: abs_line_def list_all_iff is_high_def filter_empty_conv split: WaitPriority.splits)
next
  case (Some t)
  have "queue_ok st" using queue_steps_keep [OF assms(1) empty_queue_ok] by simp
  moreover have "is_head st t" using assms(2) Some by (simp add: can_try_def)
  ultimately show ?thesis using Some is_head_spec [of st t] by (simp add: filter_option_eq_Some)
qed

theorem no_barging_witness:
  "waiters (empty_queue :: nat QueueState) 7 = []"
proof -
  let ?w = "new_CapacityWait \<lparr>max_waiting = 1, policy_timeout = 5\<rparr> 10 None :: nat CapacityWait"
  have "can_try ?w empty_queue 7"
    by (simp add: can_try_def new_CapacityWait_def has_waiters_ahead_of_def empty_queue_def)
  from no_barging [OF _ this] show ?thesis by (simp add: new_CapacityWait_def)
qed

end
