(* ===== verification/Account_Selection.thy ===== *)
theory Account_Selection
  imports Account_Scope Smart_Scheduling Account_Feedback Concurrency_Queue
begin

text \<open>
  The rest of \<open>gateway-core/src/account/selection.rs\<close>: the policy frozen into a request plan, the
  runtime signals of an account, the scheduling blockers and the four rotation strategies. Every
  sort of the source is the library's stable \<open>sort_key\<close> on the same key (accounts have distinct
  ids, so the unstable sort of the smart strategy sorts the same way); \<open>total_cmp\<close> on the
  non-negative values compared here is the order of the rationals.

  Results: an account is selected only if nothing blocks it and exactly when one exists; each
  strategy returns the candidate its documentation names; the smart score is monotone in every
  signal and the strategy stays within its tolerance of the best score and rotates through all
  such candidates.
\<close>

section \<open>Policy\<close>

datatype RotationStrategy = Smart | QuotaResetPriority | RoundRobin | Sticky

fun RotationStrategy_as_str :: "RotationStrategy \<Rightarrow> string" where
  "RotationStrategy_as_str Smart = ''smart''"
| "RotationStrategy_as_str QuotaResetPriority = ''quota_reset_priority''"
| "RotationStrategy_as_str RoundRobin = ''round_robin''"
| "RotationStrategy_as_str Sticky = ''sticky''"

definition RotationStrategy_parse :: "string \<Rightarrow> RotationStrategy option" where
  "RotationStrategy_parse v =
     (if v = ''smart'' then Some Smart
      else if v = ''quota_reset_priority'' then Some QuotaResetPriority
      else if v = ''round_robin'' then Some RoundRobin
      else if v = ''sticky'' then Some Sticky
      else None)"

interpretation rotation_strategy: wire_enum RotationStrategy_as_str RotationStrategy_parse
proof
  fix x show "RotationStrategy_parse (RotationStrategy_as_str x) = Some x"
    by (cases x) (simp_all add: RotationStrategy_parse_def)
next
  fix t x show "RotationStrategy_parse t = Some x \<Longrightarrow> t = RotationStrategy_as_str x"
    by (auto simp: RotationStrategy_parse_def split: if_splits)
qed

record AccountSelectionPolicy =
  policy_strategy :: RotationStrategy
  policy_smart_scheduling :: SmartSchedulingConfig
  policy_max_concurrent :: AccountConcurrency
  policy_request_interval :: duration
  policy_queue :: ConcurrencyQueuePolicy
  policy_guardian_reserved :: nat

definition new_AccountSelectionPolicy ::
  "RotationStrategy \<Rightarrow> AccountConcurrency \<Rightarrow> duration \<Rightarrow> AccountSelectionPolicy" where
  "new_AccountSelectionPolicy strategy max_concurrent request_interval =
     \<lparr>policy_strategy = strategy, policy_smart_scheduling = default_SmartSchedulingConfig,
      policy_max_concurrent = max_concurrent, policy_request_interval = request_interval,
      policy_queue = \<lparr>max_waiting = 0, policy_timeout = 0\<rparr>, policy_guardian_reserved = 0\<rparr>"

definition policy_with_guardian_reserved :: "AccountSelectionPolicy \<Rightarrow> nat \<Rightarrow> AccountSelectionPolicy" where
  "policy_with_guardian_reserved p reserved = p\<lparr>policy_guardian_reserved := reserved\<rparr>"

definition policy_with_queue :: "AccountSelectionPolicy \<Rightarrow> ConcurrencyQueuePolicy \<Rightarrow> AccountSelectionPolicy" where
  "policy_with_queue p queue = p\<lparr>policy_queue := queue\<rparr>"

definition policy_with_smart_scheduling ::
  "AccountSelectionPolicy \<Rightarrow> SmartSchedulingConfig \<Rightarrow> AccountSelectionPolicy" where
  "policy_with_smart_scheduling p config = p\<lparr>policy_smart_scheduling := config\<rparr>"


section \<open>Signals and candidates\<close>

record AccountRuntimeSignals =
  in_flight :: nat
  last_started_at :: "system_time option"
  sig_quota_reset_at :: "system_time option"
  quota_remaining_rank :: "nat option"
  sig_cooldown :: "AccountCooldown option"
  failure_rate_basis_points :: "nat option"
  first_output_latency_ms :: "nat option"

record AccountQuotaSignals =
  quota_signal_reset_at :: "system_time option"
  quota_signal_remaining_rank :: "nat option"

definition with_provider_quota ::
  "AccountRuntimeSignals \<Rightarrow> AccountQuotaSignals option \<Rightarrow> AccountRuntimeSignals" where
  "with_provider_quota s quota =
     (case quota of
        None \<Rightarrow> s
      | Some q \<Rightarrow> s\<lparr>sig_quota_reset_at := quota_signal_reset_at q,
                      quota_remaining_rank := quota_signal_remaining_rank q\<rparr>)"

definition with_rate_limit :: "AccountRuntimeSignals \<Rightarrow> AccountCooldown option \<Rightarrow> AccountRuntimeSignals" where
  "with_rate_limit s cooldown = s\<lparr>sig_cooldown := cooldown\<rparr>"

definition with_runtime_health ::
  "AccountRuntimeSignals \<Rightarrow> nat option \<Rightarrow> nat option \<Rightarrow> AccountRuntimeSignals" where
  "with_runtime_health s failure latency =
     s\<lparr>failure_rate_basis_points := failure, first_output_latency_ms := latency\<rparr>"

record AccountCandidate =
  cand_account :: ProviderAccount
  cand_signals :: AccountRuntimeSignals

abbreviation cand_id :: "AccountCandidate \<Rightarrow> ProviderAccountId" where
  "cand_id c \<equiv> account_id (cand_account c)"

abbreviation cand_weight :: "AccountCandidate \<Rightarrow> AccountWeight" where
  "cand_weight c \<equiv> account_weight (cand_account c)"

record AccountCapacitySnapshot =
  used_slots :: nat
  total_slots :: nat

definition with_acquired_request :: "AccountCapacitySnapshot \<Rightarrow> AccountCapacitySnapshot" where
  "with_acquired_request s = s\<lparr>used_slots := min (saturating_add_u 64 (used_slots s) 1) (total_slots s)\<rparr>"

datatype AccountEligibilityPolicy = Enforce | BypassForDiagnostic

definition bypasses_local_eligibility :: "AccountEligibilityPolicy \<Rightarrow> bool" where
  "bypasses_local_eligibility p \<longleftrightarrow> p = BypassForDiagnostic"

record AccountSelectionContext =
  ctx_policy :: AccountSelectionPolicy
  ctx_now :: system_time
  ctx_excluded_accounts :: "ProviderAccountId set"
  ctx_preferred_account :: "ProviderAccountId option"
  preferred_account_overrides_weight :: bool
  round_robin_cursor :: nat
  ctx_eligibility :: AccountEligibilityPolicy
  ctx_account_scope :: "FrozenAccountScope option"
  reserved_concurrency :: nat

definition ctx_concurrency_limit :: "AccountSelectionContext \<Rightarrow> ProviderAccount \<Rightarrow> AccountConcurrency" where
  "ctx_concurrency_limit ctx account =
     excluding_reserved (effective_concurrency account (policy_max_concurrent (ctx_policy ctx)))
       (reserved_concurrency ctx)"

datatype AccountSchedulingBlocker =
    OutsideClientScope
  | LocalAvailability
  | Excluded
  | ConcurrencyLimit
  | RequestInterval
  | LowerWeight

datatype PreferredAccountSelection =
    NotRequested
  | Hit
  | OverriddenByPolicy
  | Missing
  | Blocked AccountSchedulingBlocker

record AccountSelection =
  sel_candidate :: AccountCandidate
  sel_preferred :: PreferredAccountSelection
  sel_policy_choice :: bool


section \<open>Eligibility\<close>

definition scheduling_blocker ::
  "AccountCandidate \<Rightarrow> AccountSelectionContext \<Rightarrow> AccountSchedulingBlocker option" where
  "scheduling_blocker c ctx =
     (if is_some_and (ctx_account_scope ctx) (\<lambda>scope. \<not> allows scope (cand_id c))
      then Some OutsideClientScope
      else if \<not> bypasses_local_eligibility (ctx_eligibility ctx)
              \<and> status (status_projection (cand_account c) (ctx_now ctx) (sig_cooldown (cand_signals c))) \<noteq> Normal
      then Some LocalAvailability
      else if cand_id c \<in> ctx_excluded_accounts ctx
      then Some Excluded
      else if is_some_and (concurrency_limit (ctx_concurrency_limit ctx (cand_account c)))
                (\<lambda>limit. in_flight (cand_signals c) \<ge> limit)
      then Some ConcurrencyLimit
      else if is_some_and (last_started_at (cand_signals c))
                (\<lambda>last_started.
                   \<not> is_some_and (duration_since (ctx_now ctx) last_started)
                        (\<lambda>elapsed. elapsed \<ge> policy_request_interval (ctx_policy ctx)))
      then Some RequestInterval
      else None)"

definition policy_candidates ::
  "AccountCandidate list \<Rightarrow> AccountSelectionContext \<Rightarrow> AccountCandidate list" where
  "policy_candidates candidates ctx = filter (\<lambda>c. scheduling_blocker c ctx = None) candidates"

definition preferred_decision ::
  "AccountCandidate list \<Rightarrow> AccountSelectionContext
     \<Rightarrow> PreferredAccountSelection \<times> AccountCandidate option" where
  "preferred_decision candidates ctx =
     (case ctx_preferred_account ctx of
        None \<Rightarrow> (NotRequested, None)
      | Some preferred \<Rightarrow>
          (case List.find (\<lambda>c. cand_id c = preferred) candidates of
             None \<Rightarrow> (Missing, None)
           | Some c \<Rightarrow>
               (case scheduling_blocker c ctx of
                  Some blocker \<Rightarrow> (Blocked blocker, None)
                | None \<Rightarrow> (Hit, Some c))))"

definition select_policy_candidate ::
  "AccountCandidate list \<Rightarrow> AccountSelectionContext \<Rightarrow> ProviderAccountId \<Rightarrow> AccountSelection option" where
  "select_policy_candidate candidates ctx i =
     (case List.find (\<lambda>c. cand_id c = i) candidates of
        None \<Rightarrow> None
      | Some c \<Rightarrow>
          if scheduling_blocker c ctx \<noteq> None then None
          else
            let preferred = fst (preferred_decision candidates ctx);
                preferred' = (if preferred = Hit \<and> ctx_preferred_account ctx \<noteq> Some i
                              then OverriddenByPolicy else preferred)
            in Some \<lparr>sel_candidate = c, sel_preferred = preferred', sel_policy_choice = True\<rparr>)"

text \<open>\<open>try_fold\<close>: an unlimited account ends the fold with no snapshot.\<close>

fun add_capacity ::
  "AccountSelectionContext \<Rightarrow> AccountCandidate list \<Rightarrow> nat \<times> nat \<Rightarrow> (nat \<times> nat) option" where
  "add_capacity ctx [] acc = Some acc"
| "add_capacity ctx (c # cs) (used, capacity_sum) =
     (case concurrency_limit (ctx_concurrency_limit ctx (cand_account c)) of
        None \<Rightarrow> None
      | Some capacity \<Rightarrow>
          add_capacity ctx cs
            (saturating_add_u 64 used (in_flight (cand_signals c)), saturating_add_u 64 capacity_sum capacity))"

definition capacity_snapshot ::
  "AccountCandidate list \<Rightarrow> AccountSelectionContext \<Rightarrow> AccountCapacitySnapshot option" where
  "capacity_snapshot candidates ctx =
     (case add_capacity ctx
             (filter (\<lambda>c. scheduling_blocker c ctx
                        \<notin> {Some OutsideClientScope, Some LocalAvailability, Some Excluded}) candidates)
             (0, 0) of
        None \<Rightarrow> None
      | Some (used, capacity_sum) \<Rightarrow>
          if capacity_sum > 0 then Some \<lparr>used_slots = min used capacity_sum, total_slots = capacity_sum\<rparr> else None)"

definition wait_candidates ::
  "AccountCandidate list \<Rightarrow> AccountSelectionContext \<Rightarrow> ProviderAccountId list" where
  "wait_candidates candidates ctx =
     map cand_id
       (sort_key (\<lambda>c. (ctx_preferred_account ctx \<noteq> Some (cand_id c), Reverse (cand_weight c), cand_id c))
          (filter (\<lambda>c. scheduling_blocker c ctx \<in> {None, Some ConcurrencyLimit, Some RequestInterval})
             candidates))"


section \<open>Scores\<close>

definition SMART_LATENCY_HALF_SCORE_MS :: rat where "SMART_LATENCY_HALF_SCORE_MS = 10000"

definition SMART_RESET_HALF_SCORE_SECONDS :: rat where "SMART_RESET_HALF_SCORE_SECONDS = 3600"

definition capacity_utilization :: "AccountCandidate \<Rightarrow> AccountConcurrency \<Rightarrow> rat" where
  "capacity_utilization c default_concurrency =
     (case concurrency_limit (effective_concurrency (cand_account c) default_concurrency) of
        None \<Rightarrow> 0
      | Some limit \<Rightarrow> fdiv (f64_of_nat (in_flight (cand_signals c))) (f64_of_nat limit))"

definition load_score :: "AccountCandidate \<Rightarrow> AccountConcurrency \<Rightarrow> rat" where
  "load_score c dc = fsub 1 (f64_clamp (capacity_utilization c dc) 0 1)"

definition quota_score :: "AccountRuntimeSignals \<Rightarrow> rat" where
  "quota_score s =
     (case quota_remaining_rank s of
        None \<Rightarrow> 1 / 2
      | Some quota \<Rightarrow> fdiv (f64_of_nat (min quota 10000)) 10000)"

definition health_score :: "AccountRuntimeSignals \<Rightarrow> rat" where
  "health_score s =
     fsub 1 (fdiv (f64_of_nat (min (unwrap_or (failure_rate_basis_points s) 0) 10000)) 10000)"

definition latency_score :: "AccountRuntimeSignals \<Rightarrow> rat" where
  "latency_score s =
     (case filter_option (\<lambda>latency. latency > 0) (first_output_latency_ms s) of
        None \<Rightarrow> 1
      | Some latency \<Rightarrow>
          fdiv SMART_LATENCY_HALF_SCORE_MS (fadd SMART_LATENCY_HALF_SCORE_MS (f64_of_nat latency)))"

definition reset_score :: "AccountRuntimeSignals \<Rightarrow> system_time \<Rightarrow> rat" where
  "reset_score s now =
     (case filter_option (\<lambda>remaining. remaining \<noteq> 0)
             (Option.bind (sig_quota_reset_at s) (\<lambda>reset. duration_since reset now)) of
        None \<Rightarrow> 0
      | Some remaining \<Rightarrow>
          fdiv SMART_RESET_HALF_SCORE_SECONDS
            (fadd SMART_RESET_HALF_SCORE_SECONDS (as_secs_f64 remaining)))"

definition smart_score ::
  "AccountCandidate \<Rightarrow> AccountConcurrency \<Rightarrow> SmartSchedulingConfig \<Rightarrow> system_time \<Rightarrow> rat" where
  "smart_score c dc config now =
     (let w = config_weights config; s = cand_signals c
      in fadd (fadd (fadd (fadd (fmul (w ! 0) (load_score c dc)) (fmul (w ! 1) (quota_score s)))
                          (fmul (w ! 2) (health_score s)))
                    (fmul (w ! 3) (latency_score s)))
              (fmul (w ! 4) (reset_score s now)))"

definition select_smart_candidate ::
  "AccountCandidate list \<Rightarrow> AccountConcurrency \<Rightarrow> nat \<Rightarrow> SmartSchedulingConfig \<Rightarrow> system_time
     \<Rightarrow> AccountCandidate option" where
  "select_smart_candidate candidates dc cursor config now =
     (if candidates = [] then None
      else
        let score = (\<lambda>c. smart_score c dc config now);
            best_score = Max (score ` set candidates);
            ranked = filter (\<lambda>c. fsub best_score (score c) \<le> score_tolerance config) candidates;
            sorted = sort_key cand_id ranked
        in Some (sorted ! (cursor mod length sorted)))"


section \<open>Selection\<close>

definition select_in_tier ::
  "AccountCandidate list \<Rightarrow> AccountSelectionContext \<Rightarrow> AccountCandidate option" where
  "select_in_tier eligible ctx =
     (case policy_strategy (ctx_policy ctx) of
        QuotaResetPriority \<Rightarrow>
          (case sort_key (\<lambda>c. (sig_quota_reset_at (cand_signals c) = None,
                               sig_quota_reset_at (cand_signals c),
                               capacity_utilization c (policy_max_concurrent (ctx_policy ctx)),
                               last_started_at (cand_signals c),
                               cand_id c)) eligible of
             [] \<Rightarrow> None | c # _ \<Rightarrow> Some c)
      | RoundRobin \<Rightarrow>
          (let sorted = sort_key cand_id eligible
           in if sorted = [] then None else Some (sorted ! (round_robin_cursor ctx mod length sorted)))
      | Smart \<Rightarrow>
          select_smart_candidate eligible (policy_max_concurrent (ctx_policy ctx))
            (round_robin_cursor ctx) (policy_smart_scheduling (ctx_policy ctx)) (ctx_now ctx)
      | Sticky \<Rightarrow>
          (case sort_key (\<lambda>c. (Reverse (last_started_at (cand_signals c)), cand_id c)) eligible of
             [] \<Rightarrow> None | c # _ \<Rightarrow> Some c))"

definition select :: "AccountCandidate list \<Rightarrow> AccountSelectionContext \<Rightarrow> AccountSelection option" where
  "select candidates ctx =
     (let eligible = filter (\<lambda>c. scheduling_blocker c ctx = None) candidates
      in if eligible = [] then None
         else
           let highest_weight = Max (cand_weight ` set eligible);
               (preferred, preferred_candidate) = preferred_decision candidates ctx;
               prefer_higher_weight =
                 (policy_strategy (ctx_policy ctx) = Smart
                  \<and> cfg_prefer_higher_weight (policy_smart_scheduling (ctx_policy ctx)));
               outranked = (\<lambda>c. (\<not> preferred_account_overrides_weight ctx \<or> prefer_higher_weight)
                               \<and> cand_weight c < highest_weight)
           in case preferred_candidate of
                Some c \<Rightarrow>
                  if outranked c
                  then map_option
                         (\<lambda>chosen. \<lparr>sel_candidate = chosen, sel_preferred = Blocked LowerWeight,
                                     sel_policy_choice = False\<rparr>)
                         (select_in_tier (filter (\<lambda>c. cand_weight c = highest_weight) eligible) ctx)
                  else Some \<lparr>sel_candidate = c, sel_preferred = Hit, sel_policy_choice = False\<rparr>
              | None \<Rightarrow>
                  map_option
                    (\<lambda>chosen. \<lparr>sel_candidate = chosen, sel_preferred = preferred,
                                sel_policy_choice = False\<rparr>)
                    (select_in_tier (filter (\<lambda>c. cand_weight c = highest_weight) eligible) ctx))"


section \<open>Waiting for capacity\<close>

text \<open>The synchronous part of \<open>wait_for_capacity\<close>; \<open>None\<close> is the panic of indexing the score map
  with a key that is not a candidate.\<close>

definition wait_for_capacity ::
  "system_time \<Rightarrow> ProviderAccountId CapacityWait \<Rightarrow> ProviderAccountId QueueState \<Rightarrow> ProviderAccountId list
     \<Rightarrow> AccountCandidate list \<Rightarrow> AccountSelectionContext
     \<Rightarrow> ((QueueRejection + ProviderAccountId WaitTicket) \<times> ProviderAccountId CapacityWait
           \<times> ProviderAccountId QueueState) option" where
  "wait_for_capacity instant w st keys candidates ctx =
     (let config = policy_smart_scheduling (ctx_policy ctx);
          queue_weight = config_weights config ! 5
      in if policy_strategy (ctx_policy ctx) \<noteq> Smart \<or> queue_weight = 0
         then Some (wait_default instant keys w st)
         else
           let scores = map_of (map (\<lambda>c. (cand_id c,
                            smart_score c (policy_max_concurrent (ctx_policy ctx)) config (ctx_now ctx)))
                          (rev candidates))
           in if list_ex (\<lambda>k. scores k = None) (scored_keys instant keys w st) then None
              else Some (wait_with_priority instant keys
                           (\<lambda>k count. fadd (unwrap_or (scores k) 0)
                                        (fdiv queue_weight (fadd 1 (f64_of_nat count)))) w st))"

section \<open>Eligibility, characterised\<close>

lemma blocker_None_iff:
  "scheduling_blocker c ctx = None \<longleftrightarrow>
     is_none_or (ctx_account_scope ctx) (\<lambda>scope. allows scope (cand_id c))
     \<and> (ctx_eligibility ctx = BypassForDiagnostic
        \<or> status (status_projection (cand_account c) (ctx_now ctx) (sig_cooldown (cand_signals c))) = Normal)
     \<and> cand_id c \<notin> ctx_excluded_accounts ctx
     \<and> is_none_or (concurrency_limit (ctx_concurrency_limit ctx (cand_account c)))
         (\<lambda>limit. in_flight (cand_signals c) < limit)
     \<and> is_none_or (last_started_at (cand_signals c))
         (\<lambda>started. started + int (policy_request_interval (ctx_policy ctx)) \<le> ctx_now ctx)"
proof -
  have interval: "is_some_and (duration_since now started) (\<lambda>elapsed. n \<le> elapsed) \<longleftrightarrow> started + int n \<le> now"
    for now started :: system_time and n
    by (auto simp: is_some_and_iff duration_since_eq_Some)
  show ?thesis
    by (cases "ctx_account_scope ctx"; cases "last_started_at (cand_signals c)";
        cases "concurrency_limit (ctx_concurrency_limit ctx (cand_account c))")
      (auto simp: scheduling_blocker_def bypasses_local_eligibility_def interval not_le)
qed

lemma preferred_decision_Some:
  assumes "preferred_decision cs ctx = (p, Some c)"
  shows "p = Hit \<and> c \<in> set cs \<and> scheduling_blocker c ctx = None \<and> ctx_preferred_account ctx = Some (cand_id c)"
  using assms by (auto simp: preferred_decision_def dest: find_Some_in split: option.splits)

lemma preferred_decision_None:
  assumes "preferred_decision cs ctx = (p, None)"
  shows "p \<noteq> Hit \<and> p \<noteq> OverriddenByPolicy"
  using assms by (auto simp: preferred_decision_def split: option.splits)


section \<open>Strategies\<close>

text \<open>The candidates whose score is within the tolerance of the best one.\<close>

definition near_best ::
  "AccountCandidate list \<Rightarrow> AccountConcurrency \<Rightarrow> SmartSchedulingConfig \<Rightarrow> system_time \<Rightarrow> AccountCandidate list" where
  "near_best cs dc config now =
     filter (\<lambda>c. fsub (Max ((\<lambda>c. smart_score c dc config now) ` set cs)) (smart_score c dc config now)
                   \<le> score_tolerance config) cs"

lemma near_best_subset: "set (near_best cs dc config now) \<subseteq> set cs"
  by (auto simp: near_best_def)

lemma best_is_near_best:
  assumes "c \<in> set cs" "\<forall>d \<in> set cs. smart_score d dc config now \<le> smart_score c dc config now"
  shows "c \<in> set (near_best cs dc config now)"
proof -
  have "Max ((\<lambda>c. smart_score c dc config now) ` set cs) = smart_score c dc config now"
    using assms by (intro Max_eqI) auto
  moreover have "0 \<le> score_tolerance config" by (simp add: score_tolerance_def f64_round_nonneg)
  ultimately show ?thesis using assms(1) by (simp add: near_best_def)
qed

lemma near_best_nonempty:
  assumes "cs \<noteq> []"
  shows "near_best cs dc config now \<noteq> []"
proof -
  let ?s = "\<lambda>c. smart_score c dc config now"
  have "Max (?s ` set cs) \<in> ?s ` set cs" using assms by (intro Max_in) auto
  then obtain c where "c \<in> set cs" "?s c = Max (?s ` set cs)" by auto
  then have "c \<in> set (near_best cs dc config now)" by (intro best_is_near_best) auto
  then show ?thesis by auto
qed

lemma select_smart_candidate_eq:
  "select_smart_candidate cs dc cursor config now =
     (if cs = [] then None
      else Some (sort_key cand_id (near_best cs dc config now)
                   ! (cursor mod length (near_best cs dc config now))))"
  by (simp add: select_smart_candidate_def near_best_def Let_def)

lemma rotation_injective:
  fixes n :: nat
  assumes "i < n" "j < n" "(s + i) mod n = (s + j) mod n" "i \<le> j"
  shows "i = j"
proof -
  have "n dvd (s + j) - (s + i)"
    using assms by (metis mod_eq_dvd_iff_nat nat_add_left_cancel_le)
  then have "n dvd j - i" by simp
  then show ?thesis using assms by (auto dest: dvd_imp_le)
qed

lemma rotation_covers:
  assumes "xs \<noteq> []"
  shows "(\<lambda>k. xs ! ((start + k) mod length xs)) ` {..<length xs} = set xs"
proof -
  let ?r = "\<lambda>k. (start + k) mod length xs"
  have "inj_on ?r {..<length xs}"
    by (rule inj_onI) (metis lessThan_iff linorder_le_cases rotation_injective)
  then have "card (?r ` {..<length xs}) = card {..<length xs}" by (rule card_image)
  moreover have "?r ` {..<length xs} \<subseteq> {..<length xs}" using assms by auto
  ultimately have "?r ` {..<length xs} = {..<length xs}" by (intro card_subset_eq) auto
  then have "(\<lambda>i. xs ! i) ` ?r ` {..<length xs} = (\<lambda>i. xs ! i) ` {..<length xs}" by simp
  then have "(\<lambda>k. xs ! ?r k) ` {..<length xs} = (\<lambda>i. xs ! i) ` {..<length xs}"
    by (simp only: image_image)
  also have "\<dots> = set xs" by (auto simp: set_conv_nth)
  finally show ?thesis .
qed

lemma select_in_tier_mem:
  assumes "cs \<noteq> []"
  shows "\<exists>c \<in> set cs. select_in_tier cs ctx = Some c"
proof (cases "policy_strategy (ctx_policy ctx)")
  case Smart
  define nb where "nb = near_best cs (policy_max_concurrent (ctx_policy ctx))
      (policy_smart_scheduling (ctx_policy ctx)) (ctx_now ctx)"
  have "nb \<noteq> []" "set nb \<subseteq> set cs" using near_best_nonempty [OF assms] near_best_subset by (auto simp: nb_def)
  then have "sort_key cand_id nb ! (round_robin_cursor ctx mod length nb) \<in> set (sort_key cand_id nb)"
    by (intro nth_mem) simp
  then show ?thesis
    using Smart assms \<open>set nb \<subseteq> set cs\<close> by (auto simp: select_in_tier_def select_smart_candidate_eq nb_def)
next
  case RoundRobin
  have "sort_key cand_id cs ! (round_robin_cursor ctx mod length cs) \<in> set (sort_key cand_id cs)"
    using assms by (intro nth_mem) simp
  then show ?thesis using RoundRobin assms by (simp add: select_in_tier_def Let_def)
next
  case QuotaResetPriority
  then show ?thesis using assms hd_sort_key_in [OF assms] by (auto simp: select_in_tier_def first_sorted)
next
  case Sticky
  then show ?thesis using assms hd_sort_key_in [OF assms] by (auto simp: select_in_tier_def first_sorted)
qed

definition top_tier :: "AccountCandidate list \<Rightarrow> AccountSelectionContext \<Rightarrow> AccountCandidate list" where
  "top_tier cs ctx =
     filter (\<lambda>c. cand_weight c = Max (cand_weight ` set (policy_candidates cs ctx))) (policy_candidates cs ctx)"

lemma tier_choice:
  assumes "policy_candidates cs ctx \<noteq> []"
  obtains d where "d \<in> set (top_tier cs ctx)" "select_in_tier (top_tier cs ctx) ctx = Some d"
proof -
  have "Max (cand_weight ` set (policy_candidates cs ctx)) \<in> cand_weight ` set (policy_candidates cs ctx)"
    using assms by (intro Max_in) auto
  then have "top_tier cs ctx \<noteq> []" by (auto simp: top_tier_def filter_empty_conv)
  then show ?thesis using select_in_tier_mem that by blast
qed

lemmas select_unfold = select_def policy_candidates_def [symmetric] Let_def top_tier_def [symmetric]

lemma select_None: "select cs ctx = None \<longleftrightarrow> policy_candidates cs ctx = []"
proof (cases "policy_candidates cs ctx = []")
  case False
  then obtain d where "select_in_tier (top_tier cs ctx) ctx = Some d" using tier_choice by metis
  then show ?thesis using False by (auto simp: select_unfold split: prod.splits option.splits)
qed (simp add: select_unfold)

lemma select_from_tier:
  assumes "select cs ctx = Some s"
  shows "\<not> sel_policy_choice s"
    "case preferred_decision cs ctx of
       (p, Some c) \<Rightarrow> sel_preferred s = Hit \<and> sel_candidate s = c
          \<or> sel_preferred s = Blocked LowerWeight \<and> sel_candidate s \<in> set (top_tier cs ctx)
     | (p, None) \<Rightarrow> sel_preferred s = p \<and> sel_candidate s \<in> set (top_tier cs ctx)"
proof -
  have ne: "policy_candidates cs ctx \<noteq> []" using assms select_None by force
  then obtain d where "d \<in> set (top_tier cs ctx)" "select_in_tier (top_tier cs ctx) ctx = Some d"
    using tier_choice by metis
  then show "\<not> sel_policy_choice s"
    "case preferred_decision cs ctx of
       (p, Some c) \<Rightarrow> sel_preferred s = Hit \<and> sel_candidate s = c
          \<or> sel_preferred s = Blocked LowerWeight \<and> sel_candidate s \<in> set (top_tier cs ctx)
     | (p, None) \<Rightarrow> sel_preferred s = p \<and> sel_candidate s \<in> set (top_tier cs ctx)"
    using assms ne by (auto simp: select_unfold split: prod.splits option.splits if_splits)
qed

lemma select_eligible:
  assumes "select cs ctx = Some s"
  shows "sel_candidate s \<in> set (policy_candidates cs ctx)" "\<not> sel_policy_choice s"
  using select_from_tier [OF assms] preferred_decision_Some [of cs ctx]
  by (auto simp: top_tier_def policy_candidates_def split: prod.splits option.splits)

section \<open>Monotonicity of the smart score\<close>

definition remaining_to_reset :: "AccountRuntimeSignals \<Rightarrow> system_time \<Rightarrow> duration option" where
  "remaining_to_reset s now =
     filter_option (\<lambda>r. r \<noteq> 0) (Option.bind (sig_quota_reset_at s) (\<lambda>reset. duration_since reset now))"

text \<open>
  The second account is no worse than the first in any signal: fewer requests in flight, at least
  as much quota left (unknown counts as half), no higher failure rate and latency (unknown counts
  as zero), and a quota reset that is at least as near (unknown or past counts as never).
\<close>

definition no_worse :: "system_time \<Rightarrow> AccountRuntimeSignals \<Rightarrow> AccountRuntimeSignals \<Rightarrow> bool" where
  "no_worse now s s' \<longleftrightarrow>
     in_flight s' \<le> in_flight s
     \<and> unwrap_or (quota_remaining_rank s) 5000 \<le> unwrap_or (quota_remaining_rank s') 5000
     \<and> unwrap_or (failure_rate_basis_points s') 0 \<le> unwrap_or (failure_rate_basis_points s) 0
     \<and> unwrap_or (first_output_latency_ms s') 0 \<le> unwrap_or (first_output_latency_ms s) 0
     \<and> (case remaining_to_reset s now of
          None \<Rightarrow> True
        | Some r \<Rightarrow> is_some_and (remaining_to_reset s' now) (\<lambda>r'. r' \<le> r))"

lemma as_secs_f64_mono:
  assumes "d \<le> e" "d < from_secs (2 ^ 53)"
  shows "as_secs_f64 d \<le> as_secs_f64 e"
proof (cases "d div NANOS_PER_SEC = e div NANOS_PER_SEC")
  case True
  then have "d mod NANOS_PER_SEC \<le> e mod NANOS_PER_SEC"
    using assms by (metis add_le_cancel_left div_mult_mod_eq)
  then show ?thesis unfolding as_secs_f64_def True
    by (intro f64_mono f64_of_nat_mono order.refl f64_of_nat_nonneg) (simp_all add: f64_of_nat_pos NANOS_PER_SEC_def)
next
  case False
  then have div: "d div NANOS_PER_SEC + 1 \<le> e div NANOS_PER_SEC"
    using assms div_le_mono [of d e NANOS_PER_SEC] by simp
  have N: "f64_of_nat NANOS_PER_SEC = 1000000000" by (simp add: f64_of_nat_exact NANOS_PER_SEC_def)
  have "d mod NANOS_PER_SEC \<le> NANOS_PER_SEC" by (simp add: NANOS_PER_SEC_def less_imp_le)
  then have "fdiv (f64_of_nat (d mod NANOS_PER_SEC)) (f64_of_nat NANOS_PER_SEC) \<le> 1"
    unfolding fdiv_def using f64_of_nat_mono N by (intro f64_round_le_1) (fastforce simp: divide_le_eq)
  then have "as_secs_f64 d \<le> fadd (f64_of_nat (d div NANOS_PER_SEC)) 1"
    unfolding as_secs_f64_def by (intro f64_mono order.refl)
  also have "\<dots> = f64_of_nat (d div NANOS_PER_SEC + 1)"
  proof -
    have "d div NANOS_PER_SEC < 2 ^ 53"
      using assms(2) by (simp add: from_secs_def less_mult_imp_div_less)
    then have "f64_of_nat (d div NANOS_PER_SEC) = of_nat (d div NANOS_PER_SEC)" by (intro f64_of_nat_exact) simp
    then show ?thesis by (simp only: fadd_def) (simp add: f64_of_nat_def add.commute)
  qed
  also have "\<dots> \<le> f64_of_nat (e div NANOS_PER_SEC)" by (rule f64_of_nat_mono [OF div])
  also have "\<dots> = fadd (f64_of_nat (e div NANOS_PER_SEC)) 0" by (simp add: fadd_def f64_of_nat_def)
  also have "\<dots> \<le> as_secs_f64 e" unfolding as_secs_f64_def by (intro f64_mono) simp_all
  finally show ?thesis .
qed

lemma utilization_mono:
  assumes "account_concurrency_limit (cand_account c') = account_concurrency_limit (cand_account c)"
    and "in_flight (cand_signals c') \<le> in_flight (cand_signals c)"
    and "account_ok (cand_account c)" "concurrency_ok dc"
  shows "capacity_utilization c' dc \<le> capacity_utilization c dc"
proof -
  have same: "effective_concurrency (cand_account c') dc = effective_concurrency (cand_account c) dc"
    using assms(1) by (simp add: effective_concurrency_def)
  show ?thesis
  proof (cases "concurrency_limit (effective_concurrency (cand_account c) dc)")
    case (Some limit)
    have "0 < limit" using Some assms(3,4)
      by (auto simp: effective_concurrency_def account_ok_def concurrency_ok_def
          split: option.splits AccountConcurrency.splits)
    then show ?thesis using assms(2)
      by (auto simp: capacity_utilization_def same Some intro!: f64_mono f64_of_nat_mono f64_of_nat_pos)
  qed (simp add: capacity_utilization_def same)
qed

lemma quota_score_eq: "quota_score s = fdiv (f64_of_nat (min (unwrap_or (quota_remaining_rank s) 5000) 10000)) 10000"
proof (cases "quota_remaining_rank s")
  case None
  have "f64_round (1 / 2) = 1 / 2" by code_simp
  then show ?thesis using None by (simp add: quota_score_def fdiv_def f64_of_nat_exact)
qed (simp add: quota_score_def)

lemma latency_score_eq:
  "latency_score s =
     fdiv SMART_LATENCY_HALF_SCORE_MS
       (fadd SMART_LATENCY_HALF_SCORE_MS (f64_of_nat (unwrap_or (first_output_latency_ms s) 0)))"
proof -
  have "fdiv SMART_LATENCY_HALF_SCORE_MS (fadd SMART_LATENCY_HALF_SCORE_MS (f64_of_nat 0)) = 1"
    using is_f64_of_int [of 10000]
    by (simp add: SMART_LATENCY_HALF_SCORE_MS_def fadd_def fdiv_def f64_of_nat_def)
  then show ?thesis by (cases "first_output_latency_ms s") (auto simp: latency_score_def)
qed

lemma half_score_pos: "0 \<le> x \<Longrightarrow> 0 < fadd SMART_LATENCY_HALF_SCORE_MS x"
  "0 \<le> x \<Longrightarrow> 0 < fadd SMART_RESET_HALF_SCORE_SECONDS x"
  using f64_round_ge_1 [of "10000 + x"] f64_round_ge_1 [of "3600 + x"]
  by (simp_all add: fadd_def SMART_LATENCY_HALF_SCORE_MS_def SMART_RESET_HALF_SCORE_SECONDS_def)

lemma reset_score_mono:
  assumes "case remaining_to_reset s now of None \<Rightarrow> True
             | Some r \<Rightarrow> is_some_and (remaining_to_reset s' now) (\<lambda>r'. r' \<le> r)"
    and "is_none_or (remaining_to_reset s' now) (\<lambda>r. r < from_secs (2 ^ 53))"
  shows "reset_score s now \<le> reset_score s' now"
proof -
  have eq: "reset_score t now = (case remaining_to_reset t now of None \<Rightarrow> 0
      | Some r \<Rightarrow> fdiv SMART_RESET_HALF_SCORE_SECONDS (fadd SMART_RESET_HALF_SCORE_SECONDS (as_secs_f64 r)))" for t
    by (simp add: reset_score_def remaining_to_reset_def)
  have c: "0 \<le> SMART_RESET_HALF_SCORE_SECONDS" by (simp add: SMART_RESET_HALF_SCORE_SECONDS_def)
  show ?thesis
  proof (cases "remaining_to_reset s now")
    case None
    then show ?thesis using c by (simp add: eq split: option.splits)
  next
    case (Some r)
    then obtain r' where r': "remaining_to_reset s' now = Some r'" "r' \<le> r" "r' < from_secs (2 ^ 53)"
      using assms by (auto simp: is_some_and_iff)
    have "fdiv SMART_RESET_HALF_SCORE_SECONDS (fadd SMART_RESET_HALF_SCORE_SECONDS (as_secs_f64 r))
        \<le> fdiv SMART_RESET_HALF_SCORE_SECONDS (fadd SMART_RESET_HALF_SCORE_SECONDS (as_secs_f64 r'))"
      using c r'(2,3) by (intro f64_mono as_secs_f64_mono half_score_pos) auto
    then show ?thesis by (simp add: eq Some r'(1))
  qed
qed

lemma smart_score_mono:
  assumes "load_score c dc \<le> load_score c' dc" "quota_score (cand_signals c) \<le> quota_score (cand_signals c')"
    and "health_score (cand_signals c) \<le> health_score (cand_signals c')"
    and "latency_score (cand_signals c) \<le> latency_score (cand_signals c')"
    and "reset_score (cand_signals c) now \<le> reset_score (cand_signals c') now"
    and "0 \<le> load_score c dc" "0 \<le> quota_score (cand_signals c)" "0 \<le> health_score (cand_signals c)"
    and "0 \<le> latency_score (cand_signals c)" "0 \<le> reset_score (cand_signals c) now"
    and "config_ok config"
  shows "smart_score c dc config now \<le> smart_score c' dc config now"
proof -
  have "0 \<le> config_weights config ! i" if "i < 6" for i
    using that assms(11) by (simp add: config_weights_def config_ok_def)
  then show ?thesis unfolding smart_score_def Let_def using assms
    by (intro f64_mono order.refl) simp_all
qed

section \<open>What a selection promises\<close>

text \<open>The checks of a candidate, one by one.\<close>

fun fails_check :: "AccountCandidate \<Rightarrow> AccountSelectionContext \<Rightarrow> AccountSchedulingBlocker \<Rightarrow> bool" where
  "fails_check c ctx OutsideClientScope \<longleftrightarrow> (\<exists>scope. ctx_account_scope ctx = Some scope \<and> \<not> allows scope (cand_id c))"
| "fails_check c ctx LocalAvailability \<longleftrightarrow>
     ctx_eligibility ctx \<noteq> BypassForDiagnostic
     \<and> status (status_projection (cand_account c) (ctx_now ctx) (sig_cooldown (cand_signals c))) \<noteq> Normal"
| "fails_check c ctx Excluded \<longleftrightarrow> cand_id c \<in> ctx_excluded_accounts ctx"
| "fails_check c ctx ConcurrencyLimit \<longleftrightarrow>
     (\<exists>limit. concurrency_limit
                (excluding_reserved (effective_concurrency (cand_account c) (policy_max_concurrent (ctx_policy ctx)))
                   (reserved_concurrency ctx)) = Some limit
        \<and> limit \<le> in_flight (cand_signals c))"
| "fails_check c ctx RequestInterval \<longleftrightarrow>
     (\<exists>started. last_started_at (cand_signals c) = Some started
        \<and> ctx_now ctx < started + int (policy_request_interval (ctx_policy ctx)))"
| "fails_check c ctx LowerWeight \<longleftrightarrow> False"

definition may_be_scheduled :: "AccountCandidate \<Rightarrow> AccountSelectionContext \<Rightarrow> bool" where
  "may_be_scheduled c ctx \<longleftrightarrow> (\<forall>b. \<not> fails_check c ctx b)"

text \<open>The first candidate with the id of the preferred account.\<close>

definition requested_candidate :: "AccountCandidate list \<Rightarrow> AccountSelectionContext \<Rightarrow> AccountCandidate option" where
  "requested_candidate cs ctx = Option.bind (ctx_preferred_account ctx) (\<lambda>i. List.find (\<lambda>c. cand_id c = i) cs)"

definition weights_outrank :: "AccountCandidate list \<Rightarrow> AccountSelectionContext \<Rightarrow> AccountCandidate \<Rightarrow> bool" where
  "weights_outrank cs ctx c \<longleftrightarrow>
     (\<not> preferred_account_overrides_weight ctx
        \<or> policy_strategy (ctx_policy ctx) = Smart \<and> cfg_prefer_higher_weight (policy_smart_scheduling (ctx_policy ctx)))
     \<and> (\<exists>d \<in> set cs. may_be_scheduled d ctx \<and> cand_weight c < cand_weight d)"

definition best_tier :: "AccountCandidate list \<Rightarrow> AccountSelectionContext \<Rightarrow> AccountCandidate list" where
  "best_tier cs ctx =
     filter (\<lambda>c. may_be_scheduled c ctx
               \<and> (\<forall>d \<in> set cs. may_be_scheduled d ctx \<longrightarrow> cand_weight d \<le> cand_weight c)) cs"

text \<open>What a strategy chooses from a tier: the next one in the order of the ids, a next one of those near the best
  score, the one whose quota comes back first (then the least loaded, then the longest idle), or the one used last.\<close>

definition chosen_by_strategy ::
  "AccountSelectionContext \<Rightarrow> AccountCandidate list \<Rightarrow> AccountCandidate \<Rightarrow> bool" where
  "chosen_by_strategy ctx tier d \<longleftrightarrow> d \<in> set tier \<and>
     (case policy_strategy (ctx_policy ctx) of
        RoundRobin \<Rightarrow> d = sort_key cand_id tier ! (round_robin_cursor ctx mod length tier)
      | Smart \<Rightarrow>
          (let best = near_best tier (policy_max_concurrent (ctx_policy ctx))
                        (policy_smart_scheduling (ctx_policy ctx)) (ctx_now ctx)
           in d = sort_key cand_id best ! (round_robin_cursor ctx mod length best))
      | QuotaResetPriority \<Rightarrow>
          (let reset = \<lambda>c. sig_quota_reset_at (cand_signals c);
               used = \<lambda>c. capacity_utilization c (policy_max_concurrent (ctx_policy ctx));
               started = \<lambda>c. last_started_at (cand_signals c)
           in \<forall>c \<in> set tier. (reset d = None, reset d, used d, started d, cand_id d)
                \<le> (reset c = None, reset c, used c, started c, cand_id c))
      | Sticky \<Rightarrow>
          \<forall>c \<in> set tier. last_started_at (cand_signals c) < last_started_at (cand_signals d)
            \<or> last_started_at (cand_signals c) = last_started_at (cand_signals d) \<and> cand_id d \<le> cand_id c)"

lemma blocker_reason: "scheduling_blocker c ctx = Some b \<Longrightarrow> fails_check c ctx b"
  by (auto simp: scheduling_blocker_def bypasses_local_eligibility_def is_some_and_iff ctx_concurrency_limit_def
      duration_since_eq_Some not_le split: if_splits)

lemma blocker_scheduled: "scheduling_blocker c ctx = None \<longleftrightarrow> may_be_scheduled c ctx"
proof
  assume "scheduling_blocker c ctx = None"
  then have "\<not> fails_check c ctx b" for b
    by (cases b) (auto simp: blocker_None_iff is_none_or_iff ctx_concurrency_limit_def not_le not_less)
  then show "may_be_scheduled c ctx" by (simp add: may_be_scheduled_def)
next
  assume "may_be_scheduled c ctx"
  then show "scheduling_blocker c ctx = None"
    using blocker_reason by (cases "scheduling_blocker c ctx") (auto simp: may_be_scheduled_def)
qed

lemma policy_candidates_scheduled: "policy_candidates cs ctx = filter (\<lambda>c. may_be_scheduled c ctx) cs"
  by (simp add: policy_candidates_def blocker_scheduled)

lemma top_tier_best: "top_tier cs ctx = best_tier cs ctx"
proof -
  have "cand_weight c = Max (cand_weight ` {d \<in> set cs. may_be_scheduled d ctx})
      \<longleftrightarrow> (\<forall>d \<in> set cs. may_be_scheduled d ctx \<longrightarrow> cand_weight d \<le> cand_weight c)"
    if "c \<in> set cs" "may_be_scheduled c ctx" for c
    using that by (subst eq_Max_iff) auto
  then show ?thesis by (auto simp: top_tier_def best_tier_def policy_candidates_scheduled intro!: filter_cong)
qed

lemma select_in_tier_chooses:
  assumes "select_in_tier tier ctx = Some d" "tier \<noteq> []"
  shows "chosen_by_strategy ctx tier d"
proof -
  have mem: "d \<in> set tier" using select_in_tier_mem [OF assms(2), of ctx] assms(1) by auto
  show ?thesis
  proof (cases "policy_strategy (ctx_policy ctx)")
    case Smart
    then show ?thesis using assms mem by (simp add: chosen_by_strategy_def select_in_tier_def select_smart_candidate_eq Let_def)
  next
    case RoundRobin
    then show ?thesis using assms mem by (simp add: chosen_by_strategy_def select_in_tier_def Let_def)
  next
    case QuotaResetPriority
    then have "d = hd (sort_key (\<lambda>c. (sig_quota_reset_at (cand_signals c) = None, sig_quota_reset_at (cand_signals c),
        capacity_utilization c (policy_max_concurrent (ctx_policy ctx)), last_started_at (cand_signals c), cand_id c)) tier)"
      using assms by (simp add: select_in_tier_def first_sorted)
    then have "(sig_quota_reset_at (cand_signals d) = None, sig_quota_reset_at (cand_signals d),
        capacity_utilization d (policy_max_concurrent (ctx_policy ctx)), last_started_at (cand_signals d), cand_id d)
      \<le> (sig_quota_reset_at (cand_signals c) = None, sig_quota_reset_at (cand_signals c),
        capacity_utilization c (policy_max_concurrent (ctx_policy ctx)), last_started_at (cand_signals c), cand_id c)"
      if "c \<in> set tier" for c
      using hd_sort_key_le [OF that, of "\<lambda>c. (sig_quota_reset_at (cand_signals c) = None, sig_quota_reset_at (cand_signals c),
        capacity_utilization c (policy_max_concurrent (ctx_policy ctx)), last_started_at (cand_signals c), cand_id c)"] by simp
    then show ?thesis using QuotaResetPriority mem by (simp add: chosen_by_strategy_def Let_def)
  next
    case Sticky
    then have "d = hd (sort_key (\<lambda>c. (Reverse (last_started_at (cand_signals c)), cand_id c)) tier)"
      using assms by (simp add: select_in_tier_def first_sorted)
    then have "(Reverse (last_started_at (cand_signals d)), cand_id d) \<le> (Reverse (last_started_at (cand_signals c)), cand_id c)"
      if "c \<in> set tier" for c
      using hd_sort_key_le [OF that, of "\<lambda>c. (Reverse (last_started_at (cand_signals c)), cand_id c)"] by simp
    then show ?thesis
      using Sticky mem by (fastforce simp: chosen_by_strategy_def less_eq_prod_def)
  qed
qed

lemma preferred_decision_requested:
  "preferred_decision cs ctx =
     (case requested_candidate cs ctx of
        None \<Rightarrow> (if ctx_preferred_account ctx = None then NotRequested else Missing, None)
      | Some c \<Rightarrow> (case scheduling_blocker c ctx of Some b \<Rightarrow> (Blocked b, None) | None \<Rightarrow> (Hit, Some c)))"
  by (auto simp: preferred_decision_def requested_candidate_def split: option.splits)

lemma higher_weight_scheduled:
  assumes "c \<in> set cs" "may_be_scheduled c ctx"
  shows "cand_weight c < Max (cand_weight ` set (policy_candidates cs ctx))
    \<longleftrightarrow> (\<exists>d \<in> set cs. may_be_scheduled d ctx \<and> cand_weight c < cand_weight d)"
proof -
  have "cand_weight ` set (policy_candidates cs ctx) \<noteq> {}" using assms by (auto simp: policy_candidates_scheduled)
  then show ?thesis by (subst Max_gr_iff) (auto simp: policy_candidates_scheduled)
qed

lemma select_answer:
  assumes "select cs ctx = Some s"
  shows "case requested_candidate cs ctx of
      None \<Rightarrow>
        sel_preferred s = (if ctx_preferred_account ctx = None then NotRequested else Missing)
        \<and> chosen_by_strategy ctx (best_tier cs ctx) (sel_candidate s)
    | Some c \<Rightarrow>
        if \<not> may_be_scheduled c ctx
        then (\<exists>b. sel_preferred s = Blocked b \<and> fails_check c ctx b)
          \<and> chosen_by_strategy ctx (best_tier cs ctx) (sel_candidate s)
        else if weights_outrank cs ctx c
        then sel_preferred s = Blocked LowerWeight
          \<and> chosen_by_strategy ctx (best_tier cs ctx) (sel_candidate s)
        else sel_preferred s = Hit \<and> sel_candidate s = c"
proof -
  have ne: "policy_candidates cs ctx \<noteq> []" using assms select_None by force
  then obtain d where d: "d \<in> set (top_tier cs ctx)" "select_in_tier (top_tier cs ctx) ctx = Some d"
    using tier_choice by metis
  then have chosen: "chosen_by_strategy ctx (best_tier cs ctx) d"
    by (intro select_in_tier_chooses) (auto simp: top_tier_best)
  show ?thesis
  proof (cases "requested_candidate cs ctx")
    case None
    then have "s = \<lparr>sel_candidate = d, sel_preferred = fst (preferred_decision cs ctx), sel_policy_choice = False\<rparr>"
      using assms ne d by (simp add: select_unfold preferred_decision_requested)
    then show ?thesis using None chosen by (simp add: preferred_decision_requested)
  next
    case (Some c)
    then have c: "c \<in> set cs" by (auto simp: requested_candidate_def bind_eq_Some_conv dest: find_Some_in)
    show ?thesis
    proof (cases "scheduling_blocker c ctx")
      case blocked: (Some b)
      then have "s = \<lparr>sel_candidate = d, sel_preferred = Blocked b, sel_policy_choice = False\<rparr>"
        using assms ne d Some by (simp add: select_unfold preferred_decision_requested)
      then show ?thesis
        using Some blocked chosen blocker_reason [OF blocked] blocker_scheduled [of c ctx] by simp
    next
      case None
      then have scheduled: "may_be_scheduled c ctx" by (simp add: blocker_scheduled)
      have "s = (if weights_outrank cs ctx c
          then \<lparr>sel_candidate = d, sel_preferred = Blocked LowerWeight, sel_policy_choice = False\<rparr>
          else \<lparr>sel_candidate = c, sel_preferred = Hit, sel_policy_choice = False\<rparr>)"
        using assms ne d Some None
        by (cases "weights_outrank cs ctx c")
          (auto simp: select_unfold preferred_decision_requested weights_outrank_def higher_weight_scheduled [OF c scheduled]
            split: if_splits)
      then show ?thesis using Some scheduled chosen by simp
    qed
  qed
qed

section \<open>Properties\<close>

definition sample_candidate :: "string \<Rightarrow> nat \<Rightarrow> AccountCandidate" where
  "sample_candidate name busy =
     \<lparr>cand_account = (new_ProviderAccount (ProviderAccountId name) (ProviderKind ''openai'') name None
                       ''oauth'' (CredentialRevision 1) None)\<lparr>account_credential_state := Ready\<rparr>,
      cand_signals =
        \<lparr>in_flight = busy, last_started_at = None, sig_quota_reset_at = None, quota_remaining_rank = None,
         sig_cooldown = None, failure_rate_basis_points = None, first_output_latency_ms = None\<rparr>\<rparr>"

definition sample_context :: "RotationStrategy \<Rightarrow> AccountSelectionContext" where
  "sample_context strategy =
     \<lparr>ctx_policy = new_AccountSelectionPolicy strategy (Limited 4) 0, ctx_now = 0,
      ctx_excluded_accounts = {}, ctx_preferred_account = None,
      preferred_account_overrides_weight = False, round_robin_cursor = 0, ctx_eligibility = Enforce,
      ctx_account_scope = None, reserved_concurrency = 0\<rparr>"

text \<open>C22: a selection answers with an account exactly when one of the candidates may be scheduled: the scope allows
  it, its status is normal (or the request is a diagnosis), it is not excluded, it has a free slot beside the reserved
  ones, and its last request started long enough ago. The preferred account is taken as a hit when it may be scheduled
  and no weight outranks it - also when an account with a higher weight may be scheduled, unless the weights come
  first. In every other case the choice is the one the strategy makes among the accounts of the highest weight that may
  be scheduled, and the answer says what became of the preference, with a check that failed when it was blocked.\<close>

theorem select_exact:
  "(select cs ctx \<noteq> None \<longleftrightarrow> (\<exists>c \<in> set cs. may_be_scheduled c ctx))
   \<and> is_none_or (select cs ctx) (\<lambda>s.
       sel_candidate s \<in> set cs \<and> may_be_scheduled (sel_candidate s) ctx \<and> \<not> sel_policy_choice s
       \<and> (case requested_candidate cs ctx of
            None \<Rightarrow>
              sel_preferred s = (if ctx_preferred_account ctx = None then NotRequested else Missing)
              \<and> chosen_by_strategy ctx (best_tier cs ctx) (sel_candidate s)
          | Some c \<Rightarrow>
              if \<not> may_be_scheduled c ctx
              then (\<exists>b. sel_preferred s = Blocked b \<and> fails_check c ctx b)
                \<and> chosen_by_strategy ctx (best_tier cs ctx) (sel_candidate s)
              else if weights_outrank cs ctx c
              then sel_preferred s = Blocked LowerWeight
                \<and> chosen_by_strategy ctx (best_tier cs ctx) (sel_candidate s)
              else sel_preferred s = Hit \<and> sel_candidate s = c))"
proof (cases "select cs ctx")
  case None
  then show ?thesis using select_None [of cs ctx] by (auto simp: policy_candidates_scheduled filter_empty_conv)
next
  case (Some s)
  have "\<exists>c \<in> set cs. may_be_scheduled c ctx"
    using select_eligible [OF Some] by (auto simp: policy_candidates_scheduled)
  moreover have "sel_candidate s \<in> set cs" "may_be_scheduled (sel_candidate s) ctx" "\<not> sel_policy_choice s"
    using select_eligible [OF Some] by (auto simp: policy_candidates_scheduled)
  ultimately show ?thesis using select_answer [OF Some] by (simp add: Some)
qed

text \<open>The round-robin strategy is fair: over as many consecutive cursor values as the top
  weight tier has accounts, starting anywhere, it selects every account of the tier.\<close>

theorem round_robin_fair:
  assumes "policy_strategy (ctx_policy ctx) = RoundRobin" "tier \<noteq> []"
  shows "(\<lambda>k. select_in_tier tier (ctx\<lparr>round_robin_cursor := start + k\<rparr>)) ` {..<length tier}
         = Some ` set tier"
proof -
  let ?s = "sort_key cand_id tier"
  have "select_in_tier tier (ctx\<lparr>round_robin_cursor := start + k\<rparr>) = Some (?s ! ((start + k) mod length ?s))" for k
    using assms by (simp add: select_in_tier_def Let_def)
  then have "(\<lambda>k. select_in_tier tier (ctx\<lparr>round_robin_cursor := start + k\<rparr>)) ` {..<length tier}
      = Some ` (\<lambda>k. ?s ! ((start + k) mod length ?s)) ` {..<length ?s}"
    by (simp add: image_image)
  also have "\<dots> = Some ` set ?s" using assms(2) by (subst rotation_covers) simp_all
  finally show ?thesis by simp
qed

theorem round_robin_fair_witness:
  "(\<lambda>k. select_in_tier [sample_candidate ''b'' 0, sample_candidate ''a'' 3]
           (sample_context RoundRobin\<lparr>round_robin_cursor := 5 + k\<rparr>)) ` {..<2}
     = {Some (sample_candidate ''b'' 0), Some (sample_candidate ''a'' 3)}"
  using round_robin_fair [where ctx = "sample_context RoundRobin" and start = 5
      and tier = "[sample_candidate ''b'' 0, sample_candidate ''a'' 3]"]
  by (simp add: sample_context_def new_AccountSelectionPolicy_def numeral_2_eq_2)

text \<open>The smart strategy always selects within its tolerance of the best score (as the
  rounded difference it computes), a best candidate is always among those it may select, and as
  the cursor advances it selects each of them.\<close>

theorem smart_rotates_near_best:
  assumes "policy_strategy (ctx_policy ctx) = Smart" "tier \<noteq> []"
  shows "let nb = near_best tier (policy_max_concurrent (ctx_policy ctx))
                    (policy_smart_scheduling (ctx_policy ctx)) (ctx_now ctx)
         in (\<lambda>k. select_in_tier tier (ctx\<lparr>round_robin_cursor := start + k\<rparr>)) ` {..<length nb} = Some ` set nb
            \<and> set nb \<subseteq> set tier
            \<and> (\<exists>c \<in> set nb. \<forall>d \<in> set tier.
                  smart_score d (policy_max_concurrent (ctx_policy ctx))
                    (policy_smart_scheduling (ctx_policy ctx)) (ctx_now ctx)
                  \<le> smart_score c (policy_max_concurrent (ctx_policy ctx))
                    (policy_smart_scheduling (ctx_policy ctx)) (ctx_now ctx))"
proof -
  define nb where "nb = near_best tier (policy_max_concurrent (ctx_policy ctx))
                    (policy_smart_scheduling (ctx_policy ctx)) (ctx_now ctx)"
  define score where "score c = smart_score c (policy_max_concurrent (ctx_policy ctx))
                    (policy_smart_scheduling (ctx_policy ctx)) (ctx_now ctx)" for c
  let ?s = "sort_key cand_id nb"
  have ne: "nb \<noteq> []" using near_best_nonempty [OF assms(2)] by (simp add: nb_def)
  have "select_in_tier tier (ctx\<lparr>round_robin_cursor := start + k\<rparr>) = Some (?s ! ((start + k) mod length ?s))" for k
    using assms by (simp add: select_in_tier_def select_smart_candidate_eq nb_def)
  then have "(\<lambda>k. select_in_tier tier (ctx\<lparr>round_robin_cursor := start + k\<rparr>)) ` {..<length nb}
      = Some ` (\<lambda>k. ?s ! ((start + k) mod length ?s)) ` {..<length ?s}"
    by (simp add: image_image)
  also have "\<dots> = Some ` set ?s" using ne by (subst rotation_covers) simp_all
  finally have rot: "(\<lambda>k. select_in_tier tier (ctx\<lparr>round_robin_cursor := start + k\<rparr>)) ` {..<length nb}
      = Some ` set nb" by simp
  have "Max (score ` set tier) \<in> score ` set tier" using assms(2) by (intro Max_in) auto
  then obtain c where c: "c \<in> set tier" "\<forall>d \<in> set tier. score d \<le> score c" by (metis (no_types, lifting) Max_ge finite_imageI finite_set imageE imageI)
  then have "c \<in> set nb" unfolding nb_def score_def by (rule best_is_near_best)
  then show ?thesis
    using rot c(2) near_best_subset unfolding Let_def nb_def [symmetric] score_def [symmetric]
    by (auto simp: nb_def)
qed

theorem smart_rotates_near_best_witness:
  "select_in_tier [sample_candidate ''a'' 3] (sample_context Smart) \<in> Some ` {sample_candidate ''a'' 3}"
proof -
  let ?t = "[sample_candidate ''a'' 3]" and ?ctx = "sample_context Smart"
  let ?nb = "near_best ?t (policy_max_concurrent (ctx_policy ?ctx))
                    (policy_smart_scheduling (ctx_policy ?ctx)) (ctx_now ?ctx)"
  have "policy_strategy (ctx_policy ?ctx) = Smart"
    by (simp add: sample_context_def new_AccountSelectionPolicy_def)
  note rot = smart_rotates_near_best [OF this, of ?t 0, unfolded Let_def]
  have "0 < length ?nb" using near_best_nonempty [of ?t] by simp
  then have "select_in_tier ?t (?ctx\<lparr>round_robin_cursor := 0 + 0\<rparr>) \<in> Some ` set ?nb"
    using rot by blast
  moreover have "?ctx\<lparr>round_robin_cursor := 0 + 0\<rparr> = ?ctx" by (simp add: sample_context_def)
  ultimately show ?thesis using rot by auto
qed

text \<open>the smart score rewards every improvement and never punishes one: an account with the
  same limit whose signals are no worse than another's scores at least as high, in the rounded
  arithmetic the gateway computes with.\<close>

theorem smart_score_monotone:
  assumes "no_worse now (cand_signals c) (cand_signals c')"
    and "account_concurrency_limit (cand_account c') = account_concurrency_limit (cand_account c)"
    and "account_ok (cand_account c)" "concurrency_ok dc" "config_ok config"
    and "is_none_or (remaining_to_reset (cand_signals c') now) (\<lambda>r. r < from_secs (2 ^ 53))"
  shows "smart_score c dc config now \<le> smart_score c' dc config now"
proof (rule smart_score_mono)
  let ?s = "cand_signals c" and ?s' = "cand_signals c'"
  have nw: "in_flight ?s' \<le> in_flight ?s"
    "unwrap_or (quota_remaining_rank ?s) 5000 \<le> unwrap_or (quota_remaining_rank ?s') 5000"
    "unwrap_or (failure_rate_basis_points ?s') 0 \<le> unwrap_or (failure_rate_basis_points ?s) 0"
    "unwrap_or (first_output_latency_ms ?s') 0 \<le> unwrap_or (first_output_latency_ms ?s) 0"
    "case remaining_to_reset ?s now of None \<Rightarrow> True
        | Some r \<Rightarrow> is_some_and (remaining_to_reset ?s' now) (\<lambda>r'. r' \<le> r)"
    using assms(1) by (simp_all add: no_worse_def)
  show "load_score c dc \<le> load_score c' dc" unfolding load_score_def
    using utilization_mono [OF assms(2) nw(1) assms(3,4)] by (intro f64_mono) auto
  show "quota_score ?s \<le> quota_score ?s'" unfolding quota_score_eq
    using nw(2) by (intro f64_mono f64_of_nat_mono) auto
  show "health_score ?s \<le> health_score ?s'" unfolding health_score_def
    using nw(3) by (intro f64_mono f64_of_nat_mono) auto
  show "latency_score ?s \<le> latency_score ?s'" unfolding latency_score_eq
    using nw(4) half_score_pos by (intro f64_mono f64_of_nat_mono) (auto simp: SMART_LATENCY_HALF_SCORE_MS_def)
  show "reset_score ?s now \<le> reset_score ?s' now" by (rule reset_score_mono [OF nw(5) assms(6)])
  show "0 \<le> load_score c dc" unfolding load_score_def using f64_clamp_bounds [of 0 1] by simp
  show "0 \<le> quota_score ?s" by (simp add: quota_score_eq)
  have "f64_of_nat (min (unwrap_or (failure_rate_basis_points ?s) 0) 10000) \<le> 10000"
    using f64_of_nat_mono [of _ 10000] by (simp add: f64_of_nat_exact min_le_iff_disj)
  then show "0 \<le> health_score ?s"
    unfolding health_score_def fdiv_def by (intro f64_op_nonneg f64_round_le_1) simp
  show "0 \<le> latency_score ?s"
    using half_score_pos by (simp add: latency_score_eq SMART_LATENCY_HALF_SCORE_MS_def less_imp_le)
  show "0 \<le> reset_score ?s now"
    by (simp add: reset_score_def SMART_RESET_HALF_SCORE_SECONDS_def split: option.splits)
qed (rule assms(5))

theorem smart_score_monotone_witness:
  "smart_score (sample_candidate ''a'' 3) (Limited 4) default_SmartSchedulingConfig 0
     \<le> smart_score (sample_candidate ''b'' 1) (Limited 4) default_SmartSchedulingConfig 0"
  by (rule smart_score_monotone)
    (simp_all add: sample_candidate_def no_worse_def new_ProviderAccount_def account_ok_def concurrency_ok_def
      config_ok_def default_SmartSchedulingConfig_def remaining_to_reset_def AccountWeight_DEFAULT_def
      AccountWeight_MAX_def)

lemma add_capacity_exact:
  assumes "add_capacity ctx cs (u, t) = Some (u', t')"
    and "t + (\<Sum>c\<leftarrow>cs. unwrap_or (concurrency_limit (ctx_concurrency_limit ctx (cand_account c))) 0) < 2 ^ 64"
  shows "t' = t + (\<Sum>c\<leftarrow>cs. unwrap_or (concurrency_limit (ctx_concurrency_limit ctx (cand_account c))) 0)"
  using assms
proof (induction ctx cs "(u, t)" arbitrary: u t rule: add_capacity.induct)
  case (2 ctx c cs u t)
  then obtain k where k: "concurrency_limit (ctx_concurrency_limit ctx (cand_account c)) = Some k"
    by (auto split: option.splits)
  then have "saturating_add_u 64 t k = t + k" using 2 by (intro saturating_add_u_exact) simp
  then show ?case using 2 k by (simp add: add.assoc)
qed simp

text \<open>The capacity snapshot shown to observers is consistent: it counts at least one slot and
  never more used slots than slots, also after the current request has been added, and while the
  sums fit 64 bits it is the exact sum over the counted accounts.\<close>

theorem capacity_snapshot_consistent:
  assumes "capacity_snapshot cs ctx = Some s"
  shows "0 < total_slots s \<and> used_slots s \<le> total_slots s
         \<and> used_slots (with_acquired_request s) \<le> total_slots (with_acquired_request s)
         \<and> (let counted = filter (\<lambda>c. scheduling_blocker c ctx
                  \<notin> {Some OutsideClientScope, Some LocalAvailability, Some Excluded}) cs;
                slots = (\<Sum>c\<leftarrow>counted. unwrap_or (concurrency_limit (ctx_concurrency_limit ctx (cand_account c))) 0)
            in if slots < 2 ^ 64 then total_slots s = slots else True)"
proof -
  define counted where "counted = filter (\<lambda>c. scheduling_blocker c ctx
                  \<notin> {Some OutsideClientScope, Some LocalAvailability, Some Excluded}) cs"
  obtain u t where ut: "add_capacity ctx counted (0, 0) = Some (u, t)" "0 < t"
    "s = \<lparr>used_slots = min u t, total_slots = t\<rparr>"
    using assms by (auto simp: capacity_snapshot_def counted_def split: option.splits if_splits)
  then show ?thesis
    using add_capacity_exact [OF ut(1)]
    unfolding Let_def counted_def [symmetric] by (simp add: with_acquired_request_def)
qed

theorem capacity_snapshot_consistent_witness:
  "\<exists>s. capacity_snapshot [sample_candidate ''a'' 3] (sample_context RoundRobin) = Some s
     \<and> total_slots s = 4 \<and> used_slots s \<le> total_slots s"
proof -
  have snap: "capacity_snapshot [sample_candidate ''a'' 3] (sample_context RoundRobin)
      = Some \<lparr>used_slots = 3, total_slots = 4\<rparr>"
    by (simp add: capacity_snapshot_def scheduling_blocker_def sample_context_def sample_candidate_def
        new_AccountSelectionPolicy_def new_ProviderAccount_def ctx_concurrency_limit_def
        effective_concurrency_def status_projection_def resolve_account_status_def
        bypasses_local_eligibility_def credential_error_def quota_unknown_def is_exhausted_def plain_projection_def saturating_add_u_def)
  from capacity_snapshot_consistent [OF snap] snap show ?thesis by auto
qed

text \<open>only local capacity makes a request wait. The accounts it may wait for are exactly those
  that are free now or blocked by nothing but their concurrency limit or request interval, the
  preferred account first, then by descending weight, then by id.\<close>

theorem wait_candidates_exact:
  "set (wait_candidates cs ctx) =
     cand_id ` {c \<in> set cs. scheduling_blocker c ctx \<in> {None, Some ConcurrencyLimit, Some RequestInterval}}
   \<and> (\<exists>sorted. wait_candidates cs ctx = map cand_id sorted
        \<and> sorted_wrt (\<lambda>c d. (ctx_preferred_account ctx \<noteq> Some (cand_id c), Reverse (cand_weight c), cand_id c)
                          \<le> (ctx_preferred_account ctx \<noteq> Some (cand_id d), Reverse (cand_weight d), cand_id d)) sorted)"
proof -
  define f where "f = (\<lambda>c. (ctx_preferred_account ctx \<noteq> Some (cand_id c), Reverse (cand_weight c), cand_id c))"
  have eq: "wait_candidates cs ctx = map cand_id (sort_key f
      (filter (\<lambda>c. scheduling_blocker c ctx \<in> {None, Some ConcurrencyLimit, Some RequestInterval}) cs))"
    by (simp only: wait_candidates_def f_def)
  have "sorted_wrt (\<lambda>c d. f c \<le> f d) (sort_key f
      (filter (\<lambda>c. scheduling_blocker c ctx \<in> {None, Some ConcurrencyLimit, Some RequestInterval}) cs))"
    using sorted_sort_key [of f] by (simp add: sorted_map)
  then show ?thesis unfolding eq by (auto simp: f_def)
qed

end
