(* ===== verification/Connection_Budget.thy ===== *)
theory Connection_Budget
  imports Prelude "HOL-Library.Word"
begin

text \<open>
  \<open>gateway-core/src/engine/connection.rs\<close>: the budget a request may spend on opening upstream
  connections before anything is known to be sent. The mutex makes every method atomic; the clock
  is passed as the instants a method reads, in the order it reads them. The jitter hash is computed
  in wrapping 64-bit arithmetic on \<open>64 word\<close>.

  The laws a client of the budget relies on are the locale \<open>opening_budget\<close>: granted openings are
  counted, bounded, and granted only inside the startup window. It is interpreted on the model.
\<close>

definition MAX_OPENINGS :: nat where "MAX_OPENINGS = 4"

definition STARTUP_TIMEOUT :: duration where "STARTUP_TIMEOUT = from_secs 30"

record ConnectionState =
  conn_started :: "system_time option"
  conn_openings :: nat
  conn_completed :: bool

definition default_connection :: ConnectionState where
  "default_connection = \<lparr>conn_started = None, conn_openings = 0, conn_completed = False\<rparr>"

text \<open>\<open>Instant::saturating_duration_since\<close>, and the window that is left at \<open>now\<close>.\<close>

definition saturating_since :: "system_time \<Rightarrow> system_time \<Rightarrow> duration" where
  "saturating_since now earlier = unwrap_or (duration_since now earlier) 0"

datatype ConnectionBudgetExhausted = ConnectionBudgetExhausted

definition conn_begin ::
  "system_time \<Rightarrow> system_time \<Rightarrow> ConnectionState
     \<Rightarrow> (ConnectionBudgetExhausted + duration option) \<times> ConnectionState" where
  "conn_begin now0 now1 st =
     (if conn_completed st then (Ok None, st)
      else
        let started = unwrap_or (conn_started st) now0;
            st1 = st\<lparr>conn_started := Some started\<rparr>;
            remaining = STARTUP_TIMEOUT - saturating_since now1 started
        in if conn_openings st1 \<ge> MAX_OPENINGS \<or> remaining = 0
           then (Err ConnectionBudgetExhausted, st1)
           else (Ok (Some remaining), st1\<lparr>conn_openings := conn_openings st1 + 1\<rparr>))"

definition conn_complete :: "ConnectionState \<Rightarrow> ConnectionState" where
  "conn_complete st = st\<lparr>conn_completed := True\<rparr>"

definition conn_remaining :: "system_time \<Rightarrow> ConnectionState \<Rightarrow> duration option" where
  "conn_remaining now st =
     (if conn_completed st \<or> conn_openings st \<ge> MAX_OPENINGS then None
      else
        let remaining = (case conn_started st of
                           None \<Rightarrow> STARTUP_TIMEOUT
                         | Some started \<Rightarrow> STARTUP_TIMEOUT - saturating_since now started)
        in if remaining \<noteq> 0 then Some remaining else None)"

definition conn_exhausted :: "system_time \<Rightarrow> ConnectionState \<Rightarrow> bool" where
  "conn_exhausted now st \<longleftrightarrow>
     \<not> conn_completed st
     \<and> (conn_openings st \<ge> MAX_OPENINGS
        \<or> is_some_and (conn_started st) (\<lambda>started. saturating_since now started \<ge> STARTUP_TIMEOUT))"

definition startup_remaining :: "system_time \<Rightarrow> ConnectionState \<Rightarrow> duration option" where
  "startup_remaining now st =
     (if conn_completed st then None
      else map_option (\<lambda>started. STARTUP_TIMEOUT - saturating_since now started) (conn_started st))"

definition jitter_hash :: "nat \<Rightarrow> string \<Rightarrow> 64 word" where
  "jitter_hash retries request_id =
     foldl (\<lambda>hash byte. hash * 31 + word_of_nat (of_char byte)) (word_of_nat retries) request_id"

definition retry_delay :: "system_time \<Rightarrow> nat \<Rightarrow> string \<Rightarrow> ConnectionState \<Rightarrow> duration option" where
  "retry_delay now retries request_id st =
     (if retries \<ge> MAX_OPENINGS - 1 then None
      else
        case conn_remaining now st of
          None \<Rightarrow> None
        | Some remaining \<Rightarrow>
            let delay = from_millis
                  (push_bit retries 500 * (80 + unat (jitter_hash retries request_id) mod 41) div 100)
            in if delay < remaining then Some delay else None)"


section \<open>The contract of a budget\<close>

text \<open>A history of openings (with the instants they read) and completions, and the number of
  openings it was granted.\<close>

fun opening_history ::
  "(system_time \<Rightarrow> system_time \<Rightarrow> 's \<Rightarrow> ('e + duration option) \<times> 's) \<Rightarrow> ('s \<Rightarrow> 's)
     \<Rightarrow> (system_time \<times> system_time) option list \<Rightarrow> 's \<Rightarrow> nat \<times> 's" where
  "opening_history open_at finish [] s = (0, s)"
| "opening_history open_at finish (None # es) s = opening_history open_at finish es (finish s)"
| "opening_history open_at finish (Some (t, t') # es) s =
     (case open_at t t' s of
        (Inr (Some _), s') \<Rightarrow> (case opening_history open_at finish es s' of (n, s'') \<Rightarrow> (Suc n, s''))
      | (_, s') \<Rightarrow> opening_history open_at finish es s')"

locale opening_budget =
  fixes inv :: "'s \<Rightarrow> bool"
    and openings :: "'s \<Rightarrow> nat"
    and completed :: "'s \<Rightarrow> bool"
    and window_end :: "'s \<Rightarrow> system_time option"
    and open_at :: "system_time \<Rightarrow> system_time \<Rightarrow> 's \<Rightarrow> ('e + duration option) \<times> 's"
    and finish :: "'s \<Rightarrow> 's"
    and bound :: nat
  assumes open_inv: "inv s \<Longrightarrow> inv (snd (open_at t t' s))"
    and finish_inv: "inv s \<Longrightarrow> inv (finish s)"
    and bounded: "inv s \<Longrightarrow> openings s \<le> bound"
    and granted: "inv s \<Longrightarrow> fst (open_at t t' s) = Inr (Some d)
          \<Longrightarrow> openings (snd (open_at t t' s)) = Suc (openings s)
            \<and> window_end (snd (open_at t t' s)) \<noteq> None
            \<and> t' + int d \<le> max t' (the (window_end (snd (open_at t t' s)))) \<and> 0 < d"
    and refused: "inv s \<Longrightarrow> \<not> (\<exists>d. fst (open_at t t' s) = Inr (Some d)) \<Longrightarrow> openings (snd (open_at t t' s)) = openings s"
    and finish_openings: "openings (finish s) = openings s"
begin

lemma history_counts:
  assumes "inv s"
  shows "inv (snd (opening_history open_at finish es s)) \<and> openings (snd (opening_history open_at finish es s)) = openings s + fst (opening_history open_at finish es s)"
  using assms
proof (induction es arbitrary: s)
  case (Cons e es)
  show ?case
  proof (cases e)
    case None
    then show ?thesis using Cons by (simp add: finish_inv finish_openings)
  next
    case (Some tt)
    obtain t t' where e: "e = Some (t, t')" using Some by (cases tt) auto
    obtain r s' where step: "open_at t t' s = (r, s')" by fastforce
    have inv': "inv s'" using open_inv [OF Cons.prems, of t t'] step by simp
    note IH = Cons.IH [OF inv']
    show ?thesis
    proof (cases "\<exists>d. r = Inr (Some d)")
      case True
      then obtain d where r: "r = Inr (Some d)" by blast
      have "openings s' = Suc (openings s)" using granted [OF Cons.prems, of t t' d] step r by simp
      then show ?thesis using IH by (simp add: e step r split_beta)
    next
      case False
      have "openings s' = openings s" using refused [OF Cons.prems, of t t'] step False by simp
      moreover have "opening_history open_at finish (e # es) s = opening_history open_at finish es s'"
        using False by (simp add: e step split: sum.splits option.splits)
      ultimately show ?thesis using IH by simp
    qed
  qed
qed simp

lemma history_bounded: "inv s \<Longrightarrow> openings s + fst (opening_history open_at finish es s) \<le> bound"
  using history_counts bounded by metis

end


definition connection_ok :: "ConnectionState \<Rightarrow> bool" where
  "connection_ok st \<longleftrightarrow> conn_openings st \<le> MAX_OPENINGS"

definition connection_window_end :: "ConnectionState \<Rightarrow> system_time option" where
  "connection_window_end st = map_option (\<lambda>s. s + int STARTUP_TIMEOUT) (conn_started st)"

lemma saturating_since_simps: "saturating_since now s = nat (now - s)"
  by (auto simp: saturating_since_def duration_since_def)

interpretation connection_budget: opening_budget
  connection_ok conn_openings conn_completed connection_window_end conn_begin conn_complete MAX_OPENINGS
proof unfold_locales
  fix st t t' d
  show "connection_ok st \<Longrightarrow> connection_ok (snd (conn_begin t t' st))"
    by (simp add: connection_ok_def conn_begin_def Let_def)
  show "connection_ok st \<Longrightarrow> connection_ok (conn_complete st)"
    by (simp add: connection_ok_def conn_complete_def)
  show "connection_ok st \<Longrightarrow> conn_openings st \<le> MAX_OPENINGS" by (simp add: connection_ok_def)
  show "connection_ok st \<Longrightarrow> \<not> (\<exists>d. fst (conn_begin t t' st) = Inr (Some d))
      \<Longrightarrow> conn_openings (snd (conn_begin t t' st)) = conn_openings st"
    by (auto simp: conn_begin_def Let_def split: if_splits)
  show "conn_openings (conn_complete st) = conn_openings st" by (simp add: conn_complete_def)
  assume "fst (conn_begin t t' st) = Inr (Some d)"
  then show "conn_openings (snd (conn_begin t t' st)) = Suc (conn_openings st)
      \<and> connection_window_end (snd (conn_begin t t' st)) \<noteq> None
      \<and> t' + int d \<le> max t' (the (connection_window_end (snd (conn_begin t t' st)))) \<and> 0 < d"
    by (auto simp: conn_begin_def Let_def connection_window_end_def saturating_since_simps split: if_splits)
qed

lemma jitter_bounds:
  "400 * 2 ^ r \<le> push_bit r 500 * (80 + h mod 41) div (100::nat)
   \<and> push_bit r 500 * (80 + h mod 41) div (100::nat) \<le> 600 * 2 ^ r"
proof -
  have "h mod 41 \<le> 40" using mod_less_divisor [of 41 h] by simp
  have eq: "push_bit r 500 * (80 + h mod 41) div (100::nat) = 5 * 2 ^ r * (80 + h mod 41)"
  proof -
    have "push_bit r 500 * (80 + h mod 41) = 100 * (5 * 2 ^ r * (80 + h mod 41))"
      by (simp add: push_bit_eq_mult)
    then show ?thesis by (simp only: nonzero_mult_div_cancel_left)
  qed
  have "(80::nat) \<le> 80 + h mod 41" "80 + h mod 41 \<le> 120" using \<open>h mod 41 \<le> 40\<close> by simp_all
  then have "5 * 2 ^ r * 80 \<le> 5 * 2 ^ r * (80 + h mod 41)" "5 * 2 ^ r * (80 + h mod 41) \<le> 5 * 2 ^ r * 120"
    by (simp_all only: mult_le_mono2)
  then show ?thesis unfolding eq by simp
qed


section \<open>Properties\<close>

text \<open>However a request interleaves connection openings and the confirmation that it was sent,
  across accounts, transports and internal retries, it is granted at most four openings, and every
  opening it is granted ends within thirty seconds of its first.\<close>

theorem connection_openings_bounded:
  "fst (opening_history conn_begin conn_complete es default_connection) \<le> 4
   \<and> (case conn_begin t t' (snd (opening_history conn_begin conn_complete es default_connection)) of
        (Inr (Some d), st') \<Rightarrow>
          is_some_and (conn_started st') (\<lambda>s. 0 < d \<and> t' + int d \<le> max t' (s + int (from_secs 30)))
      | _ \<Rightarrow> True)"
proof -
  have ok: "connection_ok default_connection" by (simp add: connection_ok_def default_connection_def)
  have "fst (opening_history conn_begin conn_complete es default_connection) \<le> 4"
    using connection_budget.history_bounded [OF ok, of es]
    by (simp add: default_connection_def MAX_OPENINGS_def)
  moreover have "connection_ok (snd (opening_history conn_begin conn_complete es default_connection))"
    using connection_budget.history_counts [OF ok] by blast
  ultimately show ?thesis
    using connection_budget.granted [of "snd (opening_history conn_begin conn_complete es default_connection)" t t']
    by (auto simp: connection_window_end_def STARTUP_TIMEOUT_def split: prod.splits sum.splits option.splits)
qed

text \<open>A connection retry waits between 80% and 120% of 500, 1000 or 2000 milliseconds, whatever
  the request id hashes to, never longer than the startup window that is left, and there are at
  most three of them.\<close>

theorem retry_delay_bounds:
  assumes "retry_delay now retries request_id st = Some d"
  shows "retries < 3 \<and> from_millis (400 * 2 ^ retries) \<le> d \<and> d \<le> from_millis (600 * 2 ^ retries)
         \<and> \<not> conn_completed st \<and> \<not> conn_exhausted now st \<and> d < STARTUP_TIMEOUT"
proof -
  from assms obtain remaining where r: "retries < 3" "conn_remaining now st = Some remaining" "d < remaining"
    and d: "d = from_millis (push_bit retries 500 * (80 + unat (jitter_hash retries request_id) mod 41) div 100)"
    by (auto simp: retry_delay_def MAX_OPENINGS_def Let_def split: if_splits option.splits)
  have "remaining \<le> STARTUP_TIMEOUT" "\<not> conn_completed st" "\<not> conn_exhausted now st"
    using r(2) by (auto simp: conn_remaining_def conn_exhausted_def Let_def split: if_splits option.splits)
  then show ?thesis
    using r jitter_bounds [of retries "unat (jitter_hash retries request_id)"]
    by (auto simp: d from_millis_def)
qed

theorem retry_delay_bounds_witness:
  "\<exists>d. retry_delay 0 0 ''r'' default_connection = Some d \<and> d = from_millis 560
     \<and> from_millis 400 \<le> d \<and> d \<le> from_millis 600"
proof -
  have "retry_delay 0 0 ''r'' default_connection = Some (from_millis 560)"
    by (simp add: retry_delay_def jitter_hash_def default_connection_def conn_remaining_def
        MAX_OPENINGS_def STARTUP_TIMEOUT_def from_millis_def from_secs_def NANOS_PER_SEC_def Let_def)
  from retry_delay_bounds [OF this] this show ?thesis by auto
qed

end
