(* ===== verification/Provider_Error.thy ===== *)
theory Provider_Error
  imports Rust_Text
begin

text \<open>
  \<open>gateway-core/src/error.rs\<close> and \<open>UpstreamSendState\<close> of \<open>upstream.rs\<close>: the stable failure a
  provider reports, the recovery it asks for, and the client-facing error it becomes. \<open>Box\<close> is
  invisible; the two boxed groups of optional values are records. The protocol events an error may
  carry are a type parameter. \<open>with_io_cause\<close> walks an error chain of the standard library and is
  modelled on the list of the chain's I/O error kinds.

  The send state carries the lattice order \<open>NotSent < Ambiguous < Sent\<close> that
  \<open>escalate_send_state\<close> of the coordinator computes joins in; it is an instance of \<open>linorder\<close>.
\<close>

section \<open>Send state\<close>

datatype UpstreamSendState = NotSent | Sent | Ambiguous

fun UpstreamSendState_as_str :: "UpstreamSendState \<Rightarrow> string" where
  "UpstreamSendState_as_str NotSent = ''not_sent''"
| "UpstreamSendState_as_str Sent = ''sent''"
| "UpstreamSendState_as_str Ambiguous = ''ambiguous''"

fun escalate_send_state :: "UpstreamSendState \<Rightarrow> UpstreamSendState \<Rightarrow> UpstreamSendState" where
  "escalate_send_state Sent b = Sent"
| "escalate_send_state a Sent = Sent"
| "escalate_send_state Ambiguous b = Ambiguous"
| "escalate_send_state a Ambiguous = Ambiguous"
| "escalate_send_state NotSent NotSent = NotSent"

fun send_rank :: "UpstreamSendState \<Rightarrow> nat" where
  "send_rank NotSent = 0"
| "send_rank Ambiguous = 1"
| "send_rank Sent = 2"

instantiation UpstreamSendState :: linorder
begin

definition less_eq_UpstreamSendState :: "UpstreamSendState \<Rightarrow> UpstreamSendState \<Rightarrow> bool" where
  "less_eq_UpstreamSendState a b = (send_rank a \<le> send_rank b)"

definition less_UpstreamSendState :: "UpstreamSendState \<Rightarrow> UpstreamSendState \<Rightarrow> bool" where
  "less_UpstreamSendState a b = (send_rank a < send_rank b)"

instance
proof
  fix a b :: UpstreamSendState
  show "a \<le> b \<Longrightarrow> b \<le> a \<Longrightarrow> a = b"
    by (cases a; cases b) (simp_all add: less_eq_UpstreamSendState_def)
qed (auto simp: less_eq_UpstreamSendState_def less_UpstreamSendState_def)

end

lemma send_order [simp]:
  "NotSent \<le> s" "s \<le> Sent" "Sent \<le> s \<longleftrightarrow> s = Sent" "s \<le> NotSent \<longleftrightarrow> s = NotSent"
  "Ambiguous \<le> s \<longleftrightarrow> s \<noteq> NotSent" "s \<le> Ambiguous \<longleftrightarrow> s \<noteq> Sent"
  by (cases s; simp add: less_eq_UpstreamSendState_def)+

lemma escalate_is_max: "escalate_send_state a b = max a b"
  by (cases a; cases b) (simp_all add: max_def)


section \<open>Failure kinds and recovery requests\<close>

datatype ProviderErrorKind =
    PkInvalidRequest
  | PkContinuationRecoveryRequired
  | PkUnsupported
  | PkUnauthorized
  | PkPermissionDenied
  | PkRequestPolicyDenied
  | PkRateLimited
  | PkQuotaExhausted
  | PkAccountCapacityUnavailable
  | PkConcurrencyQueueFull
  | PkConcurrencyQueueTimeout
  | PkNoEligibleAccount
  | PkProviderInfrastructureUnavailable
  | PkTimeout
  | PkTransport
  | PkProtocol
  | PkMessageTooBig
  | PkUnavailable
  | PkUpstreamCapacityUnavailable
  | PkCancelled
  | PkProcessTerminated

fun ProviderErrorKind_as_str :: "ProviderErrorKind \<Rightarrow> string" where
  "ProviderErrorKind_as_str PkInvalidRequest = ''invalid_request''"
| "ProviderErrorKind_as_str PkContinuationRecoveryRequired = ''continuation_recovery_required''"
| "ProviderErrorKind_as_str PkUnsupported = ''unsupported''"
| "ProviderErrorKind_as_str PkUnauthorized = ''unauthorized''"
| "ProviderErrorKind_as_str PkPermissionDenied = ''permission_denied''"
| "ProviderErrorKind_as_str PkRequestPolicyDenied = ''request_policy_denied''"
| "ProviderErrorKind_as_str PkRateLimited = ''rate_limited''"
| "ProviderErrorKind_as_str PkQuotaExhausted = ''quota_exhausted''"
| "ProviderErrorKind_as_str PkAccountCapacityUnavailable = ''account_capacity_unavailable''"
| "ProviderErrorKind_as_str PkConcurrencyQueueFull = ''concurrency_queue_full''"
| "ProviderErrorKind_as_str PkConcurrencyQueueTimeout = ''concurrency_queue_timeout''"
| "ProviderErrorKind_as_str PkNoEligibleAccount = ''no_eligible_account''"
| "ProviderErrorKind_as_str PkProviderInfrastructureUnavailable = ''provider_infrastructure_unavailable''"
| "ProviderErrorKind_as_str PkTimeout = ''timeout''"
| "ProviderErrorKind_as_str PkTransport = ''transport''"
| "ProviderErrorKind_as_str PkProtocol = ''protocol''"
| "ProviderErrorKind_as_str PkMessageTooBig = ''message_too_big''"
| "ProviderErrorKind_as_str PkUnavailable = ''unavailable''"
| "ProviderErrorKind_as_str PkUpstreamCapacityUnavailable = ''upstream_capacity_unavailable''"
| "ProviderErrorKind_as_str PkCancelled = ''cancelled''"
| "ProviderErrorKind_as_str PkProcessTerminated = ''process_terminated''"

datatype ContinuationFailure = Busy | HistoryUnavailable

datatype ContinuationRecoveryDisposition =
    RetryExactConnection
  | ClientReplayRequired
  | ProviderReplayAllowed

datatype AttemptTransport = DefaultTransport | RetryTransport nat | FallbackTransport

datatype PreDeliveryRetry =
    AccountRotation
  | SameAccountTransientRetry nat duration duration
  | SameAccountTransportRetry nat duration
  | SameAccountConnectionRetry AttemptTransport
  | SameAccountTransportFallback

record ClientVisibleUpstreamError =
  cve_message :: string
  cve_code :: "string option"
  cve_error_type :: "string option"

record ProviderDiagnostic =
  diag_message :: string
  diag_stage :: "string option"
  diag_code :: "string option"

definition new_ProviderDiagnostic :: "string \<Rightarrow> ProviderDiagnostic" where
  "new_ProviderDiagnostic m = \<lparr>diag_message = m, diag_stage = None, diag_code = None\<rparr>"

definition with_classification :: "ProviderDiagnostic \<Rightarrow> string \<Rightarrow> string \<Rightarrow> ProviderDiagnostic" where
  "with_classification d stage code = d\<lparr>diag_stage := Some stage, diag_code := Some code\<rparr>"

datatype IoErrorKind =
    ConnectionRefused | ConnectionReset | ConnectionAborted | BrokenPipe | UnexpectedEof
  | TimedOut | NetworkUnreachable | HostUnreachable | OtherIoError

fun io_cause_code :: "IoErrorKind \<Rightarrow> string option" where
  "io_cause_code ConnectionRefused = Some ''connection_refused''"
| "io_cause_code ConnectionReset = Some ''tcp_reset''"
| "io_cause_code ConnectionAborted = Some ''connection_aborted''"
| "io_cause_code BrokenPipe = Some ''broken_pipe''"
| "io_cause_code UnexpectedEof = Some ''unexpected_eof''"
| "io_cause_code TimedOut = Some ''io_timeout''"
| "io_cause_code NetworkUnreachable = Some ''network_unreachable''"
| "io_cause_code HostUnreachable = Some ''host_unreachable''"
| "io_cause_code OtherIoError = None"

text \<open>The error chain from the given error to its root; \<open>None\<close> is an error that is not an I/O error.\<close>

fun with_io_cause :: "ProviderDiagnostic \<Rightarrow> IoErrorKind option list \<Rightarrow> ProviderDiagnostic" where
  "with_io_cause d [] = d"
| "with_io_cause d (source # chain) =
     (case Option.bind source io_cause_code of
        Some code \<Rightarrow> d\<lparr>diag_message := diag_message d @ ''; I/O cause: '' @ code, diag_code := Some code\<rparr>
      | None \<Rightarrow> with_io_cause d chain)"

record ProviderConnectionObservation =
  connection_id :: string
  exit_reason :: string
  age_ms :: nat
  idle_ms :: nat

record ClientVisibleUpstreamResponse =
  cvr_status :: nat
  cvr_content_type :: "string option"
  cvr_headers :: "(string \<times> string) list"
  cvr_body :: string


section \<open>Provider errors\<close>

record ProviderErrorUpstreamValues =
  uv_code :: "string option"
  uv_request_id :: "string option"

record ProviderErrorFailureObservation =
  fo_continuation_unavailable_reason :: "string option"
  fo_connection :: "ProviderConnectionObservation option"

record 'ev ProviderError =
  pe_kind :: ProviderErrorKind
  pe_send_state :: UpstreamSendState
  pe_upstream_status :: "nat option"
  pe_upstream_values :: "ProviderErrorUpstreamValues option"
  pe_retry_after :: "duration option"
  pe_continuation_failure :: "ContinuationFailure option"
  pe_continuation_recovery_disposition :: "ContinuationRecoveryDisposition option"
  pe_failure_observation :: "ProviderErrorFailureObservation option"
  pe_replay_safe :: bool
  pe_pre_delivery_retry :: "PreDeliveryRetry option"
  pe_credential_recovery_required :: bool
  pe_retry_same_account :: bool
  pe_sensitive_context_redacted :: bool
  pe_diagnostic :: "ProviderDiagnostic option"
  pe_raw_upstream_error :: "string option"
  pe_client_visible_upstream_error :: "ClientVisibleUpstreamError option"
  pe_client_visible_upstream_response :: "ClientVisibleUpstreamResponse option"
  pe_atomic_client_events :: "'ev list option"

definition new_ProviderError :: "ProviderErrorKind \<Rightarrow> UpstreamSendState \<Rightarrow> 'ev ProviderError" where
  "new_ProviderError kind send_state =
     \<lparr>pe_kind = kind, pe_send_state = send_state, pe_upstream_status = None, pe_upstream_values = None,
      pe_retry_after = None, pe_continuation_failure = None,
      pe_continuation_recovery_disposition = None, pe_failure_observation = None,
      pe_replay_safe = False, pe_pre_delivery_retry = None, pe_credential_recovery_required = False,
      pe_retry_same_account = False, pe_sensitive_context_redacted = False, pe_diagnostic = None,
      pe_raw_upstream_error = None, pe_client_visible_upstream_error = None,
      pe_client_visible_upstream_response = None, pe_atomic_client_events = None\<rparr>"

definition with_status :: "'ev ProviderError \<Rightarrow> nat \<Rightarrow> 'ev ProviderError" where
  "with_status e s = (if 100 \<le> s \<and> s \<le> 599 then e\<lparr>pe_upstream_status := Some s\<rparr> else e)"

definition upstream_values_mut :: "'ev ProviderError \<Rightarrow> ProviderErrorUpstreamValues" where
  "upstream_values_mut e = unwrap_or (pe_upstream_values e) \<lparr>uv_code = None, uv_request_id = None\<rparr>"

definition with_upstream_code :: "'ev ProviderError \<Rightarrow> string \<Rightarrow> 'ev ProviderError" where
  "with_upstream_code e c = e\<lparr>pe_upstream_values := Some ((upstream_values_mut e)\<lparr>uv_code := Some c\<rparr>)\<rparr>"

definition with_upstream_request_id :: "'ev ProviderError \<Rightarrow> string \<Rightarrow> 'ev ProviderError" where
  "with_upstream_request_id e r =
     e\<lparr>pe_upstream_values := Some ((upstream_values_mut e)\<lparr>uv_request_id := Some r\<rparr>)\<rparr>"

definition error_upstream_code :: "'ev ProviderError \<Rightarrow> string option" where
  "error_upstream_code e = Option.bind (pe_upstream_values e) uv_code"

definition error_upstream_request_id :: "'ev ProviderError \<Rightarrow> string option" where
  "error_upstream_request_id e = Option.bind (pe_upstream_values e) uv_request_id"

definition failure_observation_mut :: "'ev ProviderError \<Rightarrow> ProviderErrorFailureObservation" where
  "failure_observation_mut e =
     unwrap_or (pe_failure_observation e) \<lparr>fo_continuation_unavailable_reason = None, fo_connection = None\<rparr>"

definition with_continuation_unavailable_reason :: "'ev ProviderError \<Rightarrow> string \<Rightarrow> 'ev ProviderError" where
  "with_continuation_unavailable_reason e r =
     e\<lparr>pe_failure_observation :=
         Some ((failure_observation_mut e)\<lparr>fo_continuation_unavailable_reason := Some r\<rparr>)\<rparr>"

definition with_connection_observation ::
  "'ev ProviderError \<Rightarrow> ProviderConnectionObservation \<Rightarrow> 'ev ProviderError" where
  "with_connection_observation e c =
     e\<lparr>pe_failure_observation := Some ((failure_observation_mut e)\<lparr>fo_connection := Some c\<rparr>)\<rparr>"

definition with_replay_safe :: "'ev ProviderError \<Rightarrow> 'ev ProviderError" where
  "with_replay_safe e = e\<lparr>pe_replay_safe := True\<rparr>"

definition with_pre_delivery_retry :: "'ev ProviderError \<Rightarrow> 'ev ProviderError" where
  "with_pre_delivery_retry e = e\<lparr>pe_pre_delivery_retry := Some AccountRotation\<rparr>"

definition set_pre_delivery_transport_fallback :: "'ev ProviderError \<Rightarrow> 'ev ProviderError" where
  "set_pre_delivery_transport_fallback e = e\<lparr>pe_pre_delivery_retry := Some SameAccountTransportFallback\<rparr>"

definition set_pre_delivery_transport_retry :: "'ev ProviderError \<Rightarrow> nat \<Rightarrow> duration \<Rightarrow> 'ev ProviderError" where
  "set_pre_delivery_transport_retry e index delay =
     e\<lparr>pe_pre_delivery_retry := Some (SameAccountTransportRetry index delay)\<rparr>"

definition with_connection_retry :: "'ev ProviderError \<Rightarrow> AttemptTransport \<Rightarrow> 'ev ProviderError" where
  "with_connection_retry e transport =
     e\<lparr>pe_pre_delivery_retry := Some (SameAccountConnectionRetry transport)\<rparr>"

definition with_transient_retry ::
  "'ev ProviderError \<Rightarrow> nat \<Rightarrow> duration \<Rightarrow> duration \<Rightarrow> 'ev ProviderError" where
  "with_transient_retry e max_retries initial_delay max_delay =
     e\<lparr>pe_pre_delivery_retry := Some (SameAccountTransientRetry max_retries initial_delay max_delay)\<rparr>"

definition with_same_account_retry :: "'ev ProviderError \<Rightarrow> 'ev ProviderError" where
  "with_same_account_retry e = e\<lparr>pe_retry_same_account := True\<rparr>"

definition with_credential_recovery :: "'ev ProviderError \<Rightarrow> 'ev ProviderError" where
  "with_credential_recovery e = e\<lparr>pe_credential_recovery_required := True\<rparr>"

definition with_atomic_client_events :: "'ev ProviderError \<Rightarrow> 'ev list \<Rightarrow> 'ev ProviderError" where
  "with_atomic_client_events e evs =
     e\<lparr>pe_atomic_client_events := (if evs = [] then None else Some evs)\<rparr>"

definition redact_sensitive_context :: "'ev ProviderError \<Rightarrow> string \<Rightarrow> 'ev ProviderError" where
  "redact_sensitive_context e context = e\<lparr>pe_sensitive_context_redacted := True\<rparr>"

definition allows_pre_delivery_retry :: "'ev ProviderError \<Rightarrow> bool" where
  "allows_pre_delivery_retry e \<longleftrightarrow> pe_pre_delivery_retry e \<noteq> None"

definition take_atomic_client_events :: "'ev ProviderError \<Rightarrow> 'ev list \<times> 'ev ProviderError" where
  "take_atomic_client_events e =
     (unwrap_or (pe_atomic_client_events e) [], e\<lparr>pe_atomic_client_events := None\<rparr>)"

definition stable_snapshot :: "'ev ProviderError \<Rightarrow> 'ev ProviderError" where
  "stable_snapshot e = e\<lparr>pe_client_visible_upstream_response := None, pe_atomic_client_events := None\<rparr>"


section \<open>Gateway errors\<close>

datatype GatewayErrorKind =
    GkInvalidRequest
  | GkUnsupported
  | GkUnauthorized
  | GkPolicyDenied
  | GkModelNotFound
  | GkNoAvailableProvider
  | GkAccountCapacityUnavailable
  | GkConcurrencyQueueFull
  | GkConcurrencyQueueTimeout
  | GkProviderInfrastructureUnavailable
  | GkRateLimited
  | GkUpstreamUnavailable
  | GkMessageTooBig
  | GkTimeout
  | GkCancelled
  | GkInternal

fun GatewayErrorKind_as_str :: "GatewayErrorKind \<Rightarrow> string" where
  "GatewayErrorKind_as_str GkInvalidRequest = ''invalid_request''"
| "GatewayErrorKind_as_str GkUnsupported = ''unsupported''"
| "GatewayErrorKind_as_str GkUnauthorized = ''unauthorized''"
| "GatewayErrorKind_as_str GkPolicyDenied = ''policy_denied''"
| "GatewayErrorKind_as_str GkModelNotFound = ''model_not_found''"
| "GatewayErrorKind_as_str GkNoAvailableProvider = ''no_available_provider''"
| "GatewayErrorKind_as_str GkAccountCapacityUnavailable = ''account_capacity_unavailable''"
| "GatewayErrorKind_as_str GkConcurrencyQueueFull = ''concurrency_queue_full''"
| "GatewayErrorKind_as_str GkConcurrencyQueueTimeout = ''concurrency_queue_timeout''"
| "GatewayErrorKind_as_str GkProviderInfrastructureUnavailable = ''provider_infrastructure_unavailable''"
| "GatewayErrorKind_as_str GkRateLimited = ''rate_limited''"
| "GatewayErrorKind_as_str GkUpstreamUnavailable = ''upstream_unavailable''"
| "GatewayErrorKind_as_str GkMessageTooBig = ''message_too_big''"
| "GatewayErrorKind_as_str GkTimeout = ''timeout''"
| "GatewayErrorKind_as_str GkCancelled = ''cancelled''"
| "GatewayErrorKind_as_str GkInternal = ''internal_error''"

record GatewayClientErrorDetails =
  details_code :: "string option"
  details_retry_after :: "duration option"

record GatewayError =
  ge_kind :: GatewayErrorKind
  ge_message :: string
  ge_diagnostic :: "ProviderDiagnostic option"
  ge_client_visible_upstream_error :: "ClientVisibleUpstreamError option"
  ge_client_details :: "GatewayClientErrorDetails option"

definition new_GatewayError :: "GatewayErrorKind \<Rightarrow> string \<Rightarrow> GatewayError" where
  "new_GatewayError kind message =
     \<lparr>ge_kind = kind, ge_message = message, ge_diagnostic = None,
      ge_client_visible_upstream_error = None, ge_client_details = None\<rparr>"

definition client_details_mut :: "GatewayError \<Rightarrow> GatewayClientErrorDetails" where
  "client_details_mut e = unwrap_or (ge_client_details e) \<lparr>details_code = None, details_retry_after = None\<rparr>"

definition with_client_code :: "GatewayError \<Rightarrow> string \<Rightarrow> GatewayError" where
  "with_client_code e c = e\<lparr>ge_client_details := Some ((client_details_mut e)\<lparr>details_code := Some c\<rparr>)\<rparr>"

definition gateway_with_retry_after :: "GatewayError \<Rightarrow> duration \<Rightarrow> GatewayError" where
  "gateway_with_retry_after e d =
     e\<lparr>ge_client_details := Some ((client_details_mut e)\<lparr>details_retry_after := Some d\<rparr>)\<rparr>"

definition gateway_retry_after :: "GatewayError \<Rightarrow> duration option" where
  "gateway_retry_after e = Option.bind (ge_client_details e) details_retry_after"

fun classify_provider_error :: "ProviderErrorKind \<Rightarrow> GatewayErrorKind \<times> string" where
  "classify_provider_error PkInvalidRequest = (GkInvalidRequest, ''invalid upstream request'')"
| "classify_provider_error PkContinuationRecoveryRequired =
     (GkInvalidRequest, ''conversation continuation must be rebuilt'')"
| "classify_provider_error PkUnsupported = (GkUnsupported, ''requested capability is unsupported'')"
| "classify_provider_error PkUnauthorized =
     (GkUpstreamUnavailable, ''upstream authentication resource is unavailable'')"
| "classify_provider_error PkPermissionDenied =
     (GkUpstreamUnavailable, ''upstream authentication resource is unavailable'')"
| "classify_provider_error PkRequestPolicyDenied = (GkPolicyDenied, ''request policy rejected the request'')"
| "classify_provider_error PkRateLimited =
     (GkRateLimited, ''upstream capacity is temporarily unavailable'')"
| "classify_provider_error PkQuotaExhausted =
     (GkRateLimited, ''upstream capacity is temporarily unavailable'')"
| "classify_provider_error PkConcurrencyQueueFull =
     (GkConcurrencyQueueFull, ''concurrency wait queue is full'')"
| "classify_provider_error PkConcurrencyQueueTimeout =
     (GkConcurrencyQueueTimeout, ''concurrency wait deadline elapsed'')"
| "classify_provider_error PkAccountCapacityUnavailable =
     (GkAccountCapacityUnavailable, ''all eligible upstream accounts are temporarily busy'')"
| "classify_provider_error PkNoEligibleAccount =
     (GkNoAvailableProvider, ''no upstream provider is currently available for this request'')"
| "classify_provider_error PkProviderInfrastructureUnavailable =
     (GkProviderInfrastructureUnavailable, ''provider account infrastructure is temporarily unavailable'')"
| "classify_provider_error PkTimeout = (GkTimeout, ''upstream request timed out'')"
| "classify_provider_error PkMessageTooBig =
     (GkMessageTooBig, ''upstream rejected the request because the message is too large'')"
| "classify_provider_error PkCancelled = (GkCancelled, ''request was cancelled'')"
| "classify_provider_error PkTransport = (GkUpstreamUnavailable, ''upstream service is unavailable'')"
| "classify_provider_error PkProtocol = (GkUpstreamUnavailable, ''upstream service is unavailable'')"
| "classify_provider_error PkUnavailable = (GkUpstreamUnavailable, ''upstream service is unavailable'')"
| "classify_provider_error PkUpstreamCapacityUnavailable =
     (GkUpstreamUnavailable, ''upstream service is unavailable'')"
| "classify_provider_error PkProcessTerminated = (GkUpstreamUnavailable, ''upstream service is unavailable'')"

definition from_provider :: "'ev ProviderError \<Rightarrow> GatewayError" where
  "from_provider e =
     (let gateway = new_GatewayError (fst (classify_provider_error (pe_kind e)))
                      (snd (classify_provider_error (pe_kind e)));
          gateway = (case pe_diagnostic e of
                       Some d \<Rightarrow> gateway\<lparr>ge_diagnostic := Some d\<rparr> | None \<Rightarrow> gateway)
      in case pe_client_visible_upstream_error e of
           Some u \<Rightarrow> gateway\<lparr>ge_client_visible_upstream_error := Some u\<rparr>
         | None \<Rightarrow> gateway)"

definition client_message :: "GatewayError \<Rightarrow> string" where
  "client_message e =
     (case ge_client_visible_upstream_error e of None \<Rightarrow> ge_message e | Some u \<Rightarrow> cve_message u)"

definition client_error_type :: "GatewayError \<Rightarrow> string option" where
  "client_error_type e = Option.bind (ge_client_visible_upstream_error e) cve_error_type"

definition client_error_code :: "GatewayError \<Rightarrow> string option" where
  "client_error_code e =
     or_else (Option.bind (ge_client_visible_upstream_error e) cve_code)
       (Option.bind (ge_client_details e) details_code)"


section \<open>Properties\<close>

text \<open>What enters persistence and logs is free of request-local content and loses nothing
  else: a stable snapshot carries neither the raw upstream response nor undelivered protocol
  events, agrees with the error on every stable field, becomes the same gateway error, and taking
  it twice changes nothing. The gateway error's own text is one of the fixed messages.\<close>

theorem stable_snapshot_is_safe:
  fixes e :: "'ev ProviderError"
  shows "pe_client_visible_upstream_response (stable_snapshot e) = None
         \<and> fst (take_atomic_client_events (stable_snapshot e)) = []
         \<and> stable_snapshot (stable_snapshot e) = stable_snapshot e
         \<and> from_provider (stable_snapshot e) = from_provider e
         \<and> (stable_snapshot e)\<lparr>pe_client_visible_upstream_response := pe_client_visible_upstream_response e,
                               pe_atomic_client_events := pe_atomic_client_events e\<rparr> = e
         \<and> ge_message (from_provider e) \<in> snd ` range classify_provider_error"
  by (auto simp: stable_snapshot_def take_atomic_client_events_def from_provider_def new_GatewayError_def
      Let_def split: option.splits)

end
