(* ===== verification/Canonical_Event.thy ===== *)
theory Canonical_Event
  imports Metering Provider_Error
begin

text \<open>
  \<open>gateway-core/src/event.rs\<close>: the events a provider stream is made of. A \<open>ProviderEvent\<close> is an
  envelope with the canonical facts the core reads, the protocol-native expression the client may
  receive, a response observation and a session update. JSON bodies are the datatype \<open>JsonValue\<close>
  (the core never looks inside), byte buffers are byte lists.

  \<open>EventSequenceValidator\<close> is the incremental automaton that checks a canonical stream. Its
  \<open>observe\<close> returns the verdict together with the state it leaves, on the failing branches too
  (a repeated content index has already replaced the older kind). The stream grammar it decides is
  stated independently, by positions, as \<open>stream_ok\<close>.
\<close>

section \<open>Event payloads\<close>

datatype JsonValue =
    JNull
  | JBool bool
  | JNumber string
  | JString string
  | JArray "JsonValue list"
  | JObject "(string \<times> JsonValue) list"

datatype FinishReason = FrStop | FrLength | FrToolCall | FrContentFilter | FrOther

record ResponseMeta =
  response_id :: string
  meta_model :: "string option"
  meta_finish_reason :: "FinishReason option"

definition new_ResponseMeta :: "string \<Rightarrow> string \<Rightarrow> ResponseMeta" where
  "new_ResponseMeta rid m = \<lparr>response_id = rid, meta_model = Some m, meta_finish_reason = None\<rparr>"

definition for_provider_endpoint :: "string \<Rightarrow> ResponseMeta" where
  "for_provider_endpoint rid = \<lparr>response_id = rid, meta_model = None, meta_finish_reason = None\<rparr>"

definition with_finish_reason :: "ResponseMeta \<Rightarrow> FinishReason \<Rightarrow> ResponseMeta" where
  "with_finish_reason m r = m\<lparr>meta_finish_reason := Some r\<rparr>"

datatype ContentKind = CkText | CkReasoning | CkToolCall | CkImage | CkAudio

record ContentItem =
  item_index :: nat
  item_kind :: ContentKind

record TextDelta =
  text_content_index :: nat
  text_text :: string

record ReasoningDelta =
  reasoning_content_index :: nat
  reasoning_text :: string

record ToolCallDelta =
  tool_content_index :: nat
  tool_call_id :: string
  tool_name :: "string option"
  arguments_delta :: string

datatype GatewayEvent =
    EvStarted ResponseMeta
  | EvContentAdded ContentItem
  | EvTextDelta TextDelta
  | EvReasoningDelta ReasoningDelta
  | EvToolCallDelta ToolCallDelta
  | EvUsage Usage
  | EvCalculatedCost CalculatedCost
  | EvProviderCost ProviderReportedCost
  | EvCompleted ResponseMeta


section \<open>Protocol-native events\<close>

record ProtocolWireEvent =
  wire_protocol :: string
  wire_event_type :: "string option"
  wire_data :: JsonValue
  wire_has_json_data :: bool
  wire_raw_sse_frame :: "string option"
  wire_raw_json_body :: "string option"
  wire_raw_http_body :: "string option"
  wire_sse_id :: "string option"
  wire_sse_retry :: "nat option"

definition json_with_sse_metadata ::
  "string \<Rightarrow> string option \<Rightarrow> JsonValue \<Rightarrow> string option \<Rightarrow> nat option
     \<Rightarrow> IdentifierError + ProtocolWireEvent" where
  "json_with_sse_metadata protocol event_type data sse_id sse_retry =
     (case validate_text protocol 64 True None of
        Inl e \<Rightarrow> Err e
      | Inr _ \<Rightarrow> Ok \<lparr>wire_protocol = protocol, wire_event_type = event_type, wire_data = data,
                     wire_has_json_data = True, wire_raw_sse_frame = None, wire_raw_json_body = None,
                     wire_raw_http_body = None, wire_sse_id = sse_id, wire_sse_retry = sse_retry\<rparr>)"

definition wire_json ::
  "string \<Rightarrow> string option \<Rightarrow> JsonValue \<Rightarrow> IdentifierError + ProtocolWireEvent" where
  "wire_json protocol event_type data = json_with_sse_metadata protocol event_type data None None"

definition json_with_raw_sse_metadata ::
  "string \<Rightarrow> string option \<Rightarrow> JsonValue \<Rightarrow> string \<Rightarrow> string option \<Rightarrow> nat option
     \<Rightarrow> IdentifierError + ProtocolWireEvent" where
  "json_with_raw_sse_metadata protocol event_type data frame sse_id sse_retry =
     (case json_with_sse_metadata protocol event_type data sse_id sse_retry of
        Inl e \<Rightarrow> Err e
      | Inr w \<Rightarrow> Ok (w\<lparr>wire_raw_sse_frame := Some frame\<rparr>))"

definition raw_event ::
  "string \<Rightarrow> string option \<Rightarrow> string option \<Rightarrow> string option \<Rightarrow> IdentifierError + ProtocolWireEvent" where
  "raw_event protocol frame json http =
     (case validate_text protocol 64 True None of
        Inl e \<Rightarrow> Err e
      | Inr _ \<Rightarrow> Ok \<lparr>wire_protocol = protocol, wire_event_type = None, wire_data = JNull,
                     wire_has_json_data = False, wire_raw_sse_frame = frame, wire_raw_json_body = json,
                     wire_raw_http_body = http, wire_sse_id = None, wire_sse_retry = None\<rparr>)"

definition raw_sse :: "string \<Rightarrow> string \<Rightarrow> IdentifierError + ProtocolWireEvent" where
  "raw_sse protocol frame = raw_event protocol (Some frame) None None"

definition raw_json :: "string \<Rightarrow> string \<Rightarrow> IdentifierError + ProtocolWireEvent" where
  "raw_json protocol body = raw_event protocol None (Some body) None"

definition raw_http_body :: "string \<Rightarrow> string \<Rightarrow> IdentifierError + ProtocolWireEvent" where
  "raw_http_body protocol body = raw_event protocol None None (Some body)"


section \<open>Response observations\<close>

datatype UpstreamHttpVersion = HttpUnknown | Http09 | Http10 | Http11 | Http2 | Http3

definition to_ascii_uppercase :: "string \<Rightarrow> string" where
  "to_ascii_uppercase s =
     map (\<lambda>c. if 97 \<le> byte c \<and> byte c \<le> 122 then char_of (byte c - 32) else c) s"

definition UpstreamHttpVersion_parse :: "string \<Rightarrow> UpstreamHttpVersion option" where
  "UpstreamHttpVersion_parse v =
     (let u = to_ascii_uppercase (trim v) in
      if u = ''HTTP/0.9'' \<or> u = ''0.9'' then Some Http09
      else if u = ''HTTP/1.0'' \<or> u = ''HTTP/1'' \<or> u = ''1.0'' then Some Http10
      else if u = ''HTTP/1.1'' \<or> u = ''1.1'' then Some Http11
      else if u = ''HTTP/2'' \<or> u = ''HTTP/2.0'' \<or> u = ''2'' \<or> u = ''2.0'' then Some Http2
      else if u = ''HTTP/3'' \<or> u = ''HTTP/3.0'' \<or> u = ''3'' \<or> u = ''3.0'' then Some Http3
      else None)"

fun UpstreamHttpVersion_as_str :: "UpstreamHttpVersion \<Rightarrow> string" where
  "UpstreamHttpVersion_as_str HttpUnknown = ''unknown''"
| "UpstreamHttpVersion_as_str Http09 = ''HTTP/0.9''"
| "UpstreamHttpVersion_as_str Http10 = ''HTTP/1.0''"
| "UpstreamHttpVersion_as_str Http11 = ''HTTP/1.1''"
| "UpstreamHttpVersion_as_str Http2 = ''HTTP/2''"
| "UpstreamHttpVersion_as_str Http3 = ''HTTP/3''"

datatype WebSocketPoolKind = PoolNew | PoolReuse

fun WebSocketPoolKind_as_str :: "WebSocketPoolKind \<Rightarrow> string" where
  "WebSocketPoolKind_as_str PoolNew = ''new''"
| "WebSocketPoolKind_as_str PoolReuse = ''reuse''"

record ProviderResponseTimings =
  rt_transport_decision_wait_ms :: "nat option"
  rt_connect_ms :: "nat option"
  rt_headers_ms :: "nat option"
  rt_first_event_ms :: "nat option"
  rt_first_reasoning_ms :: "nat option"
  rt_first_text_ms :: "nat option"
  rt_first_token_ms :: "nat option"
  rt_provider_processing_ms :: "nat option"

definition default_ProviderResponseTimings :: ProviderResponseTimings where
  "default_ProviderResponseTimings =
     \<lparr>rt_transport_decision_wait_ms = None, rt_connect_ms = None, rt_headers_ms = None,
      rt_first_event_ms = None, rt_first_reasoning_ms = None, rt_first_text_ms = None,
      rt_first_token_ms = None, rt_provider_processing_ms = None\<rparr>"

record ProviderResponseHeader =
  header_name :: string
  header_value :: string

record ProviderResponseObservation =
  ob_transport :: UpstreamTransport
  ob_http_version :: "UpstreamHttpVersion option"
  ob_websocket_pool :: "WebSocketPoolKind option"
  ob_status_code :: "nat option"
  ob_request_id :: "string option"
  ob_service_tier :: "string option"
  ob_upstream_response_model :: "string option"
  ob_timings :: ProviderResponseTimings
  ob_client_headers :: "ProviderResponseHeader list"
  ob_provider_metadata :: "string option"

definition new_ProviderResponseObservation :: "UpstreamTransport \<Rightarrow> ProviderResponseObservation" where
  "new_ProviderResponseObservation t =
     \<lparr>ob_transport = t, ob_http_version = None, ob_websocket_pool = None, ob_status_code = None,
      ob_request_id = None, ob_service_tier = None, ob_upstream_response_model = None,
      ob_timings = default_ProviderResponseTimings, ob_client_headers = [], ob_provider_metadata = None\<rparr>"

definition with_status_code :: "ProviderResponseObservation \<Rightarrow> nat \<Rightarrow> ProviderResponseObservation" where
  "with_status_code ob s = ob\<lparr>ob_status_code := (if 100 \<le> s \<and> s \<le> 599 then Some s else None)\<rparr>"

definition try_with_service_tier ::
  "ProviderResponseObservation \<Rightarrow> string \<Rightarrow> IdentifierError + ProviderResponseObservation" where
  "try_with_service_tier ob tier =
     (case validate_text tier 64 False None of
        Inl e \<Rightarrow> Err e | Inr _ \<Rightarrow> Ok (ob\<lparr>ob_service_tier := Some tier\<rparr>))"

definition with_service_tier_if_valid ::
  "ProviderResponseObservation \<Rightarrow> string \<Rightarrow> ProviderResponseObservation" where
  "with_service_tier_if_valid ob tier =
     (case validate_text tier 64 False None of
        Inl e \<Rightarrow> ob | Inr _ \<Rightarrow> ob\<lparr>ob_service_tier := Some tier\<rparr>)"

definition with_upstream_response_model_if_valid ::
  "ProviderResponseObservation \<Rightarrow> string \<Rightarrow> ProviderResponseObservation" where
  "with_upstream_response_model_if_valid ob m =
     (let m' = trim m in
      case validate_text m' 256 False None of
        Inl e \<Rightarrow> ob | Inr _ \<Rightarrow> ob\<lparr>ob_upstream_response_model := Some m'\<rparr>)"


section \<open>Provider events\<close>

record ExtensionSessionOwner =
  owner_instance_id :: string
  owner_contribution_id :: string
  owner_adapter_id :: string
  owner_generation :: nat
  owner_incarnation :: string
  owner_connection_local :: bool

record ProviderSessionState =
  session_provider :: string
  session_payload :: "(string \<times> JsonValue) list"
  session_extension_owner :: "ExtensionSessionOwner option"

datatype SessionStateError = EmptySessionProvider

definition new_ProviderSessionState ::
  "string \<Rightarrow> (string \<times> JsonValue) list \<Rightarrow> SessionStateError + ProviderSessionState" where
  "new_ProviderSessionState provider payload =
     (case validate_text provider 64 True None of
        Inl _ \<Rightarrow> Err EmptySessionProvider
      | Inr _ \<Rightarrow> Ok \<lparr>session_provider = provider, session_payload = payload, session_extension_owner = None\<rparr>)"

definition with_extension_owner :: "ProviderSessionState \<Rightarrow> ExtensionSessionOwner \<Rightarrow> ProviderSessionState" where
  "with_extension_owner s owner = s\<lparr>session_extension_owner := Some owner\<rparr>"

record ProviderEvent =
  pev_canonical :: "GatewayEvent list"
  pev_wire :: "ProtocolWireEvent option"
  pev_observation :: "ProviderResponseObservation option"
  pev_session_update :: "ProviderSessionState option"
  pev_middleware_transformed :: bool
  pev_middleware_origin_wire :: "ProtocolWireEvent option"

definition canonical_event :: "GatewayEvent \<Rightarrow> ProviderEvent" where
  "canonical_event e =
     \<lparr>pev_canonical = [e], pev_wire = None, pev_observation = None, pev_session_update = None,
      pev_middleware_transformed = False, pev_middleware_origin_wire = None\<rparr>"

definition with_fact :: "ProviderEvent \<Rightarrow> GatewayEvent \<Rightarrow> ProviderEvent" where
  "with_fact p e = p\<lparr>pev_canonical := pev_canonical p @ [e]\<rparr>"

definition wire_event :: "ProtocolWireEvent \<Rightarrow> ProviderEvent" where
  "wire_event w =
     \<lparr>pev_canonical = [], pev_wire = Some w, pev_observation = None, pev_session_update = None,
      pev_middleware_transformed = False, pev_middleware_origin_wire = None\<rparr>"

definition canonical_with_wire :: "GatewayEvent list \<Rightarrow> ProtocolWireEvent \<Rightarrow> ProviderEvent" where
  "canonical_with_wire es w =
     \<lparr>pev_canonical = es, pev_wire = Some w, pev_observation = None, pev_session_update = None,
      pev_middleware_transformed = False, pev_middleware_origin_wire = None\<rparr>"

definition observation_event :: "ProviderResponseObservation \<Rightarrow> ProviderEvent" where
  "observation_event ob =
     \<lparr>pev_canonical = [], pev_wire = None, pev_observation = Some ob, pev_session_update = None,
      pev_middleware_transformed = False, pev_middleware_origin_wire = None\<rparr>"

definition mark_middleware_transformed :: "ProviderEvent \<Rightarrow> ProviderEvent" where
  "mark_middleware_transformed p = p\<lparr>pev_middleware_transformed := True\<rparr>"

definition replace_middleware_wire :: "ProviderEvent \<Rightarrow> ProtocolWireEvent option \<Rightarrow> ProviderEvent" where
  "replace_middleware_wire p w =
     p\<lparr>pev_middleware_origin_wire := or_else (pev_middleware_origin_wire p) (pev_wire p),
       pev_wire := w, pev_middleware_transformed := True\<rparr>"

definition inherit_middleware_provenance :: "ProviderEvent \<Rightarrow> ProviderEvent \<Rightarrow> ProviderEvent" where
  "inherit_middleware_provenance p source =
     p\<lparr>pev_middleware_transformed := pev_middleware_transformed source,
       pev_middleware_origin_wire := pev_middleware_origin_wire source\<rparr>"

definition attach_observation :: "ProviderEvent \<Rightarrow> ProviderResponseObservation \<Rightarrow> ProviderEvent" where
  "attach_observation p ob = p\<lparr>pev_observation := Some ob\<rparr>"

definition attach_session_update :: "ProviderEvent \<Rightarrow> ProviderSessionState \<Rightarrow> ProviderEvent" where
  "attach_session_update p s = p\<lparr>pev_session_update := Some s\<rparr>"

definition take_session_update :: "ProviderEvent \<Rightarrow> ProviderSessionState option \<times> ProviderEvent" where
  "take_session_update p = (pev_session_update p, p\<lparr>pev_session_update := None\<rparr>)"

definition take_observation :: "ProviderEvent \<Rightarrow> ProviderResponseObservation option \<times> ProviderEvent" where
  "take_observation p = (pev_observation p, p\<lparr>pev_observation := None\<rparr>)"

definition replace_wire :: "ProviderEvent \<Rightarrow> ProtocolWireEvent option \<Rightarrow> ProviderEvent" where
  "replace_wire p w = p\<lparr>pev_wire := w\<rparr>"

definition has_canonical_facts :: "ProviderEvent \<Rightarrow> bool" where
  "has_canonical_facts p \<longleftrightarrow> pev_canonical p \<noteq> []"

definition has_client_event :: "ProviderEvent \<Rightarrow> bool" where
  "has_client_event p \<longleftrightarrow> pev_canonical p \<noteq> [] \<or> is_some (pev_wire p)"

text \<open>The wire a middleware chain started from is remembered through any number of rewrites.\<close>

lemma replace_middleware_wire_origin:
  assumes "pev_middleware_origin_wire p = None" "pev_wire p = Some w" "ws \<noteq> []"
  shows "pev_middleware_origin_wire (foldl replace_middleware_wire p ws) = Some w
    \<and> pev_wire (foldl replace_middleware_wire p ws) = last ws
    \<and> pev_canonical (foldl replace_middleware_wire p ws) = pev_canonical p
    \<and> pev_middleware_transformed (foldl replace_middleware_wire p ws)"
  using assms(3)
proof (induction ws rule: rev_induct)
  case (snoc w' ws)
  then show ?case
    by (cases "ws = []") (auto simp: replace_middleware_wire_def assms(1,2))
qed simp


section \<open>The event sequence validator\<close>

datatype EventSequenceError =
    MissingStarted
  | DuplicateStarted
  | DuplicateContent nat
  | InvalidDeltaTarget nat
  | EventAfterCompleted
  | MissingCompleted

record EventSequenceValidator =
  vs_started :: bool
  vs_completed :: bool
  vs_content :: "nat \<rightharpoonup> ContentKind"

definition new_EventSequenceValidator :: EventSequenceValidator where
  "new_EventSequenceValidator = \<lparr>vs_started = False, vs_completed = False, vs_content = Map.empty\<rparr>"

definition require_content ::
  "EventSequenceValidator \<Rightarrow> nat \<Rightarrow> ContentKind \<Rightarrow> EventSequenceError + unit" where
  "require_content v index expected =
     (if vs_content v index = Some expected then Ok () else Err (InvalidDeltaTarget index))"

fun observe_kind ::
  "EventSequenceValidator \<Rightarrow> GatewayEvent \<Rightarrow> (EventSequenceError + unit) \<times> EventSequenceValidator" where
  "observe_kind v (EvStarted _) =
     (if vs_started v then (Err DuplicateStarted, v) else (Ok (), v\<lparr>vs_started := True\<rparr>))"
| "observe_kind v (EvContentAdded item) =
     (let v' = v\<lparr>vs_content := (vs_content v)(item_index item \<mapsto> item_kind item)\<rparr> in
      if is_some (vs_content v (item_index item)) then (Err (DuplicateContent (item_index item)), v')
      else (Ok (), v'))"
| "observe_kind v (EvTextDelta d) = (require_content v (text_content_index d) CkText, v)"
| "observe_kind v (EvReasoningDelta d) = (require_content v (reasoning_content_index d) CkReasoning, v)"
| "observe_kind v (EvToolCallDelta d) = (require_content v (tool_content_index d) CkToolCall, v)"
| "observe_kind v (EvUsage _) = (Ok (), v)"
| "observe_kind v (EvCalculatedCost _) = (Ok (), v)"
| "observe_kind v (EvProviderCost _) = (Ok (), v)"
| "observe_kind v (EvCompleted _) = (Ok (), v\<lparr>vs_completed := True\<rparr>)"

fun is_started :: "GatewayEvent \<Rightarrow> bool" where
  "is_started (EvStarted _) = True"
| "is_started _ = False"

fun is_completed :: "GatewayEvent \<Rightarrow> bool" where
  "is_completed (EvCompleted _) = True"
| "is_completed _ = False"

definition validator_observe ::
  "EventSequenceValidator \<Rightarrow> GatewayEvent \<Rightarrow> (EventSequenceError + unit) \<times> EventSequenceValidator" where
  "validator_observe v e =
     (if vs_completed v then (Err EventAfterCompleted, v)
      else if \<not> vs_started v \<and> \<not> is_started e then (Err MissingStarted, v)
      else observe_kind v e)"

definition validator_finish :: "EventSequenceValidator \<Rightarrow> EventSequenceError + unit" where
  "validator_finish v =
     (if \<not> vs_started v then Err MissingStarted
      else if \<not> vs_completed v then Err MissingCompleted
      else Ok ())"

text \<open>A consumer stops at the first error.\<close>

fun validate_from ::
  "EventSequenceValidator \<Rightarrow> GatewayEvent list \<Rightarrow> EventSequenceError + EventSequenceValidator" where
  "validate_from v [] = Ok v"
| "validate_from v (e # es) =
     (case validator_observe v e of (Inl err, _) \<Rightarrow> Err err | (Inr _, v') \<Rightarrow> validate_from v' es)"

definition accepts :: "GatewayEvent list \<Rightarrow> bool" where
  "accepts es =
     (case validate_from new_EventSequenceValidator es of
        Inl _ \<Rightarrow> False | Inr v \<Rightarrow> validator_finish v = Ok ())"


subsection \<open>The grammar, by positions\<close>

fun delta_target :: "GatewayEvent \<Rightarrow> (nat \<times> ContentKind) option" where
  "delta_target (EvTextDelta d) = Some (text_content_index d, CkText)"
| "delta_target (EvReasoningDelta d) = Some (reasoning_content_index d, CkReasoning)"
| "delta_target (EvToolCallDelta d) = Some (tool_content_index d, CkToolCall)"
| "delta_target _ = None"

fun declared :: "GatewayEvent \<Rightarrow> (nat \<times> ContentKind) option" where
  "declared (EvContentAdded item) = Some (item_index item, item_kind item)"
| "declared _ = None"

text \<open>The declarations among the events, in order; an element of the body may declare a fresh index
  or refer to one declared before it, and is neither a start nor an end.\<close>

fun declarations :: "GatewayEvent list \<Rightarrow> (nat \<times> ContentKind) list" where
  "declarations [] = []"
| "declarations (e # es) =
     (case declared e of None \<Rightarrow> declarations es | Some d \<Rightarrow> d # declarations es)"

definition element_ok :: "GatewayEvent list \<Rightarrow> GatewayEvent \<Rightarrow> bool" where
  "element_ok before e \<longleftrightarrow>
     \<not> is_started e \<and> \<not> is_completed e
     \<and> is_none_or (declared e) (\<lambda>(i, _). i \<notin> fst ` set (declarations before))
     \<and> is_none_or (delta_target e) (\<lambda>t. t \<in> set (declarations before))"

definition stream_ok :: "GatewayEvent list \<Rightarrow> bool" where
  "stream_ok es \<longleftrightarrow>
     2 \<le> length es \<and> is_started (hd es) \<and> is_completed (last es)
     \<and> (\<forall>i. 0 < i \<longrightarrow> i < length es - 1 \<longrightarrow> element_ok (take i es) (es ! i))"

lemma declarations_append [simp]: "declarations (xs @ ys) = declarations xs @ declarations ys"
  by (induction xs) (auto split: option.splits)

text \<open>The automaton after a correct prefix: it has started, is not complete, and its map holds
  exactly the declarations of the prefix, whose indices are distinct.\<close>

definition mid_stream :: "GatewayEvent list \<Rightarrow> EventSequenceValidator \<Rightarrow> bool" where
  "mid_stream before v \<longleftrightarrow>
     vs_started v \<and> \<not> vs_completed v
     \<and> distinct (map fst (declarations before))
     \<and> vs_content v = map_of (declarations before)"

lemma observe_mid_stream:
  assumes "mid_stream before v"
  shows "fst (validator_observe v e) = Ok () \<and> \<not> is_completed e \<longleftrightarrow> element_ok before e"
    and "element_ok before e \<Longrightarrow> mid_stream (before @ [e]) (snd (validator_observe v e))"
proof -
  have map: "map_of (declarations before) i = Some k \<longleftrightarrow> (i, k) \<in> set (declarations before)" for i k
    using assms by (simp add: mid_stream_def)
  have none: "map_of (declarations before) i = None \<longleftrightarrow> i \<notin> fst ` set (declarations before)" for i
    by (simp add: map_of_eq_None_iff)
  show "fst (validator_observe v e) = Ok () \<and> \<not> is_completed e \<longleftrightarrow> element_ok before e"
    using assms
    by (cases e) (auto simp: mid_stream_def validator_observe_def element_ok_def require_content_def Let_def map none
      simp del: map_of_eq_Some_iff)
  assume ok: "element_ok before e"
  show "mid_stream (before @ [e]) (snd (validator_observe v e))"
  proof (cases e)
    case (EvContentAdded item)
    have fresh: "item_index item \<notin> fst ` set (declarations before)"
      using ok by (simp add: EvContentAdded element_ok_def)
    have "map_of (declarations before @ [(item_index item, item_kind item)])
        = (map_of (declarations before))(item_index item \<mapsto> item_kind item)"
      using fresh by (simp add: map_add_upd_left dom_map_of_conv_image_fst map_of_append)
    then show ?thesis
      using assms fresh
      by (simp add: EvContentAdded mid_stream_def validator_observe_def Let_def map_of_append)
  qed (use assms ok in \<open>auto simp: mid_stream_def validator_observe_def element_ok_def\<close>)
qed

text \<open>What the automaton accepts from a correct prefix.\<close>

definition accepts_from :: "EventSequenceValidator \<Rightarrow> GatewayEvent list \<Rightarrow> bool" where
  "accepts_from v es =
     (case validate_from v es of Inl _ \<Rightarrow> False | Inr v' \<Rightarrow> validator_finish v' = Ok ())"

lemma accepts_from_simps:
  "accepts_from v [] = (validator_finish v = Ok ())"
  "accepts_from v (e # es) =
     (fst (validator_observe v e) = Ok () \<and> accepts_from (snd (validator_observe v e)) es)"
  by (auto simp: accepts_from_def split: prod.splits sum.splits)

lemma accepts_from_completed: "vs_started v \<Longrightarrow> vs_completed v \<Longrightarrow> accepts_from v es \<longleftrightarrow> es = []"
  by (cases es) (simp_all add: accepts_from_simps validator_finish_def validator_observe_def)

lemma accepts_from_mid_stream:
  assumes "mid_stream before v"
  shows "accepts_from v es \<longleftrightarrow>
    es \<noteq> [] \<and> is_completed (last es) \<and> (\<forall>i < length es - 1. element_ok (before @ take i es) (es ! i))"
  using assms
proof (induction es arbitrary: before v)
  case Nil
  then show ?case by (simp add: accepts_from_simps validator_finish_def mid_stream_def)
next
  case (Cons e es)
  show ?case
  proof (cases "is_completed e")
    case True
    then obtain m where "e = EvCompleted m" by (cases e) auto
    then have "accepts_from v (e # es) \<longleftrightarrow> es = []"
      using Cons.prems accepts_from_completed [of "v\<lparr>vs_completed := True\<rparr>" es]
      by (simp add: accepts_from_simps validator_observe_def mid_stream_def)
    moreover have "es \<noteq> [] \<Longrightarrow> \<not> element_ok before e" using True by (simp add: element_ok_def)
    ultimately show ?thesis using True by (cases es) auto
  next
    case False
    have step: "fst (validator_observe v e) = Ok () \<longleftrightarrow> element_ok before e"
      using observe_mid_stream(1) [OF Cons.prems] False by blast
    have shift: "(\<forall>i < length (e # es) - 1. element_ok (before @ take i (e # es)) ((e # es) ! i)) \<longleftrightarrow>
        element_ok before e \<and> (\<forall>i < length es - 1. element_ok ((before @ [e]) @ take i es) (es ! i))" if "es \<noteq> []"
      using that by (cases es) (auto simp: All_less_Suc2)
    show ?thesis
    proof (cases "es = []")
      case True
      then show ?thesis
        using Cons.IH [OF observe_mid_stream(2) [OF Cons.prems]] step False
        by (auto simp: accepts_from_simps)
    next
      case ne: False
      show ?thesis
        using Cons.IH [OF observe_mid_stream(2) [OF Cons.prems]] step ne
        unfolding shift [OF ne] by (auto simp: accepts_from_simps)
    qed
  qed
qed

lemma first_event: "accepts (e # es) \<longleftrightarrow> is_started e \<and> accepts_from (new_EventSequenceValidator\<lparr>vs_started := True\<rparr>) es"
  by (cases e) (auto simp: accepts_def accepts_from_def validator_observe_def new_EventSequenceValidator_def)

lemma mid_stream_start: "is_started e \<Longrightarrow> mid_stream [e] (new_EventSequenceValidator\<lparr>vs_started := True\<rparr>)"
  by (cases e) (simp_all add: mid_stream_def new_EventSequenceValidator_def)


section \<open>Properties\<close>

text \<open>C39: the incremental validator accepts a canonical stream exactly when it starts with the only
  \<open>Started\<close>, ends with the only \<open>Completed\<close>, never declares a content index twice, and every
  delta refers to an index declared earlier in the stream with the kind of the delta.\<close>

theorem validator_decides_the_grammar: "accepts es = stream_ok es"
proof (cases es)
  case Nil
  then show ?thesis
    by (simp add: accepts_def stream_ok_def validator_finish_def new_EventSequenceValidator_def)
next
  case (Cons e rest)
  have "is_started e \<Longrightarrow> accepts_from (new_EventSequenceValidator\<lparr>vs_started := True\<rparr>) rest \<longleftrightarrow>
      rest \<noteq> [] \<and> is_completed (last rest)
      \<and> (\<forall>i < length rest - 1. element_ok (e # take i rest) (rest ! i))"
    using accepts_from_mid_stream [OF mid_stream_start] by simp
  moreover have "(\<forall>i < length rest - 1. element_ok (e # take i rest) (rest ! i)) \<longleftrightarrow>
      (\<forall>i. 0 < i \<longrightarrow> i < length es - 1 \<longrightarrow> element_ok (take i es) (es ! i))"
    (is "?L = ?R")
  proof
    assume ?L then show ?R unfolding Cons by (auto simp: gr0_conv_Suc)
  next
    assume R: ?R
    show ?L
    proof (intro allI impI)
      fix i assume "i < length rest - 1"
      then show "element_ok (e # take i rest) (rest ! i)" using R [rule_format, of "Suc i"] unfolding Cons by simp
    qed
  qed
  moreover have "rest \<noteq> [] \<longleftrightarrow> 2 \<le> length es" unfolding Cons by (cases rest) auto
  moreover have "rest \<noteq> [] \<Longrightarrow> last es = last rest" unfolding Cons by simp
  ultimately show ?thesis
    by (auto simp: stream_ok_def first_event Cons)
qed

end
