(* ===== verification/Response_Observation.thy ===== *)
theory Response_Observation
  imports Canonical_Event
begin

text \<open>
  \<open>gateway-core/src/engine/observation.rs\<close> and the persisted request facts of
  \<open>engine/mod.rs\<close>: what one attempt has shown so far (usage, cost, timings, response identity), the
  final record of a request, and the one-shot dispatch of its terminal observation.

  The monotonic clock is the instant each method reads. The extension set a plan belongs to and the
  plan that receives an observation are outside the model: \<open>dispatch\<close> appends to the list of
  observations the plan was handed. The atomic flag makes every \<open>dispatch\<close> one step.
\<close>

section \<open>Request facts\<close>

datatype ModelRequestId = ModelRequestId (request_id_str: string)

definition new_ModelRequestId :: "string \<Rightarrow> IdentifierError + ModelRequestId" where
  "new_ModelRequestId v =
     (case validate_text v 128 False (Some ''req_'') of
        Inl e \<Rightarrow> Err e | Inr _ \<Rightarrow> Ok (ModelRequestId v))"

datatype PublicModelId = PublicModelId (public_model_str: string)

definition new_PublicModelId :: "string \<Rightarrow> IdentifierError + PublicModelId" where
  "new_PublicModelId v =
     (case validate_text v 256 True None of Inl e \<Rightarrow> Err e | Inr _ \<Rightarrow> Ok (PublicModelId v))"

datatype UpstreamModelId = UpstreamModelId (upstream_model_str: string)

definition new_UpstreamModelId :: "string \<Rightarrow> IdentifierError + UpstreamModelId" where
  "new_UpstreamModelId v =
     (case validate_text v 256 True None of Inl e \<Rightarrow> Err e | Inr _ \<Rightarrow> Ok (UpstreamModelId v))"

datatype RevisionError = InvalidRevision

datatype ConfigRevision = ConfigRevision (config_revision_get: nat)

definition new_ConfigRevision :: "nat \<Rightarrow> RevisionError + ConfigRevision" where
  "new_ConfigRevision v = (if v = 0 then Err InvalidRevision else Ok (ConfigRevision v))"

datatype OperationKind = OkGenerate | OkGenerateImage | OkSearch | OkCountTokens | OkProviderHttp

fun OperationKind_as_str :: "OperationKind \<Rightarrow> string" where
  "OperationKind_as_str OkGenerate = ''generate''"
| "OperationKind_as_str OkGenerateImage = ''generate_image''"
| "OperationKind_as_str OkSearch = ''search''"
| "OperationKind_as_str OkCountTokens = ''count_tokens''"
| "OperationKind_as_str OkProviderHttp = ''provider_http''"

datatype ExecutionOutcome = Running | Succeeded | Failed | Cancelled | Incomplete

fun ExecutionOutcome_as_str :: "ExecutionOutcome \<Rightarrow> string" where
  "ExecutionOutcome_as_str Running = ''running''"
| "ExecutionOutcome_as_str Succeeded = ''succeeded''"
| "ExecutionOutcome_as_str Failed = ''failed''"
| "ExecutionOutcome_as_str Cancelled = ''cancelled''"
| "ExecutionOutcome_as_str Incomplete = ''incomplete''"

record ModelRequestTimings =
  mt_transport_decision_wait_ms :: "nat option"
  mt_connect_ms :: "nat option"
  mt_headers_ms :: "nat option"
  mt_first_event_ms :: "nat option"
  mt_first_reasoning_ms :: "nat option"
  mt_first_text_ms :: "nat option"
  mt_first_token_ms :: "nat option"
  mt_provider_processing_ms :: "nat option"
  mt_latency_ms :: "nat option"

definition default_ModelRequestTimings :: ModelRequestTimings where
  "default_ModelRequestTimings =
     \<lparr>mt_transport_decision_wait_ms = None, mt_connect_ms = None, mt_headers_ms = None,
      mt_first_event_ms = None, mt_first_reasoning_ms = None, mt_first_text_ms = None,
      mt_first_token_ms = None, mt_provider_processing_ms = None, mt_latency_ms = None\<rparr>"

record ModelRequestFailureObservation =
  continuation_unavailable_reason :: "string option"
  upstream_connection :: "ProviderConnectionObservation option"

definition default_failure_observation :: ModelRequestFailureObservation where
  "default_failure_observation = \<lparr>continuation_unavailable_reason = None, upstream_connection = None\<rparr>"

text \<open>The trace snapshot and the provider's own metadata document are opaque texts.\<close>

record ModelRequestFinalization =
  fin_request_id :: ModelRequestId
  fin_outcome :: ExecutionOutcome
  fin_send_state :: UpstreamSendState
  fin_attempt_count :: nat
  fin_downstream_committed_at :: "system_time option"
  fin_client_status_code :: "nat option"
  fin_client_response_id :: "string option"
  fin_upstream_status_code :: "nat option"
  fin_upstream_request_id :: "string option"
  fin_upstream_response_id :: "string option"
  fin_upstream_transport :: "string option"
  fin_http_version :: "string option"
  fin_websocket_pool :: "string option"
  fin_service_tier :: "string option"
  fin_upstream_response_model :: "string option"
  fin_provider_metadata_json :: "string option"
  fin_error :: "GatewayError option"
  fin_provider_error_code :: "string option"
  fin_raw_upstream_error :: "string option"
  fin_failure_observation :: ModelRequestFailureObservation
  fin_retry_after_ms :: "nat option"
  fin_usage :: Usage
  fin_image_generation_succeeded :: "bool option"
  fin_cost :: CostEstimate
  fin_timings :: ModelRequestTimings
  fin_completed_at :: system_time


section \<open>The observation of one attempt\<close>

record ResponseObservation =
  timing_started_at :: system_time
  ro_usage :: Usage
  ro_cost :: CostEstimate
  ro_timings :: ModelRequestTimings
  client_response_id :: "string option"
  upstream_response_id :: "string option"

definition new_ResponseObservation :: "system_time \<Rightarrow> ResponseObservation" where
  "new_ResponseObservation started =
     \<lparr>timing_started_at = started, ro_usage = new_Usage, ro_cost = cost_unavailable,
      ro_timings = default_ModelRequestTimings, client_response_id = None, upstream_response_id = None\<rparr>"

text \<open>\<open>Instant::elapsed\<close> saturates at zero; the milliseconds saturate at \<open>u64::MAX\<close>.\<close>

definition millis_u64 :: "duration \<Rightarrow> nat" where
  "millis_u64 d = min (d div 1000000) (2 ^ 64 - 1)"

definition elapsed_ms :: "system_time \<Rightarrow> ResponseObservation \<Rightarrow> nat" where
  "elapsed_ms now ob = millis_u64 (nat (now - timing_started_at ob))"

definition observation_finish :: "system_time \<Rightarrow> ResponseObservation \<Rightarrow> ResponseObservation" where
  "observation_finish now ob =
     ob\<lparr>ro_timings := (ro_timings ob)\<lparr>mt_latency_ms := Some (elapsed_ms now ob)\<rparr>\<rparr>"

definition get_or_insert :: "'a option \<Rightarrow> 'a \<Rightarrow> 'a option" where
  "get_or_insert x v = or_else x (Some v)"

fun event_milestones :: "GatewayEvent \<Rightarrow> nat \<Rightarrow> ModelRequestTimings \<Rightarrow> ModelRequestTimings" where
  "event_milestones (EvReasoningDelta _) elapsed t =
     t\<lparr>mt_first_reasoning_ms := get_or_insert (mt_first_reasoning_ms t) elapsed,
       mt_first_token_ms := get_or_insert (mt_first_token_ms t) elapsed\<rparr>"
| "event_milestones (EvTextDelta _) elapsed t =
     t\<lparr>mt_first_text_ms := get_or_insert (mt_first_text_ms t) elapsed,
       mt_first_token_ms := get_or_insert (mt_first_token_ms t) elapsed\<rparr>"
| "event_milestones (EvToolCallDelta d) elapsed t =
     (if arguments_delta d \<noteq> []
      then t\<lparr>mt_first_token_ms := get_or_insert (mt_first_token_ms t) elapsed\<rparr> else t)"
| "event_milestones _ elapsed t = t"

definition observe_event_timing ::
  "ModelRequestTimings \<Rightarrow> GatewayEvent \<Rightarrow> nat \<Rightarrow> ModelRequestTimings" where
  "observe_event_timing t e elapsed =
     event_milestones e elapsed (t\<lparr>mt_first_event_ms := get_or_insert (mt_first_event_ms t) elapsed\<rparr>)"

fun observe_cost :: "GatewayEvent \<Rightarrow> CostEstimate \<Rightarrow> CostEstimate" where
  "observe_cost (EvCalculatedCost c) cost =
     (if cost_source cost \<noteq> ProviderReported then calculated_into_estimate c else cost)"
| "observe_cost (EvProviderCost c) cost = reported_into_estimate c"
| "observe_cost _ cost = cost"

fun observe_usage :: "GatewayEvent \<Rightarrow> Usage \<Rightarrow> Usage" where
  "observe_usage (EvUsage u) usage = usage_merge usage u"
| "observe_usage _ usage = usage"

definition observe_event :: "system_time \<Rightarrow> ResponseObservation \<Rightarrow> GatewayEvent \<Rightarrow> ResponseObservation" where
  "observe_event now ob e =
     ob\<lparr>ro_timings := observe_event_timing (ro_timings ob) e (elapsed_ms now ob),
        ro_usage := observe_usage e (ro_usage ob),
        ro_cost := observe_cost e (ro_cost ob)\<rparr>"

fun event_identity :: "GatewayEvent \<Rightarrow> string option" where
  "event_identity (EvStarted m) = Some (response_id m)"
| "event_identity (EvCompleted m) = Some (response_id m)"
| "event_identity _ = None"

definition observe_identity :: "ResponseObservation \<Rightarrow> GatewayEvent \<Rightarrow> ResponseObservation" where
  "observe_identity ob e =
     (case event_identity e of
        None \<Rightarrow> ob
      | Some rid \<Rightarrow> ob\<lparr>client_response_id := Some rid, upstream_response_id := Some rid\<rparr>)"

definition reset_for_attempt :: "ResponseObservation \<Rightarrow> ResponseObservation" where
  "reset_for_attempt ob =
     ob\<lparr>ro_usage := new_Usage, ro_cost := cost_unavailable,
        client_response_id := None, upstream_response_id := None,
        ro_timings := (ro_timings ob)
          \<lparr>mt_transport_decision_wait_ms := None, mt_connect_ms := None, mt_headers_ms := None,
           mt_first_event_ms := None, mt_first_reasoning_ms := None, mt_first_text_ms := None,
           mt_first_token_ms := None, mt_provider_processing_ms := None\<rparr>\<rparr>"

definition observe_response ::
  "ResponseObservation \<Rightarrow> ProviderResponseObservation \<Rightarrow> ResponseObservation" where
  "observe_response ob r =
     (let seen = ob_timings r; t = ro_timings ob in
      ob\<lparr>ro_timings := t
        \<lparr>mt_transport_decision_wait_ms := or_else (rt_transport_decision_wait_ms seen) (mt_transport_decision_wait_ms t),
         mt_connect_ms := or_else (rt_connect_ms seen) (mt_connect_ms t),
         mt_headers_ms := or_else (rt_headers_ms seen) (mt_headers_ms t),
         mt_first_event_ms := or_else (rt_first_event_ms seen) (mt_first_event_ms t),
         mt_first_reasoning_ms := or_else (rt_first_reasoning_ms seen) (mt_first_reasoning_ms t),
         mt_first_text_ms := or_else (rt_first_text_ms seen) (mt_first_text_ms t),
         mt_first_token_ms := or_else (rt_first_token_ms seen) (mt_first_token_ms t),
         mt_provider_processing_ms := or_else (rt_provider_processing_ms seen) (mt_provider_processing_ms t)\<rparr>\<rparr>)"


section \<open>Terminal observation\<close>

datatype RequestObservationOutcome = RoSucceeded | RoFailed | RoRejected | RoCancelled | RoIncomplete

record WebSocketResponseAttempt =
  ws_provider :: ProviderKind
  ws_account_id :: ProviderAccountId
  ws_attempt_index :: nat

record RequestObservationScope =
  scope_client_key_id :: ClientApiKeyId
  scope_account_group_ids :: "AccountGroupId list"

type_synonym ExtensionCallScope = "string set"

record FrozenRequestObservationContext =
  fc_request_id :: ModelRequestId
  fc_config_revision :: ConfigRevision
  fc_client_scope :: RequestObservationScope
  fc_operation :: OperationKind
  fc_requested_model :: "PublicModelId option"
  fc_extension_scope :: ExtensionCallScope

record RequestObservation =
  rq_event_id :: string
  rq_request_id :: ModelRequestId
  rq_config_revision :: ConfigRevision
  rq_client_scope :: RequestObservationScope
  rq_extension_scope :: ExtensionCallScope
  rq_operation :: OperationKind
  rq_requested_model :: "PublicModelId option"
  rq_provider :: "ProviderKind option"
  rq_account_id :: "ProviderAccountId option"
  rq_upstream_model :: "UpstreamModelId option"
  rq_response_model :: "string option"
  rq_service_tier :: "string option"
  rq_outcome :: RequestObservationOutcome
  rq_send_state :: UpstreamSendState
  rq_attempt_count :: nat
  rq_client_status_code :: "nat option"
  rq_upstream_status_code :: "nat option"
  rq_error_kind :: "GatewayErrorKind option"
  rq_retry_after_ms :: "nat option"
  rq_usage :: Usage
  rq_cost :: CostEstimate
  rq_timings :: ModelRequestTimings
  rq_completed_at :: system_time

record RequestObservationDispatch =
  dispatch_context :: FrozenRequestObservationContext
  dispatched :: bool
  dispatched_to_plan :: "RequestObservation list"

definition new_RequestObservationDispatch ::
  "FrozenRequestObservationContext \<Rightarrow> RequestObservationDispatch" where
  "new_RequestObservationDispatch c =
     \<lparr>dispatch_context = c, dispatched = False, dispatched_to_plan = []\<rparr>"

definition terminal_event_id :: "RequestObservationDispatch \<Rightarrow> string" where
  "terminal_event_id d = request_id_str (fc_request_id (dispatch_context d)) @ '':terminal''"

definition dispatch ::
  "RequestObservationDispatch \<Rightarrow> RequestObservation \<Rightarrow> RequestObservationDispatch" where
  "dispatch d ob =
     (if dispatched d then d
      else d\<lparr>dispatched := True, dispatched_to_plan := dispatched_to_plan d @ [ob]\<rparr>)"

definition reject_observation ::
  "system_time \<Rightarrow> RequestObservationDispatch \<Rightarrow> GatewayError \<Rightarrow> RequestObservation" where
  "reject_observation now d error =
     (let c = dispatch_context d in
      \<lparr>rq_event_id = terminal_event_id d, rq_request_id = fc_request_id c,
       rq_config_revision = fc_config_revision c, rq_client_scope = fc_client_scope c,
       rq_extension_scope = fc_extension_scope c, rq_operation = fc_operation c,
       rq_requested_model = fc_requested_model c, rq_provider = None, rq_account_id = None,
       rq_upstream_model = None, rq_response_model = None, rq_service_tier = None,
       rq_outcome = RoRejected, rq_send_state = NotSent, rq_attempt_count = 0,
       rq_client_status_code = None, rq_upstream_status_code = None,
       rq_error_kind = Some (ge_kind error),
       rq_retry_after_ms = map_option millis_u64 (gateway_retry_after error),
       rq_usage = new_Usage, rq_cost = cost_unavailable, rq_timings = default_ModelRequestTimings,
       rq_completed_at = now\<rparr>)"

definition reject :: "system_time \<Rightarrow> RequestObservationDispatch \<Rightarrow> GatewayError \<Rightarrow> RequestObservationDispatch" where
  "reject now d error = dispatch d (reject_observation now d error)"

definition policy_rejected :: "ModelRequestFinalization \<Rightarrow> bool" where
  "policy_rejected f \<longleftrightarrow>
     fin_send_state f = NotSent \<and> is_some_and (fin_error f) (\<lambda>e. ge_kind e = GkPolicyDenied)"

fun terminal_outcome :: "ExecutionOutcome \<Rightarrow> bool \<Rightarrow> RequestObservationOutcome" where
  "terminal_outcome Succeeded rejected = RoSucceeded"
| "terminal_outcome Failed rejected = (if rejected then RoRejected else RoFailed)"
| "terminal_outcome Running rejected = (if rejected then RoRejected else RoFailed)"
| "terminal_outcome Cancelled rejected = RoCancelled"
| "terminal_outcome Incomplete rejected = RoIncomplete"

definition finalization_observation ::
  "RequestObservationDispatch \<Rightarrow> ModelRequestFinalization \<Rightarrow> ProviderKind option
     \<Rightarrow> (ProviderAccountId \<times> UpstreamModelId option) option \<Rightarrow> RequestObservation" where
  "finalization_observation d f provider attempt =
     (let c = dispatch_context d in
      \<lparr>rq_event_id = terminal_event_id d, rq_request_id = fc_request_id c,
       rq_config_revision = fc_config_revision c, rq_client_scope = fc_client_scope c,
       rq_extension_scope = fc_extension_scope c, rq_operation = fc_operation c,
       rq_requested_model = fc_requested_model c, rq_provider = provider,
       rq_account_id = map_option fst attempt, rq_upstream_model = Option.bind attempt snd,
       rq_response_model = fin_upstream_response_model f, rq_service_tier = fin_service_tier f,
       rq_outcome = terminal_outcome (fin_outcome f) (policy_rejected f),
       rq_send_state = fin_send_state f, rq_attempt_count = fin_attempt_count f,
       rq_client_status_code = fin_client_status_code f,
       rq_upstream_status_code = fin_upstream_status_code f,
       rq_error_kind = map_option ge_kind (fin_error f), rq_retry_after_ms = fin_retry_after_ms f,
       rq_usage = fin_usage f, rq_cost = fin_cost f, rq_timings = fin_timings f,
       rq_completed_at = fin_completed_at f\<rparr>)"


section \<open>Lemmas\<close>

lemma get_or_insert_simps [simp]: "get_or_insert None v = Some v" "get_or_insert (Some x) v = Some x"
  by (simp_all add: get_or_insert_def)

lemma timing_started_at_kept [simp]:
  "timing_started_at (observe_event now ob e) = timing_started_at ob"
  "timing_started_at (observe_identity ob e) = timing_started_at ob"
  "timing_started_at (reset_for_attempt ob) = timing_started_at ob"
  "timing_started_at (observe_response ob r) = timing_started_at ob"
  "timing_started_at (observation_finish now ob) = timing_started_at ob"
  by (auto simp: observe_event_def observe_identity_def reset_for_attempt_def observe_response_def
      observation_finish_def Let_def split: option.splits)

lemma observe_event_fields [simp]:
  "ro_usage (observe_event now ob e) = observe_usage e (ro_usage ob)"
  "ro_cost (observe_event now ob e) = observe_cost e (ro_cost ob)"
  "client_response_id (observe_event now ob e) = client_response_id ob"
  "upstream_response_id (observe_event now ob e) = upstream_response_id ob"
  by (simp_all add: observe_event_def)

lemma observe_identity_fields [simp]:
  "ro_usage (observe_identity ob e) = ro_usage ob"
  "ro_cost (observe_identity ob e) = ro_cost ob"
  "ro_timings (observe_identity ob e) = ro_timings ob"
  by (simp_all add: observe_identity_def split: option.splits)

text \<open>The cost after a stream of events: the last amount the provider reported, or else the last
  calculated one; a calculated amount after a reported one is ignored.\<close>

fun reported_cost :: "GatewayEvent \<Rightarrow> ProviderReportedCost option" where
  "reported_cost (EvProviderCost c) = Some c"
| "reported_cost _ = None"

fun computed_cost :: "GatewayEvent \<Rightarrow> CalculatedCost option" where
  "computed_cost (EvCalculatedCost c) = Some c"
| "computed_cost _ = None"

definition last_of :: "(GatewayEvent \<Rightarrow> 'a option) \<Rightarrow> GatewayEvent list \<Rightarrow> 'a option" where
  "last_of f es = foldl (\<lambda>acc e. or_else (f e) acc) None es"

lemma last_of_simps [simp]: "last_of f [] = None" "last_of f (es @ [e]) = or_else (f e) (last_of f es)"
  by (simp_all add: last_of_def)

definition settled_cost :: "GatewayEvent list \<Rightarrow> CostEstimate" where
  "settled_cost es =
     (case last_of reported_cost es of
        Some c \<Rightarrow> reported_into_estimate c
      | None \<Rightarrow> (case last_of computed_cost es of
                   Some c \<Rightarrow> calculated_into_estimate c
                 | None \<Rightarrow> cost_unavailable))"

lemma settled_cost_snoc: "settled_cost (es @ [e]) = observe_cost e (settled_cost es)"
  by (cases e) (auto simp: settled_cost_def reported_into_estimate_def calculated_into_estimate_def
      cost_unavailable_def split: option.splits)

lemma observed_cost:
  "ro_cost ob = cost_unavailable
   \<Longrightarrow> ro_cost (foldl (\<lambda>ob (now, e). observe_event now ob e) ob tes) = settled_cost (map snd tes)"
  by (induction tes rule: rev_induct)
     (auto simp: settled_cost_def [of "[]"] settled_cost_snoc split_beta)

fun reported_usage :: "GatewayEvent \<Rightarrow> Usage option" where
  "reported_usage (EvUsage u) = Some u"
| "reported_usage _ = None"

lemma observe_usage_eq: "observe_usage e u = (case reported_usage e of None \<Rightarrow> u | Some v \<Rightarrow> usage_merge u v)"
  by (cases e) simp_all

lemma observed_usage:
  "ro_usage (foldl (\<lambda>ob (now, e). observe_event now ob e) ob tes)
     = foldl usage_merge (ro_usage ob) (List.map_filter reported_usage (map snd tes))"
  by (induction tes rule: rev_induct)
     (auto simp: observe_usage_eq split_beta map_filter_def split: option.splits)

lemma dispatch_history:
  "dispatched_to_plan (foldl dispatch d obs)
     = dispatched_to_plan d @ (if dispatched d then [] else take 1 obs)"
  by (induction obs arbitrary: d) (auto simp: dispatch_def)

fun is_token :: "GatewayEvent \<Rightarrow> bool" where
  "is_token (EvTextDelta _) = True"
| "is_token (EvReasoningDelta _) = True"
| "is_token (EvToolCallDelta d) = (arguments_delta d \<noteq> [])"
| "is_token _ = False"

lemma observe_event_first_token:
  "mt_first_token_ms (ro_timings (observe_event now ob e))
     = (if is_token e then get_or_insert (mt_first_token_ms (ro_timings ob)) (elapsed_ms now ob)
        else mt_first_token_ms (ro_timings ob))"
  by (cases e) (simp_all add: observe_event_def observe_event_timing_def)

lemma observe_event_first_event:
  "mt_first_event_ms (ro_timings (observe_event now ob e))
     = get_or_insert (mt_first_event_ms (ro_timings ob)) (elapsed_ms now ob)"
  by (cases e) (simp_all add: observe_event_def observe_event_timing_def)

lemma elapsed_ms_kept [simp]: "elapsed_ms t (observe_event now ob e) = elapsed_ms t ob"
  by (simp add: elapsed_ms_def)

lemma observed_first_token:
  "mt_first_token_ms (ro_timings (foldl (\<lambda>ob (now, e). observe_event now ob e) ob tes))
     = or_else (mt_first_token_ms (ro_timings ob))
               (map_option (\<lambda>(now, _). elapsed_ms now ob) (List.find (is_token \<circ> snd) tes))"
  by (induction tes arbitrary: ob)
     (auto simp: observe_event_first_token get_or_insert_def split_beta or_else_def split: option.splits)

lemma observed_first_event:
  "mt_first_event_ms (ro_timings (foldl (\<lambda>ob (now, e). observe_event now ob e) ob tes))
     = or_else (mt_first_event_ms (ro_timings ob))
               (case tes of [] \<Rightarrow> None | (now, _) # _ \<Rightarrow> Some (elapsed_ms now ob))"
  by (induction tes arbitrary: ob)
     (auto simp: observe_event_first_event get_or_insert_def split_beta or_else_def split: option.splits list.splits)


section \<open>Properties\<close>

text \<open>after the reset that starts an attempt, whatever earlier attempts had shown, the observation
  is that of the events since: the cost is the last amount the provider reported or else the last
  one calculated, the usage is the merge of the reported usages in order, and the first-event and
  first-token times are those of the first event and of the first event that carries output (an
  empty tool-call frame does not count).\<close>

theorem attempt_observation_exact:
  "let ob' = foldl (\<lambda>ob (now, e). observe_event now ob e) (reset_for_attempt ob) tes in
   ro_cost ob' = settled_cost (map snd tes)
   \<and> ro_usage ob' = foldl usage_merge new_Usage (List.map_filter reported_usage (map snd tes))
   \<and> mt_first_event_ms (ro_timings ob')
       = (case tes of [] \<Rightarrow> None | (now, _) # _ \<Rightarrow> Some (elapsed_ms now ob))
   \<and> mt_first_token_ms (ro_timings ob')
       = map_option (\<lambda>(now, _). elapsed_ms now ob) (List.find (is_token \<circ> snd) tes)"
proof -
  have r: "ro_cost (reset_for_attempt ob) = cost_unavailable" "ro_usage (reset_for_attempt ob) = new_Usage"
    "mt_first_event_ms (ro_timings (reset_for_attempt ob)) = None"
    "mt_first_token_ms (ro_timings (reset_for_attempt ob)) = None"
    "elapsed_ms t (reset_for_attempt ob) = elapsed_ms t ob" for t
    by (simp_all add: reset_for_attempt_def elapsed_ms_def)
  show ?thesis
    unfolding Let_def observed_usage observed_first_token observed_first_event
    by (simp add: observed_cost r split: list.splits)
qed

text \<open>whichever of the terminating branches of a request reach the observer plan, in whatever
  order, exactly the first one is handed over: a request that ends has one terminal observation.\<close>

theorem terminal_observation_once:
  "dispatched_to_plan (foldl dispatch (new_RequestObservationDispatch c) obs) = take 1 obs
   \<and> rq_event_id (finalization_observation (new_RequestObservationDispatch c) f p a)
       = rq_event_id (reject_observation now (new_RequestObservationDispatch c) e)"
  by (simp add: dispatch_history new_RequestObservationDispatch_def finalization_observation_def
      reject_observation_def Let_def terminal_event_id_def)

end
