(* ===== verification/Runtime_Settings.thy ===== *)
theory Runtime_Settings
  imports Account_Selection Response_Observation
begin

text \<open>
  The client policy of \<open>gateway-core/src/policy/mod.rs\<close> with the minimum client versions of
  \<open>policy/client_version.rs\<close>, and the runtime settings with their compiled form
  (\<open>settings/values.rs\<close>, \<open>settings/compiled.rs\<close>).

  A semantic version is a value of a linearly ordered type, and \<open>Version::parse\<close> of the \<open>semver\<close> crate a
  parameter. Integer fields are \<open>nat\<close>; \<open>isize\<close> and \<open>usize\<close> are 64 bits wide.
\<close>

section \<open>Client versions\<close>

definition MAXIMUM_VERSION_LENGTH :: nat where "MAXIMUM_VERSION_LENGTH = 64"

datatype CodexClientKind = Desktop | Cli

datatype CodexClientVersionError = CodexClientVersionError

definition CodexClientVersion_parse ::
  "(string \<Rightarrow> 'v option) \<Rightarrow> string \<Rightarrow> CodexClientVersionError + 'v" where
  "CodexClientVersion_parse version_parse v =
     (if v = [] \<or> MAXIMUM_VERSION_LENGTH < length v \<or> trim v \<noteq> v \<or> list_ex is_ascii_control v
      then Err CodexClientVersionError
      else ok_or (version_parse v) CodexClientVersionError)"

record 'v CodexClientMinVersions =
  min_desktop :: "'v option"
  min_cli :: "'v option"

fun min_for :: "'v CodexClientMinVersions \<Rightarrow> CodexClientKind \<Rightarrow> 'v option" where
  "min_for m Desktop = min_desktop m"
| "min_for m Cli = min_cli m"

datatype 'v ClientVersionRejection =
    VersionUnavailable CodexClientKind 'v
  | VersionTooOld CodexClientKind 'v 'v

definition enforce ::
  "'v::linorder CodexClientMinVersions \<Rightarrow> CodexClientKind \<Rightarrow> 'v option \<Rightarrow> 'v ClientVersionRejection + unit" where
  "enforce m kind current =
     (case min_for m kind of
        None \<Rightarrow> Ok ()
      | Some least \<Rightarrow>
          (case current of
             None \<Rightarrow> Err (VersionUnavailable kind least)
           | Some v \<Rightarrow> if v < least then Err (VersionTooOld kind v least) else Ok ()))"


section \<open>Client policy\<close>

record RateLimits =
  max_concurrency :: nat
  requests_per_minute :: nat

definition unlimited_RateLimits :: RateLimits where
  "unlimited_RateLimits = \<lparr>max_concurrency = 0, requests_per_minute = 0\<rparr>"

record ClientSettings =
  cs_request_profiles :: "ProviderKind \<rightharpoonup> OpaqueProviderData"
  cs_disable_fast :: bool
  cs_limits :: RateLimits

record ClientPolicy =
  cp_defaults :: ClientSettings
  cp_key_id :: ClientApiKeyId
  cp_plaintext_key :: PlaintextClientApiKey
  cp_account_scope :: FrozenAccountScope
  cp_enabled :: bool
  cp_limits :: RateLimits

definition new_ClientPolicy ::
  "ClientApiKeyId \<Rightarrow> PlaintextClientApiKey \<Rightarrow> FrozenAccountScope \<Rightarrow> bool \<Rightarrow> RateLimits \<Rightarrow> ClientPolicy" where
  "new_ClientPolicy key_id plaintext_key account_scope enabled limits =
     \<lparr>cp_defaults = \<lparr>cs_request_profiles = scope_request_profiles account_scope,
                    cs_disable_fast = scope_disable_fast account_scope, cs_limits = limits\<rparr>,
      cp_key_id = key_id, cp_plaintext_key = plaintext_key, cp_account_scope = account_scope,
      cp_enabled = enabled, cp_limits = limits\<rparr>"

definition policy_with_settings ::
  "ClientPolicy \<Rightarrow> (ProviderKind \<rightharpoonup> OpaqueProviderData) \<Rightarrow> bool \<Rightarrow> RateLimits \<Rightarrow> ClientPolicy" where
  "policy_with_settings p profiles disable_fast limits =
     (let scope = cp_account_scope p;
          p = (if scope_request_profiles scope \<noteq> profiles \<or> scope_disable_fast scope \<noteq> disable_fast
               then p\<lparr>cp_account_scope := with_disable_fast (with_request_profiles scope profiles) disable_fast\<rparr>
               else p)
      in p\<lparr>cp_limits := limits\<rparr>)"

definition authorize :: "ClientPolicy \<Rightarrow> PolicyError + unit" where
  "authorize p = (if cp_enabled p then Ok () else Err (Denied ''client API key is disabled''))"

text \<open>A request-level policy carries the new settings and the same permissions and defaults.\<close>

lemma policy_with_settings_facts:
  "scope_request_profiles (cp_account_scope (policy_with_settings p profiles fast limits)) = profiles"
  "scope_disable_fast (cp_account_scope (policy_with_settings p profiles fast limits)) = fast"
  "cp_limits (policy_with_settings p profiles fast limits) = limits"
  "cp_defaults (policy_with_settings p profiles fast limits) = cp_defaults p"
  "allows (cp_account_scope (policy_with_settings p profiles fast limits)) = allows (cp_account_scope p)"
  by (auto simp: policy_with_settings_def Let_def with_disable_fast_def with_request_profiles_def allows_def
      fun_eq_iff split: option.splits)


section \<open>Settings\<close>

record SettingsValues =
  sv_pricing :: PricingOverrides
  sv_request_profiles :: "ProviderKind \<rightharpoonup> OpaqueProviderData"
  sv_request_location_enabled :: bool
  sv_request_location :: RequestLocation
  sv_max_concurrent_per_account :: nat
  sv_max_waiting_per_key :: nat
  sv_max_waiting_per_account :: nat
  sv_concurrency_wait_timeout_seconds :: nat
  sv_openai_guardian_reserved_concurrency :: nat
  sv_responses_max_decompressed_body_bytes :: nat
  sv_request_interval_ms :: nat
  sv_smart_scheduling :: SmartSchedulingConfig
  sv_rotation_strategy :: string
  sv_model_mappings :: "(string \<times> string) list"
  sv_min_codex_desktop_version :: "string option"
  sv_min_codex_cli_version :: "string option"

definition new_SettingsValues ::
  "nat \<Rightarrow> nat \<Rightarrow> string \<Rightarrow> (string \<times> string) list \<Rightarrow> string option \<Rightarrow> string option \<Rightarrow> SettingsValues" where
  "new_SettingsValues max_concurrent_per_account request_interval_ms rotation_strategy model_mappings desktop cli =
     \<lparr>sv_pricing = [], sv_request_profiles = Map.empty, sv_request_location_enabled = False,
      sv_request_location = default_RequestLocation,
      sv_max_concurrent_per_account = max_concurrent_per_account, sv_max_waiting_per_key = 0,
      sv_max_waiting_per_account = 0, sv_concurrency_wait_timeout_seconds = 30,
      sv_openai_guardian_reserved_concurrency = 0,
      sv_responses_max_decompressed_body_bytes = 64 * 1024 * 1024,
      sv_request_interval_ms = request_interval_ms, sv_smart_scheduling = default_SmartSchedulingConfig,
      sv_rotation_strategy = rotation_strategy, sv_model_mappings = model_mappings,
      sv_min_codex_desktop_version = desktop, sv_min_codex_cli_version = cli\<rparr>"

definition settings_with_concurrency_queues :: "SettingsValues \<Rightarrow> nat \<Rightarrow> nat \<Rightarrow> nat \<Rightarrow> SettingsValues" where
  "settings_with_concurrency_queues s per_key per_account seconds =
     s\<lparr>sv_max_waiting_per_key := per_key, sv_max_waiting_per_account := per_account,
       sv_concurrency_wait_timeout_seconds := seconds\<rparr>"

definition settings_with_request_location :: "SettingsValues \<Rightarrow> RequestLocation \<Rightarrow> bool \<Rightarrow> SettingsValues" where
  "settings_with_request_location s location enabled =
     s\<lparr>sv_request_location_enabled := enabled, sv_request_location := location\<rparr>"

definition settings_with_model_mappings :: "SettingsValues \<Rightarrow> (string \<times> string) list \<Rightarrow> SettingsValues" where
  "settings_with_model_mappings s mappings = s\<lparr>sv_model_mappings := mappings\<rparr>"

datatype InvalidSettings = InvalidSettings

record 'v CompiledSettings =
  compiled_values :: SettingsValues
  compiled_selection_policy :: AccountSelectionPolicy
  compiled_client_queue_policy :: ConcurrencyQueuePolicy
  compiled_max_decompressed_body_bytes :: nat
  compiled_min_versions :: "'v CodexClientMinVersions"
  compiled_request_location :: "RequestLocation option"

text \<open>\<open>.map(parse).transpose()\<close>: absent stays absent, an invalid version is an error.\<close>

definition parse_optional_version ::
  "(string \<Rightarrow> 'v option) \<Rightarrow> string option \<Rightarrow> InvalidSettings + 'v option" where
  "parse_optional_version version_parse v =
     (case v of
        None \<Rightarrow> Ok None
      | Some t \<Rightarrow>
          (case CodexClientVersion_parse version_parse t of
             Inl _ \<Rightarrow> Err InvalidSettings | Inr w \<Rightarrow> Ok (Some w)))"

text \<open>\<open>u64\<close> to \<open>isize\<close>, back to \<open>usize\<close>, and not zero.\<close>

definition body_limit :: "nat \<Rightarrow> InvalidSettings + nat" where
  "body_limit bytes = (if bytes < 2 ^ 63 \<and> bytes \<noteq> 0 then Ok bytes else Err InvalidSettings)"

definition new_CompiledSettings ::
  "(string \<Rightarrow> 'v option) \<Rightarrow> SettingsValues \<Rightarrow> InvalidSettings + 'v CompiledSettings" where
  "new_CompiledSettings version_parse s =
     (if 1000 < sv_max_waiting_per_key s \<or> 1000 < sv_max_waiting_per_account s
         \<or> \<not> (1 \<le> sv_concurrency_wait_timeout_seconds s \<and> sv_concurrency_wait_timeout_seconds s \<le> 120)
      then Err InvalidSettings
      else
        let queue_timeout = from_secs (sv_concurrency_wait_timeout_seconds s) in
        case body_limit (sv_responses_max_decompressed_body_bytes s) of
          Inl e \<Rightarrow> Err e
        | Inr body_bytes \<Rightarrow>
        case parse_optional_version version_parse (sv_min_codex_desktop_version s) of
          Inl e \<Rightarrow> Err e
        | Inr desktop \<Rightarrow>
        case parse_optional_version version_parse (sv_min_codex_cli_version s) of
          Inl e \<Rightarrow> Err e
        | Inr cli \<Rightarrow>
        case RotationStrategy_parse (sv_rotation_strategy s) of
          None \<Rightarrow> Err InvalidSettings
        | Some strategy \<Rightarrow>
        let policy =
              policy_with_queue
                (policy_with_smart_scheduling
                  (policy_with_guardian_reserved
                    (new_AccountSelectionPolicy strategy
                      (new_AccountConcurrency (sv_max_concurrent_per_account s))
                      (from_millis (sv_request_interval_ms s)))
                    (sv_openai_guardian_reserved_concurrency s))
                  (sv_smart_scheduling s))
                \<lparr>max_waiting = sv_max_waiting_per_account s, policy_timeout = queue_timeout\<rparr>;
            location = (if sv_request_location_enabled s then normalized (sv_request_location s)
                        else Ok (sv_request_location s))
        in case location of
             Inl _ \<Rightarrow> Err InvalidSettings
           | Inr l \<Rightarrow>
               if \<exists>models \<in> set (map snd (sv_pricing s)). \<exists>price \<in> set (map snd models).
                    validate_override price \<noteq> Ok ()
               then Err InvalidSettings
               else Ok \<lparr>compiled_values = s, compiled_selection_policy = policy,
                        compiled_client_queue_policy =
                          \<lparr>max_waiting = sv_max_waiting_per_key s, policy_timeout = queue_timeout\<rparr>,
                        compiled_max_decompressed_body_bytes = body_bytes,
                        compiled_min_versions = \<lparr>min_desktop = desktop, min_cli = cli\<rparr>,
                        compiled_request_location =
                          (if sv_request_location_enabled s then Some l else None)\<rparr>)"

lemma new_CompiledSettings_shape:
  assumes "new_CompiledSettings version_parse s = Ok c"
  obtains strategy where
    "sv_max_waiting_per_key s \<le> 1000" "sv_max_waiting_per_account s \<le> 1000"
    "1 \<le> sv_concurrency_wait_timeout_seconds s" "sv_concurrency_wait_timeout_seconds s \<le> 120"
    "body_limit (sv_responses_max_decompressed_body_bytes s) = Ok (compiled_max_decompressed_body_bytes c)"
    "RotationStrategy_parse (sv_rotation_strategy s) = Some strategy"
    "compiled_values c = s"
    "compiled_client_queue_policy c =
       \<lparr>max_waiting = sv_max_waiting_per_key s, policy_timeout = from_secs (sv_concurrency_wait_timeout_seconds s)\<rparr>"
    "policy_queue (compiled_selection_policy c) =
       \<lparr>max_waiting = sv_max_waiting_per_account s, policy_timeout = from_secs (sv_concurrency_wait_timeout_seconds s)\<rparr>"
    "policy_max_concurrent (compiled_selection_policy c) = new_AccountConcurrency (sv_max_concurrent_per_account s)"
    "policy_strategy (compiled_selection_policy c) = strategy"
    "compiled_request_location c = None \<or>
       (\<exists>l. normalized (sv_request_location s) = Ok l \<and> compiled_request_location c = Some l)"
    "\<forall>models \<in> set (map snd (sv_pricing s)). \<forall>price \<in> set (map snd models). validate_override price = Ok ()"
  using assms that
  unfolding new_CompiledSettings_def Let_def policy_with_queue_def policy_with_smart_scheduling_def
    policy_with_guardian_reserved_def new_AccountSelectionPolicy_def
  by (simp split: if_split_asm sum.split_asm option.split_asm) (drule sym[of _ c], simp)+

text \<open>What every compiled setting guarantees to the rest of the gateway.\<close>

lemma new_CompiledSettings_facts:
  assumes "new_CompiledSettings version_parse s = Ok c"
  shows "compiled_values c = s"
    "0 < compiled_max_decompressed_body_bytes c \<and> compiled_max_decompressed_body_bytes c < 2 ^ 63"
    "from_secs 1 \<le> policy_timeout (compiled_client_queue_policy c)
     \<and> policy_timeout (compiled_client_queue_policy c) \<le> from_secs 120"
    "max_waiting (compiled_client_queue_policy c) \<le> 1000 \<and> max_waiting (policy_queue (compiled_selection_policy c)) \<le> 1000"
    "concurrency_ok (policy_max_concurrent (compiled_selection_policy c))"
    "is_none_or (compiled_request_location c) (\<lambda>l. validate_RequestLocation l = Ok () \<and> normalized l = Ok l)"
proof -
  obtain strategy where sh: "sv_max_waiting_per_key s \<le> 1000" "sv_max_waiting_per_account s \<le> 1000"
    "1 \<le> sv_concurrency_wait_timeout_seconds s" "sv_concurrency_wait_timeout_seconds s \<le> 120"
    "body_limit (sv_responses_max_decompressed_body_bytes s) = Ok (compiled_max_decompressed_body_bytes c)"
    "compiled_values c = s"
    "compiled_client_queue_policy c =
       \<lparr>max_waiting = sv_max_waiting_per_key s, policy_timeout = from_secs (sv_concurrency_wait_timeout_seconds s)\<rparr>"
    "policy_queue (compiled_selection_policy c) =
       \<lparr>max_waiting = sv_max_waiting_per_account s, policy_timeout = from_secs (sv_concurrency_wait_timeout_seconds s)\<rparr>"
    "policy_max_concurrent (compiled_selection_policy c) = new_AccountConcurrency (sv_max_concurrent_per_account s)"
    "compiled_request_location c = None \<or>
       (\<exists>l. normalized (sv_request_location s) = Ok l \<and> compiled_request_location c = Some l)"
    using new_CompiledSettings_shape[OF assms] by metis
  show "compiled_values c = s" by (fact sh)
  show "0 < compiled_max_decompressed_body_bytes c \<and> compiled_max_decompressed_body_bytes c < 2 ^ 63"
    using sh(5) by (simp add: body_limit_def split: if_splits)
  show "from_secs 1 \<le> policy_timeout (compiled_client_queue_policy c)
     \<and> policy_timeout (compiled_client_queue_policy c) \<le> from_secs 120"
    using sh(3,4,7) by (simp add: from_secs_def)
  show "max_waiting (compiled_client_queue_policy c) \<le> 1000 \<and> max_waiting (policy_queue (compiled_selection_policy c)) \<le> 1000"
    using sh by simp
  show "concurrency_ok (policy_max_concurrent (compiled_selection_policy c))"
    using sh(9) by (simp add: concurrency_ok_intros)
  show "is_none_or (compiled_request_location c) (\<lambda>l. validate_RequestLocation l = Ok () \<and> normalized l = Ok l)"
    using sh(10) normalized_stable by (auto simp: is_none_or_iff)
qed

end
