(* ===== verification/Json_Access.thy ===== *)
theory Json_Access
  imports Canonical_Event
begin

text \<open>
  The readers of \<open>serde_json::Value\<close> the components use. An object is the list of its entries in order
  (the \<open>preserve_order\<close> map), a number the text it was read from (\<open>arbitrary_precision\<close>).
\<close>

fun json_get :: "string \<Rightarrow> JsonValue \<Rightarrow> JsonValue option" where
  "json_get key (JObject kvs) = map_of kvs key"
| "json_get key _ = None"

fun json_as_str :: "JsonValue \<Rightarrow> string option" where
  "json_as_str (JString s) = Some s"
| "json_as_str _ = None"

fun json_as_array :: "JsonValue \<Rightarrow> JsonValue list option" where
  "json_as_array (JArray vs) = Some vs"
| "json_as_array _ = None"

fun json_as_object :: "JsonValue \<Rightarrow> (string \<times> JsonValue) list option" where
  "json_as_object (JObject kvs) = Some kvs"
| "json_as_object _ = None"

fun json_as_u64 :: "JsonValue \<Rightarrow> nat option" where
  "json_as_u64 (JNumber n) = parse_u 64 n"
| "json_as_u64 _ = None"

end
