(* ===== verification/Routing_Snapshot.thy ===== *)
theory Routing_Snapshot
  imports Runtime_Settings Json_Access
begin

text \<open>
  Routing (\<open>gateway-core/src/routing/mod.rs\<close>, \<open>routing/snapshot.rs\<close>, \<open>routing/catalog.rs\<close>) and the
  capability requirements of a request (\<open>operation.rs\<close>): a runtime snapshot is compiled from the facts of
  the store and the providers' model catalogs, and plans, for a request, which providers may serve it with
  which upstream model.

  A \<open>BTreeSet\<close> is a set, iterated in the order of the texts of its elements; a \<open>BTreeMap\<close> is an
  association list with distinct keys or, where it is only looked up, a map. The store, the catalogs and
  the preparation of extensions are parameters. Of an operation other than a generation only the kind is
  kept, and of a generation the parts the requirements are derived from.
\<close>

section \<open>Capability requirements of a request\<close>

datatype Feature = Tools | Vision | Reasoning | JsonSchema | NativeContinuation

definition all_features :: "Feature list" where
  "all_features = [Tools, Vision, Reasoning, JsonSchema, NativeContinuation]"

record CapabilityRequirements =
  req_operation :: OperationKind
  req_features :: "Feature set"
  req_output_tokens :: "nat option"

definition new_CapabilityRequirements :: "OperationKind \<Rightarrow> CapabilityRequirements" where
  "new_CapabilityRequirements operation =
     \<lparr>req_operation = operation, req_features = {}, req_output_tokens = None\<rparr>"

definition require_feature :: "Feature \<Rightarrow> CapabilityRequirements \<Rightarrow> CapabilityRequirements" where
  "require_feature f r = r\<lparr>req_features := insert f (req_features r)\<rparr>"

record GenerateRequest =
  gr_body :: "(string \<times> JsonValue) list"
  gr_source_requirements :: "CapabilityRequirements option"
  gr_inherited_requirements :: "CapabilityRequirements option"

datatype OperationRequest =
    GenerateOperation GenerateRequest
  | GenerateImageOperation
  | SearchOperation
  | CountTokensOperation
  | ProviderHttpOperation

fun operation_kind :: "OperationRequest \<Rightarrow> OperationKind" where
  "operation_kind (GenerateOperation _) = OkGenerate"
| "operation_kind GenerateImageOperation = OkGenerateImage"
| "operation_kind SearchOperation = OkSearch"
| "operation_kind CountTokensOperation = OkCountTokens"
| "operation_kind ProviderHttpOperation = OkProviderHttp"

definition max_output_tokens :: "GenerateRequest \<Rightarrow> nat option" where
  "max_output_tokens r =
     filter_option (\<lambda>tokens. 0 < tokens) (Option.bind (map_of (gr_body r) ''max_output_tokens'') json_as_u64)"

definition native_continuation_requested :: "GenerateRequest \<Rightarrow> bool" where
  "native_continuation_requested r \<longleftrightarrow>
     is_some (Option.bind (map_of (gr_body r) ''previous_response_id'') json_as_str)"

fun contains_type :: "string \<Rightarrow> JsonValue \<Rightarrow> bool" where
  "contains_type expected (JArray vs) = list_ex (contains_type expected) vs"
| "contains_type expected (JObject kvs) =
     (Option.bind (map_of kvs ''type'') json_as_str = Some expected
      \<or> list_ex (\<lambda>(_, v). contains_type expected v) kvs)"
| "contains_type expected _ = False"

definition requires_tools :: "GenerateRequest \<Rightarrow> bool" where
  "requires_tools r = is_some_and (Option.bind (map_of (gr_body r) ''tools'') json_as_array) (\<lambda>tools. tools \<noteq> [])"

definition requires_json_schema :: "GenerateRequest \<Rightarrow> bool" where
  "requires_json_schema r \<longleftrightarrow>
     Option.bind (Option.bind (Option.bind (Option.bind (Option.bind (map_of (gr_body r) ''text'') json_as_object)
       (\<lambda>text. map_of text ''format'')) json_as_object) (\<lambda>format. map_of format ''type'')) json_as_str
     = Some ''json_schema''"

definition requirements :: "GenerateRequest \<Rightarrow> CapabilityRequirements" where
  "requirements r =
     (case gr_source_requirements r of
        Some given \<Rightarrow> given
      | None \<Rightarrow>
          let req = (new_CapabilityRequirements OkGenerate)\<lparr>req_output_tokens := max_output_tokens r\<rparr>;
              req = (case gr_inherited_requirements r of
                       None \<Rightarrow> req
                     | Some inherited \<Rightarrow> req\<lparr>req_features := req_features req \<union> req_features inherited\<rparr>);
              req = (if requires_tools r then require_feature Tools req else req);
              req = (if is_some_and (map_of (gr_body r) ''input'') (contains_type ''input_image'')
                     then require_feature Vision req else req);
              req = (if is_some (Option.bind (map_of (gr_body r) ''reasoning'') json_as_object)
                     then require_feature Reasoning req else req);
              req = (if requires_json_schema r then require_feature JsonSchema req else req)
          in if native_continuation_requested r then require_feature NativeContinuation req else req)"

fun capability_requirements :: "OperationRequest \<Rightarrow> CapabilityRequirements" where
  "capability_requirements (GenerateOperation r) = requirements r"
| "capability_requirements op = new_CapabilityRequirements (operation_kind op)"


section \<open>Model capabilities and catalogs\<close>

datatype SupportLevel = SupportNative | SupportEmulated | SupportUnsupported | SupportUnknown

record ModelCapabilities =
  mc_operations :: "OperationKind set"
  mc_features :: "Feature \<rightharpoonup> SupportLevel"
  mc_max_output_tokens :: "nat option"
  mc_upstream_validates_features :: bool

definition new_ModelCapabilities :: "OperationKind set \<Rightarrow> nat option \<Rightarrow> ModelCapabilities" where
  "new_ModelCapabilities operations max_tokens =
     \<lparr>mc_operations = operations, mc_features = Map.empty, mc_max_output_tokens = max_tokens,
      mc_upstream_validates_features = False\<rparr>"

definition with_feature :: "ModelCapabilities \<Rightarrow> Feature \<Rightarrow> SupportLevel \<Rightarrow> ModelCapabilities" where
  "with_feature c f support = c\<lparr>mc_features := (mc_features c)(f \<mapsto> support)\<rparr>"

fun match_features :: "(Feature \<rightharpoonup> SupportLevel) \<Rightarrow> Feature list \<Rightarrow> Feature set \<Rightarrow> Feature set option" where
  "match_features support [] emulated = Some emulated"
| "match_features support (f # fs) emulated =
     (case unwrap_or (support f) SupportUnknown of
        SupportNative \<Rightarrow> match_features support fs emulated
      | SupportEmulated \<Rightarrow> match_features support fs (insert f emulated)
      | SupportUnsupported \<Rightarrow> None
      | SupportUnknown \<Rightarrow> None)"

definition match_requirements :: "ModelCapabilities \<Rightarrow> CapabilityRequirements \<Rightarrow> Feature set option" where
  "match_requirements c r =
     (if req_operation r \<notin> mc_operations c
         \<or> is_some_and (req_output_tokens r)
             (\<lambda>requested. is_some_and (mc_max_output_tokens c) (\<lambda>maximum. maximum < requested))
      then None
      else if mc_upstream_validates_features c then Some {}
      else match_features (mc_features c) (filter (\<lambda>f. f \<in> req_features r) all_features) {})"

record ModelServiceTier =
  tier_id :: string
  tier_name :: string
  tier_description :: string
  tier_speed :: "string option"

record ModelPresentation =
  mp_display_name :: "string option"
  mp_description :: "string option"
  mp_default_reasoning_effort :: "string option"
  mp_supported_reasoning_efforts :: "string list"
  mp_context_window_tokens :: "nat option"
  mp_max_context_window_tokens :: "nat option"
  mp_image_input :: bool
  mp_agent_tools :: bool
  mp_parallel_tool_calls :: bool
  mp_search_tool :: bool
  mp_image_detail_original :: bool
  mp_verbosity :: bool
  mp_service_tiers :: "ModelServiceTier list"
  mp_hidden :: bool

record ProviderModel =
  pm_provider :: ProviderKind
  pm_upstream_model :: UpstreamModelId
  pm_capabilities :: ModelCapabilities
  pm_presentation :: "ModelPresentation option"

record ContributedModelAlias =
  alias_owner :: string
  alias_id :: PublicModelId
  alias_provider :: ProviderKind
  alias_target :: UpstreamModelId

record ProviderModelCapabilities =
  pmc_upstream_model :: UpstreamModelId
  pmc_capabilities :: ModelCapabilities
  pmc_presentation :: "ModelPresentation option"
  pmc_catalog_accounts :: "ProviderAccountId set option"

text \<open>The catalog port at one moment: a query may fail, and tells whether it lists every model.\<close>

record ProviderCatalog =
  query_model_capabilities :: "ProviderKind \<Rightarrow> ProviderModelCapabilities list option"
  model_catalog_is_exhaustive :: "ProviderKind \<Rightarrow> bool"

record ExtensionSetReference =
  ext_id :: string
  ext_model_aliases :: "ContributedModelAlias list"


section \<open>Plans\<close>

definition MAX_REQUEST_ATTEMPTS :: nat where "MAX_REQUEST_ATTEMPTS = 32"

definition upstream_from_client_wire :: "string \<Rightarrow> IdentifierError + UpstreamModelId" where
  "upstream_from_client_wire v = (if v = [] then Err Empty else Ok (UpstreamModelId v))"

definition public_from_client_wire :: "string \<Rightarrow> IdentifierError + PublicModelId" where
  "public_from_client_wire v = (if v = [] then Err Empty else Ok (PublicModelId v))"

record RoutingContext =
  required_provider :: "ProviderKind option"
  blocked_providers :: "ProviderKind set"

record ProviderCandidate =
  pc_provider :: ProviderKind
  pc_upstream_model :: "UpstreamModelId option"
  pc_emulated_features :: "Feature set"
  pc_account_scope :: FrozenAccountScope

record RoutingPlan =
  plan_pricing :: PricingOverrides
  plan_request_location :: "RequestLocation option"
  plan_config_revision :: ConfigRevision
  plan_selection_policy :: AccountSelectionPolicy
  plan_operation :: OperationKind
  plan_max_attempts :: nat
  plan_account_scope :: FrozenAccountScope
  plan_candidates :: "ProviderCandidate list"

datatype RoutingError =
    RouteInvalidSettings
  | InvalidIdentifier
  | EmptyAccountScope
  | DuplicateEntity string string
  | EntityNotFound string string
  | ModelNotFound string string
  | NoCapableProvider string
  | NoCapableProviderEndpoint string
  | UnsupportedProviderEndpoint string string


section \<open>The snapshot\<close>

type_synonym ModelTable = "(ProviderKind \<times> (UpstreamModelId \<times> ModelCapabilities) list) list"
type_synonym PresentationTable = "(ProviderKind \<times> (UpstreamModelId \<times> ModelPresentation) list) list"
type_synonym CatalogAccounts = "ProviderKind \<rightharpoonup> (string \<rightharpoonup> ProviderAccountId set)"

record 'v RuntimeSnapshot =
  rs_settings :: "'v CompiledSettings"
  rs_extensions :: "ExtensionSetReference option"
  rs_revision :: ConfigRevision
  rs_providers :: "ProviderKind set"
  rs_provider_models :: ModelTable
  rs_presentations :: PresentationTable
  rs_catalog_generations :: "ProviderKind \<rightharpoonup> nat"
  rs_exhaustive_catalogs :: "ProviderKind set"
  rs_catalog_accounts :: CatalogAccounts
  rs_account_directory :: RuntimeAccountDirectory
  rs_client_policies :: "ClientApiKeyId \<rightharpoonup> ClientPolicy"

fun insert_providers :: "ProviderKind list \<Rightarrow> ProviderKind set \<Rightarrow> RoutingError + ProviderKind set" where
  "insert_providers [] known = Ok known"
| "insert_providers (p # ps) known =
     (if p \<in> known then Err (DuplicateEntity ''provider'' (provider_kind_str p))
      else insert_providers ps (insert p known))"

record ModelTables =
  mt_exhaustive :: "ProviderKind set"
  mt_models :: ModelTable
  mt_presentations :: PresentationTable

fun insert_models :: "ProviderKind set \<Rightarrow> ProviderModel list \<Rightarrow> ModelTables \<Rightarrow> RoutingError + ModelTables" where
  "insert_models known [] t = Ok t"
| "insert_models known (m # ms) t =
     (let provider = pm_provider m;
          model = pm_upstream_model m;
          t = t\<lparr>mt_exhaustive := insert provider (mt_exhaustive t)\<rparr>
      in if provider \<notin> known then Err (EntityNotFound ''provider'' (provider_kind_str provider))
         else
           let models = unwrap_or (map_of (mt_models t) provider) [] in
           if is_some (map_of models model)
           then Err (DuplicateEntity ''provider model'' (upstream_model_str model))
           else
             let t = t\<lparr>mt_models := AList.update provider ((model, pm_capabilities m) # models) (mt_models t)\<rparr>;
                 t = (case pm_presentation m of
                        None \<Rightarrow> t
                      | Some presentation \<Rightarrow>
                          t\<lparr>mt_presentations :=
                              AList.update provider
                                (AList.update model presentation
                                   (unwrap_or (map_of (mt_presentations t) provider) []))
                                (mt_presentations t)\<rparr>)
             in insert_models known ms t)"

fun insert_policies ::
  "ClientPolicy list \<Rightarrow> (ClientApiKeyId \<rightharpoonup> ClientPolicy) \<Rightarrow> RoutingError + (ClientApiKeyId \<rightharpoonup> ClientPolicy)" where
  "insert_policies [] known = Ok known"
| "insert_policies (p # ps) known =
     (if is_some (known (cp_key_id p))
      then Err (DuplicateEntity ''client API key'' (client_key_id_str (cp_key_id p)))
      else insert_policies ps (known(cp_key_id p \<mapsto> p)))"

text \<open>\<open>retain(|_, policy| policy.enabled())\<close>\<close>

definition retain_enabled :: "(ClientApiKeyId \<rightharpoonup> ClientPolicy) \<Rightarrow> ClientApiKeyId \<rightharpoonup> ClientPolicy" where
  "retain_enabled m = (\<lambda>k. filter_option cp_enabled (m k))"

definition new_RuntimeSnapshot ::
  "(string \<Rightarrow> 'v option) \<Rightarrow> ConfigRevision \<Rightarrow> SettingsValues \<Rightarrow> ProviderKind list \<Rightarrow> ProviderModel list
   \<Rightarrow> ClientPolicy list \<Rightarrow> RoutingError + 'v RuntimeSnapshot" where
  "new_RuntimeSnapshot version_parse revision values providers models policies =
     (case insert_providers providers {} of
        Inl e \<Rightarrow> Err e
      | Inr known \<Rightarrow>
      case insert_models known models \<lparr>mt_exhaustive = {}, mt_models = [], mt_presentations = []\<rparr> of
        Inl e \<Rightarrow> Err e
      | Inr tables \<Rightarrow>
      case insert_policies policies Map.empty of
        Inl e \<Rightarrow> Err e
      | Inr policy_map \<Rightarrow>
      case new_CompiledSettings version_parse values of
        Inl _ \<Rightarrow> Err RouteInvalidSettings
      | Inr settings \<Rightarrow>
          Ok \<lparr>rs_settings = settings, rs_extensions = None, rs_revision = revision, rs_providers = known,
              rs_provider_models = mt_models tables, rs_presentations = mt_presentations tables,
              rs_catalog_generations = Map.empty, rs_exhaustive_catalogs = mt_exhaustive tables,
              rs_catalog_accounts = Map.empty,
              rs_account_directory = new_RuntimeAccountDirectory [],
              rs_client_policies = retain_enabled policy_map\<rparr>)"

definition provider_models_of :: "'v RuntimeSnapshot \<Rightarrow> ProviderKind \<Rightarrow> (UpstreamModelId \<times> ModelCapabilities) list" where
  "provider_models_of s p = unwrap_or (map_of (rs_provider_models s) p) []"

definition all_account_scope :: "'v RuntimeSnapshot \<Rightarrow> FrozenAccountScope" where
  "all_account_scope s = new_FrozenAccountScope (rs_account_directory s) AllAccounts"

datatype RuntimeSnapshotCompileError =
    ExtensionsUnavailable
  | StoreUnavailable
  | RevisionChanged
  | InvalidData
  | InvalidExtensionModels
  | CatalogChanged

definition with_settings ::
  "(string \<Rightarrow> 'v option) \<Rightarrow> 'v RuntimeSnapshot \<Rightarrow> SettingsValues \<Rightarrow> RuntimeSnapshotCompileError + 'v RuntimeSnapshot" where
  "with_settings version_parse s values =
     (case new_CompiledSettings version_parse values of
        Inl _ \<Rightarrow> Err InvalidData
      | Inr settings \<Rightarrow> Ok (s\<lparr>rs_settings := settings\<rparr>))"

definition resolve_settings ::
  "(string \<Rightarrow> 'v option) \<Rightarrow> 'v RuntimeSnapshot \<Rightarrow> SettingsValues \<Rightarrow> RuntimeSnapshotCompileError + 'v RuntimeSnapshot" where
  "resolve_settings version_parse s values =
     (if compiled_values (rs_settings s) = values then Ok s else with_settings version_parse s values)"


section \<open>Names of models\<close>

abbreviation mappings :: "'v RuntimeSnapshot \<Rightarrow> (string \<times> string) list" where
  "mappings s \<equiv> sv_model_mappings (compiled_values (rs_settings s))"

definition model_aliases :: "'v RuntimeSnapshot \<Rightarrow> ContributedModelAlias list" where
  "model_aliases s = (case rs_extensions s of None \<Rightarrow> [] | Some ext \<Rightarrow> ext_model_aliases ext)"

definition model_alias :: "'v RuntimeSnapshot \<Rightarrow> string \<Rightarrow> ContributedModelAlias option" where
  "model_alias s model = List.find (\<lambda>a. public_model_str (alias_id a) = model) (model_aliases s)"

definition alias_valid :: "'v RuntimeSnapshot \<Rightarrow> ContributedModelAlias \<Rightarrow> bool" where
  "alias_valid s a \<longleftrightarrow>
     alias_provider a \<in> rs_providers s
     \<and> map_of (mappings s) (public_model_str (alias_id a)) = None
     \<and> map_of (mappings s) (upstream_model_str (alias_target a)) = None
     \<and> public_model_str (alias_id a) \<notin> set (map snd (mappings s))
     \<and> model_alias s (upstream_model_str (alias_target a)) = None
     \<and> \<not> list_ex (\<lambda>(_, models). list_ex (\<lambda>(m, _). upstream_model_str m = public_model_str (alias_id a)) models)
           (rs_provider_models s)
     \<and> is_some (map_of (provider_models_of s (alias_provider a)) (alias_target a))"

fun validate_aliases ::
  "'v RuntimeSnapshot \<Rightarrow> PublicModelId set \<Rightarrow> ContributedModelAlias list \<Rightarrow> RuntimeSnapshotCompileError + unit" where
  "validate_aliases s seen [] = Ok ()"
| "validate_aliases s seen (a # as) =
     (if alias_id a \<notin> seen \<and> alias_valid s a then validate_aliases s (insert (alias_id a) seen) as
      else Err InvalidExtensionModels)"

definition validate_extension_models :: "'v RuntimeSnapshot \<Rightarrow> RuntimeSnapshotCompileError + unit" where
  "validate_extension_models s = validate_aliases s {} (model_aliases s)"

text \<open>The loop of \<open>mapped_model\<close>: at most \<open>n\<close> more mappings are followed.\<close>

fun follow_mappings :: "(string \<times> string) list \<Rightarrow> string \<Rightarrow> nat \<Rightarrow> string set \<Rightarrow> string \<Rightarrow> string" where
  "follow_mappings table original 0 seen current = original"
| "follow_mappings table original (Suc n) seen current =
     (case map_of table current of
        None \<Rightarrow> current
      | Some target \<Rightarrow>
          if current \<in> seen \<or> target \<in> insert current seen then original
          else follow_mappings table original n (insert current seen) target)"

definition mapped_model :: "'v RuntimeSnapshot \<Rightarrow> string \<Rightarrow> string" where
  "mapped_model s requested =
     (case model_alias s requested of
        Some a \<Rightarrow> upstream_model_str (alias_target a)
      | None \<Rightarrow> follow_mappings (mappings s) requested 20 {} requested)"

definition in_text_order :: "PublicModelId set \<Rightarrow> PublicModelId list" where
  "in_text_order S = map PublicModelId (sorted_list_of_set (public_model_str ` S))"

definition public_model_set :: "'v RuntimeSnapshot \<Rightarrow> ProviderKind \<Rightarrow> PublicModelId set" where
  "public_model_set s provider =
     (if provider \<notin> rs_providers s then {}
      else set (List.map_filter (\<lambda>(m, _). ok (new_PublicModelId (upstream_model_str m))) (provider_models_of s provider))
           \<union> set (List.map_filter (\<lambda>(m, _). ok (new_PublicModelId m)) (mappings s))
           \<union> set (map alias_id (filter (\<lambda>a. alias_provider a = provider) (model_aliases s))))"

definition public_models_for_provider :: "'v RuntimeSnapshot \<Rightarrow> ProviderKind \<Rightarrow> PublicModelId list" where
  "public_models_for_provider s provider = in_text_order (public_model_set s provider)"

definition public_models :: "'v RuntimeSnapshot \<Rightarrow> PublicModelId list" where
  "public_models s = in_text_order (\<Union>p \<in> rs_providers s. public_model_set s p)"

definition catalog_model_allowed_for_scope ::
  "'v RuntimeSnapshot \<Rightarrow> ProviderKind \<Rightarrow> PublicModelId \<Rightarrow> FrozenAccountScope \<Rightarrow> bool" where
  "catalog_model_allowed_for_scope s provider model scope =
     (let upstream = mapped_model s (public_model_str model) in
      case Option.bind (rs_catalog_accounts s provider) (\<lambda>models. models upstream) of
        Some accounts \<Rightarrow>
          \<exists>a \<in> accounts. scope_account_provider scope a = Some provider \<and> allows_model scope a upstream
      | None \<Rightarrow> allows_provider_model scope provider upstream)"

definition public_models_for_scope :: "'v RuntimeSnapshot \<Rightarrow> FrozenAccountScope \<Rightarrow> PublicModelId list" where
  "public_models_for_scope s scope =
     in_text_order (\<Union>p \<in> scope_provider_kinds scope.
       {m \<in> public_model_set s p. catalog_model_allowed_for_scope s p m scope})"

definition contains_public_model_for_provider :: "'v RuntimeSnapshot \<Rightarrow> PublicModelId \<Rightarrow> ProviderKind \<Rightarrow> bool" where
  "contains_public_model_for_provider s model provider =
     (if provider \<notin> rs_providers s then False
      else if is_some_and (model_alias s (public_model_str model)) (\<lambda>a. alias_provider a \<noteq> provider) then False
      else if provider \<notin> rs_exhaustive_catalogs s then True
      else
        let upstream = mapped_model s (public_model_str model) in
        list_ex (\<lambda>(m, _). upstream_model_str m = upstream) (provider_models_of s provider))"

definition contains_public_model_for_scope :: "'v RuntimeSnapshot \<Rightarrow> PublicModelId \<Rightarrow> FrozenAccountScope \<Rightarrow> bool" where
  "contains_public_model_for_scope s model scope \<longleftrightarrow>
     (\<exists>p \<in> scope_provider_kinds scope.
        contains_public_model_for_provider s model p \<and> catalog_model_allowed_for_scope s p model scope)"

text \<open>Profiles: the catalog's presentations under their own names, then mapped names, then aliases; the
  map they are collected in is read in the order of the model names.\<close>

definition by_model_id :: "(PublicModelId \<times> 'a) list \<Rightarrow> (PublicModelId \<times> 'a) list" where
  "by_model_id = sort_key (\<lambda>(model, _). public_model_str model)"

definition public_model_profiles_for_provider ::
  "'v RuntimeSnapshot \<Rightarrow> ProviderKind \<Rightarrow> (PublicModelId \<times> ModelPresentation) list" where
  "public_model_profiles_for_provider s provider =
     (case map_of (rs_presentations s) provider of
        None \<Rightarrow> []
      | Some presentations \<Rightarrow>
          let profiles = foldl (\<lambda>acc (m, pr).
                case new_PublicModelId (upstream_model_str m) of
                  Inl _ \<Rightarrow> acc | Inr public \<Rightarrow> AList.update public pr acc) [] presentations;
              profiles = foldl (\<lambda>acc (name, _).
                case map_of presentations (UpstreamModelId (mapped_model s name)) of
                  None \<Rightarrow> acc
                | Some pr \<Rightarrow>
                    (case new_PublicModelId name of Inl _ \<Rightarrow> acc | Inr public \<Rightarrow> AList.update public pr acc))
                profiles (mappings s)
          in by_model_id (foldl (\<lambda>acc a.
                case map_of presentations (alias_target a) of
                  None \<Rightarrow> acc
                | Some pr \<Rightarrow> AList.update (alias_id a) pr acc)
               profiles (filter (\<lambda>a. alias_provider a = provider) (model_aliases s))))"

definition providers_in_order :: "ProviderKind set \<Rightarrow> ProviderKind list" where
  "providers_in_order P = map ProviderKind (sorted_list_of_set (provider_kind_str ` P))"

definition public_model_profiles_for_scope ::
  "'v RuntimeSnapshot \<Rightarrow> FrozenAccountScope \<Rightarrow> (PublicModelId \<times> ModelPresentation) list" where
  "public_model_profiles_for_scope s scope =
     by_model_id (foldl (\<lambda>acc provider.
         foldl (\<lambda>acc (model, presentation).
             if catalog_model_allowed_for_scope s provider model scope \<and> map_of acc model = None
             then AList.update model presentation acc else acc)
           acc (public_model_profiles_for_provider s provider))
       [] (providers_in_order (scope_provider_kinds scope)))"


section \<open>Planning\<close>

definition available_providers :: "'v RuntimeSnapshot \<Rightarrow> FrozenAccountScope \<Rightarrow> RoutingContext \<Rightarrow> ProviderKind set" where
  "available_providers s scope ctx =
     {p \<in> scope_provider_kinds scope.
        p \<in> rs_providers s \<and> is_none_or (required_provider ctx) (\<lambda>r. r = p) \<and> p \<notin> blocked_providers ctx}"

definition upstream_of :: "'v RuntimeSnapshot \<Rightarrow> PublicModelId \<Rightarrow> IdentifierError + UpstreamModelId" where
  "upstream_of s model =
     (let requested = public_model_str model; mapped = mapped_model s requested in
      if is_some (map_of (mappings s) requested) \<or> is_some (model_alias s requested)
      then new_UpstreamModelId mapped else upstream_from_client_wire mapped)"

text \<open>One turn of the loop over the providers: an error ends the plan, \<open>None\<close> is \<open>continue\<close>.\<close>

definition provider_candidate ::
  "'v RuntimeSnapshot \<Rightarrow> PublicModelId \<Rightarrow> CapabilityRequirements \<Rightarrow> FrozenAccountScope \<Rightarrow> RoutingContext \<Rightarrow> bool
   \<Rightarrow> ProviderKind \<Rightarrow> RoutingError + ProviderCandidate option" where
  "provider_candidate s model req scope ctx enforce_policy provider =
     (if provider \<notin> rs_providers s then Ok None
      else if is_some_and (model_alias s (public_model_str model)) (\<lambda>a. alias_provider a \<noteq> provider) then Ok None
      else if is_some_and (required_provider ctx) (\<lambda>expected. expected \<noteq> provider)
              \<or> provider \<in> blocked_providers ctx
      then Ok None
      else
        case upstream_of s model of
          Inl _ \<Rightarrow> Err InvalidIdentifier
        | Inr upstream \<Rightarrow>
            if enforce_policy \<and> \<not> allows_provider_model scope provider (upstream_model_str upstream) then Ok None
            else
              case map_of (provider_models_of s provider) upstream of
                Some capabilities \<Rightarrow>
                  Ok (map_option
                       (\<lambda>emulated. \<lparr>pc_provider = provider, pc_upstream_model = Some upstream,
                                    pc_emulated_features = emulated, pc_account_scope = scope\<rparr>)
                       (match_requirements capabilities req))
              | None \<Rightarrow>
                  if provider \<in> rs_exhaustive_catalogs s then Ok None
                  else Ok (Some \<lparr>pc_provider = provider, pc_upstream_model = Some upstream,
                                 pc_emulated_features = {}, pc_account_scope = scope\<rparr>))"

fun collect_candidates ::
  "(ProviderKind \<Rightarrow> RoutingError + ProviderCandidate option) \<Rightarrow> ProviderKind list
   \<Rightarrow> RoutingError + ProviderCandidate list" where
  "collect_candidates step [] = Ok []"
| "collect_candidates step (p # ps) =
     (case step p of
        Inl e \<Rightarrow> Err e
      | Inr c \<Rightarrow>
          (case collect_candidates step ps of
             Inl e \<Rightarrow> Err e
           | Inr cs \<Rightarrow> Ok (case c of None \<Rightarrow> cs | Some x \<Rightarrow> x # cs)))"

definition freeze_plan ::
  "'v RuntimeSnapshot \<Rightarrow> OperationRequest \<Rightarrow> FrozenAccountScope \<Rightarrow> ProviderCandidate list \<Rightarrow> RoutingPlan" where
  "freeze_plan s operation scope candidates =
     \<lparr>plan_pricing = sv_pricing (compiled_values (rs_settings s)),
      plan_request_location = compiled_request_location (rs_settings s),
      plan_config_revision = rs_revision s,
      plan_selection_policy = compiled_selection_policy (rs_settings s),
      plan_operation = operation_kind operation, plan_max_attempts = MAX_REQUEST_ATTEMPTS,
      plan_account_scope = scope, plan_candidates = candidates\<rparr>"

definition planned_providers :: "FrozenAccountScope \<Rightarrow> RoutingContext \<Rightarrow> ProviderKind set" where
  "planned_providers scope ctx =
     (case required_provider ctx of None \<Rightarrow> scope_provider_kinds scope | Some p \<Rightarrow> {p})"

definition plan_inner ::
  "'v RuntimeSnapshot \<Rightarrow> PublicModelId \<Rightarrow> OperationRequest \<Rightarrow> FrozenAccountScope \<Rightarrow> RoutingContext \<Rightarrow> bool
   \<Rightarrow> RoutingError + RoutingPlan" where
  "plan_inner s model operation scope ctx enforce_policy =
     (if required_provider ctx = None \<and> scope_provider_kinds scope = {} then Err EmptyAccountScope
      else
        let providers = planned_providers scope ctx in
        case collect_candidates
               (provider_candidate s model (capability_requirements operation) scope ctx enforce_policy)
               (providers_in_order providers) of
          Inl e \<Rightarrow> Err e
        | Inr candidates \<Rightarrow>
            if candidates = []
            then
              let scoped = providers \<inter> rs_providers s in
              if scoped \<noteq> {}
                 \<and> (\<forall>p \<in> scoped. p \<in> rs_exhaustive_catalogs s \<and> \<not> contains_public_model_for_provider s model p)
              then Err (ModelNotFound (public_model_str model) (mapped_model s (public_model_str model)))
              else Err (NoCapableProvider (public_model_str model))
            else Ok (freeze_plan s operation scope candidates))"

definition plan_request ::
  "'v RuntimeSnapshot \<Rightarrow> PublicModelId \<Rightarrow> OperationRequest \<Rightarrow> FrozenAccountScope \<Rightarrow> RoutingContext
   \<Rightarrow> RoutingError + RoutingPlan" where
  "plan_request s model operation scope ctx = plan_inner s model operation scope ctx True"

definition plan_diagnostic ::
  "'v RuntimeSnapshot \<Rightarrow> PublicModelId \<Rightarrow> OperationRequest \<Rightarrow> RoutingContext \<Rightarrow> RoutingError + RoutingPlan" where
  "plan_diagnostic s model operation ctx = plan_inner s model operation (all_account_scope s) ctx False"

definition plan_provider_endpoint ::
  "'v RuntimeSnapshot \<Rightarrow> ProviderKind \<Rightarrow> UpstreamModelId option \<Rightarrow> OperationRequest \<Rightarrow> FrozenAccountScope
   \<Rightarrow> RoutingContext \<Rightarrow> RoutingError + RoutingPlan" where
  "plan_provider_endpoint s provider upstream operation scope ctx =
     (let available =
            scope_provider_kinds scope \<noteq> {} \<and> provider \<in> scope_provider_kinds scope \<and> provider \<in> rs_providers s
            \<and> is_none_or (required_provider ctx) (\<lambda>r. r = provider) \<and> provider \<notin> blocked_providers ctx
      in if \<not> available
            \<or> is_some_and upstream (\<lambda>m. \<not> allows_provider_model scope provider (upstream_model_str m))
         then Err (NoCapableProviderEndpoint (provider_kind_str provider))
         else
           let binding_valid = ((operation_kind operation = OkCountTokens) = is_some upstream);
               capable = is_none_or upstream (\<lambda>m.
                 case map_of (provider_models_of s provider) m of
                   Some capabilities \<Rightarrow> is_some (match_requirements capabilities (capability_requirements operation))
                 | None \<Rightarrow> provider \<notin> rs_exhaustive_catalogs s)
           in if \<not> binding_valid \<or> \<not> capable
              then Err (UnsupportedProviderEndpoint (provider_kind_str provider)
                         (OperationKind_as_str (operation_kind operation)))
              else Ok (freeze_plan s operation scope
                     [\<lparr>pc_provider = provider, pc_upstream_model = upstream, pc_emulated_features = {},
                       pc_account_scope = scope\<rparr>]))"


section \<open>Compiling the snapshot\<close>

record SnapshotClientPolicyFacts =
  cpf_request_profiles :: "ProviderKind \<rightharpoonup> OpaqueProviderData"
  cpf_key_id :: ClientApiKeyId
  cpf_plaintext_key :: PlaintextClientApiKey
  cpf_group_ids :: "AccountGroupId list"
  cpf_limits :: RateLimits

record SnapshotAccountGroupFacts =
  agf_disable_fast :: bool
  agf_id :: AccountGroupId
  agf_name :: string
  agf_enabled :: bool

record SnapshotProviderAccountFacts =
  paf_account_id :: ProviderAccountId
  paf_provider_kind :: string
  paf_model_access :: AccountModelAccess

record SnapshotAccountGroupMemberFacts =
  gmf_group_id :: AccountGroupId
  gmf_account_id :: ProviderAccountId

record SnapshotFacts =
  sf_config_revision :: ConfigRevision
  sf_observed_current_revision :: ConfigRevision
  sf_settings :: SettingsValues
  sf_client_policies :: "SnapshotClientPolicyFacts list"
  sf_account_groups :: "SnapshotAccountGroupFacts list"
  sf_provider_accounts :: "SnapshotProviderAccountFacts list"
  sf_group_memberships :: "SnapshotAccountGroupMemberFacts list"

text \<open>The catalogs, queried or taken over from the previous snapshot.\<close>

record CollectedCatalogs =
  cc_models :: "ProviderModel list"
  cc_accounts :: CatalogAccounts
  cc_exhaustive :: "ProviderKind set"

definition cached_catalog :: "'v RuntimeSnapshot \<Rightarrow> ProviderKind \<Rightarrow> CollectedCatalogs \<Rightarrow> CollectedCatalogs" where
  "cached_catalog previous p c =
     (let c = (case rs_catalog_accounts previous p of
                 None \<Rightarrow> c | Some accounts \<Rightarrow> c\<lparr>cc_accounts := (cc_accounts c)(p \<mapsto> accounts)\<rparr>);
          c = (if p \<in> rs_exhaustive_catalogs previous then c\<lparr>cc_exhaustive := insert p (cc_exhaustive c)\<rparr> else c)
      in c\<lparr>cc_models := cc_models c @
            map (\<lambda>(m, capabilities).
                   \<lparr>pm_provider = p, pm_upstream_model = m, pm_capabilities = capabilities,
                    pm_presentation = Option.bind (map_of (rs_presentations previous) p) (\<lambda>t. map_of t m)\<rparr>)
              (provider_models_of previous p)\<rparr>)"

definition queried_catalog :: "ProviderCatalog \<Rightarrow> ProviderKind \<Rightarrow> CollectedCatalogs \<Rightarrow> CollectedCatalogs" where
  "queried_catalog catalog p c =
     (case query_model_capabilities catalog p of
        None \<Rightarrow> c
      | Some models \<Rightarrow>
          let c = (if model_catalog_is_exhaustive catalog p
                   then c\<lparr>cc_exhaustive := insert p (cc_exhaustive c)\<rparr> else c);
              c = foldl (\<lambda>c m. case pmc_catalog_accounts m of
                                 None \<Rightarrow> c
                               | Some accounts \<Rightarrow>
                                   c\<lparr>cc_accounts := (cc_accounts c)
                                       (p \<mapsto> (unwrap_or (cc_accounts c p) Map.empty)
                                               (upstream_model_str (pmc_upstream_model m) \<mapsto> accounts))\<rparr>) c models
          in c\<lparr>cc_models := cc_models c @
                map (\<lambda>m. \<lparr>pm_provider = p, pm_upstream_model = pmc_upstream_model m,
                           pm_capabilities = pmc_capabilities m, pm_presentation = pmc_presentation m\<rparr>) models\<rparr>)"

definition collect_catalogs ::
  "ProviderCatalog \<Rightarrow> 'v RuntimeSnapshot option \<Rightarrow> ProviderKind list \<Rightarrow> CollectedCatalogs" where
  "collect_catalogs catalog previous providers =
     foldl (\<lambda>c p. case previous of Some s \<Rightarrow> cached_catalog s p c | None \<Rightarrow> queried_catalog catalog p c)
       \<lparr>cc_models = [], cc_accounts = Map.empty, cc_exhaustive = {}\<rparr> providers"

definition group_name_invalid :: "string \<Rightarrow> bool" where
  "group_name_invalid name \<longleftrightarrow>
     trim name \<noteq> name \<or> name = [] \<or> 100 < chars_count name \<or> has_control name"

fun collect_groups ::
  "SnapshotAccountGroupFacts list \<Rightarrow> (AccountGroupId \<rightharpoonup> SnapshotAccountGroupFacts)
   \<Rightarrow> RuntimeSnapshotCompileError + (AccountGroupId \<rightharpoonup> SnapshotAccountGroupFacts)" where
  "collect_groups [] known = Ok known"
| "collect_groups (g # gs) known =
     (if group_name_invalid (agf_name g) \<or> is_some (known (agf_id g)) then Err InvalidData
      else collect_groups gs (known(agf_id g \<mapsto> g)))"

fun collect_accounts ::
  "SnapshotProviderAccountFacts list \<Rightarrow> (ProviderAccountId \<times> RuntimeAccount) list
   \<Rightarrow> RuntimeSnapshotCompileError + (ProviderAccountId \<times> RuntimeAccount) list" where
  "collect_accounts [] known = Ok known"
| "collect_accounts (a # as) known =
     (case new_ProviderKind (paf_provider_kind a) of
        Inl _ \<Rightarrow> Err InvalidData
      | Inr kind \<Rightarrow>
          if is_some (map_of known (paf_account_id a)) then Err InvalidData
          else collect_accounts as
                 (known @ [(paf_account_id a, rt_with_model_access (new_RuntimeAccount kind []) (paf_model_access a))]))"

fun collect_memberships ::
  "(AccountGroupId \<rightharpoonup> SnapshotAccountGroupFacts) \<Rightarrow> (ProviderAccountId \<times> RuntimeAccount) list
   \<Rightarrow> SnapshotAccountGroupMemberFacts list \<Rightarrow> (AccountGroupId \<times> ProviderAccountId) list
   \<Rightarrow> RuntimeSnapshotCompileError + (AccountGroupId \<times> ProviderAccountId) list" where
  "collect_memberships groups accounts [] known = Ok known"
| "collect_memberships groups accounts (m # ms) known =
     (if groups (gmf_group_id m) = None \<or> map_of accounts (gmf_account_id m) = None
         \<or> (gmf_group_id m, gmf_account_id m) \<in> set known
      then Err InvalidData
      else collect_memberships groups accounts ms (known @ [(gmf_group_id m, gmf_account_id m)]))"

definition groups_of_account :: "(AccountGroupId \<times> ProviderAccountId) list \<Rightarrow> ProviderAccountId \<Rightarrow> AccountGroupId list" where
  "groups_of_account memberships a = map fst (filter (\<lambda>(_, b). b = a) memberships)"

definition join_groups ::
  "(AccountGroupId \<times> ProviderAccountId) list \<Rightarrow> (ProviderAccountId \<times> RuntimeAccount) list
   \<Rightarrow> (ProviderAccountId \<times> RuntimeAccount) list" where
  "join_groups memberships accounts =
     map (\<lambda>(a, account).
            (a, rt_with_model_access (new_RuntimeAccount (rt_provider_kind account) (groups_of_account memberships a))
                  (rt_model_access account))) accounts"

text \<open>The groups a key is bound to: the snapshots of all, the ids of the enabled ones, and the fast flag.\<close>

record BoundGroups =
  bg_bound :: "RoutingGroupSnapshot list"
  bg_enabled :: "AccountGroupId list"
  bg_disable_fast :: bool

fun bind_groups ::
  "(AccountGroupId \<rightharpoonup> SnapshotAccountGroupFacts) \<Rightarrow> AccountGroupId list \<Rightarrow> AccountGroupId set \<Rightarrow> BoundGroups
   \<Rightarrow> RuntimeSnapshotCompileError + BoundGroups" where
  "bind_groups groups [] seen b = Ok b"
| "bind_groups groups (g # gs) seen b =
     (if g \<in> seen then Err InvalidData
      else case groups g of
             None \<Rightarrow> Err InvalidData
           | Some group_facts \<Rightarrow>
               bind_groups groups gs (insert g seen)
                 \<lparr>bg_bound = bg_bound b @ [\<lparr>group_snapshot_id = agf_id group_facts, group_snapshot_name = agf_name group_facts\<rparr>],
                  bg_enabled = (if agf_enabled group_facts then bg_enabled b @ [g] else bg_enabled b),
                  bg_disable_fast = (bg_disable_fast b \<or> agf_disable_fast group_facts)\<rparr>)"

definition policy_scope ::
  "(AccountGroupId \<rightharpoonup> SnapshotAccountGroupFacts) \<Rightarrow> RuntimeAccountDirectory \<Rightarrow> SnapshotClientPolicyFacts
   \<Rightarrow> RuntimeSnapshotCompileError + FrozenAccountScope" where
  "policy_scope groups directory p =
     (if cpf_group_ids p = []
      then Ok (with_request_profiles (with_disable_fast (new_FrozenAccountScope directory AllAccounts) False)
                 (cpf_request_profiles p))
      else
        case bind_groups groups (cpf_group_ids p) {} \<lparr>bg_bound = [], bg_enabled = [], bg_disable_fast = False\<rparr> of
          Inl e \<Rightarrow> Err e
        | Inr b \<Rightarrow>
            (case restricted (sort_key (\<lambda>g. group_id_str (group_snapshot_id g)) (bg_bound b)) (set (bg_enabled b))
                    (providers_for_groups directory (bg_enabled b)) of
               Inl _ \<Rightarrow> Err InvalidData
             | Inr client_scope \<Rightarrow>
                 Ok (with_request_profiles
                      (with_disable_fast (new_FrozenAccountScope directory client_scope) (bg_disable_fast b))
                      (cpf_request_profiles p))))"

fun compile_policies ::
  "(AccountGroupId \<rightharpoonup> SnapshotAccountGroupFacts) \<Rightarrow> RuntimeAccountDirectory \<Rightarrow> SnapshotClientPolicyFacts list
   \<Rightarrow> RuntimeSnapshotCompileError + ClientPolicy list" where
  "compile_policies groups directory [] = Ok []"
| "compile_policies groups directory (p # ps) =
     (case policy_scope groups directory p of
        Inl e \<Rightarrow> Err e
      | Inr scope \<Rightarrow>
          (case compile_policies groups directory ps of
             Inl e \<Rightarrow> Err e
           | Inr rest \<Rightarrow>
               Ok (new_ClientPolicy (cpf_key_id p) (cpf_plaintext_key p) scope True (cpf_limits p) # rest)))"

definition compile_runtime_snapshot ::
  "(string \<Rightarrow> 'v option) \<Rightarrow> SnapshotFacts \<Rightarrow> ProviderCatalog \<Rightarrow> ProviderKind list \<Rightarrow> 'v RuntimeSnapshot option
   \<Rightarrow> RuntimeSnapshotCompileError + 'v RuntimeSnapshot" where
  "compile_runtime_snapshot version_parse facts catalog providers previous =
     (let catalogs = collect_catalogs catalog previous providers in
      case collect_groups (sf_account_groups facts) Map.empty of
        Inl e \<Rightarrow> Err e
      | Inr groups \<Rightarrow>
      case collect_accounts (sf_provider_accounts facts) [] of
        Inl e \<Rightarrow> Err e
      | Inr accounts \<Rightarrow>
      case collect_memberships groups accounts (sf_group_memberships facts) [] of
        Inl e \<Rightarrow> Err e
      | Inr memberships \<Rightarrow>
      let directory = new_RuntimeAccountDirectory (join_groups memberships accounts) in
      case compile_policies groups directory (sf_client_policies facts) of
        Inl e \<Rightarrow> Err e
      | Inr policies \<Rightarrow>
      case new_RuntimeSnapshot version_parse (sf_config_revision facts) (sf_settings facts) providers
             (cc_models catalogs) policies of
        Inl _ \<Rightarrow> Err InvalidData
      | Inr s \<Rightarrow>
          Ok (s\<lparr>rs_account_directory := directory, rs_exhaustive_catalogs := cc_exhaustive catalogs,
                rs_catalog_accounts := cc_accounts catalogs\<rparr>))"


subsection \<open>The compile loop\<close>

text \<open>
  What the compiler sees from outside, by the number of the round it is in: the store, the catalogs with
  their generations before and after they are read, and the extension preparer if there is one.
\<close>

record CompileEnv =
  load_snapshot_facts :: "nat \<Rightarrow> SnapshotFacts option"
  current_config_revision :: "nat \<Rightarrow> ConfigRevision option"
  generations_before :: "nat \<Rightarrow> (ProviderKind \<times> nat) list"
  generations_after :: "nat \<Rightarrow> (ProviderKind \<times> nat) list"
  catalog_at :: "nat \<Rightarrow> ProviderCatalog"
  prepare_extensions :: "(nat \<Rightarrow> ConfigRevision \<Rightarrow> ExtensionSetReference option) option"
  extension_ready :: "nat \<Rightarrow> ExtensionSetReference \<Rightarrow> bool"

definition MAXIMUM_CATALOG_STABILITY_ATTEMPTS :: nat where "MAXIMUM_CATALOG_STABILITY_ATTEMPTS = 4"

definition prepare_round ::
  "CompileEnv \<Rightarrow> nat \<Rightarrow> ConfigRevision \<Rightarrow> (ConfigRevision \<times> ExtensionSetReference) option
   \<Rightarrow> RuntimeSnapshotCompileError + (ConfigRevision \<times> ExtensionSetReference) option" where
  "prepare_round env n revision prepared =
     (case prepare_extensions env of
        None \<Rightarrow> Ok None
      | Some prepare \<Rightarrow>
          if is_none_or prepared (\<lambda>(r, ext). r \<noteq> revision \<or> \<not> extension_ready env n ext)
          then (case prepare n revision of
                  None \<Rightarrow> Err ExtensionsUnavailable
                | Some ext \<Rightarrow> Ok (Some (revision, ext)))
          else Ok prepared)"

fun compile_loop ::
  "(string \<Rightarrow> 'v option) \<Rightarrow> CompileEnv \<Rightarrow> 'v RuntimeSnapshot option \<Rightarrow> nat \<Rightarrow> nat
   \<Rightarrow> (ConfigRevision \<times> ExtensionSetReference) option \<Rightarrow> RuntimeSnapshotCompileError + 'v RuntimeSnapshot" where
  "compile_loop version_parse env previous 0 n prepared = Err CatalogChanged"
| "compile_loop version_parse env previous (Suc rounds) n prepared =
     (case load_snapshot_facts env n of
        None \<Rightarrow> Err StoreUnavailable
      | Some facts \<Rightarrow>
          if sf_config_revision facts \<noteq> sf_observed_current_revision facts then Err RevisionChanged
          else
            let revision = sf_config_revision facts in
            case prepare_round env n revision prepared of
              Inl e \<Rightarrow> Err e
            | Inr prepared \<Rightarrow>
                let extensions = map_option snd prepared;
                    generations = generations_before env n;
                    cached = filter_option (\<lambda>p. map_option ext_id (rs_extensions p) = map_option ext_id extensions)
                               previous
                in case compile_runtime_snapshot version_parse facts (catalog_at env n) (map fst generations) cached of
                     Inl e \<Rightarrow> Err e
                   | Inr s \<Rightarrow>
                       let observed = generations_after env n in
                       if generations = observed
                       then
                         if is_some extensions \<and> current_config_revision env n \<noteq> Some revision
                         then Err (if current_config_revision env n = None then StoreUnavailable else RevisionChanged)
                         else
                           let s = s\<lparr>rs_catalog_generations := (if is_some cached then Map.empty else map_of observed),
                                     rs_extensions := extensions\<rparr>
                           in (case validate_extension_models s of Inl e \<Rightarrow> Err e | Inr _ \<Rightarrow> Ok s)
                       else compile_loop version_parse env previous rounds (Suc n) prepared)"

definition compile_inner ::
  "(string \<Rightarrow> 'v option) \<Rightarrow> CompileEnv \<Rightarrow> 'v RuntimeSnapshot option \<Rightarrow> RuntimeSnapshotCompileError + 'v RuntimeSnapshot" where
  "compile_inner version_parse env previous =
     compile_loop version_parse env previous MAXIMUM_CATALOG_STABILITY_ATTEMPTS 0 None"

end
