(* ===== verification/Execution_Session.thy ===== *)
theory Execution_Session
  imports Routing_Snapshot Connection_Budget
begin

text \<open>
  The state of one execution session, \<open>ResponseExecutionSession\<close> of
  \<open>gateway-core/src/engine/coordinator.rs\<close>, and the operations that observe, meter and finish it.

  What the session waits for or reads outside itself is a \<open>World\<close>: the two clocks, the cancellation
  token, the epoch of observed external effects, the store, the providers and their streams, and the
  retry policy of the plugin host. Each is a function of a tick, and the session's tick advances at
  every suspension point (\<open>await\<close>), so a world is one possible run of the environment; reads between
  two suspension points see one instant. Nothing is assumed about a world.

  Calls of the store port are recorded in \<open>s_store_log\<close> with the verdict the store returned
  (\<open>best_effort_store_write\<close> ignores failures), calls of the observer plan in the dispatch and in
  \<open>s_websocket_log\<close>. Values the session only hands on (trace, middleware and adapter plans, response
  control, pricing, wait budget, endpoint, transport name) are left out.
\<close>

section \<open>Continuations\<close>

datatype PreviousResponseId = PreviousResponseId (previous_response_str: string)

datatype NativeContinuationScope = Persisted | ConnectionLocal

record NativeContinuationPin =
  pin_previous_response_id :: PreviousResponseId
  pin_upstream_response_id :: PreviousResponseId
  pin_client_api_key_id :: ClientApiKeyId
  pin_provider :: ProviderKind
  pin_account :: ProviderAccountId
  pin_scope :: NativeContinuationScope
  pin_session_state :: "ProviderSessionState option"

definition new_NativeContinuationPin ::
  "PreviousResponseId \<Rightarrow> PreviousResponseId \<Rightarrow> ClientApiKeyId \<Rightarrow> ProviderKind \<Rightarrow> ProviderAccountId
     \<Rightarrow> NativeContinuationPin" where
  "new_NativeContinuationPin previous upstream key provider account =
     \<lparr>pin_previous_response_id = previous, pin_upstream_response_id = upstream,
      pin_client_api_key_id = key, pin_provider = provider, pin_account = account,
      pin_scope = ConnectionLocal, pin_session_state = None\<rparr>"

definition pin_with_scope :: "NativeContinuationPin \<Rightarrow> NativeContinuationScope \<Rightarrow> NativeContinuationPin" where
  "pin_with_scope pin scope = pin\<lparr>pin_scope := scope\<rparr>"

definition pin_with_session_state :: "NativeContinuationPin \<Rightarrow> ProviderSessionState \<Rightarrow> NativeContinuationPin" where
  "pin_with_session_state pin state = pin\<lparr>pin_session_state := Some state\<rparr>"

definition pin_matches_client :: "NativeContinuationPin \<Rightarrow> ClientApiKeyId \<Rightarrow> bool" where
  "pin_matches_client pin key \<longleftrightarrow> pin_client_api_key_id pin = key"

definition pin_matches :: "NativeContinuationPin \<Rightarrow> ProviderKind \<Rightarrow> ProviderAccountId \<Rightarrow> bool" where
  "pin_matches pin provider account \<longleftrightarrow> pin_provider pin = provider \<and> pin_account pin = account"

datatype ContinuationBinding = Pinned NativeContinuationPin | External PreviousResponseId

fun binding_previous_response_id :: "ContinuationBinding \<Rightarrow> PreviousResponseId" where
  "binding_previous_response_id (Pinned pin) = pin_previous_response_id pin"
| "binding_previous_response_id (External previous) = previous"

fun binding_pinned :: "ContinuationBinding \<Rightarrow> NativeContinuationPin option" where
  "binding_pinned (Pinned pin) = Some pin"
| "binding_pinned (External _) = None"

datatype ContinuationAttempt = NoContinuation | Native | ReplayOwner | ReplayAny

fun ContinuationAttempt_as_str :: "ContinuationAttempt \<Rightarrow> string" where
  "ContinuationAttempt_as_str NoContinuation = ''none''"
| "ContinuationAttempt_as_str Native = ''native''"
| "ContinuationAttempt_as_str ReplayOwner = ''replay_owner''"
| "ContinuationAttempt_as_str ReplayAny = ''replay_any''"


section \<open>Attempts\<close>

datatype AttemptTrigger = Initial | AccountRetry

fun AttemptTrigger_as_str :: "AttemptTrigger \<Rightarrow> string" where
  "AttemptTrigger_as_str Initial = ''initial''"
| "AttemptTrigger_as_str AccountRetry = ''account_retry''"

record ProviderAccountStateOwner =
  state_owner_provider :: ProviderKind
  state_owner_account :: ProviderAccountId

definition owner_from_continuation :: "NativeContinuationPin \<Rightarrow> ProviderAccountStateOwner" where
  "owner_from_continuation pin =
     \<lparr>state_owner_provider = pin_provider pin, state_owner_account = pin_account pin\<rparr>"

record AccountAttemptContext =
  ac_excluded_accounts :: "ProviderAccountId set"
  ac_required_account :: "ProviderAccountId option"
  ac_state_owner :: "ProviderAccountStateOwner option"
  ac_credential_recovery_attempted :: bool
  ac_diagnostic_required_account :: bool
  ac_account_scope :: "FrozenAccountScope option"

definition new_AccountAttemptContext ::
  "ProviderAccountId set \<Rightarrow> ProviderAccountId option \<Rightarrow> ProviderAccountStateOwner option
     \<Rightarrow> AccountAttemptContext" where
  "new_AccountAttemptContext excluded required owner =
     \<lparr>ac_excluded_accounts = excluded, ac_required_account = required, ac_state_owner = owner,
      ac_credential_recovery_attempted = False, ac_diagnostic_required_account = False,
      ac_account_scope = None\<rparr>"

definition diagnostic_AccountAttemptContext ::
  "ProviderAccountId set \<Rightarrow> ProviderAccountId \<Rightarrow> ProviderAccountStateOwner option
     \<Rightarrow> AccountAttemptContext" where
  "diagnostic_AccountAttemptContext excluded required owner =
     \<lparr>ac_excluded_accounts = excluded, ac_required_account = Some required, ac_state_owner = owner,
      ac_credential_recovery_attempted = False, ac_diagnostic_required_account = True,
      ac_account_scope = None\<rparr>"

record ProviderSelectionObservation =
  selection_wait_ms :: nat
  selection_capacity :: "AccountCapacitySnapshot option"

record ProviderCallMetadata =
  md_provider :: ProviderKind
  md_upstream_model :: "UpstreamModelId option"
  md_account :: ProviderAccountId
  md_upstream_request_id :: "string option"
  md_transport :: UpstreamTransport
  md_selection :: "ProviderSelectionObservation option"

definition confirms :: "ProviderCallMetadata \<Rightarrow> ProviderCandidate \<Rightarrow> bool" where
  "confirms md candidate \<longleftrightarrow>
     pc_provider candidate = md_provider md \<and> pc_upstream_model candidate = md_upstream_model md"

record CurrentAttempt =
  ca_metadata :: ProviderCallMetadata
  ca_trigger :: AttemptTrigger
  ca_transport :: AttemptTransport
  ca_index :: nat
  ca_started_at :: system_time
  ca_send_observed :: bool
  ca_response_observation :: "ProviderResponseObservation option"

definition attempt_upstream_request_id :: "CurrentAttempt \<Rightarrow> string option" where
  "attempt_upstream_request_id c =
     or_else (Option.bind (ca_response_observation c) ob_request_id) (md_upstream_request_id (ca_metadata c))"

record PendingAttemptRetry =
  pr_account :: ProviderAccountId
  pr_transport :: AttemptTransport
  pr_delay :: duration
  pr_transport_recovery :: bool

datatype SessionAccountSelection =
    Scheduled "ProviderAccountId option"
  | Diagnostic ProviderAccountId

fun required_account :: "SessionAccountSelection \<Rightarrow> ProviderAccountId option" where
  "required_account (Scheduled account) = account"
| "required_account (Diagnostic account) = Some account"

fun is_diagnostic :: "SessionAccountSelection \<Rightarrow> bool" where
  "is_diagnostic (Diagnostic _) = True"
| "is_diagnostic (Scheduled _) = False"

record AttemptRecord =
  ar_request_id :: ModelRequestId
  ar_attempt_count :: nat
  ar_trigger :: AttemptTrigger
  ar_provider_kind :: ProviderKind
  ar_provider_account_id :: "ProviderAccountId option"
  ar_provider_account_ref :: "ProviderAccountId option"
  ar_upstream_model_id :: "UpstreamModelId option"
  ar_upstream_transport :: string
  ar_http_version :: "string option"
  ar_account_selection_wait_ms :: "nat option"
  ar_capacity_used_slots :: "nat option"
  ar_capacity_total_slots :: "nat option"

type_synonym StreamError = "ProviderEvent ProviderError"

record IntermediateFailure =
  if_request_id :: ModelRequestId
  if_attempt_index :: nat
  if_trigger :: AttemptTrigger
  if_provider_kind :: ProviderKind
  if_account_id :: "ProviderAccountId option"
  if_upstream_model_id :: "UpstreamModelId option"
  if_upstream_status_code :: "nat option"
  if_upstream_request_id :: "string option"
  if_error :: StreamError
  if_latency :: duration

text \<open>The part of the request the session reads; the row written to the store has more columns.\<close>

record NewModelRequest =
  nr_id :: ModelRequestId
  nr_client_api_key_ref :: ClientApiKeyId
  nr_requested_model :: "PublicModelId option"
  nr_deadline_at :: system_time

record Operation =
  op_kind :: OperationKind
  op_session_state :: "ProviderSessionState option"
  op_image_tool_requested :: bool

definition operation_session_state :: "Operation \<Rightarrow> string \<Rightarrow> ProviderSessionState option" where
  "operation_session_state op provider =
     (if op_kind op = OkGenerate
      then filter_option (\<lambda>st. session_provider st = provider) (op_session_state op) else None)"

definition set_provider_session_state :: "Operation \<Rightarrow> ProviderSessionState \<Rightarrow> Operation" where
  "set_provider_session_state op st =
     (if op_kind op = OkGenerate then op\<lparr>op_session_state := Some st\<rparr> else op)"

definition image_generation_requested :: "Operation \<Rightarrow> bool" where
  "image_generation_requested op =
     (case op_kind op of
        OkGenerate \<Rightarrow> op_image_tool_requested op
      | OkGenerateImage \<Rightarrow> True
      | _ \<Rightarrow> False)"


section \<open>Outcomes\<close>

datatype CommitRequirement = CommitBeforeDelivery | AlreadyCommitted

record CoordinatedEvent =
  ce_events :: "ProviderEvent list"
  ce_commit_requirement :: CommitRequirement

datatype EngineError =
    EngineProviderNotRegistered string
  | ProviderMetadataMismatch
  | ContinuationPinMismatch
  | RequiredAccountMismatch
  | AccountOutsideClientScope
  | EngineProvider StreamError
  | EngineCancelled
  | EngineDeadline
  | EmptyRoutingPlan
  | NoActiveAttempt
  | DownstreamCommitRequired
  | InvalidDeliveryState

definition try_batch :: "ProviderEvent list \<Rightarrow> CommitRequirement \<Rightarrow> EngineError + CoordinatedEvent" where
  "try_batch events requirement =
     (if events = [] then Err InvalidDeliveryState
      else Ok \<lparr>ce_events = events, ce_commit_requirement = requirement\<rparr>)"

definition provider_engine_error :: "StreamError \<Rightarrow> EngineError" where
  "provider_engine_error error = (if pe_kind error = PkCancelled then EngineCancelled else EngineProvider error)"

datatype PullOutcome =
    PullEvents "ProviderEvent list"
  | PullAttemptDiscarded
  | PullTerminalFailure "ProviderEvent list" StreamError UpstreamSendState
  | PullEnd

datatype StreamErrorOutcome =
    AttemptDiscarded
  | TerminalFailure "ProviderEvent list" StreamError UpstreamSendState

fun into_pull_outcome :: "StreamErrorOutcome \<Rightarrow> PullOutcome" where
  "into_pull_outcome AttemptDiscarded = PullAttemptDiscarded"
| "into_pull_outcome (TerminalFailure events error send_state) = PullTerminalFailure events error send_state"

record PendingTerminalFailure =
  pt_error :: StreamError
  pt_send_state :: UpstreamSendState

record FailureFinalization =
  ff_outcome :: ExecutionOutcome
  ff_send_state :: UpstreamSendState
  ff_error :: GatewayError
  ff_upstream_status_code :: "nat option"
  ff_upstream_request_id :: "string option"
  ff_provider_error_code :: "string option"
  ff_raw_upstream_error :: "string option"
  ff_retry_after_ms :: "nat option"
  ff_observation :: ModelRequestFailureObservation

datatype StoreWrite =
    CreateModelRequest NewModelRequest
  | CreateModelRequestWithAttempt NewModelRequest AttemptRecord
  | RecordAttempt AttemptRecord
  | MarkSendState UpstreamSendState
  | MarkDownstreamCommitted system_time "nat option"
  | RecordClientStatus nat
  | RecordIntermediateFailure IntermediateFailure
  | FinalizeModelRequest ModelRequestFinalization

text \<open>The write a pending finalization still owes: whether the row must be created first, whether it
  is persisted otherwise, and what goes to the observer afterwards.\<close>

record PendingWrite =
  pw_request :: "NewModelRequest option"
  pw_persisted :: bool
  pw_finalization :: ModelRequestFinalization
  pw_observation :: "RequestObservation option"

datatype RequestFinalization = Pending PendingWrite | Complete


section \<open>The environment\<close>

text \<open>The result of waiting for a future next to the cancellation token and a deadline.\<close>

datatype 'a Waited = WaitCancelled | WaitDeadline | WaitReady 'a

text \<open>A native response translator: the protocol it reads, the one it writes, and its answer to the
  wire event at hand.\<close>

record NativeResponseTranslator =
  tr_source_protocol :: string
  tr_target_protocol :: string
  tr_translate :: "ProtocolWireEvent \<Rightarrow> StreamError + ProtocolWireEvent list"

record AttemptContext =
  cx_attempt_index :: nat
  cx_deadline :: system_time
  cx_account :: AccountAttemptContext
  cx_request_profile :: "OpaqueProviderData option"
  cx_continuation :: "ContinuationBinding option"
  cx_continuation_attempt :: ContinuationAttempt
  cx_transport :: AttemptTransport

datatype RetryDecision = Delegate | StopRetry | Retry

record RetryFacts =
  rf_attempt_index :: nat
  rf_provider :: ProviderKind
  rf_model :: "string option"
  rf_error_kind :: ProviderErrorKind
  rf_upstream_status :: "nat option"
  rf_send_state :: UpstreamSendState
  rf_remaining_routing_attempts :: nat
  rf_remaining_deadline :: duration
  rf_retry_allowed :: bool

record World =
  now_at :: "nat \<Rightarrow> system_time"
  instant_at :: "nat \<Rightarrow> system_time"
  cancelled_at :: "nat \<Rightarrow> bool"
  effects_epoch_at :: "nat \<Rightarrow> nat"
  store_write_ok :: "nat \<Rightarrow> bool"
  provider_registered :: "ProviderKind \<Rightarrow> bool"
  resolve_request_profile :: "ProviderKind \<Rightarrow> OpaqueProviderData \<Rightarrow> StreamError + OpaqueProviderData"
  default_request_profile :: "ProviderKind \<Rightarrow> StreamError + OpaqueProviderData option"
  delay_wait :: "nat \<Rightarrow> duration \<Rightarrow> unit Waited"
  provider_execute :: "nat \<Rightarrow> ProviderCandidate \<Rightarrow> AttemptContext \<Rightarrow> (StreamError + ProviderCallMetadata) Waited"
  stream_next :: "nat \<Rightarrow> (StreamError + ProviderEvent) option Waited"
  stream_translator :: "nat \<Rightarrow> NativeResponseTranslator option"
  policy_decision :: "nat \<Rightarrow> RetryFacts \<Rightarrow> RetryDecision Waited"
  connection_use :: "nat \<Rightarrow> ConnectionState \<Rightarrow> ConnectionState"


section \<open>The session\<close>

record Session =
  s_tick :: nat
  s_store_log :: "(StoreWrite \<times> bool) list"
  s_websocket_log :: "(WebSocketResponseAttempt \<times> nat \<times> ProtocolWireEvent) list"
  s_request_id :: ModelRequestId
  s_client_api_key_ref :: ClientApiKeyId
  s_connection_budget :: ConnectionState
  s_connection_retries :: nat
  s_observation :: ResponseObservation
  s_request_observation :: "RequestObservationDispatch option"
  s_budget_prior_attempts_usd :: Decimal
  s_budget_attempt_already_counted :: bool
  s_deadline :: system_time
  s_pending_request :: "NewModelRequest option"
  s_requested_model :: "PublicModelId option"
  s_request_persisted :: bool
  s_operation :: Operation
  s_plan :: RoutingPlan
  s_has_request_policy :: bool
  s_has_execution_effects :: bool
  s_execution_effects_baseline :: nat
  s_account_selection :: SessionAccountSelection
  s_continuation :: "ContinuationBinding option"
  s_continuation_attempt :: ContinuationAttempt
  s_account_state_owner :: "ProviderAccountStateOwner option"
  s_attempts :: nat
  s_websocket_observation_sequence :: nat
  s_routing_attempts :: nat
  s_candidate_index :: nat
  s_excluded_accounts :: "ProviderAccountId set"
  s_credential_recovery_attempted :: "ProviderAccountId set"
  s_recovery_account :: "ProviderAccountId option"
  s_pending_retry :: "PendingAttemptRetry option"
  s_transient_retry_counts :: "ProviderAccountId \<Rightarrow> nat"
  s_request_profiles :: "ProviderKind \<rightharpoonup> OpaqueProviderData"
  s_current :: "CurrentAttempt option"
  s_send_state_watermark :: UpstreamSendState
  s_downstream_committed_at :: "system_time option"
  s_client_status_code :: "nat option"
  s_delivery_pending :: bool
  s_upstream_complete :: bool
  s_finalization :: "RequestFinalization option"
  s_finalized_at :: "system_time option"
  s_image_generation_requested :: bool
  s_last_retryable_failure :: "StreamError option"
  s_last_retryable_failure_events :: "ProviderEvent list"
  s_last_observed_provider :: "ProviderKind option"
  s_pending_terminal_failure :: "PendingTerminalFailure option"

abbreviation now_of :: "World \<Rightarrow> Session \<Rightarrow> system_time" where "now_of w s \<equiv> now_at w (s_tick s)"

abbreviation tick :: "Session \<Rightarrow> Session" where "tick s \<equiv> s\<lparr>s_tick := Suc (s_tick s)\<rparr>"

definition is_finalized :: "Session \<Rightarrow> bool" where
  "is_finalized s \<longleftrightarrow> s_finalization s = Some Complete"

text \<open>\<open>best_effort_store_write\<close>: the write is awaited, a failure is only reported.\<close>

definition store_write :: "World \<Rightarrow> StoreWrite \<Rightarrow> Session \<Rightarrow> bool \<times> Session" where
  "store_write w op s =
     (store_write_ok w (s_tick s),
      tick (s\<lparr>s_store_log := s_store_log s @ [(op, store_write_ok w (s_tick s))]\<rparr>))"

definition store_when :: "bool \<Rightarrow> World \<Rightarrow> StoreWrite \<Rightarrow> Session \<Rightarrow> Session" where
  "store_when cond w op s = (if cond then snd (store_write w op s) else s)"


subsection \<open>Send state\<close>

definition execution_effect_observed :: "World \<Rightarrow> Session \<Rightarrow> bool" where
  "execution_effect_observed w s \<longleftrightarrow>
     s_has_execution_effects s \<and> effects_epoch_at w (s_tick s) \<noteq> s_execution_effects_baseline s"

definition current_send_state :: "World \<Rightarrow> Session \<Rightarrow> UpstreamSendState" where
  "current_send_state w s =
     (let observed = (if is_some_and (s_current s) ca_send_observed then Sent else NotSent);
          observed = (if execution_effect_observed w s then escalate_send_state observed Ambiguous else observed)
      in escalate_send_state (s_send_state_watermark s) observed)"

definition raise_send_watermark :: "World \<Rightarrow> UpstreamSendState \<Rightarrow> Session \<Rightarrow> UpstreamSendState \<times> Session" where
  "raise_send_watermark w observed s =
     (let observed = escalate_send_state (current_send_state w s) observed
      in (observed, s\<lparr>s_send_state_watermark := observed\<rparr>))"

definition mark_send_observed :: "World \<Rightarrow> Session \<Rightarrow> Session" where
  "mark_send_observed w s =
     (case s_current s of
        None \<Rightarrow> s
      | Some current \<Rightarrow>
          if \<not> ca_send_observed current
          then (store_when (s_request_persisted s) w (MarkSendState Sent) s)
                 \<lparr>s_current := Some (current\<lparr>ca_send_observed := True\<rparr>), s_send_state_watermark := Sent\<rparr>
          else s)"


subsection \<open>Observations\<close>

definition session_observe_response :: "ProviderResponseObservation \<Rightarrow> Session \<Rightarrow> Session" where
  "session_observe_response ob s =
     (case s_current s of
        None \<Rightarrow> s
      | Some current \<Rightarrow>
          if is_some_and (ca_response_observation current) (\<lambda>existing. ob_transport existing \<noteq> ob_transport ob)
          then s
          else s\<lparr>s_observation := observe_response (s_observation s) ob,
                 s_current := Some (current\<lparr>ca_response_observation := Some ob\<rparr>)\<rparr>)"

definition observe_session_update :: "ProviderSessionState \<Rightarrow> Session \<Rightarrow> Session" where
  "observe_session_update state s =
     (case s_current s of
        None \<Rightarrow> s
      | Some current \<Rightarrow>
          if session_provider state \<noteq> provider_kind_str (md_provider (ca_metadata current)) then s
          else s\<lparr>s_operation := set_provider_session_state (s_operation s) state\<rparr>)"

definition session_observe_identity :: "GatewayEvent \<Rightarrow> Session \<Rightarrow> Session" where
  "session_observe_identity gev s = s\<lparr>s_observation := observe_identity (s_observation s) gev\<rparr>"

definition session_observe_fact :: "World \<Rightarrow> GatewayEvent \<Rightarrow> Session \<Rightarrow> Session" where
  "session_observe_fact w gev s =
     s\<lparr>s_observation := observe_event (instant_at w (s_tick s)) (s_observation s) gev\<rparr>"

definition session_observe_event :: "World \<Rightarrow> GatewayEvent \<Rightarrow> Session \<Rightarrow> Session" where
  "session_observe_event w gev s = mark_send_observed w (session_observe_fact w gev s)"

definition observe_wire_event :: "World \<Rightarrow> Session \<Rightarrow> Session" where
  "observe_wire_event w s = mark_send_observed w s"

definition websocket_observation_attempt :: "CurrentAttempt \<Rightarrow> WebSocketResponseAttempt option" where
  "websocket_observation_attempt c =
     (if transport_str (md_transport (ca_metadata c)) = ''websocket''
      then Some \<lparr>ws_provider = md_provider (ca_metadata c), ws_account_id = md_account (ca_metadata c),
                 ws_attempt_index = ca_index c\<rparr>
      else None)"

definition observe_websocket_response ::
  "ProviderEvent \<Rightarrow> WebSocketResponseAttempt option \<Rightarrow> Session \<Rightarrow> Session" where
  "observe_websocket_response event attempt s =
     (case (s_request_observation s, pev_wire event, attempt) of
        (Some _, Some wire, Some attempt) \<Rightarrow>
          let seq = saturating_add_u 64 (s_websocket_observation_sequence s) 1
          in s\<lparr>s_websocket_observation_sequence := seq,
               s_websocket_log := s_websocket_log s @ [(attempt, seq, wire)]\<rparr>
      | _ \<Rightarrow> s)"

text \<open>The facts and the observation of a batch that ends the request; the batch is handed on without
  its observations.\<close>

fun observe_atomic_terminal_events ::
  "World \<Rightarrow> ProviderEvent list \<Rightarrow> Session \<Rightarrow> ProviderEvent list \<times> Session" where
  "observe_atomic_terminal_events w [] s = ([], s)"
| "observe_atomic_terminal_events w (event # events) s =
     (let (observation, event') = take_observation event;
          s1 = (case observation of None \<Rightarrow> s | Some ob \<Rightarrow> session_observe_response ob s);
          s2 = foldl (\<lambda>s gev. session_observe_fact w gev (session_observe_identity gev s)) s1
                 (pev_canonical event');
          (rest, s3) = observe_atomic_terminal_events w events s2
      in (event' # rest, s3))"


subsection \<open>Budget\<close>

definition budget_attempt_usd :: "Session \<Rightarrow> Decimal" where
  "budget_attempt_usd s =
     (if s_budget_attempt_already_counted s then Decimal_ZERO
      else unwrap_or
             (map_option money_amount
               (filter_option (\<lambda>m. currency_str (money_currency m) = ''USD'') (cost_total (ro_cost (s_observation s)))))
             Decimal_ZERO)"

record ClientBudgetCharge =
  charge_key_id :: ClientApiKeyId
  charge_request_id :: ModelRequestId
  charge_amount_usd :: Decimal
  charge_completed_at :: system_time

definition budget_charge :: "World \<Rightarrow> Session \<Rightarrow> ClientBudgetCharge" where
  "budget_charge w s =
     \<lparr>charge_key_id = s_client_api_key_ref s, charge_request_id = s_request_id s,
      charge_amount_usd =
        unwrap_or (checked_add (s_budget_prior_attempts_usd s) (budget_attempt_usd s)) Decimal_MAX,
      charge_completed_at = unwrap_or (s_finalized_at s) (now_of w s)\<rparr>"

definition reset_uncommitted_observations :: "Session \<Rightarrow> Session" where
  "reset_uncommitted_observations s =
     s\<lparr>s_budget_prior_attempts_usd :=
         unwrap_or (checked_add (s_budget_prior_attempts_usd s) (budget_attempt_usd s)) Decimal_MAX,
       s_budget_attempt_already_counted := False,
       s_observation := reset_for_attempt (s_observation s),
       s_upstream_complete := False\<rparr>"


subsection \<open>Finishing\<close>

definition current_transport_observation :: "Session \<Rightarrow> string option \<times> string option \<times> string option" where
  "current_transport_observation s =
     (case Option.bind (s_current s) ca_response_observation of
        None \<Rightarrow> (None, None, None)
      | Some ob \<Rightarrow> (Some (transport_str (ob_transport ob)),
                    map_option UpstreamHttpVersion_as_str (ob_http_version ob),
                    map_option WebSocketPoolKind_as_str (ob_websocket_pool ob)))"

definition current_provider_metadata_json :: "Session \<Rightarrow> string option" where
  "current_provider_metadata_json s =
     Option.bind (Option.bind (s_current s) ca_response_observation) ob_provider_metadata"

definition current_service_tier :: "Session \<Rightarrow> string option" where
  "current_service_tier s = Option.bind (Option.bind (s_current s) ca_response_observation) ob_service_tier"

definition image_generation_succeeded :: "Session \<Rightarrow> bool option" where
  "image_generation_succeeded s =
     (if s_image_generation_requested s
      then Some (if op_kind (s_operation s) = OkGenerateImage then s_upstream_complete s
                 else 0 < unwrap_or (image_output_tokens (ro_usage (s_observation s))) 0)
      else None)"

definition notify_observer :: "RequestObservation option \<Rightarrow> Session \<Rightarrow> Session" where
  "notify_observer observation s =
     (case (s_request_observation s, observation) of
        (Some d, Some ob) \<Rightarrow> s\<lparr>s_request_observation := Some (dispatch d ob)\<rparr>
      | _ \<Rightarrow> s)"

definition run_pending_write :: "World \<Rightarrow> PendingWrite \<Rightarrow> Session \<Rightarrow> bool \<times> Session" where
  "run_pending_write w p s =
     (let (persisted, s) = (case pw_request p of
                              Some request \<Rightarrow> store_write w (CreateModelRequest request) s
                            | None \<Rightarrow> (pw_persisted p, s))
      in (persisted,
          notify_observer (pw_observation p)
            (store_when persisted w (FinalizeModelRequest (pw_finalization p)) s)))"

definition resume_finalization :: "World \<Rightarrow> Session \<Rightarrow> Session" where
  "resume_finalization w s =
     (case s_finalization s of
        Some (Pending p) \<Rightarrow>
          let (persisted, s) = run_pending_write w p s
          in s\<lparr>s_request_persisted := persisted, s_finalization := Some Complete\<rparr>
      | _ \<Rightarrow> s)"

text \<open>\<open>persist_finalization\<close> up to the point where the pending write is owned by the session.\<close>

definition begin_finalization :: "ModelRequestFinalization \<Rightarrow> Session \<Rightarrow> Session" where
  "begin_finalization f s =
     (let provider = or_else (map_option (\<lambda>c. md_provider (ca_metadata c)) (s_current s)) (s_last_observed_provider s);
          observation = map_option
            (\<lambda>d. finalization_observation d f provider
                   (map_option (\<lambda>c. (md_account (ca_metadata c), md_upstream_model (ca_metadata c))) (s_current s)))
            (s_request_observation s);
          take_request = (\<not> s_request_persisted s \<and> fin_attempt_count f = 0 \<and> fin_send_state f = NotSent);
          request = (if take_request then s_pending_request s else None)
      in s\<lparr>s_finalized_at := Some (fin_completed_at f),
           s_pending_request := (if take_request then None else s_pending_request s),
           s_finalization := Some (Pending
             \<lparr>pw_request = request, pw_persisted = s_request_persisted s, pw_finalization = f,
              pw_observation = observation\<rparr>)\<rparr>)"

definition persist_finalization :: "World \<Rightarrow> ModelRequestFinalization \<Rightarrow> Session \<Rightarrow> Session" where
  "persist_finalization w f s = resume_finalization w (begin_finalization f s)"

text \<open>The columns every final record takes from the session.\<close>

definition final_record :: "World \<Rightarrow> Session \<Rightarrow> ModelRequestFinalization" where
  "final_record w s =
     \<lparr>fin_request_id = s_request_id s, fin_outcome = Succeeded, fin_send_state = Sent,
      fin_attempt_count = s_attempts s, fin_downstream_committed_at = s_downstream_committed_at s,
      fin_client_status_code = s_client_status_code s,
      fin_client_response_id = client_response_id (s_observation s),
      fin_upstream_status_code = Option.bind (Option.bind (s_current s) ca_response_observation) ob_status_code,
      fin_upstream_request_id = Option.bind (s_current s) attempt_upstream_request_id,
      fin_upstream_response_id = upstream_response_id (s_observation s),
      fin_upstream_transport = fst (current_transport_observation s),
      fin_http_version = fst (snd (current_transport_observation s)),
      fin_websocket_pool = snd (snd (current_transport_observation s)),
      fin_service_tier = current_service_tier s,
      fin_upstream_response_model =
        Option.bind (Option.bind (s_current s) ca_response_observation) ob_upstream_response_model,
      fin_provider_metadata_json = current_provider_metadata_json s,
      fin_error = None, fin_provider_error_code = None, fin_raw_upstream_error = None,
      fin_failure_observation = default_failure_observation, fin_retry_after_ms = None,
      fin_usage = ro_usage (s_observation s),
      fin_image_generation_succeeded = image_generation_succeeded s,
      fin_cost = ro_cost (s_observation s), fin_timings = ro_timings (s_observation s),
      fin_completed_at = now_of w s\<rparr>"

definition finish_observation :: "World \<Rightarrow> Session \<Rightarrow> Session" where
  "finish_observation w s = s\<lparr>s_observation := observation_finish (instant_at w (s_tick s)) (s_observation s)\<rparr>"

definition finish_success :: "World \<Rightarrow> Session \<Rightarrow> Session" where
  "finish_success w s =
     (if is_finalized s then s
      else let s = finish_observation w s in persist_finalization w (final_record w s) s)"

definition finish_failure :: "World \<Rightarrow> FailureFinalization \<Rightarrow> Session \<Rightarrow> Session" where
  "finish_failure w ff s =
     (if is_finalized s then s
      else
        let s = finish_observation w s; r = final_record w s
        in persist_finalization w
             (r\<lparr>fin_outcome := ff_outcome ff, fin_send_state := ff_send_state ff,
                fin_upstream_status_code := or_else (ff_upstream_status_code ff) (fin_upstream_status_code r),
                fin_upstream_request_id := or_else (ff_upstream_request_id ff) (fin_upstream_request_id r),
                fin_error := Some (ff_error ff), fin_provider_error_code := ff_provider_error_code ff,
                fin_raw_upstream_error := ff_raw_upstream_error ff,
                fin_failure_observation := ff_observation ff, fin_retry_after_ms := ff_retry_after_ms ff\<rparr>) s)"

definition gateway_failure :: "ExecutionOutcome \<Rightarrow> UpstreamSendState \<Rightarrow> GatewayError \<Rightarrow> FailureFinalization" where
  "gateway_failure outcome send_state error =
     \<lparr>ff_outcome = outcome, ff_send_state = send_state, ff_error = error, ff_upstream_status_code = None,
      ff_upstream_request_id = None, ff_provider_error_code = None, ff_raw_upstream_error = None,
      ff_retry_after_ms = None, ff_observation = default_failure_observation\<rparr>"

definition finish_provider_error_with_send_state ::
  "World \<Rightarrow> StreamError \<Rightarrow> UpstreamSendState \<Rightarrow> Session \<Rightarrow> Session" where
  "finish_provider_error_with_send_state w error send_state s =
     (let (send_state, s) = raise_send_watermark w send_state s;
          outcome = (if pe_kind error = PkCancelled then Cancelled
                     else if is_some (s_downstream_committed_at s) then Incomplete else Failed)
      in finish_failure w
           \<lparr>ff_outcome = outcome, ff_send_state = send_state, ff_error = from_provider error,
            ff_upstream_status_code = pe_upstream_status error,
            ff_upstream_request_id = error_upstream_request_id error,
            ff_provider_error_code = error_upstream_code error,
            ff_raw_upstream_error = pe_raw_upstream_error error,
            ff_retry_after_ms = map_option millis_u64 (pe_retry_after error),
            ff_observation =
              \<lparr>continuation_unavailable_reason =
                 Option.bind (pe_failure_observation error) fo_continuation_unavailable_reason,
               upstream_connection = Option.bind (pe_failure_observation error) fo_connection\<rparr>\<rparr> s)"

definition finish_provider_error :: "World \<Rightarrow> StreamError \<Rightarrow> Session \<Rightarrow> Session" where
  "finish_provider_error w error s =
     finish_provider_error_with_send_state w error
       (escalate_send_state (current_send_state w s) (pe_send_state error)) s"

fun interruption_error :: "bool \<Rightarrow> EngineError \<Rightarrow> ExecutionOutcome \<times> GatewayError" where
  "interruption_error committed EngineCancelled = (Cancelled, new_GatewayError GkCancelled ''request was cancelled'')"
| "interruption_error committed EngineDeadline =
     (if committed then Incomplete else Failed, new_GatewayError GkTimeout ''request deadline elapsed'')"
| "interruption_error committed _ = (Failed, new_GatewayError GkInternal ''request execution failed'')"

definition finish_interruption :: "World \<Rightarrow> EngineError \<Rightarrow> Session \<Rightarrow> Session" where
  "finish_interruption w error s =
     (let (outcome, gateway_error) = interruption_error (is_some (s_downstream_committed_at s)) error;
          send_state = (if s_attempts s = 0 then NotSent
                        else if is_some (s_downstream_committed_at s) \<or> is_some_and (s_current s) ca_send_observed
                        then Sent else Ambiguous);
          (send_state, s) = raise_send_watermark w send_state s;
          s = store_when (0 < s_attempts s \<and> s_request_persisted s) w (MarkSendState send_state) s
      in finish_failure w (gateway_failure outcome send_state gateway_error) s)"

definition record_provider_failure :: "ProviderKind \<Rightarrow> Session \<Rightarrow> Session" where
  "record_provider_failure kind s = s\<lparr>s_last_observed_provider := Some kind\<rparr>"

definition record_current_provider_success :: "Session \<Rightarrow> Session" where
  "record_current_provider_success s =
     (case s_current s of
        None \<Rightarrow> s
      | Some current \<Rightarrow> s\<lparr>s_last_observed_provider := Some (md_provider (ca_metadata current))\<rparr>)"

definition native_continuation_pin :: "ProviderSessionState \<Rightarrow> Session \<Rightarrow> NativeContinuationPin option" where
  "native_continuation_pin state s =
     (case (s_current s, upstream_response_id (s_observation s)) of
        (Some current, Some rid) \<Rightarrow>
          let provider = md_provider (ca_metadata current) in
          if session_provider state \<noteq> provider_kind_str provider then None
          else Some (pin_with_session_state
                 (pin_with_scope
                   (new_NativeContinuationPin (PreviousResponseId rid) (PreviousResponseId rid)
                      (s_client_api_key_ref s) provider (md_account (ca_metadata current)))
                   (if is_some_and (session_extension_owner state) owner_connection_local
                    then ConnectionLocal else Persisted))
                 state)
      | _ \<Rightarrow> None)"

end
