(* ===== verification/Attempt_Coordinator.thy ===== *)
theory Attempt_Coordinator
  imports Execution_Session
begin

text \<open>
  The retry and delivery logic of \<open>gateway-core/src/engine/coordinator.rs\<close>: which failed attempts
  may be replayed, how an attempt is prepared and checked, the loop that pulls the upstream stream,
  and the public operations of the session.

  \<open>pull_step\<close> is one turn of the loop in \<open>pull\<close>; a turn that swallows an event returns no outcome.
  The loops of \<open>pull\<close>, \<open>next_event\<close> and \<open>collect_uncommitted\<close> run as long as the upstream stream
  lasts, so they are partial functions: \<open>None\<close> is a loop that never returns.
\<close>

section \<open>Starting\<close>

definition initial_continuation_attempt ::
  "Operation \<Rightarrow> RoutingPlan \<Rightarrow> ContinuationBinding option \<Rightarrow> ContinuationAttempt" where
  "initial_continuation_attempt op plan continuation =
     (case continuation of
        None \<Rightarrow> NoContinuation
      | Some (External _) \<Rightarrow>
          if (case plan_candidates plan of
                [] \<Rightarrow> False
              | candidate # _ \<Rightarrow>
                  is_some (operation_session_state op (provider_kind_str (pc_provider candidate))))
          then ReplayAny else Native
      | Some (Pinned _) \<Rightarrow> Native)"

fun find_position :: "('a \<Rightarrow> bool) \<Rightarrow> 'a list \<Rightarrow> nat option" where
  "find_position p [] = None"
| "find_position p (x # xs) = (if p x then Some 0 else map_option Suc (find_position p xs))"

definition initial_candidate_index ::
  "RoutingPlan \<Rightarrow> ContinuationBinding option \<Rightarrow> EngineError + nat" where
  "initial_candidate_index plan continuation =
     (case Option.bind continuation binding_pinned of
        None \<Rightarrow> Ok 0
      | Some pin \<Rightarrow>
          ok_or (find_position (\<lambda>candidate. pc_provider candidate = pin_provider pin) (plan_candidates plan))
            ContinuationPinMismatch)"

definition new_Session ::
  "World \<Rightarrow> NewModelRequest \<Rightarrow> Operation \<Rightarrow> RoutingPlan \<Rightarrow> SessionAccountSelection
     \<Rightarrow> ContinuationBinding option \<Rightarrow> RequestObservationDispatch option \<Rightarrow> bool \<Rightarrow> nat option \<Rightarrow> nat \<Rightarrow> Session" where
  "new_Session w request op plan selection continuation observation has_policy effects_baseline index =
     \<lparr>s_tick = 0, s_store_log = [], s_websocket_log = [], s_request_id = nr_id request,
      s_client_api_key_ref = nr_client_api_key_ref request,
      s_connection_budget = default_connection, s_connection_retries = 0,
      s_observation = new_ResponseObservation (instant_at w 0), s_request_observation = observation,
      s_budget_prior_attempts_usd = Decimal_ZERO, s_budget_attempt_already_counted = False,
      s_deadline = nr_deadline_at request, s_pending_request = Some request,
      s_requested_model = nr_requested_model request, s_request_persisted = False,
      s_operation = op, s_plan = plan, s_has_request_policy = has_policy,
      s_has_execution_effects = is_some effects_baseline,
      s_execution_effects_baseline = unwrap_or effects_baseline 0,
      s_account_selection = selection, s_continuation = continuation,
      s_continuation_attempt = initial_continuation_attempt op plan continuation,
      s_account_state_owner =
        map_option owner_from_continuation (Option.bind continuation binding_pinned),
      s_attempts = 0, s_websocket_observation_sequence = 0, s_routing_attempts = 0,
      s_candidate_index = index, s_excluded_accounts = {}, s_credential_recovery_attempted = {},
      s_recovery_account = None, s_pending_retry = None, s_transient_retry_counts = (\<lambda>_. 0),
      s_request_profiles = Map.empty, s_current = None, s_send_state_watermark = NotSent,
      s_downstream_committed_at = None, s_client_status_code = None, s_delivery_pending = False,
      s_upstream_complete = False, s_finalization = None, s_finalized_at = None,
      s_image_generation_requested = image_generation_requested op,
      s_last_retryable_failure = None, s_last_retryable_failure_events = [],
      s_last_observed_provider = None, s_pending_terminal_failure = None\<rparr>"

text \<open>The session is dropped when the start is refused; the state it leaves in the store is kept.\<close>

definition start_with_account_selection ::
  "World \<Rightarrow> NewModelRequest \<Rightarrow> Operation \<Rightarrow> RoutingPlan \<Rightarrow> SessionAccountSelection
     \<Rightarrow> ContinuationBinding option \<Rightarrow> RequestObservationDispatch option \<Rightarrow> bool \<Rightarrow> nat option
     \<Rightarrow> (EngineError \<times> Session option) + Session" where
  "start_with_account_selection w request op plan selection continuation observation has_policy effects_baseline =
     (case initial_candidate_index plan continuation of
        Inl e \<Rightarrow> Err (e, None)
      | Inr index \<Rightarrow>
          let s = new_Session w request op plan selection continuation observation has_policy effects_baseline index
          in if cancelled_at w 0 then Err (EngineCancelled, Some (finish_interruption w EngineCancelled s))
             else if s_deadline s \<le> now_at w 0 then Err (EngineDeadline, Some (finish_interruption w EngineDeadline s))
             else Ok s)"


section \<open>Retry decisions\<close>

definition provider_proved_replay_safe :: "StreamError \<Rightarrow> bool" where
  "provider_proved_replay_safe error \<longleftrightarrow>
     pe_send_state error = NotSent \<or> (pe_send_state error \<noteq> Ambiguous \<and> pe_replay_safe error)"

definition advance_provider_candidate :: "Session \<Rightarrow> bool \<times> Session" where
  "advance_provider_candidate s =
     (let next = Suc (s_candidate_index s) in
      if next \<ge> length (plan_candidates (s_plan s)) then (False, s)
      else (True, s\<lparr>s_candidate_index := next\<rparr>))"

definition apply_retry_policy :: "World \<Rightarrow> RetryFacts \<Rightarrow> Session \<Rightarrow> (EngineError + bool) \<times> Session" where
  "apply_retry_policy w facts s =
     (if \<not> s_has_request_policy s then (Ok (rf_retry_allowed facts), s)
      else
        let remaining = unwrap_or (duration_since (s_deadline s) (now_of w s)) 0;
            allowed = (rf_retry_allowed facts \<and> remaining \<noteq> 0 \<and> \<not> cancelled_at w (s_tick s)
                       \<and> \<not> execution_effect_observed w s);
            facts = facts\<lparr>rf_remaining_deadline := remaining, rf_retry_allowed := allowed\<rparr>;
            decision = (if cancelled_at w (s_tick s) then WaitCancelled else policy_decision w (s_tick s) facts);
            s = tick s
        in case decision of
             WaitCancelled \<Rightarrow> (Err EngineCancelled, s)
           | WaitDeadline \<Rightarrow> (Err EngineDeadline, s)
           | WaitReady decision \<Rightarrow>
               (Ok (allowed \<and> decision \<noteq> StopRetry \<and> \<not> execution_effect_observed w s
                    \<and> \<not> cancelled_at w (s_tick s) \<and> now_of w s < s_deadline s), s))"

definition prepare_continuation_retry ::
  "CurrentAttempt \<Rightarrow> StreamError \<Rightarrow> UpstreamSendState \<Rightarrow> bool \<Rightarrow> Session \<Rightarrow> bool \<times> Session" where
  "prepare_continuation_retry current error send_state replay_safe s =
     (let account = md_account (ca_metadata current);
          disposition = pe_continuation_recovery_disposition error
      in if is_some (required_account (s_account_selection s))
            \<or> s_continuation_attempt s = NoContinuation
            \<or> is_some (s_downstream_committed_at s)
            \<or> s_delivery_pending s
            \<or> send_state = Ambiguous
            \<or> \<not> replay_safe
            \<or> s_routing_attempts s \<ge> plan_max_attempts (s_plan s)
            \<or> operation_session_state (s_operation s) (provider_kind_str (md_provider (ca_metadata current))) = None
         then (False, s)
         else case s_continuation_attempt s of
                Native \<Rightarrow>
                  (case disposition of
                     Some RetryExactConnection \<Rightarrow> (True, s\<lparr>s_recovery_account := Some account\<rparr>)
                   | Some ProviderReplayAllowed \<Rightarrow> (True, s\<lparr>s_continuation_attempt := ReplayOwner\<rparr>)
                   | _ \<Rightarrow> (False, s))
              | ReplayOwner \<Rightarrow>
                  if disposition = Some RetryExactConnection \<or> disposition = Some ClientReplayRequired then (False, s)
                  else (True, s\<lparr>s_continuation_attempt := ReplayAny,
                                s_excluded_accounts := insert account (s_excluded_accounts s)\<rparr>)
              | ReplayAny \<Rightarrow>
                  if disposition = Some RetryExactConnection \<or> disposition = Some ClientReplayRequired then (False, s)
                  else (True, s\<lparr>s_excluded_accounts := insert account (s_excluded_accounts s)\<rparr>)
              | NoContinuation \<Rightarrow> (False, s))"

definition prepare_unavailable_native_continuation_replay ::
  "World \<Rightarrow> StreamError \<Rightarrow> Session \<Rightarrow> bool \<times> Session" where
  "prepare_unavailable_native_continuation_replay w error s =
     (if is_some (required_account (s_account_selection s))
         \<or> s_continuation_attempt s \<noteq> Native
         \<or> current_send_state w s \<noteq> NotSent
         \<or> pe_kind error \<notin> {PkNoEligibleAccount, PkAccountCapacityUnavailable, PkQuotaExhausted}
      then (False, s)
      else case Option.bind (s_continuation s) binding_pinned of
             None \<Rightarrow> (False, s)
           | Some pin \<Rightarrow>
               if operation_session_state (s_operation s) (provider_kind_str (pin_provider pin)) = None then (False, s)
               else (True, s\<lparr>s_continuation_attempt := ReplayAny,
                             s_excluded_accounts := insert (pin_account pin) (s_excluded_accounts s)\<rparr>))"

text \<open>The guards shared by the retries of a stream failure: nothing of this request has reached the
  client and no external effect was observed.\<close>

definition undelivered :: "Session \<Rightarrow> bool" where
  "undelivered s \<longleftrightarrow> s_downstream_committed_at s = None \<and> \<not> s_delivery_pending s"

definition account_rotation_retry :: "bool \<Rightarrow> UpstreamSendState \<Rightarrow> StreamError \<Rightarrow> Session \<Rightarrow> bool" where
  "account_rotation_retry effect attempt_send_state error s \<longleftrightarrow>
     \<not> effect
     \<and> required_account (s_account_selection s) = None
     \<and> s_continuation_attempt s = NoContinuation
     \<and> s_downstream_committed_at s = None
     \<and> \<not> s_delivery_pending s
     \<and> attempt_send_state \<noteq> Ambiguous
     \<and> pe_pre_delivery_retry error = Some AccountRotation
     \<and> s_routing_attempts s < plan_max_attempts (s_plan s)"

fun is_connection_retry :: "PreDeliveryRetry option \<Rightarrow> bool" where
  "is_connection_retry (Some (SameAccountConnectionRetry _)) = True"
| "is_connection_retry _ = False"

definition transport_recovery ::
  "World \<Rightarrow> bool \<Rightarrow> UpstreamSendState \<Rightarrow> StreamError \<Rightarrow> Session \<Rightarrow> (AttemptTransport \<times> duration) option \<times> Session" where
  "transport_recovery w effect attempt_send_state error s =
     (let allowed = (\<not> effect \<and> \<not> conn_exhausted (instant_at w (s_tick s)) (s_connection_budget s)
                     \<and> s_downstream_committed_at s = None \<and> \<not> s_delivery_pending s)
      in case pe_pre_delivery_retry error of
           Some (SameAccountConnectionRetry transport) \<Rightarrow>
             if allowed \<and> attempt_send_state = NotSent \<and> current_send_state w s = NotSent
                \<and> s_continuation_attempt s = NoContinuation
             then (case retry_delay (instant_at w (s_tick s)) (s_connection_retries s)
                          (request_id_str (s_request_id s)) (s_connection_budget s) of
                     None \<Rightarrow> (None, s)
                   | Some delay \<Rightarrow>
                       (Some (transport, delay), s\<lparr>s_connection_retries := s_connection_retries s + 1\<rparr>))
             else (None, s)
         | Some (SameAccountTransportRetry retry_index delay) \<Rightarrow>
             if allowed \<and> attempt_send_state \<noteq> Ambiguous
             then (Some (RetryTransport retry_index, delay), s) else (None, s)
         | Some SameAccountTransportFallback \<Rightarrow>
             if allowed \<and> attempt_send_state \<noteq> Ambiguous
             then (Some (FallbackTransport, 0), s) else (None, s)
         | _ \<Rightarrow> (None, s))"

definition ordinary_retry ::
  "World \<Rightarrow> bool \<Rightarrow> bool \<Rightarrow> UpstreamSendState \<Rightarrow> StreamError \<Rightarrow> Session \<Rightarrow> bool" where
  "ordinary_retry w effect connection_retry_requested attempt_send_state error s \<longleftrightarrow>
     \<not> conn_exhausted (instant_at w (s_tick s)) (s_connection_budget s)
     \<and> \<not> connection_retry_requested
     \<and> \<not> effect
     \<and> required_account (s_account_selection s) = None
     \<and> s_continuation_attempt s = NoContinuation
     \<and> s_downstream_committed_at s = None
     \<and> \<not> s_delivery_pending s
     \<and> attempt_send_state \<noteq> Ambiguous
     \<and> provider_proved_replay_safe error
     \<and> s_routing_attempts s < plan_max_attempts (s_plan s)"

text \<open>\<open>1_u32.checked_shl(n)\<close> fails from a shift of 32; \<open>Duration::saturating_mul\<close> saturates at the
  greatest duration, whose seconds fill 64 bits.\<close>

definition DURATION_MAX :: duration where
  "DURATION_MAX = (2 ^ 64 - 1) * NANOS_PER_SEC + (NANOS_PER_SEC - 1)"

definition transient_delay :: "nat \<Rightarrow> duration \<Rightarrow> duration \<Rightarrow> duration" where
  "transient_delay retries initial_delay max_delay =
     (let multiplier = (if retries < 32 then 2 ^ retries else 2 ^ 32 - 1)
      in min (min (initial_delay * multiplier) DURATION_MAX) max_delay)"

definition transient_retry ::
  "bool \<Rightarrow> ProviderAccountId \<Rightarrow> StreamError \<Rightarrow> Session \<Rightarrow> duration option \<times> Session" where
  "transient_retry ordinary account error s =
     (case pe_pre_delivery_retry error of
        Some (SameAccountTransientRetry max_retries initial_delay max_delay) \<Rightarrow>
          if ordinary then
            let retries = s_transient_retry_counts s account in
            if retries < max_retries
            then (Some (transient_delay retries initial_delay max_delay),
                  s\<lparr>s_transient_retry_counts :=
                      (s_transient_retry_counts s)(account := saturating_add_u 32 retries 1)\<rparr>)
            else (None, s)
          else (None, s)
      | _ \<Rightarrow> (None, s))"

definition same_account_retry ::
  "bool \<Rightarrow> UpstreamSendState \<Rightarrow> ProviderAccountId \<Rightarrow> StreamError \<Rightarrow> Session \<Rightarrow> bool" where
  "same_account_retry effect attempt_send_state account error s \<longleftrightarrow>
     \<not> effect
     \<and> pe_retry_same_account error
     \<and> provider_proved_replay_safe error
     \<and> s_downstream_committed_at s = None
     \<and> \<not> s_delivery_pending s
     \<and> attempt_send_state \<noteq> Ambiguous
     \<and> s_routing_attempts s < plan_max_attempts (s_plan s)
     \<and> account \<notin> s_credential_recovery_attempted s"


section \<open>A failed stream\<close>

text \<open>What \<open>handle_stream_error\<close> decides before the plugin policy is asked.\<close>

record RetryPlan =
  rp_attempt_send_state :: UpstreamSendState
  rp_send_state :: UpstreamSendState
  rp_continuation :: bool
  rp_rotation :: bool
  rp_transport :: "(AttemptTransport \<times> duration) option"
  rp_ordinary :: bool
  rp_transient :: "duration option"
  rp_same_account :: bool

definition retryable :: "RetryPlan \<Rightarrow> bool" where
  "retryable p \<longleftrightarrow>
     rp_continuation p \<or> rp_same_account p \<or> rp_ordinary p \<or> rp_rotation p \<or> is_some (rp_transport p)"

text \<open>The send state of the failed attempt is settled first: the watermark is raised and written.\<close>

definition settle_send_state ::
  "World \<Rightarrow> CurrentAttempt \<Rightarrow> StreamError \<Rightarrow> Session \<Rightarrow> (UpstreamSendState \<times> UpstreamSendState) \<times> Session" where
  "settle_send_state w current error s =
     (let attempt_send_state = (if ca_send_observed current then Sent else pe_send_state error);
          s = (if attempt_send_state \<noteq> NotSent
               then s\<lparr>s_connection_budget := conn_complete (s_connection_budget s)\<rparr> else s);
          (send_state, s) = raise_send_watermark w attempt_send_state s
      in ((attempt_send_state, send_state),
          store_when (s_request_persisted s) w (MarkSendState send_state) s))"

definition plan_retry ::
  "World \<Rightarrow> bool \<Rightarrow> CurrentAttempt \<Rightarrow> StreamError \<Rightarrow> UpstreamSendState \<times> UpstreamSendState \<Rightarrow> Session
     \<Rightarrow> RetryPlan \<times> Session" where
  "plan_retry w effect current error sent s =
     (let attempt_send_state = fst sent;
          account = md_account (ca_metadata current);
          (continuation, s) = (if effect then (False, s)
             else prepare_continuation_retry current error attempt_send_state (provider_proved_replay_safe error) s);
          rotation = account_rotation_retry effect attempt_send_state error s;
          connection_requested = (current_send_state w s = NotSent \<and> is_connection_retry (pe_pre_delivery_retry error));
          (transport, s) = transport_recovery w effect attempt_send_state error s;
          ordinary = ordinary_retry w effect connection_requested attempt_send_state error s;
          (transient, s) = transient_retry ordinary account error s;
          same_account = same_account_retry effect attempt_send_state account error s
      in (\<lparr>rp_attempt_send_state = attempt_send_state, rp_send_state = snd sent,
           rp_continuation = continuation, rp_rotation = rotation, rp_transport = transport,
           rp_ordinary = ordinary, rp_transient = transient, rp_same_account = same_account\<rparr>, s))"

definition retry_facts :: "CurrentAttempt \<Rightarrow> StreamError \<Rightarrow> RetryPlan \<Rightarrow> Session \<Rightarrow> RetryFacts" where
  "retry_facts current error p s =
     \<lparr>rf_attempt_index = ca_index current, rf_provider = md_provider (ca_metadata current),
      rf_model = map_option upstream_model_str (md_upstream_model (ca_metadata current)),
      rf_error_kind = pe_kind error, rf_upstream_status = pe_upstream_status error,
      rf_send_state = rp_attempt_send_state p,
      rf_remaining_routing_attempts = plan_max_attempts (s_plan s) - s_routing_attempts s,
      rf_remaining_deadline = 0, rf_retry_allowed = retryable p\<rparr>"

text \<open>How the next attempt is bound: credential recovery pins the account once, a back-off or a
  transport recovery keeps it, a continuation was already re-planned, and otherwise it is excluded.\<close>

definition bind_next_attempt :: "CurrentAttempt \<Rightarrow> RetryPlan \<Rightarrow> Session \<Rightarrow> Session" where
  "bind_next_attempt current p s =
     (let account = md_account (ca_metadata current) in
      if rp_same_account p
      then s\<lparr>s_credential_recovery_attempted := insert account (s_credential_recovery_attempted s),
             s_recovery_account := Some account\<rparr>
      else case rp_transient p of
             Some delay \<Rightarrow>
               s\<lparr>s_pending_retry := Some \<lparr>pr_account = account, pr_transport = ca_transport current,
                    pr_delay = delay, pr_transport_recovery = False\<rparr>\<rparr>
           | None \<Rightarrow>
               case rp_transport p of
                 Some (transport, delay) \<Rightarrow>
                   s\<lparr>s_pending_retry := Some \<lparr>pr_account = account, pr_transport = transport,
                        pr_delay = delay, pr_transport_recovery = True\<rparr>\<rparr>
               | None \<Rightarrow>
                   if \<not> rp_continuation p
                   then s\<lparr>s_excluded_accounts := insert account (s_excluded_accounts s)\<rparr> else s)"

definition intermediate_failure :: "World \<Rightarrow> CurrentAttempt \<Rightarrow> StreamError \<Rightarrow> Session \<Rightarrow> IntermediateFailure" where
  "intermediate_failure w current error s =
     \<lparr>if_request_id = s_request_id s, if_attempt_index = ca_index current, if_trigger = ca_trigger current,
      if_provider_kind = md_provider (ca_metadata current),
      if_account_id = Some (md_account (ca_metadata current)),
      if_upstream_model_id = md_upstream_model (ca_metadata current),
      if_upstream_status_code =
        or_else (pe_upstream_status error) (Option.bind (ca_response_observation current) ob_status_code),
      if_upstream_request_id = or_else (error_upstream_request_id error) (attempt_upstream_request_id current),
      if_error = error,
      if_latency = unwrap_or (duration_since (now_of w s) (ca_started_at current)) 0\<rparr>"

definition discard_attempt ::
  "World \<Rightarrow> CurrentAttempt \<Rightarrow> StreamError \<Rightarrow> ProviderEvent list \<Rightarrow> RetryPlan \<Rightarrow> Session \<Rightarrow> Session" where
  "discard_attempt w current error events p s =
     (let s = foldl (\<lambda>s gev. session_observe_fact w gev s) s (concat (map pev_canonical events));
          s = bind_next_attempt current p s;
          s = s\<lparr>s_last_retryable_failure_events := events, s_last_retryable_failure := Some error\<rparr>;
          s = store_when (s_request_persisted s) w
                (RecordIntermediateFailure (intermediate_failure w current (stable_snapshot error) s)) s
      in reset_uncommitted_observations s)"

text \<open>The failure is recorded, its send state settled and the retry planned, with the attempt taken out
  of the session; then the plugin policy gives its verdict.\<close>

definition planned_failure ::
  "World \<Rightarrow> CurrentAttempt \<Rightarrow> StreamError \<Rightarrow> ProviderEvent list \<Rightarrow> Session
     \<Rightarrow> RetryPlan \<times> (EngineError + bool) \<times> Session" where
  "planned_failure w current error events s =
     (let s = s\<lparr>s_current := None\<rparr>;
          s = (if is_some (s_request_observation s)
               then foldl (\<lambda>s event. observe_websocket_response event (websocket_observation_attempt current) s)
                      s (filter (\<lambda>event. is_some (pev_wire event)) events)
               else s);
          s = record_provider_failure (md_provider (ca_metadata current)) s;
          effect = execution_effect_observed w s;
          (sent, s) = settle_send_state w current error s;
          (p, s) = plan_retry w effect current error sent s;
          (verdict, s) = apply_retry_policy w (retry_facts current error p s) s
      in (p, verdict, s))"

definition handle_stream_error ::
  "World \<Rightarrow> StreamError \<Rightarrow> Session \<Rightarrow> (EngineError + StreamErrorOutcome) \<times> Session" where
  "handle_stream_error w error s =
     (let (events, error) = take_atomic_client_events error in
      case s_current s of
        None \<Rightarrow> (Err NoActiveAttempt, s)
      | Some current \<Rightarrow>
          let (p, verdict, s) = planned_failure w current error events s
          in case verdict of
               Inl e \<Rightarrow> (Err e, finish_interruption w e (s\<lparr>s_current := Some current\<rparr>))
             | Inr True \<Rightarrow> (Ok AttemptDiscarded, discard_attempt w current error events p s)
             | Inr False \<Rightarrow>
                 let s = s\<lparr>s_current := Some current\<rparr> in
                 if events \<noteq> []
                 then let (events, s) = observe_atomic_terminal_events w events s
                      in (Ok (TerminalFailure events error (rp_send_state p)), s)
                 else (Err (provider_engine_error error),
                       finish_provider_error_with_send_state w error (rp_send_state p) s))"


section \<open>Preparing an attempt\<close>

definition local_refusals :: "ProviderErrorKind set" where
  "local_refusals =
     {PkAccountCapacityUnavailable, PkNoEligibleAccount, PkQuotaExhausted, PkConcurrencyQueueFull,
      PkConcurrencyQueueTimeout}"

definition internal_failure :: "World \<Rightarrow> GatewayErrorKind \<Rightarrow> string \<Rightarrow> Session \<Rightarrow> Session" where
  "internal_failure w kind message s =
     finish_failure w (gateway_failure Failed (current_send_state w s) (new_GatewayError kind message)) s"

text \<open>\<open>poll_retry_delay\<close> and \<open>poll_provider\<close> give up at once when the deadline has passed; then the
  cancellation token is polled before the timer and the future.\<close>

definition poll_retry_delay :: "World \<Rightarrow> duration \<Rightarrow> system_time \<Rightarrow> Session \<Rightarrow> unit Waited" where
  "poll_retry_delay w delay deadline s =
     (if deadline < now_of w s then WaitDeadline
      else if cancelled_at w (s_tick s) then WaitCancelled
      else delay_wait w (s_tick s) delay)"

definition poll_provider ::
  "World \<Rightarrow> ProviderCandidate \<Rightarrow> AttemptContext \<Rightarrow> Session \<Rightarrow> (StreamError + ProviderCallMetadata) Waited" where
  "poll_provider w candidate context s =
     (if s_deadline s < now_of w s then WaitDeadline
      else if cancelled_at w (s_tick s) then WaitCancelled
      else provider_execute w (s_tick s) candidate context)"

text \<open>The account and transport the attempt is bound to; a recovery pin is consumed.\<close>

definition bind_attempt ::
  "PendingAttemptRetry option \<Rightarrow> Session \<Rightarrow> (ProviderAccountId option \<times> AttemptTransport) \<times> Session" where
  "bind_attempt pending s =
     (case pending of
        Some recovery \<Rightarrow> ((Some (pr_account recovery), pr_transport recovery), s)
      | None \<Rightarrow>
          (case s_account_selection s of
             Diagnostic account \<Rightarrow> ((Some account, DefaultTransport), s)
           | Scheduled required \<Rightarrow>
               ((or_else (s_recovery_account s) required, DefaultTransport), s\<lparr>s_recovery_account := None\<rparr>)))"

definition account_context :: "ProviderAccountId option \<Rightarrow> Session \<Rightarrow> AccountAttemptContext" where
  "account_context pinned s =
     (let context = (case s_account_selection s of
            Diagnostic account \<Rightarrow>
              diagnostic_AccountAttemptContext (s_excluded_accounts s) account (s_account_state_owner s)
          | Scheduled _ \<Rightarrow>
              (new_AccountAttemptContext (s_excluded_accounts s) pinned (s_account_state_owner s))
                \<lparr>ac_account_scope := Some (plan_account_scope (s_plan s))\<rparr>)
      in context\<lparr>ac_credential_recovery_attempted :=
           is_some_and pinned (\<lambda>account. account \<in> s_credential_recovery_attempted s)\<rparr>)"

definition resolve_profile ::
  "World \<Rightarrow> ProviderKind \<Rightarrow> Session \<Rightarrow> StreamError + Session" where
  "resolve_profile w provider s =
     (if is_some (s_request_profiles s provider) then Ok s
      else case (case scope_request_profiles (plan_account_scope (s_plan s)) provider of
                   Some configuration \<Rightarrow> map_sum (\<lambda>e. e) Some (resolve_request_profile w provider configuration)
                 | None \<Rightarrow> default_request_profile w provider) of
             Inl error \<Rightarrow> Err error
           | Inr None \<Rightarrow> Ok s
           | Inr (Some profile) \<Rightarrow>
               Ok (s\<lparr>s_request_profiles := (s_request_profiles s)(provider \<mapsto> profile)\<rparr>))"

definition attempt_context ::
  "nat \<Rightarrow> ProviderCandidate \<Rightarrow> AccountAttemptContext \<Rightarrow> AttemptTransport \<Rightarrow> Session \<Rightarrow> AttemptContext" where
  "attempt_context index candidate account transport s =
     \<lparr>cx_attempt_index = index, cx_deadline = s_deadline s, cx_account = account,
      cx_request_profile = s_request_profiles s (pc_provider candidate),
      cx_continuation = s_continuation s, cx_continuation_attempt = s_continuation_attempt s,
      cx_transport = transport\<rparr>"

text \<open>The provider refused to start: recover by re-planning the continuation or moving to the next
  candidate, or end the request, with the last real upstream failure if there was one.\<close>

definition candidate_retry :: "World \<Rightarrow> bool \<Rightarrow> StreamError \<Rightarrow> Session \<Rightarrow> bool \<times> Session" where
  "candidate_retry w continuation_retry error s =
     (if \<not> continuation_retry
         \<and> pe_kind error \<in> insert PkProviderInfrastructureUnavailable local_refusals
         \<and> pe_send_state error = NotSent
         \<and> current_send_state w s = NotSent
         \<and> (s_continuation_attempt s = NoContinuation \<or> s_continuation_attempt s = ReplayAny)
      then advance_provider_candidate s else (False, s))"

definition refusal_facts :: "nat \<Rightarrow> ProviderCandidate \<Rightarrow> StreamError \<Rightarrow> bool \<Rightarrow> Session \<Rightarrow> RetryFacts" where
  "refusal_facts index candidate error allowed s =
     \<lparr>rf_attempt_index = index, rf_provider = pc_provider candidate,
      rf_model = map_option upstream_model_str (pc_upstream_model candidate),
      rf_error_kind = pe_kind error, rf_upstream_status = pe_upstream_status error,
      rf_send_state = pe_send_state error,
      rf_remaining_routing_attempts = plan_max_attempts (s_plan s) - s_routing_attempts s,
      rf_remaining_deadline = 0, rf_retry_allowed = allowed\<rparr>"

definition end_refused_attempt ::
  "World \<Rightarrow> ProviderCandidate \<Rightarrow> StreamError \<Rightarrow> Session \<Rightarrow> (EngineError + PullOutcome option) \<times> Session" where
  "end_refused_attempt w candidate error s =
     (case (if pe_kind error \<in> local_refusals then s_last_retryable_failure s else None) of
        Some last_failure \<Rightarrow>
          let s = s\<lparr>s_last_retryable_failure := None\<rparr>;
              send_state = current_send_state w s;
              events = s_last_retryable_failure_events s;
              s = s\<lparr>s_last_retryable_failure_events := []\<rparr>
          in if events \<noteq> []
             then let (events, s) = observe_atomic_terminal_events w events s
                  in (Ok (Some (PullTerminalFailure events last_failure send_state)),
                      s\<lparr>s_budget_attempt_already_counted := True\<rparr>)
             else (Err (provider_engine_error last_failure), finish_provider_error w last_failure s)
      | None \<Rightarrow>
          let s = (if \<not> (pe_kind error \<in> insert PkProviderInfrastructureUnavailable local_refusals
                          \<and> pe_send_state error = NotSent)
                   then record_provider_failure (pc_provider candidate) s else s)
          in (Err (provider_engine_error error), finish_provider_error w error s))"

definition handle_refused_attempt ::
  "World \<Rightarrow> nat \<Rightarrow> ProviderCandidate \<Rightarrow> StreamError \<Rightarrow> Session \<Rightarrow> (EngineError + PullOutcome option) \<times> Session" where
  "handle_refused_attempt w index candidate error s =
     (let (continuation_retry, s) = prepare_unavailable_native_continuation_replay w error s;
          (next_candidate, s) = candidate_retry w continuation_retry error s;
          (verdict, s) = apply_retry_policy w
             (refusal_facts index candidate error (continuation_retry \<or> next_candidate) s) s
      in case verdict of
           Inl e \<Rightarrow> (Err e, s)
         | Inr True \<Rightarrow> (Ok (Some PullAttemptDiscarded), s)
         | Inr False \<Rightarrow> end_refused_attempt w candidate error s)"

text \<open>The started stream is checked against what the request froze before the session owns it.\<close>

definition binding_violation ::
  "ProviderCandidate \<Rightarrow> ProviderAccountId option \<Rightarrow> ProviderCallMetadata \<Rightarrow> Session \<Rightarrow> (EngineError \<times> string) option" where
  "binding_violation candidate pinned md s =
     (if \<not> confirms md candidate
      then Some (ProviderMetadataMismatch, ''provider metadata did not match the frozen candidate'')
      else if \<not> is_diagnostic (s_account_selection s) \<and> \<not> allows (pc_account_scope candidate) (md_account md)
      then Some (AccountOutsideClientScope, ''provider selected an account outside the frozen client scope'')
      else if is_some_and pinned (\<lambda>required. md_account md \<noteq> required)
      then Some (RequiredAccountMismatch, ''provider did not use the required account'')
      else if is_some_and (Option.bind (s_continuation s) binding_pinned)
                (\<lambda>pin. s_continuation_attempt s = Native \<and> \<not> pin_matches pin (md_provider md) (md_account md))
      then Some (ContinuationPinMismatch, ''native continuation binding did not match selected account'')
      else None)"

definition attempt_record :: "nat \<Rightarrow> AttemptTrigger \<Rightarrow> ProviderCallMetadata \<Rightarrow> Session \<Rightarrow> AttemptRecord" where
  "attempt_record index trigger md s =
     (let capacity = Option.bind (md_selection md) selection_capacity in
      \<lparr>ar_request_id = s_request_id s, ar_attempt_count = index, ar_trigger = trigger,
       ar_provider_kind = md_provider md, ar_provider_account_id = Some (md_account md),
       ar_provider_account_ref = Some (md_account md), ar_upstream_model_id = md_upstream_model md,
       ar_upstream_transport = transport_str (md_transport md), ar_http_version = None,
       ar_account_selection_wait_ms = map_option selection_wait_ms (md_selection md),
       ar_capacity_used_slots = map_option used_slots capacity,
       ar_capacity_total_slots = map_option total_slots capacity\<rparr>)"

definition own_attempt ::
  "World \<Rightarrow> nat \<Rightarrow> bool \<Rightarrow> AttemptTransport \<Rightarrow> ProviderCallMetadata \<Rightarrow> Session
     \<Rightarrow> (EngineError + PullOutcome option) \<times> Session" where
  "own_attempt w index is_transport_recovery transport md s =
     (let trigger = (if s_attempts s = 0 then Initial else AccountRetry);
          s = (if s_account_state_owner s = None
               then s\<lparr>s_account_state_owner :=
                        Some \<lparr>state_owner_provider = md_provider md, state_owner_account = md_account md\<rparr>\<rparr>
               else s);
          record = attempt_record index trigger md s;
          s = s\<lparr>s_attempts := index,
                s_routing_attempts :=
                  (if is_transport_recovery then s_routing_attempts s
                   else saturating_add_u 32 (s_routing_attempts s) 1),
                s_current := Some
                  \<lparr>ca_metadata = md, ca_trigger = trigger, ca_transport = transport, ca_index = index,
                   ca_started_at = now_of w s, ca_send_observed = False, ca_response_observation = None\<rparr>\<rparr>
      in if s_request_persisted s then (Ok None, snd (store_write w (RecordAttempt record) s))
         else case s_pending_request s of
                None \<Rightarrow> (Err InvalidDeliveryState, s)
              | Some request \<Rightarrow>
                  let (written, s) = store_write w (CreateModelRequestWithAttempt request record) s
                  in (Ok None,
                      if written then s\<lparr>s_pending_request := None, s_request_persisted := True\<rparr> else s))"

definition establish_attempt ::
  "World \<Rightarrow> nat \<Rightarrow> bool \<Rightarrow> ProviderCandidate \<Rightarrow> ProviderAccountId option \<Rightarrow> AttemptTransport
     \<Rightarrow> ProviderCallMetadata \<Rightarrow> Session \<Rightarrow> (EngineError + PullOutcome option) \<times> Session" where
  "establish_attempt w index is_transport_recovery candidate pinned transport md s =
     (case binding_violation candidate pinned md s of
        Some (e, message) \<Rightarrow>
          let s = (if e = ProviderMetadataMismatch then record_provider_failure (pc_provider candidate) s else s)
          in (Err e, internal_failure w GkInternal message s)
      | None \<Rightarrow> own_attempt w index is_transport_recovery transport md s)"

text \<open>After the optional back-off: candidate, binding, profile, provider call, checks.\<close>

definition start_attempt ::
  "World \<Rightarrow> PendingAttemptRetry option \<Rightarrow> Session \<Rightarrow> (EngineError + PullOutcome option) \<times> Session" where
  "start_attempt w pending s =
     (if s_candidate_index s \<ge> length (plan_candidates (s_plan s))
      then (Err EmptyRoutingPlan, internal_failure w GkNoAvailableProvider ''no upstream Provider is available'' s)
      else
        let candidate = plan_candidates (s_plan s) ! s_candidate_index s in
        case checked_add_u 32 (s_attempts s) 1 of
          None \<Rightarrow> (Err EmptyRoutingPlan, s)
        | Some index \<Rightarrow>
            let ((pinned, transport), s) = bind_attempt pending s;
                account = account_context pinned s
            in if \<not> provider_registered w (pc_provider candidate)
               then (Err (EngineProviderNotRegistered (provider_kind_str (pc_provider candidate))), s)
               else case resolve_profile w (pc_provider candidate) s of
                      Inl error \<Rightarrow> (Err (provider_engine_error error), finish_provider_error w error s)
                    | Inr s \<Rightarrow>
                        let boundary = poll_provider w candidate (attempt_context index candidate account transport s) s;
                            s = tick (s\<lparr>s_connection_budget := connection_use w (s_tick s) (s_connection_budget s)\<rparr>)
                        in case boundary of
                             WaitCancelled \<Rightarrow> (Err EngineCancelled, finish_interruption w EngineCancelled s)
                           | WaitDeadline \<Rightarrow> (Err EngineDeadline, finish_interruption w EngineDeadline s)
                           | WaitReady (Inl error) \<Rightarrow> handle_refused_attempt w index candidate error s
                           | WaitReady (Inr md) \<Rightarrow>
                               establish_attempt w index (is_some_and pending pr_transport_recovery)
                                 candidate pinned transport md s)"

definition prepare_attempt :: "World \<Rightarrow> Session \<Rightarrow> (EngineError + PullOutcome option) \<times> Session" where
  "prepare_attempt w s =
     (let pending = s_pending_retry s; s = s\<lparr>s_pending_retry := None\<rparr> in
      if \<not> is_some_and pending pr_transport_recovery \<and> s_routing_attempts s \<ge> plan_max_attempts (s_plan s)
      then (Err EmptyRoutingPlan, s)
      else if is_some_and pending (\<lambda>r. pr_delay r \<noteq> 0)
      then
        let deadline = (case startup_remaining (instant_at w (s_tick s)) (s_connection_budget s) of
                          None \<Rightarrow> s_deadline s
                        | Some remaining \<Rightarrow> min (s_deadline s) (now_of w s + int remaining));
            boundary = poll_retry_delay w (pr_delay (the pending)) deadline s;
            s = tick s
        in case boundary of
             WaitCancelled \<Rightarrow> (Err EngineCancelled, finish_interruption w EngineCancelled s)
           | WaitDeadline \<Rightarrow> (Err EngineDeadline, finish_interruption w EngineDeadline s)
           | WaitReady _ \<Rightarrow> start_attempt w pending s
      else start_attempt w pending s)"


section \<open>Pulling the stream\<close>

definition MAX_NATIVE_RESPONSE_EVENTS_PER_INPUT :: nat where "MAX_NATIVE_RESPONSE_EVENTS_PER_INPUT = 64"

definition native_response_protocol_error :: StreamError where
  "native_response_protocol_error =
     redact_sensitive_context (new_ProviderError PkProtocol Sent) ''invalid native response translation''"

definition translate_native_response ::
  "NativeResponseTranslator option \<Rightarrow> ProviderEvent \<Rightarrow> bool \<Rightarrow> StreamError + ProviderEvent list" where
  "translate_native_response translator event terminal =
     (case (translator, pev_wire event) of
        (Some tr, Some wire) \<Rightarrow>
          if wire_protocol wire \<noteq> tr_source_protocol tr then Err native_response_protocol_error
          else (case tr_translate tr wire of
                  Inl error \<Rightarrow> Err error
                | Inr translated \<Rightarrow>
                    if MAX_NATIVE_RESPONSE_EVENTS_PER_INPUT < length translated
                       \<or> (terminal \<and> translated = [])
                       \<or> list_ex (\<lambda>wire. wire_protocol wire \<noteq> tr_target_protocol tr) translated
                    then Err native_response_protocol_error
                    else if translated = []
                    then let event = replace_wire event None
                         in Ok (if has_canonical_facts event then [event] else [])
                    else Ok (map (\<lambda>wire. let translated_event = wire_event wire in
                                    if pev_middleware_transformed event
                                    then inherit_middleware_provenance translated_event event
                                    else translated_event)
                               (butlast translated)
                             @ [replace_wire event (Some (last translated))]))
      | _ \<Rightarrow> Ok [event])"

definition poll_stream_item :: "World \<Rightarrow> Session \<Rightarrow> (StreamError + ProviderEvent) option Waited" where
  "poll_stream_item w s =
     (if s_deadline s \<le> now_of w s then WaitDeadline
      else if cancelled_at w (s_tick s) then WaitCancelled
      else stream_next w (s_tick s))"

text \<open>What a received event tells the session before anything is delivered.\<close>

definition observe_stream_event :: "World \<Rightarrow> ProviderEvent \<Rightarrow> Session \<Rightarrow> ProviderEvent \<times> Session" where
  "observe_stream_event w event s =
     (let s = (case pev_session_update event of None \<Rightarrow> s | Some state \<Rightarrow> observe_session_update state s);
          (observation, event) = take_observation event;
          s = (case observation of None \<Rightarrow> s | Some ob \<Rightarrow> session_observe_response ob s);
          s = foldl (\<lambda>s gev. session_observe_identity gev s) s (pev_canonical event);
          s = foldl (\<lambda>s gev. session_observe_event w gev s) s (pev_canonical event);
          s = (if is_some (pev_wire event) \<and> \<not> has_canonical_facts event then observe_wire_event w s else s);
          s = (if is_some (s_request_observation s) \<and> is_some (pev_wire event)
               then observe_websocket_response event (Option.bind (s_current s) websocket_observation_attempt) s
               else s)
      in (event, s))"

text \<open>One turn of the loop: \<open>Ok None\<close> means the loop goes round again.\<close>

definition deliver_event :: "World \<Rightarrow> ProviderEvent \<Rightarrow> Session \<Rightarrow> (EngineError + PullOutcome option) \<times> Session" where
  "deliver_event w event s =
     (if \<not> has_client_event event then (Ok None, s)
      else case translate_native_response (stream_translator w (s_tick s)) event
                  (list_ex is_completed (pev_canonical event)) of
             Inl error \<Rightarrow> (Err (provider_engine_error error), finish_provider_error w error s)
           | Inr [] \<Rightarrow> (Ok None, s)
           | Inr events \<Rightarrow> (Ok (Some (PullEvents events)), s))"

definition poll_turn :: "World \<Rightarrow> Session \<Rightarrow> (EngineError + PullOutcome option) \<times> Session" where
  "poll_turn w s =
     (let boundary = poll_stream_item w s;
          s = tick (s\<lparr>s_connection_budget := connection_use w (s_tick s) (s_connection_budget s)\<rparr>)
      in case boundary of
           WaitCancelled \<Rightarrow> (Err EngineCancelled, finish_interruption w EngineCancelled s)
         | WaitDeadline \<Rightarrow> (Err EngineDeadline, finish_interruption w EngineDeadline s)
         | WaitReady None \<Rightarrow>
             (Ok (Some PullEnd), (record_current_provider_success s)\<lparr>s_upstream_complete := True\<rparr>)
         | WaitReady (Some (Inr event)) \<Rightarrow>
             let (event, s) = observe_stream_event w event s in deliver_event w event s
         | WaitReady (Some (Inl error)) \<Rightarrow>
             (case handle_stream_error w error s of
                (Inl e, s) \<Rightarrow> (Err e, s)
              | (Inr outcome, s) \<Rightarrow> (Ok (Some (into_pull_outcome outcome)), s)))"

definition pull_step :: "World \<Rightarrow> Session \<Rightarrow> (EngineError + PullOutcome option) \<times> Session" where
  "pull_step w s =
     (if s_current s = None
      then case prepare_attempt w s of
             (Inl e, s) \<Rightarrow> (Err e, if is_finalized s then s else finish_interruption w e s)
           | (Inr (Some outcome), s) \<Rightarrow> (Ok (Some outcome), s)
           | (Inr None, s) \<Rightarrow> poll_turn w s
      else poll_turn w s)"

partial_function (option) pull :: "World \<Rightarrow> Session \<Rightarrow> ((EngineError + PullOutcome) \<times> Session) option" where
  "pull w s =
     (case pull_step w s of
        (Inl e, s) \<Rightarrow> Some (Err e, s)
      | (Inr (Some outcome), s) \<Rightarrow> Some (Ok outcome, s)
      | (Inr None, s) \<Rightarrow> pull w s)"


section \<open>The public operations\<close>

definition delivery_requirement :: "Session \<Rightarrow> CommitRequirement \<times> Session" where
  "delivery_requirement s =
     (if is_some (s_downstream_committed_at s) then (AlreadyCommitted, s)
      else (CommitBeforeDelivery, s\<lparr>s_delivery_pending := True\<rparr>))"

text \<open>What \<open>next_event\<close> does with an outcome of \<open>pull\<close>; \<open>None\<close> goes round its loop.\<close>

fun deliver_outcome ::
  "World \<Rightarrow> PullOutcome \<Rightarrow> Session \<Rightarrow> ((EngineError + CoordinatedEvent option) \<times> Session) option" where
  "deliver_outcome w (PullEvents events) s =
     (let (requirement, s) = delivery_requirement s in Some (map_sum (\<lambda>e. e) Some (try_batch events requirement), s))"
| "deliver_outcome w PullAttemptDiscarded s = None"
| "deliver_outcome w (PullTerminalFailure events error send_state) s =
     (let (requirement, s) = delivery_requirement s;
          s = s\<lparr>s_pending_terminal_failure := Some \<lparr>pt_error = error, pt_send_state = send_state\<rparr>\<rparr>
      in Some (map_sum (\<lambda>e. e) Some (try_batch events requirement), s))"
| "deliver_outcome w PullEnd s =
     Some (Ok None, if is_some (s_downstream_committed_at s) then finish_success w s else s)"

partial_function (option) next_event_loop ::
  "World \<Rightarrow> Session \<Rightarrow> ((EngineError + CoordinatedEvent option) \<times> Session) option" where
  "next_event_loop w s =
     Option.bind (pull w s)
       (\<lambda>(pulled, s). case pulled of
          Inl e \<Rightarrow> Some (Err e, s)
        | Inr outcome \<Rightarrow>
            (case deliver_outcome w outcome s of
               None \<Rightarrow> next_event_loop w s
             | Some result \<Rightarrow> Some result))"

definition next_event :: "World \<Rightarrow> Session \<Rightarrow> ((EngineError + CoordinatedEvent option) \<times> Session) option" where
  "next_event w s =
     (let s = resume_finalization w s in
      if s_delivery_pending s then Some (Err DownstreamCommitRequired, s)
      else case s_pending_terminal_failure s of
             Some pending \<Rightarrow>
               Some (Err (provider_engine_error (pt_error pending)),
                     finish_provider_error_with_send_state w (pt_error pending) (pt_send_state pending)
                       (s\<lparr>s_pending_terminal_failure := None\<rparr>))
           | None \<Rightarrow> if is_finalized s then Some (Ok None, s) else next_event_loop w s)"

partial_function (option) collect_loop ::
  "World \<Rightarrow> ProviderEvent list \<Rightarrow> Session \<Rightarrow> ((EngineError + ProviderEvent list) \<times> Session) option" where
  "collect_loop w events s =
     Option.bind (pull w s)
       (\<lambda>(pulled, s). case pulled of
          Inl e \<Rightarrow> Some (Err e, s)
        | Inr (PullEvents batch) \<Rightarrow> collect_loop w (events @ batch) s
        | Inr PullAttemptDiscarded \<Rightarrow> collect_loop w [] s
        | Inr (PullTerminalFailure _ error send_state) \<Rightarrow>
            Some (Err (provider_engine_error error), finish_provider_error_with_send_state w error send_state s)
        | Inr PullEnd \<Rightarrow>
            if events = [] then Some (Err InvalidDeliveryState, s)
            else Some (Ok events, s\<lparr>s_delivery_pending := True\<rparr>))"

definition collect_uncommitted ::
  "World \<Rightarrow> Session \<Rightarrow> ((EngineError + ProviderEvent list) \<times> Session) option" where
  "collect_uncommitted w s =
     (let s = resume_finalization w s in
      if is_some (s_downstream_committed_at s) \<or> s_delivery_pending s then Some (Err InvalidDeliveryState, s)
      else if is_finalized s then Some (Ok [], s)
      else collect_loop w [] s)"

definition commit_downstream :: "World \<Rightarrow> nat option \<Rightarrow> Session \<Rightarrow> (EngineError + unit) \<times> Session" where
  "commit_downstream w code s =
     (if \<not> s_delivery_pending s \<or> is_some (s_downstream_committed_at s) \<or> is_finalized s
      then (Err InvalidDeliveryState, s)
      else
        let committed_at = now_of w s;
            s = store_when (s_request_persisted s) w (MarkDownstreamCommitted committed_at code) s;
            s = s\<lparr>s_downstream_committed_at := Some committed_at, s_client_status_code := code,
                  s_delivery_pending := False\<rparr>
        in (Ok (), if s_upstream_complete s then finish_success w s else s))"

definition discard_pending_delivery :: "Session \<Rightarrow> (EngineError + unit) \<times> Session" where
  "discard_pending_delivery s =
     (if \<not> s_delivery_pending s \<or> is_some (s_downstream_committed_at s)
         \<or> is_some (s_pending_terminal_failure s) \<or> is_finalized s
      then (Err InvalidDeliveryState, s)
      else (Ok (), s\<lparr>s_delivery_pending := False\<rparr>))"

definition record_client_status :: "World \<Rightarrow> nat \<Rightarrow> Session \<Rightarrow> (EngineError + unit) \<times> Session" where
  "record_client_status w code s =
     (if is_some (s_client_status_code s) then (Err InvalidDeliveryState, s)
      else (Ok (), (store_when (s_request_persisted s) w (RecordClientStatus code) s)
                     \<lparr>s_client_status_code := Some code\<rparr>))"

definition cancel_and_finalize :: "World \<Rightarrow> Session \<Rightarrow> Session" where
  "cancel_and_finalize w s =
     (let s = resume_finalization w s in
      if is_finalized s then s
      else
        let s = s\<lparr>s_delivery_pending := False\<rparr> in
        case s_pending_terminal_failure s of
          Some pending \<Rightarrow>
            finish_provider_error_with_send_state w (pt_error pending) (pt_send_state pending)
              (s\<lparr>s_pending_terminal_failure := None\<rparr>)
        | None \<Rightarrow> finish_interruption w EngineCancelled s)"

end
