(* ===== verification/Coordinator_Safety.thy ===== *)
theory Coordinator_Safety
  imports Attempt_Coordinator
begin

text \<open>
  What no operation of a session undoes. \<open>advances\<close> collects the facts every operation keeps;
  \<open>steady\<close> is an operation that only observes, \<open>ended_well\<close> one that writes the final record. The
  theory proves them for every helper of the coordinator; \<open>Coordinator_Invariant\<close> puts them together.
\<close>

section \<open>What no operation undoes\<close>

definition live :: "Session \<Rightarrow> bool" where
  "live s \<longleftrightarrow> s_finalization s = None"

definition advances :: "Session \<Rightarrow> Session \<Rightarrow> bool" where
  "advances s s' \<longleftrightarrow>
     s_plan s' = s_plan s \<and> s_account_selection s' = s_account_selection s
     \<and> s_continuation s' = s_continuation s \<and> s_request_id s' = s_request_id s
     \<and> s_client_api_key_ref s' = s_client_api_key_ref s \<and> s_deadline s' = s_deadline s
     \<and> s_send_state_watermark s \<le> s_send_state_watermark s'
     \<and> s_excluded_accounts s \<subseteq> s_excluded_accounts s'
     \<and> s_credential_recovery_attempted s \<subseteq> s_credential_recovery_attempted s'
     \<and> prefix (s_store_log s) (s_store_log s')
     \<and> s_attempts s \<le> s_attempts s' \<and> s_routing_attempts s \<le> s_routing_attempts s'
     \<and> (s_downstream_committed_at s \<noteq> None \<longrightarrow> s_downstream_committed_at s' = s_downstream_committed_at s)
     \<and> (is_finalized s \<longrightarrow> is_finalized s')
     \<and> (s_continuation_attempt s' = Native \<longrightarrow> s_continuation_attempt s = Native)
     \<and> s_tick s \<le> s_tick s'"

lemma advances_refl [simp, intro]: "advances s s"
  by (simp add: advances_def)

lemma advances_trans [trans]: "advances s t \<Longrightarrow> advances t u \<Longrightarrow> advances s u"
  unfolding advances_def
  by (elim conjE, intro conjI) (auto intro: prefix_order.trans)

text \<open>The fields that decide about delivery and attempts; the operations that only observe leave
  them alone.\<close>

definition control ::
  "Session \<Rightarrow> RequestFinalization option \<times> nat \<times> nat \<times> RoutingPlan \<times> bool \<times> system_time option
     \<times> PendingTerminalFailure option \<times> SessionAccountSelection \<times> (nat \<times> ProviderCallMetadata) option" where
  "control s =
     (s_finalization s, s_attempts s, s_routing_attempts s, s_plan s, s_delivery_pending s,
      s_downstream_committed_at s, s_pending_terminal_failure s, s_account_selection s,
      map_option (\<lambda>c. (ca_index c, ca_metadata c)) (s_current s))"

fun written_state :: "StoreWrite \<Rightarrow> UpstreamSendState option" where
  "written_state (MarkSendState st) = Some st"
| "written_state (FinalizeModelRequest f) = Some (fin_send_state f)"
| "written_state _ = None"

fun is_finalize :: "StoreWrite \<Rightarrow> bool" where
  "is_finalize (FinalizeModelRequest _) = True"
| "is_finalize _ = False"

fun attempt_number :: "StoreWrite \<Rightarrow> nat option" where
  "attempt_number (RecordAttempt r) = Some (ar_attempt_count r)"
| "attempt_number (CreateModelRequestWithAttempt _ r) = Some (ar_attempt_count r)"
| "attempt_number _ = None"

fun collect_some :: "('a \<Rightarrow> 'b option) \<Rightarrow> 'a list \<Rightarrow> 'b list" where
  "collect_some f [] = []"
| "collect_some f (x # xs) = (case f x of None \<Rightarrow> collect_some f xs | Some y \<Rightarrow> y # collect_some f xs)"

lemma collect_some_append [simp]: "collect_some f (xs @ ys) = collect_some f xs @ collect_some f ys"
  by (induction xs) (auto split: option.splits)

definition written_states :: "Session \<Rightarrow> UpstreamSendState list" where
  "written_states s = collect_some written_state (map fst (s_store_log s))"

definition attempt_numbers :: "Session \<Rightarrow> nat list" where
  "attempt_numbers s = collect_some attempt_number (map fst (s_store_log s))"

definition finalizations :: "Session \<Rightarrow> StoreWrite list" where
  "finalizations s = filter is_finalize (map fst (s_store_log s))"

text \<open>The send states written to the store never go back, and never exceed the watermark while the
  session lives; an observed send has raised the watermark.\<close>

definition log_ok :: "Session \<Rightarrow> bool" where
  "log_ok s \<longleftrightarrow>
     sorted (written_states s)
     \<and> (\<forall>x \<in> set (written_states s). x \<le> s_send_state_watermark s)
     \<and> finalizations s = []
     \<and> attempt_numbers s = [1..<Suc (s_attempts s)]
     \<and> (is_some_and (s_current s) ca_send_observed \<longrightarrow> s_send_state_watermark s = Sent)
     \<and> (s_request_persisted s \<or> s_pending_request s \<noteq> None)"

text \<open>The accounts the next attempt may be bound to by a recovery.\<close>

definition pinned_accounts :: "Session \<Rightarrow> ProviderAccountId set" where
  "pinned_accounts s = set_option (s_recovery_account s) \<union> pr_account ` set_option (s_pending_retry s)"

text \<open>An operation that only observes, and binds the next attempt to no account outside \<open>A\<close>.\<close>

definition steady :: "ProviderAccountId set \<Rightarrow> Session \<Rightarrow> Session \<Rightarrow> bool" where
  "steady A s s' \<longleftrightarrow>
     advances s s' \<and> control s' = control s \<and> (log_ok s \<longrightarrow> log_ok s')
     \<and> pinned_accounts s' \<subseteq> pinned_accounts s \<union> A"

abbreviation quiet :: "Session \<Rightarrow> Session \<Rightarrow> bool" where "quiet \<equiv> steady {}"

lemma steady_refl [simp, intro]: "steady A s s"
  by (simp add: steady_def)

lemma steady_trans [trans]: "steady A s t \<Longrightarrow> steady A t u \<Longrightarrow> steady A s u"
  unfolding steady_def by (auto intro: advances_trans)

lemmas quiet_trans = steady_trans [where A = "{}"]

lemma quiet_steady: "quiet s t \<Longrightarrow> steady A s t"
  by (auto simp: steady_def)

lemma quiet_foldl: "(\<And>x s. x \<in> set xs \<Longrightarrow> quiet s (f s x)) \<Longrightarrow> quiet s (foldl f s xs)"
proof (induction xs arbitrary: s)
  case (Cons x xs)
  have "quiet s (f s x)" using Cons.prems by simp
  also have "quiet (f s x) (foldl f (f s x) xs)" using Cons by simp
  finally show ?case by simp
qed simp

lemmas quiet_unfold = steady_def advances_def control_def log_ok_def written_states_def attempt_numbers_def
  finalizations_def is_finalized_def pinned_accounts_def

lemma current_send_state_ge: "s_send_state_watermark s \<le> current_send_state w s"
  by (simp add: current_send_state_def Let_def escalate_is_max)

lemma current_send_state_sent:
  "is_some_and (s_current s) ca_send_observed \<Longrightarrow> current_send_state w s = Sent"
  by (simp add: current_send_state_def Let_def escalate_is_max max_def)

lemma quiet_tick [intro]: "quiet s (tick s)"
  by (simp add: quiet_unfold)

lemma quiet_connection [intro]: "quiet s (s\<lparr>s_connection_budget := c\<rparr>)"
  by (simp add: quiet_unfold)

lemma quiet_observation [intro]: "quiet s (s\<lparr>s_observation := ob\<rparr>)"
  by (simp add: quiet_unfold)

lemma quiet_provider_failure [intro]: "quiet s (record_provider_failure k s)"
  by (simp add: quiet_unfold record_provider_failure_def)

lemma quiet_provider_success [intro]: "quiet s (record_current_provider_success s)"
  by (auto simp: quiet_unfold record_current_provider_success_def split: option.splits)

text \<open>A write that carries neither a send state nor an attempt number nor a final record.\<close>

fun plain_write :: "StoreWrite \<Rightarrow> bool" where
  "plain_write (MarkDownstreamCommitted _ _) = True"
| "plain_write (RecordClientStatus _) = True"
| "plain_write (RecordIntermediateFailure _) = True"
| "plain_write (CreateModelRequest _) = True"
| "plain_write _ = False"

lemma plain_write_facts:
  "plain_write op \<Longrightarrow> written_state op = None \<and> attempt_number op = None \<and> \<not> is_finalize op"
  by (cases op) simp_all

lemma quiet_plain_write [intro]: "plain_write op \<Longrightarrow> quiet s (store_when b w op s)"
  using plain_write_facts [of op]
  by (auto simp: quiet_unfold store_when_def store_write_def)

lemma quiet_mark [intro]: "s_send_state_watermark s = st \<Longrightarrow> quiet s (store_when b w (MarkSendState st) s)"
  by (auto simp: quiet_unfold store_when_def store_write_def sorted_append)

lemma raise_watermark_facts:
  assumes "raise_send_watermark w st s = (v, s')"
  shows "quiet s s'" "s_send_state_watermark s' = v" "current_send_state w s \<le> v" "st \<le> v"
    "s' = s\<lparr>s_send_state_watermark := v\<rparr>"
proof -
  have v: "v = max (current_send_state w s) st" "s' = s\<lparr>s_send_state_watermark := v\<rparr>"
    using assms by (auto simp: raise_send_watermark_def Let_def escalate_is_max)
  then show "s_send_state_watermark s' = v" "current_send_state w s \<le> v" "st \<le> v" "s' = s\<lparr>s_send_state_watermark := v\<rparr>"
    by simp_all
  have ge: "s_send_state_watermark s \<le> v" using v current_send_state_ge [of s w] by (simp add: max.coboundedI1)
  have "is_some_and (s_current s) ca_send_observed \<Longrightarrow> v = Sent"
    using current_send_state_sent [of s w] v by (simp add: max_def)
  with ge show "quiet s s'" unfolding v(2)
    by (auto simp: quiet_unfold intro: order_trans)
qed

lemma quiet_mark_send_observed [intro]: "quiet s (mark_send_observed w s)"
  by (auto simp: quiet_unfold mark_send_observed_def store_when_def store_write_def sorted_append
      split: option.splits)

lemma quiet_session_response [intro]: "quiet s (session_observe_response ob s)"
  by (auto simp: quiet_unfold session_observe_response_def split: option.splits)

lemma quiet_session_update [intro]: "quiet s (observe_session_update st s)"
  by (auto simp: quiet_unfold observe_session_update_def split: option.splits)

lemma quiet_websocket [intro]: "quiet s (observe_websocket_response e a s)"
  by (auto simp: quiet_unfold observe_websocket_response_def Let_def split: option.splits)

lemma quiet_identity [intro]: "quiet s (session_observe_identity gev s)"
  by (simp add: session_observe_identity_def quiet_observation)

lemma quiet_fact [intro]: "quiet s (session_observe_fact w gev s)"
  by (simp add: session_observe_fact_def quiet_observation)

lemma quiet_event [intro]: "quiet s (session_observe_event w gev s)"
  unfolding session_observe_event_def using quiet_trans [OF quiet_fact quiet_mark_send_observed] .

lemma quiet_atomic_events: "quiet s (snd (observe_atomic_terminal_events w events s))"
proof (induction events arbitrary: s)
  case (Cons e es)
  define s1 where "s1 = (case pev_observation e of None \<Rightarrow> s | Some ob \<Rightarrow> session_observe_response ob s)"
  define s2 where "s2 = foldl (\<lambda>s gev. session_observe_fact w gev (session_observe_identity gev s)) s1 (pev_canonical e)"
  have "quiet s s1" by (auto simp: s1_def split: option.splits)
  also have "quiet s1 s2" unfolding s2_def by (rule quiet_foldl) (rule quiet_trans [OF quiet_identity quiet_fact])
  also have "quiet s2 (snd (observe_atomic_terminal_events w es s2))" by (rule Cons.IH)
  finally show ?case by (simp add: take_observation_def s1_def s2_def split_beta Let_def)
qed simp

lemma atomic_events_length: "length (fst (observe_atomic_terminal_events w events s)) = length events"
  by (induction events arbitrary: s) (auto simp: take_observation_def split_beta Let_def)

lemma quiet_stream_event: "quiet s (snd (observe_stream_event w event s))"
proof -
  define s1 where "s1 = (case pev_session_update event of None \<Rightarrow> s | Some st \<Rightarrow> observe_session_update st s)"
  define s2 where "s2 = (case pev_observation event of None \<Rightarrow> s1 | Some ob \<Rightarrow> session_observe_response ob s1)"
  define s3 where "s3 = foldl (\<lambda>s gev. session_observe_identity gev s) s2 (pev_canonical event)"
  define s4 where "s4 = foldl (\<lambda>s gev. session_observe_event w gev s) s3 (pev_canonical event)"
  define e' where "e' = event\<lparr>pev_observation := None\<rparr>"
  define s5 where "s5 = (if is_some (pev_wire e') \<and> \<not> has_canonical_facts e' then observe_wire_event w s4 else s4)"
  have "quiet s s1" by (auto simp: s1_def split: option.splits)
  also have "quiet s1 s2" by (auto simp: s2_def split: option.splits)
  also have "quiet s2 s3" unfolding s3_def by (rule quiet_foldl) (rule quiet_identity)
  also have "quiet s3 s4" unfolding s4_def by (rule quiet_foldl) (rule quiet_event)
  also have "quiet s4 s5" by (auto simp: s5_def observe_wire_event_def)
  finally have q: "quiet s s5" .
  have "snd (observe_stream_event w event s) =
      (if is_some (s_request_observation s5) \<and> is_some (pev_wire e')
       then observe_websocket_response e' (Option.bind (s_current s5) websocket_observation_attempt) s5 else s5)"
    unfolding observe_stream_event_def Let_def take_observation_def s5_def s4_def s3_def s2_def s1_def e'_def
    by simp
  then show ?thesis using q quiet_trans [OF q quiet_websocket] by simp
qed



section \<open>Finishing\<close>

text \<open>A request that ends: the final record is written at most once, carries at least the watermark,
  and everything that decides about delivery is as before.\<close>

definition ended :: "UpstreamSendState \<Rightarrow> Session \<Rightarrow> Session \<Rightarrow> bool" where
  "ended st s s' \<longleftrightarrow>
     (\<exists>l. s_store_log s' = s_store_log s @ l
        \<and> collect_some written_state (map fst l) \<in> {[], [st]}
        \<and> length (filter is_finalize (map fst l)) \<le> 1
        \<and> collect_some attempt_number (map fst l) = [])
     \<and> s_finalization s' = Some Complete \<and> s_finalized_at s' \<noteq> None
     \<and> advances s s'
     \<and> s_attempts s' = s_attempts s \<and> s_routing_attempts s' = s_routing_attempts s
     \<and> s_current s' = s_current s \<and> s_delivery_pending s' = s_delivery_pending s
     \<and> s_downstream_committed_at s' = s_downstream_committed_at s
     \<and> s_pending_terminal_failure s' = s_pending_terminal_failure s
     \<and> s_send_state_watermark s' = s_send_state_watermark s"

lemma run_pending_write_ended:
  assumes "live s" "s_finalized_at s \<noteq> None"
  shows "ended (fin_send_state (pw_finalization p)) s
    ((snd (run_pending_write w p s))\<lparr>s_request_persisted := b, s_finalization := Some Complete\<rparr>)"
  using assms
  by (cases "pw_request p")
     (auto simp: run_pending_write_def notify_observer_def ended_def advances_def store_when_def store_write_def
        Let_def is_finalized_def live_def split: option.splits)

text \<open>A pending write never looks at the finalization.\<close>

lemma pending_write_finalization:
  "run_pending_write w p (s\<lparr>s_finalization := x\<rparr>)
     = (fst (run_pending_write w p s), (snd (run_pending_write w p s))\<lparr>s_finalization := x\<rparr>)"
proof -
  have store: "store_write w op (t\<lparr>s_finalization := x\<rparr>)
      = (fst (store_write w op t), (snd (store_write w op t))\<lparr>s_finalization := x\<rparr>)" for op and t :: Session
    by (simp add: store_write_def)
  have cond: "store_when b w op (t\<lparr>s_finalization := x\<rparr>) = (store_when b w op t)\<lparr>s_finalization := x\<rparr>" for b op t
    by (simp add: store_when_def store)
  have notify: "notify_observer ob (t\<lparr>s_finalization := x\<rparr>) = (notify_observer ob t)\<lparr>s_finalization := x\<rparr>" for ob t
    by (simp add: notify_observer_def split: option.split)
  show ?thesis
    by (cases "pw_request p") (simp_all add: run_pending_write_def Let_def split_beta store cond notify)
qed

lemma persist_ended:
  assumes "live s"
  shows "ended (fin_send_state f) s (persist_finalization w f s)"
proof -
  define b where "b = begin_finalization f s"
  obtain p where p: "s_finalization b = Some (Pending p)" "pw_finalization p = f"
    by (simp add: b_def begin_finalization_def Let_def)
  define b' where "b' = b\<lparr>s_finalization := None\<rparr>"
  have "b = b'\<lparr>s_finalization := Some (Pending p)\<rparr>" using p by (simp add: b'_def)
  then have "run_pending_write w p b = (fst (run_pending_write w p b'), (snd (run_pending_write w p b'))\<lparr>s_finalization := Some (Pending p)\<rparr>)"
    by (metis pending_write_finalization)
  then have eq: "persist_finalization w f s = (snd (run_pending_write w p b'))
      \<lparr>s_request_persisted := fst (run_pending_write w p b'), s_finalization := Some Complete\<rparr>"
    by (simp add: persist_finalization_def b_def [symmetric] resume_finalization_def p split_beta Let_def)
  have "live b'" "s_finalized_at b' \<noteq> None" by (simp_all add: b'_def live_def b_def begin_finalization_def Let_def)
  from run_pending_write_ended [OF this, where p = p and w = w] have "ended (fin_send_state f) b' (persist_finalization w f s)"
    unfolding eq p by simp
  moreover have "advances s b'" "\<not> is_finalized s" using assms
    by (auto simp: b'_def b_def begin_finalization_def Let_def advances_def is_finalized_def live_def)
  ultimately show ?thesis using assms
    by (auto simp: ended_def b'_def b_def begin_finalization_def Let_def intro: advances_trans)
qed

lemma ended_finish_observation: "ended st (finish_observation w s) s' \<Longrightarrow> ended st s s'"
  by (simp add: ended_def advances_def finish_observation_def is_finalized_def)

lemma finish_success_ended:
  assumes "live s" shows "ended Sent s (finish_success w s)"
proof -
  have "\<not> is_finalized s" "live (finish_observation w s)"
    using assms by (simp_all add: is_finalized_def live_def finish_observation_def)
  then show ?thesis
    using persist_ended [of "finish_observation w s" "final_record w (finish_observation w s)" w]
    by (auto simp: finish_success_def Let_def final_record_def intro: ended_finish_observation)
qed

lemma finish_failure_ended:
  assumes "live s" shows "ended (ff_send_state ff) s (finish_failure w ff s)"
proof -
  have nf: "\<not> is_finalized s" and live: "live (finish_observation w s)"
    using assms by (simp_all add: is_finalized_def live_def finish_observation_def)
  obtain f where "finish_failure w ff s = persist_finalization w f (finish_observation w s)"
    "fin_send_state f = ff_send_state ff"
    by (simp add: finish_failure_def Let_def nf)
  then show ?thesis using persist_ended [OF live, of f w] by (auto intro: ended_finish_observation)
qed

text \<open>The session after an operation that ended it: what the invariant of an ended session needs.\<close>

definition ended_well :: "Session \<Rightarrow> Session \<Rightarrow> bool" where
  "ended_well s s' \<longleftrightarrow>
     advances s s' \<and> s_finalization s' = Some Complete \<and> s_finalized_at s' \<noteq> None
     \<and> s_attempts s' = s_attempts s \<and> s_routing_attempts s' = s_routing_attempts s
     \<and> (log_ok s \<longrightarrow>
          sorted (written_states s') \<and> length (finalizations s') \<le> 1
          \<and> attempt_numbers s' = [1..<Suc (s_attempts s')])
     \<and> map_option (\<lambda>c. (ca_index c, ca_metadata c)) (s_current s')
         = map_option (\<lambda>c. (ca_index c, ca_metadata c)) (s_current s)"

lemma ended_imp_well:
  assumes "ended st s s'" and "s_send_state_watermark s \<le> st"
  shows "ended_well s s'"
proof -
  obtain l where l: "s_store_log s' = s_store_log s @ l"
    "collect_some written_state (map fst l) \<in> {[], [st]}"
    "length (filter is_finalize (map fst l)) \<le> 1" "collect_some attempt_number (map fst l) = []"
    and e: "s_finalization s' = Some Complete" "s_finalized_at s' \<noteq> None" "advances s s'" "s_attempts s' = s_attempts s"
      "s_routing_attempts s' = s_routing_attempts s" "s_current s' = s_current s"
    using assms(1) by (auto simp: ended_def)
  have "log_ok s \<Longrightarrow> sorted (written_states s')"
  proof -
    assume ok: "log_ok s"
    then have "\<forall>x \<in> set (written_states s). x \<le> st"
      using assms(2) by (auto simp: log_ok_def intro: order_trans)
    then show ?thesis using ok l(1,2) by (auto simp: log_ok_def written_states_def sorted_append)
  qed
  moreover have "log_ok s \<Longrightarrow> length (finalizations s') \<le> 1"
    using l(1,3) by (simp add: log_ok_def finalizations_def)
  moreover have "log_ok s \<Longrightarrow> attempt_numbers s' = [1..<Suc (s_attempts s')]"
    using l(1,4) e by (simp add: log_ok_def attempt_numbers_def)
  ultimately show ?thesis using e by (simp add: ended_well_def)
qed

lemma quiet_ended_well: "steady A s t \<Longrightarrow> ended_well t s' \<Longrightarrow> ended_well s s'"
  unfolding ended_well_def steady_def
  by (auto simp: control_def intro: advances_trans)

lemma quiet_live: "steady A s t \<Longrightarrow> live s \<Longrightarrow> live t"
  by (simp add: steady_def control_def live_def)

lemma finish_success_well: "live s \<Longrightarrow> ended_well s (finish_success w s)"
  by (rule ended_imp_well [OF finish_success_ended]) simp_all

lemma finish_failure_well:
  "live s \<Longrightarrow> s_send_state_watermark s \<le> ff_send_state ff \<Longrightarrow> ended_well s (finish_failure w ff s)"
  by (rule ended_imp_well [OF finish_failure_ended])

lemma internal_failure_well: "live s \<Longrightarrow> ended_well s (internal_failure w k m s)"
  unfolding internal_failure_def
  by (rule finish_failure_well) (simp_all add: gateway_failure_def current_send_state_ge)

lemma finish_with_send_state_well:
  assumes "live s" shows "ended_well s (finish_provider_error_with_send_state w e st s)"
proof -
  obtain v t where r: "raise_send_watermark w st s = (v, t)" by fastforce
  note t = raise_watermark_facts [OF r]
  show ?thesis
    unfolding finish_provider_error_with_send_state_def r Let_def prod.case
    by (rule quiet_ended_well [OF t(1)], rule finish_failure_well)
       (simp_all add: quiet_live [OF t(1) assms] t(2))
qed

lemma finish_provider_error_well: "live s \<Longrightarrow> ended_well s (finish_provider_error w e s)"
  unfolding finish_provider_error_def by (rule finish_with_send_state_well)

lemma finish_interruption_well:
  assumes "live s" shows "ended_well s (finish_interruption w e s)"
proof -
  define st where "st = (if s_attempts s = 0 then NotSent
      else if is_some (s_downstream_committed_at s) \<or> is_some_and (s_current s) ca_send_observed
      then Sent else Ambiguous)"
  obtain v t where r: "raise_send_watermark w st s = (v, t)" by fastforce
  note t = raise_watermark_facts [OF r]
  define u where "u = store_when (0 < s_attempts t \<and> s_request_persisted t) w (MarkSendState v) t"
  have q: "quiet s u" using quiet_trans [OF t(1) quiet_mark [OF t(2)]] by (simp add: u_def)
  have wm: "s_send_state_watermark u = v" using t(2) by (simp add: u_def store_when_def store_write_def)
  show ?thesis
    unfolding finish_interruption_def st_def [symmetric] r Let_def split_beta
    by (simp add: u_def [symmetric], rule quiet_ended_well [OF q], rule finish_failure_well)
       (simp_all add: quiet_live [OF q assms] wm gateway_failure_def)
qed



section \<open>Retry decisions\<close>

lemma apply_retry_policy_facts:
  assumes "apply_retry_policy w facts s = (r, s')"
  shows "s' = s \<or> s' = tick s" "quiet s s'" "r = Ok True \<Longrightarrow> rf_retry_allowed facts"
    "r = Ok True \<Longrightarrow> s_has_request_policy s \<Longrightarrow> \<not> execution_effect_observed w s'"
  using assms
  by (auto simp: apply_retry_policy_def Let_def split: if_splits Waited.splits)

lemma steady_recovery: "steady {a} s (s\<lparr>s_recovery_account := Some a\<rparr>)"
  by (auto simp: quiet_unfold)

lemma quiet_replan: "c \<noteq> Native \<Longrightarrow> quiet s (s\<lparr>s_continuation_attempt := c\<rparr>)"
  by (simp add: quiet_unfold)

lemma quiet_exclude: "quiet s (s\<lparr>s_excluded_accounts := insert a (s_excluded_accounts s)\<rparr>)"
  by (auto simp: quiet_unfold)

lemma quiet_replan_exclude:
  "c \<noteq> Native \<Longrightarrow> quiet s (s\<lparr>s_continuation_attempt := c, s_excluded_accounts := insert a (s_excluded_accounts s)\<rparr>)"
  by (auto simp: quiet_unfold)

lemmas steady_replan = steady_recovery quiet_replan [THEN quiet_steady] quiet_exclude [THEN quiet_steady]
  quiet_replan_exclude [THEN quiet_steady]

lemma continuation_retry_facts:
  assumes "prepare_continuation_retry current error st safe s = (b, s')"
  shows "steady {md_account (ca_metadata current)} s s'"
    and "b \<Longrightarrow> undelivered s \<and> st \<noteq> Ambiguous \<and> safe \<and> s_routing_attempts s < plan_max_attempts (s_plan s)
      \<and> required_account (s_account_selection s) = None \<and> s_continuation_attempt s \<noteq> NoContinuation"
proof -
  show "steady {md_account (ca_metadata current)} s s'"
    using assms unfolding prepare_continuation_retry_def Let_def
    by (auto split: if_splits ContinuationAttempt.splits option.splits
        ContinuationRecoveryDisposition.splits intro!: steady_replan)
  show "b \<Longrightarrow> undelivered s \<and> st \<noteq> Ambiguous \<and> safe \<and> s_routing_attempts s < plan_max_attempts (s_plan s)
      \<and> required_account (s_account_selection s) = None \<and> s_continuation_attempt s \<noteq> NoContinuation"
    using assms
    by (auto simp: prepare_continuation_retry_def Let_def undelivered_def
      split: if_splits ContinuationAttempt.splits)
qed

lemma transport_recovery_facts:
  assumes "transport_recovery w effect st error s = (r, s')"
  shows "quiet s s'"
    and "r \<noteq> None \<Longrightarrow> undelivered s \<and> st \<noteq> Ambiguous \<and> \<not> effect
      \<and> \<not> conn_exhausted (instant_at w (s_tick s)) (s_connection_budget s)
      \<and> (\<exists>request. pe_pre_delivery_retry error = Some request \<and> request \<noteq> AccountRotation)"
proof -
  have "quiet s (s\<lparr>s_connection_retries := n\<rparr>)" for n by (simp add: quiet_unfold)
  then show "quiet s s'" using assms
    by (auto simp: transport_recovery_def Let_def split: if_splits option.splits PreDeliveryRetry.splits)
  show "r \<noteq> None \<Longrightarrow> undelivered s \<and> st \<noteq> Ambiguous \<and> \<not> effect
      \<and> \<not> conn_exhausted (instant_at w (s_tick s)) (s_connection_budget s)
      \<and> (\<exists>request. pe_pre_delivery_retry error = Some request \<and> request \<noteq> AccountRotation)"
    using assms
    by (auto simp: transport_recovery_def Let_def undelivered_def
      split: if_splits option.splits PreDeliveryRetry.splits)
qed

lemma transient_retry_facts:
  assumes "transient_retry ordinary account error s = (r, s')"
  shows "quiet s s'" and "r \<noteq> None \<Longrightarrow> ordinary"
proof -
  have "quiet s (s\<lparr>s_transient_retry_counts := f\<rparr>)" for f by (simp add: quiet_unfold)
  then show "quiet s s'" "r \<noteq> None \<Longrightarrow> ordinary" using assms
    by (auto simp: transient_retry_def Let_def split: if_splits option.splits PreDeliveryRetry.splits)
qed

lemma quiet_undelivered: "steady A s t \<Longrightarrow> undelivered t = undelivered s"
  by (simp add: steady_def control_def undelivered_def)

lemma quiet_routing:
  "steady A s t \<Longrightarrow> s_routing_attempts t = s_routing_attempts s \<and> s_plan t = s_plan s \<and> s_attempts t = s_attempts s
     \<and> s_account_selection t = s_account_selection s"
  by (simp add: steady_def control_def)

text \<open>Everything a replay of the failed attempt depends on.\<close>

definition replay_guards :: "bool \<Rightarrow> StreamError \<Rightarrow> RetryPlan \<Rightarrow> Session \<Rightarrow> bool" where
  "replay_guards effect error p s \<longleftrightarrow>
     \<not> effect \<and> undelivered s \<and> rp_attempt_send_state p \<noteq> Ambiguous
     \<and> (provider_proved_replay_safe error \<or> pe_pre_delivery_retry error \<noteq> None)
     \<and> (rp_transport p = None \<longrightarrow> s_routing_attempts s < plan_max_attempts (s_plan s))"

lemma plan_retry_facts:
  assumes "plan_retry w effect current error sent s = (p, s')"
  shows "steady {md_account (ca_metadata current)} s s'"
    and "rp_attempt_send_state p = fst sent" "rp_send_state p = snd sent"
    and "retryable p \<Longrightarrow> replay_guards effect error p s"
proof -
  define acct where "acct = md_account (ca_metadata current)"
  obtain cont s1 where c: "(if effect then (False, s)
      else prepare_continuation_retry current error (fst sent) (provider_proved_replay_safe error) s) = (cont, s1)"
    by fastforce
  define req where "req = (current_send_state w s1 = NotSent \<and> is_connection_retry (pe_pre_delivery_retry error))"
  obtain tr s2 where t: "transport_recovery w effect (fst sent) error s1 = (tr, s2)" by fastforce
  define ord where "ord = ordinary_retry w effect req (fst sent) error s2"
  obtain ti s3 where ti: "transient_retry ord acct error s2 = (ti, s3)" by fastforce
  define p' where "p' = \<lparr>rp_attempt_send_state = fst sent, rp_send_state = snd sent, rp_continuation = cont,
        rp_rotation = account_rotation_retry effect (fst sent) error s1, rp_transport = tr,
        rp_ordinary = ord, rp_transient = ti,
        rp_same_account = same_account_retry effect (fst sent) acct error s3\<rparr>"
  have "plan_retry w effect current error sent s = (p', s3)"
    unfolding plan_retry_def Let_def acct_def [symmetric] p'_def
    by (simp add: c t req_def [symmetric] ord_def [symmetric] ti)
  then have p: "p = \<lparr>rp_attempt_send_state = fst sent, rp_send_state = snd sent, rp_continuation = cont,
        rp_rotation = account_rotation_retry effect (fst sent) error s1, rp_transport = tr,
        rp_ordinary = ord, rp_transient = ti,
        rp_same_account = same_account_retry effect (fst sent) acct error s3\<rparr>" and s': "s' = s3"
    using assms by (auto simp: p'_def)
  have q1: "steady {acct} s s1" and cont: "cont \<Longrightarrow> \<not> effect \<and> undelivered s \<and> fst sent \<noteq> Ambiguous
      \<and> provider_proved_replay_safe error \<and> s_routing_attempts s < plan_max_attempts (s_plan s)"
    using c continuation_retry_facts [of current error "fst sent" "provider_proved_replay_safe error" s cont s1]
    by (auto simp: acct_def split: if_splits)
  have q2: "steady {acct} s s2" using steady_trans [OF q1 quiet_steady [OF transport_recovery_facts(1) [OF t]]] .
  have q3: "steady {acct} s s3" using steady_trans [OF q2 quiet_steady [OF transient_retry_facts(1) [OF ti]]] .
  note u = quiet_undelivered [OF q1] quiet_undelivered [OF q2] quiet_undelivered [OF q3]
    quiet_routing [OF q1] quiet_routing [OF q2] quiet_routing [OF q3]
  show "steady {md_account (ca_metadata current)} s s'" unfolding s' using q3 by (simp add: acct_def)
  show "rp_attempt_send_state p = fst sent" "rp_send_state p = snd sent" by (simp_all add: p)
  assume "retryable p"
  then consider "cont" | "same_account_retry effect (fst sent) acct error s3" | "ord"
    | "account_rotation_retry effect (fst sent) error s1" | "tr \<noteq> None"
    by (auto simp: retryable_def p)
  then show "replay_guards effect error p s"
  proof cases
    case 1 then show ?thesis using cont by (simp add: replay_guards_def p)
  next
    case 2 then show ?thesis using u by (auto simp: same_account_retry_def replay_guards_def p undelivered_def)
  next
    case 3 then show ?thesis using u by (auto simp: ord_def ordinary_retry_def replay_guards_def p undelivered_def)
  next
    case 4 then show ?thesis using u by (auto simp: account_rotation_retry_def replay_guards_def p undelivered_def)
  next
    case 5 then show ?thesis using transport_recovery_facts(2) [OF t] u by (auto simp: replay_guards_def p)
  qed
qed

lemma settle_send_state_facts:
  assumes "settle_send_state w current error s = (sent, s')"
  shows "quiet s s'" "fst sent = (if ca_send_observed current then Sent else pe_send_state error)"
    "s_send_state_watermark s' = snd sent" "fst sent \<le> snd sent"
proof -
  define a where "a = (if ca_send_observed current then Sent else pe_send_state error)"
  define t where "t = (if a \<noteq> NotSent then s\<lparr>s_connection_budget := conn_complete (s_connection_budget s)\<rparr> else s)"
  obtain v u where r: "raise_send_watermark w a t = (v, u)" by fastforce
  note u = raise_watermark_facts [OF r]
  have eq: "sent = (a, v)" "s' = store_when (s_request_persisted u) w (MarkSendState v) u"
    using assms unfolding settle_send_state_def a_def [symmetric] t_def [symmetric] Let_def r by simp_all
  have "quiet s t" by (auto simp: t_def)
  also have "quiet t u" by (rule u(1))
  also have "quiet u s'" unfolding eq(2) by (rule quiet_mark [OF u(2)])
  finally show "quiet s s'" .
  show "fst sent = (if ca_send_observed current then Sent else pe_send_state error)" by (simp add: eq a_def)
  show "s_send_state_watermark s' = snd sent" "fst sent \<le> snd sent"
    using u(2,4) by (simp_all add: eq store_when_def store_write_def)
qed

lemma steady_bind_next: "steady {md_account (ca_metadata current)} s (bind_next_attempt current p s)"
proof -
  let ?a = "md_account (ca_metadata current)"
  have "steady {?a} s (s\<lparr>s_credential_recovery_attempted := insert ?a (s_credential_recovery_attempted s),
      s_recovery_account := Some ?a\<rparr>)"
    by (auto simp: quiet_unfold)
  moreover have "steady {?a} s (s\<lparr>s_pending_retry := Some r\<rparr>)" if "pr_account r = ?a" for r
    using that by (auto simp: quiet_unfold)
  ultimately show ?thesis using steady_replan(3)
    by (simp add: bind_next_attempt_def Let_def split: option.split prod.split)
qed

lemma quiet_reset [intro]: "quiet s (reset_uncommitted_observations s)"
  by (simp add: reset_uncommitted_observations_def quiet_unfold)

lemma steady_discard: "steady {md_account (ca_metadata current)} s (discard_attempt w current error events p s)"
proof -
  let ?A = "{md_account (ca_metadata current)}"
  define s1 where "s1 = foldl (\<lambda>s gev. session_observe_fact w gev s) s (concat (map pev_canonical events))"
  define s2 where "s2 = bind_next_attempt current p s1"
  define s3 where "s3 = s2\<lparr>s_last_retryable_failure_events := events, s_last_retryable_failure := Some error\<rparr>"
  define s4 where "s4 = store_when (s_request_persisted s3) w
      (RecordIntermediateFailure (intermediate_failure w current (stable_snapshot error) s3)) s3"
  have "quiet s s1" unfolding s1_def by (rule quiet_foldl) (rule quiet_fact)
  then have "steady ?A s s1" by (rule quiet_steady)
  also have "steady ?A s1 s2" unfolding s2_def by (rule steady_bind_next)
  also have "steady ?A s2 s3" by (rule quiet_steady) (simp add: s3_def quiet_unfold)
  also have "steady ?A s3 s4" unfolding s4_def by (rule quiet_steady, rule quiet_plain_write) simp
  also have "steady ?A s4 (reset_uncommitted_observations s4)" by (rule quiet_steady [OF quiet_reset])
  finally show ?thesis
    unfolding discard_attempt_def Let_def s1_def [symmetric] s2_def [symmetric] s3_def [symmetric] s4_def [symmetric] .
qed

end
