(* ===== verification/Coordinator_Invariant.thy ===== *)
theory Coordinator_Invariant
  imports Coordinator_Safety
begin

text \<open>
  The invariant of a session: \<open>running\<close> until the final record is written, \<open>settled\<close> afterwards, proved
  for every turn of the pull loop (\<open>pull_step_turn\<close>). \<open>Coordinator_Loops\<close> lifts it to the public
  operations.
\<close>

section \<open>Running and settled sessions\<close>

definition honours_request :: "Session \<Rightarrow> ProviderAccountId \<Rightarrow> bool" where
  "honours_request s a \<longleftrightarrow> (\<forall>r. required_account (s_account_selection s) = Some r \<longrightarrow> a = r)"

text \<open>The attempt runs on a candidate of the frozen plan, on an account that candidate's frozen scope
  allows (a diagnostic call bypasses the scope), on the account the request requires, and on the
  pinned account while the continuation is native.\<close>

definition bound_attempt :: "Session \<Rightarrow> ProviderCallMetadata \<Rightarrow> bool" where
  "bound_attempt s md \<longleftrightarrow>
     (\<exists>candidate \<in> set (plan_candidates (s_plan s)).
        confirms md candidate
        \<and> (is_diagnostic (s_account_selection s) \<or> allows (pc_account_scope candidate) (md_account md)))
     \<and> honours_request s (md_account md)
     \<and> (\<forall>pin. Option.bind (s_continuation s) binding_pinned = Some pin
          \<longrightarrow> s_continuation_attempt s = Native \<longrightarrow> pin_matches pin (md_provider md) (md_account md))"

definition attempts_ok :: "Session \<Rightarrow> bool" where
  "attempts_ok s \<longleftrightarrow>
     s_routing_attempts s \<le> plan_max_attempts (s_plan s) \<and> s_routing_attempts s \<le> s_attempts s
     \<and> (\<forall>c. s_current s = Some c \<longrightarrow> ca_index c = s_attempts s \<and> bound_attempt s (ca_metadata c))"

definition running :: "Session \<Rightarrow> bool" where
  "running s \<longleftrightarrow>
     live s \<and> log_ok s \<and> attempts_ok s
     \<and> (\<forall>a \<in> pinned_accounts s. honours_request s a)
     \<and> (undelivered s \<or> s_current s \<noteq> None \<or> s_pending_terminal_failure s \<noteq> None)
     \<and> (undelivered s \<longrightarrow> s_pending_terminal_failure s = None)"

definition settled :: "Session \<Rightarrow> bool" where
  "settled s \<longleftrightarrow>
     is_finalized s \<and> s_finalized_at s \<noteq> None \<and> attempts_ok s
     \<and> sorted (written_states s) \<and> length (finalizations s) \<le> 1
     \<and> attempt_numbers s = [1..<Suc (s_attempts s)]"

definition session_inv :: "Session \<Rightarrow> bool" where
  "session_inv s \<longleftrightarrow> running s \<or> settled s"

lemma bound_attempt_evolves:
  "advances s t \<Longrightarrow> bound_attempt s md \<Longrightarrow> bound_attempt t md"
  by (auto simp: bound_attempt_def advances_def honours_request_def)

lemma honours_evolves: "advances s t \<Longrightarrow> honours_request t = honours_request s"
  by (auto simp: advances_def honours_request_def)

lemma current_projection:
  "map_option (\<lambda>c. (ca_index c, ca_metadata c)) (s_current t)
     = map_option (\<lambda>c. (ca_index c, ca_metadata c)) (s_current s) \<Longrightarrow> s_current t = Some c' \<Longrightarrow>
   \<exists>c. s_current s = Some c \<and> ca_index c' = ca_index c \<and> ca_metadata c' = ca_metadata c"
  by (cases "s_current s") auto

lemma attempts_ok_kept:
  assumes "attempts_ok s" "advances s t"
    and "s_attempts t = s_attempts s" "s_routing_attempts t = s_routing_attempts s"
    and "map_option (\<lambda>c. (ca_index c, ca_metadata c)) (s_current t)
      = map_option (\<lambda>c. (ca_index c, ca_metadata c)) (s_current s)"
  shows "attempts_ok t"
  unfolding attempts_ok_def
proof (intro conjI allI impI)
  have "s_plan t = s_plan s" using assms(2) by (simp add: advances_def)
  then show "s_routing_attempts t \<le> plan_max_attempts (s_plan t)" "s_routing_attempts t \<le> s_attempts t"
    using assms by (simp_all add: attempts_ok_def)
  fix c assume "s_current t = Some c"
  from current_projection [OF assms(5) this]
  show "ca_index c = s_attempts t" "bound_attempt t (ca_metadata c)"
    using assms bound_attempt_evolves [OF assms(2)] by (auto simp: attempts_ok_def)
qed

lemma steady_current: "steady A s t \<Longrightarrow> (s_current t = None) = (s_current s = None)"
  by (cases "s_current s"; cases "s_current t") (simp_all add: steady_def control_def)

lemma running_steady:
  assumes "running s" "steady A s t" "\<forall>a \<in> A. honours_request s a"
  shows "running t"
proof -
  have e: "advances s t" and p: "pinned_accounts t \<subseteq> pinned_accounts s \<union> A" using assms(2) by (simp_all add: steady_def)
  have "attempts_ok t"
    using assms(1,2) by (intro attempts_ok_kept [OF _ e]) (simp_all add: running_def steady_def control_def)
  moreover have "s_pending_terminal_failure t = s_pending_terminal_failure s"
    using assms(2) by (simp add: steady_def control_def)
  ultimately show ?thesis
    using assms p quiet_live [OF assms(2)] quiet_undelivered [OF assms(2)] steady_current [OF assms(2)]
      honours_evolves [OF e]
    by (auto simp: running_def steady_def)
qed

lemma running_quiet: "running s \<Longrightarrow> quiet s t \<Longrightarrow> running t"
  by (rule running_steady [where A = "{}"]) simp_all

lemma settled_well:
  assumes "running s" "ended_well s t" shows "settled t"
proof -
  have "attempts_ok t"
    using assms by (intro attempts_ok_kept [of s t]) (simp_all add: running_def ended_well_def)
  then show ?thesis using assms by (simp add: settled_def running_def ended_well_def is_finalized_def)
qed

lemma well_evolves: "ended_well s t \<Longrightarrow> advances s t"
  by (simp add: ended_well_def)


section \<open>A failed stream\<close>

lemma advances_current: "advances (s\<lparr>s_current := x\<rparr>) t = advances s t" "advances s (t\<lparr>s_current := x\<rparr>) = advances s t"
  by (simp_all add: advances_def is_finalized_def)

lemma steady_restore:
  assumes "s_current s = Some c" "steady A (s\<lparr>s_current := None\<rparr>) t"
  shows "steady A s (t\<lparr>s_current := Some c\<rparr>)"
proof -
  have e: "advances s t" using assms(2) by (simp add: steady_def advances_current)
  then have w: "s_send_state_watermark s \<le> s_send_state_watermark t" by (simp add: advances_def)
  have "log_ok (t\<lparr>s_current := Some c\<rparr>)" if "log_ok s"
  proof -
    from that have "log_ok (s\<lparr>s_current := None\<rparr>)" by (simp add: log_ok_def written_states_def attempt_numbers_def finalizations_def)
    then have "log_ok t" using assms(2) by (simp add: steady_def)
    moreover have "ca_send_observed c \<Longrightarrow> s_send_state_watermark t = Sent"
      using that w assms(1) by (cases "s_send_state_watermark t") (auto simp: log_ok_def less_eq_UpstreamSendState_def)
    ultimately show ?thesis by (simp add: log_ok_def written_states_def attempt_numbers_def finalizations_def)
  qed
  then show ?thesis using assms e
    by (auto simp: steady_def advances_current control_def pinned_accounts_def)
qed

lemma websocket_fold:
  "quiet s (foldl (\<lambda>s event. observe_websocket_response event a s) s xs)"
  "execution_effect_observed w (foldl (\<lambda>s event. observe_websocket_response event a s) s xs)
     = execution_effect_observed w s"
proof -
  show "quiet s (foldl (\<lambda>s event. observe_websocket_response event a s) s xs)"
    by (rule quiet_foldl) (rule quiet_websocket)
  have "execution_effect_observed w (observe_websocket_response e a s) = execution_effect_observed w s" for e s
    by (auto simp: observe_websocket_response_def execution_effect_observed_def Let_def split: option.splits)
  then show "execution_effect_observed w (foldl (\<lambda>s event. observe_websocket_response event a s) s xs)
     = execution_effect_observed w s"
    by (induction xs arbitrary: s) simp_all
qed

lemma planned_failure_facts:
  assumes "planned_failure w c error events s = (p, verdict, t)"
  shows "steady {md_account (ca_metadata c)} (s\<lparr>s_current := None\<rparr>) t"
    and "verdict = Ok True \<Longrightarrow> replay_guards (execution_effect_observed w s) error p s"
    and "rp_attempt_send_state p = (if ca_send_observed c then Sent else pe_send_state error)"
proof -
  let ?A = "{md_account (ca_metadata c)}"
  define s0 where "s0 = s\<lparr>s_current := None\<rparr>"
  define s1 where "s1 = (if is_some (s_request_observation s0)
               then foldl (\<lambda>s event. observe_websocket_response event (websocket_observation_attempt c) s)
                      s0 (filter (\<lambda>event. is_some (pev_wire event)) events)
               else s0)"
  define s2 where "s2 = record_provider_failure (md_provider (ca_metadata c)) s1"
  obtain sent s3 where st: "settle_send_state w c error s2 = (sent, s3)" by fastforce
  obtain p' s4 where pl: "plan_retry w (execution_effect_observed w s2) c error sent s3 = (p', s4)" by fastforce
  obtain v s5 where ap: "apply_retry_policy w (retry_facts c error p' s4) s4 = (v, s5)" by fastforce
  have eq: "p = p'" "verdict = v" "t = s5"
    using assms unfolding planned_failure_def Let_def s0_def [symmetric] s1_def [symmetric] s2_def [symmetric] st prod.case pl ap
    by simp_all
  have "quiet s0 s1" by (simp add: s1_def websocket_fold)
  also have "quiet s1 s2" by (auto simp: s2_def)
  also have "quiet s2 s3" by (rule settle_send_state_facts(1) [OF st])
  finally have q3: "quiet s0 s3" .
  have "steady ?A s3 s4" by (rule plan_retry_facts(1) [OF pl])
  with quiet_steady [OF q3] have q4: "steady ?A s0 s4" by (rule steady_trans)
  show "steady ?A (s\<lparr>s_current := None\<rparr>) t"
    unfolding eq s0_def [symmetric] using q4 quiet_steady [OF apply_retry_policy_facts(2) [OF ap]] by (rule steady_trans)
  show "rp_attempt_send_state p = (if ca_send_observed c then Sent else pe_send_state error)"
    using plan_retry_facts(2) [OF pl] settle_send_state_facts(2) [OF st] by (simp add: eq)
  have eff: "execution_effect_observed w s2 = execution_effect_observed w s"
  proof -
    have "execution_effect_observed w s2 = execution_effect_observed w s1"
      by (simp add: s2_def record_provider_failure_def execution_effect_observed_def)
    also have "\<dots> = execution_effect_observed w s0" unfolding s1_def by (simp add: websocket_fold)
    also have "\<dots> = execution_effect_observed w s" by (simp add: s0_def execution_effect_observed_def)
    finally show ?thesis .
  qed
  assume "verdict = Ok True"
  then have "retryable p'" using apply_retry_policy_facts(3) [OF ap] eq by (simp add: retry_facts_def)
  from plan_retry_facts(4) [OF pl this] have "replay_guards (execution_effect_observed w s) error p s3"
    by (simp add: eff eq)
  then show "replay_guards (execution_effect_observed w s) error p s"
    using quiet_undelivered [OF q3] quiet_routing [OF q3] by (simp add: replay_guards_def s0_def undelivered_def)
qed


section \<open>One turn of the loop\<close>

text \<open>What the client sees of the delivery, and what an outcome says about the session: an outcome other
  than a discarded attempt or a terminal failure leaves an attempt in place, and no batch is empty.\<close>

definition delivery :: "Session \<Rightarrow> bool \<times> system_time option \<times> PendingTerminalFailure option" where
  "delivery s = (s_delivery_pending s, s_downstream_committed_at s, s_pending_terminal_failure s)"

fun outcome_ok :: "PullOutcome option \<Rightarrow> Session \<Rightarrow> bool" where
  "outcome_ok (Some PullAttemptDiscarded) s = undelivered s"
| "outcome_ok (Some (PullTerminalFailure events _ _)) s = (events \<noteq> [])"
| "outcome_ok (Some (PullEvents events)) s = (events \<noteq> [] \<and> s_current s \<noteq> None)"
| "outcome_ok _ s = (s_current s \<noteq> None)"

text \<open>\<open>lax\<close> allows a failure that leaves the session running (\<open>pull\<close> then finishes it); \<open>same\<close> promises
  that no attempt was made.\<close>

definition turn :: "bool \<Rightarrow> bool \<Rightarrow> Session \<Rightarrow> EngineError + PullOutcome option \<Rightarrow> Session \<Rightarrow> bool" where
  "turn lax same s r s' \<longleftrightarrow>
     advances s s' \<and> (same \<longrightarrow> s_attempts s' = s_attempts s) \<and>
     (case r of
        Inl _ \<Rightarrow> settled s' \<or> (lax \<and> running s')
      | Inr out \<Rightarrow> running s' \<and> delivery s' = delivery s \<and> outcome_ok out s')"

lemma turn_ended: "running s \<Longrightarrow> ended_well s s' \<Longrightarrow> turn lax same s (Err e) s'"
  by (simp add: turn_def well_evolves settled_well ended_well_def)

lemma steady_delivery: "steady A s t \<Longrightarrow> delivery t = delivery s"
  by (simp add: steady_def control_def delivery_def)

lemma turn_after:
  assumes "steady A s t" "turn lax same t r s'" shows "turn lax same s r s'"
proof -
  have "advances s t" "s_attempts t = s_attempts s" using assms(1) by (simp_all add: steady_def control_def)
  then show ?thesis
    using assms advances_trans steady_delivery [OF assms(1)] by (auto simp: turn_def split: sum.splits)
qed

lemma running_live [simp]: "running s \<Longrightarrow> live s"
  by (simp add: running_def)

lemma turn_interrupted: "running s \<Longrightarrow> turn lax same s (Err e) (finish_interruption w e' s)"
  by (rule turn_ended) (simp_all add: finish_interruption_well)

lemma turn_provider_error: "running s \<Longrightarrow> turn lax same s (Err e) (finish_provider_error w e' s)"
  by (rule turn_ended) (simp_all add: finish_provider_error_well)

lemma turn_internal: "running s \<Longrightarrow> turn lax same s (Err e) (internal_failure w k m s)"
  by (rule turn_ended) (simp_all add: internal_failure_well)

lemma turn_still: "running s \<Longrightarrow> turn True same s (Err e) s"
  by (simp add: turn_def)

lemma running_taken:
  assumes "running s" "undelivered s" shows "running (s\<lparr>s_current := None\<rparr>)"
  using assms
  by (auto simp: running_def live_def log_ok_def attempts_ok_def written_states_def attempt_numbers_def
      finalizations_def pinned_accounts_def undelivered_def honours_request_def)

lemma running_current:
  "running s \<Longrightarrow> s_current s = Some c \<Longrightarrow> ca_index c = s_attempts s \<and> bound_attempt s (ca_metadata c)"
  by (simp add: running_def attempts_ok_def)

lemma running_honours: "running s \<Longrightarrow> s_current s = Some c \<Longrightarrow> honours_request s (md_account (ca_metadata c))"
  using running_current by (simp add: bound_attempt_def)

lemma stream_error_turn:
  assumes run: "running s" and cur: "s_current s = Some c" and "handle_stream_error w error s = (r, s')"
  shows "turn False same s (map_sum (\<lambda>e. e) (\<lambda>out. Some (into_pull_outcome out)) r) s'"
proof -
  let ?A = "{md_account (ca_metadata c)}"
  obtain events error' where ev: "take_atomic_client_events error = (events, error')" by fastforce
  obtain p verdict t where pl: "planned_failure w c error' events s = (p, verdict, t)" by (metis prod_cases3)
  note facts = planned_failure_facts [OF pl]
  define u where "u = t\<lparr>s_current := Some c\<rparr>"
  have honours: "\<forall>a \<in> ?A. honours_request s a" using running_honours [OF run cur] by simp
  have kept: "steady ?A s u" unfolding u_def by (rule steady_restore [OF cur facts(1)])
  have u: "running u" by (rule running_steady [OF run kept honours])
  have eq: "handle_stream_error w error s = (case verdict of
        Inl e \<Rightarrow> (Err e, finish_interruption w e u)
      | Inr True \<Rightarrow> (Ok AttemptDiscarded, discard_attempt w c error' events p t)
      | Inr False \<Rightarrow>
          if events \<noteq> []
          then let (events, u) = observe_atomic_terminal_events w events u
               in (Ok (TerminalFailure events error' (rp_send_state p)), u)
          else (Err (provider_engine_error error'),
                finish_provider_error_with_send_state w error' (rp_send_state p) u))"
    unfolding handle_stream_error_def ev cur Let_def prod.case option.case pl u_def ..
  consider e where "verdict = Inl e" | "verdict = Inr True" | "verdict = Inr False" "events \<noteq> []"
    | "verdict = Inr False" "events = []"
    by (cases verdict) (auto split: bool.splits)
  then show ?thesis
  proof cases
    case 1 then show ?thesis using assms(3) turn_after [OF kept turn_interrupted [OF u]] by (auto simp: eq)
  next
    case 2
    have und: "undelivered s" using facts(2) 2 by (simp add: replay_guards_def)
    have st: "steady ?A (s\<lparr>s_current := None\<rparr>) s'"
      using steady_trans [OF facts(1) steady_discard] assms(3) 2 by (auto simp: eq)
    have "\<forall>a \<in> ?A. honours_request (s\<lparr>s_current := None\<rparr>) a" using honours by (simp add: honours_request_def)
    then have "running s'" using running_steady [OF running_taken [OF run und] st] by blast
    moreover have "undelivered s'" using quiet_undelivered [OF st] und by (simp add: undelivered_def)
    moreover have "delivery s' = delivery s" using steady_delivery [OF st] by (simp add: delivery_def)
    moreover have "advances s s'" "s_attempts s' = s_attempts s"
      using st by (simp_all add: steady_def advances_current control_def)
    ultimately show ?thesis using assms(3) 2 by (auto simp: eq turn_def)
  next
    case 3
    obtain es u' where ob: "observe_atomic_terminal_events w events u = (es, u')" by fastforce
    have q: "quiet u u'" using quiet_atomic_events [where s = u and w = w and events = events] by (simp add: ob)
    have "es \<noteq> []" using atomic_events_length [of w events u] 3 ob by auto
    then have "turn False same u (Ok (Some (PullTerminalFailure es error' (rp_send_state p)))) u'"
      using running_quiet [OF u q] q steady_delivery [OF q] by (simp add: turn_def steady_def control_def)
    then show ?thesis using assms(3) 3 turn_after [OF kept] by (auto simp: eq ob)
  next
    case 4 then show ?thesis
      using assms(3) turn_after [OF kept turn_ended [OF u finish_with_send_state_well]] u by (auto simp: eq)
  qed
qed


section \<open>Preparing an attempt\<close>

lemma bind_attempt_facts:
  assumes "running s" "\<forall>r. pending = Some r \<longrightarrow> honours_request s (pr_account r)"
    and "bind_attempt pending s = ((pinned, transport), t)"
  shows "quiet s t" "required_account (s_account_selection s) = Some r \<Longrightarrow> pinned = Some r"
proof -
  have "quiet s (s\<lparr>s_recovery_account := None\<rparr>)" by (auto simp: quiet_unfold)
  then show "quiet s t" using assms(3)
    by (auto simp: bind_attempt_def split: option.splits SessionAccountSelection.splits)
  show "pinned = Some r" if required: "required_account (s_account_selection s) = Some r"
  proof -
    have "s_recovery_account s = Some a \<Longrightarrow> a = r" for a
      using assms(1) required by (simp add: running_def pinned_accounts_def honours_request_def)
    moreover have "pending = Some q \<Longrightarrow> pr_account q = r" for q
      using assms(2) required by (simp add: honours_request_def)
    ultimately show ?thesis using assms(3) required
      by (cases pending; cases "s_recovery_account s")
         (auto simp: bind_attempt_def split: SessionAccountSelection.splits)
  qed
qed

lemma quiet_profiles: "quiet s (s\<lparr>s_request_profiles := x\<rparr>)"
  by (simp add: quiet_unfold)

lemma quiet_resolve: "resolve_profile w provider s = Inr t \<Longrightarrow> quiet s t"
  using quiet_profiles by (auto simp: resolve_profile_def split: if_splits option.splits sum.splits)

lemma quiet_advance: "quiet s (snd (advance_provider_candidate s))"
  by (simp add: advance_provider_candidate_def Let_def quiet_unfold)

lemma quiet_candidate_retry: "candidate_retry w b error s = (r, t) \<Longrightarrow> quiet s t"
  using quiet_advance [of s] by (auto simp: candidate_retry_def split: if_splits)

lemma quiet_native_replay: "prepare_unavailable_native_continuation_replay w error s = (r, t) \<Longrightarrow> quiet s t"
  using quiet_replan_exclude
  by (auto simp: prepare_unavailable_native_continuation_replay_def split: if_splits option.splits)

lemma end_refused_turn:
  assumes run: "running s" and "end_refused_attempt w candidate error s = (r, s')"
  shows "turn lax same s r s'"
proof (cases "if pe_kind error \<in> local_refusals then s_last_retryable_failure s else None")
  case None
  define t where "t = (if \<not> (pe_kind error \<in> insert PkProviderInfrastructureUnavailable local_refusals
                          \<and> pe_send_state error = NotSent)
                   then record_provider_failure (pc_provider candidate) s else s)"
  have q: "quiet s t" by (auto simp: t_def)
  have "r = Err (provider_engine_error error)" "s' = finish_provider_error w error t"
    using assms(2) unfolding end_refused_attempt_def None option.case t_def Let_def by simp_all
  then show ?thesis using turn_after [OF q turn_provider_error [OF running_quiet [OF run q]]] by simp
next
  case (Some last_failure)
  define t where "t = s\<lparr>s_last_retryable_failure := None\<rparr>"
  define t' where "t' = t\<lparr>s_last_retryable_failure_events := []\<rparr>"
  have q: "quiet s t'" by (simp add: t'_def t_def quiet_unfold)
  have run': "running t'" by (rule running_quiet [OF run q])
  have eq: "end_refused_attempt w candidate error s =
      (if s_last_retryable_failure_events t \<noteq> []
       then let (events, u) = observe_atomic_terminal_events w (s_last_retryable_failure_events t) t'
            in (Ok (Some (PullTerminalFailure events last_failure (current_send_state w t))),
                u\<lparr>s_budget_attempt_already_counted := True\<rparr>)
       else (Err (provider_engine_error last_failure), finish_provider_error w last_failure t'))"
    unfolding end_refused_attempt_def Some option.case t_def t'_def Let_def ..
  show ?thesis
  proof (cases "s_last_retryable_failure_events t = []")
    case True then show ?thesis using assms(2) turn_after [OF q turn_provider_error [OF run']] by (auto simp: eq)
  next
    case False
    obtain es u where ob: "observe_atomic_terminal_events w (s_last_retryable_failure_events t) t' = (es, u)" by fastforce
    have "quiet t' u" using quiet_atomic_events [of t' w "s_last_retryable_failure_events t"] by (simp add: ob)
    also have "quiet u (u\<lparr>s_budget_attempt_already_counted := True\<rparr>)" by (simp add: quiet_unfold)
    finally have q': "quiet t' (u\<lparr>s_budget_attempt_already_counted := True\<rparr>)" .
    have "es \<noteq> []" using atomic_events_length [of w "s_last_retryable_failure_events t" t'] False ob by auto
    then have "turn lax same t' (Ok (Some (PullTerminalFailure es last_failure (current_send_state w t))))
        (u\<lparr>s_budget_attempt_already_counted := True\<rparr>)"
      using running_quiet [OF run' q'] q' steady_delivery [OF q'] by (simp add: turn_def steady_def control_def)
    then show ?thesis using assms(2) False turn_after [OF q] by (auto simp: eq ob)
  qed
qed

lemma handle_refused_turn:
  assumes run: "running s" and und: "undelivered s" and "handle_refused_attempt w index candidate error s = (r, s')"
  shows "turn True same s r s'"
proof -
  obtain b1 s1 where n: "prepare_unavailable_native_continuation_replay w error s = (b1, s1)" by fastforce
  obtain b2 s2 where c: "candidate_retry w b1 error s1 = (b2, s2)" by fastforce
  obtain v s3 where a: "apply_retry_policy w (refusal_facts index candidate error (b1 \<or> b2) s2) s2 = (v, s3)" by fastforce
  have "quiet s s1" by (rule quiet_native_replay [OF n])
  also have "quiet s1 s2" by (rule quiet_candidate_retry [OF c])
  also have "quiet s2 s3" by (rule apply_retry_policy_facts(2) [OF a])
  finally have q: "quiet s s3" .
  have run': "running s3" by (rule running_quiet [OF run q])
  have eq: "handle_refused_attempt w index candidate error s = (case v of
       Inl e \<Rightarrow> (Err e, s3) | Inr True \<Rightarrow> (Ok (Some PullAttemptDiscarded), s3)
     | Inr False \<Rightarrow> end_refused_attempt w candidate error s3)"
    unfolding handle_refused_attempt_def n Let_def prod.case c a ..
  consider e where "v = Inl e" | "v = Inr True" | "v = Inr False" by (cases v) (auto split: bool.splits)
  then have "turn True same s3 r s'"
  proof cases
    case 3 then show ?thesis using assms(3) end_refused_turn [OF run'] by (simp add: eq)
  qed (use assms(3) run' und quiet_undelivered [OF q] in \<open>auto simp: eq turn_def\<close>)
  then show ?thesis by (rule turn_after [OF q])
qed

text \<open>The session that owns a fresh attempt, before the attempt is written.\<close>

definition owned :: "World \<Rightarrow> nat \<Rightarrow> bool \<Rightarrow> AttemptTransport \<Rightarrow> ProviderCallMetadata \<Rightarrow> Session \<Rightarrow> Session" where
  "owned w index recovery transport md s =
     s\<lparr>s_account_state_owner :=
         or_else (s_account_state_owner s)
           (Some \<lparr>state_owner_provider = md_provider md, state_owner_account = md_account md\<rparr>),
       s_attempts := index,
       s_routing_attempts :=
         (if recovery then s_routing_attempts s else saturating_add_u 32 (s_routing_attempts s) 1),
       s_current := Some
         \<lparr>ca_metadata = md, ca_trigger = (if s_attempts s = 0 then Initial else AccountRetry),
          ca_transport = transport, ca_index = index, ca_started_at = now_of w s,
          ca_send_observed = False, ca_response_observation = None\<rparr>\<rparr>"

lemma own_attempt_cases:
  assumes "own_attempt w index recovery transport md s = (r, s')"
    and "s_request_persisted s \<or> s_pending_request s \<noteq> None"
  obtains op where "attempt_number op = Some index" "written_state op = None" "\<not> is_finalize op" "r = Ok None"
    "s' = snd (store_write w op (owned w index recovery transport md s))
     \<or> s' = (snd (store_write w op (owned w index recovery transport md s)))
          \<lparr>s_pending_request := None, s_request_persisted := True\<rparr>"
proof -
  define trigger where "trigger = (if s_attempts s = 0 then Initial else AccountRetry)"
  define s1 where "s1 = (if s_account_state_owner s = None
               then s\<lparr>s_account_state_owner :=
                        Some \<lparr>state_owner_provider = md_provider md, state_owner_account = md_account md\<rparr>\<rparr>
               else s)"
  define rec where "rec = attempt_record index trigger md s1"
  have o: "s1\<lparr>s_attempts := index,
                s_routing_attempts :=
                  (if recovery then s_routing_attempts s1
                   else saturating_add_u 32 (s_routing_attempts s1) 1),
                s_current := Some
                  \<lparr>ca_metadata = md, ca_trigger = trigger, ca_transport = transport, ca_index = index,
                   ca_started_at = now_of w s1, ca_send_observed = False, ca_response_observation = None\<rparr>\<rparr>
      = owned w index recovery transport md s" (is "?s = ?o")
    by (cases "s_account_state_owner s") (simp_all add: owned_def s1_def trigger_def)
  have p: "s_request_persisted ?o = s_request_persisted s" "s_pending_request ?o = s_pending_request s"
    by (simp_all add: owned_def)
  have num: "ar_attempt_count rec = index" by (simp add: rec_def attempt_record_def Let_def)
  have eq: "own_attempt w index recovery transport md s =
      (if s_request_persisted s then (Ok None, snd (store_write w (RecordAttempt rec) ?o))
       else case s_pending_request s of
              None \<Rightarrow> (Err InvalidDeliveryState, ?o)
            | Some request \<Rightarrow>
                let (written, s) = store_write w (CreateModelRequestWithAttempt request rec) ?o
                in (Ok None, if written then s\<lparr>s_pending_request := None, s_request_persisted := True\<rparr> else s))"
    unfolding own_attempt_def Let_def trigger_def [symmetric] s1_def [symmetric] rec_def [symmetric] o p ..
  show ?thesis
  proof (cases "s_request_persisted s")
    case True
    then show ?thesis using assms(1) num by (intro that [of "RecordAttempt rec"]) (simp_all add: eq)
  next
    case False
    then obtain request where "s_pending_request s = Some request" using assms(2) by auto
    then show ?thesis using assms(1) num False
      by (intro that [of "CreateModelRequestWithAttempt request rec"])
         (auto simp: eq split_beta Let_def split: if_splits)
  qed
qed

lemma own_attempt_turn:
  assumes run: "running s" and bound: "bound_attempt s md" and index: "index = Suc (s_attempts s)" "index < 2 ^ 32"
    and budget: "recovery \<or> s_routing_attempts s < plan_max_attempts (s_plan s)"
    and own: "own_attempt w index recovery transport md s = (r, s')"
  shows "turn lax False s r s' \<and> r = Ok None"
proof -
  define ob where "ob = owned w index recovery transport md s"
  have inv: "live s" "log_ok s" "attempts_ok s" using run by (simp_all add: running_def)
  have pending: "s_request_persisted s \<or> s_pending_request s \<noteq> None" using inv by (simp add: log_ok_def)
  from own_attempt_cases [OF own this]
  obtain op where op: "attempt_number op = Some index" "written_state op = None" "\<not> is_finalize op" "r = Ok None"
    and s': "s' = snd (store_write w op ob) \<or> s' = (snd (store_write w op ob))\<lparr>s_pending_request := None, s_request_persisted := True\<rparr>"
    by (metis ob_def)
  have routing: "s_routing_attempts s \<le> s_routing_attempts ob" "s_routing_attempts ob \<le> Suc (s_routing_attempts s)"
    "recovery \<Longrightarrow> s_routing_attempts ob = s_routing_attempts s"
    using inv index by (auto simp: ob_def owned_def saturating_add_u_def attempts_ok_def)
  have "advances s s'" using s' routing(1) index
    by (auto simp: advances_def ob_def owned_def store_write_def is_finalized_def)
  moreover have "log_ok s'"
  proof -
    obtain b where "s_store_log s' = s_store_log s @ [(op, b)]"
      using s' by (elim disjE) (simp_all add: ob_def owned_def store_write_def)
    then have "written_states s' = written_states s" "finalizations s' = finalizations s"
      "attempt_numbers s' = attempt_numbers s @ [index]"
      using op by (simp_all add: written_states_def finalizations_def attempt_numbers_def)
    moreover have "s_attempts s' = index" "s_send_state_watermark s' = s_send_state_watermark s"
      "\<not> is_some_and (s_current s') ca_send_observed" "s_request_persisted s' \<or> s_pending_request s' \<noteq> None"
      using s' pending by (elim disjE; simp add: ob_def owned_def store_write_def)+
    ultimately show ?thesis using inv(2) index(1) by (simp add: log_ok_def)
  qed
  moreover have "attempts_ok s'"
  proof -
    have "s_routing_attempts ob \<le> plan_max_attempts (s_plan s)" "s_routing_attempts ob \<le> index"
      using routing budget inv(3) index by (auto simp: attempts_ok_def)
    moreover have "bound_attempt s' md" by (rule bound_attempt_evolves [OF \<open>advances s s'\<close> bound])
    ultimately show ?thesis using s'
      by (auto simp: attempts_ok_def ob_def owned_def store_write_def)
  qed
  moreover have "pinned_accounts s' = pinned_accounts s" "delivery s' = delivery s" "s_current s' \<noteq> None" "live s'"
    using s' inv(1) by (auto simp: pinned_accounts_def delivery_def ob_def owned_def store_write_def live_def)
  ultimately show ?thesis
    using run op(4) honours_evolves [OF \<open>advances s s'\<close>]
    by (auto simp: turn_def running_def delivery_def undelivered_def)
qed


lemma binding_violation_None:
  assumes "binding_violation candidate pinned md s = None" "candidate \<in> set (plan_candidates (s_plan s))"
    and "\<And>r. required_account (s_account_selection s) = Some r \<Longrightarrow> pinned = Some r"
  shows "bound_attempt s md"
  using assms unfolding binding_violation_def bound_attempt_def honours_request_def
  by (auto split: if_splits)

lemma establish_turn:
  assumes run: "running s" and "candidate \<in> set (plan_candidates (s_plan s))"
    and "\<And>r. required_account (s_account_selection s) = Some r \<Longrightarrow> pinned = Some r"
    and index: "index = Suc (s_attempts s)" "index < 2 ^ 32"
    and budget: "recovery \<or> s_routing_attempts s < plan_max_attempts (s_plan s)"
    and est: "establish_attempt w index recovery candidate pinned transport md s = (r, s')"
  shows "turn lax False s r s'"
proof (cases "binding_violation candidate pinned md s")
  case None
  then show ?thesis
    using own_attempt_turn [OF run binding_violation_None [OF None assms(2,3)] index budget] est
    by (simp add: establish_attempt_def)
next
  case (Some v)
  define t where "t = (if fst v = ProviderMetadataMismatch then record_provider_failure (pc_provider candidate) s else s)"
  have q: "quiet s t" by (auto simp: t_def)
  have "r = Err (fst v)" "s' = internal_failure w GkInternal (snd v) t"
    using est Some by (auto simp: establish_attempt_def t_def Let_def split_beta)
  then show ?thesis using turn_after [OF q turn_internal [OF running_quiet [OF run q]]] by simp
qed

lemma start_attempt_turn:
  assumes run: "running s" and und: "undelivered s"
    and pin: "\<forall>r. pending = Some r \<longrightarrow> honours_request s (pr_account r)"
    and budget: "is_some_and pending pr_transport_recovery \<or> s_routing_attempts s < plan_max_attempts (s_plan s)"
    and st: "start_attempt w pending s = (r, s')"
  shows "turn True False s r s' \<and> (\<forall>out. r = Inr out \<longrightarrow> s_tick s < s_tick s')"
proof (cases "s_candidate_index s \<ge> length (plan_candidates (s_plan s)) \<or> \<not> Suc (s_attempts s) < 2 ^ 32")
  case True
  then show ?thesis using st turn_internal [OF run] turn_still [OF run]
    by (auto simp: start_attempt_def checked_add_u_def split: if_splits)
next
  case False
  define candidate where "candidate = plan_candidates (s_plan s) ! s_candidate_index s"
  define index where "index = Suc (s_attempts s)"
  have add: "checked_add_u 32 (s_attempts s) 1 = Some index" using False by (simp add: index_def checked_add_u_def)
  obtain pinned transport s1 where b: "bind_attempt pending s = ((pinned, transport), s1)" by (metis prod.collapse)
  note bind = bind_attempt_facts [OF run pin b]
  have run1: "running s1" by (rule running_quiet [OF run bind(1)])
  have cand: "candidate \<in> set (plan_candidates (s_plan s))" using False by (simp add: candidate_def)
  have start: "start_attempt w pending s =
      (if \<not> provider_registered w (pc_provider candidate)
       then (Err (EngineProviderNotRegistered (provider_kind_str (pc_provider candidate))), s1)
       else case resolve_profile w (pc_provider candidate) s1 of
              Inl error \<Rightarrow> (Err (provider_engine_error error), finish_provider_error w error s1)
            | Inr s \<Rightarrow>
                let boundary = poll_provider w candidate (attempt_context index candidate (account_context pinned s1) transport s) s;
                    s = tick (s\<lparr>s_connection_budget := connection_use w (s_tick s) (s_connection_budget s)\<rparr>)
                in case boundary of
                     WaitCancelled \<Rightarrow> (Err EngineCancelled, finish_interruption w EngineCancelled s)
                   | WaitDeadline \<Rightarrow> (Err EngineDeadline, finish_interruption w EngineDeadline s)
                   | WaitReady (Inl error) \<Rightarrow> handle_refused_attempt w index candidate error s
                   | WaitReady (Inr md) \<Rightarrow>
                       establish_attempt w index (is_some_and pending pr_transport_recovery)
                         candidate pinned transport md s)"
    using False unfolding start_attempt_def add b Let_def prod.case option.case candidate_def [symmetric]
    by simp
  show ?thesis
  proof (cases "resolve_profile w (pc_provider candidate) s1")
    case (Inl error)
    then have "turn True False s1 r s' \<and> (\<forall>out. r \<noteq> Inr out)"
      using st turn_still [OF run1] turn_provider_error [OF run1] by (auto simp: start split: if_splits)
    then show ?thesis using turn_after [OF bind(1)] by blast
  next
    case (Inr s2)
    define s3 where "s3 = tick (s2\<lparr>s_connection_budget := connection_use w (s_tick s2) (s_connection_budget s2)\<rparr>)"
    have "quiet s1 s2" by (rule quiet_resolve [OF Inr])
    also have "quiet s2 s3" unfolding s3_def using quiet_trans [OF quiet_connection quiet_tick] .
    finally have q13: "quiet s1 s3" .
    have q: "quiet s s3" by (rule quiet_trans [OF bind(1) q13])
    have run3: "running s3" by (rule running_quiet [OF run q])
    note same = quiet_routing [OF q]
    have und3: "undelivered s3" using quiet_undelivered [OF q] und by simp
    show ?thesis
    proof (cases "provider_registered w (pc_provider candidate)")
      case False
      then show ?thesis using st turn_after [OF bind(1) turn_still [OF run1]] by (auto simp: start)
    next
      case True
      consider "poll_provider w candidate (attempt_context index candidate (account_context pinned s1) transport s2) s2 = WaitCancelled"
        | "poll_provider w candidate (attempt_context index candidate (account_context pinned s1) transport s2) s2 = WaitDeadline"
        | error where "poll_provider w candidate (attempt_context index candidate (account_context pinned s1) transport s2) s2 = WaitReady (Inl error)"
        | md where "poll_provider w candidate (attempt_context index candidate (account_context pinned s1) transport s2) s2 = WaitReady (Inr md)"
        by (metis Waited.exhaust sum.exhaust)
      then have "turn True False s3 r s'"
      proof cases
        case 1 then show ?thesis using st True Inr turn_interrupted [OF run3] by (auto simp: start s3_def Let_def)
      next
        case 2 then show ?thesis using st True Inr turn_interrupted [OF run3] by (auto simp: start s3_def Let_def)
      next
        case 3
        then have "handle_refused_attempt w index candidate error s3 = (r, s')"
          using st True Inr by (simp add: start s3_def Let_def)
        then show ?thesis by (rule handle_refused_turn [OF run3 und3])
      next
        case 4
        then have est: "establish_attempt w index (is_some_and pending pr_transport_recovery) candidate pinned transport md s3 = (r, s')"
          using st True Inr by (simp add: start s3_def Let_def)
        show ?thesis
          by (rule establish_turn [OF run3 _ _ _ _ _ est])
             (use same cand bind(2) budget add in \<open>simp_all add: index_def\<close>)
      qed
      moreover from this have "s_tick s3 \<le> s_tick s'" by (simp add: turn_def advances_def)
      moreover have "s_tick s < s_tick s3" using bind(1) quiet_resolve [OF Inr]
        by (simp add: s3_def steady_def advances_def)
      ultimately show ?thesis using turn_after [OF q] by force
    qed
  qed
qed

lemma prepare_attempt_turn:
  assumes run: "running s" and und: "undelivered s" and pr: "prepare_attempt w s = (r, s')"
  shows "turn True False s r s' \<and> (\<forall>out. r = Inr out \<longrightarrow> s_tick s < s_tick s')"
proof -
  define pending where "pending = s_pending_retry s"
  define s1 where "s1 = s\<lparr>s_pending_retry := None\<rparr>"
  have q1: "quiet s s1" by (auto simp: s1_def quiet_unfold)
  have pin: "\<forall>r. pending = Some r \<longrightarrow> honours_request s (pr_account r)"
    using run by (simp add: running_def pinned_accounts_def pending_def)
  define refused where "refused \<longleftrightarrow> \<not> is_some_and pending pr_transport_recovery \<and> s_routing_attempts s1 \<ge> plan_max_attempts (s_plan s1)"
  define deadline where "deadline = (case startup_remaining (instant_at w (s_tick s1)) (s_connection_budget s1) of
                          None \<Rightarrow> s_deadline s1
                        | Some remaining \<Rightarrow> min (s_deadline s1) (now_of w s1 + int remaining))"
  have eq: "prepare_attempt w s =
      (if refused then (Err EmptyRoutingPlan, s1)
       else if is_some_and pending (\<lambda>r. pr_delay r \<noteq> 0)
       then case poll_retry_delay w (pr_delay (the pending)) deadline s1 of
              WaitCancelled \<Rightarrow> (Err EngineCancelled, finish_interruption w EngineCancelled (tick s1))
            | WaitDeadline \<Rightarrow> (Err EngineDeadline, finish_interruption w EngineDeadline (tick s1))
            | WaitReady _ \<Rightarrow> start_attempt w pending (tick s1)
       else start_attempt w pending s1)"
    unfolding prepare_attempt_def Let_def pending_def s1_def refused_def deadline_def ..
  have start: "turn True False s r s' \<and> (\<forall>out. r = Inr out \<longrightarrow> s_tick s < s_tick s')" if "quiet s t" "start_attempt w pending t = (r, s')" "\<not> refused" for t
  proof -
    have "honours_request t = honours_request s" using honours_evolves that(1) by (simp add: steady_def)
    then have "\<forall>r. pending = Some r \<longrightarrow> honours_request t (pr_account r)" using pin by simp
    moreover have "is_some_and pending pr_transport_recovery \<or> s_routing_attempts t < plan_max_attempts (s_plan t)"
      using quiet_routing [OF that(1)] quiet_routing [OF q1] that(3) by (auto simp: refused_def)
    ultimately have "turn True False t r s' \<and> (\<forall>out. r = Inr out \<longrightarrow> s_tick t < s_tick s')"
      using start_attempt_turn [OF _ _ _ _ that(2)] running_quiet [OF run that(1)] quiet_undelivered [OF that(1)] und
      by blast
    then show ?thesis using turn_after [OF that(1)] that(1) by (auto simp: steady_def advances_def)
  qed
  have q2: "quiet s (tick s1)" by (rule quiet_trans [OF q1 quiet_tick])
  note run1 = running_quiet [OF run q1] and run2 = running_quiet [OF run q2]
  show ?thesis
    using pr turn_after [OF q1 turn_still [OF run1]] turn_after [OF q2 turn_interrupted [OF run2]]
      start [OF q1] start [OF q2]
    by (auto simp: eq split: if_splits Waited.splits)
qed


section \<open>The pull loop\<close>

lemma deliver_event_turn:
  assumes run: "running s" "s_current s \<noteq> None" and "deliver_event w event s = (r, s')"
  shows "turn False same s r s'"
  using assms turn_provider_error [OF run(1)]
  by (auto simp: deliver_event_def turn_def split: if_splits sum.splits list.splits)

lemma poll_turn_turn:
  assumes run: "running s" and cur: "s_current s \<noteq> None" and pt: "poll_turn w s = (r, s')"
  shows "turn False same s r s' \<and> s_tick s < s_tick s'"
proof -
  define t where "t = tick (s\<lparr>s_connection_budget := connection_use w (s_tick s) (s_connection_budget s)\<rparr>)"
  have q: "quiet s t" unfolding t_def using quiet_trans [OF quiet_connection quiet_tick] .
  have runt: "running t" by (rule running_quiet [OF run q])
  have curt: "s_current t = s_current s" by (simp add: t_def)
  have eq: "poll_turn w s = (case poll_stream_item w s of
           WaitCancelled \<Rightarrow> (Err EngineCancelled, finish_interruption w EngineCancelled t)
         | WaitDeadline \<Rightarrow> (Err EngineDeadline, finish_interruption w EngineDeadline t)
         | WaitReady None \<Rightarrow>
             (Ok (Some PullEnd), (record_current_provider_success t)\<lparr>s_upstream_complete := True\<rparr>)
         | WaitReady (Some (Inr event)) \<Rightarrow>
             let (event, s) = observe_stream_event w event t in deliver_event w event s
         | WaitReady (Some (Inl error)) \<Rightarrow>
             (case handle_stream_error w error t of
                (Inl e, s) \<Rightarrow> (Err e, s)
              | (Inr outcome, s) \<Rightarrow> (Ok (Some (into_pull_outcome outcome)), s)))"
    unfolding poll_turn_def t_def Let_def ..
  consider "poll_stream_item w s = WaitCancelled" | "poll_stream_item w s = WaitDeadline"
    | "poll_stream_item w s = WaitReady None" | event where "poll_stream_item w s = WaitReady (Some (Inr event))"
    | error where "poll_stream_item w s = WaitReady (Some (Inl error))"
    by (metis Waited.exhaust option.exhaust sum.exhaust)
  then have "turn False same t r s'"
  proof cases
    case 3
    define u where "u = (record_current_provider_success t)\<lparr>s_upstream_complete := True\<rparr>"
    have "quiet (record_current_provider_success t) u" by (simp add: u_def quiet_unfold)
    with quiet_provider_success have qu: "quiet t u" by (rule quiet_trans)
    show ?thesis using pt 3 running_quiet [OF runt qu] steady_delivery [OF qu] qu steady_current [OF qu] cur curt
      by (auto simp: eq u_def [symmetric] turn_def steady_def control_def)
  next
    case 4
    obtain event' u where ob: "observe_stream_event w event t = (event', u)" by fastforce
    have qu: "quiet t u" using quiet_stream_event [of t w event] by (simp add: ob)
    have "deliver_event w event' u = (r, s')" using pt 4 by (simp add: eq ob)
    from deliver_event_turn [OF running_quiet [OF runt qu] _ this] steady_current [OF qu] cur curt
    show ?thesis using turn_after [OF qu] by simp
  next
    case 5
    obtain c where c: "s_current t = Some c" using cur curt by auto
    obtain r' u where h: "handle_stream_error w error t = (r', u)" by fastforce
    show ?thesis using stream_error_turn [OF runt c h] pt 5
      by (cases r') (auto simp: eq h)
  qed (use pt turn_interrupted [OF runt] in \<open>auto simp: eq\<close>)
  moreover from this have "s_tick s < s_tick s'" by (simp add: turn_def advances_def t_def)
  ultimately show ?thesis using turn_after [OF q] by blast
qed

text \<open>The sessions the loop may pull on.\<close>

definition ready :: "Session \<Rightarrow> bool" where
  "ready s \<longleftrightarrow> running s \<and> \<not> s_delivery_pending s \<and> s_pending_terminal_failure s = None"

lemma ready_undelivered: "ready s \<Longrightarrow> s_current s = None \<Longrightarrow> undelivered s"
  by (auto simp: ready_def running_def)

lemma pull_step_turn:
  assumes "ready s" and step: "pull_step w s = (r, s')"
  shows "turn False False s r s' \<and> (\<forall>out. r = Inr out \<longrightarrow> s_tick s < s_tick s')"
proof (cases "s_current s = None")
  case False
  then have "poll_turn w s = (r, s')" using step by (auto simp: pull_step_def)
  then show ?thesis using assms(1) False poll_turn_turn [of s w r s'] by (simp add: ready_def)
next
  case True
  have run: "running s" using assms by (simp add: ready_def)
  obtain r1 t where p: "prepare_attempt w s = (r1, t)" by fastforce
  note first = prepare_attempt_turn [OF run ready_undelivered [OF assms(1) True] p]
  consider e where "r1 = Inl e" | out where "r1 = Inr (Some out)" | "r1 = Inr None"
    by (metis option.exhaust sum.exhaust)
  then show ?thesis
  proof cases
    case 1
    show ?thesis
    proof (cases "is_finalized t")
      case True
      then have "settled t" using first 1 by (auto simp: turn_def running_def live_def is_finalized_def)
      then show ?thesis using step \<open>s_current s = None\<close> p 1 True first by (auto simp: pull_step_def turn_def)
    next
      case False
      then have "running t" "advances s t" using first 1 by (auto simp: turn_def settled_def)
      then have "turn False False t (Err e) (finish_interruption w e t)" "advances s t" by (simp_all add: turn_interrupted)
      then have "turn False False s (Err e) (finish_interruption w e t)" using advances_trans by (auto simp: turn_def)
      then show ?thesis using step \<open>s_current s = None\<close> p 1 False by (auto simp: pull_step_def)
    qed
  next
    case 2
    then show ?thesis using step True p first by (auto simp: pull_step_def turn_def)
  next
    case 3
    then have "running t" "s_current t \<noteq> None" "advances s t" "delivery t = delivery s" using first by (auto simp: turn_def)
    moreover have "poll_turn w t = (r, s')" using step True p 3 by (simp add: pull_step_def)
    ultimately have "turn False False t r s' \<and> s_tick t < s_tick s'" "advances s t" "delivery t = delivery s"
      using poll_turn_turn [of t w r s' False] by simp_all
    moreover from this have "s_tick s < s_tick s'" by (simp add: advances_def)
    ultimately show ?thesis using advances_trans by (auto simp: turn_def split: sum.splits)
  qed
qed

end
