(* ===== verification/Coordinator_Loops.thy ===== *)
theory Coordinator_Loops
  imports Coordinator_Invariant
begin

text \<open>
  The public operations of a session. The locale \<open>pull_contract\<close> is the contract of one turn the three
  loops rely on; it is interpreted on the invariant and on the clock. On top of it stand the sessions
  reachable from a start, and the properties of the coordinator.
\<close>

section \<open>The loops\<close>

text \<open>A result of one turn after which one of the loops goes round again.\<close>

fun goes_on :: "EngineError + PullOutcome option \<Rightarrow> bool" where
  "goes_on (Inr None) = True"
| "goes_on (Inr (Some PullAttemptDiscarded)) = True"
| "goes_on (Inr (Some (PullEvents _))) = True"
| "goes_on _ = False"

text \<open>\<open>collect_uncommitted\<close> ends with a failure of the last turn, a terminal failure, or the end of the
  stream.\<close>

fun collected :: "World \<Rightarrow> EngineError + PullOutcome \<Rightarrow> Session \<Rightarrow> EngineError + ProviderEvent list \<Rightarrow> Session \<Rightarrow> bool" where
  "collected w (Inl e) t r s' = (r = Err e \<and> s' = t)"
| "collected w (Inr (PullTerminalFailure events error send_state)) t r s' =
     (r = Err (provider_engine_error error) \<and> s' = finish_provider_error_with_send_state w error send_state t)"
| "collected w (Inr PullEnd) t r s' =
     (r = Err InvalidDeliveryState \<and> s' = t
      \<or> (\<exists>events. events \<noteq> [] \<and> r = Ok events \<and> s' = t\<lparr>s_delivery_pending := True\<rparr>))"
| "collected w _ t r s' = False"

text \<open>The contract of a turn, as the loops of \<open>pull\<close>, \<open>next_event\<close> and \<open>collect_uncommitted\<close> rely on it:
  a turn from a session in \<open>Pre\<close> relates it to the next one by \<open>Post\<close>, which chains.\<close>

locale pull_contract =
  fixes Pre :: "Session \<Rightarrow> bool"
    and Post :: "Session \<Rightarrow> EngineError + PullOutcome option \<Rightarrow> Session \<Rightarrow> bool"
  assumes step: "Pre s \<Longrightarrow> pull_step w s = (r, s') \<Longrightarrow> Post s r s'"
    and again: "Pre s \<Longrightarrow> Post s r s' \<Longrightarrow> goes_on r \<Longrightarrow> Pre s'"
    and chain: "Post s r t \<Longrightarrow> goes_on r \<Longrightarrow> Post t r' u \<Longrightarrow> Post s r' u"
begin

lemma pull_post:
  assumes "pull w s = Some (r, s')" "Pre s"
  shows "Post s (map_sum (\<lambda>e. e) Some r) s'"
proof -
  have "Pre s \<longrightarrow> Post s (map_sum (\<lambda>e. e) Some (fst (r, s'))) (snd (r, s'))"
  proof (rule pull.raw_induct [where P = "\<lambda>w s y. Pre s \<longrightarrow> Post s (map_sum (\<lambda>e. e) Some (fst y)) (snd y)", OF _ assms(1)])
    fix p w s and y :: "(EngineError + PullOutcome) \<times> Session"
    assume IH: "\<And>w s y. p w s = Some y \<Longrightarrow> Pre s \<longrightarrow> Post s (map_sum (\<lambda>e. e) Some (fst y)) (snd y)"
      and body: "(case pull_step w s of
        (Inl e, s) \<Rightarrow> Some (Err e, s)
      | (Inr None, s) \<Rightarrow> p w s
      | (Inr (Some outcome), s) \<Rightarrow> Some (Ok outcome, s)) = Some y"
    obtain r t where st: "pull_step w s = (r, t)" by fastforce
    show "Pre s \<longrightarrow> Post s (map_sum (\<lambda>e. e) Some (fst y)) (snd y)"
    proof
      assume pre: "Pre s"
      note post = step [OF pre st]
      show "Post s (map_sum (\<lambda>e. e) Some (fst y)) (snd y)"
      proof (cases "r = Inr None")
        case True
        then have "Post t (map_sum (\<lambda>e. e) Some (fst y)) (snd y)"
          using IH [of w t y] body st again [OF pre post] by simp
        then show ?thesis using chain post True by simp
      next
        case False
        then show ?thesis using body st post by (auto split: sum.splits option.splits)
      qed
    qed
  qed
  then show ?thesis using assms(2) by simp
qed

text \<open>\<open>next_event\<close> goes round only when an attempt was discarded.\<close>

lemma next_event_loop_post:
  assumes "next_event_loop w s = Some (r, s')" "Pre s"
  shows "\<exists>pulled t. Post s (map_sum (\<lambda>e. e) Some pulled) t
    \<and> (case pulled of Inl e \<Rightarrow> r = Err e \<and> s' = t | Inr outcome \<Rightarrow> deliver_outcome w outcome t = Some (r, s'))"
proof -
  let ?Q = "\<lambda>w s y. \<exists>pulled t. Post s (map_sum (\<lambda>e. e) Some pulled) t
    \<and> (case pulled of Inl e \<Rightarrow> y = (Err e, t) | Inr outcome \<Rightarrow> deliver_outcome w outcome t = Some y)"
  have "Pre s \<longrightarrow> ?Q w s (r, s')"
  proof (rule next_event_loop.raw_induct [where P = "\<lambda>w s y. Pre s \<longrightarrow> ?Q w s y", OF _ assms(1)])
    fix p w s and y :: "(EngineError + CoordinatedEvent option) \<times> Session"
    assume IH: "\<And>w s y. p w s = Some y \<Longrightarrow> Pre s \<longrightarrow> ?Q w s y"
      and body: "Option.bind (pull w s)
       (\<lambda>(pulled, s). case pulled of
          Inl e \<Rightarrow> Some (Err e, s)
        | Inr outcome \<Rightarrow> (case deliver_outcome w outcome s of None \<Rightarrow> p w s | Some result \<Rightarrow> Some result)) = Some y"
    obtain pulled t where pull: "pull w s = Some (pulled, t)" using body by (cases "pull w s") auto
    show "Pre s \<longrightarrow> ?Q w s y"
    proof
      assume pre: "Pre s"
      note post = pull_post [OF pull pre]
      show "?Q w s y"
      proof (cases "pulled = Inr PullAttemptDiscarded")
        case True
        then have "?Q w t y" using IH [of w t y] body pull again [OF pre post] by simp
        then show ?thesis using chain [OF post] True by auto
      next
        case False
        have "deliver_outcome w out t \<noteq> None" if "pulled = Inr out" for out
          using False that by (cases out) (simp_all add: split_beta Let_def)
        then show ?thesis using post body pull by (auto split: sum.splits option.splits)
      qed
    qed
  qed
  then show ?thesis using assms(2) by (auto split: sum.splits)
qed

lemma collect_loop_post:
  assumes "collect_loop w events s = Some (r, s')" "Pre s"
  shows "\<exists>pulled t. Post s (map_sum (\<lambda>e. e) Some pulled) t \<and> collected w pulled t r s'"
proof -
  let ?Q = "\<lambda>w s y. \<exists>pulled t. Post s (map_sum (\<lambda>e. e) Some pulled) t \<and> collected w pulled t (fst y) (snd y)"
  have "Pre s \<longrightarrow> ?Q w s (r, s')"
  proof (rule collect_loop.raw_induct [where P = "\<lambda>w events s y. Pre s \<longrightarrow> ?Q w s y", OF _ assms(1)])
    fix p w events s and y :: "(EngineError + ProviderEvent list) \<times> Session"
    assume IH: "\<And>w events s y. p w events s = Some y \<Longrightarrow> Pre s \<longrightarrow> ?Q w s y"
      and body: "Option.bind (pull w s)
       (\<lambda>(pulled, s). case pulled of
          Inl e \<Rightarrow> Some (Err e, s)
        | Inr (PullEvents batch) \<Rightarrow> p w (events @ batch) s
        | Inr PullAttemptDiscarded \<Rightarrow> p w [] s
        | Inr (PullTerminalFailure _ error send_state) \<Rightarrow>
            Some (Err (provider_engine_error error), finish_provider_error_with_send_state w error send_state s)
        | Inr PullEnd \<Rightarrow>
            if events = [] then Some (Err InvalidDeliveryState, s)
            else Some (Ok events, s\<lparr>s_delivery_pending := True\<rparr>)) = Some y"
    obtain pulled t where pull: "pull w s = Some (pulled, t)" using body by (cases "pull w s") auto
    show "Pre s \<longrightarrow> ?Q w s y"
    proof
      assume pre: "Pre s"
      note post = pull_post [OF pull pre]
      show "?Q w s y"
      proof (cases "goes_on (map_sum (\<lambda>e. e) Some pulled)")
        case True
        then obtain es where "p w es t = Some y" using body pull by (cases pulled; cases "projr pulled") auto
        then have "?Q w t y" using IH again [OF pre post True] by blast
        then show ?thesis using chain [OF post True] by blast
      next
        case False
        have "collected w pulled t (fst y) (snd y)"
          using False body pull by (cases pulled; cases "projr pulled") (auto split: if_splits)
        then show ?thesis using post by blast
      qed
    qed
  qed
  then show ?thesis using assms(2) by simp
qed

end

section \<open>The contract holds\<close>

lemma turn_chain:
  assumes "turn False same s r t" "goes_on r" "turn False same t r' u"
  shows "turn False same s r' u"
proof -
  obtain out where "r = Inr out" using assms(2) by (cases r) simp_all
  then have "advances s t" "delivery t = delivery s" "same \<longrightarrow> s_attempts t = s_attempts s"
    using assms(1) by (simp_all add: turn_def)
  then show ?thesis using assms(3) advances_trans by (auto simp: turn_def split: sum.splits)
qed

lemma ready_again: "ready s \<Longrightarrow> turn False same s r t \<Longrightarrow> goes_on r \<Longrightarrow> ready t"
  by (cases r) (auto simp: turn_def ready_def delivery_def)

interpretation invariant: pull_contract ready "turn False False"
proof
  show "ready s \<Longrightarrow> pull_step w s = (r, s') \<Longrightarrow> turn False False s r s'" for s w r s'
    using pull_step_turn by blast
qed (blast intro: ready_again turn_chain)+

text \<open>Once something was delivered, the loops keep to the attempt at hand.\<close>

definition committed :: "Session \<Rightarrow> bool" where
  "committed s \<longleftrightarrow> ready s \<and> s_downstream_committed_at s \<noteq> None"

lemma committed_current: "committed s \<Longrightarrow> s_current s \<noteq> None"
  by (auto simp: committed_def ready_def running_def undelivered_def)

interpretation committed: pull_contract committed "turn False True"
proof
  fix s w r s' assume "committed s" "pull_step w s = (r, s')"
  then show "turn False True s r s'"
    using committed_current [of s] poll_turn_turn [of s w r s' True]
    by (auto simp: committed_def ready_def pull_step_def)
next
  fix s r s' assume a: "committed s" "turn False True s r s'" "goes_on r"
  then have "ready s'" "advances s s'" using ready_again by (auto simp: committed_def turn_def)
  then show "committed s'" using a(1) by (auto simp: committed_def advances_def)
qed (rule turn_chain)

text \<open>The turns of a running session take time.\<close>

definition later :: "Session \<Rightarrow> EngineError + PullOutcome option \<Rightarrow> Session \<Rightarrow> bool" where
  "later s r s' \<longleftrightarrow> turn False False s r s' \<and> (goes_on r \<longrightarrow> s_tick s < s_tick s')"

interpretation clock: pull_contract ready later
proof
  fix s w r s' assume "ready s" "pull_step w s = (r, s')"
  then show "later s r s'" using pull_step_turn [of s w r s'] by (cases r) (auto simp: later_def)
next
  fix s r t r' u assume a: "later s r t" "goes_on r" "later t r' u"
  then have "turn False False s r' u" using turn_chain by (auto simp: later_def)
  then show "later s r' u" using a by (auto simp: later_def)
qed (auto simp: later_def intro: ready_again)


section \<open>The public operations keep the invariant\<close>

lemma resume_inv: "session_inv s \<Longrightarrow> resume_finalization w s = s"
  by (auto simp: session_inv_def running_def settled_def live_def is_finalized_def resume_finalization_def)

lemma settle_from:
  assumes "live s" "log_ok s" "attempts_ok s" "ended_well s t" shows "settled t"
proof -
  have "attempts_ok t"
    using assms by (intro attempts_ok_kept [of s t]) (simp_all add: ended_well_def)
  then show ?thesis using assms by (simp add: settled_def ended_well_def is_finalized_def)
qed

text \<open>Fields the invariant does not read.\<close>

lemma log_ok_fields [simp]:
  "log_ok (s\<lparr>s_pending_terminal_failure := p\<rparr>) = log_ok s" "log_ok (s\<lparr>s_delivery_pending := b\<rparr>) = log_ok s"
  "log_ok (s\<lparr>s_downstream_committed_at := c\<rparr>) = log_ok s" "log_ok (s\<lparr>s_client_status_code := k\<rparr>) = log_ok s"
  by (simp_all add: log_ok_def written_states_def attempt_numbers_def finalizations_def)

lemma attempts_ok_fields [simp]:
  "attempts_ok (s\<lparr>s_pending_terminal_failure := p\<rparr>) = attempts_ok s"
  "attempts_ok (s\<lparr>s_delivery_pending := b\<rparr>) = attempts_ok s"
  "attempts_ok (s\<lparr>s_downstream_committed_at := c\<rparr>) = attempts_ok s"
  "attempts_ok (s\<lparr>s_client_status_code := k\<rparr>) = attempts_ok s"
  "attempts_ok (s\<lparr>s_send_state_watermark := x\<rparr>) = attempts_ok s"
  by (simp_all add: attempts_ok_def bound_attempt_def honours_request_def)

lemma pinned_fields [simp]:
  "pinned_accounts (s\<lparr>s_pending_terminal_failure := p\<rparr>) = pinned_accounts s"
  "pinned_accounts (s\<lparr>s_delivery_pending := b\<rparr>) = pinned_accounts s"
  "pinned_accounts (s\<lparr>s_downstream_committed_at := c\<rparr>) = pinned_accounts s"
  "pinned_accounts (s\<lparr>s_client_status_code := k\<rparr>) = pinned_accounts s"
  "honours_request (s\<lparr>s_pending_terminal_failure := p\<rparr>) = honours_request s"
  "honours_request (s\<lparr>s_delivery_pending := b\<rparr>) = honours_request s"
  "honours_request (s\<lparr>s_downstream_committed_at := c\<rparr>) = honours_request s"
  "honours_request (s\<lparr>s_client_status_code := k\<rparr>) = honours_request s"
  by (simp_all add: pinned_accounts_def honours_request_def fun_eq_iff)

lemma live_fields [simp]:
  "live (s\<lparr>s_pending_terminal_failure := p\<rparr>) = live s" "live (s\<lparr>s_delivery_pending := b\<rparr>) = live s"
  "live (s\<lparr>s_downstream_committed_at := c\<rparr>) = live s" "live (s\<lparr>s_client_status_code := k\<rparr>) = live s"
  by (simp_all add: live_def)

lemma settled_fields [simp]:
  "settled (s\<lparr>s_pending_terminal_failure := p\<rparr>) = settled s" "settled (s\<lparr>s_delivery_pending := b\<rparr>) = settled s"
  "settled (s\<lparr>s_client_status_code := k\<rparr>) = settled s" "settled (s\<lparr>s_send_state_watermark := x\<rparr>) = settled s"
  by (simp_all add: settled_def is_finalized_def written_states_def attempt_numbers_def finalizations_def)

lemma running_pending:
  "running t \<Longrightarrow> s_current t \<noteq> None \<or> s_pending_terminal_failure t \<noteq> None \<Longrightarrow> running (t\<lparr>s_delivery_pending := True\<rparr>)"
  by (simp add: running_def undelivered_def)

lemma running_terminal:
  "running t \<Longrightarrow> s_downstream_committed_at t \<noteq> None \<Longrightarrow> running (t\<lparr>s_pending_terminal_failure := Some x\<rparr>)"
  "running t \<Longrightarrow> running (t\<lparr>s_delivery_pending := True, s_pending_terminal_failure := Some x\<rparr>)"
  by (simp_all add: running_def undelivered_def)

lemma running_status [simp]: "running (s\<lparr>s_client_status_code := k\<rparr>) = running s"
  by (simp add: running_def undelivered_def)

lemma settled_finish:
  assumes "settled s" shows "settled (finish_provider_error_with_send_state w e st s)"
proof -
  obtain v t where r: "raise_send_watermark w st s = (v, t)" by fastforce
  have t: "t = s\<lparr>s_send_state_watermark := v\<rparr>" by (rule raise_watermark_facts(5) [OF r])
  then have "settled t" using assms by simp
  then have "is_finalized t" by (simp add: settled_def)
  with \<open>settled t\<close> show ?thesis unfolding finish_provider_error_with_send_state_def r Let_def prod.case
    by (simp add: finish_failure_def)
qed

lemma settled_terminal:
  assumes "session_inv s"
  shows "settled (finish_provider_error_with_send_state w e st (s\<lparr>s_pending_terminal_failure := None\<rparr>))"
proof (cases "running s")
  case True
  define u where "u = s\<lparr>s_pending_terminal_failure := None\<rparr>"
  have "live u" "log_ok u" "attempts_ok u" using True by (simp_all add: u_def running_def)
  then show ?thesis using settle_from finish_with_send_state_well unfolding u_def [symmetric] by blast
next
  case False
  then show ?thesis using assms by (intro settled_finish) (simp add: session_inv_def)
qed

lemma deliver_outcome_inv:
  assumes out: "turn False same s (Ok (Some outcome)) t" and d: "deliver_outcome w outcome t = Some (r, s')"
    and rdy: "\<not> s_delivery_pending s"
  shows "session_inv s' \<and> (\<forall>e. r \<noteq> Inl e) \<and> s_attempts s' = s_attempts t"
proof -
  have run: "running t" and ok: "outcome_ok (Some outcome) t" and del: "delivery t = delivery s"
    using out by (simp_all add: turn_def)
  obtain q u where req: "delivery_requirement t = (q, u)" by fastforce
  have u: "u = t \<and> s_downstream_committed_at t \<noteq> None \<or> u = t\<lparr>s_delivery_pending := True\<rparr>"
    using req by (auto simp: delivery_requirement_def split: if_splits)
  have run_u: "running u" if "s_current t \<noteq> None \<or> s_pending_terminal_failure t \<noteq> None"
    using u run that running_pending by auto
  have run_p: "running (u\<lparr>s_pending_terminal_failure := Some x\<rparr>)" for x
    using u run running_terminal by auto
  have att: "s_attempts u = s_attempts t" using u by auto
  show ?thesis
  proof (cases outcome)
    case (PullEvents events)
    then have "r = Ok (Some \<lparr>ce_events = events, ce_commit_requirement = q\<rparr>)" "s' = u"
      using d ok by (simp_all add: req try_batch_def)
    then show ?thesis using run_u ok PullEvents att by (simp add: session_inv_def)
  next
    case PullAttemptDiscarded then show ?thesis using d by simp
  next
    case (PullTerminalFailure events e st)
    then have "r = Ok (Some \<lparr>ce_events = events, ce_commit_requirement = q\<rparr>)"
      "s' = u\<lparr>s_pending_terminal_failure := Some \<lparr>pt_error = e, pt_send_state = st\<rparr>\<rparr>"
      using d ok by (simp_all add: req try_batch_def)
    then show ?thesis using run_p att by (simp add: session_inv_def)
  next
    case PullEnd
    then have "r = Ok None" "s' = (if is_some (s_downstream_committed_at t) then finish_success w t else t)" using d by simp_all
    then show ?thesis using run settled_well [OF run finish_success_well] finish_success_well [of t w]
      by (auto simp: session_inv_def ended_well_def)
  qed
qed

lemma session_inv_ready:
  "session_inv s \<Longrightarrow> \<not> is_finalized s \<Longrightarrow> \<not> s_delivery_pending s \<Longrightarrow> s_pending_terminal_failure s = None \<Longrightarrow> ready s"
  by (auto simp: session_inv_def ready_def settled_def)

lemma next_event_inv:
  assumes inv: "session_inv s" and n: "next_event w s = Some (r, s')"
  shows "session_inv s' \<and> (\<forall>e. r = Inl e \<longrightarrow> is_finalized s' \<or> e = DownstreamCommitRequired)"
proof -
  note eq = n [unfolded next_event_def resume_inv [OF inv] Let_def]
  consider "s_delivery_pending s" | p where "\<not> s_delivery_pending s" "s_pending_terminal_failure s = Some p"
    | "\<not> s_delivery_pending s" "s_pending_terminal_failure s = None" "is_finalized s"
    | "\<not> s_delivery_pending s" "s_pending_terminal_failure s = None" "\<not> is_finalized s"
    by (cases "s_pending_terminal_failure s") auto
  then show ?thesis
  proof cases
    case 1 then show ?thesis using eq inv by auto
  next
    case 2 then show ?thesis using eq settled_terminal [OF inv] by (auto simp: session_inv_def settled_def)
  next
    case 3 then show ?thesis using eq inv by auto
  next
    case 4
    then have "next_event_loop w s = Some (r, s')" using eq by simp
    from invariant.next_event_loop_post [OF this session_inv_ready [OF inv 4(3,1,2)]]
    obtain pulled t where post: "turn False False s (map_sum (\<lambda>e. e) Some pulled) t"
      and res: "case pulled of Inl e \<Rightarrow> r = Err e \<and> s' = t | Inr outcome \<Rightarrow> deliver_outcome w outcome t = Some (r, s')"
      by blast
    show ?thesis
    proof (cases pulled)
      case (Inl e)
      then have "settled s'" using post res by (auto simp: turn_def)
      then show ?thesis by (auto simp: session_inv_def settled_def)
    next
      case (Inr out)
      then show ?thesis using deliver_outcome_inv [of False s out t w r s'] post res 4 by simp
    qed
  qed
qed

lemma collect_inv:
  assumes inv: "session_inv s" and c: "collect_uncommitted w s = Some (r, s')"
  shows "session_inv s'"
proof (cases "is_some (s_downstream_committed_at s) \<or> s_delivery_pending s \<or> is_finalized s")
  case True
  then have "s' = s" using c unfolding collect_uncommitted_def resume_inv [OF inv] Let_def by (auto split: if_splits)
  then show ?thesis using inv by simp
next
  case False
  then have run: "running s" using inv by (auto simp: session_inv_def settled_def)
  have loop: "collect_loop w [] s = Some (r, s')"
    using c False unfolding collect_uncommitted_def resume_inv [OF inv] Let_def by (simp split: if_splits)
  have "ready s" using run False by (auto simp: ready_def running_def undelivered_def)
  from invariant.collect_loop_post [OF loop this] obtain pulled t where post: "turn False False s (map_sum (\<lambda>e. e) Some pulled) t" and col: "collected w pulled t r s'"
    by blast
  show ?thesis
  proof (cases pulled)
    case (Inl e) then show ?thesis using post col by (auto simp: turn_def session_inv_def)
  next
    case (Inr out)
    then have t: "running t" "outcome_ok (Some out) t" using post by (simp_all add: turn_def)
    show ?thesis
    proof (cases out)
      case (PullTerminalFailure es e st)
      then show ?thesis using col Inr settled_well [OF t(1) finish_with_send_state_well] t(1) by (simp add: session_inv_def)
    next
      case PullEnd
      then have "s' = t \<or> s' = t\<lparr>s_delivery_pending := True\<rparr>" using col Inr by auto
      then show ?thesis using t PullEnd running_pending by (auto simp: session_inv_def)
    qed (use col Inr in simp_all)
  qed
qed

lemma log_ok_plain: "plain_write op \<Longrightarrow> log_ok s \<Longrightarrow> log_ok (store_when b w op s)"
  using quiet_plain_write [of op s b w] by (simp add: steady_def)

lemma running_plain: "plain_write op \<Longrightarrow> running s \<Longrightarrow> running (store_when b w op s)"
  using running_quiet quiet_plain_write by blast

lemma settled_plain: "plain_write op \<Longrightarrow> settled s \<Longrightarrow> settled (store_when b w op s)"
  using plain_write_facts [of op]
  by (simp add: settled_def store_when_def store_write_def is_finalized_def attempts_ok_def bound_attempt_def
      honours_request_def written_states_def attempt_numbers_def finalizations_def)

lemma commit_inv:
  assumes inv: "session_inv s" and c: "commit_downstream w code s = (r, s')"
  shows "session_inv s'"
proof (cases "\<not> s_delivery_pending s \<or> is_some (s_downstream_committed_at s) \<or> is_finalized s")
  case True then show ?thesis using c inv by (auto simp: commit_downstream_def)
next
  case False
  then have run: "running s" using inv by (auto simp: session_inv_def settled_def)
  define t where "t = store_when (s_request_persisted s) w (MarkDownstreamCommitted (now_of w s) code) s"
  define u where "u = t\<lparr>s_downstream_committed_at := Some (now_of w s), s_client_status_code := code, s_delivery_pending := False\<rparr>"
  have q: "quiet s t" unfolding t_def by (rule quiet_plain_write) simp
  have "running t" by (rule running_quiet [OF run q])
  moreover have "s_delivery_pending t" using False q by (simp add: steady_def control_def)
  ultimately have runu: "running u" by (auto simp: u_def running_def undelivered_def)
  have "s' = (if s_upstream_complete u then finish_success w u else u)"
    using c False unfolding commit_downstream_def Let_def t_def [symmetric] u_def [symmetric] by simp
  then show ?thesis using runu settled_well [OF runu finish_success_well] by (simp add: session_inv_def)
qed

lemma running_discard:
  "running s \<Longrightarrow> s_downstream_committed_at s = None \<Longrightarrow> s_pending_terminal_failure s = None \<Longrightarrow>
     running (s\<lparr>s_delivery_pending := False\<rparr>)"
  by (simp add: running_def undelivered_def)

lemma discard_inv: "session_inv s \<Longrightarrow> discard_pending_delivery s = (r, s') \<Longrightarrow> session_inv s'"
  using running_discard [of s]
  by (auto simp: discard_pending_delivery_def session_inv_def split: if_splits)

lemma status_inv: "session_inv s \<Longrightarrow> record_client_status w code s = (r, s') \<Longrightarrow> session_inv s'"
  using running_plain [of "RecordClientStatus code" s] settled_plain [of "RecordClientStatus code" s]
  by (auto simp: record_client_status_def session_inv_def split: if_splits)

lemma cancel_inv:
  assumes inv: "session_inv s" shows "settled (cancel_and_finalize w s)"
proof (cases "is_finalized s")
  case True
  then have "settled s" using inv by (auto simp: session_inv_def running_def live_def is_finalized_def)
  then show ?thesis using True unfolding cancel_and_finalize_def resume_inv [OF inv] Let_def by simp
next
  case False
  define t where "t = s\<lparr>s_delivery_pending := False\<rparr>"
  have run: "running s" using False inv by (auto simp: session_inv_def settled_def)
  have eq: "cancel_and_finalize w s = (case s_pending_terminal_failure t of
          Some pending \<Rightarrow>
            finish_provider_error_with_send_state w (pt_error pending) (pt_send_state pending)
              (t\<lparr>s_pending_terminal_failure := None\<rparr>)
        | None \<Rightarrow> finish_interruption w EngineCancelled t)"
    using False unfolding cancel_and_finalize_def resume_inv [OF inv] Let_def t_def by simp
  have t: "live t" "log_ok t" "attempts_ok t" using run by (simp_all add: t_def running_def)
  then have "live (t\<lparr>s_pending_terminal_failure := None\<rparr>)" "log_ok (t\<lparr>s_pending_terminal_failure := None\<rparr>)"
    "attempts_ok (t\<lparr>s_pending_terminal_failure := None\<rparr>)" by simp_all
  note provider = settle_from [OF this finish_with_send_state_well [OF this(1)]]
  show ?thesis unfolding eq using settle_from [OF t finish_interruption_well [OF t(1)]] provider
    by (cases "s_pending_terminal_failure t") (simp_all del: settled_fields)
qed


section \<open>Reachable sessions\<close>

text \<open>A caller drives a session through its public operations, in any order, and time may pass between
  the calls. A call that never returns has no successor.\<close>

inductive session_step :: "World \<Rightarrow> Session \<Rightarrow> Session \<Rightarrow> bool" for w :: World where
  Next: "next_event w s = Some (r, s') \<Longrightarrow> session_step w s s'"
| Collect: "collect_uncommitted w s = Some (r', s') \<Longrightarrow> session_step w s s'"
| Commit: "commit_downstream w code s = (r'', s') \<Longrightarrow> session_step w s s'"
| Discard: "discard_pending_delivery s = (r'', s') \<Longrightarrow> session_step w s s'"
| Status: "record_client_status w status_code s = (r'', s') \<Longrightarrow> session_step w s s'"
| Cancel: "session_step w s (cancel_and_finalize w s)"
| Wait: "session_step w s (tick s)"

inductive_cases session_stepE: "session_step w s s'"

inductive reachable :: "World \<Rightarrow> Session \<Rightarrow> bool" for w :: World where
  Start: "start_with_account_selection w request op plan selection continuation observation has_policy
     effects_baseline = Ok s \<Longrightarrow> reachable w s"
| Step: "reachable w s \<Longrightarrow> session_step w s s' \<Longrightarrow> reachable w s'"

lemma new_session_running:
  "running (new_Session w request op plan selection continuation observation has_policy baseline index)"
  by (simp add: new_Session_def running_def live_def log_ok_def written_states_def attempt_numbers_def
      finalizations_def attempts_ok_def pinned_accounts_def undelivered_def)

lemma start_running:
  "start_with_account_selection w request op plan selection continuation observation has_policy baseline = Ok s
     \<Longrightarrow> running s"
  using new_session_running
  by (auto simp: start_with_account_selection_def Let_def split: sum.splits if_splits)

lemma tick_inv: "session_inv s \<Longrightarrow> session_inv (tick s)"
proof -
  have "running s \<Longrightarrow> running (tick s)" using running_quiet [OF _ quiet_tick] .
  moreover have "settled s \<Longrightarrow> settled (tick s)"
    by (simp add: settled_def is_finalized_def attempts_ok_def bound_attempt_def
      honours_request_def written_states_def attempt_numbers_def finalizations_def)
  ultimately show "session_inv s \<Longrightarrow> session_inv (tick s)" by (auto simp: session_inv_def)
qed

lemma step_inv:
  assumes "session_step w s s'" and inv: "session_inv s" shows "session_inv s'"
  using assms(1)
proof cases
  case Next then show ?thesis using next_event_inv [OF inv] by blast
next
  case Collect then show ?thesis by (rule collect_inv [OF inv])
next
  case Commit then show ?thesis by (rule commit_inv [OF inv])
next
  case Discard then show ?thesis by (rule discard_inv [OF inv])
next
  case Status then show ?thesis by (rule status_inv [OF inv])
next
  case Cancel then show ?thesis using cancel_inv [OF inv] by (simp add: session_inv_def)
next
  case Wait then show ?thesis using tick_inv [OF inv] by simp
qed

lemma reachable_inv: "reachable w s \<Longrightarrow> session_inv s"
proof (induction rule: reachable.induct)
  case Start then show ?case using start_running by (simp add: session_inv_def)
next
  case Step then show ?case by (blast intro: step_inv)
qed



section \<open>What a request stays bound to\<close>

text \<open>No operation changes whose request a session serves: its id, its client key, its deadline, its frozen plan, the
  account it must use and the continuation it was started with.\<close>

definition same_request :: "Session \<Rightarrow> Session \<Rightarrow> bool" where
  "same_request s s' \<longleftrightarrow>
     s_request_id s' = s_request_id s \<and> s_client_api_key_ref s' = s_client_api_key_ref s
     \<and> s_deadline s' = s_deadline s \<and> s_plan s' = s_plan s
     \<and> s_account_selection s' = s_account_selection s \<and> s_continuation s' = s_continuation s"

lemma same_request_refl [simp]: "same_request s s"
  by (simp add: same_request_def)

lemma same_request_trans: "same_request s t \<Longrightarrow> same_request t u \<Longrightarrow> same_request s u"
  by (simp add: same_request_def)

lemma advances_same_request: "advances s t \<Longrightarrow> same_request s t"
  by (simp add: advances_def same_request_def)

lemma ended_same_request: "ended_well s t \<Longrightarrow> same_request s t"
  by (simp add: ended_well_def advances_same_request)

lemma same_request_fields [simp]:
  "same_request s (t\<lparr>s_pending_terminal_failure := p\<rparr>) = same_request s t"
  "same_request s (t\<lparr>s_delivery_pending := b\<rparr>) = same_request s t"
  "same_request (t\<lparr>s_pending_terminal_failure := p\<rparr>) s = same_request t s"
  "same_request (t\<lparr>s_delivery_pending := b\<rparr>) s = same_request t s"
  by (simp_all add: same_request_def)

lemma requirement_same_request: "delivery_requirement t = (q, u) \<Longrightarrow> same_request t u"
  by (auto simp: delivery_requirement_def split: if_splits)

lemma deliver_same_request:
  assumes "deliver_outcome w outcome t = Some (r, s')" "running t"
  shows "same_request t s'"
proof -
  have "same_request t (finish_success w t)"
    using assms(2) by (intro ended_same_request finish_success_well) (simp add: running_def)
  then show ?thesis
    using assms(1) requirement_same_request by (cases outcome) (auto split: prod.splits if_splits)
qed

lemma running_step_request:
  assumes "running s" "session_step w s s'" shows "same_request s s'"
proof -
  have inv: "session_inv s" and live: "live s" and nf: "\<not> is_finalized s"
    using assms(1) by (auto simp: session_inv_def running_def live_def is_finalized_def)
  have provider: "same_request t (finish_provider_error_with_send_state w e st t)" if "live t" for t e st
    using that by (intro ended_same_request finish_with_send_state_well)
  have terminal: "same_request s (finish_provider_error_with_send_state w e st (s\<lparr>s_pending_terminal_failure := None\<rparr>))"
    "same_request s (finish_provider_error_with_send_state w e st
       (s\<lparr>s_delivery_pending := False, s_pending_terminal_failure := None\<rparr>))" for e st
    using provider[of "s\<lparr>s_pending_terminal_failure := None\<rparr>" e st]
      provider[of "s\<lparr>s_delivery_pending := False, s_pending_terminal_failure := None\<rparr>" e st] live by simp_all
  from assms(2) show ?thesis
  proof cases
    case (Next r)
    consider "s_delivery_pending s \<or> s_pending_terminal_failure s \<noteq> None"
      | "\<not> s_delivery_pending s" "s_pending_terminal_failure s = None" by blast
    then show ?thesis
    proof cases
      case 1
      then show ?thesis
        using Next terminal(1) unfolding next_event_def resume_inv [OF inv] Let_def by (auto split: if_splits)
    next
      case 2
      then have "next_event_loop w s = Some (r, s')"
        using Next nf unfolding next_event_def resume_inv [OF inv] Let_def by simp
      from invariant.next_event_loop_post [OF this session_inv_ready [OF inv nf 2]]
      obtain pulled t where post: "turn False False s (map_sum (\<lambda>e. e) Some pulled) t"
        and res: "case pulled of Inl e \<Rightarrow> r = Err e \<and> s' = t | Inr outcome \<Rightarrow> deliver_outcome w outcome t = Some (r, s')"
        by blast
      have "same_request s t" using post by (intro advances_same_request) (simp add: turn_def)
      moreover have "same_request t s'"
        using post res deliver_same_request by (cases pulled) (auto simp: turn_def)
      ultimately show ?thesis by (rule same_request_trans)
    qed
  next
    case (Collect r)
    show ?thesis
    proof (cases "is_some (s_downstream_committed_at s) \<or> s_delivery_pending s")
      case True
      then show ?thesis using Collect unfolding collect_uncommitted_def resume_inv [OF inv] Let_def by (auto split: if_splits)
    next
      case False
      then have "collect_loop w [] s = Some (r, s')"
        using Collect nf unfolding collect_uncommitted_def resume_inv [OF inv] Let_def by (simp split: if_splits)
      moreover have "ready s" using assms(1) False by (auto simp: ready_def running_def undelivered_def)
      ultimately obtain pulled t where post: "turn False False s (map_sum (\<lambda>e. e) Some pulled) t"
        and col: "collected w pulled t r s'"
        using invariant.collect_loop_post by blast
      have "same_request s t" using post by (intro advances_same_request) (simp add: turn_def)
      moreover have "same_request t s'"
      proof (cases pulled)
        case (Inr out)
        then have "live t" using post by (simp add: turn_def running_def)
        then show ?thesis using col Inr provider by (cases out) auto
      qed (use col in simp)
      ultimately show ?thesis by (rule same_request_trans)
    qed
  next
    case (Commit code r)
    define u where "u = (store_when (s_request_persisted s) w (MarkDownstreamCommitted (now_of w s) code) s)
      \<lparr>s_downstream_committed_at := Some (now_of w s), s_client_status_code := code, s_delivery_pending := False\<rparr>"
    have u: "live u" "same_request s u"
      using live by (simp_all add: u_def store_when_def store_write_def live_def same_request_def)
    have "s' = s \<or> s' = u \<or> s' = finish_success w u"
      using Commit unfolding commit_downstream_def Let_def u_def by (auto split: if_splits)
    then show ?thesis
      using u same_request_trans [OF u(2) ended_same_request [OF finish_success_well [OF u(1)]]] by auto
  next
    case Discard
    then show ?thesis by (auto simp: discard_pending_delivery_def split: if_splits)
  next
    case Status
    then show ?thesis
      by (auto simp: record_client_status_def store_when_def store_write_def same_request_def split: if_splits)
  next
    case Cancel
    have "same_request s (finish_interruption w EngineCancelled (s\<lparr>s_delivery_pending := False\<rparr>))"
      using ended_same_request [OF finish_interruption_well [of "s\<lparr>s_delivery_pending := False\<rparr>" w EngineCancelled]] live
      by simp
    then show ?thesis
      using Cancel nf terminal(2) unfolding cancel_and_finalize_def resume_inv [OF inv] Let_def
      by (auto split: option.splits)
  next
    case Wait
    then show ?thesis by (simp add: same_request_def)
  qed
qed


section \<open>What a finished session still owes\<close>

text \<open>The charge of a finished session is fixed: no operation and no time that passes changes it.\<close>

definition same_charge :: "Session \<Rightarrow> Session \<Rightarrow> bool" where
  "same_charge s s' \<longleftrightarrow>
     s_finalization s' = s_finalization s \<and> s_finalized_at s' = s_finalized_at s
     \<and> s_budget_prior_attempts_usd s' = s_budget_prior_attempts_usd s
     \<and> s_budget_attempt_already_counted s' = s_budget_attempt_already_counted s
     \<and> s_observation s' = s_observation s
     \<and> same_request s s'"

lemma same_charge_refl [simp]: "same_charge s s"
  by (simp add: same_charge_def)

lemma same_charge_keeps:
  assumes "same_charge s s'" "settled s"
  shows "is_finalized s' \<and> budget_charge w s' = budget_charge w s"
proof -
  obtain ended_at where "s_finalized_at s = Some ended_at" using assms(2) by (auto simp: settled_def)
  then show ?thesis
    using assms by (simp add: same_charge_def same_request_def settled_def is_finalized_def budget_charge_def budget_attempt_usd_def)
qed

lemma settled_finish_charge:
  assumes "settled s" shows "same_charge s (finish_provider_error_with_send_state w e st s)"
proof -
  obtain v t where r: "raise_send_watermark w st s = (v, t)" by fastforce
  have t: "t = s\<lparr>s_send_state_watermark := v\<rparr>" by (rule raise_watermark_facts(5) [OF r])
  then have "is_finalized t" using assms by (simp add: settled_def is_finalized_def)
  then show ?thesis
    unfolding finish_provider_error_with_send_state_def r Let_def prod.case
    by (simp add: finish_failure_def t same_charge_def same_request_def)
qed

lemma finished_step:
  assumes "settled s" "session_step w s s'" shows "same_charge s s'"
proof -
  have fin: "is_finalized s" and inv: "session_inv s" using assms(1) by (simp_all add: settled_def session_inv_def)
  have terminal: "same_charge s (finish_provider_error_with_send_state w e st (s\<lparr>s_pending_terminal_failure := None\<rparr>))" for e st
    using settled_finish_charge [of "s\<lparr>s_pending_terminal_failure := None\<rparr>" w e st] assms(1)
    by (simp add: same_charge_def)
  from assms(2) show ?thesis
  proof cases
    case Next
    then show ?thesis
      using fin terminal unfolding next_event_def resume_inv [OF inv] Let_def
      by (auto split: if_splits option.splits)
  next
    case Collect
    then show ?thesis
      using fin unfolding collect_uncommitted_def resume_inv [OF inv] Let_def by (auto split: if_splits)
  next
    case Commit
    then show ?thesis using fin by (simp add: commit_downstream_def)
  next
    case Discard
    then show ?thesis using fin by (simp add: discard_pending_delivery_def)
  next
    case Status
    then show ?thesis
      by (auto simp: record_client_status_def store_when_def store_write_def same_charge_def same_request_def split: if_splits)
  next
    case Cancel
    then show ?thesis using fin unfolding cancel_and_finalize_def resume_inv [OF inv] Let_def by simp
  next
    case Wait
    then show ?thesis by (simp add: same_charge_def same_request_def)
  qed
qed

lemma finished_charge_fixed:
  assumes "reachable w s" "is_finalized s" "session_step w s s'"
  shows "is_finalized s' \<and> budget_charge w s' = budget_charge w s"
proof -
  have "settled s"
    using reachable_inv [OF assms(1)] assms(2) by (auto simp: session_inv_def running_def live_def is_finalized_def)
  then show ?thesis using same_charge_keeps finished_step assms(3) by blast
qed

lemma step_same_request:
  assumes "reachable w s" "session_step w s s'" shows "same_request s s'"
  using reachable_inv [OF assms(1)] running_step_request [OF _ assms(2)] finished_step [OF _ assms(2)]
  by (auto simp: session_inv_def same_charge_def)

end
