(* ===== verification/Coordinator_Theorems.thy ===== *)
theory Coordinator_Theorems
  imports Coordinator_Loops
begin

text \<open>
  What the coordinator promises: when a failed attempt is replayed, which accounts an attempt may run
  on, what the store sees of a request, that delivery ends the retries, that failures finish the
  request, that cancellation ends every call, and that a discarded attempt is still paid for.
\<close>

section \<open>Replay\<close>

fun asks_transport :: "PreDeliveryRetry option \<Rightarrow> bool" where
  "asks_transport (Some (SameAccountConnectionRetry _)) = True"
| "asks_transport (Some (SameAccountTransportRetry _ _)) = True"
| "asks_transport (Some SameAccountTransportFallback) = True"
| "asks_transport _ = False"

lemma transport_recovery_asked:
  "transport_recovery w effect st error s = (Some x, t) \<Longrightarrow> asks_transport (pe_pre_delivery_retry error)"
  by (auto simp: transport_recovery_def Let_def split: option.splits PreDeliveryRetry.splits)

lemma plan_transport_asked:
  assumes "plan_retry w effect c error sent s = (p, t)" "rp_transport p \<noteq> None"
  shows "asks_transport (pe_pre_delivery_retry error)"
proof -
  obtain s1 s2 where "transport_recovery w effect (fst sent) error s1 = (rp_transport p, s2)"
    using assms(1) unfolding plan_retry_def Let_def by (auto simp: split_beta) (metis prod.collapse)
  then show ?thesis using assms(2) transport_recovery_asked by (cases "rp_transport p") auto
qed

lemma planned_failure_plan:
  "planned_failure w c error events s = (p, verdict, t) \<Longrightarrow>
     \<exists>effect sent s1 s2. plan_retry w effect c error sent s1 = (p, s2)"
proof -
  assume a: "planned_failure w c error events s = (p, verdict, t)"
  define s2 where "s2 = record_provider_failure (md_provider (ca_metadata c))
    (if is_some (s_request_observation (s\<lparr>s_current := None\<rparr>))
     then foldl (\<lambda>s event. observe_websocket_response event (websocket_observation_attempt c) s)
            (s\<lparr>s_current := None\<rparr>) (filter (\<lambda>event. is_some (pev_wire event)) events)
     else s\<lparr>s_current := None\<rparr>)"
  obtain sent s3 where st: "settle_send_state w c error s2 = (sent, s3)" by fastforce
  obtain p' s4 where pl: "plan_retry w (execution_effect_observed w s2) c error sent s3 = (p', s4)" by fastforce
  obtain v s5 where ap: "apply_retry_policy w (retry_facts c error p' s4) s4 = (v, s5)" by fastforce
  have "p = p'"
    using a unfolding planned_failure_def Let_def s2_def [symmetric] st prod.case pl ap by simp
  then show ?thesis using pl by blast
qed

lemma discarded_planned:
  assumes "handle_stream_error w error s = (Ok AttemptDiscarded, s')"
  obtains c events error' p t where "s_current s = Some c" "take_atomic_client_events error = (events, error')"
    "planned_failure w c error' events s = (p, Ok True, t)" "s' = discard_attempt w c error' events p t"
proof -
  obtain events error' where ev: "take_atomic_client_events error = (events, error')" by fastforce
  then obtain c where c: "s_current s = Some c"
    using assms by (auto simp: handle_stream_error_def Let_def split: option.splits)
  obtain p verdict t where pl: "planned_failure w c error' events s = (p, verdict, t)" by (metis prod_cases3)
  have "verdict = Ok True \<and> s' = discard_attempt w c error' events p t"
    using assms unfolding handle_stream_error_def ev c Let_def prod.case option.case pl
    by (auto simp: split_beta split: sum.splits bool.splits if_splits)
  with that c ev pl show ?thesis by blast
qed

lemma error_facts_kept:
  "take_atomic_client_events error = (events, error') \<Longrightarrow>
     pe_send_state error' = pe_send_state error \<and> pe_pre_delivery_retry error' = pe_pre_delivery_retry error
     \<and> provider_proved_replay_safe error' = provider_proved_replay_safe error"
  by (auto simp: take_atomic_client_events_def provider_proved_replay_safe_def)

text \<open>C1: A failed attempt is discarded, so that another one follows, only while nothing of the request was
  delivered or is about to be, no external effect was observed, the attempt's own send state is not
  ambiguous, and the provider either proved the replay safe or asked for a recovery before delivery;
  and only while the plan has routing attempts left, unless the provider asked to recover the
  transport of the same account.\<close>

theorem retry_only_when_safe:
  assumes "handle_stream_error w error s = (Ok AttemptDiscarded, s')"
  shows "\<exists>c. s_current s = Some c \<and> s_current s' = None
    \<and> s_downstream_committed_at s = None \<and> \<not> s_delivery_pending s
    \<and> \<not> execution_effect_observed w s
    \<and> (if ca_send_observed c then Sent else pe_send_state error) \<noteq> Ambiguous
    \<and> (provider_proved_replay_safe error \<or> pe_pre_delivery_retry error \<noteq> None)
    \<and> (s_routing_attempts s < plan_max_attempts (s_plan s) \<or> asks_transport (pe_pre_delivery_retry error))"
proof -
  obtain c events error' p t where c: "s_current s = Some c" and ev: "take_atomic_client_events error = (events, error')"
    and pl: "planned_failure w c error' events s = (p, Ok True, t)" and s': "s' = discard_attempt w c error' events p t"
    by (rule discarded_planned [OF assms])
  note facts = planned_failure_facts [OF pl] and same = error_facts_kept [OF ev]
  have "steady {md_account (ca_metadata c)} (s\<lparr>s_current := None\<rparr>) s'"
    unfolding s' by (rule steady_trans [OF facts(1) steady_discard])
  then have "s_current s' = None" using steady_current by fastforce
  moreover obtain effect sent s1 s2 where "plan_retry w effect c error' sent s1 = (p, s2)"
    using planned_failure_plan [OF pl] by blast
  then have "rp_transport p \<noteq> None \<Longrightarrow> asks_transport (pe_pre_delivery_retry error')"
    by (rule plan_transport_asked)
  ultimately show ?thesis using facts(2,3) same c by (auto simp: replay_guards_def undelivered_def)
qed


section \<open>Reachable sessions\<close>

text \<open>C2: Whatever the caller does and whatever the store answers, the send states written for a request
  never go back, the attempts are numbered 1, 2, 3, ... in the order they are written, and at most one
  final record is written.\<close>

theorem store_history:
  assumes "reachable w s"
  shows "sorted (written_states s) \<and> attempt_numbers s = [1..<Suc (s_attempts s)] \<and> length (finalizations s) \<le> 1"
  using reachable_inv [OF assms] unfolding session_inv_def
proof
  assume "running s"
  then have "log_ok s" by (simp add: running_def)
  then show ?thesis by (simp add: log_ok_def)
next
  assume "settled s"
  then show ?thesis unfolding settled_def by blast
qed

text \<open>C3: Every attempt a session ever owns runs on a candidate of the plan frozen for the request and on an
  account within that candidate's frozen scope (diagnostic calls bypass the scope), on the account the
  request requires if it requires one, and on the pinned account while the continuation is native; and
  the session never makes more routing attempts than the plan allows.\<close>

theorem attempts_stay_bound:
  assumes "reachable w s"
  shows "s_routing_attempts s \<le> plan_max_attempts (s_plan s) \<and> s_routing_attempts s \<le> s_attempts s
    \<and> (\<forall>c. s_current s = Some c \<longrightarrow> ca_index c = s_attempts s \<and> bound_attempt s (ca_metadata c))"
proof -
  have "attempts_ok s" using reachable_inv [OF assms] by (auto simp: session_inv_def running_def settled_def)
  then show ?thesis unfolding attempts_ok_def by blast
qed

lemma terminal_attempts:
  assumes "session_inv s"
  shows "s_attempts (finish_provider_error_with_send_state w e st (s\<lparr>s_pending_terminal_failure := None\<rparr>)) = s_attempts s"
proof (cases "is_finalized s")
  case True
  obtain v t where r: "raise_send_watermark w st (s\<lparr>s_pending_terminal_failure := None\<rparr>) = (v, t)" by fastforce
  have "t = s\<lparr>s_pending_terminal_failure := None, s_send_state_watermark := v\<rparr>" by (rule raise_watermark_facts(5) [OF r])
  then show ?thesis using True
    unfolding finish_provider_error_with_send_state_def r Let_def prod.case
    by (simp add: finish_failure_def is_finalized_def)
next
  case False
  then have "live (s\<lparr>s_pending_terminal_failure := None\<rparr>)" using assms by (auto simp: session_inv_def settled_def)
  from finish_with_send_state_well [OF this, of w e st] show ?thesis by (simp add: ended_well_def)
qed

lemma next_event_delivered:
  assumes inv: "session_inv s" and und: "\<not> undelivered s" and n: "next_event w s = Some (r, s')"
  shows "s_attempts s' = s_attempts s"
proof -
  note eq = n [unfolded next_event_def resume_inv [OF inv] Let_def]
  consider "s_delivery_pending s \<or> s_pending_terminal_failure s = None \<and> is_finalized s"
    | p where "\<not> s_delivery_pending s" "s_pending_terminal_failure s = Some p"
    | "\<not> s_delivery_pending s" "s_pending_terminal_failure s = None" "\<not> is_finalized s"
    by (cases "s_pending_terminal_failure s") auto
  then show ?thesis
  proof cases
    case 1 then show ?thesis using eq by (auto split: if_splits)
  next
    case 2 then show ?thesis using eq terminal_attempts [OF inv] by auto
  next
    case 3
    then have "next_event_loop w s = Some (r, s')" "committed s"
      using eq und session_inv_ready [OF inv] by (auto simp: committed_def undelivered_def)
    from committed.next_event_loop_post [OF this]
    obtain pulled t where post: "turn False True s (map_sum (\<lambda>e. e) Some pulled) t"
      and res: "case pulled of Inl e \<Rightarrow> r = Err e \<and> s' = t | Inr outcome \<Rightarrow> deliver_outcome w outcome t = Some (r, s')"
      by blast
    show ?thesis
    proof (cases pulled)
      case (Inl e) then show ?thesis using post res by (simp add: turn_def)
    next
      case (Inr out)
      then show ?thesis using deliver_outcome_inv [of True s out t w r s'] post res 3 by (simp add: turn_def)
    qed
  qed
qed

lemma collect_delivered:
  "session_inv s \<Longrightarrow> \<not> undelivered s \<Longrightarrow> collect_uncommitted w s = Some (r, s') \<Longrightarrow> s' = s"
  using resume_inv [of s w] by (auto simp: collect_uncommitted_def undelivered_def Let_def split: if_splits)

lemma success_attempts: "session_inv s \<Longrightarrow> s_attempts (finish_success w s) = s_attempts s"
  using finish_success_well [of s w]
  by (auto simp: session_inv_def settled_def ended_well_def finish_success_def)

lemma cancel_attempts:
  assumes "session_inv s" shows "s_attempts (cancel_and_finalize w s) = s_attempts s"
proof (cases "is_finalized s")
  case True then show ?thesis unfolding cancel_and_finalize_def resume_inv [OF assms] Let_def by simp
next
  case False
  define t where "t = s\<lparr>s_delivery_pending := False\<rparr>"
  have t: "live t" using assms False by (auto simp: session_inv_def settled_def t_def)
  have u: "live (t\<lparr>s_pending_terminal_failure := None\<rparr>)" using t by simp
  show ?thesis
    using False finish_interruption_well [OF t, of w EngineCancelled] finish_with_send_state_well [OF u]
    unfolding cancel_and_finalize_def resume_inv [OF assms] Let_def t_def [symmetric]
    by (cases "s_pending_terminal_failure t") (simp_all add: ended_well_def t_def)
qed

lemma commit_attempts:
  assumes inv: "session_inv s" and c: "commit_downstream w code s = (r, s')"
  shows "s_attempts s' = s_attempts s"
proof (cases "\<not> s_delivery_pending s \<or> is_some (s_downstream_committed_at s) \<or> is_finalized s")
  case True then show ?thesis using c by (auto simp: commit_downstream_def)
next
  case False
  define u where "u = (store_when (s_request_persisted s) w (MarkDownstreamCommitted (now_of w s) code) s)
    \<lparr>s_downstream_committed_at := Some (now_of w s), s_client_status_code := code, s_delivery_pending := False\<rparr>"
  have "live u" "s_attempts u = s_attempts s" using inv False
    by (auto simp: u_def store_when_def store_write_def session_inv_def settled_def running_def live_def)
  moreover have "s' = (if s_upstream_complete u then finish_success w u else u)"
    using c False unfolding commit_downstream_def Let_def u_def by simp
  ultimately show ?thesis using finish_success_well [of u w] by (auto simp: ended_well_def)
qed

text \<open>C11: Once a part of the response is handed out for delivery or delivered, no operation of the session
  starts another attempt.\<close>

theorem no_attempt_after_delivery:
  assumes "reachable w s" and "s_delivery_pending s \<or> s_downstream_committed_at s \<noteq> None"
    and "session_step w s s'"
  shows "s_attempts s' = s_attempts s"
proof -
  have inv: "session_inv s" by (rule reachable_inv [OF assms(1)])
  have und: "\<not> undelivered s" using assms(2) by (auto simp: undelivered_def)
  from assms(3) show ?thesis
  proof cases
    case Next then show ?thesis by (rule next_event_delivered [OF inv und])
  next
    case Collect then show ?thesis using collect_delivered [OF inv und] by blast
  next
    case Commit then show ?thesis by (rule commit_attempts [OF inv])
  next
    case Discard then show ?thesis by (auto simp: discard_pending_delivery_def split: if_splits)
  next
    case Status then show ?thesis
      by (auto simp: record_client_status_def store_when_def store_write_def split: if_splits)
  next
    case Cancel then show ?thesis using cancel_attempts [OF inv] by simp
  qed simp
qed

text \<open>C16: A failure the caller sees has finished the request: the final record was written or attempted,
  and the only error that leaves the session open is the one that asks for the pending delivery to be
  committed. Cancelling finishes the request in any state.\<close>

theorem failures_finish_the_request:
  assumes "reachable w s"
  shows "is_finalized (cancel_and_finalize w s)
    \<and> (\<forall>e s'. next_event w s = Some (Err e, s') \<longrightarrow> is_finalized s' \<or> e = DownstreamCommitRequired)"
  using next_event_inv [OF reachable_inv [OF assms]] cancel_inv [OF reachable_inv [OF assms]]
  by (auto simp: settled_def)


section \<open>Cancellation\<close>

lemma poll_turn_cancelled: "cancelled_at w (s_tick s) \<Longrightarrow> \<exists>e s'. poll_turn w s = (Inl e, s')"
  by (simp add: poll_turn_def poll_stream_item_def Let_def)

lemma bind_attempt_tick: "bind_attempt pending s = (x, t) \<Longrightarrow> s_tick t = s_tick s"
  by (auto simp: bind_attempt_def split: option.splits SessionAccountSelection.splits)

lemma resolve_tick: "resolve_profile w provider s = Inr t \<Longrightarrow> s_tick t = s_tick s"
  by (auto simp: resolve_profile_def split: if_splits option.splits sum.splits)

definition fails :: "(EngineError + 'a) \<times> Session \<Rightarrow> bool" where
  "fails x \<longleftrightarrow> (\<exists>e s'. x = (Inl e, s'))"

lemma fails_intros:
  "fails (Inl e, s)"
  "fails x \<Longrightarrow> fails y \<Longrightarrow> fails (if P then x else y)"
  "fails x \<Longrightarrow> (\<And>i. fails (f i)) \<Longrightarrow> fails (case opt of None \<Rightarrow> x | Some i \<Rightarrow> f i)"
  "(\<And>e. r = Inl e \<Longrightarrow> fails (g e)) \<Longrightarrow> (\<And>v. r = Inr v \<Longrightarrow> fails (h v)) \<Longrightarrow>
     fails (case r of Inl e \<Rightarrow> g e | Inr v \<Rightarrow> h v)"
  "fails a \<Longrightarrow> fails d \<Longrightarrow> (\<And>v. b \<noteq> WaitReady v) \<Longrightarrow>
     fails (case b of WaitCancelled \<Rightarrow> a | WaitDeadline \<Rightarrow> d | WaitReady v \<Rightarrow> k v)"
  by (auto simp: fails_def split: option.splits sum.splits Waited.splits)

lemma start_attempt_cancelled:
  assumes "cancelled_at w (s_tick s)" shows "fails (start_attempt w pending s)"
proof -
  obtain pinned transport t where b: "bind_attempt pending s = ((pinned, transport), t)" by (metis prod.collapse)
  have "poll_provider w candidate cx u \<noteq> WaitReady v" if "resolve_profile w provider t = Inr u" for provider candidate cx u v
    using assms bind_attempt_tick [OF b] resolve_tick [OF that] by (simp add: poll_provider_def)
  then show ?thesis
    unfolding start_attempt_def Let_def b prod.case by (intro fails_intros)
qed

lemma pull_step_cancelled:
  assumes "cancelled_at w (s_tick s)" shows "\<exists>e s'. pull_step w s = (Inl e, s')"
proof (cases "s_current s")
  case (Some c) then show ?thesis using poll_turn_cancelled [OF assms] by (simp add: pull_step_def)
next
  case None
  have "fails (start_attempt w pending (s\<lparr>s_pending_retry := None\<rparr>))" for pending
    using assms start_attempt_cancelled by simp
  moreover have "poll_retry_delay w d deadline (s\<lparr>s_pending_retry := None\<rparr>) \<noteq> WaitReady x" for d deadline x
    using assms by (simp add: poll_retry_delay_def)
  ultimately have "fails (prepare_attempt w s)"
    unfolding prepare_attempt_def Let_def by (intro fails_intros)
  then show ?thesis using None by (auto simp: pull_step_def fails_def)
qed

lemma pull_returns:
  assumes "\<forall>n \<ge> N. cancelled_at w n" "ready s"
  shows "pull w s \<noteq> None"
  using assms(2)
proof (induction "N - s_tick s" arbitrary: s rule: less_induct)
  case less
  obtain r t where st: "pull_step w s = (r, t)" by fastforce
  show ?case
  proof (cases "r = Inr None")
    case False then show ?thesis using st by (subst pull.simps) (auto split: sum.splits option.splits)
  next
    case True
    have "later s r t" using clock.step [OF less.prems st] .
    then have t: "s_tick s < s_tick t" "ready t" using True clock.again [OF less.prems] by (auto simp: later_def)
    have "s_tick s < N"
    proof (rule ccontr)
      assume "\<not> s_tick s < N"
      then show False using pull_step_cancelled [of w s] assms(1) st True by auto
    qed
    then show ?thesis using less.hyps [of t] t st True by (subst pull.simps) simp
  qed
qed

lemma pull_later:
  "pull w s = Some (pulled, t) \<Longrightarrow> ready s \<Longrightarrow> goes_on (map_sum (\<lambda>e. e) Some pulled) \<Longrightarrow>
     ready t \<and> s_tick s < s_tick t"
  using clock.pull_post [of w s pulled t] clock.again [of s "map_sum (\<lambda>e. e) Some pulled" t]
  by (auto simp: later_def)

lemma pull_cancelled_tick:
  assumes "\<forall>n \<ge> N. cancelled_at w n" "N \<le> s_tick s" shows "\<exists>e t. pull w s = Some (Inl e, t)"
  using assms pull_step_cancelled [of w s] by (subst pull.simps) auto

lemma next_event_loop_returns:
  assumes "\<forall>n \<ge> N. cancelled_at w n" "ready s"
  shows "next_event_loop w s \<noteq> None"
  using assms(2)
proof (induction "N - s_tick s" arbitrary: s rule: less_induct)
  case less
  obtain pulled t where pull: "pull w s = Some (pulled, t)" using pull_returns [OF assms(1) less.prems] by auto
  show ?case
  proof (cases "pulled = Inr PullAttemptDiscarded")
    case True
    then have t: "ready t" "s_tick s < s_tick t" using pull_later [OF pull less.prems] by simp_all
    have "s_tick s < N" using pull_cancelled_tick [OF assms(1), of s] pull True by (cases "s_tick s < N") auto
    then show ?thesis using less.hyps [of t] t pull True by (subst next_event_loop.simps) simp
  next
    case False
    then have "deliver_outcome w out t \<noteq> None" if "pulled = Inr out" for out
      using that by (cases out) (simp_all add: split_beta Let_def)
    then show ?thesis using pull by (subst next_event_loop.simps) (auto split: sum.splits)
  qed
qed

lemma collect_loop_returns:
  assumes "\<forall>n \<ge> N. cancelled_at w n" "ready s"
  shows "collect_loop w events s \<noteq> None"
  using assms(2)
proof (induction "N - s_tick s" arbitrary: s events rule: less_induct)
  case less
  obtain pulled t where pull: "pull w s = Some (pulled, t)" using pull_returns [OF assms(1) less.prems] by auto
  show ?case
  proof (cases "goes_on (map_sum (\<lambda>e. e) Some pulled)")
    case True
    then have t: "ready t" "s_tick s < s_tick t" using pull_later [OF pull less.prems] by simp_all
    have "s_tick s < N" using pull_cancelled_tick [OF assms(1), of s] pull True by (cases "s_tick s < N") auto
    then have again: "collect_loop w es t \<noteq> None" for es using less.hyps [of t es] t by simp
    show ?thesis using pull True again
      by (subst collect_loop.simps) (cases pulled; cases "projr pulled"; simp)
  next
    case False
    then show ?thesis using pull by (subst collect_loop.simps) (cases pulled; cases "projr pulled"; simp)
  qed
qed

text \<open>C15: A cancelled request does not hang: if the cancellation stays signalled from some moment on, then
  every call that pulls the stream returns, however many events and retries the upstream keeps offering.\<close>

theorem cancellation_ends_every_call:
  assumes "reachable w s" and "\<forall>n \<ge> N. cancelled_at w n"
  shows "(\<exists>r s'. next_event w s = Some (r, s')) \<and> (\<exists>r s'. collect_uncommitted w s = Some (r, s'))"
proof -
  have inv: "session_inv s" by (rule reachable_inv [OF assms(1)])
  have "next_event w s \<noteq> None"
    unfolding next_event_def resume_inv [OF inv] Let_def
    using next_event_loop_returns [OF assms(2)] session_inv_ready [OF inv] by (auto split: option.splits)
  moreover have "collect_uncommitted w s \<noteq> None"
  proof -
    have "ready s" if "\<not> is_finalized s" "undelivered s"
      using that inv by (auto simp: session_inv_def ready_def running_def undelivered_def settled_def)
    then show ?thesis unfolding collect_uncommitted_def resume_inv [OF inv] Let_def
      using collect_loop_returns [OF assms(2)] by (auto simp: undelivered_def)
  qed
  ultimately show ?thesis by auto
qed


section \<open>Cost of discarded attempts\<close>

lemma charge_add_zero:
  "unwrap_or (checked_add (unwrap_or (checked_add a b) Decimal_MAX) Decimal_ZERO) Decimal_MAX
     = unwrap_or (checked_add a b) Decimal_MAX"
proof -
  define d where "d = unwrap_or (checked_add a b) Decimal_MAX"
  have "scaled d \<le> MAX_SCALED_DECIMAL"
    using checked_add_iff [of a b d] by (cases "checked_add a b") (simp_all add: d_def Decimal_MAX_def)
  then have "checked_add d Decimal_ZERO = Some d"
    using decimal_limits(1) by (simp add: checked_add_iff Decimal_ZERO_def)
  then show ?thesis by (simp add: d_def)
qed

lemma reset_keeps_charge:
  "charge_amount_usd (budget_charge w (reset_uncommitted_observations s)) = charge_amount_usd (budget_charge w s)"
  by (simp add: budget_charge_def reset_uncommitted_observations_def budget_attempt_usd_def reset_for_attempt_def
      charge_add_zero cost_unavailable_def)

text \<open>C21: Discarding an attempt charges the key neither less nor twice: what the request costs afterwards is
  what it cost with the failed attempt's last reported usage.\<close>

theorem discard_keeps_the_charge:
  "charge_amount_usd (budget_charge w (discard_attempt w c error events p s))
     = charge_amount_usd (budget_charge w
         (foldl (\<lambda>s gev. session_observe_fact w gev s) s (concat (map pev_canonical events))))"
proof -
  define t where "t = foldl (\<lambda>s gev. session_observe_fact w gev s) s (concat (map pev_canonical events))"
  define u where "u = (bind_next_attempt c p t)\<lparr>s_last_retryable_failure_events := events, s_last_retryable_failure := Some error\<rparr>"
  have "charge_amount_usd (budget_charge w (discard_attempt w c error events p s)) = charge_amount_usd (budget_charge w u)"
    unfolding discard_attempt_def Let_def t_def [symmetric] u_def [symmetric] reset_keeps_charge
    by (simp add: store_when_def store_write_def budget_charge_def budget_attempt_usd_def)
  also have "\<dots> = charge_amount_usd (budget_charge w (bind_next_attempt c p t))"
    by (simp add: u_def budget_charge_def budget_attempt_usd_def)
  also have "\<dots> = charge_amount_usd (budget_charge w t)"
    by (simp add: bind_next_attempt_def budget_charge_def budget_attempt_usd_def Let_def split: option.splits)
  finally show ?thesis by (simp add: t_def)
qed


section \<open>A concrete request\<close>

text \<open>One candidate, one account, and a stream whose first item is a wire event: the properties above
  apply to it.\<close>

definition demo_provider :: ProviderKind where "demo_provider = ProviderKind ''openai''"

definition demo_account :: ProviderAccountId where "demo_account = ProviderAccountId ''acct''"

definition demo_scope :: FrozenAccountScope where
  "demo_scope = new_FrozenAccountScope
     (new_RuntimeAccountDirectory [(demo_account, new_RuntimeAccount demo_provider [])]) AllAccounts"

definition demo_candidate :: ProviderCandidate where
  "demo_candidate =
     \<lparr>pc_provider = demo_provider, pc_upstream_model = None, pc_emulated_features = {},
      pc_account_scope = demo_scope\<rparr>"

definition demo_plan :: RoutingPlan where
  "demo_plan =
     \<lparr>plan_pricing = [], plan_request_location = None, plan_config_revision = ConfigRevision 1,
      plan_selection_policy = new_AccountSelectionPolicy RoundRobin Unlimited 0, plan_operation = OkGenerate,
      plan_max_attempts = 3, plan_account_scope = demo_scope, plan_candidates = [demo_candidate]\<rparr>"

definition demo_metadata :: ProviderCallMetadata where
  "demo_metadata =
     \<lparr>md_provider = demo_provider, md_upstream_model = None, md_account = demo_account,
      md_upstream_request_id = None, md_transport = UpstreamTransport ''http'', md_selection = None\<rparr>"

definition demo_event :: ProviderEvent where
  "demo_event = wire_event
     \<lparr>wire_protocol = ''openai'', wire_event_type = None, wire_data = JArray [], wire_has_json_data = True,
      wire_raw_sse_frame = None, wire_raw_json_body = None, wire_raw_http_body = None, wire_sse_id = None,
      wire_sse_retry = None\<rparr>"

definition demo_world :: World where
  "demo_world =
     \<lparr>now_at = int, instant_at = int, cancelled_at = (\<lambda>n. 100 \<le> n), effects_epoch_at = (\<lambda>_. 0),
      store_write_ok = (\<lambda>_. True), provider_registered = (\<lambda>_. True),
      resolve_request_profile = (\<lambda>_ configuration. Ok configuration), default_request_profile = (\<lambda>_. Ok None),
      delay_wait = (\<lambda>_ _. WaitReady ()), provider_execute = (\<lambda>_ _ _. WaitReady (Ok demo_metadata)),
      stream_next = (\<lambda>n. WaitReady (if n = 2 then Some (Ok demo_event) else None)),
      stream_translator = (\<lambda>_. None), policy_decision = (\<lambda>_ _. WaitReady Delegate),
      connection_use = (\<lambda>_ c. c)\<rparr>"

definition demo_request :: NewModelRequest where
  "demo_request = \<lparr>nr_id = ModelRequestId ''r'', nr_client_api_key_ref = ClientApiKeyId ''k'',
     nr_requested_model = None, nr_deadline_at = 1000\<rparr>"

definition demo_start :: Session where
  "demo_start = new_Session demo_world demo_request
     \<lparr>op_kind = OkSearch, op_session_state = None, op_image_tool_requested = False\<rparr> demo_plan
     (Scheduled None) None None False None 0"

definition demo_attempt :: CurrentAttempt where
  "demo_attempt = \<lparr>ca_metadata = demo_metadata, ca_trigger = Initial, ca_transport = DefaultTransport, ca_index = 1,
     ca_started_at = 1, ca_send_observed = False, ca_response_observation = None\<rparr>"

lemma demo_scope_allows: "allows demo_scope demo_account"
  by (simp add: allows_def demo_scope_def new_FrozenAccountScope_def new_RuntimeAccountDirectory_def dir_account_def
      index_account_def new_RuntimeAccount_def)

lemmas demo_simps = demo_world_def demo_plan_def demo_candidate_def demo_request_def

lemma demo_reachable: "reachable demo_world demo_start"
  by (rule Start [where request = demo_request and op = "\<lparr>op_kind = OkSearch, op_session_state = None, op_image_tool_requested = False\<rparr>"
       and plan = demo_plan and selection = "Scheduled None" and continuation = None and observation = None
       and has_policy = False and effects_baseline = None])
     (simp add: start_with_account_selection_def initial_candidate_index_def demo_start_def Let_def new_Session_def
        demo_simps)

lemma demo_profiles: "scope_request_profiles demo_scope = Map.empty"
  by (simp add: demo_scope_def new_FrozenAccountScope_def)

lemma demo_prepare:
  "\<exists>s. prepare_attempt demo_world demo_start = (Ok None, s) \<and> s_tick s = 2 \<and> s_deadline s = 1000
    \<and> s_attempts s = 1 \<and> s_current s = Some demo_attempt \<and> \<not> s_delivery_pending s
    \<and> s_downstream_committed_at s = None \<and> s_request_persisted s \<and> s_request_observation s = None
    \<and> s_pending_terminal_failure s = None"
  by (simp add: prepare_attempt_def demo_start_def new_Session_def Let_def start_attempt_def demo_plan_def
        checked_add_u_def bind_attempt_def account_context_def resolve_profile_def demo_candidate_def
        poll_provider_def demo_world_def establish_attempt_def binding_violation_def demo_metadata_def
        confirms_def own_attempt_def store_write_def attempt_record_def demo_request_def demo_attempt_def
        demo_scope_allows demo_profiles new_AccountAttemptContext_def attempt_context_def)

lemma demo_next:
  "\<exists>s. next_event demo_world demo_start
      = Some (Ok (Some \<lparr>ce_events = [demo_event], ce_commit_requirement = CommitBeforeDelivery\<rparr>), s)
    \<and> s_attempts s = 1 \<and> s_delivery_pending s \<and> s_current s = Some (demo_attempt\<lparr>ca_send_observed := True\<rparr>)"
proof -
  obtain t where p: "prepare_attempt demo_world demo_start = (Ok None, t)"
    and t: "s_tick t = 2" "s_deadline t = 1000" "s_attempts t = 1" "s_current t = Some demo_attempt"
      "\<not> s_delivery_pending t" "s_downstream_committed_at t = None" "s_request_persisted t"
      "s_request_observation t = None" "s_pending_terminal_failure t = None"
    using demo_prepare by blast
  have start: "s_current demo_start = None" "s_finalization demo_start = None"
    "\<not> s_delivery_pending demo_start" "s_pending_terminal_failure demo_start = None"
    by (simp_all add: demo_start_def new_Session_def)
  have "\<exists>u. poll_turn demo_world t = (Ok (Some (PullEvents [demo_event])), u) \<and> s_attempts u = 1
      \<and> \<not> s_delivery_pending u \<and> s_downstream_committed_at u = None
      \<and> s_current u = Some (demo_attempt\<lparr>ca_send_observed := True\<rparr>)"
    by (simp add: poll_turn_def poll_stream_item_def t demo_world_def Let_def observe_stream_event_def
        demo_event_def wire_event_def take_observation_def has_canonical_facts_def observe_wire_event_def
        mark_send_observed_def store_when_def store_write_def demo_attempt_def deliver_event_def
        has_client_event_def translate_native_response_def)
  then obtain u where u: "poll_turn demo_world t = (Ok (Some (PullEvents [demo_event])), u)" "s_attempts u = 1"
      "\<not> s_delivery_pending u" "s_downstream_committed_at u = None"
      "s_current u = Some (demo_attempt\<lparr>ca_send_observed := True\<rparr>)" by blast
  have "pull_step demo_world demo_start = (Ok (Some (PullEvents [demo_event])), u)"
    by (simp add: pull_step_def start p u)
  then have "pull demo_world demo_start = Some (Ok (PullEvents [demo_event]), u)"
    by (subst pull.simps) simp
  then have "next_event_loop demo_world demo_start
      = Some (Ok (Some \<lparr>ce_events = [demo_event], ce_commit_requirement = CommitBeforeDelivery\<rparr>), u\<lparr>s_delivery_pending := True\<rparr>)"
    by (subst next_event_loop.simps) (simp add: delivery_requirement_def u try_batch_def)
  then show ?thesis
    using u by (simp add: next_event_def resume_finalization_def start is_finalized_def)
qed

lemma demo_delivered:
  "\<exists>s. reachable demo_world s \<and> s_attempts s = 1 \<and> s_delivery_pending s
    \<and> s_current s = Some (demo_attempt\<lparr>ca_send_observed := True\<rparr>)"
  using demo_next Step [OF demo_reachable Next] by blast

theorem store_history_witness:
  "\<exists>s. s_attempts s = 1 \<and> sorted (written_states s) \<and> attempt_numbers s = [1] \<and> length (finalizations s) \<le> 1"
proof -
  obtain s where s: "reachable demo_world s" "s_attempts s = 1" using demo_delivered by blast
  then show ?thesis using store_history [OF s(1)] by auto
qed

theorem attempts_stay_bound_witness:
  "\<exists>s c. s_current s = Some c \<and> ca_index c = 1 \<and> s_routing_attempts s \<le> plan_max_attempts (s_plan s)
     \<and> bound_attempt s (ca_metadata c)"
proof -
  obtain s where s: "reachable demo_world s" "s_attempts s = 1"
    "s_current s = Some (demo_attempt\<lparr>ca_send_observed := True\<rparr>)" using demo_delivered by blast
  show ?thesis
    by (rule exI [of _ s], rule exI [of _ "demo_attempt\<lparr>ca_send_observed := True\<rparr>"])
       (use s attempts_stay_bound [OF s(1)] in auto)
qed

theorem no_attempt_after_delivery_witness:
  "\<exists>s. reachable demo_world s \<and> s_delivery_pending s
     \<and> s_attempts (snd (commit_downstream demo_world (Some 200) s)) = 1"
proof -
  obtain s where s: "reachable demo_world s" "s_attempts s = 1" "s_delivery_pending s" using demo_delivered by blast
  have "session_step demo_world s (snd (commit_downstream demo_world (Some 200) s))"
    by (rule Commit [where code = "Some 200" and r'' = "fst (commit_downstream demo_world (Some 200) s)"]) simp
  from no_attempt_after_delivery [OF s(1) _ this] s show ?thesis by auto
qed

theorem failures_finish_the_request_witness: "is_finalized (cancel_and_finalize demo_world demo_start)"
  using failures_finish_the_request [OF demo_reachable] by simp

theorem cancellation_ends_every_call_witness:
  "(\<exists>r s'. next_event demo_world demo_start = Some (r, s'))
   \<and> (\<exists>r s'. collect_uncommitted demo_world demo_start = Some (r, s'))"
proof -
  have "\<forall>n \<ge> 100. cancelled_at demo_world n" by (simp add: demo_world_def)
  from cancellation_ends_every_call [OF demo_reachable this] show ?thesis .
qed

definition demo_failing :: Session where
  "demo_failing = demo_start\<lparr>s_attempts := 1, s_routing_attempts := 1, s_current := Some demo_attempt\<rparr>"

lemma demo_discard:
  "fst (handle_stream_error demo_world (new_ProviderError PkNoEligibleAccount NotSent) demo_failing)
     = Ok AttemptDiscarded"
proof -
  define s where "s = demo_failing"
  have s: "s_current s = Some demo_attempt" "s_request_observation s = None" "\<not> s_has_execution_effects s"
    "s_send_state_watermark s = NotSent" "\<not> s_request_persisted s" "s_account_selection s = Scheduled None"
    "s_continuation_attempt s = NoContinuation" "s_downstream_committed_at s = None" "\<not> s_delivery_pending s"
    "s_routing_attempts s = 1" "plan_max_attempts (s_plan s) = 3" "\<not> s_has_request_policy s"
    "\<not> conn_exhausted (instant_at demo_world (s_tick s)) (s_connection_budget s)"
    by (simp_all add: s_def demo_failing_def demo_start_def new_Session_def demo_plan_def
        initial_continuation_attempt_def conn_exhausted_def default_connection_def MAX_OPENINGS_def)
  show ?thesis
    unfolding s_def [symmetric]
  by (simp add: s handle_stream_error_def take_atomic_client_events_def new_ProviderError_def planned_failure_def record_provider_failure_def execution_effect_observed_def
      settle_send_state_def raise_send_watermark_def current_send_state_def escalate_is_max store_when_def plan_retry_def
      prepare_continuation_retry_def account_rotation_retry_def
      transport_recovery_def ordinary_retry_def transient_retry_def provider_proved_replay_safe_def
      apply_retry_policy_def retry_facts_def retryable_def Let_def same_account_retry_def demo_attempt_def)
qed

theorem retry_only_when_safe_witness:
  "\<exists>s' c. handle_stream_error demo_world (new_ProviderError PkNoEligibleAccount NotSent) demo_failing
       = (Ok AttemptDiscarded, s')
     \<and> s_current demo_failing = Some c \<and> s_current s' = None
     \<and> \<not> s_delivery_pending demo_failing \<and> \<not> execution_effect_observed demo_world demo_failing"
proof -
  obtain s' where "handle_stream_error demo_world (new_ProviderError PkNoEligibleAccount NotSent) demo_failing
      = (Ok AttemptDiscarded, s')" using demo_discard by (metis prod.collapse)
  from this retry_only_when_safe [OF this] show ?thesis by blast
qed

end
