(* ===== verification/Routing_Theorems.thy ===== *)
theory Routing_Theorems
  imports Routing_Snapshot
begin

text \<open>
  What routing guarantees: how a requested model name is resolved, which providers a plan holds and why a
  request is refused, that the permission of a client key is exactly what the store's facts say, and that
  a snapshot is only published for a revision that did not change meanwhile, with the catalogs the providers
  answered while their generations stood still, or those of the snapshot they are taken over from.
\<close>

section \<open>Model names\<close>

text \<open>The name reached after following \<open>k\<close> mappings.\<close>

fun chain :: "(string \<times> string) list \<Rightarrow> nat \<Rightarrow> string \<Rightarrow> string option" where
  "chain table 0 m = Some m"
| "chain table (Suc k) m = Option.bind (chain table k m) (map_of table)"

definition resolves_in :: "(string \<times> string) list \<Rightarrow> nat \<Rightarrow> string \<Rightarrow> string \<Rightarrow> bool" where
  "resolves_in table k m x \<longleftrightarrow> chain table k m = Some x \<and> map_of table x = None"

lemma chain_stops: "chain table k m = None \<Longrightarrow> k \<le> j \<Longrightarrow> chain table j m = None"
  by (induction j) (auto simp: le_Suc_eq)

lemma chain_prefix: "chain table j m = Some y \<Longrightarrow> k \<le> j \<Longrightarrow> \<exists>x. chain table k m = Some x"
  using chain_stops by (metis option.exhaust option.distinct(1))

lemma resolves_last: "resolves_in table k m x \<Longrightarrow> chain table j m = Some y \<Longrightarrow> j \<le> k"
  using chain_prefix[of table j m y "Suc k"] by (auto simp: resolves_in_def not_le[symmetric] Suc_le_eq)

lemma resolves_unique: "resolves_in table k m x \<Longrightarrow> resolves_in table j m y \<Longrightarrow> k = j \<and> x = y"
  using resolves_last[of table k m x j y] resolves_last[of table j m y k x] by (auto simp: resolves_in_def)

text \<open>A chain that comes back to a name it has passed never ends.\<close>

lemma chain_cycle:
  assumes "chain table (Suc j) m = Some t" "chain table i m = Some t" "i \<le> j"
  shows "\<not> resolves_in table k m x"
proof
  assume r: "resolves_in table k m x"
  have "\<exists>i' \<le> j. chain table i' m = Some y" if "chain table n m = Some y" for n y
    using that
  proof (induction n arbitrary: y)
    case (Suc n)
    then obtain z where z: "chain table n m = Some z" "map_of table z = Some y"
      by (auto simp: bind_eq_Some_conv)
    then obtain i' where i': "i' \<le> j" "chain table i' m = Some z"
      using Suc.IH by blast
    show ?case
    proof (cases "i' = j")
      case True
      then have "y = t"
        using z(2) i'(2) assms(1) by simp
      then show ?thesis using assms(2,3) by blast
    next
      case False
      then have "Suc i' \<le> j" "chain table (Suc i') m = Some y"
        using i' z(2) by simp_all
      then show ?thesis by blast
    qed
  qed auto
  then obtain i' where "i' \<le> j" "chain table i' m = Some x"
    using r by (auto simp: resolves_in_def)
  moreover have "\<exists>y. chain table (Suc i') m = Some y"
    using chain_prefix[OF assms(1), of "Suc i'"] calculation(1) by simp
  ultimately show False
    using r by (auto simp: resolves_in_def)
qed

lemma follow_mappings_exact:
  assumes "seen = {x. \<exists>i<j. chain table i m = Some x}" "chain table j m = Some current" "current \<notin> seen"
  shows "(\<forall>k x. k < j + n \<and> resolves_in table k m x \<longrightarrow> follow_mappings table m n seen current = x)
       \<and> ((\<forall>k x. k < j + n \<longrightarrow> \<not> resolves_in table k m x) \<longrightarrow> follow_mappings table m n seen current = m)"
  using assms
proof (induction n arbitrary: j seen current)
  case 0
  have "\<not> (k < j \<and> resolves_in table k m x)" for k x
    using resolves_last[of table k m x j current] 0(2) by auto
  then show ?case by auto
next
  case (Suc n)
  show ?case
  proof (cases "map_of table current")
    case None
    then have r: "resolves_in table j m current"
      using Suc.prems(2) by (simp add: resolves_in_def)
    have "follow_mappings table m (Suc n) seen current = current"
      using None by simp
    moreover have "x = current" if "resolves_in table k m x" for k x
      using resolves_unique[OF that r] by simp
    moreover have "j < j + Suc n" by simp
    ultimately show ?thesis
      using r by blast
  next
    case (Some target)
    have nxt: "chain table (Suc j) m = Some target"
      using Suc.prems(2) Some by simp
    show ?thesis
    proof (cases "target \<in> insert current seen")
      case True
      then obtain i where "i \<le> j" "chain table i m = Some target"
        using Suc.prems(1,2) by (auto intro: less_imp_le)
      from chain_cycle[OF nxt this(2,1)] show ?thesis
        using Some True by simp
    next
      case False
      have "insert current seen = {x. \<exists>i<Suc j. chain table i m = Some x}"
        using Suc.prems(1,2) by (auto simp: less_Suc_eq)
      from Suc.IH[OF this nxt False] show ?thesis
        using Some False Suc.prems(3) by simp
    qed
  qed
qed

lemma follow_from_start:
  "k < 20 \<Longrightarrow> resolves_in table k m x \<Longrightarrow> follow_mappings table m 20 {} m = x"
  "(\<And>k x. k < 20 \<Longrightarrow> \<not> resolves_in table k m x) \<Longrightarrow> follow_mappings table m 20 {} m = m"
  using follow_mappings_exact[of "{}" 0 table m m 20] by auto

lemma follow_unmapped: "map_of table m = None \<Longrightarrow> follow_mappings table m 20 {} m = m"
  using follow_from_start(1)[of 0 table m m] by (simp add: resolves_in_def)

text \<open>
  Resolving a model name. An alias contributed by an extension gives its target. Otherwise the
  mappings are followed to a name that has none, if that takes fewer than 20 steps; a name whose mappings
  run in a circle, or are longer, is left as it is.
\<close>

theorem mapped_model_exact:
  "case model_alias s requested of
     Some a \<Rightarrow> mapped_model s requested = upstream_model_str (alias_target a)
   | None \<Rightarrow>
       (\<forall>k x. k < 20 \<and> resolves_in (mappings s) k requested x \<longrightarrow> mapped_model s requested = x)
       \<and> ((\<forall>k x. k < 20 \<longrightarrow> \<not> resolves_in (mappings s) k requested x) \<longrightarrow> mapped_model s requested = requested)"
  using follow_from_start
  by (auto simp: mapped_model_def split: option.splits)

lemma mapped_model_fixed:
  "model_alias s m = None \<Longrightarrow> map_of (mappings s) m = None \<Longrightarrow> mapped_model s m = m"
  by (simp add: mapped_model_def follow_unmapped)

lemma validated_alias:
  assumes "validate_aliases s seen as = Ok ()" "a \<in> set as"
  shows "alias_valid s a"
  using assms by (induction s seen as rule: validate_aliases.induct) (auto split: if_splits)

lemma model_alias_Some: "model_alias s m = Some a \<Longrightarrow> a \<in> set (model_aliases s) \<and> public_model_str (alias_id a) = m"
  by (auto simp: model_alias_def find_Some_iff)

lemma follow_cases:
  obtains (same) "follow_mappings table m 20 {} m = m"
  | (target) "follow_mappings table m 20 {} m \<in> set (map snd table)"
      "map_of table (follow_mappings table m 20 {} m) = None"
proof (cases "\<exists>k x. k < 20 \<and> resolves_in table k m x")
  case True
  then obtain k x where k: "k < 20" "resolves_in table k m x" by blast
  then have x: "follow_mappings table m 20 {} m = x"
    using follow_from_start(1) by blast
  show ?thesis
  proof (cases k)
    case (Suc j)
    then obtain y where "map_of table y = Some x"
      using k(2) by (auto simp: resolves_in_def bind_eq_Some_conv)
    then have "x \<in> set (map snd table)"
      by (auto dest!: map_of_SomeD intro: rev_image_eqI)
    then show ?thesis
      using target x k(2) by (simp add: resolves_in_def)
  qed (use k(2) x same in \<open>simp add: resolves_in_def\<close>)
qed (use follow_from_start(2) same in blast)

text \<open>
  In a snapshot whose contributed aliases passed validation, resolving is stable: resolving a
  resolved name changes nothing, so it does not matter how many layers resolve a name on its way.
\<close>

theorem mapped_model_idempotent:
  assumes "validate_extension_models s = Ok ()"
  shows "mapped_model s (mapped_model s requested) = mapped_model s requested"
proof (cases "model_alias s requested")
  case (Some a)
  then have "alias_valid s a"
    using assms model_alias_Some[OF Some] validated_alias by (auto simp: validate_extension_models_def)
  then have "model_alias s (upstream_model_str (alias_target a)) = None"
    "map_of (mappings s) (upstream_model_str (alias_target a)) = None"
    by (simp_all add: alias_valid_def)
  then show ?thesis
    using Some by (simp add: mapped_model_def follow_unmapped)
next
  case None
  then have eq: "mapped_model s requested = follow_mappings (mappings s) requested 20 {} requested"
    by (simp add: mapped_model_def)
  show ?thesis
  proof (cases rule: follow_cases[of "mappings s" requested])
    case same
    then show ?thesis using eq by simp
  next
    case target
    have "model_alias s (mapped_model s requested) = None"
    proof (rule ccontr)
      assume "model_alias s (mapped_model s requested) \<noteq> None"
      then obtain a where a: "a \<in> set (model_aliases s)" "public_model_str (alias_id a) = mapped_model s requested"
        using model_alias_Some by blast
      then have "alias_valid s a"
        using assms validated_alias by (auto simp: validate_extension_models_def)
      then show False
        using target(1) a(2) eq by (auto simp: alias_valid_def)
    qed
    then show ?thesis
      using target(2) eq mapped_model_fixed by metis
  qed
qed


section \<open>Plans\<close>

text \<open>
  A provider serves a request under the upstream name \<open>up\<close> when it is registered, is the provider of the
  alias if the name is one, is not ruled out by the request, holds an account of the key that may use the
  model (unless the plan is a diagnostic one), and its catalog has a model able to do what the request
  needs, or does not list every model.
\<close>

definition serves ::
  "'v RuntimeSnapshot \<Rightarrow> PublicModelId \<Rightarrow> CapabilityRequirements \<Rightarrow> FrozenAccountScope \<Rightarrow> RoutingContext \<Rightarrow> bool
   \<Rightarrow> UpstreamModelId \<Rightarrow> ProviderKind \<Rightarrow> Feature set \<Rightarrow> bool" where
  "serves s model req scope ctx enforce_policy up p emulated \<longleftrightarrow>
     p \<in> rs_providers s
     \<and> is_none_or (model_alias s (public_model_str model)) (\<lambda>a. alias_provider a = p)
     \<and> is_none_or (required_provider ctx) (\<lambda>r. r = p) \<and> p \<notin> blocked_providers ctx
     \<and> (enforce_policy \<longrightarrow> allows_provider_model scope p (upstream_model_str up))
     \<and> (case map_of (provider_models_of s p) up of
          Some capabilities \<Rightarrow> match_requirements capabilities req = Some emulated
        | None \<Rightarrow> p \<notin> rs_exhaustive_catalogs s \<and> emulated = {})"

lemma provider_candidate_Some:
  "provider_candidate s model req scope ctx e p = Ok (Some c) \<longleftrightarrow>
     (\<exists>up emulated. upstream_of s model = Ok up \<and> serves s model req scope ctx e up p emulated
        \<and> c = \<lparr>pc_provider = p, pc_upstream_model = Some up, pc_emulated_features = emulated, pc_account_scope = scope\<rparr>)"
  by (auto simp: provider_candidate_def serves_def is_some_and_iff is_none_or_iff split: sum.splits option.splits)

lemma provider_candidate_Err:
  "provider_candidate s model req scope ctx e p = Err err \<longrightarrow>
     err = InvalidIdentifier \<and> (\<exists>i. upstream_of s model = Err i)"
  by (auto simp: provider_candidate_def split: sum.splits option.splits if_splits)

lemma collect_candidates_Ok:
  "collect_candidates step ps = Ok cs \<Longrightarrow> set cs = {c. \<exists>p \<in> set ps. step p = Ok (Some c)}"
  by (induction ps arbitrary: cs) (auto split: sum.splits option.splits)

lemma collect_candidates_Err:
  "collect_candidates step ps = Err e \<Longrightarrow> \<exists>p \<in> set ps. step p = Err e"
  by (induction ps) (auto split: sum.splits)

lemma collect_candidates_order:
  assumes "collect_candidates step ps = Ok cs" "\<And>p c. step p = Ok (Some c) \<Longrightarrow> f c = p"
  shows "subseq (map f cs) ps"
  using assms(1)
proof (induction ps arbitrary: cs)
  case (Cons p ps)
  obtain c ds where c: "step p = Ok c" "collect_candidates step ps = Ok ds" "cs = (case c of None \<Rightarrow> ds | Some x \<Rightarrow> x # ds)"
    using Cons.prems by (auto split: sum.splits)
  then show ?case
    using Cons.IH[OF c(2)] assms(2) by (auto split: option.splits)
qed simp

lemma providers_in_order_set: "finite P \<Longrightarrow> set (providers_in_order P) = P"
  by (force simp: providers_in_order_def image_image)

lemma providers_in_order_sorted:
  "finite P \<Longrightarrow> sorted_wrt (\<lambda>p q. provider_kind_str p < provider_kind_str q) (providers_in_order P)"
  using strict_sorted_iff[of "sorted_list_of_set (provider_kind_str ` P)"]
  by (simp add: providers_in_order_def sorted_wrt_map)

lemma sorted_wrt_subsequence: "subseq xs ys \<Longrightarrow> sorted_wrt P ys \<Longrightarrow> sorted_wrt P xs"
proof (induction rule: list_emb.induct)
  case (list_emb_Cons2 x y xs ys)
  then show ?case
    using list_emb_set[of "(=)" xs ys] by auto
qed auto

lemma planned_finite: "finite (scope_provider_kinds scope) \<Longrightarrow> finite (planned_providers scope ctx)"
  by (simp add: planned_providers_def split: option.split)

lemma plan_inner_Ok:
  assumes "plan_inner s model op scope ctx e = Ok p" "finite (scope_provider_kinds scope)"
  obtains cs where "p = freeze_plan s op scope cs" "cs \<noteq> []"
    "set cs = {c. \<exists>q \<in> planned_providers scope ctx.
        provider_candidate s model (capability_requirements op) scope ctx e q = Ok (Some c)}"
    "sorted_wrt (\<lambda>p q. provider_kind_str p < provider_kind_str q) (map pc_provider cs)"
proof -
  let ?step = "provider_candidate s model (capability_requirements op) scope ctx e"
  obtain cs where cs: "collect_candidates ?step (providers_in_order (planned_providers scope ctx)) = Ok cs"
    "cs \<noteq> []" "p = freeze_plan s op scope cs"
    using assms(1) by (auto simp: plan_inner_def Let_def split: if_splits sum.splits)
  have "subseq (map pc_provider cs) (providers_in_order (planned_providers scope ctx))"
    by (rule collect_candidates_order[OF cs(1)]) (auto simp: provider_candidate_Some)
  then have "sorted_wrt (\<lambda>p q. provider_kind_str p < provider_kind_str q) (map pc_provider cs)"
    using providers_in_order_sorted[OF planned_finite[OF assms(2)]] by (rule sorted_wrt_subsequence)
  then show ?thesis
    using that cs collect_candidates_Ok[OF cs(1)] providers_in_order_set[OF planned_finite[OF assms(2)]] by auto
qed

lemma allows_provider_model_account:
  assumes "allows_provider_model scope p m" "dir_wf (scope_directory scope)"
  shows "p \<in> scope_provider_kinds scope \<and> (\<exists>a. allows_model scope a m \<and> scope_account_provider scope a = Some p)"
proof -
  obtain a account where "(a, account) \<in> set (dir_accounts (scope_directory scope))" "rt_provider_kind account = p"
    "allows_model scope a m" "p \<in> scope_provider_kinds scope"
    using assms(1) by (auto simp: allows_provider_model_def list_ex_iff)
  then show ?thesis
    using assms(2) by (auto simp: dir_wf_def scope_account_provider_def dir_account_def map_of_is_SomeI)
qed

text \<open>
  C27: What a plan holds. The candidates of a plan are exactly the providers among those the key reaches
  (or the one the request requires) that serve the request, each with the resolved upstream model, in
  increasing order and without repetition. A required provider does not widen the permission of the key:
  every candidate's provider is one the key's scope reaches, through an account that the scope allows and
  whose model policy allows the model.
\<close>

theorem plan_holds_the_serving_providers:
  assumes "plan_request s model op scope ctx = Ok p" "finite (scope_provider_kinds scope)" "dir_wf (scope_directory scope)"
  shows "(\<exists>up. upstream_of s model = Ok up \<and> plan_candidates p \<noteq> []
          \<and> (\<forall>c. c \<in> set (plan_candidates p) \<longleftrightarrow>
               (\<exists>q \<in> planned_providers scope ctx. \<exists>emulated.
                  serves s model (capability_requirements op) scope ctx True up q emulated
                  \<and> c = \<lparr>pc_provider = q, pc_upstream_model = Some up, pc_emulated_features = emulated,
                         pc_account_scope = scope\<rparr>))
          \<and> (\<forall>c \<in> set (plan_candidates p). pc_provider c \<in> scope_provider_kinds scope
               \<and> (\<exists>a. allows_model scope a (upstream_model_str up)
                     \<and> scope_account_provider scope a = Some (pc_provider c))))
         \<and> sorted_wrt (\<lambda>q r. provider_kind_str q < provider_kind_str r) (map pc_provider (plan_candidates p))
         \<and> plan_account_scope p = scope \<and> plan_config_revision p = rs_revision s
         \<and> plan_max_attempts p = MAX_REQUEST_ATTEMPTS"
proof -
  let ?step = "provider_candidate s model (capability_requirements op) scope ctx True"
  obtain cs where cs: "p = freeze_plan s op scope cs" "cs \<noteq> []"
    "set cs = {c. \<exists>q \<in> planned_providers scope ctx. ?step q = Ok (Some c)}"
    "sorted_wrt (\<lambda>p q. provider_kind_str p < provider_kind_str q) (map pc_provider cs)"
    using plan_inner_Ok[OF assms(1)[unfolded plan_request_def] assms(2)] .
  have "hd cs \<in> set cs"
    using cs(2) by simp
  then obtain q where "?step q = Ok (Some (hd cs))"
    using cs(3) by blast
  then obtain up where up: "upstream_of s model = Ok up"
    by (auto simp: provider_candidate_Some)
  have members: "c \<in> set cs \<longleftrightarrow>
      (\<exists>q \<in> planned_providers scope ctx. \<exists>emulated.
         serves s model (capability_requirements op) scope ctx True up q emulated
         \<and> c = \<lparr>pc_provider = q, pc_upstream_model = Some up, pc_emulated_features = emulated,
                pc_account_scope = scope\<rparr>)" for c
    using cs(3) up by (auto simp: provider_candidate_Some)
  have "pc_provider c \<in> scope_provider_kinds scope
      \<and> (\<exists>a. allows_model scope a (upstream_model_str up) \<and> scope_account_provider scope a = Some (pc_provider c))"
    if c: "c \<in> set cs" for c
  proof -
    have "allows_provider_model scope (pc_provider c) (upstream_model_str up)"
      using c members[of c] by (auto simp: serves_def)
    then show ?thesis
      using allows_provider_model_account[OF _ assms(3)] by blast
  qed
  moreover have "plan_candidates p = cs"
    using cs(1) by (simp add: freeze_plan_def)
  ultimately show ?thesis
    using up members cs(2,4) cs(1) by (simp add: freeze_plan_def)
qed

lemma serving_provider_plans:
  assumes fin: "finite (scope_provider_kinds scope)"
    and up: "upstream_of s model = Ok up" and q: "q \<in> planned_providers scope ctx"
    and serving: "serves s model (capability_requirements op) scope ctx True up q emulated"
  shows "\<exists>p. plan_request s model op scope ctx = Ok p"
proof -
  let ?step = "provider_candidate s model (capability_requirements op) scope ctx True"
  let ?ps = "providers_in_order (planned_providers scope ctx)"
  have ps: "set ?ps = planned_providers scope ctx"
    using providers_in_order_set[OF planned_finite[OF fin]] .
  obtain cs where cs: "collect_candidates ?step ?ps = Ok cs"
    using collect_candidates_Err[of ?step ?ps] provider_candidate_Err up
    by (metis Inl_Inr_False sum.exhaust)
  have "set cs \<noteq> {}"
    using collect_candidates_Ok[OF cs] ps q up serving provider_candidate_Some[of s model] by fastforce
  moreover have "\<not> (required_provider ctx = None \<and> scope_provider_kinds scope = {})"
    using q by (auto simp: planned_providers_def)
  ultimately show ?thesis
    using cs by (auto simp: plan_request_def plan_inner_def)
qed

lemma plan_has_serving_provider:
  assumes fin: "finite (scope_provider_kinds scope)" and planned: "plan_request s model op scope ctx = Ok p"
  shows "\<exists>up. upstream_of s model = Ok up
      \<and> (\<exists>q \<in> planned_providers scope ctx. \<exists>emulated.
           serves s model (capability_requirements op) scope ctx True up q emulated)"
proof -
  let ?step = "provider_candidate s model (capability_requirements op) scope ctx True"
  obtain cs where "p = freeze_plan s op scope cs" "cs \<noteq> []"
    and cs: "set cs = {c. \<exists>q \<in> planned_providers scope ctx. ?step q = Ok (Some c)}"
    and "sorted_wrt (\<lambda>p q. provider_kind_str p < provider_kind_str q) (map pc_provider cs)"
    using plan_inner_Ok[OF planned[unfolded plan_request_def] fin] .
  then obtain q where "q \<in> planned_providers scope ctx" "?step q = Ok (Some (hd cs))"
    using hd_in_set by blast
  then show ?thesis
    unfolding provider_candidate_Some by blast
qed

lemma refusal_reasons:
  assumes refused: "plan_request s model op scope ctx = Err e"
  shows "case e of
        EmptyAccountScope \<Rightarrow> required_provider ctx = None \<and> scope_provider_kinds scope = {}
      | InvalidIdentifier \<Rightarrow> (\<exists>i. upstream_of s model = Err i)
      | ModelNotFound m mapped \<Rightarrow>
          m = public_model_str model \<and> mapped = mapped_model s m
          \<and> planned_providers scope ctx \<inter> rs_providers s \<noteq> {}
          \<and> (\<forall>q \<in> planned_providers scope ctx \<inter> rs_providers s.
               q \<in> rs_exhaustive_catalogs s \<and> \<not> contains_public_model_for_provider s model q)
      | NoCapableProvider m \<Rightarrow> m = public_model_str model
      | _ \<Rightarrow> False"
proof (cases "collect_candidates (provider_candidate s model (capability_requirements op) scope ctx True)
    (providers_in_order (planned_providers scope ctx))")
  case (Inl err)
  then have "err = InvalidIdentifier" "\<exists>i. upstream_of s model = Err i"
    using collect_candidates_Err provider_candidate_Err by blast+
  then show ?thesis
    using refused Inl by (auto simp: plan_request_def plan_inner_def Let_def split: if_splits)
next
  case (Inr cs)
  then show ?thesis
    using refused by (auto simp: plan_request_def plan_inner_def Let_def split: if_splits)
qed

text \<open>
  C29: When a request is refused. A plan exists exactly when some provider serves the request. The error
  tells the truth otherwise: an empty scope is an empty scope; a model is reported as not found only when
  every registered provider in reach has a complete catalog and none of them has the resolved model; with
  \<open>NoCapableProvider\<close> no provider serves it.
\<close>

theorem plan_refusals:
  assumes "finite (scope_provider_kinds scope)"
  shows "((\<exists>p. plan_request s model op scope ctx = Ok p) \<longleftrightarrow>
            (\<exists>up. upstream_of s model = Ok up
               \<and> (\<exists>q \<in> planned_providers scope ctx. \<exists>emulated.
                    serves s model (capability_requirements op) scope ctx True up q emulated)))
    \<and> (\<forall>e. plan_request s model op scope ctx = Err e \<longrightarrow>
         (case e of
            EmptyAccountScope \<Rightarrow> required_provider ctx = None \<and> scope_provider_kinds scope = {}
          | InvalidIdentifier \<Rightarrow> (\<exists>i. upstream_of s model = Err i)
          | ModelNotFound m mapped \<Rightarrow>
              m = public_model_str model \<and> mapped = mapped_model s m
              \<and> planned_providers scope ctx \<inter> rs_providers s \<noteq> {}
              \<and> (\<forall>q \<in> planned_providers scope ctx \<inter> rs_providers s.
                   q \<in> rs_exhaustive_catalogs s \<and> \<not> contains_public_model_for_provider s model q)
          | NoCapableProvider m \<Rightarrow> m = public_model_str model
          | _ \<Rightarrow> False))"
  using serving_provider_plans[OF assms] plan_has_serving_provider[OF assms] refusal_reasons by blast


section \<open>Permissions of client keys\<close>

lemma collect_groups_lookup:
  "collect_groups gs known = Ok m \<Longrightarrow> m i = Some g \<longleftrightarrow> known i = Some g \<or> g \<in> set gs \<and> agf_id g = i"
proof (induction gs known arbitrary: m rule: collect_groups.induct)
  case (2 f gs known)
  have new: "\<not> (group_name_invalid (agf_name f) \<or> known (agf_id f) \<noteq> None)"
    and step: "collect_groups gs (known(agf_id f \<mapsto> f)) = Ok m"
    using 2(2) by (simp_all split: if_splits)
  from 2(1)[OF new step] new show ?case by auto
qed simp

lemma collect_accounts_keys:
  "collect_accounts as known = Ok r \<Longrightarrow> distinct (map fst known)
     \<Longrightarrow> map fst r = map fst known @ map paf_account_id as \<and> distinct (map fst r)"
proof (induction as known arbitrary: r rule: collect_accounts.induct)
  case (2 a as known)
  from 2(2) obtain kind where kind: "new_ProviderKind (paf_provider_kind a) = Ok kind"
    by (auto split: sum.splits)
  with 2(2) have new: "map_of known (paf_account_id a) = None"
    by (auto split: if_splits)
  let ?known = "known @ [(paf_account_id a, rt_with_model_access (new_RuntimeAccount kind []) (paf_model_access a))]"
  have step: "collect_accounts as ?known = Ok r"
    using 2(2) kind new by simp
  have dist: "distinct (map fst ?known)"
    using 2(3) new by (simp add: map_of_eq_None_iff)
  have ih: "map fst r = map fst ?known @ map paf_account_id as \<and> distinct (map fst r)"
    using 2(1)[OF kind _ step dist] new by blast
  then have "map fst r = map fst known @ map paf_account_id (a # as)" by simp
  with ih show ?case by blast
qed simp

lemma collect_memberships_set:
  "collect_memberships groups accounts ms known = Ok r
     \<Longrightarrow> set r = set known \<union> {(gmf_group_id m, gmf_account_id m) |m. m \<in> set ms}"
  by (induction groups accounts ms known arbitrary: r rule: collect_memberships.induct) (auto split: if_splits)

lemma groups_of_account_set: "g \<in> set (groups_of_account ms a) \<longleftrightarrow> (g, a) \<in> set ms"
  by (force simp: groups_of_account_def)

lemma join_groups_lookup:
  "map_of (join_groups ms accounts) a =
     map_option (\<lambda>account. rt_with_model_access
       (new_RuntimeAccount (rt_provider_kind account) (groups_of_account ms a)) (rt_model_access account))
     (map_of accounts a)"
  by (induction accounts) (auto simp: join_groups_def)

lemma allows_with [simp]:
  "allows (with_request_profiles scope profiles) = allows scope"
  "allows (with_disable_fast scope flag) = allows scope"
  by (simp_all add: fun_eq_iff allows_def with_request_profiles_def with_disable_fast_def split: option.split)

lemma allows_all: "allows (new_FrozenAccountScope (new_RuntimeAccountDirectory es) AllAccounts) a \<longleftrightarrow> map_of es a \<noteq> None"
  by (force simp: allows_iff new_FrozenAccountScope_def dir_account_def dest: map_of_SomeD)

lemma allows_restricted_groups:
  "allows (new_FrozenAccountScope (new_RuntimeAccountDirectory es)
       (Restricted bound (set enabled) (providers_for_groups (new_RuntimeAccountDirectory es) enabled))) a
     \<longleftrightarrow> (\<exists>account. map_of es a = Some account \<and> set (rt_group_ids account) \<inter> set enabled \<noteq> {})"
proof -
  have "rt_provider_kind account \<in> providers_for_groups (new_RuntimeAccountDirectory es) enabled"
    if "map_of es a = Some account" "set (rt_group_ids account) \<inter> set enabled \<noteq> {}" for account
    using that map_of_SomeD[OF that(1)] by (auto simp: providers_for_groups_union)
  then show ?thesis
    by (auto simp: allows_iff new_FrozenAccountScope_def dir_account_def)
qed

lemma bind_groups_facts:
  "bind_groups groups gs seen b = Ok r \<Longrightarrow>
     set (bg_enabled r) = set (bg_enabled b) \<union> {g \<in> set gs. \<exists>f. groups g = Some f \<and> agf_enabled f}
     \<and> (bg_disable_fast r \<longleftrightarrow> bg_disable_fast b \<or> (\<exists>g \<in> set gs. \<exists>f. groups g = Some f \<and> agf_disable_fast f))
     \<and> length (bg_bound r) = length (bg_bound b) + length gs"
proof (induction groups gs seen b arbitrary: r rule: bind_groups.induct)
  case (2 groups g gs seen b)
  then obtain f where "g \<notin> seen" "groups g = Some f"
    by (auto split: if_splits option.splits)
  with 2 show ?case
    by (auto split: if_splits)
qed simp

text \<open>The permission a key compiles to, over the directory and the groups.\<close>

definition key_permits ::
  "(AccountGroupId \<rightharpoonup> SnapshotAccountGroupFacts) \<Rightarrow> (ProviderAccountId \<times> RuntimeAccount) list
   \<Rightarrow> SnapshotClientPolicyFacts \<Rightarrow> ProviderAccountId \<Rightarrow> bool" where
  "key_permits groups es f a \<longleftrightarrow>
     (\<exists>account. map_of es a = Some account
        \<and> (cpf_group_ids f = []
           \<or> (\<exists>g \<in> set (cpf_group_ids f). g \<in> set (rt_group_ids account)
                \<and> is_some_and (groups g) agf_enabled)))"

lemma policy_scope_exact:
  assumes "policy_scope groups (new_RuntimeAccountDirectory es) f = Ok scope"
  shows "allows scope a \<longleftrightarrow> key_permits groups es f a"
    "scope_disable_fast scope \<longleftrightarrow> (\<exists>g \<in> set (cpf_group_ids f). is_some_and (groups g) agf_disable_fast)"
    "scope_request_profiles scope = cpf_request_profiles f"
    "scope_directory scope = new_RuntimeAccountDirectory es"
proof -
  let ?d = "new_RuntimeAccountDirectory es"
  have "(allows scope a \<longleftrightarrow> key_permits groups es f a)
     \<and> (scope_disable_fast scope \<longleftrightarrow> (\<exists>g \<in> set (cpf_group_ids f). is_some_and (groups g) agf_disable_fast))
     \<and> scope_request_profiles scope = cpf_request_profiles f
     \<and> scope_directory scope = ?d"
  proof (cases "cpf_group_ids f = []")
    case True
    then have scope: "scope = with_request_profiles (with_disable_fast (new_FrozenAccountScope ?d AllAccounts) False)
        (cpf_request_profiles f)"
      using assms by (simp add: policy_scope_def)
    have "allows scope a \<longleftrightarrow> map_of es a \<noteq> None"
      unfolding scope allows_with by (rule allows_all)
    then show ?thesis
      using True by (simp add: key_permits_def scope with_request_profiles_def with_disable_fast_def
          new_FrozenAccountScope_def)
  next
    case False
    obtain b where b: "bind_groups groups (cpf_group_ids f) {} \<lparr>bg_bound = [], bg_enabled = [], bg_disable_fast = False\<rparr> = Ok b"
      using assms False by (auto simp: policy_scope_def split: sum.splits)
    note facts = bind_groups_facts[OF b]
    let ?bound = "sort_key (\<lambda>g. group_id_str (group_snapshot_id g)) (bg_bound b)"
    have scope: "scope = with_request_profiles (with_disable_fast
        (new_FrozenAccountScope ?d (Restricted ?bound (set (bg_enabled b)) (providers_for_groups ?d (bg_enabled b))))
        (bg_disable_fast b)) (cpf_request_profiles f)"
      using assms False b by (auto simp: policy_scope_def restricted_def split: if_splits)
    have "allows scope a \<longleftrightarrow> (\<exists>account. map_of es a = Some account \<and> set (rt_group_ids account) \<inter> set (bg_enabled b) \<noteq> {})"
      unfolding scope allows_with by (rule allows_restricted_groups)
    also have "\<dots> \<longleftrightarrow> key_permits groups es f a"
      using facts False by (auto simp: key_permits_def is_some_and_iff)
    finally show ?thesis
      using facts by (auto simp: scope with_request_profiles_def with_disable_fast_def
          new_FrozenAccountScope_def is_some_and_iff)
  qed
  then show "allows scope a \<longleftrightarrow> key_permits groups es f a"
    "scope_disable_fast scope \<longleftrightarrow> (\<exists>g \<in> set (cpf_group_ids f). is_some_and (groups g) agf_disable_fast)"
    "scope_request_profiles scope = cpf_request_profiles f" "scope_directory scope = ?d"
    by blast+
qed

lemma new_ClientPolicy_simps [simp]:
  "cp_key_id (new_ClientPolicy k t scope e l) = k" "cp_plaintext_key (new_ClientPolicy k t scope e l) = t"
  "cp_account_scope (new_ClientPolicy k t scope e l) = scope" "cp_enabled (new_ClientPolicy k t scope e l) = e"
  "cp_limits (new_ClientPolicy k t scope e l) = l"
  by (simp_all add: new_ClientPolicy_def)

lemma compile_policies_members:
  "compile_policies groups d fs = Ok ps \<Longrightarrow> f \<in> set fs \<Longrightarrow>
     \<exists>scope. policy_scope groups d f = Ok scope
       \<and> new_ClientPolicy (cpf_key_id f) (cpf_plaintext_key f) scope True (cpf_limits f) \<in> set ps"
proof (induction fs arbitrary: ps)
  case (Cons g fs)
  then obtain scope rest where "policy_scope groups d g = Ok scope" "compile_policies groups d fs = Ok rest"
    "ps = new_ClientPolicy (cpf_key_id g) (cpf_plaintext_key g) scope True (cpf_limits g) # rest"
    by (auto split: sum.splits)
  with Cons show ?case by auto
qed simp

lemma compile_policies_keys:
  "compile_policies groups d fs = Ok ps \<Longrightarrow> map cp_key_id ps = map cpf_key_id fs \<and> list_all cp_enabled ps"
  by (induction fs arbitrary: ps) (auto split: sum.splits)

lemma insert_policies_lookup:
  "insert_policies ps known = Ok m \<Longrightarrow> m k = Some p \<longleftrightarrow> known k = Some p \<or> p \<in> set ps \<and> cp_key_id p = k"
proof (induction ps known arbitrary: m rule: insert_policies.induct)
  case (2 q ps known)
  have new: "\<not> known (cp_key_id q) \<noteq> None" and step: "insert_policies ps (known(cp_key_id q \<mapsto> q)) = Ok m"
    using 2(2) by (simp_all split: if_splits)
  from 2(1)[OF new step] new show ?case by auto
qed simp

lemma new_RuntimeSnapshot_shape:
  assumes "new_RuntimeSnapshot version_parse revision values providers models policies = Ok s"
  obtains t m where "insert_providers providers {} = Ok (rs_providers s)"
    "insert_models (rs_providers s) models \<lparr>mt_exhaustive = {}, mt_models = [], mt_presentations = []\<rparr> = Ok t"
    "rs_provider_models s = mt_models t" "rs_presentations s = mt_presentations t"
    "insert_policies policies Map.empty = Ok m" "rs_client_policies s = retain_enabled m"
    "new_CompiledSettings version_parse values = Ok (rs_settings s)"
    "rs_revision s = revision" "rs_extensions s = None"
proof -
  obtain known t m c where k: "insert_providers providers {} = Ok known"
    "insert_models known models \<lparr>mt_exhaustive = {}, mt_models = [], mt_presentations = []\<rparr> = Ok t"
    "insert_policies policies Map.empty = Ok m" "new_CompiledSettings version_parse values = Ok c"
    using assms by (auto simp: new_RuntimeSnapshot_def split: sum.splits)
  then have "s = \<lparr>rs_settings = c, rs_extensions = None, rs_revision = revision, rs_providers = known,
              rs_provider_models = mt_models t, rs_presentations = mt_presentations t,
              rs_catalog_generations = Map.empty, rs_exhaustive_catalogs = mt_exhaustive t,
              rs_catalog_accounts = Map.empty,
              rs_account_directory = new_RuntimeAccountDirectory [],
              rs_client_policies = retain_enabled m\<rparr>"
    using assms by (simp add: new_RuntimeSnapshot_def)
  with k show ?thesis
    by (intro that) simp_all
qed

lemma compile_shape:
  assumes "compile_runtime_snapshot version_parse facts catalog providers previous = Ok s"
  obtains groups accounts memberships policies s0 where
    "collect_groups (sf_account_groups facts) Map.empty = Ok groups"
    "collect_accounts (sf_provider_accounts facts) [] = Ok accounts"
    "collect_memberships groups accounts (sf_group_memberships facts) [] = Ok memberships"
    "compile_policies groups (new_RuntimeAccountDirectory (join_groups memberships accounts))
       (sf_client_policies facts) = Ok policies"
    "new_RuntimeSnapshot version_parse (sf_config_revision facts) (sf_settings facts) providers
       (cc_models (collect_catalogs catalog previous providers)) policies = Ok s0"
    "s = s0\<lparr>rs_account_directory := new_RuntimeAccountDirectory (join_groups memberships accounts),
            rs_exhaustive_catalogs := cc_exhaustive (collect_catalogs catalog previous providers),
            rs_catalog_accounts := cc_accounts (collect_catalogs catalog previous providers)\<rparr>"
  using assms unfolding compile_runtime_snapshot_def Let_def
  by (auto split: sum.split_asm)

lemma key_permits_facts:
  assumes groups: "collect_groups (sf_account_groups facts) Map.empty = Ok groups"
    and accounts: "collect_accounts (sf_provider_accounts facts) [] = Ok accounts"
    and ms: "collect_memberships groups accounts (sf_group_memberships facts) [] = Ok ms"
  shows "key_permits groups (join_groups ms accounts) f a \<longleftrightarrow>
      (\<exists>x \<in> set (sf_provider_accounts facts). paf_account_id x = a)
      \<and> (cpf_group_ids f = []
         \<or> (\<exists>g \<in> set (sf_account_groups facts). agf_id g \<in> set (cpf_group_ids f) \<and> agf_enabled g
              \<and> (\<exists>x \<in> set (sf_group_memberships facts). gmf_group_id x = agf_id g \<and> gmf_account_id x = a)))"
proof -
  let ?es = "join_groups ms accounts"
  have look: "groups i = Some g \<longleftrightarrow> g \<in> set (sf_account_groups facts) \<and> agf_id g = i" for i g
    using collect_groups_lookup[OF groups] by simp
  have keys: "map_of accounts a = None \<longleftrightarrow> \<not> (\<exists>x \<in> set (sf_provider_accounts facts). paf_account_id x = a)" for a
  proof -
    have "map fst accounts = map paf_account_id (sf_provider_accounts facts)"
      using collect_accounts_keys[OF accounts] by simp
    then have "fst ` set accounts = paf_account_id ` set (sf_provider_accounts facts)"
      by (metis list.set_map)
    then show ?thesis by (auto simp: map_of_eq_None_iff)
  qed
  have members: "(g, a) \<in> set ms \<longleftrightarrow> (\<exists>x \<in> set (sf_group_memberships facts). gmf_group_id x = g \<and> gmf_account_id x = a)" for g a
    using collect_memberships_set[OF ms] by auto
  have acc: "(\<exists>account. map_of ?es a = Some account) \<longleftrightarrow> (\<exists>x \<in> set (sf_provider_accounts facts). paf_account_id x = a)"
    using keys[of a] by (cases "map_of accounts a") (auto simp: join_groups_lookup)
  have grp: "set (rt_group_ids account) = {g. (g, a) \<in> set ms}" if "map_of ?es a = Some account" for account
    using that by (auto simp: join_groups_lookup rt_with_model_access_def new_RuntimeAccount_def groups_of_account_set)
  have "key_permits groups ?es f a \<longleftrightarrow> (\<exists>account. map_of ?es a = Some account)
      \<and> (cpf_group_ids f = [] \<or> (\<exists>g \<in> set (cpf_group_ids f). (g, a) \<in> set ms \<and> is_some_and (groups g) agf_enabled))"
    using grp by (auto simp: key_permits_def)
  also have "\<dots> \<longleftrightarrow> (\<exists>x \<in> set (sf_provider_accounts facts). paf_account_id x = a)
      \<and> (cpf_group_ids f = []
         \<or> (\<exists>g \<in> set (cpf_group_ids f). (g, a) \<in> set ms
              \<and> (\<exists>x \<in> set (sf_account_groups facts). agf_id x = g \<and> agf_enabled x)))"
    unfolding acc is_some_and_iff look by blast
  also have "(\<exists>g \<in> set (cpf_group_ids f). (g, a) \<in> set ms
        \<and> (\<exists>x \<in> set (sf_account_groups facts). agf_id x = g \<and> agf_enabled x))
      \<longleftrightarrow> (\<exists>g \<in> set (sf_account_groups facts). agf_id g \<in> set (cpf_group_ids f) \<and> agf_enabled g
            \<and> (agf_id g, a) \<in> set ms)"
    by auto
  finally show ?thesis
    unfolding members .
qed

lemma retained_policies_domain:
  assumes policies: "compile_policies groups d fs = Ok policies" and m: "insert_policies policies Map.empty = Ok m"
  shows "dom (retain_enabled m) = cpf_key_id ` set fs"
proof -
  have "retain_enabled m k \<noteq> None \<longleftrightarrow> k \<in> cp_key_id ` set policies" for k
    using insert_policies_lookup[OF m, of k] compile_policies_keys[OF policies]
    by (cases "m k") (auto simp: retain_enabled_def filter_option_def list_all_iff)
  moreover have "cp_key_id ` set policies = cpf_key_id ` set fs"
    using compile_policies_keys[OF policies] by (metis list.set_map)
  ultimately show ?thesis by auto
qed

text \<open>
  C26: The permission of a client key is exactly what the store says. After compiling, the policy of every
  key in the facts is in force, with its key text and limits, and its scope allows an account exactly when
  the account is in the facts and the key is bound to no group, or to an enabled group the account is a
  member of. A disabled group gives no account, but its fast switch still binds the key. There is no
  policy for any other key.
\<close>

theorem key_permissions_exact:
  assumes "compile_runtime_snapshot version_parse facts catalog providers previous = Ok s"
    "f \<in> set (sf_client_policies facts)"
  shows "\<exists>p. rs_client_policies s (cpf_key_id f) = Some p
     \<and> cp_plaintext_key p = cpf_plaintext_key f \<and> cp_limits p = cpf_limits f \<and> cp_enabled p
     \<and> (\<forall>a. allows (cp_account_scope p) a \<longleftrightarrow>
          (\<exists>x \<in> set (sf_provider_accounts facts). paf_account_id x = a)
          \<and> (cpf_group_ids f = []
             \<or> (\<exists>g \<in> set (sf_account_groups facts). agf_id g \<in> set (cpf_group_ids f) \<and> agf_enabled g
                  \<and> (\<exists>m \<in> set (sf_group_memberships facts). gmf_group_id m = agf_id g \<and> gmf_account_id m = a))))
     \<and> (scope_disable_fast (cp_account_scope p) \<longleftrightarrow>
          (\<exists>g \<in> set (sf_account_groups facts). agf_id g \<in> set (cpf_group_ids f) \<and> agf_disable_fast g))
     \<and> dom (rs_client_policies s) = cpf_key_id ` set (sf_client_policies facts)"
proof -
  obtain groups accounts ms policies s0 where
    groups: "collect_groups (sf_account_groups facts) Map.empty = Ok groups"
    and accounts: "collect_accounts (sf_provider_accounts facts) [] = Ok accounts"
    and ms: "collect_memberships groups accounts (sf_group_memberships facts) [] = Ok ms"
    and policies: "compile_policies groups (new_RuntimeAccountDirectory (join_groups ms accounts))
       (sf_client_policies facts) = Ok policies"
    and s0: "new_RuntimeSnapshot version_parse (sf_config_revision facts) (sf_settings facts) providers
       (cc_models (collect_catalogs catalog previous providers)) policies = Ok s0"
    and s: "s = s0\<lparr>rs_account_directory := new_RuntimeAccountDirectory (join_groups ms accounts),
            rs_exhaustive_catalogs := cc_exhaustive (collect_catalogs catalog previous providers),
            rs_catalog_accounts := cc_accounts (collect_catalogs catalog previous providers)\<rparr>"
    using compile_shape[OF assms(1)] .
  obtain m where m0: "insert_policies policies Map.empty = Ok m" "rs_client_policies s0 = retain_enabled m"
    by (rule new_RuntimeSnapshot_shape[OF s0]) (erule (1) that)
  have m: "insert_policies policies Map.empty = Ok m" "rs_client_policies s = retain_enabled m"
    using m0 s by simp_all
  let ?es = "join_groups ms accounts"
  obtain scope where scope: "policy_scope groups (new_RuntimeAccountDirectory ?es) f = Ok scope"
    and pol: "new_ClientPolicy (cpf_key_id f) (cpf_plaintext_key f) scope True (cpf_limits f) \<in> set policies"
    using compile_policies_members[OF policies assms(2)] by blast
  let ?p = "new_ClientPolicy (cpf_key_id f) (cpf_plaintext_key f) scope True (cpf_limits f)"
  have look: "groups i = Some g \<longleftrightarrow> g \<in> set (sf_account_groups facts) \<and> agf_id g = i" for i g
    using collect_groups_lookup[OF groups] by simp
  note permits = key_permits_facts[OF groups accounts ms, of f]
  have "rs_client_policies s (cpf_key_id f) = Some ?p"
    using insert_policies_lookup[OF m(1), of "cpf_key_id f" ?p] pol m(2)
    by (simp add: retain_enabled_def new_ClientPolicy_def)
  moreover have "dom (rs_client_policies s) = cpf_key_id ` set (sf_client_policies facts)"
    unfolding m(2) by (rule retained_policies_domain[OF policies m(1)])
  ultimately show ?thesis
    using policy_scope_exact[OF scope] permits look
    by (auto simp: new_ClientPolicy_def is_some_and_iff)
qed


section \<open>The catalogs of a snapshot\<close>

text \<open>The models the catalog of a provider listed, if it answered.\<close>

definition listed_models :: "ProviderCatalog \<Rightarrow> ProviderKind \<Rightarrow> ProviderModelCapabilities list" where
  "listed_models catalog p = unwrap_or (query_model_capabilities catalog p) []"

text \<open>The accounts that models are listed with; the last entry of a model counts.\<close>

definition listed_accounts :: "ProviderModelCapabilities list \<Rightarrow> (string \<times> ProviderAccountId set) list" where
  "listed_accounts models =
     List.map_filter (\<lambda>m. map_option (\<lambda>accounts. (upstream_model_str (pmc_upstream_model m), accounts)) (pmc_catalog_accounts m)) models"

text \<open>What a snapshot knows of the catalogs: what they answered, or what an earlier snapshot knew of them.\<close>

definition queried_content :: "ProviderCatalog \<Rightarrow> 'v RuntimeSnapshot \<Rightarrow> ProviderKind \<Rightarrow> bool" where
  "queried_content catalog s p \<longleftrightarrow>
     (\<forall>m c. map_of (provider_models_of s p) m = Some c \<longleftrightarrow>
        (\<exists>x \<in> set (listed_models catalog p). pmc_upstream_model x = m \<and> pmc_capabilities x = c))
     \<and> (p \<in> rs_exhaustive_catalogs s \<longleftrightarrow> query_model_capabilities catalog p \<noteq> None \<and> model_catalog_is_exhaustive catalog p)
     \<and> rs_catalog_accounts s p =
         (case listed_accounts (listed_models catalog p) of [] \<Rightarrow> None | known \<Rightarrow> Some (map_of (rev known)))"

definition cached_content :: "'v RuntimeSnapshot \<Rightarrow> 'v RuntimeSnapshot \<Rightarrow> ProviderKind \<Rightarrow> bool" where
  "cached_content previous s p \<longleftrightarrow>
     (\<forall>m c. map_of (provider_models_of s p) m = Some c \<longleftrightarrow> (m, c) \<in> set (provider_models_of previous p))
     \<and> (p \<in> rs_exhaustive_catalogs s \<longleftrightarrow> p \<in> rs_exhaustive_catalogs previous)
     \<and> rs_catalog_accounts s p = rs_catalog_accounts previous p"

lemma insert_models_lookup:
  assumes "insert_models known ms t = Ok t'"
  shows "map_of (unwrap_or (map_of (mt_models t') p) []) m = Some c \<longleftrightarrow>
     map_of (unwrap_or (map_of (mt_models t) p) []) m = Some c
     \<or> (\<exists>x \<in> set ms. pm_provider x = p \<and> pm_upstream_model x = m \<and> pm_capabilities x = c)"
  using assms
proof (induction ms arbitrary: t)
  case (Cons x ms)
  define models where "models = unwrap_or (map_of (mt_models t) (pm_provider x)) []"
  have known: "pm_provider x \<in> known" and fresh: "\<not> is_some (map_of models (pm_upstream_model x))"
    using Cons.prems by (auto simp: Let_def models_def split: if_splits)
  define u where "u = t\<lparr>mt_exhaustive := insert (pm_provider x) (mt_exhaustive t),
      mt_models := AList.update (pm_provider x) ((pm_upstream_model x, pm_capabilities x) # models) (mt_models t)\<rparr>"
  define v where "v = (case pm_presentation x of None \<Rightarrow> u | Some presentation \<Rightarrow>
      u\<lparr>mt_presentations := AList.update (pm_provider x)
          (AList.update (pm_upstream_model x) presentation (unwrap_or (map_of (mt_presentations u) (pm_provider x)) []))
          (mt_presentations u)\<rparr>)"
  have v: "insert_models known ms v = Ok t'"
    using Cons.prems known fresh unfolding models_def u_def v_def by (cases "pm_presentation x") (simp_all add: Let_def)
  have "mt_models v = AList.update (pm_provider x) ((pm_upstream_model x, pm_capabilities x) # models) (mt_models t)"
    by (simp add: v_def u_def split: option.split)
  then have look: "map_of (mt_models v) p =
      (if p = pm_provider x then Some ((pm_upstream_model x, pm_capabilities x) # models) else map_of (mt_models t) p)"
    by (simp add: update_conv')
  show ?case
    unfolding Cons.IH[OF v] using look fresh by (cases "map_of models (pm_upstream_model x)") (auto simp: models_def)
qed simp

lemma insert_providers_distinct:
  "insert_providers ps known = Ok known' \<Longrightarrow> distinct ps \<and> set ps \<inter> known = {} \<and> known' = known \<union> set ps"
  by (induction ps arbitrary: known) (auto split: if_splits)

text \<open>The catalogs are collected provider by provider.\<close>

lemma cached_catalog_facts:
  "cc_models (cached_catalog previous p c) = cc_models c @ map (\<lambda>(m, capabilities).
      \<lparr>pm_provider = p, pm_upstream_model = m, pm_capabilities = capabilities,
       pm_presentation = Option.bind (map_of (rs_presentations previous) p) (\<lambda>t. map_of t m)\<rparr>) (provider_models_of previous p)"
  "cc_exhaustive (cached_catalog previous p c) = cc_exhaustive c \<union> ({p} \<inter> rs_exhaustive_catalogs previous)"
  "cc_accounts (cached_catalog previous p c) q =
     (if q = p \<and> rs_catalog_accounts previous p \<noteq> None then rs_catalog_accounts previous p else cc_accounts c q)"
  by (auto simp: cached_catalog_def Let_def split: option.splits)

definition put_account :: "ProviderKind \<Rightarrow> CatalogAccounts \<Rightarrow> string \<times> ProviderAccountId set \<Rightarrow> CatalogAccounts" where
  "put_account p a kv = a(p \<mapsto> (unwrap_or (a p) Map.empty)(fst kv \<mapsto> snd kv))"

lemma foldl_put:
  "foldl (put_account p) a known q
     = (if q = p \<and> known \<noteq> [] then Some (unwrap_or (a p) Map.empty ++ map_of (rev known)) else a q)"
proof (induction known arbitrary: a)
  case (Cons kv known)
  have "X ++ map_of (rev (kv # known)) = X(fst kv \<mapsto> snd kv) ++ map_of (rev known)" for X
    by (cases kv) (simp add: map_of_append)
  then show ?case
    unfolding foldl_Cons Cons.IH by (cases "known = []") (simp_all add: put_account_def)
qed simp

definition enter_accounts :: "ProviderKind \<Rightarrow> CollectedCatalogs \<Rightarrow> ProviderModelCapabilities \<Rightarrow> CollectedCatalogs" where
  "enter_accounts p c m =
     (case pmc_catalog_accounts m of
        None \<Rightarrow> c
      | Some accounts \<Rightarrow>
          c\<lparr>cc_accounts := (cc_accounts c)
              (p \<mapsto> (unwrap_or (cc_accounts c p) Map.empty)(upstream_model_str (pmc_upstream_model m) \<mapsto> accounts))\<rparr>)"

lemma enter_accounts_put:
  "enter_accounts p c m = (case pmc_catalog_accounts m of None \<Rightarrow> c
     | Some accounts \<Rightarrow> c\<lparr>cc_accounts := put_account p (cc_accounts c) (upstream_model_str (pmc_upstream_model m), accounts)\<rparr>)"
  by (simp only: enter_accounts_def put_account_def fst_conv snd_conv)

lemma foldl_accounts:
  "foldl (enter_accounts p) c models = c\<lparr>cc_accounts := foldl (put_account p) (cc_accounts c) (listed_accounts models)\<rparr>"
proof (induction models arbitrary: c)
  case (Cons m models)
  then show ?case
    by (cases "pmc_catalog_accounts m") (simp_all add: listed_accounts_def map_filter_simps enter_accounts_put)
qed (simp add: listed_accounts_def map_filter_simps)

lemma queried_catalog_accounts:
  "queried_catalog catalog p c = (case query_model_capabilities catalog p of
      None \<Rightarrow> c
    | Some models \<Rightarrow>
        let c = (if model_catalog_is_exhaustive catalog p then c\<lparr>cc_exhaustive := insert p (cc_exhaustive c)\<rparr> else c);
            c = foldl (enter_accounts p) c models
        in c\<lparr>cc_models := cc_models c @ map (\<lambda>m. \<lparr>pm_provider = p, pm_upstream_model = pmc_upstream_model m,
              pm_capabilities = pmc_capabilities m, pm_presentation = pmc_presentation m\<rparr>) models\<rparr>)"
  unfolding queried_catalog_def enter_accounts_def ..

lemma queried_catalog_facts:
  "cc_models (queried_catalog catalog p c) = cc_models c @ map (\<lambda>m. \<lparr>pm_provider = p,
      pm_upstream_model = pmc_upstream_model m, pm_capabilities = pmc_capabilities m, pm_presentation = pmc_presentation m\<rparr>)
      (listed_models catalog p)"
  "cc_exhaustive (queried_catalog catalog p c) = cc_exhaustive c
     \<union> (if query_model_capabilities catalog p \<noteq> None \<and> model_catalog_is_exhaustive catalog p then {p} else {})"
  "cc_accounts (queried_catalog catalog p c) q =
     (if q = p \<and> listed_accounts (listed_models catalog p) \<noteq> []
      then Some (unwrap_or (cc_accounts c p) Map.empty ++ map_of (rev (listed_accounts (listed_models catalog p))))
      else cc_accounts c q)"
  by (cases "query_model_capabilities catalog p";
      simp add: queried_catalog_accounts listed_models_def Let_def foldl_accounts foldl_put listed_accounts_def [of "[]"]
        map_filter_simps)+

text \<open>Every provider contributes its own catalog.\<close>

definition collected_from :: "(ProviderKind \<Rightarrow> CollectedCatalogs \<Rightarrow> CollectedCatalogs) \<Rightarrow> ProviderKind list \<Rightarrow> CollectedCatalogs" where
  "collected_from f ps = foldl (\<lambda>c p. f p c) \<lparr>cc_models = [], cc_accounts = Map.empty, cc_exhaustive = {}\<rparr> ps"

lemma collect_catalogs_from:
  "collect_catalogs catalog None ps = collected_from (queried_catalog catalog) ps"
  "collect_catalogs catalog (Some s) ps = collected_from (cached_catalog s) ps"
  by (simp_all add: collect_catalogs_def collected_from_def)

lemma collected_from_facts:
  assumes "\<And>p c. cc_models (f p c) = cc_models c @ models p"
    and "\<And>p c. cc_exhaustive (f p c) = cc_exhaustive c \<union> exhaustive p"
    and "\<And>p c q. cc_accounts c p = None \<Longrightarrow> cc_accounts (f p c) q = (if q = p then listed p else cc_accounts c q)"
    and "distinct ps"
  shows "cc_models (collected_from f ps) = concat (map models ps)"
    "cc_exhaustive (collected_from f ps) = (\<Union>p \<in> set ps. exhaustive p)"
    "cc_accounts (collected_from f ps) q = (if q \<in> set ps then listed q else None)"
proof -
  have "cc_models (collected_from f ps) = concat (map models ps)
      \<and> cc_exhaustive (collected_from f ps) = (\<Union>p \<in> set ps. exhaustive p)
      \<and> (\<forall>q. cc_accounts (collected_from f ps) q = (if q \<in> set ps then listed q else None))"
    using assms(4)
  proof (induction ps rule: rev_induct)
    case (snoc p ps)
    have step: "collected_from f (ps @ [p]) = f p (collected_from f ps)" by (simp add: collected_from_def)
    moreover have "cc_accounts (collected_from f ps) p = None" using snoc by simp
    ultimately show ?case using snoc by (auto simp: assms(1-3))
  qed (simp add: collected_from_def)
  then show "cc_models (collected_from f ps) = concat (map models ps)"
    "cc_exhaustive (collected_from f ps) = (\<Union>p \<in> set ps. exhaustive p)"
    "cc_accounts (collected_from f ps) q = (if q \<in> set ps then listed q else None)" by simp_all
qed

text \<open>What a compiled snapshot knows of the catalogs.\<close>

lemma compiled_content:
  assumes "compile_runtime_snapshot version_parse facts catalog providers previous = Ok s"
  shows "distinct providers \<and> rs_providers s = set providers"
    and "p \<in> set providers \<Longrightarrow> case previous of None \<Rightarrow> queried_content catalog s p | Some old \<Rightarrow> cached_content old s p"
    and "rs_revision s = sf_config_revision facts"
    and "compiled_values (rs_settings s) = sf_settings facts"
proof -
  obtain groups accounts memberships policies s0 where
    s0: "new_RuntimeSnapshot version_parse (sf_config_revision facts) (sf_settings facts) providers
       (cc_models (collect_catalogs catalog previous providers)) policies = Ok s0"
    and s: "s = s0\<lparr>rs_account_directory := new_RuntimeAccountDirectory (join_groups memberships accounts),
            rs_exhaustive_catalogs := cc_exhaustive (collect_catalogs catalog previous providers),
            rs_catalog_accounts := cc_accounts (collect_catalogs catalog previous providers)\<rparr>"
    using compile_shape[OF assms] by metis
  obtain t m where shape: "insert_providers providers {} = Ok (rs_providers s0)"
    "insert_models (rs_providers s0) (cc_models (collect_catalogs catalog previous providers))
       \<lparr>mt_exhaustive = {}, mt_models = [], mt_presentations = []\<rparr> = Ok t"
    "rs_provider_models s0 = mt_models t" "new_CompiledSettings version_parse (sf_settings facts) = Ok (rs_settings s0)"
    "rs_revision s0 = sf_config_revision facts"
    by (rule new_RuntimeSnapshot_shape[OF s0])
  show known: "distinct providers \<and> rs_providers s = set providers"
    using insert_providers_distinct[OF shape(1)] s by simp
  show "rs_revision s = sf_config_revision facts" "compiled_values (rs_settings s) = sf_settings facts"
    using shape(4,5) new_CompiledSettings_facts(1) s by auto
  have models: "map_of (provider_models_of s p) m = Some c \<longleftrightarrow>
      (\<exists>x \<in> set (cc_models (collect_catalogs catalog previous providers)).
         pm_provider x = p \<and> pm_upstream_model x = m \<and> pm_capabilities x = c)" for p m c
    using insert_models_lookup[OF shape(2), of p m c] by (simp add: provider_models_of_def s shape(3))
  assume p: "p \<in> set providers"
  show "case previous of None \<Rightarrow> queried_content catalog s p | Some old \<Rightarrow> cached_content old s p"
  proof (cases previous)
    case None
    note facts = collected_from_facts[of "queried_catalog catalog", OF queried_catalog_facts(1,2) _ conjunct1[OF known],
        of "\<lambda>p. if listed_accounts (listed_models catalog p) = [] then None
                else Some (map_of (rev (listed_accounts (listed_models catalog p))))"]
    have c: "cc_models (collect_catalogs catalog previous providers) = concat (map (\<lambda>p. map (\<lambda>m. \<lparr>pm_provider = p,
        pm_upstream_model = pmc_upstream_model m, pm_capabilities = pmc_capabilities m, pm_presentation = pmc_presentation m\<rparr>)
        (listed_models catalog p)) providers)"
      "cc_exhaustive (collect_catalogs catalog previous providers) = (\<Union>p \<in> set providers.
         if query_model_capabilities catalog p \<noteq> None \<and> model_catalog_is_exhaustive catalog p then {p} else {})"
      "cc_accounts (collect_catalogs catalog previous providers) q = (if q \<in> set providers then
         (if listed_accounts (listed_models catalog q) = [] then None
          else Some (map_of (rev (listed_accounts (listed_models catalog q))))) else None)" for q
      unfolding None collect_catalogs_from by (rule facts; simp add: queried_catalog_facts(3))+
    show ?thesis
      using p models c
      by (auto simp: None queried_content_def s split: list.split if_splits)
  next
    case (Some old)
    note facts = collected_from_facts[of "cached_catalog old", OF cached_catalog_facts(1,2) _ conjunct1[OF known],
        of "rs_catalog_accounts old"]
    have c: "cc_models (collect_catalogs catalog previous providers) = concat (map (\<lambda>p. map (\<lambda>(m, capabilities).
          \<lparr>pm_provider = p, pm_upstream_model = m, pm_capabilities = capabilities,
           pm_presentation = Option.bind (map_of (rs_presentations old) p) (\<lambda>t. map_of t m)\<rparr>) (provider_models_of old p)) providers)"
      "cc_exhaustive (collect_catalogs catalog previous providers) = (\<Union>p \<in> set providers. {p} \<inter> rs_exhaustive_catalogs old)"
      "cc_accounts (collect_catalogs catalog previous providers) q =
         (if q \<in> set providers then rs_catalog_accounts old q else None)" for q
      unfolding Some collect_catalogs_from by (rule facts; simp add: cached_catalog_facts(3))+
    have "map_of (provider_models_of s p) m = Some c \<longleftrightarrow> (m, c) \<in> set (provider_models_of old p)" for m c
      unfolding models c(1) using p by (force split: prod.splits)
    then show ?thesis
      using p c(2,3) by (simp add: Some cached_content_def s)
  qed
qed

section \<open>The compile loop\<close>

text \<open>Extensions carried from round to round are always ones the preparer made for their revision.\<close>

definition prepared_by :: "CompileEnv \<Rightarrow> nat \<Rightarrow> (ConfigRevision \<times> ExtensionSetReference) option \<Rightarrow> bool" where
  "prepared_by env n prepared \<longleftrightarrow>
     (\<forall>r ext. prepared = Some (r, ext) \<longrightarrow>
        (\<exists>prepare. prepare_extensions env = Some prepare \<and> (\<exists>i \<le> n. prepare i r = Some ext)))"

lemma prepared_by_Suc: "prepared_by env n prepared \<Longrightarrow> prepared_by env (Suc n) prepared"
  by (cases prepared) (auto simp: prepared_by_def, meson le_SucI)

lemma prepare_round_facts:
  assumes "prepare_round env n revision prepared = Ok r" "prepared_by env n prepared"
  shows "prepared_by env n r" "map_option fst r = (if prepare_extensions env = None then None else Some revision)"
  using assms
  by (auto simp: prepare_round_def prepared_by_def is_none_or_iff split: option.splits if_splits)

text \<open>The snapshot whose catalogs are taken over: the previous one, if it has the same extensions.\<close>

definition reused :: "'v RuntimeSnapshot option \<Rightarrow> 'v RuntimeSnapshot \<Rightarrow> 'v RuntimeSnapshot option" where
  "reused previous s =
     filter_option (\<lambda>p. map_option ext_id (rs_extensions p) = map_option ext_id (rs_extensions s)) previous"

text \<open>What the snapshot published in round \<open>n\<close> is made of: the settings and the keys are those of the facts read in this
  round. Without a snapshot to reuse, the catalogs are what the providers answered in this round, marked with their
  generations; otherwise they are those of the reused snapshot, and marked with none.\<close>

definition published ::
  "(string \<Rightarrow> 'v option) \<Rightarrow> CompileEnv \<Rightarrow> 'v RuntimeSnapshot option \<Rightarrow> nat \<Rightarrow> 'v RuntimeSnapshot \<Rightarrow> bool" where
  "published version_parse env previous n s \<longleftrightarrow>
     (\<exists>facts s0. load_snapshot_facts env n = Some facts \<and> rs_revision s = sf_config_revision facts
        \<and> sf_observed_current_revision facts = rs_revision s
        \<and> compiled_values (rs_settings s) = sf_settings facts
        \<and> compile_runtime_snapshot version_parse facts (catalog_at env n) (map fst (generations_before env n))
            (reused previous s) = Ok s0
        \<and> s = s0\<lparr>rs_catalog_generations := rs_catalog_generations s, rs_extensions := rs_extensions s\<rparr>)
     \<and> generations_before env n = generations_after env n
     \<and> distinct (map fst (generations_after env n)) \<and> rs_providers s = fst ` set (generations_after env n)
     \<and> (case reused previous s of
          None \<Rightarrow> rs_catalog_generations s = map_of (generations_after env n)
            \<and> (\<forall>p \<in> rs_providers s. queried_content (catalog_at env n) s p)
        | Some old \<Rightarrow> rs_catalog_generations s = Map.empty \<and> (\<forall>p \<in> rs_providers s. cached_content old s p))
     \<and> validate_extension_models s = Ok ()
     \<and> (case prepare_extensions env of
          None \<Rightarrow> rs_extensions s = None
        | Some prepare \<Rightarrow> current_config_revision env n = Some (rs_revision s)
            \<and> (\<exists>ext i. i \<le> n \<and> prepare i (rs_revision s) = Some ext \<and> rs_extensions s = Some ext))"

lemma content_kept [simp]:
  "queried_content catalog (s\<lparr>rs_catalog_generations := g, rs_extensions := e\<rparr>) p = queried_content catalog s p"
  "cached_content old (s\<lparr>rs_catalog_generations := g, rs_extensions := e\<rparr>) p = cached_content old s p"
  by (simp_all add: queried_content_def cached_content_def provider_models_of_def)

lemma compile_round_Ok:
  assumes "compile_loop version_parse env previous (Suc rounds) n prepared = Ok s" "prepared_by env n prepared"
  obtains (stable) "published version_parse env previous n s"
  | (again) prepared' where "compile_loop version_parse env previous rounds (Suc n) prepared' = Ok s"
      "prepared_by env (Suc n) prepared'" "generations_before env n \<noteq> generations_after env n"
proof -
  obtain facts where facts: "load_snapshot_facts env n = Some facts"
    "sf_observed_current_revision facts = sf_config_revision facts"
    using assms(1) by (auto split: option.splits if_splits)
  obtain r where r: "prepare_round env n (sf_config_revision facts) prepared = Ok r"
    using assms(1) facts by (auto simp: Let_def split: sum.splits)
  note prep = prepare_round_facts[OF r assms(2)]
  let ?cached = "filter_option (\<lambda>p. map_option ext_id (rs_extensions p) = map_option ext_id (map_option snd r)) previous"
  obtain s0 where s0: "compile_runtime_snapshot version_parse facts (catalog_at env n)
      (map fst (generations_before env n)) ?cached = Ok s0"
    using assms(1) facts r by (auto simp: Let_def split: sum.splits)
  show ?thesis
  proof (cases "generations_before env n = generations_after env n")
    case True
    let ?s = "s0\<lparr>rs_catalog_generations := (if is_some ?cached then Map.empty else map_of (generations_after env n)),
                 rs_extensions := map_option snd r\<rparr>"
    have ok: "\<not> (is_some (map_option snd r) \<and> current_config_revision env n \<noteq> Some (sf_config_revision facts))"
      using assms(1) facts r s0 True by (auto simp: Let_def split: if_splits)
    then have s: "s = ?s" and valid: "validate_extension_models s = Ok ()"
      using assms(1) facts r s0 True by (auto simp: Let_def split: sum.splits if_splits)
    note content = compiled_content[OF s0]
    have ext: "rs_extensions s = map_option snd r" and from_cache: "reused previous s = ?cached"
      using s by (simp_all add: reused_def)
    have revision: "rs_revision s = sf_config_revision facts"
      and settings: "compiled_values (rs_settings s) = sf_settings facts"
      using s content(3,4) by simp_all
    have observed: "sf_observed_current_revision facts = rs_revision s" using facts(2) revision by simp
    have made: "compile_runtime_snapshot version_parse facts (catalog_at env n) (map fst (generations_before env n))
        (reused previous s) = Ok s0" using s0 from_cache by simp
    have kept: "s = s0\<lparr>rs_catalog_generations := rs_catalog_generations s, rs_extensions := rs_extensions s\<rparr>"
      unfolding s by simp
    have providers: "distinct (map fst (generations_after env n))" "rs_providers s = fst ` set (generations_after env n)"
      using s content(1) True by simp_all
    have catalogs: "case reused previous s of
          None \<Rightarrow> rs_catalog_generations s = map_of (generations_after env n)
            \<and> (\<forall>p \<in> rs_providers s. queried_content (catalog_at env n) s p)
        | Some old \<Rightarrow> rs_catalog_generations s = Map.empty \<and> (\<forall>p \<in> rs_providers s. cached_content old s p)"
    proof (cases ?cached)
      case None
      then show ?thesis unfolding from_cache using s content(1,2) by (simp add: image_iff)
    next
      case (Some old)
      then show ?thesis unfolding from_cache using s content(1,2) by (simp add: image_iff)
    qed
    have extended: "case prepare_extensions env of
          None \<Rightarrow> rs_extensions s = None
        | Some prepare \<Rightarrow> current_config_revision env n = Some (rs_revision s)
            \<and> (\<exists>ext i. i \<le> n \<and> prepare i (rs_revision s) = Some ext \<and> rs_extensions s = Some ext)"
      using ok prep ext revision
      by (cases r) (auto simp: prepared_by_def split: if_splits option.splits)
    have "published version_parse env previous n s"
      unfolding published_def
      by (intro conjI exI[of _ facts] exI[of _ s0] facts(1) revision observed settings made kept True providers catalogs
          valid extended)
    then show ?thesis by (rule stable)
  next
    case False
    then have "compile_loop version_parse env previous rounds (Suc n) r = Ok s"
      using assms(1) facts r s0 by (simp add: Let_def)
    then show ?thesis
      using again prepared_by_Suc[OF prep(1)] False by blast
  qed
qed

lemma compile_loop_Ok:
  "compile_loop version_parse env previous rounds n prepared = Ok s \<Longrightarrow> prepared_by env n prepared
     \<Longrightarrow> \<exists>k<rounds. published version_parse env previous (n + k) s
           \<and> (\<forall>j<k. generations_before env (n + j) \<noteq> generations_after env (n + j))"
proof (induction rounds arbitrary: n prepared)
  case (Suc rounds)
  show ?case
  proof (rule compile_round_Ok[OF Suc.prems])
    assume "published version_parse env previous n s"
    then show ?thesis by (intro exI[of _ 0]) simp
  next
    fix prepared'
    assume again: "compile_loop version_parse env previous rounds (Suc n) prepared' = Ok s"
      "prepared_by env (Suc n) prepared'" "generations_before env n \<noteq> generations_after env n"
    then obtain k where k: "k < rounds" "published version_parse env previous (Suc n + k) s"
      "\<forall>j<k. generations_before env (Suc n + j) \<noteq> generations_after env (Suc n + j)"
      using Suc.IH by blast
    have "generations_before env (n + j) \<noteq> generations_after env (n + j)" if "j < Suc k" for j
      using that again(3) k(3) by (cases j) auto
    then show ?thesis
      using k by (intro exI[of _ "Suc k"]) simp
  qed
qed simp

text \<open>No other failure is reported as a changed catalog.\<close>

lemma collect_groups_Err: "collect_groups gs known = Err e \<Longrightarrow> e = InvalidData"
  by (induction gs known rule: collect_groups.induct) (auto split: if_splits)

lemma collect_accounts_Err: "collect_accounts as known = Err e \<Longrightarrow> e = InvalidData"
  by (induction as known rule: collect_accounts.induct) (auto split: if_splits sum.splits)

lemma collect_memberships_Err: "collect_memberships groups accounts ms known = Err e \<Longrightarrow> e = InvalidData"
  by (induction groups accounts ms known rule: collect_memberships.induct) (auto split: if_splits)

lemma bind_groups_Err: "bind_groups groups gs seen b = Err e \<Longrightarrow> e = InvalidData"
  by (induction groups gs seen b rule: bind_groups.induct) (auto split: if_splits option.splits)

lemma policy_scope_Err: "policy_scope groups d f = Err e \<Longrightarrow> e = InvalidData"
  by (auto simp: policy_scope_def dest: bind_groups_Err split: if_splits sum.splits)

lemma compile_policies_Err: "compile_policies groups d fs = Err e \<Longrightarrow> e = InvalidData"
  by (induction fs) (auto dest: policy_scope_Err split: sum.splits)

lemma validate_aliases_Err: "validate_aliases s seen as = Err e \<Longrightarrow> e = InvalidExtensionModels"
  by (induction s seen as rule: validate_aliases.induct) (auto split: if_splits)

lemmas compile_step_Err = collect_groups_Err collect_accounts_Err collect_memberships_Err compile_policies_Err

lemma compile_runtime_snapshot_Err:
  "compile_runtime_snapshot version_parse facts catalog providers previous = Err e \<Longrightarrow> e = InvalidData"
  unfolding compile_runtime_snapshot_def Let_def
  by (auto dest: compile_step_Err split: sum.split_asm)

lemma prepare_round_Err: "prepare_round env n revision prepared = Err e \<Longrightarrow> e = ExtensionsUnavailable"
  by (auto simp: prepare_round_def split: option.splits if_splits)

lemma compile_loop_changed:
  "compile_loop version_parse env previous rounds n prepared = Err CatalogChanged \<Longrightarrow>
     \<forall>j<rounds. generations_before env (n + j) \<noteq> generations_after env (n + j)"
proof (induction rounds arbitrary: n prepared)
  case (Suc rounds)
  obtain r where r: "compile_loop version_parse env previous rounds (Suc n) r = Err CatalogChanged"
    "generations_before env n \<noteq> generations_after env n"
    using Suc.prems prepare_round_Err compile_runtime_snapshot_Err validate_aliases_Err
    by (fastforce simp: Let_def validate_extension_models_def split: option.split_asm if_split_asm sum.split_asm)
  have "generations_before env (n + j) \<noteq> generations_after env (n + j)" if "j < Suc rounds" for j
    using that r(2) Suc.IH[OF r(1)] by (cases j) auto
  then show ?case by blast
qed simp

text \<open>
  C28: What is published is consistent. A snapshot that the compiler returns was compiled in one of at
  most four rounds, with the settings, keys and accounts of the facts read in this round, whose revision was the
  current one when they were read; all earlier rounds saw the catalogs change. Without an earlier snapshot to reuse,
  its catalogs are exactly what the providers answered in this round, and their generations, which did not change
  while they were read, mark the snapshot. When an earlier snapshot with the same extensions is given, the catalogs
  are exactly those of that snapshot (they may be older than the providers' current ones) and no generation is
  marked. The aliases are valid, the extensions are the ones prepared for this very revision, and with extensions the
  revision was confirmed once more at the end. A changed catalog is only reported after four rounds that saw a change.
\<close>

theorem compile_publishes_consistent:
  "(\<forall>s. compile_inner version_parse env previous = Ok s \<longrightarrow>
      (\<exists>n<4. published version_parse env previous n s \<and> (\<forall>j<n. generations_before env j \<noteq> generations_after env j)))
   \<and> (compile_inner version_parse env previous = Err CatalogChanged \<longrightarrow>
      (\<forall>j<4. generations_before env j \<noteq> generations_after env j))"
proof -
  have "prepared_by env 0 None" by (simp add: prepared_by_def)
  then show ?thesis
    using compile_loop_Ok[of version_parse env previous 4 0 None]
      compile_loop_changed[of version_parse env previous 4 0 None]
    by (simp add: compile_inner_def MAXIMUM_CATALOG_STABILITY_ATTEMPTS_def)
qed


section \<open>A concrete configuration\<close>

text \<open>Two accounts of one provider, one of them in a group that a client key is bound to, a catalog with
  one model, two mappings and one contributed alias. The catalog changes during the first round.\<close>

definition sample_kind :: ProviderKind where "sample_kind = ProviderKind ''openai''"

definition sample_settings :: SettingsValues where
  "sample_settings = new_SettingsValues 0 0 ''round_robin'' [(''fast'', ''quick''), (''quick'', ''gpt'')] None None"

definition sample_key :: SnapshotClientPolicyFacts where
  "sample_key =
     \<lparr>cpf_request_profiles = Map.empty, cpf_key_id = ClientApiKeyId ''k'',
      cpf_plaintext_key = PlaintextClientApiKey ''sk-1'', cpf_group_ids = [AccountGroupId ''g''],
      cpf_limits = unlimited_RateLimits\<rparr>"

definition sample_facts :: SnapshotFacts where
  "sample_facts =
     \<lparr>sf_config_revision = ConfigRevision 7, sf_observed_current_revision = ConfigRevision 7,
      sf_settings = sample_settings, sf_client_policies = [sample_key],
      sf_account_groups = [\<lparr>agf_disable_fast = True, agf_id = AccountGroupId ''g'', agf_name = ''team'', agf_enabled = True\<rparr>],
      sf_provider_accounts =
        [\<lparr>paf_account_id = ProviderAccountId ''a'', paf_provider_kind = ''openai'', paf_model_access = access_all\<rparr>,
         \<lparr>paf_account_id = ProviderAccountId ''b'', paf_provider_kind = ''openai'', paf_model_access = access_all\<rparr>],
      sf_group_memberships =
        [\<lparr>gmf_group_id = AccountGroupId ''g'', gmf_account_id = ProviderAccountId ''a''\<rparr>]\<rparr>"

definition sample_catalog :: ProviderCatalog where
  "sample_catalog =
     \<lparr>query_model_capabilities = (\<lambda>_. Some
        [\<lparr>pmc_upstream_model = UpstreamModelId ''gpt'',
          pmc_capabilities = new_ModelCapabilities {OkGenerate, OkSearch} None,
          pmc_presentation = None, pmc_catalog_accounts = None\<rparr>]),
      model_catalog_is_exhaustive = (\<lambda>_. True)\<rparr>"

definition sample_extensions :: ExtensionSetReference where
  "sample_extensions =
     \<lparr>ext_id = ''e1'', ext_model_aliases =
        [\<lparr>alias_owner = ''plugin'', alias_id = PublicModelId ''mine'', alias_provider = sample_kind,
          alias_target = UpstreamModelId ''gpt''\<rparr>]\<rparr>"

definition sample_env :: CompileEnv where
  "sample_env =
     \<lparr>load_snapshot_facts = (\<lambda>_. Some sample_facts), current_config_revision = (\<lambda>_. Some (ConfigRevision 7)),
      generations_before = (\<lambda>n. [(sample_kind, n)]), generations_after = (\<lambda>n. [(sample_kind, 1)]),
      catalog_at = (\<lambda>_. sample_catalog), prepare_extensions = Some (\<lambda>_ _. Some sample_extensions),
      extension_ready = (\<lambda>_ _. True)\<rparr>"

definition sample_versions :: "string \<Rightarrow> nat option" where "sample_versions = (\<lambda>_. None)"

lemma sample_settings_compile:
  obtains c where "new_CompiledSettings sample_versions sample_settings = Ok c" "compiled_values c = sample_settings"
proof -
  have "RotationStrategy_parse ''round_robin'' = Some RoundRobin" by code_simp
  then have "\<exists>c. new_CompiledSettings sample_versions sample_settings = Ok c"
    by (simp add: new_CompiledSettings_def sample_settings_def new_SettingsValues_def body_limit_def
        parse_optional_version_def Let_def)
  then show ?thesis using that new_CompiledSettings_facts(1) by blast
qed

lemma sample_names:
  "new_ProviderKind ''openai'' = Ok sample_kind" "\<not> group_name_invalid ''team''"
  by code_simp+

text \<open>The snapshot of this configuration, over its compiled settings.\<close>

definition sample_directory :: RuntimeAccountDirectory where
  "sample_directory = new_RuntimeAccountDirectory
     [(ProviderAccountId ''a'', rt_with_model_access (new_RuntimeAccount sample_kind [AccountGroupId ''g'']) access_all),
      (ProviderAccountId ''b'', rt_with_model_access (new_RuntimeAccount sample_kind []) access_all)]"

definition sample_scope :: FrozenAccountScope where
  "sample_scope = with_request_profiles (with_disable_fast
     (new_FrozenAccountScope sample_directory
        (Restricted [\<lparr>group_snapshot_id = AccountGroupId ''g'', group_snapshot_name = ''team''\<rparr>] {AccountGroupId ''g''}
           (providers_for_groups sample_directory [AccountGroupId ''g'']))) True) Map.empty"

definition sample_snapshot :: "nat CompiledSettings \<Rightarrow> nat RuntimeSnapshot" where
  "sample_snapshot c =
     \<lparr>rs_settings = c, rs_extensions = Some sample_extensions, rs_revision = ConfigRevision 7,
      rs_providers = {sample_kind},
      rs_provider_models =
        [(sample_kind, [(UpstreamModelId ''gpt'', new_ModelCapabilities {OkGenerate, OkSearch} None)])],
      rs_presentations = [], rs_catalog_generations = map_of [(sample_kind, 1)],
      rs_exhaustive_catalogs = {sample_kind}, rs_catalog_accounts = Map.empty,
      rs_account_directory = sample_directory,
      rs_client_policies = [ClientApiKeyId ''k'' \<mapsto>
        new_ClientPolicy (ClientApiKeyId ''k'') (PlaintextClientApiKey ''sk-1'') sample_scope True unlimited_RateLimits]\<rparr>"

lemma sample_policy_scope:
  "policy_scope [AccountGroupId ''g'' \<mapsto>
       \<lparr>agf_disable_fast = True, agf_id = AccountGroupId ''g'', agf_name = ''team'', agf_enabled = True\<rparr>]
     sample_directory sample_key = Ok sample_scope"
  by (simp add: policy_scope_def sample_key_def sample_scope_def restricted_def)

lemma sample_accounts:
  "collect_accounts (sf_provider_accounts sample_facts) [] = Ok
     [(ProviderAccountId ''a'', rt_with_model_access (new_RuntimeAccount sample_kind []) access_all),
      (ProviderAccountId ''b'', rt_with_model_access (new_RuntimeAccount sample_kind []) access_all)]"
  "new_RuntimeAccountDirectory (join_groups [(AccountGroupId ''g'', ProviderAccountId ''a'')]
     [(ProviderAccountId ''a'', rt_with_model_access (new_RuntimeAccount sample_kind []) access_all),
      (ProviderAccountId ''b'', rt_with_model_access (new_RuntimeAccount sample_kind []) access_all)]) = sample_directory"
  using sample_names
  by (simp_all add: sample_facts_def join_groups_def groups_of_account_def sample_directory_def
      rt_with_model_access_def new_RuntimeAccount_def)

lemma sample_round:
  assumes "new_CompiledSettings sample_versions sample_settings = Ok c"
  shows "compile_runtime_snapshot sample_versions sample_facts sample_catalog [sample_kind] None =
     Ok ((sample_snapshot c)\<lparr>rs_extensions := None, rs_catalog_generations := Map.empty\<rparr>)"
proof -
  have groups: "collect_groups (sf_account_groups sample_facts) Map.empty = Ok [AccountGroupId ''g'' \<mapsto>
       \<lparr>agf_disable_fast = True, agf_id = AccountGroupId ''g'', agf_name = ''team'', agf_enabled = True\<rparr>]"
    using sample_names by (simp add: sample_facts_def)
  show ?thesis
    unfolding compile_runtime_snapshot_def groups sample_accounts(1) Let_def
    using assms sample_policy_scope sample_accounts(2)
    by (simp add: sample_facts_def collect_catalogs_def queried_catalog_def sample_catalog_def
        new_RuntimeSnapshot_def sample_snapshot_def retain_enabled_def fun_eq_iff new_ClientPolicy_def)
      (simp add: sample_key_def)
qed

lemma sample_compiles:
  assumes "new_CompiledSettings sample_versions sample_settings = Ok c" "compiled_values c = sample_settings"
  shows "compile_inner sample_versions sample_env None = Ok (sample_snapshot c)"
    "validate_extension_models (sample_snapshot c) = Ok ()"
proof -
  show valid: "validate_extension_models (sample_snapshot c) = Ok ()"
    using assms(2)
    by (simp add: validate_extension_models_def model_aliases_def sample_snapshot_def sample_extensions_def
        alias_valid_def sample_settings_def new_SettingsValues_def model_alias_def provider_models_of_def)
  have rounds: "MAXIMUM_CATALOG_STABILITY_ATTEMPTS = Suc (Suc (Suc (Suc 0)))"
    by (simp add: MAXIMUM_CATALOG_STABILITY_ATTEMPTS_def)
  have upd: "(sample_snapshot c)\<lparr>rs_catalog_generations := [sample_kind \<mapsto> Suc 0],
      rs_extensions := Some sample_extensions\<rparr> = sample_snapshot c"
    by (simp add: sample_snapshot_def)
  have revision: "sf_config_revision sample_facts = ConfigRevision 7"
    "sf_observed_current_revision sample_facts = ConfigRevision 7"
    by (simp_all add: sample_facts_def)
  show "compile_inner sample_versions sample_env None = Ok (sample_snapshot c)"
    unfolding compile_inner_def rounds sample_env_def
    using sample_round[OF assms(1)] valid upd
    by (simp add: prepare_round_def revision Let_def del: Suc_1)
qed


theorem mapped_model_exact_witness:
  "\<exists>c. new_CompiledSettings sample_versions sample_settings = Ok c
     \<and> mapped_model (sample_snapshot c) ''fast'' = ''gpt'' \<and> mapped_model (sample_snapshot c) ''mine'' = ''gpt''
     \<and> mapped_model (sample_snapshot c) ''other'' = ''other''"
proof -
  obtain c where c: "new_CompiledSettings sample_versions sample_settings = Ok c" "compiled_values c = sample_settings"
    using sample_settings_compile .
  have al: "model_alias (sample_snapshot c) ''fast'' = None" "model_alias (sample_snapshot c) ''other'' = None"
    "map_option alias_target (model_alias (sample_snapshot c) ''mine'') = Some (UpstreamModelId ''gpt'')"
    by (simp_all add: model_alias_def model_aliases_def sample_snapshot_def sample_extensions_def)
  have "resolves_in (mappings (sample_snapshot c)) (Suc (Suc 0)) ''fast'' ''gpt''"
    "resolves_in (mappings (sample_snapshot c)) 0 ''other'' ''other''"
    using c(2) by (simp_all add: resolves_in_def sample_snapshot_def sample_settings_def new_SettingsValues_def)
  moreover have "Suc (Suc 0) < (20 :: nat)" "0 < (20 :: nat)" by simp_all
  ultimately have "mapped_model (sample_snapshot c) ''fast'' = ''gpt''" "mapped_model (sample_snapshot c) ''other'' = ''other''"
    using mapped_model_exact[of "sample_snapshot c" "''fast''", unfolded al(1) option.case]
      mapped_model_exact[of "sample_snapshot c" "''other''", unfolded al(2) option.case]
    by blast+
  moreover have "mapped_model (sample_snapshot c) ''mine'' = ''gpt''"
    using al(3) mapped_model_exact[of "sample_snapshot c" "''mine''"] by auto
  ultimately show ?thesis
    using c(1) by blast
qed

theorem mapped_model_idempotent_witness:
  "\<exists>c. validate_extension_models (sample_snapshot c) = Ok ()
     \<and> mapped_model (sample_snapshot c) (mapped_model (sample_snapshot c) ''fast'') = mapped_model (sample_snapshot c) ''fast''"
proof -
  obtain c where "new_CompiledSettings sample_versions sample_settings = Ok c" "compiled_values c = sample_settings"
    using sample_settings_compile .
  then show ?thesis
    using mapped_model_idempotent[of "sample_snapshot c"] sample_compiles(2) by blast
qed

definition sample_routing :: RoutingContext where
  "sample_routing = \<lparr>required_provider = None, blocked_providers = {}\<rparr>"

lemma sample_scope_allows: "allows sample_scope (ProviderAccountId ''a'')"
  unfolding sample_scope_def allows_with sample_directory_def
  using allows_restricted_groups[of _ _ "[AccountGroupId ''g'']" "ProviderAccountId ''a''"]
  by (simp add: rt_with_model_access_def new_RuntimeAccount_def)

lemma sample_scope_fields:
  "scope_directory sample_scope = sample_directory" "scope_provider_kinds sample_scope = {sample_kind}"
  "dir_wf (scope_directory sample_scope)"
proof -
  show dir: "scope_directory sample_scope = sample_directory"
    by (simp add: sample_scope_def with_request_profiles_def with_disable_fast_def new_FrozenAccountScope_def)
  show "dir_wf (scope_directory sample_scope)"
    unfolding dir by (simp add: sample_directory_def dir_wf_def)
  have "providers_for_groups sample_directory [AccountGroupId ''g''] = {sample_kind}" by code_simp
  then show "scope_provider_kinds sample_scope = {sample_kind}"
    by (simp add: sample_scope_def with_request_profiles_def with_disable_fast_def new_FrozenAccountScope_def)
qed

lemma sample_scope_model: "allows_provider_model sample_scope sample_kind m"
  using sample_scope_allows
  by (simp add: allows_provider_model_def sample_scope_fields allows_model_def sample_directory_def dir_account_def
      rt_with_model_access_def new_RuntimeAccount_def access_all_allows)

lemma sample_serves:
  assumes "compiled_values c = sample_settings"
  shows "upstream_of (sample_snapshot c) (PublicModelId ''fast'') = Ok (UpstreamModelId ''gpt'')"
    "serves (sample_snapshot c) (PublicModelId ''fast'') (capability_requirements SearchOperation) sample_scope
       sample_routing True (UpstreamModelId ''gpt'') sample_kind {}"
proof -
  let ?s = "sample_snapshot c"
  have table: "mappings ?s = [(''fast'', ''quick''), (''quick'', ''gpt'')]"
    using assms by (simp add: sample_snapshot_def sample_settings_def new_SettingsValues_def)
  have "follow_mappings (mappings ?s) ''fast'' 20 {} ''fast'' = ''gpt''"
    by (intro follow_from_start(1)[of "Suc (Suc 0)"]) (simp_all add: resolves_in_def table)
  moreover have no: "model_alias ?s ''fast'' = None"
    by (simp add: model_alias_def model_aliases_def sample_snapshot_def sample_extensions_def)
  ultimately have "mapped_model ?s ''fast'' = ''gpt''"
    by (simp add: mapped_model_def)
  moreover have "new_UpstreamModelId ''gpt'' = Ok (UpstreamModelId ''gpt'')" by code_simp
  ultimately show "upstream_of ?s (PublicModelId ''fast'') = Ok (UpstreamModelId ''gpt'')"
    by (simp add: upstream_of_def Let_def table)
  have "match_requirements (new_ModelCapabilities {OkGenerate, OkSearch} None) (capability_requirements SearchOperation) = Some {}"
    by code_simp
  then show "serves ?s (PublicModelId ''fast'') (capability_requirements SearchOperation) sample_scope sample_routing True
      (UpstreamModelId ''gpt'') sample_kind {}"
    using no sample_scope_model
    by (simp add: serves_def provider_models_of_def sample_routing_def)
      (simp add: sample_snapshot_def)
qed

lemma sample_planned: "planned_providers sample_scope sample_routing = {sample_kind}"
  by (simp add: planned_providers_def sample_routing_def sample_scope_fields)

lemma sample_plans:
  assumes "compiled_values c = sample_settings"
  shows "\<exists>p. plan_request (sample_snapshot c) (PublicModelId ''fast'') SearchOperation sample_scope sample_routing = Ok p"
proof -
  have "providers_in_order {sample_kind} = [sample_kind]"
    by (simp add: providers_in_order_def sample_kind_def)
  moreover obtain x where "provider_candidate (sample_snapshot c) (PublicModelId ''fast'') (capability_requirements SearchOperation)
      sample_scope sample_routing True sample_kind = Ok (Some x)"
    using sample_serves[OF assms] provider_candidate_Some by blast
  ultimately show ?thesis
    by (simp add: plan_request_def plan_inner_def sample_planned sample_scope_fields)
qed

theorem plan_holds_the_serving_providers_witness:
  "\<exists>c p up. plan_request (sample_snapshot c) (PublicModelId ''fast'') SearchOperation sample_scope sample_routing = Ok p
     \<and> upstream_of (sample_snapshot c) (PublicModelId ''fast'') = Ok up
     \<and> (\<exists>x \<in> set (plan_candidates p). pc_provider x = sample_kind
          \<and> (\<exists>a. allows_model sample_scope a (upstream_model_str up)))
     \<and> plan_config_revision p = ConfigRevision 7"
proof -
  obtain c where "new_CompiledSettings sample_versions sample_settings = Ok c"
    and c: "compiled_values c = sample_settings"
    using sample_settings_compile .
  obtain p where p: "plan_request (sample_snapshot c) (PublicModelId ''fast'') SearchOperation sample_scope sample_routing = Ok p"
    using sample_plans[OF c] by blast
  have fin: "finite (scope_provider_kinds sample_scope)"
    by (simp add: sample_scope_fields(2))
  note plan = plan_holds_the_serving_providers[OF p fin sample_scope_fields(3)]
  from plan obtain up where up: "upstream_of (sample_snapshot c) (PublicModelId ''fast'') = Ok up"
    "plan_candidates p \<noteq> []"
    "\<forall>x \<in> set (plan_candidates p). pc_provider x \<in> scope_provider_kinds sample_scope
       \<and> (\<exists>a. allows_model sample_scope a (upstream_model_str up)
             \<and> scope_account_provider sample_scope a = Some (pc_provider x))"
    by blast
  have "\<exists>x \<in> set (plan_candidates p). pc_provider x = sample_kind
      \<and> (\<exists>a. allows_model sample_scope a (upstream_model_str up))"
    using hd_in_set[OF up(2)] up(3) unfolding sample_scope_fields(2) by blast
  moreover have "plan_config_revision p = ConfigRevision 7"
    using plan by (simp add: sample_snapshot_def)
  ultimately show ?thesis
    using p up(1) by blast
qed

theorem plan_refusals_witness:
  "finite (scope_provider_kinds sample_scope)
   \<and> (\<exists>c p. plan_request (sample_snapshot c) (PublicModelId ''fast'') SearchOperation sample_scope sample_routing = Ok p)"
proof -
  obtain c where "new_CompiledSettings sample_versions sample_settings = Ok c"
    and c: "compiled_values c = sample_settings"
    using sample_settings_compile .
  have fin: "finite (scope_provider_kinds sample_scope)"
    by (simp add: sample_scope_fields(2))
  have "sample_kind \<in> planned_providers sample_scope sample_routing"
    by (simp add: sample_planned)
  then have "\<exists>p. plan_request (sample_snapshot c) (PublicModelId ''fast'') SearchOperation sample_scope sample_routing = Ok p"
    using conjunct1[OF plan_refusals[OF fin, of "sample_snapshot c" "PublicModelId ''fast''" SearchOperation sample_routing]]
      sample_serves[OF c] by blast
  with fin show ?thesis by blast
qed

theorem key_permissions_exact_witness:
  "\<exists>s p. compile_runtime_snapshot sample_versions sample_facts sample_catalog [sample_kind] None = Ok s
     \<and> rs_client_policies s (ClientApiKeyId ''k'') = Some p
     \<and> allows (cp_account_scope p) (ProviderAccountId ''a'') \<and> \<not> allows (cp_account_scope p) (ProviderAccountId ''b'')
     \<and> scope_disable_fast (cp_account_scope p)"
proof -
  obtain c where c: "new_CompiledSettings sample_versions sample_settings = Ok c"
    and "compiled_values c = sample_settings"
    using sample_settings_compile .
  note compiled = sample_round[OF c]
  have "sample_key \<in> set (sf_client_policies sample_facts)"
    by (simp add: sample_facts_def)
  from key_permissions_exact[OF compiled this] compiled show ?thesis
    by (simp add: sample_facts_def) (auto simp: sample_key_def)
qed

theorem compile_publishes_consistent_witness:
  "\<exists>s n. compile_inner sample_versions sample_env None = Ok s \<and> 0 < n \<and> n < 4 \<and> published sample_versions sample_env None n s"
proof -
  obtain c where c: "new_CompiledSettings sample_versions sample_settings = Ok c" "compiled_values c = sample_settings"
    using sample_settings_compile .
  obtain n where "n < 4" "published sample_versions sample_env None n (sample_snapshot c)"
    using compile_publishes_consistent[of sample_versions sample_env None] sample_compiles(1)[OF c] by blast
  moreover from this have "0 < n"
    by (auto simp: published_def sample_env_def)
  ultimately show ?thesis
    using sample_compiles(1)[OF c] by blast
qed

end
