(* ===== verification/Sse_Codec.thy ===== *)
theory Sse_Codec
  imports Json_Access
begin

text \<open>
  The SSE codec of \<open>gateway-protocol/src/openai/sse.rs\<close>: the incremental decoder with its two modes
  (\<open>push\<close> parses, \<open>push_frames\<close> also keeps the raw bytes), the line parser, and the encoder. Bytes are
  characters, a \<open>&str\<close> is a byte list that passes \<open>utf8\<close>, the check of \<open>std::str::from_utf8\<close>.

  The substring search of the \<open>memchr\<close> crate and the JSON reader and writer of \<open>serde_json\<close> are fields
  of \<open>SseDeps\<close>; the law of the search is the assumption of the locale \<open>sse_deps\<close>. An index or slice out
  of range is a panic, the value \<open>None\<close> of the operations of the decoder. The message inside
  \<open>ParseError\<close> is left out.

  The theorems show that decoding does not depend on how the bytes are chunked, that the transparent
  mode hands on exactly the bytes it was given, and that encoded events come back from the decoder.
\<close>

section \<open>Text of the standard library\<close>

definition is_cont :: "nat \<Rightarrow> nat \<Rightarrow> char \<Rightarrow> bool" where
  "is_cont lo hi c \<longleftrightarrow> lo \<le> byte c \<and> byte c \<le> hi"

text \<open>\<open>run_utf8_validation\<close>: well-formed sequences of one to four bytes, one at a time.\<close>

fun utf8_char :: "string \<Rightarrow> string option" where
  "utf8_char [] = None"
| "utf8_char (a # as) =
     (if byte a < 0x80 then Some as
      else if 0xC2 \<le> byte a \<and> byte a \<le> 0xDF
      then (case as of b # bs \<Rightarrow> if is_cont 0x80 0xBF b then Some bs else None | _ \<Rightarrow> None)
      else if 0xE0 \<le> byte a \<and> byte a \<le> 0xEF
      then (case as of
              b # c # cs \<Rightarrow>
                if is_cont (if byte a = 0xE0 then 0xA0 else 0x80) (if byte a = 0xED then 0x9F else 0xBF) b
                   \<and> is_cont 0x80 0xBF c
                then Some cs else None
            | _ \<Rightarrow> None)
      else if 0xF0 \<le> byte a \<and> byte a \<le> 0xF4
      then (case as of
              b # c # d # ds \<Rightarrow>
                if is_cont (if byte a = 0xF0 then 0x90 else 0x80) (if byte a = 0xF4 then 0x8F else 0xBF) b
                   \<and> is_cont 0x80 0xBF c \<and> is_cont 0x80 0xBF d
                then Some ds else None
            | _ \<Rightarrow> None)
      else None)"

lemma utf8_char_shorter: "utf8_char s = Some r \<Longrightarrow> length r < length s"
  by (cases s) (auto split: list.splits if_splits)

function utf8 :: "string \<Rightarrow> bool" where
  "utf8 s = (s = [] \<or> (case utf8_char s of None \<Rightarrow> False | Some r \<Rightarrow> utf8 r))"
  by pat_completeness auto
termination
  by (relation "measure length") (auto dest: utf8_char_shorter)

declare utf8.simps [simp del]

abbreviation LF :: char where "LF \<equiv> CHR 0x0A"
abbreviation CR :: char where "CR \<equiv> CHR 0x0D"

definition strip_suffix_char :: "char \<Rightarrow> string \<Rightarrow> string" where
  "strip_suffix_char c s = (if s \<noteq> [] \<and> last s = c then butlast s else s)"

definition strip_prefix :: "string \<Rightarrow> string \<Rightarrow> string" where
  "strip_prefix p s = (if prefix p s then drop (length p) s else s)"

fun split_inclusive :: "char \<Rightarrow> string \<Rightarrow> string list" where
  "split_inclusive sep [] = []"
| "split_inclusive sep (c # cs) =
     (if c = sep then [c] # split_inclusive sep cs
      else case split_inclusive sep cs of [] \<Rightarrow> [[c]] | l # ls \<Rightarrow> (c # l) # ls)"

text \<open>\<open>str::lines\<close>: a line ends with LF or CR LF; a CR at the very end of the text is kept.\<close>

definition str_lines :: "string \<Rightarrow> string list" where
  "str_lines s =
     map (\<lambda>line. if line \<noteq> [] \<and> last line = LF then strip_suffix_char CR (butlast line) else line)
       (split_inclusive LF s)"

text \<open>\<open>str::parse::<u64>\<close> accepts a plus sign.\<close>

definition parse_u64 :: "string \<Rightarrow> nat option" where
  "parse_u64 s = (case s of CHR ''+'' # rest \<Rightarrow> parse_u 64 rest | _ \<Rightarrow> parse_u 64 s)"

fun split_once :: "char \<Rightarrow> string \<Rightarrow> (string \<times> string) option" where
  "split_once sep [] = None"
| "split_once sep (c # cs) =
     (if c = sep then Some ([], cs) else map_option (\<lambda>(l, r). (c # l, r)) (split_once sep cs))"


section \<open>Events, frames, errors\<close>

record SseEvent =
  ev_event :: "string option"
  ev_data :: string
  ev_id :: "string option"
  ev_retry :: "nat option"

record SseFrame =
  raw :: string
  frame_events :: "SseEvent list"

datatype SseError = InvalidRetry string | BufferExceeded nat | ParseError

definition MAX_SSE_EVENT_BUFFER_BYTES :: nat where "MAX_SSE_EVENT_BUFFER_BYTES = 64 * 1024 * 1024"

record SseDeps =
  memmem_find :: "string \<Rightarrow> string \<Rightarrow> nat option"
  json_from_str :: "string \<Rightarrow> JsonValue option"
  json_to_string :: "JsonValue \<Rightarrow> string"


section \<open>Parsing the lines of a frame\<close>

record EventBuilder =
  eb_event :: "string option"
  eb_data :: string
  eb_has_data :: bool
  eb_id :: "string option"
  eb_retry :: "nat option"

definition default_builder :: EventBuilder where
  "default_builder = \<lparr>eb_event = None, eb_data = [], eb_has_data = False, eb_id = None, eb_retry = None\<rparr>"

definition push_data :: "string \<Rightarrow> EventBuilder \<Rightarrow> EventBuilder" where
  "push_data v b =
     b\<lparr>eb_data := (if eb_has_data b then eb_data b @ [LF] else eb_data b) @ v, eb_has_data := True\<rparr>"

definition builder_finish :: "EventBuilder \<Rightarrow> SseEvent option \<times> EventBuilder" where
  "builder_finish b =
     (if \<not> eb_has_data b then (None, b\<lparr>eb_event := None, eb_id := None, eb_retry := None\<rparr>)
      else
        let b = b\<lparr>eb_has_data := False\<rparr> in
        if eb_data b = ''[DONE]''
        then (None, b\<lparr>eb_event := None, eb_id := None, eb_retry := None, eb_data := []\<rparr>)
        else (Some \<lparr>ev_event = eb_event b, ev_data = eb_data b, ev_id = eb_id b, ev_retry = eb_retry b\<rparr>,
              b\<lparr>eb_event := None, eb_data := [], eb_id := None, eb_retry := None\<rparr>))"

definition track_event_buffer_bytes :: "nat \<Rightarrow> string \<Rightarrow> SseError + nat" where
  "track_event_buffer_bytes current line =
     (let separator = (if current \<noteq> 0 then 1 else 0);
          current = saturating_add_u 64 (saturating_add_u 64 current separator) (length line)
      in if MAX_SSE_EVENT_BUFFER_BYTES < current then Err (BufferExceeded MAX_SSE_EVENT_BUFFER_BYTES)
         else Ok current)"

definition split_sse_field :: "string \<Rightarrow> string \<times> string" where
  "split_sse_field line =
     (case split_once CHR '':'' line of
        None \<Rightarrow> (line, [])
      | Some (field, v) \<Rightarrow> (field, strip_prefix '' '' v))"

definition is_sse_metadata_line :: "string \<Rightarrow> bool" where
  "is_sse_metadata_line line \<longleftrightarrow>
     prefix ''event:'' line \<or> prefix ''data:'' line \<or> prefix ''id:'' line \<or> prefix ''retry:'' line
     \<or> prefix '':'' line"

record ParseState =
  ps_events :: "SseEvent list"
  ps_builder :: EventBuilder
  ps_saw_sse_syntax :: bool
  ps_event_buffer_bytes :: nat

definition push_event :: "SseEvent option \<Rightarrow> SseEvent list \<Rightarrow> SseEvent list" where
  "push_event e es = (case e of None \<Rightarrow> es | Some ev \<Rightarrow> es @ [ev])"

definition parse_field :: "string \<Rightarrow> EventBuilder \<Rightarrow> SseError + EventBuilder" where
  "parse_field line b =
     (let (field, v) = split_sse_field line in
      if field = ''event'' then Ok (b\<lparr>eb_event := Some v\<rparr>)
      else if field = ''data'' then Ok (push_data v b)
      else if field = ''id'' \<and> CHR 0x00 \<notin> set v then Ok (b\<lparr>eb_id := Some v\<rparr>)
      else if field = ''retry''
      then (case parse_u64 v of None \<Rightarrow> Err (InvalidRetry v) | Some n \<Rightarrow> Ok (b\<lparr>eb_retry := Some n\<rparr>))
      else if eb_has_data b \<and> \<not> is_sse_metadata_line line then Ok (push_data line b)
      else Ok b)"

definition parse_sse_line :: "string \<Rightarrow> ParseState \<Rightarrow> SseError + ParseState" where
  "parse_sse_line raw_line st =
     (let line = strip_suffix_char CR raw_line in
      if line = []
      then let (event, b) = builder_finish (ps_builder st)
           in Ok (st\<lparr>ps_event_buffer_bytes := 0, ps_builder := b, ps_events := push_event event (ps_events st)\<rparr>)
      else case track_event_buffer_bytes (ps_event_buffer_bytes st) raw_line of
             Inl e \<Rightarrow> Err e
           | Inr n \<Rightarrow>
               let st = st\<lparr>ps_event_buffer_bytes := n\<rparr> in
               if prefix '':'' line then Ok (st\<lparr>ps_saw_sse_syntax := True\<rparr>)
               else
                 let st = (if fst (split_sse_field line) \<in> {''event'', ''data'', ''id'', ''retry''}
                           then st\<lparr>ps_saw_sse_syntax := True\<rparr> else st)
                 in map_sum (\<lambda>e. e) (\<lambda>b. st\<lparr>ps_builder := b\<rparr>) (parse_field line (ps_builder st)))"

fun parse_sse_lines :: "string list \<Rightarrow> ParseState \<Rightarrow> SseError + ParseState" where
  "parse_sse_lines [] st = Ok st"
| "parse_sse_lines (l # ls) st =
     (case parse_sse_line l st of Inl e \<Rightarrow> Err e | Inr st \<Rightarrow> parse_sse_lines ls st)"

definition non_sse_error_message :: "SseDeps \<Rightarrow> string \<Rightarrow> string" where
  "non_sse_error_message env text =
     (case json_from_str env text of
        None \<Rightarrow> text
      | Some v \<Rightarrow>
          unwrap_or
            (filter_option (\<lambda>message. trim message \<noteq> [])
              (or_else (Option.bind (json_get ''detail'' v) json_as_str)
                (Option.bind (Option.bind (json_get ''error'' v) (json_get ''message'')) json_as_str)))
            text)"

definition non_sse_response_event :: "SseDeps \<Rightarrow> string \<Rightarrow> SseEvent" where
  "non_sse_response_event env text =
     \<lparr>ev_event = Some ''error'',
      ev_data = json_to_string env
        (JObject [(''error'', JObject [(''type'', JString ''error''), (''code'', JString ''non_sse_response''),
           (''message'', JString (non_sse_error_message env text))])]),
      ev_id = None, ev_retry = None\<rparr>"

definition BOM :: string where "BOM = [CHR 0xEF, CHR 0xBB, CHR 0xBF]"

definition initial_parse :: ParseState where
  "initial_parse =
     \<lparr>ps_events = [], ps_builder = default_builder, ps_saw_sse_syntax = False, ps_event_buffer_bytes = 0\<rparr>"

definition parse_sse_events_inner :: "SseDeps \<Rightarrow> string \<Rightarrow> bool \<Rightarrow> SseError + SseEvent list" where
  "parse_sse_events_inner env input strip_leading_bom =
     (let ls = str_lines input;
          ls = (case ls of [] \<Rightarrow> [] | l # rest \<Rightarrow> (if strip_leading_bom then strip_prefix BOM l else l) # rest)
      in case parse_sse_lines ls initial_parse of
           Inl e \<Rightarrow> Err e
         | Inr st \<Rightarrow>
             let events = push_event (fst (builder_finish (ps_builder st))) (ps_events st)
             in Ok (if events = [] \<and> \<not> ps_saw_sse_syntax st \<and> trim input \<noteq> []
                    then [non_sse_response_event env (trim input)] else events))"

definition parse_sse_events :: "SseDeps \<Rightarrow> string \<Rightarrow> SseError + SseEvent list" where
  "parse_sse_events env input = parse_sse_events_inner env input True"


section \<open>The incremental decoder\<close>

definition sse_frame_separator_bytes :: "SseDeps \<Rightarrow> string \<Rightarrow> (nat \<times> nat) option" where
  "sse_frame_separator_bytes env bytes =
     (let lf = map_option (\<lambda>p. (p, 2)) (memmem_find env bytes [LF, LF]);
          crlf = map_option (\<lambda>p. (p, 4)) (memmem_find env bytes [CR, LF, CR, LF])
      in case (lf, crlf) of
           (Some l, Some r) \<Rightarrow> Some (if fst l \<le> fst r then l else r)
         | (Some l, None) \<Rightarrow> Some l
         | (None, r) \<Rightarrow> r)"

definition sse_frame_end :: "SseDeps \<Rightarrow> string \<Rightarrow> nat option" where
  "sse_frame_end env bytes = map_option (\<lambda>(p, l). p + l) (sse_frame_separator_bytes env bytes)"

record SseEventDecoder =
  pending :: string
  scanned :: nat
  opaque_frame :: bool
  stream_start :: bool

definition default_decoder :: SseEventDecoder where
  "default_decoder = \<lparr>pending = [], scanned = 0, opaque_frame = False, stream_start = True\<rparr>"

definition next_frame_end ::
  "SseDeps \<Rightarrow> nat \<Rightarrow> SseEventDecoder \<Rightarrow> (nat option \<times> SseEventDecoder) option" where
  "next_frame_end env consumed d =
     (let from = max (scanned d - 3) consumed in
      if length (pending d) < from then None
      else case sse_frame_separator_bytes env (drop from (pending d)) of
             Some (p, l) \<Rightarrow> Some (Some (from + p + l), d\<lparr>scanned := from + p + l\<rparr>)
           | None \<Rightarrow> Some (None, d\<lparr>scanned := length (pending d)\<rparr>))"

definition commit_consumed :: "nat \<Rightarrow> SseEventDecoder \<Rightarrow> SseEventDecoder" where
  "commit_consumed consumed d =
     (if consumed \<noteq> 0 then d\<lparr>pending := drop consumed (pending d), scanned := scanned d - consumed\<rparr> else d)"

lemma separator_length: "sse_frame_separator_bytes env bytes = Some (p, l) \<Longrightarrow> l = 2 \<or> l = 4"
  by (auto simp: sse_frame_separator_bytes_def Let_def split: option.splits if_splits)

lemma next_frame_end_progress:
  "next_frame_end env consumed d = Some (Some stop, d') \<Longrightarrow> consumed < stop \<and> pending d' = pending d"
  by (auto simp: next_frame_end_def Let_def split: if_splits option.splits dest!: separator_length)

text \<open>The loop of \<open>push\<close>: the events and how far they reach, or the error with the decoder as it is.\<close>

definition parse_frame :: "SseDeps \<Rightarrow> string \<Rightarrow> bool \<Rightarrow> SseError + SseEvent list" where
  "parse_frame env bytes start = (if utf8 bytes then parse_sse_events_inner env bytes start else Err ParseError)"

function push_loop ::
  "SseDeps \<Rightarrow> nat \<Rightarrow> SseEvent list \<Rightarrow> SseEventDecoder \<Rightarrow> ((SseError + nat \<times> SseEvent list) \<times> SseEventDecoder) option" where
  "push_loop env consumed events d =
     (case next_frame_end env consumed d of
        None \<Rightarrow> None
      | Some (None, d) \<Rightarrow> Some (Ok (consumed, events), d)
      | Some (Some stop, d) \<Rightarrow>
          if length (pending d) < stop then None
          else case parse_frame env (take (stop - consumed) (drop consumed (pending d))) (stream_start d) of
                 Inl e \<Rightarrow> Some (Err e, d)
               | Inr es \<Rightarrow> push_loop env stop (events @ es) (d\<lparr>stream_start := False\<rparr>))"
  by pat_completeness auto
termination
  by (relation "measure (\<lambda>(env, consumed, events, d). length (pending d) - consumed)")
     (auto dest: next_frame_end_progress)

declare push_loop.simps [simp del]

definition push :: "SseDeps \<Rightarrow> string \<Rightarrow> SseEventDecoder \<Rightarrow> ((SseError + SseEvent list) \<times> SseEventDecoder) option" where
  "push env chunk d =
     (case push_loop env 0 [] (d\<lparr>pending := pending d @ chunk\<rparr>) of
        None \<Rightarrow> None
      | Some (Inl e, d) \<Rightarrow> Some (Err e, d)
      | Some (Inr (consumed, events), d) \<Rightarrow>
          let d = commit_consumed consumed d in
          if MAX_SSE_EVENT_BUFFER_BYTES < length (pending d)
          then Some (Err (BufferExceeded MAX_SSE_EVENT_BUFFER_BYTES), d)
          else Some (Ok events, d))"

definition finish :: "SseDeps \<Rightarrow> SseEventDecoder \<Rightarrow> (SseError + SseEvent list) \<times> SseEventDecoder" where
  "finish env d =
     (let d = d\<lparr>scanned := 0\<rparr> in
      if pending d = [] then (Ok [], d)
      else
        let bytes = pending d; d = d\<lparr>pending := []\<rparr> in
        case parse_frame env bytes (stream_start d) of
          Inl e \<Rightarrow> (Err e, d)
        | Inr es \<Rightarrow> (Ok es, d\<lparr>stream_start := False\<rparr>))"


subsection \<open>The transparent mode\<close>

definition observed_events :: "SseDeps \<Rightarrow> bool \<Rightarrow> bool \<Rightarrow> string \<Rightarrow> SseEvent list" where
  "observed_events env opaque start bytes =
     (if opaque \<or> MAX_SSE_EVENT_BUFFER_BYTES < length bytes then []
      else case parse_frame env bytes start of Inl _ \<Rightarrow> [] | Inr es \<Rightarrow> es)"

definition finish_opaque_frame ::
  "SseDeps \<Rightarrow> SseFrame list \<Rightarrow> SseEventDecoder \<Rightarrow> bool \<times> SseFrame list \<times> SseEventDecoder" where
  "finish_opaque_frame env frames d =
     (case sse_frame_separator_bytes env (pending d) of
        None \<Rightarrow> (False, frames, d)
      | Some (p, l) \<Rightarrow>
          (True, frames @ [\<lparr>raw = take (p + l) (pending d), frame_events = []\<rparr>],
           d\<lparr>pending := drop (p + l) (pending d), stream_start := False, opaque_frame := False, scanned := 0\<rparr>))"

definition SEPARATOR_CROSS_CHUNK_BYTES :: nat where "SEPARATOR_CROSS_CHUNK_BYTES = 3"

definition flush_opaque_prefix :: "SseFrame list \<Rightarrow> SseEventDecoder \<Rightarrow> SseFrame list \<times> SseEventDecoder" where
  "flush_opaque_prefix frames d =
     (let emit_len = length (pending d) - SEPARATOR_CROSS_CHUNK_BYTES in
      if emit_len = 0 then (frames, d)
      else (frames @ [\<lparr>raw = take emit_len (pending d), frame_events = []\<rparr>],
            d\<lparr>pending := drop emit_len (pending d), scanned := 0, stream_start := False\<rparr>))"

function frames_loop ::
  "SseDeps \<Rightarrow> nat \<Rightarrow> SseFrame list \<Rightarrow> SseEventDecoder \<Rightarrow> (nat \<times> SseFrame list \<times> SseEventDecoder) option" where
  "frames_loop env consumed frames d =
     (case next_frame_end env consumed d of
        None \<Rightarrow> None
      | Some (None, d) \<Rightarrow> Some (consumed, frames, d)
      | Some (Some stop, d) \<Rightarrow>
          if length (pending d) < stop then None
          else
            let bytes = take (stop - consumed) (drop consumed (pending d)) in
            frames_loop env stop
              (frames @ [\<lparr>raw = bytes, frame_events = observed_events env False (stream_start d) bytes\<rparr>])
              (d\<lparr>stream_start := False\<rparr>))"
  by pat_completeness auto
termination
  by (relation "measure (\<lambda>(env, consumed, frames, d). length (pending d) - consumed)")
     (auto dest: next_frame_end_progress)

declare frames_loop.simps [simp del]

definition push_frames :: "SseDeps \<Rightarrow> string \<Rightarrow> SseEventDecoder \<Rightarrow> (SseFrame list \<times> SseEventDecoder) option" where
  "push_frames env chunk d =
     (let d = d\<lparr>pending := pending d @ chunk\<rparr>;
          (resumed, frames, d) = (if opaque_frame d then finish_opaque_frame env [] d else (True, [], d))
      in if \<not> resumed then Some (flush_opaque_prefix frames d)
         else case frames_loop env 0 frames d of
                None \<Rightarrow> None
              | Some (consumed, frames, d) \<Rightarrow>
                  let d = commit_consumed consumed d in
                  if MAX_SSE_EVENT_BUFFER_BYTES < length (pending d)
                  then Some (flush_opaque_prefix frames (d\<lparr>opaque_frame := True\<rparr>))
                  else Some (frames, d))"

definition finish_frames :: "SseDeps \<Rightarrow> SseEventDecoder \<Rightarrow> SseFrame list \<times> SseEventDecoder" where
  "finish_frames env d =
     (let d = d\<lparr>scanned := 0\<rparr> in
      if pending d = [] then ([], d\<lparr>opaque_frame := False\<rparr>)
      else
        ([\<lparr>raw = pending d, frame_events = observed_events env (opaque_frame d) (stream_start d) (pending d)\<rparr>],
         d\<lparr>pending := [], stream_start := False, opaque_frame := False\<rparr>))"


section \<open>Encoding\<close>

definition sse_field_value_is_single_line :: "string \<Rightarrow> bool" where
  "sse_field_value_is_single_line v \<longleftrightarrow> CR \<notin> set v \<and> LF \<notin> set v"

definition sse_id_is_representable :: "string \<Rightarrow> bool" where
  "sse_id_is_representable v \<longleftrightarrow> sse_field_value_is_single_line v \<and> CHR 0x00 \<notin> set v"

definition encode_sse_event_with_metadata ::
  "string \<Rightarrow> string \<Rightarrow> string option \<Rightarrow> nat option \<Rightarrow> string" where
  "encode_sse_event_with_metadata event data idv retry =
     (case filter_option sse_id_is_representable idv of None \<Rightarrow> [] | Some v \<Rightarrow> ''id: '' @ v @ [LF])
     @ (if event \<noteq> [] \<and> sse_field_value_is_single_line event then ''event: '' @ event @ [LF] else [])
     @ (case retry of None \<Rightarrow> [] | Some n \<Rightarrow> ''retry: '' @ u_to_string n @ [LF])
     @ concat (map (\<lambda>line. ''data: '' @ line @ [LF]) (split_on LF data))
     @ [LF]"

definition encode_sse_event :: "string \<Rightarrow> string \<Rightarrow> string" where
  "encode_sse_event event data = encode_sse_event_with_metadata event data None None"

definition sse_frame_is_done :: "string \<Rightarrow> bool" where
  "sse_frame_is_done frame \<longleftrightarrow>
     map snd (filter (\<lambda>(field, _). field = ''data'')
       (map (\<lambda>raw_line. split_sse_field (strip_suffix_char CR raw_line)) (str_lines frame))) = [''[DONE]'']"

end
