(* ===== verification/Sse_Framing.thy ===== *)
theory Sse_Framing
  imports Sse_Codec
begin

text \<open>
  The decoder against its reference: \<open>split_frames\<close> chops the whole stream at once at its first
  separators and \<open>parse_frames\<close> parses the pieces. The incremental decoder, which rescans only the last
  three bytes of what it saw before, finds the same frames whatever the chunks are; the transparent mode
  hands on every byte. The law of the substring search is the assumption of \<open>sse_deps\<close>.
\<close>

section \<open>Separators\<close>

text \<open>A separator at the front of the bytes, and the first one anywhere.\<close>

definition sep_here :: "string \<Rightarrow> nat option" where
  "sep_here b =
     (if prefix [LF, LF] b then Some 2 else if prefix [CR, LF, CR, LF] b then Some 4 else None)"

fun first_sep :: "string \<Rightarrow> (nat \<times> nat) option" where
  "first_sep [] = None"
| "first_sep (c # cs) =
     (case sep_here (c # cs) of
        Some l \<Rightarrow> Some (0, l)
      | None \<Rightarrow> map_option (\<lambda>(p, l). (Suc p, l)) (first_sep cs))"

lemma sep_here_bound: "sep_here b = Some l \<Longrightarrow> (l = 2 \<or> l = 4) \<and> l \<le> length b"
  by (auto simp: sep_here_def split: if_splits dest!: prefix_length_le)

lemma sep_here_Nil [simp]: "sep_here [] = None"
  by (simp add: sep_here_def)

lemma first_sep_iff:
  "first_sep b = Some (p, l) \<longleftrightarrow> sep_here (drop p b) = Some l \<and> (\<forall>j<p. sep_here (drop j b) = None)"
proof (induction b arbitrary: p)
  case (Cons c cs)
  show ?case
    by (cases p) (auto simp: Cons.IH less_Suc_eq_0_disj all_conj_distrib split: option.splits)
qed simp

lemma first_sep_None_iff: "first_sep b = None \<longleftrightarrow> (\<forall>j. sep_here (drop j b) = None)"
proof (induction b)
  case (Cons c cs)
  have "(\<forall>j. sep_here (drop j (c # cs)) = None)
        \<longleftrightarrow> sep_here (c # cs) = None \<and> (\<forall>j. sep_here (drop j cs) = None)"
    by (metis drop0 drop_Suc_Cons not0_implies_Suc)
  then show ?case
    using Cons.IH by (auto split: option.splits)
qed simp

lemma first_sep_bound:
  assumes "first_sep b = Some (p, l)"
  shows "(l = 2 \<or> l = 4) \<and> p + l \<le> length b"
proof -
  have "sep_here (drop p b) = Some l"
    using assms by (simp add: first_sep_iff)
  from sep_here_bound[OF this] show ?thesis by auto
qed

lemma sep_here_take: "sep_here (take 4 b) = sep_here b"
proof -
  have "prefix x (take 4 b) \<longleftrightarrow> prefix x b" if "length x \<le> 4" for x
    using that by (metis append_eq_conv_conj prefix_def take_all take_take min.absorb2 min_def take_is_prefix
      prefix_order.trans)
  then show ?thesis
    by (simp add: sep_here_def)
qed

lemma sep_here_append: "4 \<le> length a \<Longrightarrow> sep_here (a @ b) = sep_here a"
  by (metis append_Nil2 append_take_drop_id cancel_comm_monoid_add_class.diff_cancel diff_is_0_eq
      sep_here_take take_0 take_append)

lemma sep_here_append_Some: "sep_here a = Some l \<Longrightarrow> sep_here (a @ b) = Some l"
  by (auto simp: sep_here_def prefix_def split: if_splits)

lemma short_list_cases:
  assumes "length a < 4"
  obtains "a = []" | x where "a = [x]" | x y where "a = [x, y]" | x y z where "a = [x, y, z]"
proof -
  have "length a = 0 \<or> length a = 1 \<or> length a = 2 \<or> length a = 3"
    using assms by linarith
  then show ?thesis
    using that by (auto simp: length_Suc_conv numeral_2_eq_2 numeral_3_eq_3)
qed

lemma sep_here_append_None:
  assumes "sep_here a = None" "first_sep a = Some (p, l)"
  shows "sep_here (a @ b) = None"
proof (cases "length a < 4")
  case True
  then show ?thesis
    using assms by (cases rule: short_list_cases) (auto simp: sep_here_def split: if_splits)
qed (use assms in \<open>simp add: sep_here_append\<close>)

text \<open>More bytes never move a separator that was found.\<close>

lemma first_sep_append: "first_sep a = Some (p, l) \<Longrightarrow> first_sep (a @ b) = Some (p, l)"
proof (induction a arbitrary: p)
  case (Cons c cs)
  show ?case
  proof (cases "sep_here (c # cs)")
    case None
    then obtain q where "first_sep cs = Some (q, l)" "p = Suc q"
      using Cons.prems by auto
    moreover have "sep_here ((c # cs) @ b) = None"
      using sep_here_append_None None Cons.prems by blast
    ultimately show ?thesis
      using Cons.IH by simp
  next
    case (Some k)
    then show ?thesis
      using Cons.prems sep_here_append_Some[OF Some, of b] by simp
  qed
qed simp

lemma first_sep_skip:
  assumes "\<forall>j<k. sep_here (drop j b) = None"
  shows "first_sep b = map_option (\<lambda>(p, l). (k + p, l)) (first_sep (drop k b))"
proof (cases "first_sep (drop k b)")
  case None
  have "sep_here (drop j b) = None" for j
    using assms None[unfolded first_sep_None_iff, THEN spec, of "j - k"] by (cases "j < k") auto
  then have "first_sep b = None"
    by (simp add: first_sep_None_iff)
  then show ?thesis
    using None by simp
next
  case (Some pl)
  obtain p l where pl: "pl = (p, l)" by (cases pl)
  have "sep_here (drop j b) = None" if "j < k + p" for j
    using assms that Some[unfolded pl first_sep_iff, THEN conjunct2, THEN spec, of "j - k"]
    by (cases "j < k") auto
  then have "first_sep b = Some (k + p, l)"
    using Some pl by (simp add: first_sep_iff add.commute)
  then show ?thesis using Some pl by simp
qed

text \<open>
  The rescan: when the first \<open>n\<close> bytes hold no separator, looking from three bytes before \<open>n\<close> on is
  enough.
\<close>

lemma first_sep_rescan:
  assumes "first_sep (take n b) = None"
  shows "first_sep b = map_option (\<lambda>(p, l). (n - 3 + p, l)) (first_sep (drop (n - 3) b))"
proof (cases "n \<le> length b")
  case True
  show ?thesis
  proof (rule first_sep_skip, intro allI impI)
    fix j assume j: "j < n - 3"
    have "drop j b = drop j (take n b) @ drop n b"
      using True j by (metis append_take_drop_id drop_append diff_is_0_eq drop_0 length_take min.absorb2
          less_imp_le less_imp_diff_less diff_le_self order.trans)
    moreover have "4 \<le> length (drop j (take n b))"
      using True j by simp
    ultimately have "sep_here (drop j b) = sep_here (drop j (take n b))"
      using sep_here_append by metis
    then show "sep_here (drop j b) = None"
      using assms by (simp add: first_sep_None_iff)
  qed
next
  case False
  then have "first_sep b = None"
    using assms by simp
  moreover from this have "first_sep (drop (n - 3) b) = None"
    by (simp add: first_sep_None_iff)
  ultimately show ?thesis by simp
qed


section \<open>The reference\<close>

function split_frames :: "string \<Rightarrow> string list \<times> string" where
  "split_frames b =
     (case first_sep b of
        None \<Rightarrow> ([], b)
      | Some (p, l) \<Rightarrow> (case split_frames (drop (p + l) b) of (fs, rest) \<Rightarrow> (take (p + l) b # fs, rest)))"
  by pat_completeness auto
termination
  by (relation "measure length") (auto dest!: first_sep_bound)

declare split_frames.simps [simp del]

lemma split_frames_None: "first_sep b = None \<Longrightarrow> split_frames b = ([], b)"
  by (simp add: split_frames.simps[of b])

lemma split_frames_Some:
  "first_sep b = Some (p, l) \<Longrightarrow> split_frames (drop (p + l) b) = (fs, rest)
     \<Longrightarrow> split_frames b = (take (p + l) b # fs, rest)"
  by (simp add: split_frames.simps[of b])

fun parse_frames :: "SseDeps \<Rightarrow> bool \<Rightarrow> string list \<Rightarrow> SseError + SseEvent list" where
  "parse_frames env start [] = Ok []"
| "parse_frames env start (f # fs) =
     (case parse_frame env f start of
        Inl e \<Rightarrow> Err e
      | Inr es \<Rightarrow> (case parse_frames env False fs of Inl e \<Rightarrow> Err e | Inr es' \<Rightarrow> Ok (es @ es')))"

definition tail_frame :: "string \<Rightarrow> string list" where
  "tail_frame rest = (if rest = [] then [] else [rest])"

definition decode_whole :: "SseDeps \<Rightarrow> bool \<Rightarrow> string \<Rightarrow> SseError + SseEvent list" where
  "decode_whole env start s =
     (case split_frames s of (fs, rest) \<Rightarrow> parse_frames env start (fs @ tail_frame rest))"

definition frames_fit :: "string \<Rightarrow> bool" where
  "frames_fit s \<longleftrightarrow>
     (case split_frames s of (fs, rest) \<Rightarrow> list_all (\<lambda>f. length f \<le> MAX_SSE_EVENT_BUFFER_BYTES) (fs @ [rest]))"

lemma split_frames_induct [consumes 1, case_names rest frame]:
  assumes "split_frames b = (fs, r)"
    and "first_sep r = None \<Longrightarrow> P r []"
    and frame: "\<And>b p l fs. first_sep b = Some (p, l) \<Longrightarrow> split_frames (drop (p + l) b) = (fs, r)
                  \<Longrightarrow> P (drop (p + l) b) fs \<Longrightarrow> P b (take (p + l) b # fs)"
  shows "P b fs"
  using assms(1)
proof (induction b arbitrary: fs rule: split_frames.induct)
  case (1 b)
  show ?case
  proof (cases "first_sep b")
    case None
    then show ?thesis using 1(2) assms(2) by (simp add: split_frames_None)
  next
    case (Some pl)
    obtain p l gs where pl: "(p, l) = pl" and gs: "split_frames (drop (p + l) b) = (gs, r)"
      using 1(2) Some by (cases pl) (auto simp: split_frames.simps[of b] split: prod.splits)
    have "fs = take (p + l) b # gs"
      using 1(2) split_frames_Some[OF Some[folded pl] gs] by simp
    then show ?thesis
      using frame[OF Some[folded pl] gs 1(1)[OF Some pl gs]] by simp
  qed
qed

lemma length_concat_member: "f \<in> set fs \<Longrightarrow> length f \<le> length (concat fs)"
  by (induction fs) auto

lemma split_frames_concat: "split_frames b = (fs, rest) \<Longrightarrow> concat fs @ rest = b"
  by (induction b fs rule: split_frames_induct) simp_all

lemma split_frames_rest: "split_frames b = (fs, rest) \<Longrightarrow> first_sep rest = None"
  by (induction b fs rule: split_frames_induct) simp_all

text \<open>Chopping a prefix first and going on with what is left over gives the same pieces.\<close>

lemma split_frames_append:
  assumes "split_frames a = (fs, r)" "split_frames (r @ b) = (gs, r')"
  shows "split_frames (a @ b) = (fs @ gs, r')"
  using assms(1)
proof (induction a fs rule: split_frames_induct)
  case rest
  then show ?case using assms(2) by simp
next
  case (frame a p l fs)
  have "p + l \<le> length a"
    using first_sep_bound[OF frame(1)] by simp
  then show ?case
    using frame(3) split_frames_Some[OF first_sep_append[OF frame(1), of b], of "fs @ gs" r'] by simp
qed

lemma first_sep_beyond:
  assumes "first_sep r = None" "first_sep (r @ b) = Some (p, l)"
  shows "length r < p + l"
proof (rule ccontr)
  assume "\<not> length r < p + l"
  then have within: "p + l \<le> length r" by simp
  have here: "sep_here (drop p r @ b) = Some l"
    using assms(2) within by (simp add: first_sep_iff)
  have "prefix x (drop p r)" if "prefix x (drop p r @ b)" "length x \<le> l" for x
    using that within by (metis add_le_imp_le_diff add.commute length_drop order.trans prefix_length_prefix prefixI)
  then have "sep_here (drop p r) \<noteq> None"
    using here by (auto simp: sep_here_def split: if_splits)
  then show False
    using assms(1) by (simp add: first_sep_None_iff)
qed

lemma frames_fit_short:
  assumes "length s \<le> MAX_SSE_EVENT_BUFFER_BYTES"
  shows "frames_fit s"
proof -
  obtain fs rest where fs: "split_frames s = (fs, rest)"
    by (metis surj_pair)
  have "length f \<le> length s" if "f \<in> set (fs @ [rest])" for f
    using that split_frames_concat[OF fs] length_concat_member[of f "fs @ [rest]"] by simp
  then have "list_all (\<lambda>f. length f \<le> MAX_SSE_EVENT_BUFFER_BYTES) (fs @ [rest])"
    using assms by (metis Ball_set order.trans)
  then show ?thesis
    using fs by (simp add: frames_fit_def)
qed

lemma rest_fits:
  assumes "frames_fit (r @ b)" "first_sep r = None"
  shows "length r \<le> MAX_SSE_EVENT_BUFFER_BYTES"
proof (cases "first_sep (r @ b)")
  case None
  then show ?thesis
    using assms(1) by (simp add: frames_fit_def split_frames_None)
next
  case (Some pl)
  obtain p l fs rest where pl: "pl = (p, l)" and rest: "split_frames (drop (p + l) (r @ b)) = (fs, rest)"
    by (metis surj_pair)
  have "length (take (p + l) (r @ b)) \<le> MAX_SSE_EVENT_BUFFER_BYTES"
    using assms(1) split_frames_Some[OF Some[unfolded pl] rest] by (simp add: frames_fit_def)
  moreover have "length r < p + l" "p + l \<le> length (r @ b)"
    using first_sep_beyond[OF assms(2)] first_sep_bound Some pl by blast+
  ultimately show ?thesis by simp
qed

lemma frames_fit_append:
  assumes "frames_fit (a @ b)" "split_frames a = (fs, r)"
  shows "frames_fit (r @ b)" "length r \<le> MAX_SSE_EVENT_BUFFER_BYTES"
proof -
  obtain gs r' where gs: "split_frames (r @ b) = (gs, r')"
    by (metis surj_pair)
  show "frames_fit (r @ b)"
    using assms(1) gs split_frames_append[OF assms(2) gs] by (simp add: frames_fit_def)
  then show "length r \<le> MAX_SSE_EVENT_BUFFER_BYTES"
    using rest_fits split_frames_rest[OF assms(2)] by blast
qed

lemma parse_frames_append:
  "parse_frames env start (fs @ gs) =
     (case parse_frames env start fs of
        Inl e \<Rightarrow> Err e
      | Inr es \<Rightarrow> (case parse_frames env (start \<and> fs = []) gs of Inl e \<Rightarrow> Err e | Inr es' \<Rightarrow> Ok (es @ es')))"
  by (induction env start fs rule: parse_frames.induct) (auto split: sum.splits)


section \<open>The decoder finds the frames of the reference\<close>

text \<open>
  What the scan position promises, relative to the frames already taken: the bytes before it hold no
  separator.
\<close>

definition scan_inv :: "nat \<Rightarrow> SseEventDecoder \<Rightarrow> bool" where
  "scan_inv c d \<longleftrightarrow>
     c \<le> scanned d \<and> scanned d \<le> length (pending d)
     \<and> first_sep (take (scanned d - c) (drop c (pending d))) = None"

text \<open>A decoder between two calls: the bytes it holds are scanned and hold no separator.\<close>

definition idle :: "SseEventDecoder \<Rightarrow> bool" where
  "idle d \<longleftrightarrow> scanned d = length (pending d) \<and> first_sep (pending d) = None"

lemma default_idle [simp]: "idle default_decoder"
  by (simp add: idle_def default_decoder_def)

lemma idle_scan_inv: "idle d \<Longrightarrow> scan_inv 0 (d\<lparr>pending := pending d @ chunk\<rparr>)"
  by (simp add: idle_def scan_inv_def)

text \<open>The driver of a stream: a call of \<open>push\<close> per chunk up to the first error, then \<open>finish\<close>. It is the outcome of the
  stream as a whole: all of its events, or the error it ends with. A caller of \<open>push\<close> has by then received the events of
  the earlier calls, and which ones these are does depend on the chunks, as a failing call returns none of its own.\<close>

fun decode_chunks :: "SseDeps \<Rightarrow> string list \<Rightarrow> SseEventDecoder \<Rightarrow> (SseError + SseEvent list) option" where
  "decode_chunks env [] d = Some (fst (finish env d))"
| "decode_chunks env (c # cs) d =
     (case push env c d of
        None \<Rightarrow> None
      | Some (Inl e, _) \<Rightarrow> Some (Err e)
      | Some (Inr es, d) \<Rightarrow>
          map_option (\<lambda>r. case r of Inl e \<Rightarrow> Err e | Inr es' \<Rightarrow> Ok (es @ es')) (decode_chunks env cs d))"

fun push_frames_all ::
  "SseDeps \<Rightarrow> string list \<Rightarrow> SseEventDecoder \<Rightarrow> (SseFrame list \<times> SseEventDecoder) option" where
  "push_frames_all env [] d = Some ([], d)"
| "push_frames_all env (c # cs) d =
     (case push_frames env c d of
        None \<Rightarrow> None
      | Some (fs, d) \<Rightarrow> map_option (\<lambda>(fs', d). (fs @ fs', d)) (push_frames_all env cs d))"

definition forward_chunks :: "SseDeps \<Rightarrow> string list \<Rightarrow> SseEventDecoder \<Rightarrow> SseFrame list option" where
  "forward_chunks env cs d =
     map_option (\<lambda>(fs, d). fs @ fst (finish_frames env d)) (push_frames_all env cs d)"

text \<open>The frames the transparent mode hands on when none is too long to be observed.\<close>

fun observe :: "SseDeps \<Rightarrow> bool \<Rightarrow> string list \<Rightarrow> SseFrame list" where
  "observe env start [] = []"
| "observe env start (f # fs) =
     \<lparr>raw = f, frame_events = observed_events env False start f\<rparr> # observe env False fs"

definition wf_decoder :: "SseEventDecoder \<Rightarrow> bool" where
  "wf_decoder d \<longleftrightarrow> scanned d \<le> length (pending d)"

lemma observe_append:
  "observe env start (fs @ gs) = observe env start fs @ observe env (start \<and> fs = []) gs"
  by (induction env start fs rule: observe.induct) simp_all

lemma observe_parse:
  "parse_frames env start fs = Ok es \<Longrightarrow> list_all (\<lambda>f. length f \<le> MAX_SSE_EVENT_BUFFER_BYTES) fs
     \<Longrightarrow> concat (map frame_events (observe env start fs)) = es"
  by (induction env start fs arbitrary: es rule: parse_frames.induct)
     (auto simp: observed_events_def split: sum.splits)

lemma finish_frames_raw: "concat (map raw (fst (finish_frames env d))) = pending d"
  by (simp add: finish_frames_def Let_def)

lemma flush_opaque_prefix_keeps:
  assumes "flush_opaque_prefix fs d = (fs', d')" "wf_decoder d"
  shows "concat (map raw fs') @ pending d' = concat (map raw fs) @ pending d"
    "wf_decoder d'" "length (pending d') \<le> 3"
  using assms
  by (auto simp: flush_opaque_prefix_def Let_def SEPARATOR_CROSS_CHUNK_BYTES_def wf_decoder_def split: if_splits)

locale sse_deps =
  fixes env :: SseDeps
  assumes find_some: "memmem_find env h n = Some i \<Longrightarrow> prefix n (drop i h) \<and> (\<forall>j<i. \<not> prefix n (drop j h))"
    and find_none: "memmem_find env h n = None \<Longrightarrow> \<not> prefix n (drop j h)"
begin

lemma separator_exact: "sse_frame_separator_bytes env b = first_sep b"
proof -
  have none: "sep_here x = None \<longleftrightarrow> \<not> prefix [LF, LF] x \<and> \<not> prefix [CR, LF, CR, LF] x"
    and two: "sep_here x = Some 2 \<longleftrightarrow> prefix [LF, LF] x"
    and four: "sep_here x = Some 4 \<longleftrightarrow> prefix [CR, LF, CR, LF] x" for x
    by (auto simp: sep_here_def prefix_def)
  note lf = find_some[of b "[LF, LF]"] find_none[of b "[LF, LF]"]
  note crlf = find_some[of b "[CR, LF, CR, LF]"] find_none[of b "[CR, LF, CR, LF]"]
  consider "memmem_find env b [LF, LF] = None" "memmem_find env b [CR, LF, CR, LF] = None"
    | i where "memmem_find env b [LF, LF] = Some i" "memmem_find env b [CR, LF, CR, LF] = None"
    | k where "memmem_find env b [LF, LF] = None" "memmem_find env b [CR, LF, CR, LF] = Some k"
    | i k where "memmem_find env b [LF, LF] = Some i" "memmem_find env b [CR, LF, CR, LF] = Some k"
    by (metis option.exhaust)
  then show ?thesis
  proof cases
    case 1
    then have "first_sep b = None"
      using lf crlf by (simp add: first_sep_None_iff none)
    then show ?thesis using 1 by (simp add: sse_frame_separator_bytes_def)
  next
    case 2
    then have "first_sep b = Some (i, 2)"
      using lf crlf by (simp add: first_sep_iff none two)
    then show ?thesis using 2 by (simp add: sse_frame_separator_bytes_def)
  next
    case 3
    then have "first_sep b = Some (k, 4)"
      using lf crlf by (simp add: first_sep_iff none four)
    then show ?thesis using 3 by (simp add: sse_frame_separator_bytes_def)
  next
    case 4
    then have "first_sep b = Some (if i \<le> k then (i, 2) else (k, 4))"
      using lf crlf by (simp add: first_sep_iff none two four)
    then show ?thesis using 4 by (simp add: sse_frame_separator_bytes_def)
  qed
qed

lemma next_frame_end_exact:
  assumes "scan_inv c d"
  shows "next_frame_end env c d =
     Some (case first_sep (drop c (pending d)) of
             Some (p, l) \<Rightarrow> (Some (c + (p + l)), d\<lparr>scanned := c + (p + l)\<rparr>)
           | None \<Rightarrow> (None, d\<lparr>scanned := length (pending d)\<rparr>))"
proof -
  define n where "n = scanned d - c - 3"
  have from_eq: "max (scanned d - 3) c = c + n"
    using assms unfolding scan_inv_def n_def by simp
  have "first_sep (drop c (pending d)) =
        map_option (\<lambda>(p, l). (n + p, l)) (first_sep (drop (c + n) (pending d)))"
    using first_sep_rescan[of "scanned d - c" "drop c (pending d)"] assms
    unfolding scan_inv_def n_def by (simp add: add.commute)
  then show ?thesis
    using assms unfolding next_frame_end_def from_eq separator_exact scan_inv_def n_def
    by (auto simp: Let_def add.assoc split: option.splits)
qed

lemma scan_inv_after:
  "p + l \<le> length (drop c (pending d)) \<Longrightarrow> c \<le> length (pending d) \<Longrightarrow> scan_inv (c + (p + l)) (d\<lparr>scanned := c + (p + l)\<rparr>)"
  by (simp add: scan_inv_def)

lemma push_loop_exact:
  assumes "split_frames b = (fs, rest)" "b = drop c (pending d)" "scan_inv c d"
  shows "case parse_frames env (stream_start d) fs of
       Inl e \<Rightarrow> \<exists>d'. push_loop env c evs d = Some (Err e, d')
     | Inr es \<Rightarrow> push_loop env c evs d =
         Some (Ok (length (pending d) - length rest, evs @ es),
           d\<lparr>scanned := length (pending d), stream_start := (stream_start d \<and> fs = [])\<rparr>)"
  using assms
proof (induction b fs arbitrary: c d evs rule: split_frames_induct)
  case rest
  then have "length (pending d) - length rest = c"
    by (auto simp: scan_inv_def)
  then show ?case
    using rest by (simp add: push_loop.simps[of env c] next_frame_end_exact)
next
  case (frame b p l fs)
  let ?stop = "c + (p + l)"
  let ?d = "d\<lparr>scanned := ?stop, stream_start := False\<rparr>"
  have within: "c \<le> length (pending d)" "p + l \<le> length b" "?stop \<le> length (pending d)"
    using frame(4,5) first_sep_bound[OF frame(1)] by (auto simp: scan_inv_def)
  have inv: "scan_inv ?stop ?d"
    using within by (simp add: scan_inv_def)
  have next_b: "drop (p + l) b = drop ?stop (pending ?d)"
    using frame(4) by (simp add: add.commute)
  have step: "push_loop env c evs d =
     (case parse_frame env (take (p + l) b) (stream_start d) of
        Inl e \<Rightarrow> Some (Err e, d\<lparr>scanned := ?stop\<rparr>)
      | Inr es \<Rightarrow> push_loop env ?stop (evs @ es) ?d)"
    using frame(1,4) within
    by (simp add: push_loop.simps[of env c] next_frame_end_exact[OF frame(5)] split: sum.split)
  show ?case
  proof (cases "parse_frame env (take (p + l) b) (stream_start d)")
    case (Inr es)
    then show ?thesis
      using frame(3)[OF next_b inv, of "evs @ es"] step by (auto split: sum.splits)
  qed (use step in simp)
qed

lemma commit_rest:
  assumes "split_frames b = (fs, rest)"
  shows "commit_consumed (length b - length rest) (d\<lparr>pending := b, scanned := length b, stream_start := st\<rparr>)
       = d\<lparr>pending := rest, scanned := length rest, stream_start := st\<rparr>"
proof -
  have whole: "concat fs @ rest = b"
    using split_frames_concat[OF assms] .
  then have "length b = length (concat fs) + length rest"
    by (metis length_append)
  then have "drop (length b - length rest) b = rest" "length b - (length b - length rest) = length rest"
    using whole by (metis add_diff_cancel_right' append_eq_conv_conj, linarith)
  then show ?thesis
    by (cases "length b - length rest = 0") (simp_all add: commit_consumed_def)
qed

lemma push_exact:
  assumes "idle d" "split_frames (pending d @ chunk) = (fs, rest)" "length rest \<le> MAX_SSE_EVENT_BUFFER_BYTES"
  shows "case parse_frames env (stream_start d) fs of
       Inl e \<Rightarrow> \<exists>d'. push env chunk d = Some (Err e, d')
     | Inr es \<Rightarrow> push env chunk d =
         Some (Ok es, d\<lparr>pending := rest, scanned := length rest, stream_start := (stream_start d \<and> fs = [])\<rparr>)"
proof -
  let ?d = "d\<lparr>pending := pending d @ chunk\<rparr>"
  show ?thesis
    using push_loop_exact[OF assms(2) _ idle_scan_inv[OF assms(1)], where evs = "[]"]
      commit_rest[OF assms(2)] assms(3)
    by (auto simp: push_def Let_def split: sum.splits)
qed

lemma decode_chunks_exact:
  "idle d \<Longrightarrow> frames_fit (pending d @ concat cs)
     \<Longrightarrow> decode_chunks env cs d = Some (decode_whole env (stream_start d) (pending d @ concat cs))"
proof (induction cs arbitrary: d)
  case Nil
  then show ?case
    by (auto simp: idle_def decode_whole_def split_frames_None tail_frame_def finish_def Let_def
        split: sum.splits)
next
  case (Cons c cs)
  obtain fs rest where fs: "split_frames (pending d @ c) = (fs, rest)"
    by (metis surj_pair)
  obtain gs tail where gs: "split_frames (rest @ concat cs) = (gs, tail)"
    by (metis surj_pair)
  let ?d = "d\<lparr>pending := rest, scanned := length rest, stream_start := (stream_start d \<and> fs = [])\<rparr>"
  have whole: "split_frames ((pending d @ c) @ concat cs) = (fs @ gs, tail)"
    using split_frames_append[OF fs gs] .
  have fit: "frames_fit (rest @ concat cs)" "length rest \<le> MAX_SSE_EVENT_BUFFER_BYTES"
    using frames_fit_append[OF _ fs, of "concat cs"] Cons.prems(2) by simp_all
  have "idle ?d"
    using split_frames_rest[OF fs] by (simp add: idle_def)
  then have later: "decode_chunks env cs ?d = Some (decode_whole env (stream_start d \<and> fs = []) (rest @ concat cs))"
    using Cons.IH[of ?d] fit(1) by simp
  show ?case
    using push_exact[OF Cons.prems(1) fs fit(2)] later whole gs
    by (auto simp: decode_whole_def parse_frames_append split: sum.splits)
qed

lemma decode_chunks_whole:
  "frames_fit (concat cs) \<Longrightarrow> decode_chunks env cs default_decoder = Some (decode_whole env True (concat cs))"
  using decode_chunks_exact[of default_decoder cs] by (simp add: default_decoder_def idle_def)

lemma next_frame_end_safe:
  assumes "wf_decoder d" "c \<le> length (pending d)"
  obtains r d' where "next_frame_end env c d = Some (r, d')" "pending d' = pending d" "wf_decoder d'"
    "\<And>stop. r = Some stop \<Longrightarrow> c < stop \<and> stop \<le> length (pending d)"
    "opaque_frame d' = opaque_frame d" "stream_start d' = stream_start d"
proof -
  let ?from = "max (scanned d - 3) c"
  have from_le: "?from \<le> length (pending d)"
    using assms by (auto simp: wf_decoder_def)
  show ?thesis
  proof (cases "first_sep (drop ?from (pending d))")
    case None
    then show ?thesis
      using that[of None "d\<lparr>scanned := length (pending d)\<rparr>"] from_le
      by (simp add: next_frame_end_def separator_exact wf_decoder_def)
  next
    case (Some pl)
    obtain p l where pl: "pl = (p, l)" by (cases pl)
    have "(l = 2 \<or> l = 4) \<and> ?from + p + l \<le> length (pending d)"
      using first_sep_bound[OF Some[unfolded pl]] from_le by auto
    then show ?thesis
      using that[of "Some (?from + p + l)" "d\<lparr>scanned := ?from + p + l\<rparr>"] from_le Some pl
      by (auto simp: next_frame_end_def separator_exact wf_decoder_def Let_def)
  qed
qed

lemma frames_loop_keeps:
  assumes "wf_decoder d" "c \<le> length (pending d)"
  shows "\<exists>c' fs d'. frames_loop env c frames d = Some (c', frames @ fs, d') \<and> c \<le> c' \<and> c' \<le> length (pending d)
     \<and> concat (map raw fs) = take (c' - c) (drop c (pending d)) \<and> pending d' = pending d \<and> wf_decoder d'"
  using assms
proof (induction "length (pending d) - c" arbitrary: c frames d rule: less_induct)
  case less
  obtain r d1 where n: "next_frame_end env c d = Some (r, d1)" "pending d1 = pending d" "wf_decoder d1"
    "\<And>stop. r = Some stop \<Longrightarrow> c < stop \<and> stop \<le> length (pending d)"
    using next_frame_end_safe[OF less.prems] by metis
  show ?case
  proof (cases r)
    case None
    then show ?thesis
      using n less.prems(2) by (auto simp: frames_loop.simps[of env c])
  next
    case (Some stop)
    let ?d = "d1\<lparr>stream_start := False\<rparr>"
    let ?bytes = "take (stop - c) (drop c (pending d))"
    let ?frame = "\<lparr>raw = ?bytes, frame_events = observed_events env False (stream_start d1) ?bytes\<rparr>"
    have stop: "c < stop" "stop \<le> length (pending d)"
      using n(4) Some by auto
    have step: "frames_loop env c frames d = frames_loop env stop (frames @ [?frame]) ?d"
      using n Some stop by (simp add: frames_loop.simps[of env c] Let_def)
    have same: "pending ?d = pending d"
      using n(2) by simp
    have wf: "wf_decoder ?d"
      using n(3) by (simp add: wf_decoder_def)
    have smaller: "length (pending ?d) - stop < length (pending d) - c"
      unfolding same using stop by (simp add: diff_less_mono2)
    obtain c' fs d' where ih: "frames_loop env stop (frames @ [?frame]) ?d = Some (c', (frames @ [?frame]) @ fs, d')"
      "stop \<le> c'" "c' \<le> length (pending d)" "concat (map raw fs) = take (c' - stop) (drop stop (pending d))"
      "pending d' = pending d" "wf_decoder d'"
      using less.hyps[OF smaller wf, of "frames @ [?frame]"] stop(2) unfolding same by blast
    have "take (c' - c) (drop c (pending d)) = ?bytes @ take (c' - stop) (drop stop (pending d))"
      using take_add[of "stop - c" "c' - stop" "drop c (pending d)"] stop(1) ih(2) by simp
    then show ?thesis
      using step ih stop by (intro exI[of _ c'] exI[of _ "?frame # fs"] exI[of _ d']) auto
  qed
qed

lemma loop_and_commit_keeps:
  assumes "wf_decoder d"
  obtains fs d' where
    "(case frames_loop env 0 frames d of
        None \<Rightarrow> None
      | Some (consumed, frames, d) \<Rightarrow>
          let d = commit_consumed consumed d in
          if MAX_SSE_EVENT_BUFFER_BYTES < length (pending d)
          then Some (flush_opaque_prefix frames (d\<lparr>opaque_frame := True\<rparr>))
          else Some (frames, d)) = Some (fs, d')"
    "wf_decoder d'" "concat (map raw fs) @ pending d' = concat (map raw frames) @ pending d"
    "length (pending d') \<le> MAX_SSE_EVENT_BUFFER_BYTES"
proof -
  obtain c gs d1 where l: "frames_loop env 0 frames d = Some (c, frames @ gs, d1)" "c \<le> length (pending d)"
    "concat (map raw gs) = take c (pending d)" "pending d1 = pending d" "wf_decoder d1"
    using frames_loop_keeps[OF assms, of 0 frames] by auto
  let ?d = "commit_consumed c d1"
  have commit: "wf_decoder ?d" "pending ?d = drop c (pending d)"
    using l by (auto simp: commit_consumed_def wf_decoder_def)
  show ?thesis
  proof (cases "MAX_SSE_EVENT_BUFFER_BYTES < length (pending ?d)")
    case True
    obtain fs d' where f: "flush_opaque_prefix (frames @ gs) (?d\<lparr>opaque_frame := True\<rparr>) = (fs, d')"
      by (metis surj_pair)
    have "wf_decoder (?d\<lparr>opaque_frame := True\<rparr>)"
      using commit(1) by (simp add: wf_decoder_def)
    note keep = flush_opaque_prefix_keeps[OF f this]
    show ?thesis
    proof (rule that)
      show "concat (map raw fs) @ pending d' = concat (map raw frames) @ pending d"
        using keep(1) commit(2) l(3) by simp
      show "length (pending d') \<le> MAX_SSE_EVENT_BUFFER_BYTES"
        using keep(3) by (simp add: MAX_SSE_EVENT_BUFFER_BYTES_def)
    qed (use l(1) True f keep(2) in \<open>simp_all add: Let_def\<close>)
  next
    case False
    then show ?thesis
      using that[of "frames @ gs" ?d] l commit by (simp add: Let_def)
  qed
qed

lemma push_frames_keeps:
  assumes "wf_decoder d"
  obtains fs d' where "push_frames env chunk d = Some (fs, d')" "wf_decoder d'"
    "concat (map raw fs) @ pending d' = pending d @ chunk"
    "length (pending d') \<le> MAX_SSE_EVENT_BUFFER_BYTES"
proof -
  let ?d = "d\<lparr>pending := pending d @ chunk\<rparr>"
  have wf: "wf_decoder ?d"
    using assms by (simp add: wf_decoder_def)
  consider "\<not> opaque_frame d" | "opaque_frame d" "first_sep (pending ?d) = None"
    | p l where "opaque_frame d" "first_sep (pending ?d) = Some (p, l)"
    by (metis option.exhaust surj_pair)
  then show ?thesis
  proof cases
    case 1
    then show ?thesis
      using loop_and_commit_keeps[OF wf, of "[]"] that by (auto simp: push_frames_def)
  next
    case 2
    obtain fs d' where f: "flush_opaque_prefix [] ?d = (fs, d')"
      by (metis surj_pair)
    show ?thesis
      using that[of fs d'] 2 f flush_opaque_prefix_keeps[OF f wf]
      by (simp add: push_frames_def finish_opaque_frame_def separator_exact MAX_SSE_EVENT_BUFFER_BYTES_def)
  next
    case 3
    let ?d' = "?d\<lparr>pending := drop (p + l) (pending ?d), stream_start := False, opaque_frame := False, scanned := 0\<rparr>"
    have wf': "wf_decoder ?d'"
      by (simp add: wf_decoder_def)
    show ?thesis
      by (rule loop_and_commit_keeps[OF wf', of "[\<lparr>raw = take (p + l) (pending ?d), frame_events = []\<rparr>]"], rule that)
        (use 3 in \<open>simp_all add: push_frames_def finish_opaque_frame_def separator_exact Let_def
          del: take_append drop_append\<close>)
  qed
qed

lemma push_frames_all_keeps:
  "wf_decoder d \<Longrightarrow> length (pending d) \<le> MAX_SSE_EVENT_BUFFER_BYTES \<Longrightarrow>
     \<exists>fs d'. push_frames_all env cs d = Some (fs, d') \<and> concat (map raw fs) @ pending d' = pending d @ concat cs
       \<and> length (pending d') \<le> MAX_SSE_EVENT_BUFFER_BYTES"
proof (induction cs arbitrary: d)
  case (Cons c cs)
  obtain fs d1 where p: "push_frames env c d = Some (fs, d1)" "wf_decoder d1"
    "concat (map raw fs) @ pending d1 = pending d @ c" "length (pending d1) \<le> MAX_SSE_EVENT_BUFFER_BYTES"
    using push_frames_keeps[OF Cons.prems(1)] by metis
  obtain gs d2 where q: "push_frames_all env cs d1 = Some (gs, d2)"
    "concat (map raw gs) @ pending d2 = pending d1 @ concat cs" "length (pending d2) \<le> MAX_SSE_EVENT_BUFFER_BYTES"
    using Cons.IH[OF p(2,4)] by blast
  have "concat (map raw (fs @ gs)) @ pending d2 = pending d @ concat (c # cs)"
    using p(3) q(2) by (metis append_assoc concat.simps(2) concat_append map_append)
  then show ?case
    using p(1) q by simp
qed simp

text \<open>When every frame fits, the frames handed on are the frames of the reference.\<close>

lemma frames_loop_exact:
  assumes "split_frames b = (fs, rest)" "b = drop c (pending d)" "scan_inv c d"
  shows "frames_loop env c frames d =
     Some (length (pending d) - length rest, frames @ observe env (stream_start d) fs,
       d\<lparr>scanned := length (pending d), stream_start := (stream_start d \<and> fs = [])\<rparr>)"
  using assms
proof (induction b fs arbitrary: c d frames rule: split_frames_induct)
  case rest
  then have "length (pending d) - length rest = c"
    by (auto simp: scan_inv_def)
  then show ?case
    using rest by (simp add: frames_loop.simps[of env c] next_frame_end_exact)
next
  case (frame b p l fs)
  let ?stop = "c + (p + l)"
  let ?d = "d\<lparr>scanned := ?stop, stream_start := False\<rparr>"
  have within: "c \<le> length (pending d)" "p + l \<le> length b" "?stop \<le> length (pending d)"
    using frame(4,5) first_sep_bound[OF frame(1)] by (auto simp: scan_inv_def)
  have inv: "scan_inv ?stop ?d"
    using within by (simp add: scan_inv_def)
  have next_b: "drop (p + l) b = drop ?stop (pending ?d)"
    using frame(4) by (simp add: add.commute)
  have "frames_loop env c frames d =
     frames_loop env ?stop (frames @ observe env (stream_start d) [take (p + l) b]) ?d"
    using frame(1,4) within
    by (simp add: frames_loop.simps[of env c] next_frame_end_exact[OF frame(5)] Let_def)
  then show ?case
    using frame(3)[OF next_b inv] by simp
qed

lemma push_frames_exact:
  assumes "idle d" "\<not> opaque_frame d" "split_frames (pending d @ chunk) = (fs, rest)"
    "length rest \<le> MAX_SSE_EVENT_BUFFER_BYTES"
  shows "push_frames env chunk d =
     Some (observe env (stream_start d) fs,
       d\<lparr>pending := rest, scanned := length rest, stream_start := (stream_start d \<and> fs = [])\<rparr>)"
  using frames_loop_exact[OF assms(3) _ idle_scan_inv[OF assms(1)], where frames = "[]"]
    commit_rest[OF assms(3)] assms(2,4)
  by (simp add: push_frames_def Let_def)

lemma push_frames_all_exact:
  "idle d \<Longrightarrow> \<not> opaque_frame d \<Longrightarrow> frames_fit (pending d @ concat cs)
     \<Longrightarrow> split_frames (pending d @ concat cs) = (hs, tail)
     \<Longrightarrow> push_frames_all env cs d =
         Some (observe env (stream_start d) hs,
           d\<lparr>pending := tail, scanned := length tail, stream_start := (stream_start d \<and> hs = [])\<rparr>)"
proof (induction cs arbitrary: d hs)
  case Nil
  then show ?case
    by (auto simp: idle_def split_frames_None)
next
  case (Cons c cs)
  obtain fs rest where fs: "split_frames (pending d @ c) = (fs, rest)"
    by (metis surj_pair)
  obtain gs where gs: "split_frames (rest @ concat cs) = (gs, tail)" "hs = fs @ gs"
    using split_frames_append[OF fs] Cons.prems(4) by (metis append_assoc concat.simps(2) prod.inject surj_pair)
  let ?d = "d\<lparr>pending := rest, scanned := length rest, stream_start := (stream_start d \<and> fs = [])\<rparr>"
  have fit: "frames_fit (rest @ concat cs)" "length rest \<le> MAX_SSE_EVENT_BUFFER_BYTES"
    using frames_fit_append[OF _ fs, of "concat cs"] Cons.prems(3) by simp_all
  have "idle ?d"
    using split_frames_rest[OF fs] by (simp add: idle_def)
  then show ?case
    using push_frames_exact[OF Cons.prems(1,2) fs fit(2)] Cons.IH[of ?d gs] Cons.prems(2) fit(1) gs
    by (simp add: observe_append)
qed

lemma forward_chunks_exact:
  assumes "frames_fit (concat cs)" "split_frames (concat cs) = (fs, rest)"
  shows "forward_chunks env cs default_decoder = Some (observe env True (fs @ tail_frame rest))"
  using push_frames_all_exact[of default_decoder cs fs rest] assms
  by (auto simp: forward_chunks_def default_decoder_def idle_def finish_frames_def tail_frame_def observe_append
      Let_def)

lemma forward_observes_decode:
  assumes "frames_fit (concat cs)" "decode_whole env True (concat cs) = Ok es"
  shows "\<exists>frames. forward_chunks env cs default_decoder = Some frames \<and> concat (map frame_events frames) = es"
proof -
  obtain fs rest where fs: "split_frames (concat cs) = (fs, rest)"
    by (metis surj_pair)
  have "list_all (\<lambda>f. length f \<le> MAX_SSE_EVENT_BUFFER_BYTES) (fs @ tail_frame rest)"
    using assms(1) fs by (simp add: frames_fit_def tail_frame_def)
  moreover have "parse_frames env True (fs @ tail_frame rest) = Ok es"
    using assms(2) fs by (simp add: decode_whole_def)
  ultimately show ?thesis
    using forward_chunks_exact[OF assms(1) fs] observe_parse by auto
qed

end

text \<open>The laws hold of the search for the first occurrence.\<close>

fun first_index :: "string \<Rightarrow> string \<Rightarrow> nat option" where
  "first_index [] n = (if n = [] then Some 0 else None)"
| "first_index (c # cs) n = (if prefix n (c # cs) then Some 0 else map_option Suc (first_index cs n))"

definition demo_sse_deps :: SseDeps where
  "demo_sse_deps = \<lparr>memmem_find = first_index, json_from_str = (\<lambda>_. None), json_to_string = (\<lambda>_. ''{}'')\<rparr>"

lemma first_index_Some:
  "first_index h n = Some i \<Longrightarrow> prefix n (drop i h) \<and> (\<forall>j<i. \<not> prefix n (drop j h))"
  by (induction h n arbitrary: i rule: first_index.induct) (auto simp: less_Suc_eq_0_disj split: if_splits)

lemma first_index_None: "first_index h n = None \<Longrightarrow> \<not> prefix n (drop j h)"
proof (induction h n arbitrary: j rule: first_index.induct)
  case (2 c cs n)
  then show ?case by (cases j) (auto split: if_splits)
qed (simp split: if_splits)

interpretation demo: sse_deps demo_sse_deps
  by unfold_locales (simp_all add: demo_sse_deps_def first_index_Some first_index_None)


section \<open>Properties\<close>

text \<open>
  C33: Chunk independence. Let every frame of a stream, and its unfinished end, be at most
  \<open>MAX_SSE_EVENT_BUFFER_BYTES\<close> long. Then pushing the stream through \<open>push\<close> in any chunks and calling
  \<open>finish\<close> does not panic, and its outcome, all events or else the error (the events handed on by earlier calls are
  then not compared), is that of chopping the whole stream
  at its separators and parsing piece by piece, although \<open>push\<close> rescans only three bytes of what it has
  already seen.
\<close>

theorem chunking_is_irrelevant:
  assumes "sse_deps env" "frames_fit (concat chunks)"
  shows "decode_chunks env chunks default_decoder = Some (decode_whole env True (concat chunks))"
  using sse_deps.decode_chunks_whole[OF assms] .

definition demo_chunks :: "string list" where
  "demo_chunks = [''data: on'', ''e'' @ [CR, LF, CR], [LF] @ ''data: two'' @ [LF], [LF] @ '': end'']"

lemma demo_chunks_fit: "frames_fit (concat demo_chunks)"
  by (rule frames_fit_short) (simp add: demo_chunks_def MAX_SSE_EVENT_BUFFER_BYTES_def)

theorem chunking_is_irrelevant_witness:
  "decode_chunks demo_sse_deps demo_chunks default_decoder
     = Some (decode_whole demo_sse_deps True (concat demo_chunks))"
  using chunking_is_irrelevant[OF demo.sse_deps_axioms demo_chunks_fit] .

text \<open>
  C34: The transparent mode hands on the bytes it was given. After any chunks of any bytes, frames past
  the observation limit included, \<open>push_frames\<close> has not panicked, the raw bytes handed on followed by
  the bytes still held are exactly the bytes received, no more than \<open>MAX_SSE_EVENT_BUFFER_BYTES\<close> are held,
  and \<open>finish_frames\<close> hands on the bytes held.
\<close>

theorem transparent_mode_keeps_every_byte:
  assumes "sse_deps env"
  shows "\<exists>frames d. push_frames_all env chunks default_decoder = Some (frames, d)
           \<and> concat (map raw frames) @ pending d = concat chunks
           \<and> length (pending d) \<le> MAX_SSE_EVENT_BUFFER_BYTES
           \<and> concat (map raw (fst (finish_frames env d))) = pending d"
  using sse_deps.push_frames_all_keeps[OF assms, of default_decoder chunks] finish_frames_raw
  by (auto simp: default_decoder_def wf_decoder_def)

theorem transparent_mode_keeps_every_byte_witness:
  "\<exists>frames d. push_frames_all demo_sse_deps demo_chunks default_decoder = Some (frames, d)
     \<and> concat (map raw frames) @ pending d = concat demo_chunks"
  using transparent_mode_keeps_every_byte[OF demo.sse_deps_axioms, of demo_chunks] by blast

end
