(* ===== verification/Sse_Roundtrip.thy ===== *)
theory Sse_Roundtrip
  imports Sse_Framing
begin

text \<open>
  Encoding and decoding together: the frame \<open>encode_sse_event_with_metadata\<close> writes is one frame of the
  decoder, and the line parser reads the event back from it. Metadata the wire form cannot hold (an event
  name or id with a line break, an id with a NUL, an empty event name) is left out by the encoder.
\<close>

section \<open>UTF-8\<close>

lemma utf8_Nil [simp]: "utf8 []"
  by (simp add: utf8.simps)

lemma utf8_ascii [simp]: "byte c < 128 \<Longrightarrow> utf8 (c # s) = utf8 s"
  by (simp add: utf8.simps[of "c # s"])

lemma long_list_cases:
  assumes "\<not> length a < 4"
  obtains x y z w ws where "a = x # y # z # w # ws"
  using assms that by (auto simp: not_less eval_nat_numeral Suc_le_length_iff)

lemma utf8_char_append:
  assumes "utf8_char a = Some r"
  shows "utf8_char (a @ b) = Some (r @ b)"
proof (cases "length a < 4")
  case True
  then show ?thesis
    using assms by (cases rule: short_list_cases) (auto split: if_splits)
next
  case False
  then obtain x y z w ws where "a = x # y # z # w # ws"
    by (rule long_list_cases)
  then show ?thesis
    using assms by (auto split: if_splits)
qed

lemma utf8_append: "utf8 a \<Longrightarrow> utf8 (a @ b) = utf8 b"
proof (induction a rule: utf8.induct)
  case (1 s)
  show ?case
  proof (cases "s = []")
    case False
    then obtain r where r: "utf8_char s = Some r" "utf8 r"
      using 1(2) by (auto simp: utf8.simps[of s] split: option.splits)
    then show ?thesis
      using 1(1)[OF r] False r(1) by (simp add: utf8.simps[of "s @ b"] utf8_char_append)
  qed simp
qed

lemma utf8_concat: "list_all utf8 ls \<Longrightarrow> utf8 (concat ls)"
  by (induction ls) (simp_all add: utf8_append)

lemma utf8_digits: "list_all is_ascii_digit s \<Longrightarrow> utf8 s"
  by (induction s) (auto simp: is_ascii_digit_def)

text \<open>An ASCII byte never stands inside a longer sequence.\<close>

lemma not_cont: "byte c < 128 \<Longrightarrow> 128 \<le> lo \<Longrightarrow> \<not> is_cont lo hi c"
  by (simp add: is_cont_def)

lemma utf8_char_split:
  assumes "a \<noteq> []" "byte c < 128"
  shows "utf8_char (a @ c # b) = map_option (\<lambda>r. r @ c # b) (utf8_char a)"
proof (cases "length a < 4")
  case True
  then show ?thesis
    using assms by (cases rule: short_list_cases) (simp_all add: not_cont split: list.split)
next
  case False
  then obtain x y z w ws where "a = x # y # z # w # ws"
    by (rule long_list_cases)
  then show ?thesis by simp
qed

lemma utf8_split: "byte c < 128 \<Longrightarrow> utf8 (a @ c # b) \<longleftrightarrow> utf8 a \<and> utf8 b"
proof (induction a rule: utf8.induct)
  case (1 s)
  show ?case
  proof (cases "s = []")
    case False
    then show ?thesis
      using 1 utf8_char_split[OF False 1(2), of b]
      by (cases "utf8_char s") (simp_all add: utf8.simps[of s] utf8.simps[of "s @ c # b"])
  qed (use 1(2) in simp)
qed

lemma split_on_step:
  obtains p ps where "split_on sep s = p # ps"
  by (cases "split_on sep s") auto

lemma split_on_join: "split_on sep s = p # ps \<Longrightarrow> p @ concat (map (\<lambda>l. sep # l) ps) = s"
proof (induction s arbitrary: p ps)
  case (Cons c cs)
  obtain q qs where q: "split_on sep cs = q # qs" by (rule split_on_step)
  have "p = [] \<and> ps = q # qs \<and> c = sep \<or> p = c # q \<and> ps = qs"
    using Cons.prems q by (simp split: if_splits)
  then show ?case
    using Cons.IH[OF q] by auto
qed simp

lemma split_on_pieces: "l \<in> set (split_on sep s) \<Longrightarrow> sep \<notin> set l \<and> set l \<subseteq> set s"
proof (induction s arbitrary: l)
  case (Cons c cs)
  obtain q qs where q: "split_on sep cs = q # qs" by (rule split_on_step)
  show ?case
    using Cons.prems Cons.IH q by (fastforce split: if_splits)
qed simp

lemma utf8_pieces: "utf8 s \<Longrightarrow> byte sep < 128 \<Longrightarrow> l \<in> set (split_on sep s) \<Longrightarrow> utf8 l"
proof -
  assume u: "utf8 s" and c: "byte sep < 128" and l: "l \<in> set (split_on sep s)"
  have "list_all utf8 (p # ps)" if "utf8 (p @ concat (map (\<lambda>l. sep # l) ps))" for p ps
    using that by (induction ps arbitrary: p) (use c in \<open>auto simp: utf8_split\<close>)
  moreover obtain p ps where "split_on sep s = p # ps" by (rule split_on_step)
  ultimately show "utf8 l"
    using u l split_on_join by (metis Ball_set)
qed


section \<open>One frame per event\<close>

definition joined :: "string list \<Rightarrow> string" where
  "joined ls = concat (map (\<lambda>l. l @ [LF]) ls)"

definition plain_line :: "string \<Rightarrow> bool" where
  "plain_line l \<longleftrightarrow> l \<noteq> [] \<and> LF \<notin> set l \<and> CR \<notin> set l"

lemma first_sep_plain:
  "LF \<notin> set l \<Longrightarrow> CR \<notin> set l
     \<Longrightarrow> first_sep (l @ y) = map_option (\<lambda>(p, n). (length l + p, n)) (first_sep y)"
proof (induction l)
  case (Cons c l)
  then have "sep_here ((c # l) @ y) = None"
    by (auto simp: sep_here_def)
  with Cons show ?case
    by (cases "first_sep y") auto
qed (auto simp: option.map_ident_strong split: prod.splits)

lemma first_sep_LF: "c \<noteq> LF \<Longrightarrow> first_sep (LF # c # y) = map_option (\<lambda>(p, n). (Suc p, n)) (first_sep (c # y))"
  by (simp add: sep_here_def)

lemma first_sep_joined:
  "ls \<noteq> [] \<Longrightarrow> list_all plain_line ls \<Longrightarrow> first_sep (joined ls @ LF # x) = Some (length (joined ls) - 1, 2)"
proof (induction ls rule: list_nonempty_induct)
  case (single l)
  then show ?case
    by (simp add: joined_def plain_line_def first_sep_plain sep_here_def)
next
  case (cons l ls)
  obtain c k where l': "hd ls = c # k" "c \<noteq> LF" and ls: "ls = (c # k) # tl ls"
    using cons by (cases ls; cases "hd ls") (auto simp: plain_line_def)
  let ?rest = "joined ls @ LF # x"
  have rest: "?rest = c # (k @ LF # joined (tl ls) @ LF # x)"
    by (subst ls) (simp add: joined_def)
  have pos: "0 < length (joined ls)"
    by (subst ls) (simp add: joined_def)
  have "first_sep (joined (l # ls) @ LF # x) = first_sep (l @ LF # ?rest)"
    by (simp add: joined_def)
  also have "\<dots> = map_option (\<lambda>(p, n). (length l + p, n)) (first_sep (LF # ?rest))"
    using cons(3) by (simp add: first_sep_plain plain_line_def)
  also have "first_sep (LF # ?rest) = map_option (\<lambda>(p, n). (Suc p, n)) (first_sep ?rest)"
    unfolding rest using first_sep_LF l'(2) by blast
  finally show ?case
    using cons pos by (simp add: joined_def)
qed

definition frame_of :: "string list \<Rightarrow> string" where
  "frame_of ls = joined ls @ [LF]"

lemma split_frames_of:
  "list_all (\<lambda>ls. ls \<noteq> [] \<and> list_all plain_line ls) lss
     \<Longrightarrow> split_frames (concat (map frame_of lss)) = (map frame_of lss, [])"
proof (induction lss)
  case (Cons ls lss)
  have "0 < length (joined ls)"
    using Cons.prems by (cases ls) (auto simp: joined_def)
  then have len: "length (joined ls) - 1 + 2 = length (frame_of ls)"
    by (simp add: frame_of_def)
  have sep: "first_sep (concat (map frame_of (ls # lss))) = Some (length (joined ls) - 1, 2)"
    using Cons.prems first_sep_joined[of ls] by (simp add: frame_of_def)
  show ?case
    using split_frames_Some[OF sep] Cons.IH Cons.prems unfolding len by simp
qed (simp add: split_frames_None)

lemma split_inclusive_line: "LF \<notin> set l \<Longrightarrow> split_inclusive LF (l @ LF # x) = (l @ [LF]) # split_inclusive LF x"
  by (induction l) auto

lemma str_lines_frame: "list_all plain_line ls \<Longrightarrow> str_lines (frame_of ls) = ls @ [[]]"
proof (induction ls)
  case Nil
  show ?case by (simp add: frame_of_def joined_def str_lines_def strip_suffix_char_def)
next
  case (Cons l ls)
  have l: "l \<noteq> []" "LF \<notin> set l" "CR \<notin> set l"
    using Cons.prems by (simp_all add: plain_line_def)
  then have "last l \<noteq> CR"
    by (metis last_in_set)
  then have "str_lines (frame_of (l # ls)) = l # str_lines (frame_of ls)"
    by (simp add: frame_of_def joined_def str_lines_def split_inclusive_line strip_suffix_char_def l)
  with Cons show ?case by simp
qed



section \<open>The line parser on the lines of an event\<close>

fun parse_fields :: "string list \<Rightarrow> EventBuilder \<Rightarrow> SseError + EventBuilder" where
  "parse_fields [] b = Ok b"
| "parse_fields (l # ls) b = (case parse_field l b of Inl e \<Rightarrow> Err e | Inr b \<Rightarrow> parse_fields ls b)"

definition field_line :: "string \<Rightarrow> bool" where
  "field_line l \<longleftrightarrow> plain_line l \<and> \<not> prefix '':'' l \<and> fst (split_sse_field l) \<in> {''event'', ''data'', ''id'', ''retry''}"

lemma track_fits:
  assumes "n + 1 + length l \<le> MAX_SSE_EVENT_BUFFER_BYTES"
  shows "\<exists>m. track_event_buffer_bytes n l = Ok m \<and> m \<le> n + 1 + length l"
proof -
  let ?k = "if n \<noteq> 0 then 1 else 0 :: nat"
  have "MAX_SSE_EVENT_BUFFER_BYTES < 2 ^ 64"
    by (simp add: MAX_SSE_EVENT_BUFFER_BYTES_def)
  then have "saturating_add_u 64 (saturating_add_u 64 n ?k) (length l) = n + ?k + length l"
    using assms by (subst saturating_add_u_exact; simp add: saturating_add_u_exact)+
  then show ?thesis
    using assms by (simp add: track_event_buffer_bytes_def Let_def)
qed

lemma parse_line_field:
  assumes "field_line l" "ps_event_buffer_bytes st + 1 + length l \<le> MAX_SSE_EVENT_BUFFER_BYTES"
    "parse_field l (ps_builder st) = Ok b"
  obtains m where "m \<le> ps_event_buffer_bytes st + 1 + length l"
    "parse_sse_line l st = Ok (st\<lparr>ps_event_buffer_bytes := m, ps_saw_sse_syntax := True, ps_builder := b\<rparr>)"
proof -
  obtain m where m: "track_event_buffer_bytes (ps_event_buffer_bytes st) l = Ok m"
    "m \<le> ps_event_buffer_bytes st + 1 + length l"
    using track_fits[OF assms(2)] by blast
  have "l \<noteq> []" "last l \<noteq> CR"
    using assms(1) by (auto simp: field_line_def plain_line_def dest: last_in_set)
  then show ?thesis
    using that[of m] m assms(1,3)
    by (simp add: parse_sse_line_def strip_suffix_char_def field_line_def)
qed

lemma parse_lines_fields:
  "list_all field_line ls \<Longrightarrow> ps_event_buffer_bytes st + length (joined ls) \<le> MAX_SSE_EVENT_BUFFER_BYTES
     \<Longrightarrow> parse_fields ls (ps_builder st) = Ok b \<Longrightarrow> ls \<noteq> []
     \<Longrightarrow> \<exists>m. parse_sse_lines (ls @ more_lines) st =
           parse_sse_lines more_lines (st\<lparr>ps_event_buffer_bytes := m, ps_saw_sse_syntax := True, ps_builder := b\<rparr>)"
proof (induction ls arbitrary: st)
  case (Cons l ls)
  obtain b1 where b1: "parse_field l (ps_builder st) = Ok b1" "parse_fields ls b1 = Ok b"
    using Cons.prems(3) by (auto split: sum.splits)
  have "ps_event_buffer_bytes st + 1 + length l \<le> MAX_SSE_EVENT_BUFFER_BYTES"
    using Cons.prems(2) by (simp add: joined_def)
  then obtain m where m: "m \<le> ps_event_buffer_bytes st + 1 + length l"
    "parse_sse_line l st = Ok (st\<lparr>ps_event_buffer_bytes := m, ps_saw_sse_syntax := True, ps_builder := b1\<rparr>)"
    using parse_line_field[of l st b1] Cons.prems(1) b1(1) by auto
  show ?case
  proof (cases "ls = []")
    case True
    then show ?thesis using m b1 by auto
  next
    case False
    then show ?thesis
      using Cons.IH[of "st\<lparr>ps_event_buffer_bytes := m, ps_saw_sse_syntax := True, ps_builder := b1\<rparr>"]
        Cons.prems m b1 by (auto simp: joined_def)
  qed
qed simp

lemma split_data [simp]: "split_sse_field (''data: '' @ v) = (''data'', v)"
  by (simp add: split_sse_field_def strip_prefix_def)

lemma split_event [simp]: "split_sse_field (''event: '' @ v) = (''event'', v)"
  by (simp add: split_sse_field_def strip_prefix_def)

lemma split_id [simp]: "split_sse_field (''id: '' @ v) = (''id'', v)"
  by (simp add: split_sse_field_def strip_prefix_def)

lemma split_retry [simp]: "split_sse_field (''retry: '' @ v) = (''retry'', v)"
  by (simp add: split_sse_field_def strip_prefix_def)

lemma parse_u64_to_string: "n < 2 ^ 64 \<Longrightarrow> parse_u64 (u_to_string n) = Some n"
proof -
  assume n: "n < 2 ^ 64"
  obtain c cs where c: "u_to_string n = c # cs"
    by (cases "u_to_string n") auto
  then have "c \<noteq> CHR ''+''"
    using u_to_string_digits[of n] by (auto simp: is_ascii_digit_def byte_def)
  moreover have "parse_u 64 (u_to_string n) = Some n"
    using n by (simp add: parse_u_def)
  ultimately show ?thesis
    by (auto simp: parse_u64_def c split: char.split bool.split)
qed

lemma parse_data_lines:
  "eb_has_data b \<Longrightarrow> parse_fields (map (\<lambda>l. ''data: '' @ l) ls) b
     = Ok (b\<lparr>eb_data := eb_data b @ concat (map (\<lambda>l. LF # l) ls)\<rparr>)"
  by (induction ls arbitrary: b) (simp_all add: parse_field_def push_data_def del: append.simps)

text \<open>The lines the encoder writes for an event, and what the wire form keeps of it.\<close>

definition encode_event :: "SseEvent \<Rightarrow> string" where
  "encode_event e = encode_sse_event_with_metadata (unwrap_or (ev_event e) []) (ev_data e) (ev_id e) (ev_retry e)"

definition wire_view :: "SseEvent \<Rightarrow> SseEvent" where
  "wire_view e =
     e\<lparr>ev_event := filter_option (\<lambda>v. v \<noteq> [] \<and> sse_field_value_is_single_line v) (ev_event e),
       ev_id := filter_option sse_id_is_representable (ev_id e)\<rparr>"

definition option_line :: "string \<Rightarrow> string option \<Rightarrow> string list" where
  "option_line name v = (case v of None \<Rightarrow> [] | Some t \<Rightarrow> [name @ t])"

definition event_lines :: "SseEvent \<Rightarrow> string list" where
  "event_lines e =
     option_line ''id: '' (ev_id (wire_view e)) @ option_line ''event: '' (ev_event (wire_view e))
     @ option_line ''retry: '' (map_option u_to_string (ev_retry e))
     @ map (\<lambda>l. ''data: '' @ l) (split_on LF (ev_data e))"

definition sendable :: "SseEvent \<Rightarrow> bool" where
  "sendable e \<longleftrightarrow>
     utf8 (ev_data e) \<and> CR \<notin> set (ev_data e) \<and> ev_data e \<noteq> ''[DONE]''
     \<and> is_none_or (ev_event e) utf8 \<and> is_none_or (ev_id e) utf8 \<and> is_none_or (ev_retry e) (\<lambda>n. n < 2 ^ 64)
     \<and> length (encode_event e) \<le> MAX_SSE_EVENT_BUFFER_BYTES"

lemma encode_event_lines: "encode_event e = frame_of (event_lines e)"
proof -
  have "concat (map (\<lambda>l. ''data: '' @ l @ [LF]) ls) = joined (map (\<lambda>l. ''data: '' @ l) ls)" for ls
    by (simp add: joined_def comp_def)
  then show ?thesis
    by (cases "ev_event e"; cases "ev_id e"; cases "ev_retry e")
       (simp_all add: encode_event_def encode_sse_event_with_metadata_def frame_of_def event_lines_def
          wire_view_def option_line_def joined_def)
qed

lemma field_line_intros:
  "LF \<notin> set v \<Longrightarrow> CR \<notin> set v \<Longrightarrow> name \<in> {''id: '', ''event: '', ''retry: '', ''data: ''} \<Longrightarrow> field_line (name @ v)"
  by (auto simp: field_line_def plain_line_def split_sse_field_def)

lemma wire_view_plain:
  "ev_id (wire_view e) = Some v \<Longrightarrow> LF \<notin> set v \<and> CR \<notin> set v \<and> CHR 0x00 \<notin> set v"
  "ev_event (wire_view e) = Some v \<Longrightarrow> LF \<notin> set v \<and> CR \<notin> set v"
  by (auto simp: wire_view_def filter_option_eq_Some sse_id_is_representable_def sse_field_value_is_single_line_def)

lemma wire_view_origin:
  "ev_id (wire_view e) = Some v \<Longrightarrow> ev_id e = Some v"
  "ev_event (wire_view e) = Some v \<Longrightarrow> ev_event e = Some v"
  by (auto simp: wire_view_def filter_option_eq_Some)

lemma u_to_string_plain: "LF \<notin> set (u_to_string n)" "CR \<notin> set (u_to_string n)"
  using u_to_string_digits[of n] by (auto simp: list_all_iff is_ascii_digit_def byte_def)

lemma event_lines_allI:
  assumes "\<And>v. ev_id (wire_view e) = Some v \<Longrightarrow> P (''id: '' @ v)"
    and "\<And>v. ev_event (wire_view e) = Some v \<Longrightarrow> P (''event: '' @ v)"
    and "\<And>n. ev_retry e = Some n \<Longrightarrow> P (''retry: '' @ u_to_string n)"
    and "\<And>l. l \<in> set (split_on LF (ev_data e)) \<Longrightarrow> P (''data: '' @ l)"
  shows "list_all P (event_lines e)"
proof -
  have opt: "list_all P (option_line name v)" if "\<And>t. v = Some t \<Longrightarrow> P (name @ t)" for name v
    using that by (cases v) (simp_all add: option_line_def)
  show ?thesis
    unfolding event_lines_def list_all_append
    by (intro conjI opt) (use assms in \<open>auto simp: list_all_iff simp del: append.simps\<close>)
qed

lemma utf8_field: "name \<in> {''id: '', ''event: '', ''retry: '', ''data: ''} \<Longrightarrow> utf8 v \<Longrightarrow> utf8 (name @ v)"
  by (auto simp: byte_def)

lemma event_lines_fields:
  assumes "sendable e"
  shows "list_all field_line (event_lines e)" "list_all utf8 (event_lines e)" "event_lines e \<noteq> []"
proof -
  have ok: "utf8 (ev_data e)" "CR \<notin> set (ev_data e)" "is_none_or (ev_event e) utf8" "is_none_or (ev_id e) utf8"
    using assms by (simp_all add: sendable_def)
  have lines: "LF \<notin> set l \<and> CR \<notin> set l \<and> utf8 l" if "l \<in> set (split_on LF (ev_data e))" for l
    using utf8_pieces[OF ok(1) _ that] split_on_pieces[OF that] ok(2) by (auto simp: byte_def)
  have ids: "utf8 v" if "ev_id (wire_view e) = Some v" for v
    using wire_view_origin(1)[OF that] ok(4) by (simp add: is_none_or_iff)
  have events: "utf8 v" if "ev_event (wire_view e) = Some v" for v
    using wire_view_origin(2)[OF that] ok(3) by (simp add: is_none_or_iff)
  show "list_all field_line (event_lines e)"
    by (rule event_lines_allI; rule field_line_intros)
       (simp_all add: wire_view_plain u_to_string_plain lines)
  show "list_all utf8 (event_lines e)"
    by (rule event_lines_allI; rule utf8_field) (simp_all add: ids events lines utf8_digits)
  show "event_lines e \<noteq> []"
    by (simp add: event_lines_def)
qed

lemma parse_fields_append:
  "parse_fields (ls @ ks) b = (case parse_fields ls b of Inl e \<Rightarrow> Err e | Inr b \<Rightarrow> parse_fields ks b)"
  by (induction ls arbitrary: b) (auto split: sum.splits)

lemma parse_option_lines:
  "parse_fields (option_line ''event: '' v) b = Ok (case v of None \<Rightarrow> b | Some t \<Rightarrow> b\<lparr>eb_event := Some t\<rparr>)"
  "is_none_or v (\<lambda>t. CHR 0x00 \<notin> set t)
     \<Longrightarrow> parse_fields (option_line ''id: '' v) b = Ok (case v of None \<Rightarrow> b | Some t \<Rightarrow> b\<lparr>eb_id := Some t\<rparr>)"
  by (cases v; simp add: option_line_def parse_field_def del: append.simps)+

lemma parse_retry_line:
  "is_none_or r (\<lambda>n. n < 2 ^ 64) \<Longrightarrow> parse_fields (option_line ''retry: '' (map_option u_to_string r)) b
     = Ok (case r of None \<Rightarrow> b | Some n \<Rightarrow> b\<lparr>eb_retry := Some n\<rparr>)"
  by (cases r) (simp_all add: option_line_def parse_field_def parse_u64_to_string del: append.simps)

lemma parse_event_lines:
  assumes "sendable e"
  shows "parse_fields (event_lines e) default_builder =
     Ok \<lparr>eb_event = ev_event (wire_view e), eb_data = ev_data e, eb_has_data = True, eb_id = ev_id (wire_view e),
         eb_retry = ev_retry e\<rparr>"
proof -
  obtain p ps where ps: "split_on LF (ev_data e) = p # ps"
    by (rule split_on_step)
  have ids: "is_none_or (ev_id (wire_view e)) (\<lambda>t. CHR 0x00 \<notin> set t)"
    using wire_view_plain(1) by (auto simp: is_none_or_iff)
  have retry: "is_none_or (ev_retry e) (\<lambda>n. n < 2 ^ 64)"
    using assms by (simp add: sendable_def)
  have data: "parse_fields (map (\<lambda>l. ''data: '' @ l) (split_on LF (ev_data e))) b
       = Ok (b\<lparr>eb_data := ev_data e, eb_has_data := True\<rparr>)" if "\<not> eb_has_data b" "eb_data b = []" for b
  proof -
    have "parse_fields (map (\<lambda>l. ''data: '' @ l) (p # ps)) b =
        parse_fields (map (\<lambda>l. ''data: '' @ l) ps) (b\<lparr>eb_data := p, eb_has_data := True\<rparr>)"
      using that by (simp add: parse_field_def push_data_def del: append_Cons)
    then show ?thesis
      using split_on_join[OF ps] by (simp add: ps parse_data_lines del: append_Cons)
  qed
  show ?thesis
    unfolding event_lines_def parse_fields_append parse_option_lines(1) parse_option_lines(2)[OF ids]
      parse_retry_line[OF retry]
    by (cases "ev_id (wire_view e)"; cases "ev_event (wire_view e)"; cases "ev_retry e")
       (simp_all add: data default_builder_def)
qed

lemma parse_encoded:
  assumes "sendable e"
  shows "parse_frame env (encode_event e) start = Ok [wire_view e]"
proof -
  let ?b = "\<lparr>eb_event = ev_event (wire_view e), eb_data = ev_data e, eb_has_data = True,
     eb_id = ev_id (wire_view e), eb_retry = ev_retry e\<rparr>"
  note ls = event_lines_fields[OF assms]
  have "list_all (\<lambda>l. \<not> prefix BOM l) (event_lines e)"
    by (rule event_lines_allI) (simp_all add: BOM_def)
  then obtain l k where lk: "event_lines e = l # k" "strip_prefix BOM l = l"
    using ls(3) by (cases "event_lines e") (auto simp: strip_prefix_def)
  have plain: "list_all plain_line (event_lines e)"
    using ls(1) by (auto simp: list_all_iff field_line_def)
  have "list_all utf8 (map (\<lambda>l. l @ [LF]) (event_lines e) @ [[LF]])"
    using ls(2) by (auto simp: list_all_iff utf8_append byte_def)
  from utf8_concat[OF this] have utf: "utf8 (encode_event e)"
    by (simp add: encode_event_lines frame_of_def joined_def)
  have size: "ps_event_buffer_bytes initial_parse + length (joined (event_lines e)) \<le> MAX_SSE_EVENT_BUFFER_BYTES"
    using assms by (simp add: sendable_def encode_event_lines frame_of_def initial_parse_def)
  obtain m where "parse_sse_lines (event_lines e @ [[]]) initial_parse =
      parse_sse_lines [[]] (initial_parse\<lparr>ps_event_buffer_bytes := m, ps_saw_sse_syntax := True, ps_builder := ?b\<rparr>)"
    using parse_lines_fields[OF ls(1) size _ ls(3), of ?b "[[]]"] parse_event_lines[OF assms]
    by (auto simp: initial_parse_def)
  moreover have "ev_data e \<noteq> ''[DONE]''"
    using assms by (simp add: sendable_def)
  moreover have view: "\<lparr>ev_event = ev_event (wire_view e), ev_data = ev_data e, ev_id = ev_id (wire_view e),
      ev_retry = ev_retry e\<rparr> = wire_view e"
    by (simp add: wire_view_def)
  ultimately have parsed: "parse_sse_lines (event_lines e @ [[]]) initial_parse =
      Ok (initial_parse\<lparr>ps_events := [wire_view e], ps_saw_sse_syntax := True\<rparr>)"
    by (simp add: parse_sse_line_def strip_suffix_char_def builder_finish_def push_event_def initial_parse_def
        default_builder_def)
  have "(case str_lines (encode_event e) of [] \<Rightarrow> [] | l # rest \<Rightarrow> (if start then strip_prefix BOM l else l) # rest)
      = event_lines e @ [[]]"
    using str_lines_frame[OF plain] lk by (simp add: encode_event_lines)
  moreover have "fst (builder_finish (ps_builder initial_parse)) = None"
    by (simp add: builder_finish_def initial_parse_def default_builder_def)
  ultimately have "parse_sse_events_inner env (encode_event e) start = Ok [wire_view e]"
    by (simp add: parse_sse_events_inner_def parsed push_event_def)
  then show ?thesis
    using utf by (simp add: parse_frame_def)
qed

lemma decode_encoded:
  assumes "list_all sendable es"
  shows "frames_fit (concat (map encode_event es))"
    "decode_whole env start (concat (map encode_event es)) = Ok (map wire_view es)"
proof -
  have lines: "list_all (\<lambda>ls. ls \<noteq> [] \<and> list_all plain_line ls) (map event_lines es)"
    using assms event_lines_fields(1,3) by (fastforce simp: list_all_iff field_line_def)
  have "split_frames (concat (map encode_event es)) = (map encode_event es, [])"
    using split_frames_of[OF lines] by (simp add: comp_def encode_event_lines[abs_def])
  moreover have "parse_frames env start (map encode_event es) = Ok (map wire_view es)"
    using assms by (induction es arbitrary: start) (simp_all add: parse_encoded)
  ultimately show "frames_fit (concat (map encode_event es))"
    "decode_whole env start (concat (map encode_event es)) = Ok (map wire_view es)"
    using assms by (simp_all add: frames_fit_def decode_whole_def tail_frame_def list_all_iff sendable_def)
qed


section \<open>Properties\<close>

text \<open>
  C35: Round trip. Events whose texts are UTF-8, whose data has no carriage return and is not the
  \<open>[DONE]\<close> marker, whose \<open>retry\<close> is a \<open>u64\<close> and whose frames fit the buffer, encoded by
  \<open>encode_sse_event_with_metadata\<close> and sent in any chunks, are decoded to the same events in the same
  order, less the event names and ids the encoder leaves out because no line can hold them.
\<close>

theorem encode_decode_roundtrip:
  assumes "sse_deps env" "list_all sendable events" "concat chunks = concat (map encode_event events)"
  shows "decode_chunks env chunks default_decoder = Some (Ok (map wire_view events))"
  using sse_deps.decode_chunks_whole[OF assms(1), of chunks] decode_encoded[OF assms(2)] assms(3) by simp

definition demo_events :: "SseEvent list" where
  "demo_events =
     [\<lparr>ev_event = Some ''delta'', ev_data = ''one'' @ [LF] @ ''two'', ev_id = Some ''7'', ev_retry = Some 250\<rparr>,
      \<lparr>ev_event = None, ev_data = [], ev_id = None, ev_retry = None\<rparr>]"

lemma demo_sendable: "list_all sendable demo_events"
  by (simp add: demo_events_def sendable_def encode_event_def encode_sse_event_with_metadata_def byte_def
      MAX_SSE_EVENT_BUFFER_BYTES_def u_to_string.simps)

theorem encode_decode_roundtrip_witness:
  "decode_chunks demo_sse_deps (map (\<lambda>c. [c]) (concat (map encode_event demo_events))) default_decoder
     = Some (Ok demo_events)"
proof -
  have "concat (map (\<lambda>c. [c]) s) = s" for s :: string
    by (induction s) simp_all
  moreover have "map wire_view demo_events = demo_events"
    by (simp add: demo_events_def wire_view_def sse_id_is_representable_def sse_field_value_is_single_line_def)
  ultimately show ?thesis
    using encode_decode_roundtrip[OF demo.sse_deps_axioms demo_sendable] by simp
qed

text \<open>
  The two modes agree: for a stream whose frames fit and which \<open>push\<close> decodes without error, the
  events observed in the frames of \<open>push_frames\<close> and \<open>finish_frames\<close> are the events of \<open>push\<close> and
  \<open>finish\<close>, whatever the two sets of chunks.
\<close>

theorem transparent_mode_observes_the_events:
  assumes "sse_deps env" "frames_fit (concat chunks)" "concat chunks' = concat chunks"
    "decode_chunks env chunks' default_decoder = Some (Ok events)"
  shows "\<exists>frames. forward_chunks env chunks default_decoder = Some frames
           \<and> concat (map frame_events frames) = events"
  using sse_deps.forward_observes_decode[OF assms(1,2)] sse_deps.decode_chunks_whole[OF assms(1), of chunks']
    assms(2-4) by simp

theorem transparent_mode_observes_the_events_witness:
  "\<exists>frames. forward_chunks demo_sse_deps [concat (map encode_event demo_events)] default_decoder = Some frames
     \<and> concat (map frame_events frames) = map wire_view demo_events"
proof (rule transparent_mode_observes_the_events[OF demo.sse_deps_axioms])
  let ?chunks = "[concat (map encode_event demo_events)]"
  show "frames_fit (concat ?chunks)"
    using decode_encoded(1)[OF demo_sendable] by simp
  show "decode_chunks demo_sse_deps ?chunks default_decoder = Some (Ok (map wire_view demo_events))"
    using demo.decode_chunks_whole[of ?chunks] decode_encoded[OF demo_sendable] by simp
qed simp

end
