(* ===== verification/Restart_Circuit.thy ===== *)
theory Restart_Circuit
  imports Prelude "HOL-Library.While_Combinator"
begin

text \<open>
  The restart circuit of native plugins (\<open>gateway-plugin/runtime/src/generation/restart_circuit.rs\<close>): failed
  attempts to run a plugin instance are counted per identity, and an identity with too many failures in a
  row may not be started again. The state behind the mutex is \<open>RestartCircuitState\<close>; each operation takes
  the lock once, so the operations are the atomic steps and the histories of the circuit are the sequences
  of steps of \<open>circuit_step\<close>. The two callbacks \<open>begin\<close> hands to the RPC session are the operations
  \<open>record_failure\<close> and \<open>end_attempt\<close> for the attempt number it returns.

  A \<open>BTreeMap\<close> is an association list in key order. The counters are \<open>u64\<close>: \<open>wrapping_add\<close> is addition
  modulo \<open>2 ^ 64\<close>.

  The theorems show that every operation keeps the state well-formed, that the eviction loop ends, keeps
  the newest budgets and every budget in use, and that the circuit opens exactly when the current run of
  failures, each attempt counted at most once and a stable run forgiving what was before it, has reached
  the maximum.
\<close>

section \<open>Ordered maps\<close>

fun bt_insert :: "'k::linorder \<Rightarrow> 'v \<Rightarrow> ('k \<times> 'v) list \<Rightarrow> ('k \<times> 'v) list" where
  "bt_insert k v [] = [(k, v)]"
| "bt_insert k v ((k', v') # m) =
     (if k < k' then (k, v) # (k', v') # m
      else if k = k' then (k, v) # m
      else (k', v') # bt_insert k v m)"

definition bt_remove :: "'k \<Rightarrow> ('k \<times> 'v) list \<Rightarrow> ('k \<times> 'v) list" where
  "bt_remove k m = filter (\<lambda>(k', _). k' \<noteq> k) m"

definition last_key :: "('k \<times> 'v) list \<Rightarrow> 'k option" where
  "last_key m = (if m = [] then None else Some (fst (last m)))"

abbreviation bt_ok :: "('k::linorder \<times> 'v) list \<Rightarrow> bool" where
  "bt_ok m \<equiv> sorted_wrt (<) (map fst m)"

lemma bt_insert_lookup [simp]: "map_of (bt_insert k v m) = (map_of m)(k \<mapsto> v)"
  by (induction k v m rule: bt_insert.induct) (auto simp: fun_eq_iff)

lemma bt_insert_keys [simp]: "fst ` set (bt_insert k v m) = insert k (fst ` set m)"
  by (induction k v m rule: bt_insert.induct) (auto simp: image_iff)

lemma bt_insert_ok [simp]: "bt_ok m \<Longrightarrow> bt_ok (bt_insert k v m)"
proof (induction k v m rule: bt_insert.induct)
  case (2 k v k' v' m)
  consider "k < k'" | "k = k'" | "k' < k" by (rule linorder_cases)
  then show ?case
  proof cases
    case 3
    then show ?thesis
      using 2 by (auto simp: image_iff[symmetric] Ball_def)
  qed (use 2 in auto)
qed simp

lemma bt_insert_not_Nil [simp]: "bt_insert k v m \<noteq> []"
  by (cases "(k, v, m)" rule: bt_insert.cases) auto

lemma bt_remove_lookup [simp]: "map_of (bt_remove k m) = (map_of m)(k := None)"
  by (induction m) (auto simp: bt_remove_def fun_eq_iff)

lemma bt_remove_ok [simp]: "bt_ok m \<Longrightarrow> bt_ok (bt_remove k m)"
  by (induction m) (auto simp: bt_remove_def)

lemma bt_remove_keys [simp]: "fst ` set (bt_remove k m) = fst ` set m - {k}"
  by (auto simp: bt_remove_def)

lemma set_bt_remove: "x \<in> set (bt_remove k m) \<longleftrightarrow> x \<in> set m \<and> fst x \<noteq> k"
  by (auto simp: bt_remove_def)

lemma set_bt_insert: "set (bt_insert k v m) \<subseteq> insert (k, v) (set m)"
  by (induction k v m rule: bt_insert.induct) auto

lemma bt_remove_length: "distinct (map fst m) \<Longrightarrow> k \<in> fst ` set m \<Longrightarrow> length (bt_remove k m) = length m - 1"
proof (induction m)
  case (Cons kv m)
  show ?case
  proof (cases "fst kv = k")
    case True
    then have "filter (\<lambda>(k', _). k' \<noteq> k) m = m"
      using Cons.prems(1) by (intro filter_True) (auto simp: rev_image_eqI)
    then show ?thesis using True by (cases kv) (simp add: bt_remove_def)
  next
    case False
    then have "m \<noteq> []" "length (bt_remove k m) = length m - 1"
      using Cons by auto
    then show ?thesis using False by (cases kv) (simp add: bt_remove_def)
  qed
qed simp

lemma bt_distinct: "bt_ok m \<Longrightarrow> distinct (map fst m)"
  by (simp add: strict_sorted_iff)

lemma last_key_greatest: "bt_ok m \<Longrightarrow> last_key m = Some k \<longleftrightarrow> k \<in> fst ` set m \<and> (\<forall>k' \<in> fst ` set m. k' \<le> k)"
proof (cases m rule: rev_cases)
  case (snoc m' kv)
  assume "bt_ok m"
  then show ?thesis
    using snoc by (cases kv) (force simp: last_key_def sorted_wrt_append)
qed (simp add: last_key_def)


section \<open>State\<close>

datatype RestartIdentity = RestartIdentity (instance_id: string) (fingerprint: string)

instantiation RestartIdentity :: linorder
begin

definition less_eq_RestartIdentity :: "RestartIdentity \<Rightarrow> RestartIdentity \<Rightarrow> bool" where
  "less_eq_RestartIdentity a b \<longleftrightarrow> (instance_id a, fingerprint a) \<le> (instance_id b, fingerprint b)"

definition less_RestartIdentity :: "RestartIdentity \<Rightarrow> RestartIdentity \<Rightarrow> bool" where
  "less_RestartIdentity a b \<longleftrightarrow> (instance_id a, fingerprint a) < (instance_id b, fingerprint b)"

instance
  by standard (auto simp: less_eq_RestartIdentity_def less_RestartIdentity_def RestartIdentity.expand)

end

record PluginRestartCircuitConfig =
  maximum_failures :: nat
  stability_window :: duration

definition default_restart_config :: PluginRestartCircuitConfig where
  "default_restart_config = \<lparr>maximum_failures = 3, stability_window = from_secs 60\<rparr>"

definition MAXIMUM_TRACKED_IDENTITIES :: nat where "MAXIMUM_TRACKED_IDENTITIES = 256"

record FailureBudget =
  failures :: nat
  latest_attempt :: nat
  touched :: nat

record Attempt =
  failure :: "duration option"
  failure_applied :: bool

definition default_attempt :: Attempt where
  "default_attempt = \<lparr>failure = None, failure_applied = False\<rparr>"

record RestartCircuitState =
  budgets :: "(RestartIdentity \<times> FailureBudget) list"
  attempts :: "(RestartIdentity \<times> (nat \<times> Attempt) list) list"
  next_attempt :: nat
  clock :: nat

definition initial_circuit :: RestartCircuitState where
  "initial_circuit = \<lparr>budgets = [], attempts = [], next_attempt = 0, clock = 0\<rparr>"

definition wrapping_inc :: "nat \<Rightarrow> nat" where
  "wrapping_inc n = (n + 1) mod 2 ^ 64"


section \<open>Operations\<close>

definition is_open :: "RestartCircuitState \<Rightarrow> RestartIdentity \<Rightarrow> nat \<Rightarrow> bool" where
  "is_open s i maximum = is_some_and (map_of (budgets s) i) (\<lambda>entry. maximum \<le> failures entry)"

definition begin_attempt ::
  "PluginRestartCircuitConfig \<Rightarrow> RestartIdentity \<Rightarrow> RestartCircuitState \<Rightarrow> nat option \<times> RestartCircuitState" where
  "begin_attempt cfg i s =
     (if is_open s i (maximum_failures cfg) then (None, s)
      else
        let attempt = wrapping_inc (next_attempt s);
            current = unwrap_or (map_of (attempts s) i) []
        in (Some attempt,
            s\<lparr>next_attempt := attempt,
              attempts := bt_insert i (bt_insert attempt default_attempt current) (attempts s)\<rparr>))"

text \<open>\<open>Iterator::min_by_key\<close>: the first of the least elements.\<close>

fun min_by_key :: "('a \<Rightarrow> nat) \<Rightarrow> 'a list \<Rightarrow> 'a option" where
  "min_by_key f [] = None"
| "min_by_key f (x # xs) =
     (case min_by_key f xs of None \<Rightarrow> Some x | Some y \<Rightarrow> Some (if f x \<le> f y then x else y))"

lemma min_by_key_None [simp]: "min_by_key f xs = None \<longleftrightarrow> xs = []"
  by (cases xs) (auto split: option.splits)

lemma min_by_key_in: "min_by_key f xs = Some x \<Longrightarrow> x \<in> set xs \<and> (\<forall>y \<in> set xs. f x \<le> f y)"
proof (induction xs arbitrary: x)
  case (Cons a xs)
  then show ?case
    by (cases "min_by_key f xs") (fastforce split: if_splits)+
qed simp

definition eviction_victim ::
  "(RestartIdentity \<times> (nat \<times> Attempt) list) list \<Rightarrow> (RestartIdentity \<times> FailureBudget) list \<Rightarrow> RestartIdentity option"
where
  "eviction_victim live bs =
     map_option fst (min_by_key (\<lambda>(_, entry). touched entry)
       (filter (\<lambda>(i, _). map_of live i = None) bs))"

lemma eviction_victim_in: "eviction_victim live bs = Some i \<Longrightarrow> i \<in> fst ` set bs"
  by (force simp: eviction_victim_def dest!: min_by_key_in)

lemma bt_remove_shorter: "i \<in> fst ` set bs \<Longrightarrow> length (bt_remove i bs) < length bs"
  unfolding bt_remove_def by (elim imageE) (rule length_filter_less, auto)

function evict ::
  "(RestartIdentity \<times> (nat \<times> Attempt) list) list \<Rightarrow> (RestartIdentity \<times> FailureBudget) list
   \<Rightarrow> (RestartIdentity \<times> FailureBudget) list" where
  "evict live bs =
     (if length bs \<le> MAXIMUM_TRACKED_IDENTITIES then bs
      else case eviction_victim live bs of None \<Rightarrow> bs | Some i \<Rightarrow> evict live (bt_remove i bs))"
  by pat_completeness auto
termination
  by (relation "measure (\<lambda>(live, bs). length bs)") (auto intro: bt_remove_shorter eviction_victim_in)

declare evict.simps [simp del]

definition charge :: "PluginRestartCircuitConfig \<Rightarrow> nat \<Rightarrow> duration \<Rightarrow> nat \<Rightarrow> FailureBudget \<Rightarrow> FailureBudget" where
  "charge cfg attempt uptime now entry =
     (let entry = (if stability_window cfg \<le> uptime then entry\<lparr>failures := 0\<rparr> else entry)
      in entry\<lparr>failures := saturating_add_u 64 (failures entry) 1, latest_attempt := attempt, touched := now\<rparr>)"

definition apply_failure ::
  "PluginRestartCircuitConfig \<Rightarrow> RestartIdentity \<Rightarrow> nat \<Rightarrow> duration \<Rightarrow> RestartCircuitState \<Rightarrow> RestartCircuitState" where
  "apply_failure cfg i attempt uptime s =
     (let now = wrapping_inc (clock s);
          entry = unwrap_or (map_of (budgets s) i) \<lparr>failures = 0, latest_attempt = 0, touched = now\<rparr>;
          s = s\<lparr>clock := now, budgets := bt_insert i entry (budgets s)\<rparr>
      in if attempt \<le> latest_attempt entry then s
         else s\<lparr>budgets := evict (attempts s) (bt_insert i (charge cfg attempt uptime now entry) (budgets s))\<rparr>)"

text \<open>What \<open>record_failure\<close> does under the entry of the attempt: the new entry and the failure to apply.\<close>

definition note_failure :: "bool \<Rightarrow> duration \<Rightarrow> Attempt \<Rightarrow> Attempt \<times> duration option" where
  "note_failure current uptime entry =
     (let entry = (if failure entry = None then entry\<lparr>failure := Some uptime\<rparr> else entry)
      in if current \<and> \<not> failure_applied entry then (entry\<lparr>failure_applied := True\<rparr>, failure entry)
         else (entry, None))"

definition record_failure ::
  "PluginRestartCircuitConfig \<Rightarrow> RestartIdentity \<Rightarrow> nat \<Rightarrow> duration \<Rightarrow> RestartCircuitState \<Rightarrow> RestartCircuitState" where
  "record_failure cfg i attempt uptime s =
     (case map_of (attempts s) i of
        None \<Rightarrow> s
      | Some as \<Rightarrow>
          (case map_of as attempt of
             None \<Rightarrow> s
           | Some entry \<Rightarrow>
               let (entry, apply_now) = note_failure (last_key as = Some attempt) uptime entry;
                   s = s\<lparr>attempts := bt_insert i (bt_insert attempt entry as) (attempts s)\<rparr>
               in case apply_now of None \<Rightarrow> s | Some up \<Rightarrow> apply_failure cfg i attempt up s))"

text \<open>
  \<open>end\<close>: the attempt is forgotten; when it was the newest one and the one before it has failed without
  being charged, that failure is charged now.
\<close>

definition restored_failure :: "bool \<Rightarrow> (nat \<times> Attempt) list \<Rightarrow> (nat \<times> duration) option" where
  "restored_failure was_current as =
     (if \<not> was_current \<or> as = [] then None
      else let (attempt, previous) = last as
           in if failure_applied previous then None else map_option (\<lambda>f. (attempt, f)) (failure previous))"

definition end_attempt ::
  "PluginRestartCircuitConfig \<Rightarrow> RestartIdentity \<Rightarrow> nat \<Rightarrow> RestartCircuitState \<Rightarrow> RestartCircuitState" where
  "end_attempt cfg i attempt s =
     (case map_of (attempts s) i of
        None \<Rightarrow> s
      | Some as \<Rightarrow>
          let was_current = (last_key as = Some attempt);
              as = bt_remove attempt as;
              restored = restored_failure was_current as;
              as = (case restored of
                      None \<Rightarrow> as
                    | Some (previous, _) \<Rightarrow>
                        (case map_of as previous of
                           None \<Rightarrow> as
                         | Some entry \<Rightarrow> bt_insert previous (entry\<lparr>failure_applied := True\<rparr>) as));
              s = s\<lparr>attempts := (if as = [] then bt_remove i (attempts s) else bt_insert i as (attempts s))\<rparr>
          in case restored of None \<Rightarrow> s | Some (previous, f) \<Rightarrow> apply_failure cfg i previous f s)"


section \<open>Eviction\<close>

lemma evict_steps:
  assumes "MAXIMUM_TRACKED_IDENTITIES < length bs" "eviction_victim live bs = Some i"
  shows "evict live bs = evict live (bt_remove i bs)"
  using assms by (simp add: evict.simps[of live bs])

lemma evict_stops:
  "length bs \<le> MAXIMUM_TRACKED_IDENTITIES \<or> eviction_victim live bs = None \<Longrightarrow> evict live bs = bs"
  by (auto simp: evict.simps[of live bs])

lemma evict_induct [case_names stop step]:
  assumes "\<And>bs. length bs \<le> MAXIMUM_TRACKED_IDENTITIES \<or> eviction_victim live bs = None \<Longrightarrow> P bs"
    and "\<And>bs i. MAXIMUM_TRACKED_IDENTITIES < length bs \<Longrightarrow> eviction_victim live bs = Some i
           \<Longrightarrow> P (bt_remove i bs) \<Longrightarrow> P bs"
  shows "P bs"
proof (induction bs rule: length_induct)
  case (1 bs)
  show ?case
  proof (cases "MAXIMUM_TRACKED_IDENTITIES < length bs \<and> eviction_victim live bs \<noteq> None")
    case True
    then obtain i where i: "eviction_victim live bs = Some i" by blast
    then show ?thesis
      using True 1 assms(2) bt_remove_shorter[OF eviction_victim_in[OF i]] by blast
  qed (use assms(1) in auto)
qed

lemma eviction_victim_least:
  assumes "eviction_victim live bs = Some i"
  obtains b where "(i, b) \<in> set bs" "map_of live i = None"
    "\<And>j c. (j, c) \<in> set bs \<Longrightarrow> map_of live j = None \<Longrightarrow> touched b \<le> touched c"
proof -
  obtain b where b: "min_by_key (\<lambda>(_, entry). touched entry) (filter (\<lambda>(i, _). map_of live i = None) bs) = Some (i, b)"
    using assms by (auto simp: eviction_victim_def)
  from min_by_key_in[OF this] show ?thesis
    by (intro that[of b]) auto
qed

lemma eviction_victim_None: "eviction_victim live bs = None \<longleftrightarrow> (\<forall>(i, b) \<in> set bs. map_of live i \<noteq> None)"
  by (auto simp: eviction_victim_def filter_empty_conv)

lemma evict_subset: "set (evict live bs) \<subseteq> set bs"
  by (induction bs rule: evict_induct[of live]) (auto simp: evict_stops evict_steps bt_remove_def)

lemma evict_ok: "bt_ok bs \<Longrightarrow> bt_ok (evict live bs)"
  by (induction bs rule: evict_induct[of live]) (auto simp: evict_stops evict_steps)

lemma evict_keeps_live: "map_of live i \<noteq> None \<Longrightarrow> map_of (evict live bs) i = map_of bs i"
proof (induction bs rule: evict_induct[of live])
  case (step bs j)
  then have "j \<noteq> i"
    using eviction_victim_least by metis
  then show ?case using step by (simp add: evict_steps)
qed (simp add: evict_stops)

lemma evict_forgets_or_keeps: "bt_ok bs \<Longrightarrow> map_of (evict live bs) i = None \<or> map_of (evict live bs) i = map_of bs i"
proof (induction bs rule: evict_induct[of live])
  case (step bs j)
  then show ?case by (auto simp: evict_steps)
qed (simp add: evict_stops)

lemma evict_bound:
  "length (evict live bs) \<le> MAXIMUM_TRACKED_IDENTITIES \<or> (\<forall>(i, b) \<in> set (evict live bs). map_of live i \<noteq> None)"
  by (induction bs rule: evict_induct[of live]) (auto simp: evict_stops evict_steps eviction_victim_None)

lemma evict_no_more_than_needed:
  "bt_ok bs \<Longrightarrow> min (length bs) MAXIMUM_TRACKED_IDENTITIES \<le> length (evict live bs)"
proof (induction bs rule: evict_induct[of live])
  case (step bs i)
  have "length (bt_remove i bs) = length bs - 1"
    using bt_remove_length[OF bt_distinct[OF step(4)] eviction_victim_in[OF step(2)]] .
  then show ?case using step by (simp add: evict_steps)
qed (simp add: evict_stops)

lemma evict_oldest_first:
  "bt_ok bs \<Longrightarrow> (i, b) \<in> set bs - set (evict live bs) \<Longrightarrow> (j, c) \<in> set (evict live bs) \<Longrightarrow> map_of live j = None
     \<Longrightarrow> map_of live i = None \<and> touched b \<le> touched c"
proof (induction bs rule: evict_induct[of live])
  case (step bs v)
  obtain bv where v: "(v, bv) \<in> set bs" "map_of live v = None"
    "\<And>j c. (j, c) \<in> set bs \<Longrightarrow> map_of live j = None \<Longrightarrow> touched bv \<le> touched c"
    using eviction_victim_least[OF step(2)] by metis
  have kept: "(j, c) \<in> set bs"
    using step(6) evict_subset by blast
  show ?case
  proof (cases "i = v")
    case True
    then have "b = bv"
      using step(4,5) v(1) bt_distinct[OF step(4)] eq_key_imp_eq_value by fastforce
    then show ?thesis
      using True v(2) v(3)[OF kept step(7)] by simp
  next
    case False
    then show ?thesis
      using step by (auto simp: evict_steps set_bt_remove)
  qed
qed (simp add: evict_stops)


section \<open>Well-formed states\<close>

definition wf_attempts :: "(nat \<times> Attempt) list \<Rightarrow> bool" where
  "wf_attempts as \<longleftrightarrow> as \<noteq> [] \<and> bt_ok as \<and> (\<forall>(a, e) \<in> set as. a < 2 ^ 64 \<and> (failure_applied e \<longrightarrow> failure e \<noteq> None))"

definition wf_budget :: "FailureBudget \<Rightarrow> bool" where
  "wf_budget b \<longleftrightarrow> failures b < 2 ^ 64 \<and> latest_attempt b < 2 ^ 64 \<and> touched b < 2 ^ 64"

definition wf_circuit :: "RestartCircuitState \<Rightarrow> bool" where
  "wf_circuit s \<longleftrightarrow>
     bt_ok (budgets s) \<and> bt_ok (attempts s) \<and> next_attempt s < 2 ^ 64 \<and> clock s < 2 ^ 64
     \<and> (\<forall>(i, as) \<in> set (attempts s). wf_attempts as) \<and> (\<forall>(i, b) \<in> set (budgets s). wf_budget b)"

lemma wrapping_inc_bound [simp]: "wrapping_inc n < 2 ^ 64"
  by (simp add: wrapping_inc_def)

lemma wf_insert_attempts:
  "wf_circuit s \<Longrightarrow> wf_attempts as \<Longrightarrow> wf_circuit (s\<lparr>attempts := bt_insert i as (attempts s)\<rparr>)"
  using set_bt_insert[of i as "attempts s"] by (auto simp: wf_circuit_def)

lemma wf_attempts_insert:
  "bt_ok as \<Longrightarrow> (\<forall>(a, e) \<in> set as. a < 2 ^ 64 \<and> (failure_applied e \<longrightarrow> failure e \<noteq> None)) \<Longrightarrow> a < 2 ^ 64
     \<Longrightarrow> failure_applied e \<longrightarrow> failure e \<noteq> None \<Longrightarrow> wf_attempts (bt_insert a e as)"
  using set_bt_insert[of a e as] by (fastforce simp: wf_attempts_def)

lemma wf_lookup: "wf_circuit s \<Longrightarrow> map_of (attempts s) i = Some as \<Longrightarrow> wf_attempts as"
  by (auto simp: wf_circuit_def dest!: map_of_SomeD)

lemma wf_budget_lookup: "wf_circuit s \<Longrightarrow> map_of (budgets s) i = Some b \<Longrightarrow> wf_budget b"
  by (auto simp: wf_circuit_def dest!: map_of_SomeD)

lemma wf_budgets_insert:
  "wf_circuit s \<Longrightarrow> wf_budget b \<Longrightarrow> wf_circuit (s\<lparr>budgets := bt_insert i b (budgets s)\<rparr>)"
  using set_bt_insert[of i b "budgets s"] by (auto simp: wf_circuit_def)

lemma wf_budgets_evict: "wf_circuit s \<Longrightarrow> wf_circuit (s\<lparr>budgets := evict live (budgets s)\<rparr>)"
  using evict_subset[of live "budgets s"] by (auto simp: wf_circuit_def evict_ok)

lemma charge_wf: "attempt < 2 ^ 64 \<Longrightarrow> now < 2 ^ 64 \<Longrightarrow> wf_budget (charge cfg attempt uptime now entry)"
  by (simp add: charge_def wf_budget_def Let_def saturating_add_u_bound[of 64, simplified])

lemma apply_failure_wf:
  assumes "wf_circuit s" "attempt < 2 ^ 64"
  shows "wf_circuit (apply_failure cfg i attempt uptime s)"
proof -
  let ?now = "wrapping_inc (clock s)"
  let ?entry = "unwrap_or (map_of (budgets s) i) \<lparr>failures = 0, latest_attempt = 0, touched = ?now\<rparr>"
  have entry: "wf_budget ?entry"
    using wf_budget_lookup[OF assms(1), of i] by (cases "map_of (budgets s) i") (simp_all add: wf_budget_def wrapping_inc_def)
  have "wf_circuit (s\<lparr>clock := ?now\<rparr>)"
    using assms(1) by (simp add: wf_circuit_def wrapping_inc_def)
  then have s1: "wf_circuit (s\<lparr>clock := ?now, budgets := bt_insert i ?entry (budgets s)\<rparr>)"
    using wf_budgets_insert[OF _ entry] by fastforce
  have "wf_circuit (s\<lparr>clock := ?now, budgets := bt_insert i (charge cfg attempt uptime ?now ?entry)
      (bt_insert i ?entry (budgets s))\<rparr>)"
    using wf_budgets_insert[OF s1 charge_wf[OF assms(2) wrapping_inc_bound]] by simp
  from wf_budgets_evict[OF this, of "attempts s"] show ?thesis
    using s1 by (simp add: apply_failure_def Let_def)
qed

lemma begin_attempt_wf: "wf_circuit s \<Longrightarrow> wf_circuit (snd (begin_attempt cfg i s))"
proof -
  assume wf: "wf_circuit s"
  let ?a = "wrapping_inc (next_attempt s)"
  let ?as = "unwrap_or (map_of (attempts s) i) []"
  have "bt_ok ?as \<and> (\<forall>(a, e) \<in> set ?as. a < 2 ^ 64 \<and> (failure_applied e \<longrightarrow> failure e \<noteq> None))"
    using wf_lookup[OF wf, of i] by (cases "map_of (attempts s) i") (auto simp: wf_attempts_def)
  then have "wf_attempts (bt_insert ?a default_attempt ?as)"
    by (intro wf_attempts_insert) (simp_all add: default_attempt_def wrapping_inc_def)
  from wf_insert_attempts[OF wf this, of i] show ?thesis
    using wf by (simp add: begin_attempt_def Let_def wf_circuit_def wrapping_inc_def)
qed

lemma note_failure_facts:
  assumes "note_failure current up e = (e', r)" "failure_applied e \<longrightarrow> failure e \<noteq> None"
  shows "failure_applied e' \<longrightarrow> failure e' \<noteq> None"
  using assms by (auto simp: note_failure_def Let_def split: if_splits)

lemma record_failure_wf: "wf_circuit s \<Longrightarrow> wf_circuit (record_failure cfg i a up s)"
proof -
  assume wf: "wf_circuit s"
  show ?thesis
  proof (cases "\<exists>as e. map_of (attempts s) i = Some as \<and> map_of as a = Some e")
    case True
    then obtain as e where as: "map_of (attempts s) i = Some as" "map_of as a = Some e" by blast
    obtain e' r where n: "note_failure (last_key as = Some a) up e = (e', r)" by (metis surj_pair)
    have ok: "bt_ok as" "\<forall>(a, e) \<in> set as. a < 2 ^ 64 \<and> (failure_applied e \<longrightarrow> failure e \<noteq> None)"
      using wf_lookup[OF wf as(1)] by (simp_all add: wf_attempts_def)
    have a: "a < 2 ^ 64" "failure_applied e \<longrightarrow> failure e \<noteq> None"
      using ok(2) map_of_SomeD[OF as(2)] by auto
    have "wf_attempts (bt_insert a e' as)"
      using wf_attempts_insert[OF ok a(1) note_failure_facts[OF n a(2)]] .
    from wf_insert_attempts[OF wf this, of i] show ?thesis
      using as n apply_failure_wf[OF _ a(1)] by (simp add: record_failure_def Let_def split: option.split)
  qed (use wf in \<open>auto simp: record_failure_def split: option.splits\<close>)
qed

lemma restored_facts:
  assumes "restored_failure c as = Some (p, f)"
  obtains e where "(p, e) \<in> set as" "failure e = Some f" "\<not> failure_applied e" "last_key as = Some p"
proof -
  obtain e where e: "as \<noteq> []" "last as = (p, e)" "failure e = Some f" "\<not> failure_applied e"
    using assms by (auto simp: restored_failure_def Let_def split: if_splits prod.splits)
  then have "(p, e) \<in> set as"
    by (metis last_in_set)
  with e show ?thesis
    by (intro that[of e]) (simp_all add: last_key_def)
qed

lemma wf_attempts_removal:
  assumes "wf_attempts as" "bt_remove a as \<noteq> []"
  shows "wf_attempts (bt_remove a as)"
  using assms by (auto simp: wf_attempts_def set_bt_remove)

lemma end_attempt_wf: "wf_circuit s \<Longrightarrow> wf_circuit (end_attempt cfg i a s)"
proof -
  assume wf: "wf_circuit s"
  show ?thesis
  proof (cases "map_of (attempts s) i")
    case (Some as)
    let ?as = "bt_remove a as"
    have gone: "wf_circuit (s\<lparr>attempts := bt_remove i (attempts s)\<rparr>)"
      using wf by (auto simp: wf_circuit_def set_bt_remove)
    have was: "wf_attempts as"
      using wf_lookup[OF wf Some] .
    show ?thesis
    proof (cases "restored_failure (last_key as = Some a) ?as")
      case None
      then show ?thesis
        using Some gone wf_insert_attempts[OF wf wf_attempts_removal[OF was, of a], of i]
        by (simp add: end_attempt_def Let_def)
    next
      case (Some pf)
      obtain p f where pf: "pf = (p, f)" by (cases pf)
      obtain e where e: "(p, e) \<in> set ?as" "failure e = Some f"
        using restored_facts[OF Some[unfolded pf]] by metis
      then have nonempty: "?as \<noteq> []" by auto
      have lookup: "map_of ?as p = Some e"
        using e(1) bt_distinct was by (metis bt_remove_ok map_of_is_SomeI wf_attempts_def)
      have ok: "bt_ok ?as" "\<forall>(a, e) \<in> set ?as. a < 2 ^ 64 \<and> (failure_applied e \<longrightarrow> failure e \<noteq> None)"
        using wf_attempts_removal[OF was nonempty] by (simp_all add: wf_attempts_def)
      have p: "p < 2 ^ 64"
        using ok(2) e(1) by auto
      have "wf_attempts (bt_insert p (e\<lparr>failure_applied := True\<rparr>) ?as)"
        using wf_attempts_insert[OF ok p] e(2) by simp
      from apply_failure_wf[OF wf_insert_attempts[OF wf this] p] show ?thesis
        using \<open>map_of (attempts s) i = Some as\<close> Some pf lookup by (simp add: end_attempt_def Let_def)
    qed
  qed (use wf in \<open>simp add: end_attempt_def\<close>)
qed


section \<open>Histories\<close>

text \<open>
  The charges of an identity, oldest first: attempt number and uptime. \<open>streak\<close> is the length of the
  current run of failures, started anew by an attempt that had run for the stability window.
\<close>

type_synonym charges = "(nat \<times> duration) list"

definition latest_of :: "charges \<Rightarrow> nat" where
  "latest_of l = (if l = [] then 0 else fst (last l))"

definition streak :: "duration \<Rightarrow> charges \<Rightarrow> nat" where
  "streak window l = foldl (\<lambda>n (_, uptime). if window \<le> uptime then 1 else n + 1) 0 l"

definition charge_log :: "nat \<times> duration \<Rightarrow> charges \<Rightarrow> charges" where
  "charge_log c l = (if fst c \<le> latest_of l then l else l @ [c])"

definition charged ::
  "RestartIdentity \<Rightarrow> (nat \<times> duration) option \<Rightarrow> (RestartIdentity \<Rightarrow> charges) \<Rightarrow> RestartIdentity \<Rightarrow> charges" where
  "charged i c log = (case c of None \<Rightarrow> log | Some c \<Rightarrow> log(i := charge_log c (log i)))"

text \<open>
  Whom a failure report and an end charge: the newest attempt of the identity, once, with the uptime of
  its first report; when the newest attempt ends, the one before it if its report is still waiting.
\<close>

definition report_charge ::
  "RestartIdentity \<Rightarrow> nat \<Rightarrow> duration \<Rightarrow> RestartCircuitState \<Rightarrow> (nat \<times> duration) option" where
  "report_charge i a up s =
     Option.bind (map_of (attempts s) i) (\<lambda>as.
       Option.bind (map_of as a) (\<lambda>e.
         if last_key as = Some a \<and> \<not> failure_applied e then Some (a, unwrap_or (failure e) up) else None))"

definition end_charge :: "RestartIdentity \<Rightarrow> nat \<Rightarrow> RestartCircuitState \<Rightarrow> (nat \<times> duration) option" where
  "end_charge i a s =
     Option.bind (map_of (attempts s) i) (\<lambda>as. restored_failure (last_key as = Some a) (bt_remove a as))"

text \<open>The charges of an identity without a budget are forgotten.\<close>

definition remembered :: "RestartCircuitState \<Rightarrow> (RestartIdentity \<Rightarrow> charges) \<Rightarrow> RestartIdentity \<Rightarrow> charges" where
  "remembered s log i = (if map_of (budgets s) i = None then [] else log i)"

inductive circuit_history ::
  "PluginRestartCircuitConfig \<Rightarrow> RestartCircuitState \<Rightarrow> (RestartIdentity \<Rightarrow> charges) \<Rightarrow> bool"
  for cfg where
  start: "circuit_history cfg initial_circuit (\<lambda>_. [])"
| began: "circuit_history cfg s log \<Longrightarrow> circuit_history cfg (snd (begin_attempt cfg i s)) log"
| reported: "circuit_history cfg s log \<Longrightarrow> s' = record_failure cfg i a up s
    \<Longrightarrow> circuit_history cfg s' (remembered s' (charged i (report_charge i a up s) log))"
| ended: "circuit_history cfg s log \<Longrightarrow> s' = end_attempt cfg i a s
    \<Longrightarrow> circuit_history cfg s' (remembered s' (charged i (end_charge i a s) log))"

definition tracks :: "PluginRestartCircuitConfig \<Rightarrow> RestartCircuitState \<Rightarrow> (RestartIdentity \<Rightarrow> charges) \<Rightarrow> bool" where
  "tracks cfg s log \<longleftrightarrow>
     (\<forall>i. case map_of (budgets s) i of
            None \<Rightarrow> log i = []
          | Some b \<Rightarrow> failures b = min (streak (stability_window cfg) (log i)) (2 ^ 64 - 1)
                      \<and> latest_attempt b = latest_of (log i) \<and> sorted_wrt (<) (map fst (log i)))"

lemma streak_simps [simp]:
  "streak w [] = 0" "streak w (l @ [(a, up)]) = (if w \<le> up then 1 else streak w l + 1)"
  by (simp_all add: streak_def)

lemma latest_of_simps [simp]: "latest_of [] = 0" "latest_of (l @ [c]) = fst c"
  by (simp_all add: latest_of_def)

lemma charge_log_sorted:
  assumes "sorted_wrt (<) (map fst l)"
  shows "sorted_wrt (<) (map fst (charge_log c l))"
proof (cases l rule: rev_cases)
  case (snoc k d)
  then show ?thesis
    using assms by (auto simp: charge_log_def sorted_wrt_append less_trans)
qed (simp add: charge_log_def)

lemma tracks_entry:
  assumes "tracks cfg s log"
  shows "failures (unwrap_or (map_of (budgets s) i) \<lparr>failures = 0, latest_attempt = 0, touched = n\<rparr>)
           = min (streak (stability_window cfg) (log i)) (2 ^ 64 - 1)"
    "latest_attempt (unwrap_or (map_of (budgets s) i) \<lparr>failures = 0, latest_attempt = 0, touched = n\<rparr>) = latest_of (log i)"
    "sorted_wrt (<) (map fst (log i))"
  using assms[unfolded tracks_def, THEN spec, of i] by (auto split: option.splits)

text \<open>Charging in the code is charging in the log, up to what is evicted.\<close>

lemma apply_failure_tracks:
  assumes "tracks cfg s log" "bt_ok (budgets s)"
  shows "tracks cfg (apply_failure cfg i a up s)
           (remembered (apply_failure cfg i a up s) (charged i (Some (a, up)) log))"
proof -
  let ?now = "wrapping_inc (clock s)"
  let ?entry = "unwrap_or (map_of (budgets s) i) \<lparr>failures = 0, latest_attempt = 0, touched = ?now\<rparr>"
  let ?s' = "apply_failure cfg i a up s"
  let ?b = "if a \<le> latest_attempt ?entry then ?entry else charge cfg a up ?now ?entry"
  have look: "map_of (budgets ?s') j = None \<or> map_of (budgets ?s') j = ((map_of (budgets s))(i \<mapsto> ?b)) j" for j
    using evict_forgets_or_keeps[of "bt_insert i (charge cfg a up ?now ?entry) (bt_insert i ?entry (budgets s))"
        "attempts s" j] assms(2)
    by (auto simp: apply_failure_def Let_def)
  note e = tracks_entry(1,2)[OF assms(1), where i = i and n = ?now] tracks_entry(3)[OF assms(1), of i]
  define b where "b = ?b"
  have b: "failures b = min (streak (stability_window cfg) (charge_log (a, up) (log i))) (2 ^ 64 - 1)"
    "latest_attempt b = latest_of (charge_log (a, up) (log i))"
    "sorted_wrt (<) (map fst (charge_log (a, up) (log i)))"
    unfolding b_def using e charge_log_sorted[OF e(3), of "(a, up)"]
    by (auto simp: charge_log_def charge_def Let_def saturating_add_u_def min_def)
  show ?thesis
    unfolding tracks_def
  proof
    fix j
    show "case map_of (budgets ?s') j of
        None \<Rightarrow> remembered ?s' (charged i (Some (a, up)) log) j = []
      | Some c \<Rightarrow> failures c = min (streak (stability_window cfg) (remembered ?s' (charged i (Some (a, up)) log) j)) (2 ^ 64 - 1)
          \<and> latest_attempt c = latest_of (remembered ?s' (charged i (Some (a, up)) log) j)
          \<and> sorted_wrt (<) (map fst (remembered ?s' (charged i (Some (a, up)) log) j))"
    proof (cases "map_of (budgets ?s') j")
      case (Some c)
      then have "if j = i then c = b else map_of (budgets s) j = Some c"
        using look[of j] unfolding b_def[symmetric] by (auto split: if_splits)
      then show ?thesis
        using Some b assms(1)[unfolded tracks_def, THEN spec, of j]
        by (auto simp: remembered_def charged_def split: if_splits)
    qed (simp add: remembered_def)
  qed
qed

lemma remembered_same: "budgets s' = budgets s \<Longrightarrow> tracks cfg s log \<Longrightarrow> tracks cfg s' (remembered s' log)"
  by (auto simp: tracks_def remembered_def split: option.splits)

lemma record_failure_cases:
  obtains (quiet) "report_charge i a up s = None" "budgets (record_failure cfg i a up s) = budgets s"
  | (charge) f s1 where "report_charge i a up s = Some (a, f)" "budgets s1 = budgets s"
      "record_failure cfg i a up s = apply_failure cfg i a f s1"
proof -
  consider "map_of (attempts s) i = None" | as where "map_of (attempts s) i = Some as" "map_of as a = None"
    | as e where "map_of (attempts s) i = Some as" "map_of as a = Some e"
    by (metis option.exhaust)
  then show ?thesis
  proof cases
    case 3
    obtain e' r where n: "note_failure (last_key as = Some a) up e = (e', r)" by (metis surj_pair)
    let ?s = "s\<lparr>attempts := bt_insert i (bt_insert a e' as) (attempts s)\<rparr>"
    have "report_charge i a up s = map_option (\<lambda>f. (a, f)) r"
      using n 3 by (auto simp: report_charge_def note_failure_def unwrap_or_def Let_def split: if_splits option.splits)
    moreover have "record_failure cfg i a up s = (case r of None \<Rightarrow> ?s | Some f \<Rightarrow> apply_failure cfg i a f ?s)"
      using n 3 by (simp add: record_failure_def Let_def)
    ultimately show ?thesis
      using quiet charge[of _ ?s] by (cases r) auto
  qed (use quiet in \<open>simp_all add: report_charge_def record_failure_def\<close>)
qed

lemma end_attempt_cases:
  obtains (quiet) "end_charge i a s = None" "budgets (end_attempt cfg i a s) = budgets s"
  | (charge) p f s1 where "end_charge i a s = Some (p, f)" "budgets s1 = budgets s"
      "end_attempt cfg i a s = apply_failure cfg i p f s1"
proof (cases "map_of (attempts s) i")
  case (Some as)
  show ?thesis
  proof (cases "restored_failure (last_key as = Some a) (bt_remove a as)")
    case None
    then show ?thesis
      using Some quiet by (simp add: end_charge_def end_attempt_def Let_def)
  next
    case (Some pf)
    obtain p f where pf: "pf = (p, f)" by (cases pf)
    let ?as = "case map_of (bt_remove a as) p of
        None \<Rightarrow> bt_remove a as
      | Some e \<Rightarrow> bt_insert p (e\<lparr>failure_applied := True\<rparr>) (bt_remove a as)"
    let ?s = "s\<lparr>attempts := (if ?as = [] then bt_remove i (attempts s) else bt_insert i ?as (attempts s))\<rparr>"
    have "end_attempt cfg i a s = apply_failure cfg i p f ?s"
      unfolding end_attempt_def \<open>map_of (attempts s) i = Some as\<close> Let_def by (simp only: Some pf option.case prod.case)
    moreover have "end_charge i a s = Some (p, f)" "budgets ?s = budgets s"
      using Some pf \<open>map_of (attempts s) i = Some as\<close> by (simp_all add: end_charge_def)
    ultimately show ?thesis
      using charge by blast
  qed
qed (use quiet in \<open>simp add: end_charge_def end_attempt_def\<close>)

lemma history_invariant: "circuit_history cfg s log \<Longrightarrow> wf_circuit s \<and> tracks cfg s log"
proof (induction rule: circuit_history.induct)
  case start
  show ?case by (simp add: initial_circuit_def wf_circuit_def tracks_def)
next
  case (began s log i)
  then have "tracks cfg (snd (begin_attempt cfg i s)) log"
    by (simp add: begin_attempt_def Let_def tracks_def)
  with began show ?case by (simp add: begin_attempt_wf)
next
  case (reported s log s' i a up)
  then have wf: "wf_circuit s'" "bt_ok (budgets s)" and t: "tracks cfg s log"
    using reported(2,3) record_failure_wf[of s cfg i a] by (simp, simp add: wf_circuit_def, blast)
  show ?case
  proof (cases rule: record_failure_cases[of i a up s cfg])
    case quiet
    then show ?thesis
      using wf(1) reported(2) remembered_same[OF _ t, of s'] by (simp add: charged_def)
  next
    case (charge f s1)
    have "tracks cfg s1 log" "bt_ok (budgets s1)"
      using t charge(2) wf(2) by (simp_all add: tracks_def)
    from apply_failure_tracks[OF this] show ?thesis
      using wf(1) charge reported(2) by metis
  qed
next
  case (ended s log s' i a)
  then have wf: "wf_circuit s'" "bt_ok (budgets s)" and t: "tracks cfg s log"
    using ended(2,3) end_attempt_wf[of s cfg i a] by (simp, simp add: wf_circuit_def, blast)
  show ?case
  proof (cases rule: end_attempt_cases[of i a s cfg])
    case quiet
    then show ?thesis
      using wf(1) ended(2) remembered_same[OF _ t, of s'] by (simp add: charged_def)
  next
    case (charge p f s1)
    have "tracks cfg s1 log" "bt_ok (budgets s1)"
      using t charge(2) wf(2) by (simp_all add: tracks_def)
    from apply_failure_tracks[OF this] show ?thesis
      using wf(1) charge ended(2) by metis
  qed
qed


section \<open>Properties\<close>

text \<open>
  C36: Every state the circuit reaches is well-formed: the maps are in key order with distinct keys, an
  identity is in the attempt map only while it has an attempt, an attempt whose failure was applied has
  one, and the counters are \<open>u64\<close> values, in spite of the wrapping additions.
\<close>

theorem circuit_states_well_formed:
  assumes "circuit_history cfg s log"
  shows "wf_circuit s"
  using history_invariant[OF assms] by blast

definition demo_identity :: RestartIdentity where
  "demo_identity = RestartIdentity ''plugin'' ''a1''"

definition demo_config :: PluginRestartCircuitConfig where
  "demo_config = default_restart_config\<lparr>maximum_failures := 1\<rparr>"

definition demo_started :: RestartCircuitState where
  "demo_started = snd (begin_attempt demo_config demo_identity initial_circuit)"

definition demo_failed :: RestartCircuitState where
  "demo_failed = record_failure demo_config demo_identity 1 5 demo_started"

definition demo_log :: "RestartIdentity \<Rightarrow> charges" where
  "demo_log = remembered demo_failed (charged demo_identity (report_charge demo_identity 1 5 demo_started) (\<lambda>_. []))"

lemma demo_history: "circuit_history demo_config demo_failed demo_log"
  unfolding demo_log_def demo_started_def
  by (rule circuit_history.reported[OF circuit_history.began[OF circuit_history.start]])
     (simp add: demo_failed_def demo_started_def)

theorem circuit_states_well_formed_witness: "wf_circuit demo_failed"
  by (rule circuit_states_well_formed[OF demo_history])

text \<open>
  C37: Whatever the order of starts, failure reports and ends of concurrent attempts, a start is refused
  exactly when the identity's current run of failures has reached the maximum, where the run counts each
  attempt at most once, in increasing order of attempts, and starts anew with an attempt that had been up
  for the stability window; a refused start changes nothing.
\<close>

theorem start_refused_iff_too_many_failures:
  assumes "circuit_history cfg s log" "0 < maximum_failures cfg" "maximum_failures cfg < 2 ^ 64"
  shows "(fst (begin_attempt cfg i s) = None \<longleftrightarrow> maximum_failures cfg \<le> streak (stability_window cfg) (log i))
         \<and> sorted_wrt (<) (map fst (log i))
         \<and> (fst (begin_attempt cfg i s) = None \<longrightarrow> snd (begin_attempt cfg i s) = s)"
proof -
  have t: "tracks cfg s log"
    using history_invariant[OF assms(1)] by blast
  have "is_open s i (maximum_failures cfg) \<longleftrightarrow> maximum_failures cfg \<le> streak (stability_window cfg) (log i)"
    using t[unfolded tracks_def, THEN spec, of i] assms(2,3) by (auto simp: is_open_def split: option.splits)
  then show ?thesis
    using tracks_entry(3)[OF t, of i] by (auto simp: begin_attempt_def Let_def)
qed

lemma demo_budget: "map_of (budgets demo_failed) demo_identity = Some \<lparr>failures = 1, latest_attempt = 1, touched = 1\<rparr>"
  "demo_log demo_identity = [(1, 5)]"
proof -
  have started: "demo_started = \<lparr>budgets = [], attempts = [(demo_identity, [(1, default_attempt)])], next_attempt = 1, clock = 0\<rparr>"
    by (simp add: demo_started_def begin_attempt_def is_open_def initial_circuit_def wrapping_inc_def Let_def)
  show "map_of (budgets demo_failed) demo_identity = Some \<lparr>failures = 1, latest_attempt = 1, touched = 1\<rparr>"
    by (simp add: demo_failed_def started record_failure_def last_key_def note_failure_def default_attempt_def
        apply_failure_def wrapping_inc_def charge_def saturating_add_u_def demo_config_def default_restart_config_def
        from_secs_def NANOS_PER_SEC_def evict_stops MAXIMUM_TRACKED_IDENTITIES_def)
  then show "demo_log demo_identity = [(1, 5)]"
    by (simp add: demo_log_def remembered_def charged_def report_charge_def started last_key_def default_attempt_def
        charge_log_def)
qed

theorem start_refused_iff_too_many_failures_witness:
  "fst (begin_attempt demo_config demo_identity demo_failed) = None
   \<and> streak (stability_window demo_config) (demo_log demo_identity) = 1"
proof -
  have "streak (stability_window demo_config) (demo_log demo_identity) = 1"
    by (simp add: demo_budget streak_def)
  then show ?thesis
    using start_refused_iff_too_many_failures[OF demo_history, of demo_identity]
    by (simp add: demo_config_def default_restart_config_def)
qed

text \<open>
  C38: The eviction loop of \<open>apply_failure\<close> ends: run as the while loop the source has, it reaches a
  state in which its condition fails or no victim is left, and that state is \<open>evict\<close>. Then at most
  \<open>MAXIMUM_TRACKED_IDENTITIES\<close> budgets are left, or only budgets of identities with live attempts; no
  more budgets are dropped than needed; a budget of a live identity is never dropped, and no dropped
  budget was touched later than a kept idle one.
\<close>

theorem eviction_ends_and_keeps_the_newest:
  assumes "bt_ok bs"
  shows "while_option (\<lambda>bs. MAXIMUM_TRACKED_IDENTITIES < length bs \<and> eviction_victim live bs \<noteq> None)
           (\<lambda>bs. bt_remove (the (eviction_victim live bs)) bs) bs = Some (evict live bs)
    \<and> (length (evict live bs) \<le> MAXIMUM_TRACKED_IDENTITIES \<or> (\<forall>(i, b) \<in> set (evict live bs). map_of live i \<noteq> None))
    \<and> min (length bs) MAXIMUM_TRACKED_IDENTITIES \<le> length (evict live bs)
    \<and> (\<forall>i. map_of live i \<noteq> None \<longrightarrow> map_of (evict live bs) i = map_of bs i)
    \<and> (\<forall>(i, b) \<in> set bs - set (evict live bs). \<forall>(j, c) \<in> set (evict live bs).
         map_of live j = None \<longrightarrow> touched b \<le> touched c)"
proof -
  have "while_option (\<lambda>bs. MAXIMUM_TRACKED_IDENTITIES < length bs \<and> eviction_victim live bs \<noteq> None)
      (\<lambda>bs. bt_remove (the (eviction_victim live bs)) bs) bs = Some (evict live bs)"
    by (induction bs rule: evict_induct[of live]) (subst while_option_unfold, force simp: evict_stops evict_steps)+
  moreover have "touched b \<le> touched c"
    if "(i, b) \<in> set bs - set (evict live bs)" "(j, c) \<in> set (evict live bs)" "map_of live j = None" for i b j c
    using evict_oldest_first[OF assms that] by blast
  ultimately show ?thesis
    using evict_bound[of live bs] evict_no_more_than_needed[OF assms, of live] evict_keeps_live[of live _ bs]
    by blast
qed

definition demo_budgets :: "(RestartIdentity \<times> FailureBudget) list" where
  "demo_budgets =
     map (\<lambda>n. (RestartIdentity ''plugin'' (replicate n (CHR ''a'')), \<lparr>failures = 1, latest_attempt = n + 1, touched = n\<rparr>))
       [0..<257]"

lemma replicate_less: "m < n \<Longrightarrow> replicate m (c :: char) < replicate n c"
proof (induction m arbitrary: n)
  case (Suc m)
  then show ?case by (cases n) auto
qed (auto simp: less_Suc_eq_0_disj gr0_conv_Suc)

lemma demo_budgets_ok: "bt_ok demo_budgets"
proof -
  have "sorted_wrt (\<lambda>m n. RestartIdentity ''plugin'' (replicate m (CHR ''a'')) < RestartIdentity ''plugin'' (replicate n (CHR ''a'')))
      [0..<257]"
    by (rule sorted_wrt_mono_rel[of _ "(<)"]) (auto simp: less_RestartIdentity_def replicate_less)
  then show ?thesis
    by (simp add: demo_budgets_def sorted_wrt_map comp_def del: upt_rec_numeral)
qed

theorem eviction_ends_and_keeps_the_newest_witness: "length (evict [] demo_budgets) = 256"
proof -
  have "length demo_budgets = 257"
    by (simp add: demo_budgets_def del: upt_rec_numeral)
  then have "256 \<le> length (evict [] demo_budgets)"
    using eviction_ends_and_keeps_the_newest[OF demo_budgets_ok, of "[]"]
    by (simp add: MAXIMUM_TRACKED_IDENTITIES_def)
  moreover have "length (evict [] demo_budgets) \<le> 256"
    using eviction_ends_and_keeps_the_newest[OF demo_budgets_ok, of "[]"]
    by (cases "evict [] demo_budgets") (auto simp: MAXIMUM_TRACKED_IDENTITIES_def)
  ultimately show ?thesis by simp
qed

end
