(* ===== verification/Request_Settings.thy ===== *)
theory Request_Settings
  imports Routing_Theorems
begin

text \<open>
  The request settings of \<open>gateway-core/src/settings/mod.rs\<close>: a frozen baseline snapshot, the overrides
  that plugins wrote for this request with their origin, and the effective snapshot.

  \<open>serde\<close> turns settings into an object with one entry per field and back. The object is a function from
  the field names to the values of the fields; the text of a value is not modelled, so that two values are
  equal exactly when their JSON forms are. Whether two \<open>Arc\<close>s are the same pointer is an argument.
\<close>

section \<open>Settings as an object\<close>

datatype SettingValue =
    SvPricing PricingOverrides
  | SvProfiles "ProviderKind \<rightharpoonup> OpaqueProviderData"
  | SvBool bool
  | SvLocation RequestLocation
  | SvNumber nat
  | SvScheduling SmartSchedulingConfig
  | SvText string
  | SvMappings "(string \<times> string) list"
  | SvOptional "string option"

text \<open>The fields of \<open>SettingsValues\<close>, which are the keys of its JSON object.\<close>

datatype SettingName =
    SnPricing
  | SnRequestProfiles
  | SnRequestLocationEnabled
  | SnRequestLocation
  | SnMaxConcurrentPerAccount
  | SnMaxWaitingPerKey
  | SnMaxWaitingPerAccount
  | SnConcurrencyWaitTimeoutSeconds
  | SnOpenaiGuardianReservedConcurrency
  | SnResponsesMaxDecompressedBodyBytes
  | SnRequestIntervalMs
  | SnSmartScheduling
  | SnRotationStrategy
  | SnModelMappings
  | SnMinCodexDesktopVersion
  | SnMinCodexCliVersion

fun settings_to_value :: "SettingsValues \<Rightarrow> SettingName \<Rightarrow> SettingValue" where
  "settings_to_value v SnPricing = SvPricing (sv_pricing v)"
| "settings_to_value v SnRequestProfiles = SvProfiles (sv_request_profiles v)"
| "settings_to_value v SnRequestLocationEnabled = SvBool (sv_request_location_enabled v)"
| "settings_to_value v SnRequestLocation = SvLocation (sv_request_location v)"
| "settings_to_value v SnMaxConcurrentPerAccount = SvNumber (sv_max_concurrent_per_account v)"
| "settings_to_value v SnMaxWaitingPerKey = SvNumber (sv_max_waiting_per_key v)"
| "settings_to_value v SnMaxWaitingPerAccount = SvNumber (sv_max_waiting_per_account v)"
| "settings_to_value v SnConcurrencyWaitTimeoutSeconds = SvNumber (sv_concurrency_wait_timeout_seconds v)"
| "settings_to_value v SnOpenaiGuardianReservedConcurrency = SvNumber (sv_openai_guardian_reserved_concurrency v)"
| "settings_to_value v SnResponsesMaxDecompressedBodyBytes = SvNumber (sv_responses_max_decompressed_body_bytes v)"
| "settings_to_value v SnRequestIntervalMs = SvNumber (sv_request_interval_ms v)"
| "settings_to_value v SnSmartScheduling = SvScheduling (sv_smart_scheduling v)"
| "settings_to_value v SnRotationStrategy = SvText (sv_rotation_strategy v)"
| "settings_to_value v SnModelMappings = SvMappings (sv_model_mappings v)"
| "settings_to_value v SnMinCodexDesktopVersion = SvOptional (sv_min_codex_desktop_version v)"
| "settings_to_value v SnMinCodexCliVersion = SvOptional (sv_min_codex_cli_version v)"

definition settings_from_value :: "(SettingName \<Rightarrow> SettingValue) \<Rightarrow> SettingsValues option" where
  "settings_from_value m =
     (case (m SnPricing, m SnRequestProfiles, m SnRequestLocationEnabled, m SnRequestLocation) of
        (SvPricing a, SvProfiles b, SvBool c, SvLocation d) \<Rightarrow>
     (case (m SnMaxConcurrentPerAccount, m SnMaxWaitingPerKey, m SnMaxWaitingPerAccount,
            m SnConcurrencyWaitTimeoutSeconds, m SnOpenaiGuardianReservedConcurrency) of
        (SvNumber e, SvNumber f, SvNumber g, SvNumber h, SvNumber i) \<Rightarrow>
     (case (m SnResponsesMaxDecompressedBodyBytes, m SnRequestIntervalMs, m SnSmartScheduling,
            m SnRotationStrategy, m SnModelMappings) of
        (SvNumber j, SvNumber k, SvScheduling l, SvText n, SvMappings p) \<Rightarrow>
     (case (m SnMinCodexDesktopVersion, m SnMinCodexCliVersion) of
        (SvOptional q, SvOptional r) \<Rightarrow>
          Some \<lparr>sv_pricing = a, sv_request_profiles = b, sv_request_location_enabled = c, sv_request_location = d,
                sv_max_concurrent_per_account = e, sv_max_waiting_per_key = f, sv_max_waiting_per_account = g,
                sv_concurrency_wait_timeout_seconds = h, sv_openai_guardian_reserved_concurrency = i,
                sv_responses_max_decompressed_body_bytes = j, sv_request_interval_ms = k, sv_smart_scheduling = l,
                sv_rotation_strategy = n, sv_model_mappings = p, sv_min_codex_desktop_version = q,
                sv_min_codex_cli_version = r\<rparr>
      | _ \<Rightarrow> None) | _ \<Rightarrow> None) | _ \<Rightarrow> None) | _ \<Rightarrow> None)"

lemma settings_roundtrip: "settings_from_value (settings_to_value v) = Some v"
  by (simp add: settings_from_value_def)

lemma settings_to_value_inject: "settings_to_value v = settings_to_value w \<Longrightarrow> v = w"
  by (metis settings_roundtrip option.inject)

text \<open>An object whose fields all come from some settings is the object of some settings.\<close>

lemma settings_fieldwise:
  assumes "\<And>n. \<exists>w. m n = settings_to_value w n"
  obtains v where "settings_from_value m = Some v" "settings_to_value v = m"
proof -
  obtain w where w: "m n = settings_to_value (w n) n" for n
    using assms by metis
  have "\<exists>v. settings_from_value m = Some v"
    unfolding settings_from_value_def w by simp
  then obtain v where v: "settings_from_value m = Some v" by blast
  moreover have "settings_to_value v n = m n" for n
    using v unfolding settings_from_value_def w by (cases n) auto
  ultimately show ?thesis
    using that by blast
qed


section \<open>Request settings\<close>

record ExecutionSettings =
  xs_runtime :: SettingsValues
  xs_disable_fast :: bool
  xs_client_limits :: RateLimits
  xs_timeout_ms :: nat

record 'a SettingOverride =
  so_instance_id :: string
  so_order :: nat
  so_value :: 'a

record ExecutionOverrides =
  xo_defaults :: ClientSettings
  xo_client_key_id :: string
  xo_input :: ExecutionSettings
  xo_disable_fast :: "bool SettingOverride option"
  xo_client_limits :: "RateLimits SettingOverride option"
  xo_timeout_ms :: "nat SettingOverride option"

record HttpTimeout =
  ht_input_ms :: "nat option"
  ht_change :: "nat option SettingOverride option"

record 'v RequestSettings =
  rq_baseline :: "'v RuntimeSnapshot"
  rq_effective :: "'v RuntimeSnapshot"
  rq_overrides :: "SettingName \<rightharpoonup> SettingValue SettingOverride"
  rq_execution :: "ExecutionOverrides option"
  rq_http_timeout :: "HttpTimeout option"
  rq_order :: nat

abbreviation snapshot_values :: "'v RuntimeSnapshot \<Rightarrow> SettingsValues" where
  "snapshot_values s \<equiv> compiled_values (rs_settings s)"

definition new_RequestSettings :: "'v RuntimeSnapshot \<Rightarrow> 'v RequestSettings" where
  "new_RequestSettings s =
     \<lparr>rq_baseline = s, rq_effective = s, rq_overrides = Map.empty, rq_execution = None, rq_http_timeout = None,
      rq_order = 0\<rparr>"

definition settings_values :: "'v RequestSettings \<Rightarrow> SettingsValues" where
  "settings_values s = snapshot_values (rq_effective s)"

definition apply_overrides ::
  "SettingsValues \<Rightarrow> (SettingName \<rightharpoonup> SettingValue SettingOverride) \<Rightarrow> InvalidSettings + SettingsValues" where
  "apply_overrides values overrides =
     ok_or (settings_from_value
              (\<lambda>name. case overrides name of Some change \<Rightarrow> so_value change | None \<Rightarrow> settings_to_value values name))
       InvalidSettings"

text \<open>The loop of \<open>replace_scoped\<close>: every field that changes is recorded as a whole.\<close>

definition record_changes ::
  "SettingsValues \<Rightarrow> SettingsValues \<Rightarrow> string \<Rightarrow> nat \<Rightarrow> (SettingName \<rightharpoonup> SettingValue SettingOverride)
   \<Rightarrow> SettingName \<rightharpoonup> SettingValue SettingOverride" where
  "record_changes previous values instance_id order overrides =
     (\<lambda>name. if settings_to_value previous name \<noteq> settings_to_value values name
             then Some \<lparr>so_instance_id = instance_id, so_order = order, so_value = settings_to_value values name\<rparr>
             else overrides name)"

definition u64_next :: "nat \<Rightarrow> InvalidSettings + nat" where
  "u64_next n = ok_or (checked_add_u 64 n 1) InvalidSettings"

definition replace_scoped ::
  "(string \<Rightarrow> 'v option) \<Rightarrow> 'v RequestSettings \<Rightarrow> SettingsValues \<Rightarrow> SettingsValues \<Rightarrow> string
   \<Rightarrow> InvalidSettings + 'v RequestSettings" where
  "replace_scoped version_parse s previous values instance_id =
     (if previous = values then Ok s
      else
        case u64_next (rq_order s) of
          Inl e \<Rightarrow> Err e
        | Inr order \<Rightarrow>
        let overrides = record_changes previous values instance_id order (rq_overrides s) in
        case (if previous = settings_values s then Ok values
              else apply_overrides (snapshot_values (rq_baseline s)) overrides) of
          Inl e \<Rightarrow> Err e
        | Inr values \<Rightarrow>
        case resolve_settings version_parse (rq_effective s) values of
          Inl _ \<Rightarrow> Err InvalidSettings
        | Inr effective \<Rightarrow>
            Ok (s\<lparr>rq_effective := effective, rq_overrides := overrides, rq_order := order\<rparr>))"

definition replace ::
  "(string \<Rightarrow> 'v option) \<Rightarrow> 'v RequestSettings \<Rightarrow> SettingsValues \<Rightarrow> string
   \<Rightarrow> InvalidSettings + 'v RequestSettings" where
  "replace version_parse s values instance_id =
     replace_scoped version_parse s (settings_values s) values instance_id"

definition rebase ::
  "(string \<Rightarrow> 'v option) \<Rightarrow> bool \<Rightarrow> 'v RequestSettings \<Rightarrow> 'v RuntimeSnapshot
   \<Rightarrow> InvalidSettings + 'v RequestSettings" where
  "rebase version_parse same_arc s snapshot =
     (if same_arc then Ok s
      else
        case (if rq_overrides s = Map.empty then Ok snapshot
              else case apply_overrides (snapshot_values snapshot) (rq_overrides s) of
                     Inl e \<Rightarrow> Err e
                   | Inr values \<Rightarrow>
                       (case resolve_settings version_parse snapshot values of
                          Inl _ \<Rightarrow> Err InvalidSettings | Inr t \<Rightarrow> Ok t)) of
          Inl e \<Rightarrow> Err e
        | Inr effective \<Rightarrow> Ok (s\<lparr>rq_baseline := snapshot, rq_effective := effective\<rparr>))"

definition scope_of_key :: "'v RequestSettings \<Rightarrow> string \<Rightarrow> ExecutionOverrides option" where
  "scope_of_key s key = filter_option (\<lambda>scope. xo_client_key_id scope = key) (rq_execution s)"

definition resolve_execution :: "'v RequestSettings \<Rightarrow> string \<Rightarrow> ClientSettings \<Rightarrow> nat \<Rightarrow> ExecutionSettings" where
  "resolve_execution s key defaults timeout_ms =
     (let overrides = scope_of_key s key;
          runtime = settings_values s;
          runtime = (if rq_overrides s SnRequestProfiles = None \<and> cs_request_profiles defaults \<noteq> Map.empty
                     then runtime\<lparr>sv_request_profiles := sv_request_profiles runtime ++ cs_request_profiles defaults\<rparr>
                     else runtime)
      in \<lparr>xs_runtime = runtime,
          xs_disable_fast = (case Option.bind overrides xo_disable_fast of
                               None \<Rightarrow> cs_disable_fast defaults | Some change \<Rightarrow> so_value change),
          xs_client_limits = (case Option.bind overrides xo_client_limits of
                               None \<Rightarrow> cs_limits defaults | Some change \<Rightarrow> so_value change),
          xs_timeout_ms = (case Option.bind overrides xo_timeout_ms of
                               None \<Rightarrow> timeout_ms | Some change \<Rightarrow> so_value change)\<rparr>)"

definition apply_policy :: "'v RequestSettings \<Rightarrow> ClientPolicy \<Rightarrow> ClientPolicy" where
  "apply_policy s p =
     (let values = resolve_execution s (client_key_id_str (cp_key_id p)) (cp_defaults p) 0
      in policy_with_settings p (sv_request_profiles (xs_runtime values)) (xs_disable_fast values) (xs_client_limits values))"

definition with_execution :: "'v RequestSettings \<Rightarrow> ClientPolicy \<Rightarrow> nat \<Rightarrow> 'v RequestSettings" where
  "with_execution s p timeout_ms =
     (let key = client_key_id_str (cp_key_id p);
          input = resolve_execution s key (cp_defaults p) timeout_ms;
          previous = scope_of_key s key
      in s\<lparr>rq_execution := Some
            \<lparr>xo_defaults = cp_defaults p, xo_client_key_id = key, xo_input = input,
             xo_disable_fast = Option.bind previous xo_disable_fast,
             xo_client_limits = Option.bind previous xo_client_limits,
             xo_timeout_ms = Option.bind previous xo_timeout_ms\<rparr>\<rparr>)"

definition execution_values :: "'v RequestSettings \<Rightarrow> ExecutionSettings option" where
  "execution_values s =
     map_option (\<lambda>scope. resolve_execution s (xo_client_key_id scope) (xo_defaults scope) (xs_timeout_ms (xo_input scope)))
       (rq_execution s)"

definition execution_deadline :: "'v RequestSettings \<Rightarrow> ClientApiKeyId \<Rightarrow> system_time \<Rightarrow> InvalidSettings + system_time" where
  "execution_deadline s key started_at =
     (case scope_of_key s (client_key_id_str key) of
        None \<Rightarrow> Err InvalidSettings
      | Some scope \<Rightarrow>
          let timeout_ms = (case xo_timeout_ms scope of None \<Rightarrow> xs_timeout_ms (xo_input scope) | Some change \<Rightarrow> so_value change)
          in ok_or (checked_add_time started_at (from_millis timeout_ms)) InvalidSettings)"

definition execution_timeout :: "'v RequestSettings \<Rightarrow> ClientApiKeyId \<Rightarrow> duration option" where
  "execution_timeout s key =
     map_option (\<lambda>change. from_millis (so_value change)) (Option.bind (scope_of_key s (client_key_id_str key)) xo_timeout_ms)"

definition override_if :: "bool \<Rightarrow> string \<Rightarrow> nat \<Rightarrow> 'a \<Rightarrow> 'a SettingOverride option \<Rightarrow> 'a SettingOverride option" where
  "override_if changed instance_id order value kept =
     (if changed then Some \<lparr>so_instance_id = instance_id, so_order = order, so_value = value\<rparr> else kept)"

definition replace_execution ::
  "(string \<Rightarrow> 'v option) \<Rightarrow> 'v RequestSettings \<Rightarrow> ExecutionSettings \<Rightarrow> string
   \<Rightarrow> InvalidSettings + 'v RequestSettings" where
  "replace_execution version_parse s values instance_id =
     (case execution_values s of
        None \<Rightarrow> Err InvalidSettings
      | Some previous \<Rightarrow>
     (case replace_scoped version_parse s (xs_runtime previous) (xs_runtime values) instance_id of
        Inl e \<Rightarrow> Err e
      | Inr updated \<Rightarrow>
          if xs_disable_fast previous = xs_disable_fast values
             \<and> xs_client_limits previous = xs_client_limits values
             \<and> xs_timeout_ms previous = xs_timeout_ms values
          then Ok updated
          else
     (case rq_execution s of
        None \<Rightarrow> Err InvalidSettings
      | Some scope \<Rightarrow>
     (case (if rq_order updated = rq_order s then u64_next (rq_order s) else Ok (rq_order updated)) of
        Inl e \<Rightarrow> Err e
      | Inr order \<Rightarrow>
          Ok (updated\<lparr>rq_execution := Some (scope
                \<lparr>xo_disable_fast := override_if (xs_disable_fast previous \<noteq> xs_disable_fast values)
                                     instance_id order (xs_disable_fast values) (xo_disable_fast scope),
                 xo_client_limits := override_if (xs_client_limits previous \<noteq> xs_client_limits values)
                                     instance_id order (xs_client_limits values) (xo_client_limits scope),
                 xo_timeout_ms := override_if (xs_timeout_ms previous \<noteq> xs_timeout_ms values)
                                     instance_id order (xs_timeout_ms values) (xo_timeout_ms scope)\<rparr>),
               rq_order := order\<rparr>)))))"

definition with_http_timeout :: "'v RequestSettings \<Rightarrow> nat option \<Rightarrow> 'v RequestSettings" where
  "with_http_timeout s timeout_ms =
     (case rq_http_timeout s of
        Some _ \<Rightarrow> s
      | None \<Rightarrow> s\<lparr>rq_http_timeout := Some \<lparr>ht_input_ms = timeout_ms, ht_change = None\<rparr>\<rparr>)"

definition http_timeout_ms :: "HttpTimeout \<Rightarrow> nat option" where
  "http_timeout_ms t = (case ht_change t of None \<Rightarrow> ht_input_ms t | Some change \<Rightarrow> so_value change)"

definition replace_http_timeout ::
  "'v RequestSettings \<Rightarrow> nat option \<Rightarrow> string \<Rightarrow> InvalidSettings + 'v RequestSettings" where
  "replace_http_timeout s timeout_ms instance_id =
     (let s = with_http_timeout s None in
      case rq_http_timeout s of
        None \<Rightarrow> Ok s
      | Some timeout \<Rightarrow>
          if http_timeout_ms timeout \<noteq> timeout_ms
          then (case u64_next (rq_order s) of
                  Inl e \<Rightarrow> Err e
                | Inr order \<Rightarrow>
                    Ok (s\<lparr>rq_order := order,
                          rq_http_timeout := Some (timeout\<lparr>ht_change := Some
                            \<lparr>so_instance_id = instance_id, so_order = order, so_value = timeout_ms\<rparr>\<rparr>)\<rparr>))
          else Ok s)"


section \<open>Layers\<close>

text \<open>The settings a plugin sees are the host's baseline, overlaid by what was explicitly written.\<close>

definition overlay :: "(SettingName \<rightharpoonup> SettingValue SettingOverride) \<Rightarrow> SettingsValues \<Rightarrow> SettingName \<Rightarrow> SettingValue" where
  "overlay overrides v = (\<lambda>n. case overrides n of Some change \<Rightarrow> so_value change | None \<Rightarrow> settings_to_value v n)"

definition layered :: "'v RequestSettings \<Rightarrow> bool" where
  "layered s \<longleftrightarrow>
     settings_to_value (settings_values s) = overlay (rq_overrides s) (snapshot_values (rq_baseline s))
     \<and> rq_effective s = (rq_baseline s)\<lparr>rs_settings := rs_settings (rq_effective s)\<rparr>
     \<and> (\<forall>n c. rq_overrides s n = Some c \<longrightarrow> so_order c \<le> rq_order s)"

inductive request_history :: "(string \<Rightarrow> 'v option) \<Rightarrow> 'v RequestSettings \<Rightarrow> bool" for version_parse where
  fresh: "request_history version_parse (new_RequestSettings t)"
| replaced: "request_history version_parse s \<Longrightarrow> replace version_parse s vals i = Ok s' \<Longrightarrow> request_history version_parse s'"
| rebased: "request_history version_parse s \<Longrightarrow> rebase version_parse same_arc s t = Ok s' \<Longrightarrow> request_history version_parse s'"
| scoped: "request_history version_parse s \<Longrightarrow> request_history version_parse (with_execution s p timeout)"
| execution: "request_history version_parse s \<Longrightarrow> replace_execution version_parse s xs i = Ok s'
    \<Longrightarrow> request_history version_parse s'"
| http: "request_history version_parse s \<Longrightarrow> request_history version_parse (with_http_timeout s timeout_ms)"
| http_replaced: "request_history version_parse s \<Longrightarrow> replace_http_timeout s timeout_ms i = Ok s'
    \<Longrightarrow> request_history version_parse s'"

lemma resolve_settings_facts:
  assumes "resolve_settings version_parse s v = Ok t"
  shows "snapshot_values t = v" "t = s\<lparr>rs_settings := rs_settings t\<rparr>"
  using assms new_CompiledSettings_facts(1)
  by (auto simp: resolve_settings_def with_settings_def split: if_splits sum.splits)

lemma u64_next_Ok: "u64_next n = Ok m \<Longrightarrow> m = Suc n"
  by (auto simp: u64_next_def checked_add_u_def split: if_splits)

lemma apply_overrides_overlay:
  assumes "\<And>n. \<exists>w. overlay overrides b n = settings_to_value w n"
  obtains v where "apply_overrides b overrides = Ok v" "settings_to_value v = overlay overrides b"
  using settings_fieldwise[OF assms] unfolding apply_overrides_def overlay_def by (metis ok_or_simps(2))

lemma record_changes_overlay:
  assumes "layered s"
  shows "overlay (record_changes previous vals i order (rq_overrides s)) (snapshot_values (rq_baseline s)) =
     (\<lambda>n. if settings_to_value previous n \<noteq> settings_to_value vals n then settings_to_value vals n
          else settings_to_value (settings_values s) n)"
  using assms by (auto simp: layered_def record_changes_def overlay_def fun_eq_iff)

text \<open>
  The scoped settings a replacement starts from may show the profiles of the client key where nobody wrote
  the profiles; everywhere else they are the effective ones.
\<close>

lemma replace_scoped_facts:
  assumes "replace_scoped version_parse s previous vals i = Ok s'" "layered s" "previous \<noteq> vals"
  shows "layered s'" "rq_order s' = Suc (rq_order s)"
    "rq_overrides s' = record_changes previous vals i (rq_order s') (rq_overrides s)"
    "rq_baseline s' = rq_baseline s" "rq_execution s' = rq_execution s"
    "settings_to_value (settings_values s') =
       (\<lambda>n. if settings_to_value previous n \<noteq> settings_to_value vals n then settings_to_value vals n
            else settings_to_value (settings_values s) n)"
proof -
  let ?ov = "record_changes previous vals i (Suc (rq_order s)) (rq_overrides s)"
  let ?b = "snapshot_values (rq_baseline s)"
  let ?mix = "\<lambda>n. if settings_to_value previous n \<noteq> settings_to_value vals n then settings_to_value vals n
            else settings_to_value (settings_values s) n"
  obtain v effective where v: "(if previous = settings_values s then Ok vals else apply_overrides ?b ?ov) = Ok v"
    and eff: "resolve_settings version_parse (rq_effective s) v = Ok effective"
    and s': "s' = s\<lparr>rq_effective := effective, rq_overrides := ?ov, rq_order := Suc (rq_order s)\<rparr>"
    using assms(1,3) by (auto simp: replace_scoped_def Let_def dest!: u64_next_Ok split: sum.splits)
  note eff = resolve_settings_facts[OF eff]
  have over: "overlay ?ov ?b = ?mix"
    using record_changes_overlay[OF assms(2)] .
  have "settings_to_value v = ?mix"
  proof (cases "previous = settings_values s")
    case True
    then show ?thesis using v by auto
  next
    case False
    have "\<exists>w. overlay ?ov ?b n = settings_to_value w n" for n
      unfolding over by auto
    then obtain u where "apply_overrides ?b ?ov = Ok u" "settings_to_value u = overlay ?ov ?b"
      using apply_overrides_overlay by blast
    then show ?thesis using v False over by simp
  qed
  moreover have "effective = (rq_baseline s)\<lparr>rs_settings := rs_settings effective\<rparr>"
    using eff(2) assms(2) unfolding layered_def by (metis RuntimeSnapshot.update_convs(1) RuntimeSnapshot.surjective)
  moreover have "so_order c \<le> Suc (rq_order s)" if "?ov n = Some c" for n c
    using that assms(2) by (fastforce simp: record_changes_def layered_def split: if_splits)
  ultimately show "layered s'" "settings_to_value (settings_values s') = ?mix"
    using eff(1) over by (simp_all add: layered_def s' settings_values_def)
  show "rq_order s' = Suc (rq_order s)" "rq_overrides s' = record_changes previous vals i (rq_order s') (rq_overrides s)"
    "rq_baseline s' = rq_baseline s" "rq_execution s' = rq_execution s"
    by (simp_all add: s')
qed

lemma replace_facts:
  assumes "replace version_parse s vals i = Ok s'" "layered s"
  shows "layered s'" "settings_values s' = vals"
    "rq_overrides s' n = (if settings_to_value (settings_values s) n = settings_to_value vals n then rq_overrides s n
       else Some \<lparr>so_instance_id = i, so_order = rq_order s', so_value = settings_to_value vals n\<rparr>)"
proof -
  have "layered s' \<and> settings_values s' = vals \<and>
    rq_overrides s' n = (if settings_to_value (settings_values s) n = settings_to_value vals n then rq_overrides s n
       else Some \<lparr>so_instance_id = i, so_order = rq_order s', so_value = settings_to_value vals n\<rparr>)"
  proof (cases "settings_values s = vals")
    case True
    then show ?thesis
      using assms by (simp add: replace_def replace_scoped_def)
  next
    case False
    note facts = replace_scoped_facts[OF assms(1)[unfolded replace_def] assms(2) False]
    have "settings_to_value (settings_values s') = settings_to_value vals"
      using facts(6) by (simp add: fun_eq_iff)
    then show ?thesis
      using facts(1,3) settings_to_value_inject by (fastforce simp: record_changes_def)
  qed
  then show "layered s'" "settings_values s' = vals"
    "rq_overrides s' n = (if settings_to_value (settings_values s) n = settings_to_value vals n then rq_overrides s n
       else Some \<lparr>so_instance_id = i, so_order = rq_order s', so_value = settings_to_value vals n\<rparr>)"
    by blast+
qed

lemma rebase_facts:
  assumes "rebase version_parse False s t = Ok s'" "layered s"
  shows "layered s'" "rq_baseline s' = t" "rq_overrides s' = rq_overrides s"
    "settings_to_value (settings_values s') = overlay (rq_overrides s) (snapshot_values t)"
proof -
  let ?ov = "rq_overrides s"
  obtain effective where s': "s' = s\<lparr>rq_baseline := t, rq_effective := effective\<rparr>"
    and eff: "(if ?ov = Map.empty then Ok t
        else case apply_overrides (snapshot_values t) ?ov of Inl e \<Rightarrow> Err e
             | Inr vals \<Rightarrow> (case resolve_settings version_parse t vals of Inl _ \<Rightarrow> Err InvalidSettings | Inr x \<Rightarrow> Ok x)) = Ok effective"
    using assms(1) by (auto simp: rebase_def split: sum.splits)
  have "settings_to_value (snapshot_values effective) = overlay ?ov (snapshot_values t)
      \<and> effective = t\<lparr>rs_settings := rs_settings effective\<rparr>"
  proof (cases "?ov = Map.empty")
    case True
    then show ?thesis using eff by (auto simp: overlay_def)
  next
    case False
    have "\<exists>w. overlay ?ov (snapshot_values t) n = settings_to_value w n" for n
    proof (cases "?ov n")
      case (Some c)
      then have "overlay ?ov (snapshot_values t) n = settings_to_value (settings_values s) n"
        using assms(2) by (simp add: layered_def overlay_def)
      then show ?thesis by blast
    qed (auto simp: overlay_def)
    then obtain v where v: "apply_overrides (snapshot_values t) ?ov = Ok v" "settings_to_value v = overlay ?ov (snapshot_values t)"
      using apply_overrides_overlay by blast
    then have "resolve_settings version_parse t v = Ok effective"
      using eff False by (auto split: sum.splits)
    from resolve_settings_facts[OF this] v(2) show ?thesis by auto
  qed
  then show "layered s'" "rq_baseline s' = t" "rq_overrides s' = ?ov"
    "settings_to_value (settings_values s') = overlay ?ov (snapshot_values t)"
    using assms(2) by (simp_all add: s' layered_def settings_values_def)
qed

text \<open>What the client key adds to the settings is visible where nobody wrote the profiles.\<close>

lemma resolve_runtime_field:
  "settings_to_value (xs_runtime (resolve_execution s key defaults timeout)) n =
     (if n = SnRequestProfiles \<and> rq_overrides s n = None \<and> cs_request_profiles defaults \<noteq> Map.empty
      then SvProfiles (sv_request_profiles (settings_values s) ++ cs_request_profiles defaults)
      else settings_to_value (settings_values s) n)"
  by (cases n) (auto simp: resolve_execution_def Let_def)

lemma resolve_execution_fields:
  "xs_disable_fast (resolve_execution s key d t) =
     (case Option.bind (scope_of_key s key) xo_disable_fast of None \<Rightarrow> cs_disable_fast d | Some change \<Rightarrow> so_value change)"
  "xs_client_limits (resolve_execution s key d t) =
     (case Option.bind (scope_of_key s key) xo_client_limits of None \<Rightarrow> cs_limits d | Some change \<Rightarrow> so_value change)"
  "xs_timeout_ms (resolve_execution s key d t) =
     (case Option.bind (scope_of_key s key) xo_timeout_ms of None \<Rightarrow> t | Some change \<Rightarrow> so_value change)"
  by (simp_all add: resolve_execution_def Let_def)

lemma override_if_value:
  "(case override_if (x \<noteq> y) i n y kept of None \<Rightarrow> d | Some change \<Rightarrow> so_value change) = y"
  if "x = (case kept of None \<Rightarrow> d | Some change \<Rightarrow> so_value change)"
  using that by (simp add: override_if_def)

lemma override_if_flag:
  "(case override_if (x = (\<not> y)) i n y kept of None \<Rightarrow> d | Some change \<Rightarrow> so_value change) = y"
  if "x = (case kept of None \<Rightarrow> d | Some change \<Rightarrow> so_value change)"
  using that by (auto simp: override_if_def)

lemma scope_of_key_self: "rq_execution s = Some scope \<Longrightarrow> scope_of_key s (xo_client_key_id scope) = Some scope"
  by (simp add: scope_of_key_def)

lemma replace_scoped_runtime:
  assumes "replace_scoped version_parse s (xs_runtime (resolve_execution s key defaults timeout)) vals i = Ok u" "layered s"
  shows "layered u" "rq_execution u = rq_execution s" "rq_order s \<le> rq_order u"
    "xs_runtime (resolve_execution u key' defaults timeout') = vals"
proof -
  let ?prev = "xs_runtime (resolve_execution s key defaults timeout)"
  have "layered u \<and> rq_execution u = rq_execution s \<and> rq_order s \<le> rq_order u
      \<and> xs_runtime (resolve_execution u key' defaults timeout') = vals"
  proof (cases "?prev = vals")
    case True
    then have "u = s" using assms(1) by (simp add: replace_scoped_def)
    moreover have "xs_runtime (resolve_execution s key' defaults timeout') = ?prev"
      by (simp add: resolve_execution_def Let_def)
    ultimately show ?thesis using True assms(2) by simp
  next
    case False
    note facts = replace_scoped_facts[OF assms False]
    have "settings_to_value (xs_runtime (resolve_execution u key' defaults timeout')) n = settings_to_value vals n" for n
    proof (cases "settings_to_value ?prev n = settings_to_value vals n")
      case same: True
      then have kept: "rq_overrides u n = rq_overrides s n" "settings_to_value (settings_values u) n = settings_to_value (settings_values s) n"
        using facts(3,6) by (simp_all add: record_changes_def)
      then have "n = SnRequestProfiles \<Longrightarrow> sv_request_profiles (settings_values u) = sv_request_profiles (settings_values s)"
        by auto
      with kept same show ?thesis
        unfolding resolve_runtime_field by (auto split: if_splits)
    next
      case differ: False
      then have "rq_overrides u n \<noteq> None" "settings_to_value (settings_values u) n = settings_to_value vals n"
        using facts(3,6) by (simp_all add: record_changes_def)
      then show ?thesis
        unfolding resolve_runtime_field by auto
    qed
    then have "xs_runtime (resolve_execution u key' defaults timeout') = vals"
      using settings_to_value_inject by blast
    then show ?thesis
      using facts by simp
  qed
  then show "layered u" "rq_execution u = rq_execution s" "rq_order s \<le> rq_order u"
    "xs_runtime (resolve_execution u key' defaults timeout') = vals"
    by blast+
qed

lemma replace_execution_facts:
  assumes "replace_execution version_parse s xs i = Ok s'" "layered s"
  shows "layered s'" "execution_values s' = Some xs"
proof -
  obtain scope where scope: "rq_execution s = Some scope"
    using assms(1) by (auto simp: replace_execution_def execution_values_def split: option.splits)
  let ?prev = "resolve_execution s (xo_client_key_id scope) (xo_defaults scope) (xs_timeout_ms (xo_input scope))"
  have prev: "execution_values s = Some ?prev"
    using scope by (simp add: execution_values_def)
  obtain u where u: "replace_scoped version_parse s (xs_runtime ?prev) (xs_runtime xs) i = Ok u"
    using assms(1) prev by (auto simp: replace_execution_def split: sum.splits)
  note facts = replace_scoped_runtime[OF u assms(2)]
  have "layered s' \<and> execution_values s' = Some xs"
  proof (cases "xs_disable_fast ?prev = xs_disable_fast xs \<and> xs_client_limits ?prev = xs_client_limits xs
      \<and> xs_timeout_ms ?prev = xs_timeout_ms xs")
    case True
    then have s': "s' = u"
      using assms(1) prev u by (simp add: replace_execution_def)
    have "resolve_execution u (xo_client_key_id scope) (xo_defaults scope) (xs_timeout_ms (xo_input scope)) = xs"
      using facts(2,4) True scope_of_key_self[OF scope] scope
      by (intro ExecutionSettings.equality) (simp_all add: resolve_execution_def Let_def scope_of_key_def)
    then show ?thesis
      using facts(1,2) scope by (simp add: s' execution_values_def)
  next
    case False
    obtain order where order: "(if rq_order u = rq_order s then u64_next (rq_order s) else Ok (rq_order u)) = Ok order"
      using assms(1) prev u False scope by (auto simp: replace_execution_def split: sum.split_asm)
    have s': "s' = u\<lparr>rq_execution := Some (scope
          \<lparr>xo_disable_fast := override_if (xs_disable_fast ?prev \<noteq> xs_disable_fast xs) i order (xs_disable_fast xs) (xo_disable_fast scope),
           xo_client_limits := override_if (xs_client_limits ?prev \<noteq> xs_client_limits xs) i order (xs_client_limits xs) (xo_client_limits scope),
           xo_timeout_ms := override_if (xs_timeout_ms ?prev \<noteq> xs_timeout_ms xs) i order (xs_timeout_ms xs) (xo_timeout_ms scope)\<rparr>),
         rq_order := order\<rparr>"
      using assms(1) unfolding replace_execution_def prev option.case u sum.case if_not_P[OF False] scope order by simp
    have "order \<ge> rq_order u"
      using order by (auto dest!: u64_next_Ok split: if_splits)
    then have "layered s'"
      using facts(1) \<open>order \<ge> rq_order u\<close>
      unfolding s' layered_def settings_values_def by (auto intro: order_trans)
    moreover have runtime: "xs_runtime (resolve_execution s' (xo_client_key_id scope) (xo_defaults scope) t) = xs_runtime xs" for t
    proof -
      have "xs_runtime (resolve_execution s' (xo_client_key_id scope) (xo_defaults scope) t) =
          xs_runtime (resolve_execution u (xo_client_key_id scope) (xo_defaults scope) t)"
        by (simp add: s' resolve_execution_def Let_def settings_values_def)
      then show ?thesis using facts(4) by simp
    qed
    moreover define scope' where "scope' = the (rq_execution s')"
    then have scope': "rq_execution s' = Some scope'" "xo_client_key_id scope' = xo_client_key_id scope"
        "xo_defaults scope' = xo_defaults scope" "xo_input scope' = xo_input scope"
        "xo_disable_fast scope' = override_if (xs_disable_fast ?prev \<noteq> xs_disable_fast xs) i order (xs_disable_fast xs) (xo_disable_fast scope)"
        "xo_client_limits scope' = override_if (xs_client_limits ?prev \<noteq> xs_client_limits xs) i order (xs_client_limits xs) (xo_client_limits scope)"
        "xo_timeout_ms scope' = override_if (xs_timeout_ms ?prev \<noteq> xs_timeout_ms xs) i order (xs_timeout_ms xs) (xo_timeout_ms scope)"
      by (simp_all add: s')
    moreover have "resolve_execution s' (xo_client_key_id scope) (xo_defaults scope) (xs_timeout_ms (xo_input scope)) = xs"
      using runtime scope'(2) scope_of_key_self[OF scope'(1)] scope_of_key_self[OF scope]
      by (intro ExecutionSettings.equality)
        (simp_all add: resolve_execution_fields scope'(5-7) override_if_value override_if_flag)
    ultimately show ?thesis
      using \<open>layered s'\<close> scope' by (simp add: execution_values_def)
  qed
  then show "layered s'" "execution_values s' = Some xs"
    by blast+
qed

lemma layered_extension: "layered s \<Longrightarrow> rq_baseline t = rq_baseline s \<Longrightarrow> rq_effective t = rq_effective s
    \<Longrightarrow> rq_overrides t = rq_overrides s \<Longrightarrow> rq_order s \<le> rq_order t \<Longrightarrow> layered t"
  unfolding layered_def settings_values_def by (auto intro: order_trans)

lemma history_layered: "request_history version_parse s \<Longrightarrow> layered s"
proof (induction rule: request_history.induct)
  case (fresh t)
  show ?case by (simp add: layered_def new_RequestSettings_def settings_values_def overlay_def)
next
  case (rebased s same_arc t s')
  then show ?case using rebase_facts(1) by (cases same_arc) (auto simp: rebase_def)
next
  case (scoped s p timeout)
  then show ?case by (auto simp: with_execution_def Let_def intro: layered_extension)
next
  case (http s timeout_ms)
  then show ?case by (auto simp: with_http_timeout_def intro: layered_extension split: option.splits)
next
  case (http_replaced s timeout_ms i s')
  then show ?case
    by (auto simp: replace_http_timeout_def with_http_timeout_def Let_def intro: layered_extension
        dest!: u64_next_Ok split: option.splits if_splits sum.splits)
qed (use replace_facts(1) replace_execution_facts(1) in blast)+

text \<open>
  C32: Settings are layered. Whatever plugins do to the settings of a request, every field shows what was
  last written to it in this request, and the host's value where nothing was written; nothing else of the
  snapshot changes. A replacement shows exactly the requested settings, names the plugin for the fields it
  changed and no others, and a request that moves on to a newer snapshot takes along exactly the fields
  that were written.
\<close>

theorem settings_are_layered:
  assumes "request_history version_parse s"
  shows "settings_to_value (settings_values s) = overlay (rq_overrides s) (snapshot_values (rq_baseline s))
     \<and> rq_effective s = (rq_baseline s)\<lparr>rs_settings := rs_settings (rq_effective s)\<rparr>
     \<and> (\<forall>vals i s'. replace version_parse s vals i = Ok s' \<longrightarrow>
          settings_values s' = vals
          \<and> (\<forall>n. rq_overrides s' n =
                (if settings_to_value (settings_values s) n = settings_to_value vals n then rq_overrides s n
                 else Some \<lparr>so_instance_id = i, so_order = rq_order s', so_value = settings_to_value vals n\<rparr>)))
     \<and> (\<forall>t s'. rebase version_parse False s t = Ok s' \<longrightarrow>
          settings_to_value (settings_values s') = overlay (rq_overrides s) (snapshot_values t)
          \<and> rq_overrides s' = rq_overrides s)"
proof -
  note layered = history_layered[OF assms]
  from replace_facts(2,3)[OF _ layered] rebase_facts(3,4)[OF _ layered] layered show ?thesis
    unfolding layered_def by blast
qed

text \<open>
  What a plugin asks for is what it gets. After a replacement of the execution settings, reading them
  gives exactly the requested ones, although the profiles of the client key are mixed into what is read
  and not into what is stored; and the permissions of a client key never depend on the settings.
\<close>

theorem replaced_execution_is_seen:
  assumes "request_history version_parse s" "replace_execution version_parse s xs i = Ok s'"
  shows "execution_values s' = Some xs \<and> (\<forall>p. allows (cp_account_scope (apply_policy s' p)) = allows (cp_account_scope p))"
  using replace_execution_facts(2)[OF assms(2) history_layered[OF assms(1)]]
  by (simp add: apply_policy_def Let_def policy_with_settings_facts)


section \<open>A concrete request\<close>

definition sample_wish :: SettingsValues where
  "sample_wish = sample_settings\<lparr>sv_max_waiting_per_key := 5\<rparr>"

lemma sample_wish_compiles: "\<exists>c. new_CompiledSettings sample_versions sample_wish = Ok c"
proof -
  have "RotationStrategy_parse ''round_robin'' = Some RoundRobin" by code_simp
  then show ?thesis
    by (simp add: new_CompiledSettings_def sample_wish_def sample_settings_def new_SettingsValues_def body_limit_def
        parse_optional_version_def Let_def)
qed

lemma sample_replace:
  assumes "compiled_values c = sample_settings"
  shows "\<exists>s'. replace sample_versions (new_RequestSettings (sample_snapshot c)) sample_wish ''plugin'' = Ok s'"
proof -
  obtain d where "new_CompiledSettings sample_versions sample_wish = Ok d"
    using sample_wish_compiles by blast
  then show ?thesis
    using assms
    by (simp add: replace_def replace_scoped_def new_RequestSettings_def settings_values_def u64_next_def checked_add_u_def
        resolve_settings_def with_settings_def sample_snapshot_def Let_def)
qed

theorem settings_are_layered_witness:
  "\<exists>c s'. replace sample_versions (new_RequestSettings (sample_snapshot c)) sample_wish ''plugin'' = Ok s'
     \<and> settings_values s' = sample_wish \<and> rq_overrides s' SnRotationStrategy = None"
proof -
  obtain c where "new_CompiledSettings sample_versions sample_settings = Ok c"
    and c: "compiled_values c = sample_settings"
    using sample_settings_compile .
  obtain s' where s': "replace sample_versions (new_RequestSettings (sample_snapshot c)) sample_wish ''plugin'' = Ok s'"
    using sample_replace[OF c] by blast
  have "settings_values (new_RequestSettings (sample_snapshot c)) = sample_settings"
    using c by (simp add: settings_values_def new_RequestSettings_def sample_snapshot_def)
  moreover have "request_history sample_versions (new_RequestSettings (sample_snapshot c))"
    by (rule request_history.fresh)
  note layers = settings_are_layered[OF this]
  from layers s' have seen: "settings_values s' = sample_wish" by blast
  from layers s' have "rq_overrides s' SnRotationStrategy =
      (if settings_to_value (settings_values (new_RequestSettings (sample_snapshot c))) SnRotationStrategy
          = settings_to_value sample_wish SnRotationStrategy
       then rq_overrides (new_RequestSettings (sample_snapshot c)) SnRotationStrategy
       else Some \<lparr>so_instance_id = ''plugin'', so_order = rq_order s',
                  so_value = settings_to_value sample_wish SnRotationStrategy\<rparr>)"
    by blast
  ultimately have "rq_overrides s' SnRotationStrategy = None"
    by (simp add: sample_wish_def) (simp add: new_RequestSettings_def)
  with seen show ?thesis
    using s' by blast
qed

definition sample_client :: ClientPolicy where
  "sample_client = new_ClientPolicy (ClientApiKeyId ''k'') (PlaintextClientApiKey ''sk-1'') sample_scope True unlimited_RateLimits"

definition sample_scoped :: "nat CompiledSettings \<Rightarrow> nat RequestSettings" where
  "sample_scoped c = with_execution (new_RequestSettings (sample_snapshot c)) sample_client 1000"

theorem replaced_execution_is_seen_witness:
  "\<exists>c s' xs. replace_execution sample_versions (sample_scoped c) xs ''plugin'' = Ok s'
     \<and> xs_timeout_ms xs = 50 \<and> execution_values s' = Some xs"
proof -
  obtain c where "new_CompiledSettings sample_versions sample_settings = Ok c"
    and c: "compiled_values c = sample_settings"
    using sample_settings_compile .
  have hist: "request_history sample_versions (sample_scoped c)"
    unfolding sample_scoped_def by (rule request_history.scoped[OF request_history.fresh])
  obtain scope where scope: "rq_execution (sample_scoped c) = Some scope" "rq_order (sample_scoped c) = 0"
    "xo_timeout_ms scope = None" "xs_timeout_ms (xo_input scope) = 1000"
    by (simp add: sample_scoped_def with_execution_def Let_def resolve_execution_fields scope_of_key_def new_RequestSettings_def)
  define x where "x = resolve_execution (sample_scoped c) (xo_client_key_id scope) (xo_defaults scope) 1000"
  then have x: "execution_values (sample_scoped c) = Some x"
    using scope by (simp add: execution_values_def)
  have "xs_timeout_ms x = 1000"
    using scope scope_of_key_self[OF scope(1)] by (simp add: x_def resolve_execution_fields)
  then have "\<exists>s'. replace_execution sample_versions (sample_scoped c) (x\<lparr>xs_timeout_ms := 50\<rparr>) ''plugin'' = Ok s'"
    unfolding replace_execution_def x option.case
    by (simp add: replace_scoped_def u64_next_def checked_add_u_def scope)
  then obtain s' where "replace_execution sample_versions (sample_scoped c) (x\<lparr>xs_timeout_ms := 50\<rparr>) ''plugin'' = Ok s'"
    by blast
  then show ?thesis
    using replaced_execution_is_seen[OF hist] by fastforce
qed

end
