(* ===== verification/Request_Access.thy ===== *)
theory Request_Access
  imports Request_Settings Execution_Session
begin

unbundle bit_operations_syntax

text \<open>
  Who may start a request and with which permissions: \<open>gateway-core/src/engine/authentication.rs\<close>,
  \<open>engine/extensions.rs\<close> and the parts of \<open>engine/execution.rs\<close> that authenticate a client, freeze its
  identity for a request, narrow the scope of a request that a plugin starts inside another one, and
  bound how many of those there may be.

  Parameters are the published snapshot, the frontend authentication plan of a plugin, the clock and
  fresh request identifiers.
\<close>

section \<open>Extension scopes\<close>

definition MAXIMUM_DEPTH :: nat where "MAXIMUM_DEPTH = 4"

definition extending :: "ExtensionCallScope \<Rightarrow> string \<Rightarrow> ExtensionCallScope option" where
  "extending scope instance_id = (if instance_id \<in> scope then None else Some (insert instance_id scope))"


section \<open>Authentication\<close>

text \<open>Every byte is compared, whether an earlier one differs or not.\<close>

definition byte_of :: "char \<Rightarrow> 8 word" where "byte_of c = word_of_nat (of_char c)"

definition constant_time_equal :: "string \<Rightarrow> string \<Rightarrow> bool" where
  "constant_time_equal left right =
     (if length left \<noteq> length right then False
      else foldl (\<lambda>difference (l, r). difference OR (byte_of l XOR byte_of r)) 0 (zip left right) = 0)"

datatype ClientAuthenticationError = InvalidKey | SnapshotUnavailable | ProviderUnavailable

datatype FrontendAuthenticationDecision = Authenticated string | NotMatched | FrontendRejected

definition MAXIMUM_AUTHORIZATION_BYTES :: nat where "MAXIMUM_AUTHORIZATION_BYTES = 8 * 1024"

record 'v ClientAuthenticationRequest =
  ar_settings :: "'v RequestSettings option"
  ar_authorization :: string
  ar_native_bearer :: "PlaintextClientApiKey option"

definition auth_with_settings ::
  "'v ClientAuthenticationRequest \<Rightarrow> 'v RequestSettings \<Rightarrow> 'v ClientAuthenticationRequest" where
  "auth_with_settings r settings = r\<lparr>ar_settings := Some settings\<rparr>"

definition bearer_text :: "string \<Rightarrow> string option" where
  "bearer_text authorization =
     (if prefix ''Bearer '' authorization then Some (drop 7 authorization) else None)"

definition new_ClientAuthenticationRequest :: "string \<Rightarrow> unit + 'v ClientAuthenticationRequest" where
  "new_ClientAuthenticationRequest authorization =
     (if authorization = [] \<or> MAXIMUM_AUTHORIZATION_BYTES < length authorization
         \<or> \<not> list_all (\<lambda>c. of_char c < (128 :: nat)) authorization \<or> has_control authorization
      then Err ()
      else Ok \<lparr>ar_settings = None, ar_authorization = authorization,
               ar_native_bearer =
                 Option.bind (filter_option (\<lambda>v. v \<noteq> []) (map_option trim (bearer_text authorization)))
                   (\<lambda>v. ok (new_PlaintextClientApiKey v))\<rparr>)"

definition bearer :: "string \<Rightarrow> unit + 'v ClientAuthenticationRequest" where
  "bearer plaintext = new_ClientAuthenticationRequest (''Bearer '' @ plaintext)"

record 'v FrontendAuthenticationPlan =
  frontend_authenticate :: "'v ClientAuthenticationRequest \<Rightarrow> FrontendAuthenticationDecision option"
  frontend_client_key_id :: "string \<Rightarrow> ClientApiKeyId option"
  frontend_exclusive :: bool

text \<open>What authentication sees of the service at one moment.\<close>

record 'v AccessEnv =
  acquire_snapshot :: "'v RuntimeSnapshot option"
  resolve_frontend :: "ExtensionSetReference \<Rightarrow> 'v FrontendAuthenticationPlan option"

record 'v AuthenticatedClient =
  cl_settings :: "'v RequestSettings option"
  cl_snapshot :: "'v RuntimeSnapshot"
  cl_policy :: ClientPolicy
  cl_authentication :: "'v ClientAuthenticationRequest option"

text \<open>\<open>client_policies\<close> runs through the map in the order of the key identifiers.\<close>

definition client_policies :: "'v RuntimeSnapshot \<Rightarrow> ClientPolicy list" where
  "client_policies s =
     map (\<lambda>k. the (rs_client_policies s (ClientApiKeyId k)))
       (sorted_list_of_set (client_key_id_str ` dom (rs_client_policies s)))"

definition policy_of_plaintext :: "'v RuntimeSnapshot \<Rightarrow> string \<Rightarrow> ClientAuthenticationError + ClientPolicy" where
  "policy_of_plaintext s plaintext =
     ok_or (List.find (\<lambda>p. authorize p = Ok ())
              (filter (\<lambda>p. constant_time_equal plaintext (expose_for_auth (cp_plaintext_key p))) (client_policies s)))
       InvalidKey"

definition native_policy ::
  "'v RuntimeSnapshot \<Rightarrow> 'v ClientAuthenticationRequest \<Rightarrow> ClientAuthenticationError + ClientPolicy" where
  "native_policy s r =
     (case ar_native_bearer r of
        None \<Rightarrow> Err InvalidKey
      | Some key \<Rightarrow> policy_of_plaintext s (expose_for_auth key))"

definition authenticate_without_usage ::
  "'v AccessEnv \<Rightarrow> string \<Rightarrow> ClientAuthenticationError + 'v AuthenticatedClient" where
  "authenticate_without_usage env plaintext =
     (case bearer plaintext of
        Inl _ \<Rightarrow> Err InvalidKey
      | Inr r \<Rightarrow>
     (case acquire_snapshot env of
        None \<Rightarrow> Err SnapshotUnavailable
      | Some s \<Rightarrow>
     (case policy_of_plaintext s plaintext of
        Inl e \<Rightarrow> Err e
      | Inr p \<Rightarrow>
          Ok \<lparr>cl_settings = None, cl_snapshot = s, cl_policy = apply_policy (new_RequestSettings s) p,
              cl_authentication = Some r\<rparr>)))"

definition frontend_policy ::
  "'v FrontendAuthenticationPlan \<Rightarrow> 'v RuntimeSnapshot \<Rightarrow> 'v ClientAuthenticationRequest
   \<Rightarrow> ClientAuthenticationError + ClientPolicy" where
  "frontend_policy plan s r =
     (case frontend_authenticate plan r of
        None \<Rightarrow> Err ProviderUnavailable
      | Some (Authenticated who) \<Rightarrow>
          (case frontend_client_key_id plan who of
             None \<Rightarrow> Err InvalidKey
           | Some key \<Rightarrow> ok_or (filter_option (\<lambda>p. authorize p = Ok ()) (rs_client_policies s key)) InvalidKey)
      | Some FrontendRejected \<Rightarrow> Err InvalidKey
      | Some NotMatched \<Rightarrow> if frontend_exclusive plan then Err InvalidKey else native_policy s r)"

definition authenticate_request_without_usage ::
  "'v AccessEnv \<Rightarrow> 'v ClientAuthenticationRequest \<Rightarrow> ClientAuthenticationError + 'v AuthenticatedClient" where
  "authenticate_request_without_usage env r =
     (case (case ar_settings r of Some settings \<Rightarrow> Some (rq_effective settings) | None \<Rightarrow> acquire_snapshot env) of
        None \<Rightarrow> Err SnapshotUnavailable
      | Some s \<Rightarrow>
     (case (case Option.bind (rs_extensions s) (resolve_frontend env) of
              Some plan \<Rightarrow> frontend_policy plan s r | None \<Rightarrow> native_policy s r) of
        Inl e \<Rightarrow> Err e
      | Inr p \<Rightarrow>
          let p = (case ar_settings r of
                     Some settings \<Rightarrow> apply_policy settings p
                   | None \<Rightarrow> apply_policy (new_RequestSettings s) p)
          in Ok \<lparr>cl_settings = ar_settings r, cl_snapshot = s, cl_policy = p,
                 cl_authentication = Some (r\<lparr>ar_settings := None\<rparr>)\<rparr>))"

fun authentication_gateway_error :: "ClientAuthenticationError \<Rightarrow> GatewayError" where
  "authentication_gateway_error InvalidKey = new_GatewayError GkUnauthorized ''client API key is invalid''"
| "authentication_gateway_error SnapshotUnavailable = new_GatewayError GkInternal ''runtime snapshot is unavailable''"
| "authentication_gateway_error ProviderUnavailable =
     new_GatewayError GkInternal ''frontend authentication provider is unavailable''"

text \<open>The second component of \<open>client_for_key_id\<close>'s environment is the publisher of a command-line process:
  \<open>Some False\<close> when its refresh fails.\<close>

definition client_for_key_id ::
  "'v AccessEnv \<Rightarrow> bool option \<Rightarrow> ClientApiKeyId \<Rightarrow> 'v RequestSettings option \<Rightarrow> GatewayError + 'v AuthenticatedClient" where
  "client_for_key_id env refreshed key settings =
     (if settings = None \<and> refreshed = Some False
      then Err (new_GatewayError GkInternal ''current runtime snapshot is unavailable'')
      else
        case (case settings of Some t \<Rightarrow> Some (rq_effective t) | None \<Rightarrow> acquire_snapshot env) of
          None \<Rightarrow> Err (new_GatewayError GkInternal ''current runtime snapshot is unavailable'')
        | Some s \<Rightarrow>
        case rs_client_policies s key of
          None \<Rightarrow> Err (new_GatewayError GkUnauthorized ''client API key no longer exists'')
        | Some p \<Rightarrow>
            if authorize p \<noteq> Ok () then Err (new_GatewayError GkPolicyDenied ''client API key is disabled'')
            else Ok \<lparr>cl_settings = settings, cl_snapshot = s,
                     cl_policy = (case settings of Some t \<Rightarrow> apply_policy t p | None \<Rightarrow> apply_policy (new_RequestSettings s) p),
                     cl_authentication = None\<rparr>)"


section \<open>The root request\<close>

definition MODEL_REQUEST_DEADLINE :: duration where "MODEL_REQUEST_DEADLINE = from_secs (10 * 60)"

definition client_execution_timeout :: "'v AuthenticatedClient \<Rightarrow> duration" where
  "client_execution_timeout c =
     unwrap_or (Option.bind (cl_settings c) (\<lambda>t. execution_timeout t (cp_key_id (cl_policy c)))) MODEL_REQUEST_DEADLINE"

record 'v PreparedRootExecution =
  pr_extension_scope :: ExtensionCallScope
  pr_client :: "'v AuthenticatedClient"
  pr_request_id :: ModelRequestId
  pr_started_at :: system_time
  pr_deadline_at :: system_time
  pr_execution_effects :: nat
  pr_execution_effects_baseline :: nat

definition new_PreparedRootExecution ::
  "system_time \<Rightarrow> ModelRequestId \<Rightarrow> 'v AuthenticatedClient \<Rightarrow> GatewayError + 'v PreparedRootExecution" where
  "new_PreparedRootExecution now request_id c =
     (case checked_add_time now (client_execution_timeout c) of
        None \<Rightarrow> Err (new_GatewayError GkInternal ''system clock is invalid'')
      | Some deadline \<Rightarrow>
          Ok \<lparr>pr_extension_scope = {}, pr_client = c, pr_request_id = request_id, pr_started_at = now,
              pr_deadline_at = deadline, pr_execution_effects = 0, pr_execution_effects_baseline = 0\<rparr>)"

definition prepared_with_extension_scope ::
  "'v PreparedRootExecution \<Rightarrow> ExtensionCallScope \<Rightarrow> 'v PreparedRootExecution" where
  "prepared_with_extension_scope r scope = r\<lparr>pr_extension_scope := scope\<rparr>"

text \<open>Every request authenticates again; the second result are the keys whose use is reported.\<close>

definition prepare_root_execution_inner ::
  "'v AccessEnv \<Rightarrow> system_time \<Rightarrow> ModelRequestId \<Rightarrow> 'v AuthenticatedClient
   \<Rightarrow> (GatewayError + 'v PreparedRootExecution) \<times> ClientApiKeyId list" where
  "prepare_root_execution_inner env now request_id c =
     (case cl_authentication c of
        None \<Rightarrow> (Err (new_GatewayError GkInternal ''bound execution identity cannot enter the public start path''), [])
      | Some r \<Rightarrow>
          let r = (case cl_settings c of Some settings \<Rightarrow> auth_with_settings r settings | None \<Rightarrow> r) in
          case authenticate_request_without_usage env r of
            Inl e \<Rightarrow> (Err (authentication_gateway_error e), [])
          | Inr c' \<Rightarrow>
              if cp_key_id (cl_policy c') = cp_key_id (cl_policy c)
              then (new_PreparedRootExecution now request_id c', [cp_key_id (cl_policy c')])
              else (Err (authentication_gateway_error InvalidKey), []))"

definition duration_ms :: "duration \<Rightarrow> nat" where
  "duration_ms d = min (d div 1000000) (2 ^ 64 - 1)"

definition prepared_settings :: "'v PreparedRootExecution \<Rightarrow> 'v RequestSettings" where
  "prepared_settings r =
     with_execution (unwrap_or (cl_settings (pr_client r)) (new_RequestSettings (cl_snapshot (pr_client r))))
       (cl_policy (pr_client r))
       (duration_ms (unwrap_or (duration_since (pr_deadline_at r) (pr_started_at r)) 0))"

definition apply_settings ::
  "'v PreparedRootExecution \<Rightarrow> 'v RequestSettings \<Rightarrow> GatewayError + 'v PreparedRootExecution" where
  "apply_settings r settings =
     (let c = pr_client r in
      case execution_deadline settings (cp_key_id (cl_policy c)) (pr_started_at r) of
        Inl _ \<Rightarrow> Err (new_GatewayError GkInvalidRequest ''execution settings are invalid'')
      | Inr deadline \<Rightarrow>
          Ok (r\<lparr>pr_client := c\<lparr>cl_policy := apply_policy settings (cl_policy c), cl_snapshot := rq_effective settings,
                               cl_settings := Some settings\<rparr>,
                pr_deadline_at := deadline\<rparr>))"


section \<open>Requests inside requests\<close>

definition MAX_NESTED_EXECUTIONS :: nat where "MAX_NESTED_EXECUTIONS = 16"
definition MAX_CONCURRENT_NESTED_EXECUTIONS :: nat where "MAX_CONCURRENT_NESTED_EXECUTIONS = 4"

text \<open>The effects are an epoch that every possible external effect moves on; the counter wraps.\<close>

definition observe_effect :: "nat \<Rightarrow> nat" where
  "observe_effect epoch = (epoch + 1) mod 2 ^ 64"

record NestedExecutionGraph =
  total_started :: nat
  graph_active :: nat
  graph_effects :: nat

definition new_graph :: "nat \<Rightarrow> NestedExecutionGraph" where
  "new_graph effects = \<lparr>total_started = 0, graph_active = 0, graph_effects = effects\<rparr>"

text \<open>\<open>acquire\<close> is two atomic updates: other callers may run in between.\<close>

definition acquire_active :: "NestedExecutionGraph \<Rightarrow> GatewayError + NestedExecutionGraph" where
  "acquire_active g =
     (if graph_active g < MAX_CONCURRENT_NESTED_EXECUTIONS then Ok (g\<lparr>graph_active := graph_active g + 1\<rparr>)
      else Err (new_GatewayError GkConcurrencyQueueFull ''nested model execution concurrency is exhausted''))"

definition release_permit :: "NestedExecutionGraph \<Rightarrow> NestedExecutionGraph" where
  "release_permit g = g\<lparr>graph_active := graph_active g - 1\<rparr>"

definition acquire_total :: "NestedExecutionGraph \<Rightarrow> (GatewayError + unit) \<times> NestedExecutionGraph" where
  "acquire_total g =
     (if total_started g < MAX_NESTED_EXECUTIONS then (Ok (), g\<lparr>total_started := total_started g + 1\<rparr>)
      else (Err (new_GatewayError GkPolicyDenied ''nested model execution budget is exhausted''), release_permit g))"

definition acquire_permit :: "NestedExecutionGraph \<Rightarrow> (GatewayError + unit) \<times> NestedExecutionGraph" where
  "acquire_permit g = (case acquire_active g of Inl e \<Rightarrow> (Err e, g) | Inr g \<Rightarrow> acquire_total g)"

definition policy_denied :: "string \<Rightarrow> GatewayError" where
  "policy_denied message = new_GatewayError GkPolicyDenied message"

definition restrict_model_execution_scope ::
  "FrozenAccountScope \<Rightarrow> ProviderKind option \<Rightarrow> ProviderAccountId option \<Rightarrow> ProviderAccountId option
   \<Rightarrow> GatewayError + FrozenAccountScope \<times> ProviderKind option" where
  "restrict_model_execution_scope parent_scope provider account parent_account =
     (if is_some_and parent_account (\<lambda>p. \<not> allows parent_scope p)
      then Err (policy_denied ''parent attempt account is outside the frozen account scope'')
      else if is_some parent_account \<and> account = parent_account
      then Err (policy_denied ''nested execution cannot wait for the parent attempt account'')
      else
        let scope = (case parent_account of None \<Rightarrow> parent_scope | Some p \<Rightarrow> excluding_account parent_scope p) in
        case (case account of
                None \<Rightarrow> Ok provider
              | Some a \<Rightarrow>
                  if \<not> allows scope a
                  then Err (policy_denied ''model account is outside the frozen authorization scope'')
                  else
                    (case scope_account_provider scope a of
                       None \<Rightarrow> Err (policy_denied ''model account is unavailable in the frozen snapshot'')
                     | Some own \<Rightarrow>
                         if is_some_and provider (\<lambda>p. p \<noteq> own)
                         then Err (policy_denied ''model provider and account do not match'')
                         else Ok (Some own))) of
          Inl e \<Rightarrow> Err e
        | Inr required \<Rightarrow>
            if is_some_and required (\<lambda>p. p \<notin> scope_provider_kinds scope) \<or> scope_provider_kinds scope = {}
            then Err (policy_denied ''model provider is outside the frozen authorization scope'')
            else Ok (scope, required))"

record 'v ActiveRequestAuthority =
  aa_client :: "'v AuthenticatedClient"
  aa_account_scope :: FrozenAccountScope
  aa_deadline_at :: system_time
  aa_cancelled :: bool
  aa_extension_scope :: ExtensionCallScope

definition active_request ::
  "(ModelRequestId \<rightharpoonup> 'v ActiveRequestAuthority) \<Rightarrow> system_time \<Rightarrow> ModelRequestId \<Rightarrow> GatewayError + 'v ActiveRequestAuthority" where
  "active_request registry now request_id =
     (case registry request_id of
        None \<Rightarrow> Err (policy_denied ''parent model request is not active'')
      | Some parent \<Rightarrow>
          if aa_cancelled parent then Err (new_GatewayError GkCancelled ''parent request was cancelled'')
          else if unwrap_or (duration_since (aa_deadline_at parent) now) 0 = 0
          then Err (new_GatewayError GkTimeout ''parent request deadline elapsed'')
          else Ok parent)"

record NestedModelExecutionRequest =
  nm_parent_request_id :: ModelRequestId
  nm_plugin_instance_id :: string
  nm_provider :: "ProviderKind option"
  nm_account :: "ProviderAccountId option"
  nm_parent_account :: "ProviderAccountId option"

text \<open>
  What a request may do, frozen before it is routed. A nested request names its parent and its plugin, a bound
  one its plugin. The graph and the permit themselves are kept beside the record.
\<close>

record AuthorizedExecution =
  az_account_scope :: FrozenAccountScope
  az_deadline_at :: system_time
  az_extension_scope :: ExtensionCallScope
  az_required_provider :: "ProviderKind option"
  az_required_account :: "ProviderAccountId option"
  az_nested :: "(ModelRequestId \<times> string) option"
  az_bound :: "string option"
  az_has_graph :: bool
  az_execution_effects_baseline :: nat
  az_has_permit :: bool

definition root_authorization :: "'v PreparedRootExecution \<Rightarrow> AuthorizedExecution" where
  "root_authorization r =
     \<lparr>az_account_scope = cp_account_scope (cl_policy (pr_client r)), az_deadline_at = pr_deadline_at r,
      az_extension_scope = pr_extension_scope r, az_required_provider = None, az_required_account = None,
      az_nested = None, az_bound = None, az_has_graph = is_some (rs_extensions (cl_snapshot (pr_client r))),
      az_execution_effects_baseline = pr_execution_effects_baseline r, az_has_permit = False\<rparr>"

definition root_graph :: "'v PreparedRootExecution \<Rightarrow> NestedExecutionGraph option" where
  "root_graph r = map_option (\<lambda>_. new_graph (pr_execution_effects r)) (rs_extensions (cl_snapshot (pr_client r)))"

text \<open>\<open>start_nested_inner\<close> up to the start itself, with the parent's graph.\<close>

definition nested_authorization ::
  "(ModelRequestId \<rightharpoonup> 'v ActiveRequestAuthority) \<Rightarrow> system_time \<Rightarrow> NestedExecutionGraph \<Rightarrow> NestedModelExecutionRequest
   \<Rightarrow> (GatewayError + 'v AuthenticatedClient \<times> AuthorizedExecution) \<times> NestedExecutionGraph" where
  "nested_authorization registry now g r =
     (case active_request registry now (nm_parent_request_id r) of
        Inl e \<Rightarrow> (Err e, g)
      | Inr parent \<Rightarrow>
          if MAXIMUM_DEPTH \<le> card (aa_extension_scope parent)
          then (Err (policy_denied ''nested model execution depth is exhausted''), g)
          else
     (case extending (aa_extension_scope parent) (nm_plugin_instance_id r) of
        None \<Rightarrow> (Err (policy_denied ''recursive plugin model execution is not allowed''), g)
      | Some scope \<Rightarrow>
     (case restrict_model_execution_scope (aa_account_scope parent) (nm_provider r) (nm_account r) (nm_parent_account r) of
        Inl e \<Rightarrow> (Err e, g)
      | Inr (account_scope, required) \<Rightarrow>
     (case acquire_permit g of
        (Inl e, g) \<Rightarrow> (Err e, g)
      | (Inr _, g) \<Rightarrow>
          let g = g\<lparr>graph_effects := observe_effect (graph_effects g)\<rparr> in
          (Ok (aa_client parent,
               \<lparr>az_account_scope = account_scope, az_deadline_at = aa_deadline_at parent, az_extension_scope = scope,
                az_required_provider = required, az_required_account = nm_account r,
                az_nested = Some (nm_parent_request_id r, nm_plugin_instance_id r), az_bound = None,
                az_has_graph = True, az_execution_effects_baseline = graph_effects g, az_has_permit = True\<rparr>), g)))))"

record 'v BoundModelExecutionAuthority =
  ba_client :: "'v AuthenticatedClient"
  ba_account_scope :: FrozenAccountScope
  ba_extension_scope :: ExtensionCallScope
  ba_plugin_instance_id :: string

definition bind_bound_model_inner ::
  "'v AccessEnv \<Rightarrow> bool option \<Rightarrow> ClientApiKeyId \<Rightarrow> 'v RequestSettings option \<Rightarrow> ExtensionCallScope \<Rightarrow> string
   \<Rightarrow> GatewayError + 'v BoundModelExecutionAuthority" where
  "bind_bound_model_inner env refreshed key settings scope instance_id =
     (case client_for_key_id env refreshed key settings of
        Inl e \<Rightarrow> Err e
      | Inr c \<Rightarrow>
          if MAXIMUM_DEPTH \<le> card scope then Err (policy_denied ''plugin model execution depth exceeded'')
          else
     (case extending scope instance_id of
        None \<Rightarrow> Err (new_GatewayError GkInternal ''bound plugin execution scope is invalid'')
      | Some scope \<Rightarrow>
          Ok \<lparr>ba_client = c, ba_account_scope = cp_account_scope (cl_policy c), ba_extension_scope = scope,
              ba_plugin_instance_id = instance_id\<rparr>))"

text \<open>\<open>start_bound_model_inner\<close> up to the start; its graph is a new one. The keys used come second.\<close>

definition bound_authorization ::
  "bool \<Rightarrow> system_time \<Rightarrow> 'v BoundModelExecutionAuthority \<Rightarrow> ProviderKind option \<Rightarrow> ProviderAccountId option
   \<Rightarrow> (GatewayError + AuthorizedExecution \<times> NestedExecutionGraph) \<times> ClientApiKeyId list" where
  "bound_authorization cancelled now b provider account =
     (if cancelled then (Err (new_GatewayError GkCancelled ''bound plugin invocation was cancelled''), [])
      else
        case checked_add_time now (client_execution_timeout (ba_client b)) of
          None \<Rightarrow> (Err (new_GatewayError GkInternal ''system clock is invalid''), [])
        | Some deadline \<Rightarrow>
        case restrict_model_execution_scope (ba_account_scope b) provider account None of
          Inl e \<Rightarrow> (Err e, [])
        | Inr (scope, required) \<Rightarrow>
        case acquire_permit (new_graph 0) of
          (Inl e, g) \<Rightarrow> (Err e, [])
        | (Inr _, g) \<Rightarrow>
            (Ok (\<lparr>az_account_scope = scope, az_deadline_at = deadline, az_extension_scope = ba_extension_scope b,
                  az_required_provider = required, az_required_account = account, az_nested = None,
                  az_bound = Some (ba_plugin_instance_id b), az_has_graph = True,
                  az_execution_effects_baseline = graph_effects g, az_has_permit = True\<rparr>, g),
             [cp_key_id (cl_policy (ba_client b))]))"


text \<open>The authority under which the plugins of a started request may start others.\<close>

definition registered_authority :: "'v AuthenticatedClient \<Rightarrow> AuthorizedExecution \<Rightarrow> 'v ActiveRequestAuthority" where
  "registered_authority c az =
     \<lparr>aa_client = c, aa_account_scope = az_account_scope az, aa_deadline_at = az_deadline_at az, aa_cancelled = False,
      aa_extension_scope = az_extension_scope az\<rparr>"


section \<open>Affinity lookups\<close>

text \<open>A plugin asks, for a request that is active, which account a session key is bound to: the store's answer,
  or the failure of the store or the timeout.\<close>

datatype AffinityAnswer = AffinityLoaded "ProviderAccountId option" | AffinityUnavailable | AffinityInvalid | AffinityTimedOut

definition lookup_affinity ::
  "(ModelRequestId \<rightharpoonup> 'v ActiveRequestAuthority) \<Rightarrow> system_time \<Rightarrow> ModelRequestId \<Rightarrow> ProviderKind
   \<Rightarrow> AffinityAnswer option \<Rightarrow> GatewayError + (ProviderKind \<times> ProviderAccountId) option" where
  "lookup_affinity registry now request_id provider affinity =
     (case active_request registry now request_id of
        Inl e \<Rightarrow> Err e
      | Inr parent \<Rightarrow>
          if provider \<notin> scope_provider_kinds (aa_account_scope parent)
          then Err (policy_denied ''affinity provider is outside the frozen authorization scope'')
          else
     (case affinity of
        None \<Rightarrow> Err (policy_denied ''provider session affinity is unavailable'')
      | Some AffinityUnavailable \<Rightarrow>
          Err (new_GatewayError GkProviderInfrastructureUnavailable ''provider session affinity is temporarily unavailable'')
      | Some AffinityInvalid \<Rightarrow> Err (new_GatewayError GkInternal ''provider session affinity is invalid'')
      | Some AffinityTimedOut \<Rightarrow>
          Err (new_GatewayError GkProviderInfrastructureUnavailable ''provider session affinity lookup timed out'')
      | Some (AffinityLoaded None) \<Rightarrow> Ok None
      | Some (AffinityLoaded (Some account)) \<Rightarrow>
          if \<not> allows (aa_account_scope parent) account
             \<or> scope_account_provider (aa_account_scope parent) account \<noteq> Some provider
          then Ok None else Ok (Some (provider, account))))"


section \<open>Errors of the entry\<close>

fun map_routing_error :: "RoutingError \<Rightarrow> GatewayError" where
  "map_routing_error (ModelNotFound model mapped) =
     new_GatewayError GkModelNotFound
       (if model = mapped
        then ''the requested model was not found in the provider catalogs available to this API key; check the model name''
        else ''the requested model maps to an upstream model that was not found in the provider catalogs available to this API key; check the configured model mapping'')"
| "map_routing_error (NoCapableProvider _) = new_GatewayError GkNoAvailableProvider ''no provider can execute this request''"
| "map_routing_error (NoCapableProviderEndpoint _) = new_GatewayError GkNoAvailableProvider ''no provider can execute this request''"
| "map_routing_error EmptyAccountScope = new_GatewayError GkNoAvailableProvider ''no provider can execute this request''"
| "map_routing_error (UnsupportedProviderEndpoint _ _) =
     new_GatewayError GkUnsupported ''the selected provider does not support this operation''"
| "map_routing_error _ = new_GatewayError GkInternal ''runtime routing configuration is invalid''"

fun gateway_error_from_engine :: "EngineError \<Rightarrow> GatewayError" where
  "gateway_error_from_engine EngineCancelled = new_GatewayError GkCancelled ''request was cancelled''"
| "gateway_error_from_engine EngineDeadline = new_GatewayError GkTimeout ''request deadline elapsed''"
| "gateway_error_from_engine (EngineProvider e) = from_provider e"
| "gateway_error_from_engine EmptyRoutingPlan = new_GatewayError GkNoAvailableProvider ''no provider is available''"
| "gateway_error_from_engine (EngineProviderNotRegistered _) =
     new_GatewayError GkNoAvailableProvider ''no provider is available''"
| "gateway_error_from_engine _ = new_GatewayError GkInternal ''request execution failed''"


section \<open>Comparing keys\<close>

lemma byte_of_inject: "byte_of c = byte_of d \<longleftrightarrow> c = d"
proof
  assume "byte_of c = byte_of d"
  then have "unat (byte_of c) = unat (byte_of d)" by simp
  moreover have "unat (byte_of e) = of_char e" for e
    using nat_of_char_less_256[of e] by (simp add: byte_of_def unsigned_of_nat take_bit_nat_eq_self)
  ultimately have "(of_char c :: nat) = of_char d" by simp
  then show "c = d" by simp
qed simp

lemma constant_time_fold:
  "length l = length r \<Longrightarrow>
     foldl (\<lambda>d (x, y). d OR (byte_of x XOR byte_of y)) acc (zip l r) = 0 \<longleftrightarrow> acc = 0 \<and> l = r"
proof (induction l r arbitrary: acc rule: list_induct2)
  case (Cons x xs y ys)
  have "byte_of x XOR byte_of y = 0 \<longleftrightarrow> x = y"
    by (metis byte_of_inject xor.assoc xor.left_neutral xor.right_neutral xor_self_eq)
  then show ?case
    using Cons.IH by (auto simp: or_eq_0_iff)
qed simp

lemma constant_time_equal_iff: "constant_time_equal l r \<longleftrightarrow> l = r"
  by (auto simp: constant_time_equal_def constant_time_fold)


section \<open>Identity\<close>

definition keyed :: "'v RuntimeSnapshot \<Rightarrow> bool" where
  "keyed s \<longleftrightarrow> finite (dom (rs_client_policies s)) \<and> (\<forall>k p. rs_client_policies s k = Some p \<longrightarrow> cp_key_id p = k)"

lemma compiled_keyed:
  assumes "compile_runtime_snapshot version_parse facts catalog providers previous = Ok s"
  shows "keyed s"
proof (rule compile_shape[OF assms])
  fix groups accounts memberships policies s0
  assume s0: "new_RuntimeSnapshot version_parse (sf_config_revision facts) (sf_settings facts) providers
       (cc_models (collect_catalogs catalog previous providers)) policies = Ok s0"
    and s: "s = s0\<lparr>rs_account_directory := new_RuntimeAccountDirectory (join_groups memberships accounts),
            rs_exhaustive_catalogs := cc_exhaustive (collect_catalogs catalog previous providers),
            rs_catalog_accounts := cc_accounts (collect_catalogs catalog previous providers)\<rparr>"
  obtain m where m: "insert_policies policies Map.empty = Ok m" "rs_client_policies s0 = retain_enabled m"
    by (rule new_RuntimeSnapshot_shape[OF s0]) (erule (1) that)
  have look: "rs_client_policies s k = Some p \<Longrightarrow> p \<in> set policies \<and> cp_key_id p = k" for k p
    using insert_policies_lookup[OF m(1)] by (simp add: s m(2) retain_enabled_def filter_option_eq_Some)
  then have "dom (rs_client_policies s) \<subseteq> cp_key_id ` set policies" by auto
  then have "finite (dom (rs_client_policies s))"
    by (rule finite_subset) simp
  with look show "keyed s"
    by (simp add: keyed_def)
qed

lemma client_policies_set:
  assumes "keyed s"
  shows "p \<in> set (client_policies s) \<longleftrightarrow> (\<exists>k. rs_client_policies s k = Some p)"
proof -
  have "set (client_policies s) = (\<lambda>k. the (rs_client_policies s (ClientApiKeyId k))) ` client_key_id_str ` dom (rs_client_policies s)"
    using assms by (simp add: client_policies_def keyed_def)
  also have "\<dots> = (\<lambda>k. the (rs_client_policies s k)) ` dom (rs_client_policies s)"
    by (simp add: image_image)
  finally show ?thesis by force
qed

lemma authorize_enabled: "authorize p = Ok () \<longleftrightarrow> cp_enabled p"
  by (simp add: authorize_def)

lemma policy_of_plaintext_iff:
  assumes "keyed s"
  shows "(\<exists>p. policy_of_plaintext s t = Ok p) \<longleftrightarrow>
      (\<exists>k p. rs_client_policies s k = Some p \<and> expose_for_auth (cp_plaintext_key p) = t \<and> cp_enabled p)"
    "policy_of_plaintext s t = Ok p \<Longrightarrow>
      rs_client_policies s (cp_key_id p) = Some p \<and> expose_for_auth (cp_plaintext_key p) = t \<and> cp_enabled p"
    "policy_of_plaintext s t = Err e \<Longrightarrow> e = InvalidKey"
proof -
  let ?ps = "filter (\<lambda>p. constant_time_equal t (expose_for_auth (cp_plaintext_key p))) (client_policies s)"
  show "policy_of_plaintext s t = Ok p \<Longrightarrow>
      rs_client_policies s (cp_key_id p) = Some p \<and> expose_for_auth (cp_plaintext_key p) = t \<and> cp_enabled p" for p
  proof -
    assume "policy_of_plaintext s t = Ok p"
    then have "List.find (\<lambda>p. authorize p = Ok ()) ?ps = Some p"
      by (simp add: policy_of_plaintext_def)
    then have "p \<in> set ?ps \<and> authorize p = Ok ()"
      unfolding find_Some_iff by (metis nth_mem)
    then show ?thesis
      using assms client_policies_set[OF assms, of p]
      by (auto simp: constant_time_equal_iff authorize_enabled keyed_def)
  qed
  then show "(\<exists>p. policy_of_plaintext s t = Ok p) \<longleftrightarrow>
      (\<exists>k p. rs_client_policies s k = Some p \<and> expose_for_auth (cp_plaintext_key p) = t \<and> cp_enabled p)"
  proof -
    have "\<exists>p. policy_of_plaintext s t = Ok p"
      if "rs_client_policies s k = Some p" "expose_for_auth (cp_plaintext_key p) = t" "cp_enabled p" for k p
    proof -
      have "p \<in> set ?ps"
        using that client_policies_set[OF assms] by (auto simp: constant_time_equal_iff)
      then have "List.find (\<lambda>p. authorize p = Ok ()) ?ps \<noteq> None"
        using that(3) by (auto simp: find_None_iff authorize_enabled)
      then show ?thesis
        by (auto simp: policy_of_plaintext_def)
    qed
    then show ?thesis
      using \<open>\<And>p. policy_of_plaintext s t = Ok p \<Longrightarrow> _\<close> by blast
  qed
  show "policy_of_plaintext s t = Err e \<Longrightarrow> e = InvalidKey"
    by (auto simp: policy_of_plaintext_def ok_or_def split: option.splits)
qed

lemma apply_policy_facts:
  "cp_key_id (apply_policy settings p) = cp_key_id p"
  "allows (cp_account_scope (apply_policy settings p)) = allows (cp_account_scope p)"
  "cp_enabled (apply_policy settings p) = cp_enabled p"
  by (simp_all add: apply_policy_def Let_def policy_with_settings_facts)
    (simp_all add: policy_with_settings_def Let_def)

lemma frontend_policy_Ok:
  assumes "frontend_policy plan s r = Ok p" "keyed s"
  shows "rs_client_policies s (cp_key_id p) = Some p \<and> cp_enabled p"
  using assms policy_of_plaintext_iff(2)[OF assms(2)]
  by (auto simp: frontend_policy_def native_policy_def keyed_def filter_option_eq_Some authorize_enabled
      split: option.splits FrontendAuthenticationDecision.splits if_splits)

text \<open>What a successful authentication returns: the snapshot it looked at, the policy it found there,
  and that policy with the settings of the request applied.\<close>

lemma authenticated_shape:
  assumes "authenticate_request_without_usage env r = Ok c"
  obtains s p where
    "(case ar_settings r of Some settings \<Rightarrow> Some (rq_effective settings) | None \<Rightarrow> acquire_snapshot env) = Some s"
    "(case Option.bind (rs_extensions s) (resolve_frontend env) of
        Some plan \<Rightarrow> frontend_policy plan s r | None \<Rightarrow> native_policy s r) = Ok p"
    "c = \<lparr>cl_settings = ar_settings r, cl_snapshot = s,
      cl_policy = (case ar_settings r of Some settings \<Rightarrow> apply_policy settings p | None \<Rightarrow> apply_policy (new_RequestSettings s) p),
      cl_authentication = Some (r\<lparr>ar_settings := None\<rparr>)\<rparr>"
proof -
  obtain s where s: "(case ar_settings r of Some settings \<Rightarrow> Some (rq_effective settings) | None \<Rightarrow> acquire_snapshot env) = Some s"
    using assms(1) unfolding authenticate_request_without_usage_def
    by (cases "case ar_settings r of Some settings \<Rightarrow> Some (rq_effective settings) | None \<Rightarrow> acquire_snapshot env") simp_all
  obtain p where p: "(case Option.bind (rs_extensions s) (resolve_frontend env) of
              Some plan \<Rightarrow> frontend_policy plan s r | None \<Rightarrow> native_policy s r) = Ok p"
    using assms(1) unfolding authenticate_request_without_usage_def s option.case
    by (cases "case Option.bind (rs_extensions s) (resolve_frontend env) of
              Some plan \<Rightarrow> frontend_policy plan s r | None \<Rightarrow> native_policy s r") simp_all
  have "c = \<lparr>cl_settings = ar_settings r, cl_snapshot = s,
      cl_policy = (case ar_settings r of Some settings \<Rightarrow> apply_policy settings p | None \<Rightarrow> apply_policy (new_RequestSettings s) p),
      cl_authentication = Some (r\<lparr>ar_settings := None\<rparr>)\<rparr>"
    using assms(1) unfolding authenticate_request_without_usage_def s option.case p sum.case Let_def by simp
  with s p show thesis by (rule that)
qed

text \<open>The policy of a client is the enabled one its snapshot holds now, with its account scope.\<close>

definition current_client :: "'v AuthenticatedClient \<Rightarrow> bool" where
  "current_client c \<longleftrightarrow>
     (\<exists>p. rs_client_policies (cl_snapshot c) (cp_key_id (cl_policy c)) = Some p \<and> cp_enabled p
        \<and> allows (cp_account_scope (cl_policy c)) = allows (cp_account_scope p))"

text \<open>The settings a client is served with: those it is bound to, or the unchanged ones of its snapshot.\<close>

definition client_settings :: "'v AuthenticatedClient \<Rightarrow> 'v RequestSettings" where
  "client_settings c = unwrap_or (cl_settings c) (new_RequestSettings (cl_snapshot c))"

lemma authenticated_policy:
  assumes "authenticate_request_without_usage env r = Ok c" "keyed (cl_snapshot c)"
  obtains p where "rs_client_policies (cl_snapshot c) (cp_key_id (cl_policy c)) = Some p" "cp_enabled p"
    "cl_policy c = apply_policy (client_settings c) p"
proof (rule authenticated_shape[OF assms(1)])
  fix s p
  assume p: "(case Option.bind (rs_extensions s) (resolve_frontend env) of
        Some plan \<Rightarrow> frontend_policy plan s r | None \<Rightarrow> native_policy s r) = Ok p"
    and c: "c = \<lparr>cl_settings = ar_settings r, cl_snapshot = s,
      cl_policy = (case ar_settings r of Some settings \<Rightarrow> apply_policy settings p | None \<Rightarrow> apply_policy (new_RequestSettings s) p),
      cl_authentication = Some (r\<lparr>ar_settings := None\<rparr>)\<rparr>"
  have "rs_client_policies s (cp_key_id p) = Some p \<and> cp_enabled p"
    using p frontend_policy_Ok[of _ s r p] policy_of_plaintext_iff(2)[of s] assms(2) c
    by (auto simp: native_policy_def split: option.splits)
  then show thesis
    using c by (intro that[of p]) (auto simp: client_settings_def apply_policy_facts split: option.splits)
qed

lemma authenticated_current:
  assumes "authenticate_request_without_usage env r = Ok c" "keyed (cl_snapshot c)"
  shows "current_client c"
  using authenticated_policy[OF assms] unfolding current_client_def by (metis apply_policy_facts(2))

text \<open>Without settings of its own a request is served with the limits and the speed that the key was given.\<close>

lemma apply_policy_unchanged:
  "cp_limits (apply_policy (new_RequestSettings s) p) = cs_limits (cp_defaults p)"
  "scope_disable_fast (cp_account_scope (apply_policy (new_RequestSettings s) p)) = cs_disable_fast (cp_defaults p)"
  by (simp_all add: apply_policy_def Let_def policy_with_settings_facts resolve_execution_def scope_of_key_def
      new_RequestSettings_def)

text \<open>A client that authenticated keeps the request it authenticated with, without settings.\<close>

lemma authenticated_request:
  assumes "authenticate_request_without_usage env r = Ok c"
  shows "cl_settings c = ar_settings r" "cl_authentication c = Some (r\<lparr>ar_settings := None\<rparr>)"
    "(case ar_settings r of Some settings \<Rightarrow> Some (rq_effective settings) | None \<Rightarrow> acquire_snapshot env)
       = Some (cl_snapshot c)"
  by (rule authenticated_shape[OF assms], simp)+

lemma new_PreparedRootExecution_Ok:
  assumes "new_PreparedRootExecution now request_id c = Ok r"
  shows "pr_client r = c" "pr_deadline_at r = now + int (client_execution_timeout c)"
  using assms by (auto simp: new_PreparedRootExecution_def checked_add_time_def split: option.splits if_splits)

text \<open>Preparing a request authenticates with the request the client once authenticated with.\<close>

lemma authentication_restored:
  "(case ar_settings q of Some settings \<Rightarrow> auth_with_settings (q\<lparr>ar_settings := None\<rparr>) settings
      | None \<Rightarrow> q\<lparr>ar_settings := None\<rparr>) = q"
  by (cases q) (auto simp: auth_with_settings_def split: option.splits)

lemma prepare_root_shape:
  assumes "prepare_root_execution_inner env now request_id c = (Ok r, used)"
    "authenticate_request_without_usage env0 q = Ok c"
  obtains "authenticate_request_without_usage env q = Ok (pr_client r)"
    "cp_key_id (cl_policy (pr_client r)) = cp_key_id (cl_policy c)" "used = [cp_key_id (cl_policy c)]"
    "new_PreparedRootExecution now request_id (pr_client r) = Ok r"
proof -
  obtain c' where c': "authenticate_request_without_usage env q = Ok c'"
    "cp_key_id (cl_policy c') = cp_key_id (cl_policy c)" "used = [cp_key_id (cl_policy c')]"
    "new_PreparedRootExecution now request_id c' = Ok r"
    using assms(1) unfolding prepare_root_execution_inner_def authenticated_request[OF assms(2)] option.case Let_def authentication_restored
    by (auto split: sum.splits if_splits)
  moreover have "pr_client r = c'"
    using new_PreparedRootExecution_Ok(1)[OF c'(4)] .
  ultimately show thesis using that by simp
qed

text \<open>C18: A client that authenticated earlier starts a request only if it authenticates again as the same key, against
  the snapshot its requests are bound to: the one published at that moment for a client without request settings, and
  the effective one that was frozen into its settings for a client with them (a later publication does not reach
  such a client). That snapshot has an enabled policy for the key, and the policy of the request is this one with the
  settings of the client applied - without settings, with the limits and the speed of the key as they are there. The
  request is authorised for exactly the accounts of that policy, the use of that key alone is reported, and the
  deadline is the start plus the timeout.\<close>

theorem prepared_root_is_current:
  assumes "authenticate_request_without_usage env0 q = Ok c"
    "prepare_root_execution_inner env now request_id c = (Ok r, used)" "keyed (cl_snapshot (pr_client r))"
  shows "cp_key_id (cl_policy (pr_client r)) = cp_key_id (cl_policy c) \<and> used = [cp_key_id (cl_policy c)]
    \<and> cl_settings (pr_client r) = cl_settings c
    \<and> (case cl_settings c of Some settings \<Rightarrow> Some (rq_effective settings) | None \<Rightarrow> acquire_snapshot env)
        = Some (cl_snapshot (pr_client r))
    \<and> (\<exists>p. rs_client_policies (cl_snapshot (pr_client r)) (cp_key_id (cl_policy c)) = Some p \<and> cp_enabled p
        \<and> cl_policy (pr_client r) = apply_policy (client_settings (pr_client r)) p
        \<and> (cl_settings c = None \<longrightarrow> cp_limits (cl_policy (pr_client r)) = cs_limits (cp_defaults p)
             \<and> scope_disable_fast (az_account_scope (root_authorization r)) = cs_disable_fast (cp_defaults p))
        \<and> (\<forall>a. allows (az_account_scope (root_authorization r)) a \<longleftrightarrow> allows (cp_account_scope p) a))
    \<and> az_account_scope (root_authorization r) = cp_account_scope (cl_policy (pr_client r))
    \<and> az_deadline_at (root_authorization r) = now + int (client_execution_timeout (pr_client r))"
proof (rule prepare_root_shape[OF assms(2,1)])
  assume again: "authenticate_request_without_usage env q = Ok (pr_client r)"
    and key: "cp_key_id (cl_policy (pr_client r)) = cp_key_id (cl_policy c)" "used = [cp_key_id (cl_policy c)]"
    and new: "new_PreparedRootExecution now request_id (pr_client r) = Ok r"
  have settings: "cl_settings (pr_client r) = cl_settings c"
    using authenticated_request(1)[OF again] authenticated_request(1)[OF assms(1)] by simp
  obtain p where p: "rs_client_policies (cl_snapshot (pr_client r)) (cp_key_id (cl_policy (pr_client r))) = Some p"
    "cp_enabled p" "cl_policy (pr_client r) = apply_policy (client_settings (pr_client r)) p"
    by (rule authenticated_policy[OF again assms(3)])
  have scope: "az_account_scope (root_authorization r) = cp_account_scope (cl_policy (pr_client r))"
    "az_deadline_at (root_authorization r) = now + int (client_execution_timeout (pr_client r))"
    using new_PreparedRootExecution_Ok(2)[OF new] by (simp_all add: root_authorization_def)
  have "allows (az_account_scope (root_authorization r)) = allows (cp_account_scope p)"
    unfolding scope(1) p(3) by (rule apply_policy_facts(2))
  moreover have "cp_limits (cl_policy (pr_client r)) = cs_limits (cp_defaults p)
      \<and> scope_disable_fast (az_account_scope (root_authorization r)) = cs_disable_fast (cp_defaults p)" if "cl_settings c = None"
    using that settings unfolding scope(1) p(3) by (simp add: client_settings_def apply_policy_unchanged)
  moreover note authenticated_request(3)[OF again] authenticated_request(1)[OF assms(1)]
  ultimately show ?thesis
    using key settings scope p by simp
qed

text \<open>C19: A key that is gone or disabled in the snapshot its requests are bound to - the published one for a client
  without request settings, the frozen effective one for a client with them - starts no request and has no use
  reported, however it authenticated before and whatever a frontend plugin answers; and as long as that snapshot says
  so, no identity can be made of its id with these settings. (An identity that was bound earlier is not checked again,
  and settings that froze a snapshot in which the key was enabled keep it enabled for their requests.)\<close>

theorem revoked_key_starts_nothing:
  assumes "authenticate_request_without_usage env0 q = Ok c"
    "(case cl_settings c of Some settings \<Rightarrow> Some (rq_effective settings) | None \<Rightarrow> acquire_snapshot env) = Some s"
    "keyed s" "is_none_or (rs_client_policies s (cp_key_id (cl_policy c))) (\<lambda>p. \<not> cp_enabled p)"
  shows "(\<exists>e. prepare_root_execution_inner env now request_id c = (Err e, []))
    \<and> (\<exists>e. client_for_key_id env refreshed (cp_key_id (cl_policy c)) (cl_settings c) = Err e)"
proof
  have "cp_key_id (cl_policy c') \<noteq> cp_key_id (cl_policy c)"
    if c': "authenticate_request_without_usage env q = Ok c'" for c'
  proof -
    have "cl_snapshot c' = s"
      using authenticated_request(3)[OF c'] authenticated_request(1)[OF assms(1)] assms(2) by simp
    then have "current_client c'"
      using authenticated_current[OF c'] assms(3) by simp
    then show ?thesis
      using \<open>cl_snapshot c' = s\<close> assms(4) by (auto simp: current_client_def)
  qed
  then show "\<exists>e. prepare_root_execution_inner env now request_id c = (Err e, [])"
    unfolding prepare_root_execution_inner_def authenticated_request[OF assms(1)] option.case Let_def authentication_restored
    by (cases "authenticate_request_without_usage env q") auto
  show "\<exists>e. client_for_key_id env refreshed (cp_key_id (cl_policy c)) (cl_settings c) = Err e"
    using assms(2,4) unfolding client_for_key_id_def assms(2)
    by (auto simp: is_none_or_iff authorize_enabled split: option.splits)
qed

lemma graphic_trim:
  assumes "list_all is_ascii_graphic t"
  shows "trim t = t"
proof -
  have "\<exists>c \<in> set w. \<not> is_ascii_graphic c" if "w \<in> set whitespace" for w
    using that by (auto simp: whitespace_def is_ascii_graphic_def byte_def)
  then have "\<not> set w \<subseteq> set t" if "w \<in> set whitespace" for w
    using that assms by (auto simp: list_all_iff)
  then have "List.find (\<lambda>w. prefix w t) whitespace = None" "List.find (\<lambda>w. suffix w t) whitespace = None"
    by (auto simp: find_None_iff dest: set_mono_prefix set_mono_suffix)
  then show ?thesis
    by (simp add: trim_def trim_start.simps[of t] trim_end.simps[of t])
qed

text \<open>Where no frontend plugin is configured, checking a plaintext key and checking the
  \<open>Authorization\<close> header that carries it find the same client.\<close>

theorem plaintext_and_header_agree:
  fixes env :: "'v AccessEnv"
  assumes "t \<noteq> []" "list_all is_ascii_graphic t" "length t + 7 \<le> MAXIMUM_AUTHORIZATION_BYTES"
    "acquire_snapshot env = Some s" "Option.bind (rs_extensions s) (resolve_frontend env) = None"
  shows "\<exists>r. bearer t = Ok r \<and> authenticate_request_without_usage env r = authenticate_without_usage env t"
proof -
  have bytes: "list_all (\<lambda>c. of_char c < (128 :: nat)) (''Bearer '' @ t)" "\<not> has_control (''Bearer '' @ t)"
    using assms(2) by (induction t) (auto simp: is_ascii_graphic_def is_ascii_control_def byte_def)
  have "bearer_text (''Bearer '' @ t) = Some t"
    by (simp add: bearer_text_def)
  moreover have "trim t = t"
    using assms(2) by (rule graphic_trim)
  moreover have "new_PlaintextClientApiKey t = Ok (PlaintextClientApiKey t)"
    using assms(1,2) by (simp add: guard_simps)
  ultimately obtain r :: "'v ClientAuthenticationRequest" where r: "bearer t = Ok r" "ar_settings r = None"
    "ar_native_bearer r = Some (PlaintextClientApiKey t)"
    using assms(1,3) bytes by (simp add: bearer_def new_ClientAuthenticationRequest_def)
  then have "r\<lparr>ar_settings := None\<rparr> = r" by simp
  with r assms(4,5) show ?thesis
    by (auto simp: authenticate_request_without_usage_def authenticate_without_usage_def native_policy_def
        split: sum.splits)
qed


section \<open>Narrowing\<close>

text \<open>A narrowed scope allows what its parent allows less the account of the parent's attempt; an account that
  is asked for is in it and belongs to the provider that is required then.\<close>

lemma restrict_scope_exact:
  assumes "restrict_model_execution_scope s provider account parent = Ok (t, required)"
  shows "\<And>a. allows t a \<longleftrightarrow> allows s a \<and> Some a \<noteq> parent"
    "\<And>a. account = Some a \<Longrightarrow> allows t a \<and> scope_account_provider t a = required"
    "\<And>p. provider = Some p \<Longrightarrow> required = Some p"
    "\<And>p. required = Some p \<Longrightarrow> p \<in> scope_provider_kinds s"
    "scope_provider_kinds t = scope_provider_kinds s"
  using assms
  by (auto simp: restrict_model_execution_scope_def Let_def frozen.allows_exclude is_some_and_iff
      split: option.splits if_splits sum.splits)

lemma extending_Some:
  "extending scope i = Some t \<longleftrightarrow> i \<notin> scope \<and> t = insert i scope"
  by (auto simp: extending_def)

lemma nested_shape:
  assumes "nested_authorization registry now g r = (Ok (c, az), g')"
  obtains parent where "active_request registry now (nm_parent_request_id r) = Ok parent"
    "registry (nm_parent_request_id r) = Some parent" "now < aa_deadline_at parent"
    "card (aa_extension_scope parent) < MAXIMUM_DEPTH" "nm_plugin_instance_id r \<notin> aa_extension_scope parent"
    "az_extension_scope az = insert (nm_plugin_instance_id r) (aa_extension_scope parent)"
    "restrict_model_execution_scope (aa_account_scope parent) (nm_provider r) (nm_account r) (nm_parent_account r)
       = Ok (az_account_scope az, az_required_provider az)"
    "az_required_account az = nm_account r" "az_deadline_at az = aa_deadline_at parent" "c = aa_client parent"
    "fst (acquire_permit g) = Ok ()"
    "g' = (snd (acquire_permit g))\<lparr>graph_effects := observe_effect (graph_effects g)\<rparr>"
    "az_execution_effects_baseline az = graph_effects g'"
proof -
  obtain parent where parent: "active_request registry now (nm_parent_request_id r) = Ok parent"
    using assms by (auto simp: nested_authorization_def split: sum.splits)
  have "registry (nm_parent_request_id r) = Some parent" "now < aa_deadline_at parent"
    using parent by (auto simp: active_request_def duration_since_def split: option.splits if_splits)
  moreover have "graph_effects (snd (acquire_permit g)) = graph_effects g"
    by (simp add: acquire_permit_def acquire_active_def acquire_total_def release_permit_def)
  ultimately show thesis
    using parent assms
    by (intro that[of parent])
      (auto simp: nested_authorization_def extending_Some Let_def split: option.splits if_splits sum.splits prod.splits)
qed

text \<open>A chain of requests, each started by a plugin inside the one before.\<close>

inductive nests :: "'v ActiveRequestAuthority \<Rightarrow> nat \<Rightarrow> 'v ActiveRequestAuthority \<Rightarrow> bool" for origin where
  here: "nests origin 0 origin"
| inside: "nests origin n parent \<Longrightarrow> registry (nm_parent_request_id r) = Some parent
    \<Longrightarrow> nested_authorization registry now g r = (Ok (c, az), g')
    \<Longrightarrow> nests origin (Suc n) (registered_authority c az)"

text \<open>C31: However plugins start requests inside requests, at most four of them are nested, no plugin takes part
  twice, and every one of them keeps the client and the deadline of the first and stays within the first one's account
  scope.\<close>

theorem nesting_is_bounded_and_narrows:
  assumes "nests origin n a" "finite (aa_extension_scope origin)"
  shows "(n = 0 \<or> card (aa_extension_scope origin) + n \<le> MAXIMUM_DEPTH)
    \<and> card (aa_extension_scope a) = card (aa_extension_scope origin) + n
    \<and> aa_extension_scope origin \<subseteq> aa_extension_scope a
    \<and> aa_client a = aa_client origin \<and> aa_deadline_at a = aa_deadline_at origin
    \<and> {x. allows (aa_account_scope a) x} \<subseteq> {x. allows (aa_account_scope origin) x}"
proof -
  have "finite (aa_extension_scope a) \<and> (n = 0 \<or> card (aa_extension_scope origin) + n \<le> MAXIMUM_DEPTH)
    \<and> card (aa_extension_scope a) = card (aa_extension_scope origin) + n
    \<and> aa_extension_scope origin \<subseteq> aa_extension_scope a
    \<and> aa_client a = aa_client origin \<and> aa_deadline_at a = aa_deadline_at origin
    \<and> {x. allows (aa_account_scope a) x} \<subseteq> {x. allows (aa_account_scope origin) x}"
    using assms(1)
  proof induction
    case (inside n parent registry r now g c az g')
    obtain parent' where "registry (nm_parent_request_id r) = Some parent'"
      "card (aa_extension_scope parent') < MAXIMUM_DEPTH" "nm_plugin_instance_id r \<notin> aa_extension_scope parent'"
      "az_extension_scope az = insert (nm_plugin_instance_id r) (aa_extension_scope parent')"
      and scope: "restrict_model_execution_scope (aa_account_scope parent') (nm_provider r) (nm_account r) (nm_parent_account r)
       = Ok (az_account_scope az, az_required_provider az)"
      and "az_deadline_at az = aa_deadline_at parent'" "c = aa_client parent'"
      by (rule nested_shape[OF inside(3)])
    with inside.IH inside(2) show ?case
      using restrict_scope_exact(1)[OF scope] by (auto simp: registered_authority_def)
  qed (simp add: assms(2))
  then show ?thesis by simp
qed


section \<open>The execution graph\<close>

text \<open>
  One graph is shared by a root request and everything nested in it. Its callers interleave: a caller that has
  counted itself active is pending until it has counted itself started, and gives its place back when the total is
  used up; a started one is live until its permit is released.
\<close>

record GraphState =
  gs_graph :: NestedExecutionGraph
  gs_pending :: nat
  gs_live :: nat
  gs_granted :: nat

definition init_graph_state :: GraphState where
  "init_graph_state = \<lparr>gs_graph = new_graph 0, gs_pending = 0, gs_live = 0, gs_granted = 0\<rparr>"

inductive graph_step :: "GraphState \<Rightarrow> GraphState \<Rightarrow> bool" where
  enters: "acquire_active (gs_graph s) = Ok g
    \<Longrightarrow> graph_step s (s\<lparr>gs_graph := g, gs_pending := gs_pending s + 1\<rparr>)"
| refused: "acquire_active (gs_graph s) = Err e \<Longrightarrow> graph_step s s"
| granted: "0 < gs_pending s \<Longrightarrow> acquire_total (gs_graph s) = (Ok (), g)
    \<Longrightarrow> graph_step s (s\<lparr>gs_graph := g, gs_pending := gs_pending s - 1, gs_live := gs_live s + 1,
          gs_granted := gs_granted s + 1\<rparr>)"
| exhausted: "0 < gs_pending s \<Longrightarrow> acquire_total (gs_graph s) = (Err e, g)
    \<Longrightarrow> graph_step s (s\<lparr>gs_graph := g, gs_pending := gs_pending s - 1\<rparr>)"
| released: "0 < gs_live s
    \<Longrightarrow> graph_step s (s\<lparr>gs_graph := release_permit (gs_graph s), gs_live := gs_live s - 1\<rparr>)"

definition graph_inv :: "GraphState \<Rightarrow> bool" where
  "graph_inv s \<longleftrightarrow> graph_active (gs_graph s) = gs_pending s + gs_live s
     \<and> graph_active (gs_graph s) \<le> MAX_CONCURRENT_NESTED_EXECUTIONS
     \<and> total_started (gs_graph s) = gs_granted s \<and> gs_granted s \<le> MAX_NESTED_EXECUTIONS"

lemma graph_step_inv: "graph_step s t \<Longrightarrow> graph_inv s \<Longrightarrow> graph_inv t"
  by (induction rule: graph_step.induct)
    (auto simp: graph_inv_def acquire_active_def acquire_total_def release_permit_def split: if_splits)

lemma graph_steps_inv: "graph_step\<^sup>*\<^sup>* s t \<Longrightarrow> graph_inv s \<Longrightarrow> graph_inv t"
  by (induction rule: rtranclp_induct) (auto intro: graph_step_inv)

lemma graph_init_inv: "graph_inv init_graph_state"
  by (simp add: graph_inv_def init_graph_state_def new_graph_def)

text \<open>C20: Under every interleaving of its callers a graph runs at most four nested requests at a time and
  sixteen in all, it counts exactly the callers that are pending or live, so a refused or exhausted caller leaves
  no place behind, and once all have been released a caller is refused only when all sixteen were granted.\<close>

theorem nested_graph_never_leaks:
  assumes "graph_step\<^sup>*\<^sup>* init_graph_state s"
  shows "gs_pending s + gs_live s \<le> MAX_CONCURRENT_NESTED_EXECUTIONS
    \<and> graph_active (gs_graph s) = gs_pending s + gs_live s
    \<and> gs_granted s \<le> MAX_NESTED_EXECUTIONS
    \<and> (gs_pending s + gs_live s = 0 \<longrightarrow>
         (fst (acquire_permit (gs_graph s)) \<noteq> Ok ()) = (gs_granted s = MAX_NESTED_EXECUTIONS))"
  using graph_steps_inv[OF assms graph_init_inv]
  by (auto simp: graph_inv_def acquire_permit_def acquire_active_def acquire_total_def
      MAX_CONCURRENT_NESTED_EXECUTIONS_def)


section \<open>Examples\<close>

definition sample_access :: "nat CompiledSettings \<Rightarrow> nat AccessEnv" where
  "sample_access c = \<lparr>acquire_snapshot = Some (sample_snapshot c), resolve_frontend = (\<lambda>_. None)\<rparr>"

definition sample_request :: "nat ClientAuthenticationRequest" where
  "sample_request = \<lparr>ar_settings = None, ar_authorization = ''Bearer sk-1'',
     ar_native_bearer = Some (PlaintextClientApiKey ''sk-1'')\<rparr>"

definition sample_identity :: "nat CompiledSettings \<Rightarrow> nat AuthenticatedClient" where
  "sample_identity c =
     \<lparr>cl_settings = None, cl_snapshot = sample_snapshot c,
      cl_policy = apply_policy (new_RequestSettings (sample_snapshot c)) sample_client,
      cl_authentication = Some sample_request\<rparr>"

lemma sample_keyed: "keyed (sample_snapshot c)"
  by (simp add: keyed_def sample_snapshot_def new_ClientPolicy_def)

lemma sample_key_id: "cp_key_id (cl_policy (sample_identity c)) = ClientApiKeyId ''k''"
  by (simp add: sample_identity_def apply_policy_facts sample_client_def new_ClientPolicy_def)

lemma sample_authenticates:
  "policy_of_plaintext (sample_snapshot c) ''sk-1'' = Ok sample_client"
  "authenticate_request_without_usage (sample_access c) sample_request = Ok (sample_identity c)"
proof -
  have "client_policies (sample_snapshot c) = [sample_client]"
    by (simp add: client_policies_def sample_snapshot_def sample_client_def)
  then show policy: "policy_of_plaintext (sample_snapshot c) ''sk-1'' = Ok sample_client"
    by (simp add: policy_of_plaintext_def constant_time_equal_iff authorize_def sample_client_def new_ClientPolicy_def)
  have "Option.bind (rs_extensions (sample_snapshot c)) (resolve_frontend (sample_access c)) = None"
    by (simp add: sample_snapshot_def sample_access_def)
  with policy show "authenticate_request_without_usage (sample_access c) sample_request = Ok (sample_identity c)"
    by (simp add: authenticate_request_without_usage_def native_policy_def sample_request_def sample_access_def
        sample_identity_def)
qed

lemma sample_prepares:
  obtains r where "prepare_root_execution_inner (sample_access c) 0 request_id (sample_identity c)
      = (Ok r, [ClientApiKeyId ''k''])" "pr_client r = sample_identity c"
proof -
  have "cl_authentication (sample_identity c) = Some sample_request" "cl_settings (sample_identity c) = None"
    by (simp_all add: sample_identity_def)
  moreover have timeout: "client_execution_timeout (sample_identity c) = 600 * 1000000000"
    by (simp add: client_execution_timeout_def sample_identity_def MODEL_REQUEST_DEADLINE_def from_secs_def NANOS_PER_SEC_def)
  ultimately show thesis
    using that sample_key_id sample_authenticates(2)[of c]
    by (simp add: prepare_root_execution_inner_def new_PreparedRootExecution_def checked_add_time_def NANOS_PER_SEC_def)
qed

theorem prepared_root_is_current_witness:
  "\<exists>c r. prepare_root_execution_inner (sample_access c) 0 (ModelRequestId ''r'') (sample_identity c)
      = (Ok r, [ClientApiKeyId ''k''])
    \<and> (\<exists>p. rs_client_policies (cl_snapshot (pr_client r)) (ClientApiKeyId ''k'') = Some p \<and> cp_enabled p)"
proof -
  fix c
  obtain r where r: "prepare_root_execution_inner (sample_access c) 0 (ModelRequestId ''r'') (sample_identity c)
      = (Ok r, [ClientApiKeyId ''k''])" "pr_client r = sample_identity c"
    by (rule sample_prepares)
  moreover have "keyed (cl_snapshot (pr_client r))"
    using sample_keyed by (simp add: r(2) sample_identity_def)
  ultimately show ?thesis
    using prepared_root_is_current[OF sample_authenticates(2) r(1)] unfolding sample_key_id by blast
qed

theorem revoked_key_starts_nothing_witness:
  "\<exists>c e. authenticate_request_without_usage (sample_access c) sample_request = Ok (sample_identity c)
    \<and> prepare_root_execution_inner
        ((sample_access c)\<lparr>acquire_snapshot := Some ((sample_snapshot c)\<lparr>rs_client_policies := Map.empty\<rparr>)\<rparr>)
        0 (ModelRequestId ''r'') (sample_identity c) = (Err e, [])"
proof -
  fix c
  have "(case cl_settings (sample_identity c) of Some settings \<Rightarrow> Some (rq_effective settings)
      | None \<Rightarrow> acquire_snapshot ((sample_access c)\<lparr>acquire_snapshot := Some ((sample_snapshot c)\<lparr>rs_client_policies := Map.empty\<rparr>)\<rparr>))
      = Some ((sample_snapshot c)\<lparr>rs_client_policies := Map.empty\<rparr>)"
    by (simp add: sample_identity_def)
  moreover have "keyed ((sample_snapshot c)\<lparr>rs_client_policies := Map.empty\<rparr>)"
    by (simp add: keyed_def)
  ultimately show ?thesis
    using revoked_key_starts_nothing[OF sample_authenticates(2)] sample_authenticates(2) by fastforce
qed

theorem plaintext_and_header_agree_witness:
  "\<exists>c r. bearer ''sk-1'' = Ok r
    \<and> authenticate_request_without_usage (sample_access c) r = authenticate_without_usage (sample_access c) ''sk-1''"
proof -
  fix c
  have "list_all is_ascii_graphic ''sk-1''" by code_simp
  moreover have "Option.bind (rs_extensions (sample_snapshot c)) (resolve_frontend (sample_access c)) = None"
    by (simp add: sample_snapshot_def sample_access_def)
  ultimately show ?thesis
    using plaintext_and_header_agree[of "''sk-1''" "sample_access c" "sample_snapshot c"]
    by (auto simp: MAXIMUM_AUTHORIZATION_BYTES_def sample_access_def)
qed

definition sample_nested :: NestedModelExecutionRequest where
  "sample_nested = \<lparr>nm_parent_request_id = ModelRequestId ''r'', nm_plugin_instance_id = ''p'', nm_provider = None,
     nm_account = None, nm_parent_account = None\<rparr>"

definition sample_parent :: "nat CompiledSettings \<Rightarrow> nat ActiveRequestAuthority" where
  "sample_parent c = \<lparr>aa_client = sample_identity c, aa_account_scope = sample_scope, aa_deadline_at = 10,
     aa_cancelled = False, aa_extension_scope = {}\<rparr>"

theorem nesting_is_bounded_and_narrows_witness:
  "\<exists>c a. nests (sample_parent c) 1 a \<and> card (aa_extension_scope a) = 1
     \<and> {x. allows (aa_account_scope a) x} \<subseteq> {x. allows sample_scope x}"
proof -
  fix c
  have "\<exists>az g'. nested_authorization [ModelRequestId ''r'' \<mapsto> sample_parent c] 0 (new_graph 0) sample_nested
      = (Ok (sample_identity c, az), g')"
    by (simp add: nested_authorization_def active_request_def sample_nested_def sample_parent_def duration_since_def
        MAXIMUM_DEPTH_def extending_def restrict_model_execution_scope_def sample_scope_fields acquire_permit_def
        acquire_active_def acquire_total_def new_graph_def MAX_NESTED_EXECUTIONS_def MAX_CONCURRENT_NESTED_EXECUTIONS_def)
  then obtain az g' where az: "nested_authorization [ModelRequestId ''r'' \<mapsto> sample_parent c] 0 (new_graph 0) sample_nested
      = (Ok (sample_identity c, az), g')"
    by blast
  have "nests (sample_parent c) (Suc 0) (registered_authority (sample_identity c) az)"
    using nests.inside[OF nests.here _ az] by (simp add: sample_nested_def)
  then show ?thesis
    using nesting_is_bounded_and_narrows[of "sample_parent c" "Suc 0" "registered_authority (sample_identity c) az"]
    by (auto simp: sample_parent_def)
qed

theorem nested_graph_never_leaks_witness:
  "\<exists>s. graph_step\<^sup>*\<^sup>* init_graph_state s \<and> gs_live s = 1 \<and> graph_active (gs_graph s) = 1"
proof -
  define s where "s = init_graph_state\<lparr>gs_graph := \<lparr>total_started = 0, graph_active = 1, graph_effects = 0\<rparr>, gs_pending := 1\<rparr>"
  define t where "t = s\<lparr>gs_graph := \<lparr>total_started = 1, graph_active = 1, graph_effects = 0\<rparr>, gs_pending := 0, gs_live := 1, gs_granted := 1\<rparr>"
  have "graph_step init_graph_state s"
    using graph_step.enters[of init_graph_state "\<lparr>total_started = 0, graph_active = 1, graph_effects = 0\<rparr>"]
    by (simp add: s_def init_graph_state_def acquire_active_def new_graph_def MAX_CONCURRENT_NESTED_EXECUTIONS_def)
  moreover have "graph_step s t"
    using graph_step.granted[of s "\<lparr>total_started = 1, graph_active = 1, graph_effects = 0\<rparr>"]
    by (simp add: s_def t_def init_graph_state_def acquire_total_def MAX_NESTED_EXECUTIONS_def)
  ultimately have "graph_step\<^sup>*\<^sup>* init_graph_state t"
    by (meson converse_rtranclp_into_rtranclp r_into_rtranclp)
  then show ?thesis
    using nested_graph_never_leaks[of t] by (auto simp: t_def s_def intro!: exI[of _ t])
qed

end
