(* ===== verification/Execution_Lease.thy ===== *)
theory Execution_Lease
  imports Request_Access Coordinator_Loops
begin

text \<open>
  What a running request holds besides its session, and how it gives it back: the second half of
  \<open>gateway-core/src/engine/execution.rs\<close> (\<open>AdmissionLease\<close>, \<open>ExecutionAdmission\<close>,
  \<open>DefaultExecutionSession\<close>) and the port types of \<open>engine/admission.rs\<close>.

  Every call to a port and every guard that is released is an effect in a log. The cleanup of a finished
  request is a future that the session keeps: a caller may drop any call while it waits, and a later call
  resumes the same future. A cut says how many waits of the cleanup end before the call is dropped.
\<close>

section \<open>Ports\<close>

datatype ClientAdmissionRejection = AdmissionRateLimited | ConcurrencyLimited

datatype ClientAdmissionDecision = Granted | AdmissionRejected ClientAdmissionRejection

text \<open>The answer of the admission port: its decision, its failure, or the deadline passing first.\<close>

datatype AdmissionAnswer = AdmitDecided ClientAdmissionDecision | AdmitFailed | AdmitTimedOut

datatype Effect =
    AdmitCall AdmissionAnswer
  | ReleaseCall
  | AbandonCall
  | PermitReleased
  | BudgetChecked bool
  | BudgetSettled ClientBudgetCharge
  | ActiveRegistered
  | ActiveReleased
  | EntryRejected GatewayError
  | ContinuationRecorded NativeContinuationPin


section \<open>Admissions\<close>

text \<open>\<open>ExecutionAdmission\<close>: a lease of the client key, a permit of the execution graph, or both.\<close>

datatype ExecutionAdmission = ClientLease | NestedPermit | BoundLease

fun release_admission :: "ExecutionAdmission \<Rightarrow> Effect list" where
  "release_admission ClientLease = [ReleaseCall]"
| "release_admission NestedPermit = [PermitReleased]"
| "release_admission BoundLease = [ReleaseCall, PermitReleased]"

text \<open>An armed lease that is dropped is abandoned to the port; a dropped permit is released.\<close>

fun drop_admission :: "ExecutionAdmission \<Rightarrow> Effect list" where
  "drop_admission ClientLease = [AbandonCall]"
| "drop_admission NestedPermit = [PermitReleased]"
| "drop_admission BoundLease = [AbandonCall, PermitReleased]"


section \<open>The session with its leases\<close>

record DefaultExecutionSession =
  des_core :: Session
  des_admission :: "ExecutionAdmission option"
  des_active_request :: bool
  des_cleanup :: "(Effect option \<times> Effect list) option"
  des_continuation_recorded :: bool
  des_budget :: bool
  des_log :: "Effect list"

definition new_DefaultExecutionSession ::
  "Session \<Rightarrow> ExecutionAdmission \<Rightarrow> bool \<Rightarrow> bool \<Rightarrow> Effect list \<Rightarrow> DefaultExecutionSession" where
  "new_DefaultExecutionSession core admission active budget effects =
     \<lparr>des_core = core, des_admission = Some admission, des_active_request = active, des_cleanup = None,
      des_continuation_recorded = False, des_budget = budget, des_log = effects\<rparr>"

text \<open>
  A cleanup is the effect that is in flight and the effects that are still to come. Releasing a permit does not
  wait; every other effect is a call that may be cut.
\<close>

fun advance :: "nat \<Rightarrow> Effect list \<Rightarrow> Effect list \<times> (Effect option \<times> Effect list) option" where
  "advance n [] = ([], None)"
| "advance n (e # es) =
     (if e = PermitReleased then (let (done_effects, left) = advance n es in (e # done_effects, left))
      else case n of
             0 \<Rightarrow> ([e], Some (Some e, es))
           | Suc m \<Rightarrow> (let (done_effects, left) = advance m es in (e # done_effects, left)))"

definition run_cleanup ::
  "nat option \<Rightarrow> Effect option \<times> Effect list \<Rightarrow> Effect list \<times> (Effect option \<times> Effect list) option" where
  "run_cleanup until cleanup =
     (case until of
        None \<Rightarrow> (snd cleanup, None)
      | Some n \<Rightarrow>
          (case fst cleanup of
             None \<Rightarrow> advance n (snd cleanup)
           | Some e \<Rightarrow> (case n of 0 \<Rightarrow> ([], Some cleanup) | Suc m \<Rightarrow> advance m (snd cleanup))))"

text \<open>Before its first wait the settlement moves everything the request holds into the cleanup.\<close>

definition take_over_cleanup :: "World \<Rightarrow> DefaultExecutionSession \<Rightarrow> DefaultExecutionSession" where
  "take_over_cleanup w d =
     (if is_finalized (des_core d)
      then case des_admission d of
             None \<Rightarrow> d
           | Some admission \<Rightarrow>
               d\<lparr>des_admission := None, des_active_request := False, des_budget := False,
                 des_cleanup := Some (None,
                   (if des_budget d then [BudgetSettled (budget_charge w (des_core d))] else [])
                   @ release_admission admission),
                 des_log := des_log d @ (if des_active_request d then [ActiveReleased] else [])\<rparr>
      else d)"

definition settle_if_finalized :: "World \<Rightarrow> nat option \<Rightarrow> DefaultExecutionSession \<Rightarrow> DefaultExecutionSession" where
  "settle_if_finalized w until d =
     (let d = take_over_cleanup w d in
      case des_cleanup d of
        None \<Rightarrow> d
      | Some cleanup \<Rightarrow>
          (let (effects, left) = run_cleanup until cleanup
           in d\<lparr>des_cleanup := left, des_log := des_log d @ effects\<rparr>))"

definition record_continuation ::
  "ProviderSessionState option \<Rightarrow> DefaultExecutionSession \<Rightarrow> DefaultExecutionSession" where
  "record_continuation state d =
     (if des_continuation_recorded d then d
      else case state of
             None \<Rightarrow> d
           | Some state \<Rightarrow>
               (case native_continuation_pin state (des_core d) of
                  None \<Rightarrow> d
                | Some pin \<Rightarrow>
                    d\<lparr>des_continuation_recorded := True, des_log := des_log d @ [ContinuationRecorded pin]\<rparr>))"

text \<open>Where a call is dropped: not at all, while a continuation is written, or in the cleanup.\<close>

datatype Cut = Uncut | CutRecording | CutCleanup nat

fun cleanup_cut :: "Cut \<Rightarrow> nat option" where
  "cleanup_cut (CutCleanup n) = Some n"
| "cleanup_cut _ = None"

definition record_and_settle ::
  "World \<Rightarrow> Cut \<Rightarrow> ProviderSessionState option \<Rightarrow> DefaultExecutionSession \<Rightarrow> DefaultExecutionSession" where
  "record_and_settle w until state d =
     (let d' = record_continuation state d in
      if until = CutRecording \<and> des_continuation_recorded d' \<noteq> des_continuation_recorded d then d'
      else settle_if_finalized w (cleanup_cut until) d')"

definition first_session_update :: "ProviderEvent list \<Rightarrow> ProviderSessionState option" where
  "first_session_update events =
     Option.bind (List.find (\<lambda>event. pev_session_update event \<noteq> None) events) pev_session_update"

definition lease_next_event ::
  "World \<Rightarrow> Cut \<Rightarrow> DefaultExecutionSession
   \<Rightarrow> ((EngineError + CoordinatedEvent option) \<times> DefaultExecutionSession) option" where
  "lease_next_event w until d =
     (case next_event w (des_core d) of
        None \<Rightarrow> None
      | Some (result, core) \<Rightarrow>
          let state = (case result of Inr (Some event) \<Rightarrow> first_session_update (ce_events event) | _ \<Rightarrow> None)
          in Some (result, record_and_settle w until state (d\<lparr>des_core := core\<rparr>)))"

definition lease_collect_uncommitted ::
  "World \<Rightarrow> Cut \<Rightarrow> DefaultExecutionSession
   \<Rightarrow> ((EngineError + ProviderEvent list) \<times> DefaultExecutionSession) option" where
  "lease_collect_uncommitted w until d =
     (case collect_uncommitted w (des_core d) of
        None \<Rightarrow> None
      | Some (result, core) \<Rightarrow>
          let state = (case result of Inr events \<Rightarrow> first_session_update events | _ \<Rightarrow> None)
          in Some (result, record_and_settle w until state (d\<lparr>des_core := core\<rparr>)))"

definition lease_commit_downstream ::
  "World \<Rightarrow> Cut \<Rightarrow> nat option \<Rightarrow> DefaultExecutionSession \<Rightarrow> (EngineError + unit) \<times> DefaultExecutionSession" where
  "lease_commit_downstream w until code d =
     (let (result, core) = commit_downstream w code (des_core d)
      in (result, settle_if_finalized w (cleanup_cut until) (d\<lparr>des_core := core\<rparr>)))"

definition lease_record_client_status ::
  "World \<Rightarrow> Cut \<Rightarrow> nat \<Rightarrow> DefaultExecutionSession \<Rightarrow> (EngineError + unit) \<times> DefaultExecutionSession" where
  "lease_record_client_status w until code d =
     (let (result, core) = record_client_status w code (des_core d)
      in (result, settle_if_finalized w (cleanup_cut until) (d\<lparr>des_core := core\<rparr>)))"

definition lease_discard_pending_delivery ::
  "DefaultExecutionSession \<Rightarrow> (EngineError + unit) \<times> DefaultExecutionSession" where
  "lease_discard_pending_delivery d =
     (let (result, core) = discard_pending_delivery (des_core d) in (result, d\<lparr>des_core := core\<rparr>))"

definition finalize_detached :: "World \<Rightarrow> Cut \<Rightarrow> DefaultExecutionSession \<Rightarrow> DefaultExecutionSession" where
  "finalize_detached w until d =
     settle_if_finalized w (cleanup_cut until) (d\<lparr>des_core := cancel_and_finalize w (des_core d)\<rparr>)"

definition lease_is_finalized :: "DefaultExecutionSession \<Rightarrow> bool" where
  "lease_is_finalized d \<longleftrightarrow>
     is_finalized (des_core d) \<and> des_admission d = None \<and> \<not> des_active_request d \<and> des_cleanup d = None"

text \<open>
  Dropping the session drops the active request, then the admission or the cleanup future with the lease and the
  permit it still owns.
\<close>

definition dropped_effects :: "DefaultExecutionSession \<Rightarrow> Effect list" where
  "dropped_effects d =
     (if des_active_request d then [ActiveReleased] else [])
     @ (case des_admission d of Some admission \<Rightarrow> drop_admission admission | None \<Rightarrow> [])
     @ (case des_cleanup d of
          None \<Rightarrow> []
        | Some (begun, rest) \<Rightarrow>
            (if begun = Some ReleaseCall \<or> ReleaseCall \<in> set rest then [AbandonCall] else [])
            @ (if PermitReleased \<in> set rest then [PermitReleased] else []))"


section \<open>Giving back\<close>

definition closing :: "Effect \<Rightarrow> bool" where
  "closing e \<longleftrightarrow> (case e of ReleaseCall \<Rightarrow> True | AbandonCall \<Rightarrow> True | PermitReleased \<Rightarrow> True
                    | BudgetSettled _ \<Rightarrow> True | _ \<Rightarrow> False)"

text \<open>What a finished request does to the ports: it pays first and gives its place back then.\<close>

definition closing_plan :: "ExecutionAdmission \<Rightarrow> bool \<Rightarrow> ClientBudgetCharge \<Rightarrow> Effect list" where
  "closing_plan admission budget charge =
     (if budget then [BudgetSettled charge] else []) @ release_admission admission"

lemma closing_simps [simp]:
  "closing ReleaseCall" "closing AbandonCall" "closing PermitReleased" "closing (BudgetSettled c)"
  "\<not> closing (AdmitCall a)" "\<not> closing (BudgetChecked b)" "\<not> closing ActiveRegistered"
  "\<not> closing ActiveReleased" "\<not> closing (EntryRejected g)" "\<not> closing (ContinuationRecorded p)"
  by (simp_all add: closing_def)

lemma closing_plan_all: "list_all closing (closing_plan a b c)"
  by (cases a) (simp_all add: closing_plan_def)

definition remaining_effects :: "(Effect option \<times> Effect list) option \<Rightarrow> Effect list" where
  "remaining_effects cleanup = (case cleanup of None \<Rightarrow> [] | Some (_, rest) \<Rightarrow> rest)"

lemma remaining_effects_simps [simp]:
  "remaining_effects None = []" "remaining_effects (Some (f, rest)) = rest"
  by (simp_all add: remaining_effects_def)

text \<open>A cut cleanup has done a first part of what was left.\<close>

lemma advance_splits: "advance n es = (l, c) \<Longrightarrow> l @ remaining_effects c = es"
proof (induction n es arbitrary: l c rule: advance.induct)
  case (2 n e es)
  then show ?case
    by (cases "advance n es"; cases n; cases "advance (n - 1) es") (auto split: if_splits)
qed simp

lemma run_cleanup_splits:
  assumes "run_cleanup until (f, rest) = (l, c)"
  shows "l @ remaining_effects c = rest" "until = None \<Longrightarrow> c = None"
  using assms advance_splits[of _ rest l c]
  by (auto simp: run_cleanup_def split: option.splits nat.splits)

definition lease_inv :: "World \<Rightarrow> ExecutionAdmission \<Rightarrow> bool \<Rightarrow> bool \<Rightarrow> DefaultExecutionSession \<Rightarrow> bool" where
  "lease_inv w a active budget d \<longleftrightarrow>
     reachable w (des_core d)
     \<and> (case des_admission d of
          Some b \<Rightarrow> b = a \<and> des_active_request d = active \<and> des_budget d = budget \<and> des_cleanup d = None
             \<and> filter closing (des_log d) = [] \<and> ActiveReleased \<notin> set (des_log d)
        | None \<Rightarrow> \<not> des_active_request d \<and> \<not> des_budget d
             \<and> count_list (des_log d) ActiveReleased = of_bool active
             \<and> is_finalized (des_core d)
             \<and> filter closing (des_log d) @ remaining_effects (des_cleanup d)
                 = closing_plan a budget (budget_charge w (des_core d)))"

text \<open>The operations of the core change nothing that is owed once the cleanup has taken over.\<close>

lemma lease_inv_core:
  assumes "lease_inv w a active budget d" "session_step w (des_core d) core"
  shows "lease_inv w a active budget (d\<lparr>des_core := core\<rparr>)"
proof -
  have "reachable w (des_core d)" using assms(1) by (simp add: lease_inv_def)
  then show ?thesis
    using assms reachable.Step[OF _ assms(2)] finished_charge_fixed[OF _ _ assms(2)]
    by (auto simp: lease_inv_def split: option.splits)
qed

lemma take_over_inv:
  assumes "lease_inv w a active budget d"
  shows "lease_inv w a active budget (take_over_cleanup w d)"
proof (cases "is_finalized (des_core d) \<and> des_admission d \<noteq> None")
  case True
  then show ?thesis
    using assms count_notin[of ActiveReleased "des_log d"]
    by (auto simp: lease_inv_def take_over_cleanup_def closing_plan_def)
next
  case False
  then have "take_over_cleanup w d = d"
    by (auto simp: take_over_cleanup_def split: option.splits)
  with assms show ?thesis by simp
qed

lemma closing_plan_part:
  assumes "xs @ l @ ys = closing_plan a b c"
  shows "filter closing l = l" "ActiveReleased \<notin> set l"
proof -
  have "list_all closing l"
    using closing_plan_all[of a b c] unfolding assms[symmetric] by simp
  then show "filter closing l = l" "ActiveReleased \<notin> set l"
    by (auto simp: list_all_iff filter_id_conv)
qed

lemma settle_inv:
  assumes "lease_inv w a active budget d"
  shows "lease_inv w a active budget (settle_if_finalized w until d)"
proof -
  define t where "t = take_over_cleanup w d"
  have t: "lease_inv w a active budget t"
    using take_over_inv[OF assms] by (simp add: t_def)
  have settle: "settle_if_finalized w until d = (case des_cleanup t of None \<Rightarrow> t
      | Some cleanup \<Rightarrow> (let (effects, left) = run_cleanup until cleanup
           in t\<lparr>des_cleanup := left, des_log := des_log t @ effects\<rparr>))"
    unfolding settle_if_finalized_def t_def Let_def ..
  show ?thesis
  proof (cases "des_cleanup t")
    case None
    with t settle show ?thesis by simp
  next
    case (Some cleanup)
    obtain f rest l c where c: "cleanup = (f, rest)" "run_cleanup until (f, rest) = (l, c)"
      by (metis prod.exhaust)
    note run = run_cleanup_splits[OF c(2)]
    have none: "des_admission t = None"
      using t Some by (auto simp: lease_inv_def split: option.splits)
    then have plan: "filter closing (des_log t) @ rest = closing_plan a budget (budget_charge w (des_core t))"
      using t Some c by (auto simp: lease_inv_def)
    have "filter closing l = l" "ActiveReleased \<notin> set l"
      using closing_plan_part[of "filter closing (des_log t)" l "remaining_effects c"] plan run(1) by auto
    then show ?thesis
      using t none Some c plan run settle by (auto simp: lease_inv_def)
  qed
qed

lemma record_inv:
  assumes "lease_inv w a active budget d"
  shows "lease_inv w a active budget (record_continuation state d)"
  using assms
  by (auto simp: record_continuation_def lease_inv_def split: option.splits)

lemma record_and_settle_inv:
  "lease_inv w a active budget d \<Longrightarrow> lease_inv w a active budget (record_and_settle w until state d)"
  by (simp add: record_and_settle_def Let_def record_inv settle_inv)

text \<open>The calls of a session in any order, each possibly dropped while it waits, and time passing.\<close>

inductive lease_step :: "World \<Rightarrow> DefaultExecutionSession \<Rightarrow> DefaultExecutionSession \<Rightarrow> bool" for w where
  pulled: "lease_next_event w until d = Some (r, d') \<Longrightarrow> lease_step w d d'"
| collected: "lease_collect_uncommitted w until d = Some (r', d') \<Longrightarrow> lease_step w d d'"
| committed: "lease_commit_downstream w until code d = (r'', d') \<Longrightarrow> lease_step w d d'"
| status_recorded: "lease_record_client_status w until status_code d = (r'', d') \<Longrightarrow> lease_step w d d'"
| discarded: "lease_discard_pending_delivery d = (r'', d') \<Longrightarrow> lease_step w d d'"
| detached: "lease_step w d (finalize_detached w until d)"
| waited: "lease_step w d (d\<lparr>des_core := tick (des_core d)\<rparr>)"

inductive_cases lease_stepE: "lease_step w d d'"

lemma lease_step_inv:
  assumes "lease_step w d d'" "lease_inv w a active budget d"
  shows "lease_inv w a active budget d'"
proof -
  note moved = lease_inv_core[OF assms(2)]
  from assms(1) show ?thesis
  proof cases
    case pulled
    then show ?thesis
      using moved session_step.Next record_and_settle_inv
      by (fastforce simp: lease_next_event_def Let_def split: option.splits)
  next
    case collected
    then show ?thesis
      using moved session_step.Collect record_and_settle_inv
      by (fastforce simp: lease_collect_uncommitted_def Let_def split: option.splits)
  next
    case (committed until code r)
    then show ?thesis
      using moved session_step.Commit settle_inv
      by (fastforce simp: lease_commit_downstream_def split: prod.splits)
  next
    case status_recorded
    then show ?thesis
      using moved session_step.Status settle_inv
      by (fastforce simp: lease_record_client_status_def split: prod.splits)
  next
    case discarded
    then show ?thesis
      using moved session_step.Discard
      by (fastforce simp: lease_discard_pending_delivery_def split: prod.splits)
  next
    case detached
    then show ?thesis
      using settle_inv[OF moved[OF session_step.Cancel]] by (simp add: finalize_detached_def)
  next
    case waited
    then show ?thesis
      using moved session_step.Wait by blast
  qed
qed

lemma lease_steps_inv:
  "(lease_step w)\<^sup>*\<^sup>* d d' \<Longrightarrow> lease_inv w a active budget d \<Longrightarrow> lease_inv w a active budget d'"
  by (induction rule: rtranclp_induct) (auto intro: lease_step_inv)

text \<open>The leases serve one request from the first call to the last.\<close>

lemma take_over_core [simp]: "des_core (take_over_cleanup w d) = des_core d"
  by (simp add: take_over_cleanup_def split: option.splits)

lemma settle_core [simp]: "des_core (settle_if_finalized w until d) = des_core d"
proof -
  define t where "t = take_over_cleanup w d"
  have "des_core t = des_core d" by (simp add: t_def)
  then show ?thesis
    unfolding settle_if_finalized_def t_def[symmetric] Let_def by (auto split: option.splits prod.splits)
qed

lemma record_core [simp]: "des_core (record_continuation state d) = des_core d"
  by (simp add: record_continuation_def split: option.splits)

lemma record_and_settle_core [simp]: "des_core (record_and_settle w until state d) = des_core d"
  by (simp add: record_and_settle_def Let_def)

lemma lease_step_core:
  assumes "lease_step w d d'" shows "session_step w (des_core d) (des_core d')"
  using assms
proof cases
  case pulled
  then show ?thesis by (auto simp: lease_next_event_def Let_def split: option.splits intro: session_step.Next)
next
  case collected
  then show ?thesis by (auto simp: lease_collect_uncommitted_def Let_def split: option.splits intro: session_step.Collect)
next
  case committed
  then show ?thesis by (auto simp: lease_commit_downstream_def split: prod.splits intro: session_step.Commit)
next
  case status_recorded
  then show ?thesis by (auto simp: lease_record_client_status_def split: prod.splits intro: session_step.Status)
next
  case discarded
  then show ?thesis by (auto simp: lease_discard_pending_delivery_def split: prod.splits intro: session_step.Discard)
next
  case detached
  then show ?thesis by (simp add: finalize_detached_def session_step.Cancel)
next
  case waited
  then show ?thesis by (simp add: session_step.Wait)
qed

lemma lease_steps_request:
  "(lease_step w)\<^sup>*\<^sup>* d d' \<Longrightarrow> reachable w (des_core d) \<Longrightarrow> reachable w (des_core d') \<and> same_request (des_core d) (des_core d')"
proof (induction rule: rtranclp_induct)
  case (step y z)
  then show ?case
    using lease_step_core reachable.Step step_same_request same_request_trans by blast
qed simp

text \<open>What the calls of a session add to the log.\<close>

definition lease_effect :: "Effect \<Rightarrow> bool" where
  "lease_effect e \<longleftrightarrow> closing e \<or> e = ActiveReleased \<or> (\<exists>pin. e = ContinuationRecorded pin)"

definition log_grows :: "DefaultExecutionSession \<Rightarrow> DefaultExecutionSession \<Rightarrow> bool" where
  "log_grows d d' \<longleftrightarrow> (\<exists>ext. des_log d' = des_log d @ ext \<and> list_all lease_effect ext)"

lemma log_grows_same: "des_log d' = des_log d \<Longrightarrow> log_grows d d'"
  by (simp add: log_grows_def)

lemma log_grows_trans: "log_grows d d' \<Longrightarrow> log_grows d' d'' \<Longrightarrow> log_grows d d''"
  by (auto simp: log_grows_def)

lemma log_grows_core: "log_grows (d\<lparr>des_core := core\<rparr>) d' \<Longrightarrow> log_grows d d'"
  by (simp add: log_grows_def)

lemma settle_log:
  assumes "lease_inv w a active budget d"
  shows "log_grows d (settle_if_finalized w until d)"
proof -
  define t where "t = take_over_cleanup w d"
  have inv: "lease_inv w a active budget t"
    using take_over_inv[OF assms] by (simp add: t_def)
  have "log_grows d t"
    by (auto simp: t_def take_over_cleanup_def log_grows_def lease_effect_def split: option.splits)
  moreover have "log_grows t (settle_if_finalized w until d)"
  proof (cases "des_cleanup t")
    case None
    then show ?thesis
      unfolding settle_if_finalized_def t_def[symmetric] Let_def by (simp add: log_grows_same)
  next
    case (Some cleanup)
    obtain f rest l c where c: "cleanup = (f, rest)" "run_cleanup until (f, rest) = (l, c)"
      by (metis prod.exhaust)
    have "filter closing (des_log t) @ l @ remaining_effects c = closing_plan a budget (budget_charge w (des_core t))"
      using inv Some c run_cleanup_splits(1)[OF c(2)] by (auto simp: lease_inv_def split: option.splits)
    then have "list_all closing l"
      using closing_plan_part(1) by (metis filter_id_conv list_all_iff)
    then have "list_all lease_effect l"
      by (simp add: list_all_iff lease_effect_def)
    then show ?thesis
      unfolding settle_if_finalized_def t_def[symmetric] Let_def
      using Some c by (auto simp: log_grows_def)
  qed
  ultimately show ?thesis by (rule log_grows_trans)
qed

lemma record_log: "log_grows d (record_continuation state d)"
  by (auto simp: record_continuation_def log_grows_def lease_effect_def split: option.splits)

lemma record_and_settle_log:
  assumes "lease_inv w a active budget d"
  shows "log_grows d (record_and_settle w until state d)"
  using log_grows_trans[OF record_log settle_log[OF record_inv[OF assms]]] record_log
  by (simp add: record_and_settle_def Let_def)

lemma lease_step_log:
  assumes "lease_step w d d'" "lease_inv w a active budget d"
  shows "log_grows d d'"
proof -
  note moved = lease_inv_core[OF assms(2)]
  from assms(1) show ?thesis
  proof cases
    case pulled
    then show ?thesis
      using moved session_step.Next record_and_settle_log log_grows_core
      by (fastforce simp: lease_next_event_def Let_def split: option.splits)
  next
    case collected
    then show ?thesis
      using moved session_step.Collect record_and_settle_log log_grows_core
      by (fastforce simp: lease_collect_uncommitted_def Let_def split: option.splits)
  next
    case (committed until code r)
    then show ?thesis
      using moved session_step.Commit settle_log log_grows_core
      by (fastforce simp: lease_commit_downstream_def split: prod.splits)
  next
    case status_recorded
    then show ?thesis
      using moved session_step.Status settle_log log_grows_core
      by (fastforce simp: lease_record_client_status_def split: prod.splits)
  next
    case discarded
    then show ?thesis
      by (auto simp: lease_discard_pending_delivery_def log_grows_def split: prod.splits)
  next
    case detached
    then show ?thesis
      using log_grows_core[OF settle_log[OF moved[OF session_step.Cancel]]] by (simp add: finalize_detached_def)
  next
    case waited
    then show ?thesis by (simp add: log_grows_def)
  qed
qed

lemma lease_steps_log:
  "(lease_step w)\<^sup>*\<^sup>* d d' \<Longrightarrow> lease_inv w a active budget d \<Longrightarrow> log_grows d d'"
proof (induction rule: rtranclp_induct)
  case (step y z)
  then show ?case
    using log_grows_trans lease_step_log lease_steps_inv by blast
qed (simp add: log_grows_same)

text \<open>A session as the start hands it out: nothing is given back yet.\<close>

definition opened :: "Effect list \<Rightarrow> bool" where
  "opened effects \<longleftrightarrow> filter closing effects = [] \<and> ActiveReleased \<notin> set effects"

lemma opened_inv:
  "reachable w core \<Longrightarrow> opened effects
     \<Longrightarrow> lease_inv w a active budget (new_DefaultExecutionSession core a active budget effects)"
  by (simp add: lease_inv_def new_DefaultExecutionSession_def opened_def)

lemma detached_finalized:
  assumes "lease_inv w a active budget d"
  shows "lease_is_finalized (finalize_detached w Uncut d)"
proof -
  have "session_inv (des_core d)"
    using assms reachable_inv by (auto simp: lease_inv_def)
  then have fin: "is_finalized (cancel_and_finalize w (des_core d))"
    using cancel_inv by (auto simp: settled_def)
  show ?thesis
  proof (cases "des_admission d")
    case None
    then show ?thesis
      using assms fin
      by (auto simp: lease_is_finalized_def finalize_detached_def settle_if_finalized_def take_over_cleanup_def
          lease_inv_def run_cleanup_def Let_def split: option.splits)
  next
    case (Some b)
    then show ?thesis
      using fin by (simp add: lease_is_finalized_def finalize_detached_def settle_if_finalized_def
          take_over_cleanup_def run_cleanup_def)
  qed
qed

text \<open>C17: Whatever calls a session serves, and wherever they are dropped in the cleanup or while a continuation is
  written, what it pays and gives back is a first part of this plan, each step once: the charge of its own request, the
  lease of the client key, the permit of the execution graph. None of it happens before the request is final, from then
  on the charge is fixed, and once the session says that it is finalized, all of it has happened, together with the end
  of its registration. Detaching it in any state makes it so.\<close>

theorem leases_are_settled_once:
  assumes "reachable w core" "opened effects"
    "(lease_step w)\<^sup>*\<^sup>* (new_DefaultExecutionSession core a active budget effects) d"
  shows "prefix (filter closing (des_log d)) (closing_plan a budget (budget_charge w (des_core d)))
    \<and> (filter closing (des_log d) \<noteq> [] \<longrightarrow> is_finalized (des_core d)
         \<and> (\<forall>next_core. session_step w (des_core d) next_core \<longrightarrow>
              is_finalized next_core \<and> budget_charge w next_core = budget_charge w (des_core d)))
    \<and> (lease_is_finalized d \<longrightarrow> is_finalized (des_core d)
         \<and> filter closing (des_log d) = closing_plan a budget (budget_charge w (des_core d))
         \<and> count_list (des_log d) ActiveReleased = of_bool active)
    \<and> lease_is_finalized (finalize_detached w Uncut d)"
proof -
  have inv: "lease_inv w a active budget d"
    using lease_steps_inv[OF assms(3) opened_inv[OF assms(1,2)]] .
  then have core: "reachable w (des_core d)" by (simp add: lease_inv_def)
  show ?thesis
  proof (cases "des_admission d")
    case None
    then have "is_finalized (des_core d)"
      "filter closing (des_log d) @ remaining_effects (des_cleanup d) = closing_plan a budget (budget_charge w (des_core d))"
      "count_list (des_log d) ActiveReleased = of_bool active"
      using inv by (auto simp: lease_inv_def)
    moreover from this have "prefix (filter closing (des_log d)) (closing_plan a budget (budget_charge w (des_core d)))"
      by (metis prefixI)
    ultimately show ?thesis
      using detached_finalized[OF inv] finished_charge_fixed[OF core] by (auto simp: lease_is_finalized_def)
  next
    case (Some b)
    then have "filter closing (des_log d) = []" "\<not> lease_is_finalized d"
      using inv by (auto simp: lease_inv_def lease_is_finalized_def)
    then show ?thesis
      using detached_finalized[OF inv] by simp
  qed
qed

text \<open>A session that is dropped in any state leaves no place behind: the lease of the client key has been
  released to the end or is abandoned to the port, the permit is released exactly once, and the registration has ended
  exactly once.\<close>

theorem dropped_session_leaks_nothing:
  assumes "reachable w core" "opened effects"
    "(lease_step w)\<^sup>*\<^sup>* (new_DefaultExecutionSession core a active budget effects) d"
  shows "(a \<noteq> NestedPermit \<longrightarrow> AbandonCall \<in> set (dropped_effects d)
         \<or> ReleaseCall \<in> set (des_log d) \<and> map_option fst (des_cleanup d) \<noteq> Some (Some ReleaseCall))
    \<and> count_list (des_log d @ dropped_effects d) PermitReleased = of_bool (a \<noteq> ClientLease)
    \<and> count_list (des_log d @ dropped_effects d) ActiveReleased = of_bool active"
proof -
  have inv: "lease_inv w a active budget d"
    using lease_steps_inv[OF assms(3) opened_inv[OF assms(1,2)]] .
  have "count_list xs PermitReleased = count_list (filter closing xs) PermitReleased" for xs
    by (induction xs) auto
  note permits = this[of "des_log d"]
  show ?thesis
  proof (cases "des_admission d")
    case (Some b)
    then show ?thesis
      using inv by (cases a) (auto simp: lease_inv_def dropped_effects_def permits count_notin)
  next
    case None
    then obtain charge where plan: "filter closing (des_log d) @ remaining_effects (des_cleanup d) = closing_plan a budget charge"
      and rest: "\<not> des_active_request d" "count_list (des_log d) ActiveReleased = of_bool active"
      using inv by (auto simp: lease_inv_def)
    let ?xs = "filter closing (des_log d)" and ?ys = "remaining_effects (des_cleanup d)"
    have "ReleaseCall \<in> set (closing_plan a budget charge) \<longleftrightarrow> a \<noteq> NestedPermit"
      "count_list (closing_plan a budget charge) PermitReleased = of_bool (a \<noteq> ClientLease)"
      by (cases a; simp add: closing_plan_def)+
    then have parts: "a \<noteq> NestedPermit \<longleftrightarrow> ReleaseCall \<in> set ?xs \<or> ReleaseCall \<in> set ?ys"
      "count_list ?xs PermitReleased + count_list ?ys PermitReleased = of_bool (a \<noteq> ClientLease)"
      unfolding plan[symmetric] by (simp_all only: set_append Un_iff count_list_append)
    have "count_list (remaining_effects (des_cleanup d)) PermitReleased \<le> 1"
      using parts(2) by (cases "a = ClientLease") auto
    then have "count_list (remaining_effects (des_cleanup d)) PermitReleased
        = of_bool (PermitReleased \<in> set (remaining_effects (des_cleanup d)))"
      using count_list_0_iff[of "remaining_effects (des_cleanup d)" PermitReleased]
      by (cases "PermitReleased \<in> set (remaining_effects (des_cleanup d))") auto
    then show ?thesis
      using parts rest None
      by (cases "des_cleanup d") (auto simp: dropped_effects_def permits)
  qed
qed

end
