(* ===== verification/Execution_Entry.thy ===== *)
theory Execution_Entry
  imports Execution_Lease Coordinator_Theorems
begin

text \<open>
  How an authorised request is started: \<open>start_authorized\<close>, \<open>prepare_execution_start\<close>,
  \<open>acquire_client_admission\<close> and \<open>start_without_continuation\<close> of \<open>gateway-core/src/engine/execution.rs\<close>.

  The ports are functions of a tick; every call to one takes a tick and leaves an effect in the log. The
  concurrency queue is seen here through the answers of one \<open>CapacityWait\<close> (its own theory is
  \<open>Concurrency_Queue\<close>); a policy that routes models and the store of continuations are parameters. The
  operation is given twice, as routing reads it and as the session keeps it. Request observers, middleware and
  the columns of the request record that the session never reads are left out, and a start that is dropped
  while it waits is not modelled.
\<close>

section \<open>The environment of a start\<close>

datatype ExecutionTarget =
    TargetModel PublicModelId
  | TargetProviderEndpoint ProviderKind "UpstreamModelId option"

fun into_public_model :: "ExecutionTarget \<Rightarrow> PublicModelId option" where
  "into_public_model (TargetModel model) = Some model"
| "into_public_model (TargetProviderEndpoint _ _) = None"

datatype ModelRouteDecision =
    RouteUnhandled
  | RouteTo "ProviderKind option" "PublicModelId option"
  | RouteReject

datatype NativeContinuationStoreErrorKind = ContinuationUnavailable | ContinuationInvalidData | OwnershipMismatch

datatype ContinuationLookup =
    LookedUp "NativeContinuationPin option"
  | LookupFailed NativeContinuationStoreErrorKind
  | LookupTimedOut

record 'v PendingStartExecution =
  ps_client :: "'v AuthenticatedClient"
  ps_target :: ExecutionTarget
  ps_operation_request :: OperationRequest
  ps_operation :: Operation
  ps_previous_response_id :: "PreviousResponseId option"

record ClientAdmissionRequest =
  car_model_request_id :: ModelRequestId
  car_client_api_key_id :: ClientApiKeyId
  car_lease_ttl :: duration
  car_allow_concurrency_acquire :: bool
  car_limits :: RateLimits

record EntryEnv =
  ee_now :: "nat \<Rightarrow> system_time"
  ee_cancelled :: bool
  ee_admit :: "nat \<Rightarrow> ClientAdmissionRequest \<Rightarrow> AdmissionAnswer"
  ee_can_try :: "nat \<Rightarrow> bool"
  ee_wait_elapsed :: "nat \<Rightarrow> duration"
  ee_wait :: "nat \<Rightarrow> QueueRejection + unit"
  ee_budget_admit :: "(nat \<Rightarrow> GatewayError + unit) option"
  ee_route_model :: "(nat \<Rightarrow> PublicModelId \<Rightarrow> ProviderKind set \<Rightarrow> ModelRouteDecision option) option"
  ee_resolve_continuation :: "nat \<Rightarrow> PreviousResponseId \<Rightarrow> ContinuationLookup"
  ee_observed_model :: "PublicModelId option"
  ee_world :: World

record EntryState =
  en_tick :: nat
  en_log :: "Effect list"

definition entry_log :: "Effect list \<Rightarrow> EntryState \<Rightarrow> EntryState" where
  "entry_log effects s = s\<lparr>en_log := en_log s @ effects\<rparr>"

definition entry_call :: "Effect list \<Rightarrow> EntryState \<Rightarrow> EntryState" where
  "entry_call effects s = s\<lparr>en_tick := Suc (en_tick s), en_log := en_log s @ effects\<rparr>"


section \<open>Admission\<close>

fun queue_gateway_error :: "QueueRejection \<Rightarrow> GatewayError" where
  "queue_gateway_error QueueFull = new_GatewayError GkConcurrencyQueueFull ''concurrency wait queue is full''"
| "queue_gateway_error QueueTimeout =
     new_GatewayError GkConcurrencyQueueTimeout ''concurrency wait deadline elapsed''"

definition deadline_elapsed :: GatewayError where
  "deadline_elapsed = new_GatewayError GkTimeout ''request deadline elapsed''"

text \<open>The check of the budget port, when there is one.\<close>

definition budget_admit :: "EntryEnv \<Rightarrow> EntryState \<Rightarrow> (GatewayError + unit) \<times> EntryState" where
  "budget_admit env s =
     (case ee_budget_admit env of
        None \<Rightarrow> (Ok (), s)
      | Some admit \<Rightarrow>
          (case admit (en_tick s) of
             Inl e \<Rightarrow> (Err e, entry_call [BudgetChecked False] s)
           | Inr _ \<Rightarrow> (Ok (), entry_call [BudgetChecked True] s)))"

text \<open>
  One turn of the loop of \<open>acquire_client_admission\<close>; \<open>None\<close> goes round again. The lease is armed before
  the port is asked and disarmed by a rejection, so that every other way out of a turn abandons it.
\<close>

definition admission_turn ::
  "EntryEnv \<Rightarrow> 'v AuthenticatedClient \<Rightarrow> ModelRequestId \<Rightarrow> system_time \<Rightarrow> EntryState
   \<Rightarrow> (GatewayError + unit) option \<times> EntryState" where
  "admission_turn env c request_id deadline s =
     (let policy = compiled_client_queue_policy (rs_settings (cl_snapshot c));
          limits = cp_limits (cl_policy c);
          remaining = unwrap_or (duration_since deadline (ee_now env (en_tick s))) 0 in
      if remaining = 0 then (Some (Err deadline_elapsed), s)
      else
        let answer = ee_admit env (en_tick s)
              \<lparr>car_model_request_id = request_id, car_client_api_key_id = cp_key_id (cl_policy c),
               car_lease_ttl = remaining,
               car_allow_concurrency_acquire = (max_concurrency limits = 0 \<or> ee_can_try env (en_tick s)),
               car_limits = limits\<rparr>;
            s = entry_call [AdmitCall answer] s in
        case answer of
          AdmitFailed \<Rightarrow>
            (Some (Err (new_GatewayError GkNoAvailableProvider ''request admission is temporarily unavailable'')),
             entry_log [AbandonCall] s)
        | AdmitTimedOut \<Rightarrow> (Some (Err deadline_elapsed), entry_log [AbandonCall] s)
        | AdmitDecided Granted \<Rightarrow> (Some (Ok ()), s)
        | AdmitDecided (AdmissionRejected reason) \<Rightarrow>
            if reason = AdmissionRateLimited \<or> max_waiting policy = 0
            then (Some (Err (new_GatewayError GkRateLimited ''request exceeds client API key limits'')), s)
            else
              case (if ee_wait_elapsed env (en_tick s) = 0 then budget_admit env s else (Ok (), s)) of
                (Inl e, s) \<Rightarrow> (Some (Err e), s)
              | (Inr _, s) \<Rightarrow>
                  (case ee_wait env (en_tick s) of
                     Inl rejection \<Rightarrow> (Some (Err (queue_gateway_error rejection)), entry_call [] s)
                   | Inr _ \<Rightarrow> (None, entry_call [] s)))"

partial_function (option) acquire_client_admission ::
  "EntryEnv \<Rightarrow> 'v AuthenticatedClient \<Rightarrow> ModelRequestId \<Rightarrow> system_time \<Rightarrow> EntryState
   \<Rightarrow> ((GatewayError + unit) \<times> EntryState) option" where
  "acquire_client_admission env c request_id deadline s =
     (case admission_turn env c request_id deadline s of
        (Some result, s) \<Rightarrow> Some (result, s)
      | (None, s) \<Rightarrow> acquire_client_admission env c request_id deadline s)"

record ExecutionStartGuard =
  guard_admission :: ExecutionAdmission
  guard_active_request :: bool

text \<open>The admission of a start: the permit of a nested one, else a lease, with the permit of a bound one.\<close>

definition acquire_execution_admission ::
  "EntryEnv \<Rightarrow> 'v PendingStartExecution \<Rightarrow> ModelRequestId \<Rightarrow> AuthorizedExecution \<Rightarrow> EntryState
   \<Rightarrow> ((GatewayError + ExecutionAdmission) \<times> AuthorizedExecution \<times> EntryState) option" where
  "acquire_execution_admission env request request_id az s =
     (if is_some (az_nested az)
      then if az_has_permit az then Some (Ok NestedPermit, az\<lparr>az_has_permit := False\<rparr>, s)
           else Some (Err (new_GatewayError GkInternal ''nested execution admission is unavailable''), az, s)
      else
        case acquire_client_admission env (ps_client request) request_id (az_deadline_at az) s of
          None \<Rightarrow> None
        | Some (Inl e, s) \<Rightarrow> Some (Err e, az, s)
        | Some (Inr _, s) \<Rightarrow>
            Some (Ok (if az_has_permit az then BoundLease else ClientLease), az\<lparr>az_has_permit := False\<rparr>, s))"

definition prepare_execution_start ::
  "EntryEnv \<Rightarrow> 'v PendingStartExecution \<Rightarrow> ModelRequestId \<Rightarrow> AuthorizedExecution \<Rightarrow> EntryState
   \<Rightarrow> ((GatewayError + ExecutionStartGuard) \<times> AuthorizedExecution \<times> EntryState) option" where
  "prepare_execution_start env request request_id az s =
     (case acquire_execution_admission env request request_id az s of
        None \<Rightarrow> None
      | Some (Inl e, az, s) \<Rightarrow> Some (Err e, az, s)
      | Some (Inr admission, az, s) \<Rightarrow>
          (case budget_admit env s of
             (Inl e, s) \<Rightarrow> Some (Err e, az, entry_log (release_admission admission) s)
           | (Inr _, s) \<Rightarrow>
               Some (Ok \<lparr>guard_admission = admission, guard_active_request = az_has_graph az\<rparr>, az,
                     entry_log (if az_has_graph az then [ActiveRegistered] else []) s)))"


section \<open>Routing and continuation\<close>

text \<open>A routing policy may pick another model, and a provider inside what the request may use.\<close>

definition apply_route_decision ::
  "AuthorizedExecution \<Rightarrow> PublicModelId \<Rightarrow> RoutingContext \<Rightarrow> ModelRouteDecision option
   \<Rightarrow> GatewayError + PublicModelId \<times> RoutingContext" where
  "apply_route_decision az model ctx decision =
     (case decision of
        None \<Rightarrow> Err (new_GatewayError GkInternal ''model routing policy failed'')
      | Some RouteUnhandled \<Rightarrow> Ok (model, ctx)
      | Some RouteReject \<Rightarrow> Err (policy_denied ''model routing policy rejected the request'')
      | Some (RouteTo provider target) \<Rightarrow>
          if provider = None \<and> target = None
          then Err (new_GatewayError GkInternal ''model routing policy returned an empty target'')
          else
            case provider of
              None \<Rightarrow> Ok (unwrap_or target model, ctx)
            | Some p \<Rightarrow>
                if is_some_and (az_required_provider az) (\<lambda>required. required \<noteq> p)
                   \<or> p \<notin> scope_provider_kinds (az_account_scope az)
                then Err (policy_denied ''model routing policy exceeded the frozen provider scope'')
                else Ok (unwrap_or target model, ctx\<lparr>required_provider := Some p\<rparr>))"

definition route_execution ::
  "EntryEnv \<Rightarrow> 'v PendingStartExecution \<Rightarrow> AuthorizedExecution \<Rightarrow> nat \<Rightarrow> GatewayError + RoutingPlan" where
  "route_execution env request az now_tick =
     (let scope = az_account_scope az;
          snapshot = cl_snapshot (ps_client request);
          ctx = \<lparr>required_provider = az_required_provider az, blocked_providers = {}\<rparr> in
      if is_some_and (az_required_provider az) (\<lambda>p. p \<notin> scope_provider_kinds scope)
      then Err (policy_denied ''nested provider is outside the frozen account scope'')
      else
        case ps_target request of
          TargetProviderEndpoint provider upstream \<Rightarrow>
            map_sum map_routing_error (\<lambda>plan. plan)
              (plan_provider_endpoint snapshot provider upstream (ps_operation_request request) scope ctx)
        | TargetModel model \<Rightarrow>
            (case (case ee_route_model env of
                     None \<Rightarrow> Ok (model, ctx)
                   | Some policy \<Rightarrow>
                       apply_route_decision az model ctx (policy now_tick model (available_providers snapshot scope ctx))) of
               Inl e \<Rightarrow> Err e
             | Inr (target, ctx) \<Rightarrow>
                 map_sum map_routing_error (\<lambda>plan. plan) (plan_request snapshot target (ps_operation_request request) scope ctx)))"

definition attach_continuation_session_state :: "Operation \<Rightarrow> NativeContinuationPin \<Rightarrow> Operation" where
  "attach_continuation_session_state operation pin =
     (case pin_session_state pin of
        None \<Rightarrow> operation
      | Some state \<Rightarrow>
          if session_provider state \<noteq> provider_kind_str (pin_provider pin)
             \<or> is_some (operation_session_state operation (session_provider state))
          then operation
          else set_provider_session_state operation state)"

definition bind_continuation ::
  "EntryEnv \<Rightarrow> 'v PendingStartExecution \<Rightarrow> AuthorizedExecution \<Rightarrow> RoutingPlan \<Rightarrow> nat
   \<Rightarrow> GatewayError + ContinuationBinding option \<times> Operation" where
  "bind_continuation env request az plan now_tick =
     (let operation = ps_operation request; key = cp_key_id (cl_policy (ps_client request)) in
      case ps_previous_response_id request of
        None \<Rightarrow> Ok (None, operation)
      | Some previous \<Rightarrow>
          (case ee_resolve_continuation env now_tick previous of
             LookupFailed OwnershipMismatch \<Rightarrow> Err (policy_denied ''continuation does not belong to this client API key'')
           | LookupFailed ContinuationInvalidData \<Rightarrow> Err (new_GatewayError GkInternal ''continuation state is invalid'')
           | LookupFailed ContinuationUnavailable \<Rightarrow> Ok (Some (External previous), operation)
           | LookupTimedOut \<Rightarrow> Ok (Some (External previous), operation)
           | LookedUp None \<Rightarrow> Ok (Some (External previous), operation)
           | LookedUp (Some pin) \<Rightarrow>
               if \<not> pin_matches_client pin key
               then Err (policy_denied ''continuation does not belong to this client API key'')
               else if \<not> allows (az_account_scope az) (pin_account pin)
               then Err (policy_denied ''continuation account is outside the client account scope'')
               else if \<not> (\<exists>c \<in> set (plan_candidates plan). pc_provider c = pin_provider pin)
               then Err (new_GatewayError GkNoAvailableProvider ''continuation provider is not available'')
               else Ok (Some (Pinned pin), attach_continuation_session_state operation pin)))"


section \<open>Starting\<close>

definition zero_charge :: "EntryEnv \<Rightarrow> EntryState \<Rightarrow> ClientApiKeyId \<Rightarrow> ModelRequestId \<Rightarrow> ClientBudgetCharge" where
  "zero_charge env s key request_id =
     \<lparr>charge_key_id = key, charge_request_id = request_id, charge_amount_usd = Decimal_ZERO,
      charge_completed_at = ee_now env (en_tick s)\<rparr>"

definition settle_zero :: "EntryEnv \<Rightarrow> EntryState \<Rightarrow> ClientApiKeyId \<Rightarrow> ModelRequestId \<Rightarrow> Effect list" where
  "settle_zero env s key request_id =
     (if is_some (ee_budget_admit env) then [BudgetSettled (zero_charge env s key request_id)] else [])"

text \<open>\<open>ExecutionStartGuard::release_failed\<close>: a start that fails before its session exists.\<close>

definition release_failed ::
  "EntryEnv \<Rightarrow> EntryState \<Rightarrow> ClientApiKeyId \<Rightarrow> ModelRequestId \<Rightarrow> ExecutionStartGuard \<Rightarrow> Effect list" where
  "release_failed env s key request_id g =
     (if guard_active_request g then [ActiveReleased] else [])
     @ settle_zero env s key request_id @ release_admission (guard_admission g)"

definition start_without_continuation ::
  "EntryEnv \<Rightarrow> 'v PendingStartExecution \<Rightarrow> ModelRequestId \<Rightarrow> AuthorizedExecution \<Rightarrow> RoutingPlan
   \<Rightarrow> ContinuationBinding option \<Rightarrow> Operation \<Rightarrow> ExecutionStartGuard \<Rightarrow> EntryState
   \<Rightarrow> (GatewayError \<times> EntryState) + DefaultExecutionSession" where
  "start_without_continuation env request request_id az plan continuation operation g s =
     (let key = cp_key_id (cl_policy (ps_client request));
          new_request = \<lparr>nr_id = request_id, nr_client_api_key_ref = key,
            nr_requested_model = or_else (into_public_model (ps_target request)) (ee_observed_model env),
            nr_deadline_at = az_deadline_at az\<rparr> in
      case start_with_account_selection (ee_world env) new_request operation plan (Scheduled (az_required_account az))
             continuation None (is_some (ee_route_model env))
             (if az_has_graph az then Some (az_execution_effects_baseline az) else None) of
        Inl (e, _) \<Rightarrow>
          Err (gateway_error_from_engine e,
               entry_log (settle_zero env s key request_id
                          @ (if guard_active_request g then [ActiveReleased] else [])
                          @ release_admission (guard_admission g)) s)
      | Inr core \<Rightarrow>
          Ok (new_DefaultExecutionSession core (guard_admission g) (guard_active_request g)
                (is_some (ee_budget_admit env)) (en_log s)))"

text \<open>
  What ends a start before its session is entered: a permit that was not taken over is dropped with the
  authorization, the rejection is recorded, and a guard that exists gives back what it holds.
\<close>

definition reject_entry ::
  "EntryEnv \<Rightarrow> 'v PendingStartExecution \<Rightarrow> ModelRequestId \<Rightarrow> AuthorizedExecution \<Rightarrow> ExecutionStartGuard option
   \<Rightarrow> GatewayError \<Rightarrow> EntryState \<Rightarrow> GatewayError \<times> EntryState" where
  "reject_entry env request request_id az g e s =
     (e, entry_log ((if az_has_permit az then [PermitReleased] else []) @ [EntryRejected e]
           @ (case g of None \<Rightarrow> []
              | Some g \<Rightarrow> release_failed env s (cp_key_id (cl_policy (ps_client request))) request_id g)) s)"

text \<open>The guard is taken before routing when a routing policy may call back into the service.\<close>

definition early_guard ::
  "EntryEnv \<Rightarrow> 'v PendingStartExecution \<Rightarrow> ModelRequestId \<Rightarrow> AuthorizedExecution \<Rightarrow> EntryState
   \<Rightarrow> ((GatewayError + ExecutionStartGuard option) \<times> AuthorizedExecution \<times> EntryState) option" where
  "early_guard env request request_id az s =
     (if ee_route_model env = None then Some (Ok None, az, s)
      else map_option (\<lambda>(result, az, s). (map_sum (\<lambda>e. e) Some result, az, s))
             (prepare_execution_start env request request_id az s))"

definition late_guard ::
  "EntryEnv \<Rightarrow> 'v PendingStartExecution \<Rightarrow> ModelRequestId \<Rightarrow> AuthorizedExecution \<Rightarrow> ExecutionStartGuard option
   \<Rightarrow> EntryState \<Rightarrow> ((GatewayError + ExecutionStartGuard) \<times> AuthorizedExecution \<times> EntryState) option" where
  "late_guard env request request_id az g s =
     (case g of Some g \<Rightarrow> Some (Ok g, az, s) | None \<Rightarrow> prepare_execution_start env request request_id az s)"

definition route_and_bind ::
  "EntryEnv \<Rightarrow> 'v PendingStartExecution \<Rightarrow> AuthorizedExecution \<Rightarrow> EntryState
   \<Rightarrow> (GatewayError + RoutingPlan \<times> ContinuationBinding option \<times> Operation) \<times> EntryState" where
  "route_and_bind env request az s =
     (case route_execution env request az (en_tick s) of
        Inl e \<Rightarrow> (Err e, entry_call [] s)
      | Inr plan \<Rightarrow>
          let s = entry_call [] s in
          (case bind_continuation env request az plan (en_tick s) of
             Inl e \<Rightarrow> (Err e, entry_call [] s)
           | Inr (continuation, operation) \<Rightarrow> (Ok (plan, continuation, operation), entry_call [] s)))"

definition enter_execution ::
  "EntryEnv \<Rightarrow> 'v PendingStartExecution \<Rightarrow> ModelRequestId \<Rightarrow> AuthorizedExecution \<Rightarrow> EntryState
   \<Rightarrow> ((GatewayError \<times> EntryState) + DefaultExecutionSession) option" where
  "enter_execution env request request_id az s =
     (case early_guard env request request_id az s of
        None \<Rightarrow> None
      | Some (Inl e, az, s) \<Rightarrow> Some (Err (reject_entry env request request_id az None e s))
      | Some (Inr g, az, s) \<Rightarrow>
     (case route_and_bind env request az s of
        (Inl e, s) \<Rightarrow> Some (Err (reject_entry env request request_id az g e s))
      | (Inr (plan, continuation, operation), s) \<Rightarrow>
     (case late_guard env request request_id az g s of
        None \<Rightarrow> None
      | Some (Inl e, az, s) \<Rightarrow> Some (Err (reject_entry env request request_id az None e s))
      | Some (Inr g, az, s) \<Rightarrow>
          Some (start_without_continuation env request request_id az plan continuation operation g s))))"

definition start_authorized ::
  "EntryEnv \<Rightarrow> 'v PendingStartExecution \<Rightarrow> AuthorizedExecution \<Rightarrow> ModelRequestId
   \<Rightarrow> ((GatewayError \<times> Effect list) + DefaultExecutionSession) option" where
  "start_authorized env request az request_id =
     (let dropped = (if az_has_permit az then [PermitReleased] else []);
          remaining = unwrap_or (duration_since (az_deadline_at az) (ee_now env 0)) 0 in
      if ee_cancelled env then Some (Err (new_GatewayError GkCancelled ''parent request was cancelled'', dropped))
      else if remaining = 0 then Some (Err (deadline_elapsed, dropped))
      else map_option (map_sum (\<lambda>(e, s). (e, en_log s)) (\<lambda>d. d))
             (enter_execution env request request_id az \<lparr>en_tick = 1, en_log = []\<rparr>))"


section \<open>The ledger\<close>

text \<open>Whether the port may believe that the request holds a lease: from the moment it is asked until it has
  rejected the request, or the lease is released or abandoned.\<close>

fun holds_after :: "bool \<Rightarrow> Effect \<Rightarrow> bool" where
  "holds_after held (AdmitCall answer) =
     (case answer of AdmitDecided (AdmissionRejected _) \<Rightarrow> False | _ \<Rightarrow> True)"
| "holds_after held ReleaseCall = False"
| "holds_after held AbandonCall = False"
| "holds_after held _ = held"

definition lease_held :: "Effect list \<Rightarrow> bool" where
  "lease_held effects = foldl holds_after False effects"

definition admission_effect :: "Effect \<Rightarrow> bool" where
  "admission_effect e \<longleftrightarrow> (case e of AdmitCall _ \<Rightarrow> True | BudgetChecked _ \<Rightarrow> True | AbandonCall \<Rightarrow> True | _ \<Rightarrow> False)"

text \<open>How an admission ends: with a lease, or with nothing.\<close>

definition admission_trace :: "Effect list \<Rightarrow> bool \<Rightarrow> bool" where
  "admission_trace effects granted \<longleftrightarrow>
     list_all admission_effect effects \<and> foldl holds_after False effects = granted
     \<and> (granted \<longrightarrow> AbandonCall \<notin> set effects)"

lemma entry_log_simps [simp]:
  "en_log (entry_log es s) = en_log s @ es" "en_tick (entry_log es s) = en_tick s"
  "en_log (entry_call es s) = en_log s @ es" "en_tick (entry_call es s) = Suc (en_tick s)"
  by (simp_all add: entry_log_def entry_call_def)

definition budget_check :: "Effect \<Rightarrow> bool" where
  "budget_check e \<longleftrightarrow> (case e of BudgetChecked _ \<Rightarrow> True | _ \<Rightarrow> False)"

lemma budget_admit_effects:
  assumes "budget_admit env s = (r, s')"
  obtains ext where "en_log s' = en_log s @ ext" "list_all budget_check ext" "en_tick s \<le> en_tick s'"
proof (cases "ee_budget_admit env")
  case None
  then show thesis using assms that[of "[]"] by (simp add: budget_admit_def)
next
  case (Some admit)
  then show thesis
    using assms that[of "[BudgetChecked False]"] that[of "[BudgetChecked True]"]
    by (cases "admit (en_tick s)") (auto simp: budget_admit_def budget_check_def)
qed

lemma budget_checks:
  assumes "list_all budget_check ext"
  shows "foldl holds_after held ext = held" "list_all admission_effect ext" "AbandonCall \<notin> set ext"
    "filter closing ext = []" "ActiveReleased \<notin> set ext" "ActiveRegistered \<notin> set ext"
  using assms
  by (induction ext arbitrary: held) (auto simp: budget_check_def admission_effect_def split: Effect.splits)

text \<open>A turn that goes round has been rejected, so nothing is held and nothing was abandoned.\<close>

lemma admission_turn_effects:
  assumes "admission_turn env c request_id deadline s = (r, s')"
  obtains ext where "en_log s' = en_log s @ ext" "en_tick s \<le> en_tick s'"
    "admission_trace ext (r = Some (Ok ()))" "r = None \<Longrightarrow> AbandonCall \<notin> set ext \<and> en_tick s < en_tick s'"
proof -
  let ?policy = "compiled_client_queue_policy (rs_settings (cl_snapshot c))" and ?limits = "cp_limits (cl_policy c)"
  let ?remaining = "unwrap_or (duration_since deadline (ee_now env (en_tick s))) 0"
  define answer where "answer = ee_admit env (en_tick s)
      \<lparr>car_model_request_id = request_id, car_client_api_key_id = cp_key_id (cl_policy c), car_lease_ttl = ?remaining,
       car_allow_concurrency_acquire = (max_concurrency ?limits = 0 \<or> ee_can_try env (en_tick s)), car_limits = ?limits\<rparr>"
  define t where "t = entry_call [AdmitCall answer] s"
  have t: "en_log t = en_log s @ [AdmitCall answer]" "en_tick t = Suc (en_tick s)"
    by (simp_all add: t_def)
  show thesis
  proof (cases "?remaining = 0")
    case True
    then show thesis
      using assms that[of "[]"] by (auto simp: admission_turn_def Let_def admission_trace_def)
  next
    case False
    note turn = assms[unfolded admission_turn_def Let_def, folded answer_def, folded t_def]
    consider (granted) "answer = AdmitDecided Granted" | (failed) "answer = AdmitFailed \<or> answer = AdmitTimedOut"
      | (rejected) reason where "answer = AdmitDecided (AdmissionRejected reason)"
      by (metis AdmissionAnswer.exhaust ClientAdmissionDecision.exhaust)
    then show thesis
    proof cases
      case granted
      then show thesis
        using turn False t that[of "[AdmitCall answer]"] by (simp add: admission_trace_def admission_effect_def)
    next
      case failed
      then show thesis
        using turn False t that[of "[AdmitCall answer, AbandonCall]"]
        by (auto simp: admission_trace_def admission_effect_def)
    next
      case (rejected reason)
      show thesis
      proof (cases "reason = AdmissionRateLimited \<or> max_waiting ?policy = 0")
        case True
        then show thesis
          using turn False t rejected that[of "[AdmitCall answer]"] by (auto simp: admission_trace_def admission_effect_def)
      next
        case waits: False
        obtain b u where b: "(if ee_wait_elapsed env (en_tick t) = 0 then budget_admit env t else (Ok (), t)) = (b, u)"
          by fastforce
        obtain checks where u: "en_log u = en_log t @ checks" "list_all budget_check checks" "en_tick t \<le> en_tick u"
        proof (cases "ee_wait_elapsed env (en_tick t) = 0")
          case True
          then show ?thesis
            using b that by (auto elim: budget_admit_effects)
        next
          case False
          then show ?thesis using b that[of "[]"] by simp
        qed
        have "admission_trace (AdmitCall answer # checks) False"
          using rejected budget_checks[OF u(2)] by (simp add: admission_trace_def admission_effect_def)
        then show thesis
          using turn False waits rejected b u t budget_checks(3)[OF u(2)] that[of "AdmitCall answer # checks"]
          by (auto split: sum.splits)
      qed
    qed
  qed
qed

lemma admission_chain:
  assumes "admission_trace xs False" "AbandonCall \<notin> set xs" "admission_trace ys granted"
  shows "admission_trace (xs @ ys) granted"
  using assms by (auto simp: admission_trace_def)

lemma acquire_effects:
  assumes "acquire_client_admission env c request_id deadline s = Some (r, s')"
  obtains ext where "en_log s' = en_log s @ ext" "admission_trace ext (r = Ok ())"
proof -
  have "\<exists>ext. en_log (snd (r, s')) = en_log s @ ext \<and> admission_trace ext (fst (r, s') = Ok ())"
  proof (rule acquire_client_admission.raw_induct
      [where P = "\<lambda>env c request_id deadline s y. \<exists>ext. en_log (snd y) = en_log s @ ext \<and> admission_trace ext (fst y = Ok ())",
        OF _ assms])
    fix p env s and c :: "'a AuthenticatedClient" and request_id deadline and y :: "(GatewayError + unit) \<times> EntryState"
    assume IH: "\<And>env (c :: 'a AuthenticatedClient) request_id deadline s y. p env c request_id deadline s = Some y \<Longrightarrow>
        \<exists>ext. en_log (snd y) = en_log s @ ext \<and> admission_trace ext (fst y = Ok ())"
      and body: "(case admission_turn env c request_id deadline s of
        (None, s) \<Rightarrow> p env c request_id deadline s | (Some result, s) \<Rightarrow> Some (result, s)) = Some y"
    obtain r t where turn: "admission_turn env c request_id deadline s = (r, t)" by fastforce
    obtain ext where ext: "en_log t = en_log s @ ext" "admission_trace ext (r = Some (Ok ()))"
      "r = None \<Longrightarrow> AbandonCall \<notin> set ext"
      using admission_turn_effects[OF turn] by blast
    show "\<exists>ext. en_log (snd y) = en_log s @ ext \<and> admission_trace ext (fst y = Ok ())"
    proof (cases r)
      case None
      then have "p env c request_id deadline t = Some y"
        using body turn by simp
      from IH[OF this] obtain ext2 where ext2: "en_log (snd y) = en_log t @ ext2" "admission_trace ext2 (fst y = Ok ())"
        by blast
      have "admission_trace (ext @ ext2) (fst y = Ok ())"
        using admission_chain[OF _ _ ext2(2)] ext None by simp
      then show ?thesis
        using ext(1) ext2(1) by (intro exI[of _ "ext @ ext2"]) simp
    next
      case (Some result)
      then show ?thesis
        using body turn ext by (intro exI[of _ ext]) auto
    qed
  qed
  then show thesis using that by auto
qed

text \<open>Effects that a log cannot contain are counted as absent.\<close>

definition settlements :: "Effect list \<Rightarrow> ClientBudgetCharge list" where
  "settlements es = concat (map (\<lambda>e. case e of BudgetSettled charge \<Rightarrow> [charge] | _ \<Rightarrow> []) es)"

lemma settlements_simps [simp]:
  "settlements [] = []" "settlements (BudgetSettled c # es) = c # settlements es"
  "settlements (xs @ ys) = settlements xs @ settlements ys"
  "(\<And>c. e \<noteq> BudgetSettled c) \<Longrightarrow> settlements (e # es) = settlements es"
  by (auto simp: settlements_def split: Effect.splits)

lemma settlements_absent: "(\<And>c. BudgetSettled c \<notin> set es) \<Longrightarrow> settlements es = []"
  by (auto simp: settlements_def split: Effect.splits)

lemma admission_absent: "list_all admission_effect es \<Longrightarrow> \<not> admission_effect e \<Longrightarrow> e \<notin> set es"
  by (auto simp: list_all_iff)

lemma opened_absent: "opened es \<Longrightarrow> closing e \<Longrightarrow> e \<notin> set es"
  by (auto simp: opened_def filter_empty_conv)

lemma admission_effect_simps [simp]:
  "admission_effect (AdmitCall a)" "admission_effect (BudgetChecked b)" "admission_effect AbandonCall"
  "\<not> admission_effect ReleaseCall" "\<not> admission_effect PermitReleased" "\<not> admission_effect (BudgetSettled c)"
  "\<not> admission_effect ActiveRegistered" "\<not> admission_effect ActiveReleased" "\<not> admission_effect (EntryRejected g)"
  "\<not> admission_effect (ContinuationRecorded p)"
  by (simp_all add: admission_effect_def)

lemma opened_counts:
  assumes "opened es"
  shows "count_list es PermitReleased = 0" "count_list es ActiveReleased = 0" "settlements es = []"
    "AbandonCall \<notin> set es"
  using opened_absent[OF assms] assms by (auto simp: opened_def intro: settlements_absent)

lemma admission_counts:
  assumes "list_all admission_effect es"
  shows "count_list es PermitReleased = 0" "count_list es ActiveReleased = 0" "count_list es ActiveRegistered = 0"
    "settlements es = []"
  using admission_absent[OF assms] by (auto intro: settlements_absent)

lemma admission_trace_opened:
  assumes "admission_trace es True"
  shows "opened es" "ActiveRegistered \<notin> set es"
proof -
  have es: "list_all admission_effect es" "AbandonCall \<notin> set es"
    using assms by (simp_all add: admission_trace_def)
  then have "\<not> closing e" if "e \<in> set es" for e
    using that by (cases e) (auto simp: list_all_iff)
  then show "opened es" "ActiveRegistered \<notin> set es"
    using admission_absent[OF es(1)] by (auto simp: opened_def filter_empty_conv)
qed

text \<open>The log of a start that holds a guard, and one of a start that has given everything back.\<close>

definition guard_log :: "ExecutionStartGuard \<Rightarrow> Effect list \<Rightarrow> bool" where
  "guard_log g es \<longleftrightarrow>
     opened es \<and> lease_held es = (guard_admission g \<noteq> NestedPermit)
     \<and> count_list es ActiveRegistered = of_bool (guard_active_request g)"

definition returned :: "bool \<Rightarrow> Effect list \<Rightarrow> bool" where
  "returned permit es \<longleftrightarrow>
     \<not> lease_held es \<and> count_list es PermitReleased = of_bool permit
     \<and> count_list es ActiveReleased = count_list es ActiveRegistered
     \<and> length (settlements es) \<le> 1 \<and> (\<forall>charge \<in> set (settlements es). charge_amount_usd charge = Decimal_ZERO)"

definition admission_of :: "AuthorizedExecution \<Rightarrow> ExecutionAdmission" where
  "admission_of az = (if is_some (az_nested az) then NestedPermit else if az_has_permit az then BoundLease else ClientLease)"

lemma nothing_returned: "list_all admission_effect es \<Longrightarrow> \<not> lease_held es \<Longrightarrow> returned False es"
  by (simp add: returned_def admission_counts)

lemma lease_held_append: "lease_held (xs @ ys) = foldl holds_after (lease_held xs) ys"
  by (simp add: lease_held_def)

lemma guard_returned:
  assumes "guard_log g es"
  shows "returned (guard_admission g \<noteq> ClientLease)
      (es @ [EntryRejected e] @ release_failed env s key request_id g)"
    "returned (guard_admission g \<noteq> ClientLease)
      (es @ settle_zero env s key request_id @ (if guard_active_request g then [ActiveReleased] else [])
       @ release_admission (guard_admission g))"
  using assms opened_counts[of es]
  by (cases "guard_admission g";
      simp add: guard_log_def returned_def lease_held_append release_failed_def settle_zero_def zero_charge_def)+

lemma acquire_admission_effects:
  assumes "acquire_execution_admission env request request_id az s = Some (r, az', s')"
    "en_log s = []" "az_nested az = None \<or> az_has_permit az"
  shows "case r of
      Inr admission \<Rightarrow> admission = admission_of az \<and> az' = az\<lparr>az_has_permit := False\<rparr> \<and> opened (en_log s')
        \<and> ActiveRegistered \<notin> set (en_log s') \<and> lease_held (en_log s') = (admission \<noteq> NestedPermit)
    | Inl e \<Rightarrow> az' = az \<and> list_all admission_effect (en_log s') \<and> \<not> lease_held (en_log s')"
proof (cases "is_some (az_nested az)")
  case True
  then show ?thesis
    using assms by (auto simp: acquire_execution_admission_def admission_of_def opened_def lease_held_def)
next
  case False
  then obtain q t where q: "acquire_client_admission env (ps_client request) request_id (az_deadline_at az) s = Some (q, t)"
    using assms(1) by (auto simp: acquire_execution_admission_def split: option.splits prod.splits)
  obtain ext where "en_log t = en_log s @ ext" "admission_trace ext (q = Ok ())"
    using acquire_effects[OF q] .
  then show ?thesis
    using assms False q admission_trace_opened[of ext]
    by (cases q) (auto simp: acquire_execution_admission_def admission_of_def admission_trace_def lease_held_def)
qed

text \<open>What an authorisation can start: a nested one has a permit to bring along.\<close>

definition startable :: "AuthorizedExecution \<Rightarrow> bool" where
  "startable az \<longleftrightarrow> az_nested az = None \<or> az_has_permit az"

lemma startable_permit: "startable az \<Longrightarrow> (admission_of az \<noteq> ClientLease) = az_has_permit az"
  by (auto simp: startable_def admission_of_def)

lemma prepare_effects:
  assumes "prepare_execution_start env request request_id az s = Some (r, az', s')" "en_log s = []" "startable az"
  shows "case r of
      Inr g \<Rightarrow> g = \<lparr>guard_admission = admission_of az, guard_active_request = az_has_graph az\<rparr>
        \<and> az' = az\<lparr>az_has_permit := False\<rparr> \<and> guard_log g (en_log s')
    | Inl e \<Rightarrow> returned (az_has_permit az)
        (en_log s' @ (if az_has_permit az' then [PermitReleased] else []) @ [EntryRejected e])"
proof -
  obtain q az1 t where q: "acquire_execution_admission env request request_id az s = Some (q, az1, t)"
    using assms(1) by (auto simp: prepare_execution_start_def split: option.splits prod.splits)
  note admission = acquire_admission_effects[OF q assms(2) assms(3)[unfolded startable_def]]
  show ?thesis
  proof (cases q)
    case (Inl e)
    then show ?thesis
      using assms(1) q admission
      by (auto simp: prepare_execution_start_def returned_def lease_held_append admission_counts)
  next
    case (Inr a)
    note a = admission[unfolded Inr sum.case]
    obtain b u where b: "budget_admit env t = (b, u)" by fastforce
    obtain checks where u: "en_log u = en_log t @ checks" "list_all budget_check checks"
      using budget_admit_effects[OF b] by blast
    have log: "opened (en_log u)" "count_list (en_log u) ActiveRegistered = 0" "lease_held (en_log u) = (a \<noteq> NestedPermit)"
      using a u budget_checks[OF u(2)] by (simp_all add: opened_def lease_held_append)
    show ?thesis
    proof (cases b)
      case (Inl e)
      then have r: "r = Err e" "az' = az1" "en_log s' = en_log u @ release_admission a"
        using assms(1) q \<open>q = Inr a\<close> b by (auto simp: prepare_execution_start_def)
      have "returned (a \<noteq> ClientLease) (en_log u @ release_admission a @ [EntryRejected e])"
        using log opened_counts[OF log(1)] by (cases a) (simp_all add: returned_def lease_held_append)
      then show ?thesis
        using r a startable_permit[OF assms(3)] by simp
    next
      case (Inr x)
      then have r: "r = Ok \<lparr>guard_admission = a, guard_active_request = az_has_graph az1\<rparr>" "az' = az1"
        "en_log s' = en_log u @ (if az_has_graph az1 then [ActiveRegistered] else [])"
        using assms(1) q \<open>q = Inr a\<close> b by (auto simp: prepare_execution_start_def)
      show ?thesis
        using r log a by (auto simp: guard_log_def opened_def lease_held_append)
    qed
  qed
qed

lemma route_and_bind_log:
  "route_and_bind env request az s = (r, s') \<Longrightarrow> en_log s' = en_log s"
  by (auto simp: route_and_bind_def Let_def split: sum.splits prod.splits)

lemma route_and_bind_permit:
  "route_and_bind env request (az\<lparr>az_has_permit := b\<rparr>) s = route_and_bind env request az s"
proof -
  have same: "az_required_provider (az\<lparr>az_has_permit := b\<rparr>) = az_required_provider az"
    "az_account_scope (az\<lparr>az_has_permit := b\<rparr>) = az_account_scope az"
    by simp_all
  have decision: "apply_route_decision (az\<lparr>az_has_permit := b\<rparr>) = apply_route_decision az"
    by (intro ext) (simp only: apply_route_decision_def same)
  have "route_execution env request (az\<lparr>az_has_permit := b\<rparr>) n = route_execution env request az n"
    "bind_continuation env request (az\<lparr>az_has_permit := b\<rparr>) plan n = bind_continuation env request az plan n" for n plan
    by (simp_all only: route_execution_def bind_continuation_def decision same)
  then show ?thesis
    by (simp only: route_and_bind_def)
qed

text \<open>The session of a start serves this request, for the key of its client, until the authorised deadline.\<close>

definition entered_for ::
  "'v PendingStartExecution \<Rightarrow> ModelRequestId \<Rightarrow> system_time \<Rightarrow> Session \<Rightarrow> bool" where
  "entered_for request request_id deadline core \<longleftrightarrow>
     s_request_id core = request_id \<and> s_client_api_key_ref core = cp_key_id (cl_policy (ps_client request))
     \<and> s_deadline core = deadline"

lemma start_without_continuation_effects:
  assumes "guard_log g (en_log s)"
    "start_without_continuation env request request_id az plan continuation operation g s = r"
  shows "case r of
      Inl (e, s') \<Rightarrow> returned (guard_admission g \<noteq> ClientLease) (en_log s')
    | Inr d \<Rightarrow> \<exists>core. d = new_DefaultExecutionSession core (guard_admission g) (guard_active_request g)
          (is_some (ee_budget_admit env)) (en_log s)
        \<and> reachable (ee_world env) core \<and> s_plan core = plan
        \<and> s_account_selection core = Scheduled (az_required_account az) \<and> s_continuation core = continuation
        \<and> entered_for request request_id (az_deadline_at az) core"
proof -
  let ?request = "\<lparr>nr_id = request_id, nr_client_api_key_ref = cp_key_id (cl_policy (ps_client request)),
      nr_requested_model = or_else (into_public_model (ps_target request)) (ee_observed_model env),
      nr_deadline_at = az_deadline_at az\<rparr>"
  let ?started = "start_with_account_selection (ee_world env) ?request operation plan (Scheduled (az_required_account az))
      continuation None (is_some (ee_route_model env))
      (if az_has_graph az then Some (az_execution_effects_baseline az) else None)"
  show ?thesis
  proof (cases ?started)
    case (Inl failed)
    then show ?thesis
      using assms(2) guard_returned(2)[OF assms(1)]
      by (cases failed) (auto simp: start_without_continuation_def Let_def)
  next
    case (Inr core)
    have "reachable (ee_world env) core"
      using reachable.Start[OF Inr] .
    moreover have "s_plan core = plan" "s_account_selection core = Scheduled (az_required_account az)"
      "s_continuation core = continuation" "entered_for request request_id (az_deadline_at az) core"
      using Inr
      by (auto simp: entered_for_def start_with_account_selection_def new_Session_def Let_def split: sum.splits if_splits)
    ultimately show ?thesis
      using assms(2) Inr by (auto simp: start_without_continuation_def Let_def)
  qed
qed

lemma early_guard_effects:
  assumes "early_guard env request request_id az s = Some (r, az', s')" "en_log s = []" "startable az"
  shows "case r of
      Inr None \<Rightarrow> az' = az \<and> s' = s
    | Inr (Some g) \<Rightarrow> g = \<lparr>guard_admission = admission_of az, guard_active_request = az_has_graph az\<rparr>
        \<and> az' = az\<lparr>az_has_permit := False\<rparr> \<and> guard_log g (en_log s')
    | Inl e \<Rightarrow> returned (az_has_permit az)
        (en_log s' @ (if az_has_permit az' then [PermitReleased] else []) @ [EntryRejected e])"
proof (cases "ee_route_model env = None")
  case True
  then show ?thesis using assms(1) by (auto simp: early_guard_def)
next
  case False
  then obtain q where "prepare_execution_start env request request_id az s = Some (q, az', s')" "r = map_sum (\<lambda>e. e) Some q"
    using assms(1) by (auto simp: early_guard_def)
  then show ?thesis
    using prepare_effects[OF _ assms(2,3)] by (cases q) force+
qed

lemma late_guard_effects:
  assumes "late_guard env request request_id az1 g s = Some (r, az2, s')" "startable az"
    "case g of None \<Rightarrow> az1 = az \<and> en_log s = []
      | Some g \<Rightarrow> g = \<lparr>guard_admission = admission_of az, guard_active_request = az_has_graph az\<rparr>
          \<and> az1 = az\<lparr>az_has_permit := False\<rparr> \<and> guard_log g (en_log s)"
  shows "case r of
      Inr g \<Rightarrow> g = \<lparr>guard_admission = admission_of az, guard_active_request = az_has_graph az\<rparr>
        \<and> az2 = az\<lparr>az_has_permit := False\<rparr> \<and> guard_log g (en_log s')
    | Inl e \<Rightarrow> returned (az_has_permit az)
        (en_log s' @ (if az_has_permit az2 then [PermitReleased] else []) @ [EntryRejected e])"
proof (cases g)
  case None
  then have "prepare_execution_start env request request_id az s = Some (r, az2, s')" "en_log s = []"
      using assms(1,3) by (simp_all add: late_guard_def)
    from prepare_effects[OF this assms(2)] show ?thesis .
next
  case (Some h)
  then show ?thesis
    using assms(1,3) by (auto simp: late_guard_def)
qed

text \<open>Everything that can become of an entered start.\<close>

lemma enter_execution_effects:
  assumes "enter_execution env request request_id az s = Some r" "en_log s = []" "startable az"
  shows "case r of
      Inl (e, s') \<Rightarrow> returned (az_has_permit az) (en_log s')
    | Inr d \<Rightarrow> \<exists>core effects plan tick_at continuation.
        d = new_DefaultExecutionSession core (admission_of az) (az_has_graph az) (is_some (ee_budget_admit env)) effects
        \<and> guard_log \<lparr>guard_admission = admission_of az, guard_active_request = az_has_graph az\<rparr> effects
        \<and> reachable (ee_world env) core \<and> s_plan core = plan
        \<and> s_account_selection core = Scheduled (az_required_account az) \<and> s_continuation core = continuation
        \<and> entered_for request request_id (az_deadline_at az) core
        \<and> route_execution env request az tick_at = Ok plan
        \<and> (\<exists>operation. bind_continuation env request az plan (Suc tick_at) = Ok (continuation, operation))"
proof -
  obtain q1 az1 s1 where early: "early_guard env request request_id az s = Some (q1, az1, s1)"
    using assms(1) by (auto simp: enter_execution_def split: option.splits)
  note e1 = early_guard_effects[OF early assms(2,3)]
  show ?thesis
  proof (cases q1)
    case (Inl e)
    then show ?thesis
      using assms(1) e1 by (auto simp: enter_execution_def early reject_entry_def)
  next
    case (Inr g1)
    note e1 = e1[unfolded Inr sum.case]
    have permit: "(admission_of az \<noteq> ClientLease) = az_has_permit az"
      using startable_permit[OF assms(3)] .
    obtain q2 s2 where route: "route_and_bind env request az1 s1 = (q2, s2)" by fastforce
    have same: "route_and_bind env request az s1 = (q2, s2)"
      using e1 route by (cases g1) (auto simp: route_and_bind_permit)
    note log = route_and_bind_log[OF route]
    show ?thesis
    proof (cases q2)
      case (Inl e)
      then have r: "r = Err (reject_entry env request request_id az1 g1 e s2)"
        using assms(1) by (simp add: enter_execution_def early \<open>q1 = Inr g1\<close> route)
      show ?thesis
      proof (cases g1)
        case None
        then show ?thesis
          using r e1 log assms(2) by (simp add: reject_entry_def returned_def lease_held_def)
      next
        case (Some g)
        then have "guard_log g (en_log s2)" and cleared: "\<not> az_has_permit az1"
          "guard_admission g = admission_of az"
          using e1 log by auto
        note given_back = guard_returned(1)[OF this(1), of e env s2 "cp_key_id (cl_policy (ps_client request))" request_id]
        show ?thesis
          using r permit Some given_back cleared by (simp add: reject_entry_def)
      qed
    next
      case (Inr routed)
      then obtain plan continuation operation where routed: "q2 = Ok (plan, continuation, operation)"
        by (cases routed) auto
      have plan: "route_execution env request az (en_tick s1) = Ok plan"
        "bind_continuation env request az plan (Suc (en_tick s1)) = Ok (continuation, operation)"
        using same routed by (auto simp: route_and_bind_def Let_def split: sum.splits prod.splits)
      obtain q3 az3 s3 where late: "late_guard env request request_id az1 g1 s2 = Some (q3, az3, s3)"
        using assms(1) by (auto simp: enter_execution_def early \<open>q1 = Inr g1\<close> route routed split: option.splits)
      have "case g1 of None \<Rightarrow> az1 = az \<and> en_log s2 = []
        | Some g \<Rightarrow> g = \<lparr>guard_admission = admission_of az, guard_active_request = az_has_graph az\<rparr>
            \<and> az1 = az\<lparr>az_has_permit := False\<rparr> \<and> guard_log g (en_log s2)"
        using e1 log assms(2) by (cases g1) simp_all
      note e3 = late_guard_effects[OF late assms(3) this]
      show ?thesis
      proof (cases q3)
        case (Inl e)
        then show ?thesis
          using assms(1) e3
          by (auto simp: enter_execution_def early \<open>q1 = Inr g1\<close> route routed late reject_entry_def)
      next
        case (Inr g)
        then have r: "start_without_continuation env request request_id az3 plan continuation operation g s3 = r"
          using assms(1) by (simp add: enter_execution_def early \<open>q1 = Inr g1\<close> route routed late)
        have g: "g = \<lparr>guard_admission = admission_of az, guard_active_request = az_has_graph az\<rparr>"
          "az3 = az\<lparr>az_has_permit := False\<rparr>" "guard_log g (en_log s3)"
          using e3 Inr by auto
        show ?thesis
        proof (cases r)
          case (Inl failed)
          then show ?thesis
            using start_without_continuation_effects[OF g(3) r] permit by (auto simp: g(1,2))
        next
          case (Inr d)
          then obtain core where "d = new_DefaultExecutionSession core (admission_of az) (az_has_graph az)
              (is_some (ee_budget_admit env)) (en_log s3)" "reachable (ee_world env) core" "s_plan core = plan"
            "s_account_selection core = Scheduled (az_required_account az)" "s_continuation core = continuation"
            "entered_for request request_id (az_deadline_at az) core"
            using start_without_continuation_effects[OF g(3) r] by (auto simp: g(1,2))
          then show ?thesis
            using Inr plan g(1,3) by auto
        qed
      qed
    qed
  qed
qed


section \<open>What a start leaves behind\<close>

lemma start_authorized_shape:
  assumes "start_authorized env request az request_id = Some r"
  obtains (refused) e where "r = Err (e, if az_has_permit az then [PermitReleased] else [])"
    | (rejected) e s where "r = Err (e, en_log s)"
        "enter_execution env request request_id az \<lparr>en_tick = 1, en_log = []\<rparr> = Some (Err (e, s))"
    | (started) d where "r = Ok d"
        "enter_execution env request request_id az \<lparr>en_tick = 1, en_log = []\<rparr> = Some (Ok d)"
        "\<not> ee_cancelled env" "ee_now env 0 < az_deadline_at az"
  using assms
  by (auto simp: start_authorized_def Let_def duration_since_def map_sum_def split: if_splits sum.splits)

text \<open>C13: A start that fails, at whatever step, leaves nothing behind: the port does not believe that the
  request holds a lease, a permit that came with it has been released exactly once, a registration has ended,
  and at most one charge was settled, of nothing.\<close>

theorem failed_start_returns_everything:
  assumes "start_authorized env request az request_id = Some (Err (e, effects))" "startable az"
  shows "\<not> lease_held effects
    \<and> count_list effects PermitReleased = of_bool (az_has_permit az)
    \<and> count_list effects ActiveReleased = count_list effects ActiveRegistered
    \<and> length (settlements effects) \<le> 1
    \<and> set (map charge_amount_usd (settlements effects)) \<subseteq> {Decimal_ZERO}"
proof -
  have "returned (az_has_permit az) effects"
    using assms(1)
  proof (cases rule: start_authorized_shape)
    case (refused e')
    then show ?thesis by (simp add: returned_def lease_held_def)
  next
    case (rejected e' s)
    then show ?thesis
      using enter_execution_effects[OF rejected(2)] assms(2) by simp
  next
    case (started d)
    then show ?thesis by simp
  qed
  then show ?thesis by (auto simp: returned_def)
qed

text \<open>A request that was started, and what it holds.\<close>

lemma started_shape:
  assumes "start_authorized env request az request_id = Some (Ok d)" "startable az"
  obtains core effects tick_at where
    "d = new_DefaultExecutionSession core (admission_of az) (az_has_graph az) (is_some (ee_budget_admit env)) effects"
    "guard_log \<lparr>guard_admission = admission_of az, guard_active_request = az_has_graph az\<rparr> effects"
    "reachable (ee_world env) core" "s_account_selection core = Scheduled (az_required_account az)"
    "entered_for request request_id (az_deadline_at az) core"
    "route_execution env request az tick_at = Ok (s_plan core)"
    "\<exists>operation. bind_continuation env request az (s_plan core) (Suc tick_at) = Ok (s_continuation core, operation)"
  using assms(1)
proof (cases rule: start_authorized_shape)
  case (started d')
  then show thesis
    using enter_execution_effects[OF started(2)] assms(2) that by auto
qed auto

text \<open>The whole life of what a request holds, from the log of its start to the last effect.\<close>

lemma closing_holds:
  "list_all lease_effect es \<Longrightarrow> foldl holds_after held es = foldl holds_after held (filter closing es)"
proof (induction es arbitrary: held)
  case (Cons e es)
  then show ?case by (cases e) (auto simp: lease_effect_def)
qed simp

lemma closing_settlements: "settlements es = settlements (filter closing es)"
proof (induction es)
  case (Cons e es)
  then show ?case by (cases e) simp_all
qed simp

lemma closed_log:
  assumes "guard_log \<lparr>guard_admission = a, guard_active_request = active\<rparr> effects"
    "list_all lease_effect ext" "filter closing (effects @ ext) = closing_plan a budget charge"
    "count_list (effects @ ext) ActiveReleased = of_bool active"
  shows "\<not> lease_held (effects @ ext)"
    "count_list (effects @ ext) PermitReleased = of_bool (a \<noteq> ClientLease)"
    "count_list (effects @ ext) ActiveReleased = count_list (effects @ ext) ActiveRegistered"
    "settlements (effects @ ext) = (if budget then [charge] else [])"
proof -
  have start: "opened effects" "lease_held effects = (a \<noteq> NestedPermit)"
    "count_list effects ActiveRegistered = of_bool active"
    using assms(1) by (simp_all add: guard_log_def)
  have closes: "filter closing ext = closing_plan a budget charge"
    using assms(3) start(1) by (simp add: opened_def)
  then show "\<not> lease_held (effects @ ext)"
    using start(2) closing_holds[OF assms(2)] by (cases a) (simp_all add: lease_held_append closing_plan_def)
  have permits: "count_list xs PermitReleased = count_list (filter closing xs) PermitReleased" for xs
    by (induction xs) auto
  show "count_list (effects @ ext) PermitReleased = of_bool (a \<noteq> ClientLease)"
    unfolding permits[of "effects @ ext"] assms(3) by (cases a) (simp_all add: closing_plan_def)
  show "settlements (effects @ ext) = (if budget then [charge] else [])"
    unfolding closing_settlements[of "effects @ ext"] assms(3) by (cases a) (simp_all add: closing_plan_def)
  have "ActiveRegistered \<notin> set ext"
    using assms(2) by (auto simp: list_all_iff lease_effect_def)
  then show "count_list (effects @ ext) ActiveReleased = count_list (effects @ ext) ActiveRegistered"
    using assms(4) start(3) by simp
qed

text \<open>C12: A request that was started is given back in full. Whatever calls its session serves, and wherever they are
  dropped in the cleanup or while a continuation is written (a drop inside a call of the coordinator is not a step of
  the model), once the session says that it is finalized, and detaching it makes it so, its request is final, the
  lease is no longer held, the permit has been released exactly once, the registration has ended, and exactly one
  charge has been settled if there is a budget: the one its own session owes, for this request and the key of its
  client.\<close>

theorem started_request_is_given_back:
  assumes "start_authorized env request az request_id = Some (Ok started)" "startable az"
    "(lease_step (ee_world env))\<^sup>*\<^sup>* started d" "lease_is_finalized d"
  shows "\<not> lease_held (des_log d)
    \<and> count_list (des_log d) PermitReleased = of_bool (az_has_permit az)
    \<and> count_list (des_log d) ActiveReleased = count_list (des_log d) ActiveRegistered
    \<and> is_finalized (des_core d)
    \<and> settlements (des_log d) = (if is_some (ee_budget_admit env) then [budget_charge (ee_world env) (des_core d)] else [])
    \<and> charge_request_id (budget_charge (ee_world env) (des_core d)) = request_id
    \<and> charge_key_id (budget_charge (ee_world env) (des_core d)) = cp_key_id (cl_policy (ps_client request))"
proof -
  obtain core effects where core: "reachable (ee_world env) core"
    "started = new_DefaultExecutionSession core (admission_of az) (az_has_graph az) (is_some (ee_budget_admit env)) effects"
    and guard: "guard_log \<lparr>guard_admission = admission_of az, guard_active_request = az_has_graph az\<rparr> effects"
    and for_request: "entered_for request request_id (az_deadline_at az) core"
    by (rule started_shape[OF assms(1,2)])
  have inv0: "lease_inv (ee_world env) (admission_of az) (az_has_graph az) (is_some (ee_budget_admit env)) started"
    using opened_inv[OF core(1)] guard core(2) by (simp add: guard_log_def)
  have inv: "lease_inv (ee_world env) (admission_of az) (az_has_graph az) (is_some (ee_budget_admit env)) d"
    using lease_steps_inv[OF assms(3) inv0] .
  obtain ext where ext: "des_log d = effects @ ext" "list_all lease_effect ext"
    using lease_steps_log[OF assms(3) inv0] core(2) by (auto simp: log_grows_def new_DefaultExecutionSession_def)
  have last: "is_finalized (des_core d)"
    "filter closing (des_log d)
       = closing_plan (admission_of az) (is_some (ee_budget_admit env)) (budget_charge (ee_world env) (des_core d))"
    "count_list (des_log d) ActiveReleased = of_bool (az_has_graph az)"
    using inv assms(4) by (auto simp: lease_inv_def lease_is_finalized_def)
  have "same_request core (des_core d)"
    using lease_steps_request[OF assms(3)] core by (simp add: new_DefaultExecutionSession_def)
  then have owed: "charge_request_id (budget_charge (ee_world env) (des_core d)) = request_id"
    "charge_key_id (budget_charge (ee_world env) (des_core d)) = cp_key_id (cl_policy (ps_client request))"
    using for_request by (simp_all add: same_request_def entered_for_def budget_charge_def)
  note closed = closed_log[OF guard ext(2) last(2,3)[unfolded ext(1)]]
  show ?thesis
    using closed[unfolded startable_permit[OF assms(2)]] last(1) owed unfolding ext(1) by blast
qed

text \<open>An admission ends once the clock has passed the deadline: a turn that goes round has waited.\<close>

lemma acquire_ends:
  assumes "\<forall>t \<ge> n. deadline \<le> ee_now env t"
  shows "acquire_client_admission env c request_id deadline s \<noteq> None"
proof (induction "n - en_tick s" arbitrary: s rule: less_induct)
  case less
  obtain q t where turn: "admission_turn env c request_id deadline s = (q, t)" by fastforce
  show ?case
  proof (cases q)
    case (Some result)
    then show ?thesis
      using turn by (simp add: acquire_client_admission.simps)
  next
    case None
    have later: "en_tick s < en_tick t"
      using admission_turn_effects[OF turn] None by blast
    have "\<not> n \<le> en_tick s"
    proof
      assume "n \<le> en_tick s"
      then have "unwrap_or (duration_since deadline (ee_now env (en_tick s))) 0 = 0"
        using assms by (auto simp: duration_since_def unwrap_or_def)
      then show False
        using turn None by (simp add: admission_turn_def Let_def)
    qed
    then have "acquire_client_admission env c request_id deadline t \<noteq> None"
      using less.hyps[of t] later by linarith
    then show ?thesis
      using turn None by (simp add: acquire_client_admission.simps[of _ _ _ _ s])
  qed
qed

lemma prepare_ends:
  assumes "\<forall>t \<ge> n. az_deadline_at az \<le> ee_now env t"
  shows "prepare_execution_start env request request_id az s \<noteq> None"
proof -
  have "acquire_execution_admission env request request_id az s \<noteq> None"
    using acquire_ends[OF assms, of "ps_client request" request_id s]
    by (auto simp: acquire_execution_admission_def split: option.split sum.split prod.split)
  then show ?thesis
    by (simp add: prepare_execution_start_def split: option.split sum.split prod.split)
qed

lemma early_guard_deadline:
  "early_guard env request request_id az s = Some (q, az1, s1) \<Longrightarrow> az_deadline_at az1 = az_deadline_at az"
  by (auto simp: early_guard_def prepare_execution_start_def acquire_execution_admission_def
      split: if_splits option.splits sum.splits prod.splits)

text \<open>C30: Every start returns: however often the port rejects the request and the queue lets it try again, once
  the clock has passed the deadline of the request there is an answer.\<close>

theorem every_start_returns:
  assumes "\<forall>t \<ge> n. az_deadline_at az \<le> ee_now env t"
  shows "\<exists>r. start_authorized env request az request_id = Some r"
proof -
  have "enter_execution env request request_id az s \<noteq> None" for s
  proof -
    have "early_guard env request request_id az s \<noteq> None"
      using prepare_ends[OF assms, of request request_id s] by (auto simp: early_guard_def)
    then obtain q az1 s1 where early: "early_guard env request request_id az s = Some (q, az1, s1)"
      by auto
    have late: "late_guard env request request_id az1 g s2 \<noteq> None" for g s2
      using prepare_ends[of n az1 env request request_id s2] assms early_guard_deadline[OF early]
      by (auto simp: late_guard_def split: option.split)
    show ?thesis
      by (simp add: enter_execution_def early late split: sum.split prod.split option.split)
  qed
  then show ?thesis
    by (auto simp: start_authorized_def Let_def)
qed


section \<open>What a start may use\<close>

lemma apply_route_decision_scope:
  assumes "apply_route_decision az model \<lparr>required_provider = az_required_provider az, blocked_providers = {}\<rparr> decision
      = Ok (target, ctx)" "is_none_or (az_required_provider az) (\<lambda>p. p \<in> scope_provider_kinds (az_account_scope az))"
  shows "is_none_or (required_provider ctx) (\<lambda>p. p \<in> scope_provider_kinds (az_account_scope az))"
    "is_none_or (az_required_provider az) (\<lambda>p. required_provider ctx = Some p)"
  using assms
  by (auto simp: apply_route_decision_def is_some_and_iff is_none_or_iff
      split: option.splits ModelRouteDecision.splits if_splits)

lemma planned_in_scope:
  assumes "plan_request s model op scope ctx = Ok plan" "finite (scope_provider_kinds scope)"
    "is_none_or (required_provider ctx) (\<lambda>p. p \<in> scope_provider_kinds scope)"
  shows "plan_account_scope plan = scope" "plan_candidates plan \<noteq> []"
    "\<And>c. c \<in> set (plan_candidates plan) \<Longrightarrow> pc_provider c \<in> scope_provider_kinds scope \<and> pc_account_scope c = scope
       \<and> is_none_or (required_provider ctx) (\<lambda>p. pc_provider c = p)"
proof -
  obtain cs where cs: "plan = freeze_plan s op scope cs" "cs \<noteq> []"
    "set cs = {c. \<exists>q \<in> planned_providers scope ctx.
        provider_candidate s model (capability_requirements op) scope ctx True q = Ok (Some c)}"
    using plan_inner_Ok[OF assms(1)[unfolded plan_request_def] assms(2)] by blast
  then show "plan_account_scope plan = scope" "plan_candidates plan \<noteq> []"
    by (simp_all add: freeze_plan_def)
  fix c
  assume "c \<in> set (plan_candidates plan)"
  then obtain q where "q \<in> planned_providers scope ctx" "pc_provider c = q" "pc_account_scope c = scope"
    using cs by (auto simp: freeze_plan_def provider_candidate_Some)
  then show "pc_provider c \<in> scope_provider_kinds scope \<and> pc_account_scope c = scope
       \<and> is_none_or (required_provider ctx) (\<lambda>p. pc_provider c = p)"
    using assms(3) by (auto simp: planned_providers_def split: option.splits)
qed

lemma routed_in_scope:
  assumes "route_execution env request az n = Ok plan" "finite (scope_provider_kinds (az_account_scope az))"
  shows "plan_account_scope plan = az_account_scope az" "plan_candidates plan \<noteq> []"
    "\<And>c. c \<in> set (plan_candidates plan) \<Longrightarrow> pc_provider c \<in> scope_provider_kinds (az_account_scope az)
       \<and> pc_account_scope c = az_account_scope az \<and> is_none_or (az_required_provider az) (\<lambda>p. pc_provider c = p)"
proof -
  let ?scope = "az_account_scope az"
  let ?ctx = "\<lparr>required_provider = az_required_provider az, blocked_providers = {}\<rparr>"
  have required: "is_none_or (az_required_provider az) (\<lambda>p. p \<in> scope_provider_kinds ?scope)"
    using assms(1) by (auto simp: route_execution_def Let_def is_some_and_iff is_none_or_iff split: if_splits)
  then have "\<not> is_some_and (az_required_provider az) (\<lambda>p. p \<notin> scope_provider_kinds ?scope)"
    by (auto simp: is_some_and_iff is_none_or_iff)
  note route = assms(1)[unfolded route_execution_def Let_def if_not_P[OF this]]
  have "plan_account_scope plan = ?scope \<and> plan_candidates plan \<noteq> []
    \<and> (\<forall>c \<in> set (plan_candidates plan). pc_provider c \<in> scope_provider_kinds ?scope
       \<and> pc_account_scope c = ?scope \<and> is_none_or (az_required_provider az) (\<lambda>p. pc_provider c = p))"
  proof (cases "ps_target request")
    case (TargetProviderEndpoint provider upstream)
    then have "plan_provider_endpoint (cl_snapshot (ps_client request)) provider upstream (ps_operation_request request)
        ?scope ?ctx = Ok plan"
      using route by (auto simp: map_sum_def split: sum.splits)
    then show ?thesis
      by (auto simp: plan_provider_endpoint_def Let_def freeze_plan_def is_none_or_iff split: if_splits)
  next
    case (TargetModel model)
    then obtain target ctx where target:
      "(case ee_route_model env of None \<Rightarrow> Ok (model, ?ctx)
        | Some policy \<Rightarrow> apply_route_decision az model ?ctx
            (policy n model (available_providers (cl_snapshot (ps_client request)) ?scope ?ctx))) = Ok (target, ctx)"
      "plan_request (cl_snapshot (ps_client request)) target (ps_operation_request request) ?scope ctx = Ok plan"
      using route by (auto simp: map_sum_def split: sum.splits prod.splits)
    have "is_none_or (required_provider ctx) (\<lambda>p. p \<in> scope_provider_kinds ?scope)
        \<and> is_none_or (az_required_provider az) (\<lambda>p. required_provider ctx = Some p)"
      using target(1) required apply_route_decision_scope[OF _ required]
      by (auto simp: is_none_or_iff split: option.splits)
    then show ?thesis
      using planned_in_scope[OF target(2) assms(2)] by (auto simp: is_none_or_iff)
  qed
  then show "plan_account_scope plan = ?scope" "plan_candidates plan \<noteq> []"
    "\<And>c. c \<in> set (plan_candidates plan) \<Longrightarrow> pc_provider c \<in> scope_provider_kinds ?scope
       \<and> pc_account_scope c = ?scope \<and> is_none_or (az_required_provider az) (\<lambda>p. pc_provider c = p)"
    by blast+
qed

text \<open>C14: A started request stays within what it was authorised for, as long as its session lives, whatever the routing
  policy says and the continuation store answers: every candidate of its plan is a provider that the frozen scope
  reaches, and the required one where one is required; the required account is passed on; a continuation is pinned only
  to an account that the scope allows, for the same client key and a provider of the plan; and the session serves this
  request, for the key of its client, until the authorised deadline.\<close>

theorem started_request_stays_authorized:
  assumes "start_authorized env request az request_id = Some (Ok started)" "startable az"
    "finite (scope_provider_kinds (az_account_scope az))" "(lease_step (ee_world env))\<^sup>*\<^sup>* started d"
  shows "(\<forall>c \<in> set (plan_candidates (s_plan (des_core d))). pc_provider c \<in> scope_provider_kinds (az_account_scope az)
         \<and> pc_account_scope c = az_account_scope az
         \<and> is_none_or (az_required_provider az) (\<lambda>p. pc_provider c = p))
    \<and> required_account (s_account_selection (des_core d)) = az_required_account az
    \<and> (\<forall>pin. s_continuation (des_core d) = Some (Pinned pin) \<longrightarrow>
         pin_client_api_key_id pin = cp_key_id (cl_policy (ps_client request))
         \<and> allows (az_account_scope az) (pin_account pin)
         \<and> (\<exists>c \<in> set (plan_candidates (s_plan (des_core d))). pc_provider c = pin_provider pin))
    \<and> s_deadline (des_core d) = az_deadline_at az
    \<and> s_request_id (des_core d) = request_id
    \<and> s_client_api_key_ref (des_core d) = cp_key_id (cl_policy (ps_client request))"
proof -
  obtain core effects n operation where
    start: "started = new_DefaultExecutionSession core (admission_of az) (az_has_graph az) (is_some (ee_budget_admit env)) effects"
      "reachable (ee_world env) core"
    and core: "s_account_selection core = Scheduled (az_required_account az)"
      "route_execution env request az n = Ok (s_plan core)"
      "bind_continuation env request az (s_plan core) (Suc n) = Ok (s_continuation core, operation)"
    and for_request: "entered_for request request_id (az_deadline_at az) core"
    using started_shape[OF assms(1,2)] by metis
  have d: "same_request core (des_core d)"
    using lease_steps_request[OF assms(4)] start by (simp add: new_DefaultExecutionSession_def)
  have "pin_client_api_key_id pin = cp_key_id (cl_policy (ps_client request))
      \<and> allows (az_account_scope az) (pin_account pin)
      \<and> (\<exists>c \<in> set (plan_candidates (s_plan core)). pc_provider c = pin_provider pin)"
    if "s_continuation core = Some (Pinned pin)" for pin
    using core(3) that
    by (auto simp: bind_continuation_def Let_def pin_matches_client_def
        split: option.splits ContinuationLookup.splits NativeContinuationStoreErrorKind.splits if_splits)
  then show ?thesis
    using routed_in_scope(3)[OF core(2) assms(3)] core(1) d for_request
    by (simp add: same_request_def entered_for_def)
qed


section \<open>Examples\<close>

definition sample_entry :: EntryEnv where
  "sample_entry =
     \<lparr>ee_now = (\<lambda>_. 0), ee_cancelled = False, ee_admit = (\<lambda>_ _. AdmitDecided Granted), ee_can_try = (\<lambda>_. True),
      ee_wait_elapsed = (\<lambda>_. 0), ee_wait = (\<lambda>_. Ok ()), ee_budget_admit = Some (\<lambda>_. Ok ()), ee_route_model = None,
      ee_resolve_continuation = (\<lambda>_ _. LookupTimedOut), ee_observed_model = None, ee_world = demo_world\<rparr>"

definition sample_authorization :: AuthorizedExecution where
  "sample_authorization =
     \<lparr>az_account_scope = sample_scope, az_deadline_at = 1000, az_extension_scope = {}, az_required_provider = None,
      az_required_account = None, az_nested = None, az_bound = Some ''p'', az_has_graph = True,
      az_execution_effects_baseline = 0, az_has_permit = True\<rparr>"

definition sample_pending :: "nat CompiledSettings \<Rightarrow> nat PendingStartExecution" where
  "sample_pending c =
     \<lparr>ps_client = sample_identity c, ps_target = TargetModel (PublicModelId ''fast''),
      ps_operation_request = SearchOperation,
      ps_operation = \<lparr>op_kind = OkSearch, op_session_state = None, op_image_tool_requested = False\<rparr>,
      ps_previous_response_id = None\<rparr>"

lemma sample_startable: "startable sample_authorization"
  by (simp add: startable_def sample_authorization_def)

lemma sample_routes:
  assumes "compiled_values c = sample_settings" "ee_route_model env = None"
  obtains plan where "route_execution env (sample_pending c) sample_authorization n = Ok plan"
proof -
  have "sample_routing = \<lparr>required_provider = None, blocked_providers = {}\<rparr>"
    by (simp add: sample_routing_def)
  then obtain plan where "plan_request (cl_snapshot (sample_identity c)) (PublicModelId ''fast'') SearchOperation sample_scope
      \<lparr>required_provider = None, blocked_providers = {}\<rparr> = Ok plan"
    using sample_plans[OF assms(1)] by (auto simp: sample_identity_def)
  then show thesis
    using assms(2) by (intro that[of plan]) (simp add: route_execution_def sample_pending_def sample_authorization_def)
qed

lemma sample_admits:
  "acquire_client_admission sample_entry c request_id 1000 s
     = Some (Ok (), entry_call [AdmitCall (AdmitDecided Granted)] s)"
  by (subst acquire_client_admission.simps)
    (simp add: admission_turn_def sample_entry_def duration_since_def Let_def)

lemma sample_starts:
  assumes "compiled_values c = sample_settings"
  obtains d where "start_authorized sample_entry (sample_pending c) sample_authorization request_id = Some (Ok d)"
proof -
  obtain plan where plan: "route_execution sample_entry (sample_pending c) sample_authorization 1 = Ok plan"
    using sample_routes[OF assms, of sample_entry 1] by (auto simp: sample_entry_def)
  have guard: "prepare_execution_start sample_entry (sample_pending c) request_id sample_authorization s
      = Some (Ok \<lparr>guard_admission = BoundLease, guard_active_request = True\<rparr>, sample_authorization\<lparr>az_has_permit := False\<rparr>,
          entry_log [ActiveRegistered] (entry_call [BudgetChecked True] (entry_call [AdmitCall (AdmitDecided Granted)] s)))" for s
    using sample_admits[of "sample_identity c" request_id s]
    by (simp add: prepare_execution_start_def acquire_execution_admission_def sample_authorization_def sample_pending_def
        budget_admit_def) (simp add: sample_entry_def)
  have "bind_continuation sample_entry (sample_pending c) sample_authorization plan n
      = Ok (None, ps_operation (sample_pending c))" for n
    by (simp add: bind_continuation_def sample_pending_def)
  then have "\<exists>d. enter_execution sample_entry (sample_pending c) request_id sample_authorization \<lparr>en_tick = 1, en_log = []\<rparr>
      = Some (Ok d)"
    using plan guard
    by (simp add: enter_execution_def early_guard_def late_guard_def route_and_bind_def Let_def
        start_without_continuation_def start_with_account_selection_def initial_candidate_index_def sample_authorization_def
        new_Session_def) (simp add: sample_entry_def demo_world_def)
  then show thesis
    using that
    by (auto simp: start_authorized_def Let_def sample_authorization_def duration_since_def)
      (auto simp: sample_entry_def)
qed

theorem started_request_stays_authorized_witness:
  "\<exists>c d. start_authorized sample_entry (sample_pending c) sample_authorization (ModelRequestId ''r'') = Some (Ok d)
     \<and> (\<forall>x \<in> set (plan_candidates (s_plan (des_core d))). pc_provider x = sample_kind)"
proof -
  obtain c where "new_CompiledSettings sample_versions sample_settings = Ok c"
    and c: "compiled_values c = sample_settings"
    using sample_settings_compile .
  obtain d where d: "start_authorized sample_entry (sample_pending c) sample_authorization (ModelRequestId ''r'') = Some (Ok d)"
    using sample_starts[OF c] .
  have "scope_provider_kinds (az_account_scope sample_authorization) = {sample_kind}"
    by (simp add: sample_authorization_def sample_scope_fields)
  then show ?thesis
    using started_request_stays_authorized[OF d sample_startable _ rtranclp.rtrancl_refl] d by auto
qed

theorem started_request_is_given_back_witness:
  "\<exists>c started d. start_authorized sample_entry (sample_pending c) sample_authorization (ModelRequestId ''r'') = Some (Ok started)
     \<and> (lease_step demo_world)\<^sup>*\<^sup>* started d \<and> \<not> lease_held (des_log d) \<and> length (settlements (des_log d)) = 1"
proof -
  obtain c where "new_CompiledSettings sample_versions sample_settings = Ok c"
    and c: "compiled_values c = sample_settings"
    using sample_settings_compile .
  obtain d where d: "start_authorized sample_entry (sample_pending c) sample_authorization (ModelRequestId ''r'') = Some (Ok d)"
    using sample_starts[OF c] .
  have world: "ee_world sample_entry = demo_world" "is_some (ee_budget_admit sample_entry)"
    by (simp_all add: sample_entry_def)
  obtain core effects where core: "reachable (ee_world sample_entry) core"
    "d = new_DefaultExecutionSession core (admission_of sample_authorization) (az_has_graph sample_authorization)
      (is_some (ee_budget_admit sample_entry)) effects"
    "guard_log \<lparr>guard_admission = admission_of sample_authorization,
      guard_active_request = az_has_graph sample_authorization\<rparr> effects"
    by (rule started_shape[OF d sample_startable])
  have fin: "lease_is_finalized (finalize_detached demo_world Uncut d)"
    using detached_finalized[OF opened_inv[OF core(1)]] core(2,3) unfolding world(1) by (simp add: guard_log_def)
  have step: "(lease_step demo_world)\<^sup>*\<^sup>* d (finalize_detached demo_world Uncut d)"
    by (rule r_into_rtranclp) (rule lease_step.detached)
  note given_back = started_request_is_given_back[OF d sample_startable, unfolded world(1), OF step fin]
  then have "length (settlements (des_log (finalize_detached demo_world Uncut d))) = 1"
    using world(2) by auto
  with given_back d step show ?thesis by blast
qed

definition sample_refusing :: EntryEnv where
  "sample_refusing = sample_entry\<lparr>ee_budget_admit := Some (\<lambda>_. Err (new_GatewayError GkRateLimited ''budget''))\<rparr>"

theorem failed_start_returns_everything_witness:
  "\<exists>c e effects. start_authorized sample_refusing (sample_pending c) sample_authorization (ModelRequestId ''r'')
       = Some (Err (e, effects))
     \<and> AdmitCall (AdmitDecided Granted) \<in> set effects \<and> \<not> lease_held effects \<and> count_list effects PermitReleased = 1"
proof -
  obtain c where "new_CompiledSettings sample_versions sample_settings = Ok c"
    and c: "compiled_values c = sample_settings"
    using sample_settings_compile .
  obtain plan where plan: "route_execution sample_refusing (sample_pending c) sample_authorization 1 = Ok plan"
    using sample_routes[OF c, of sample_refusing 1] by (auto simp: sample_entry_def sample_refusing_def)
  have admits: "acquire_client_admission sample_refusing x request_id 1000 s
     = Some (Ok (), entry_call [AdmitCall (AdmitDecided Granted)] s)" for x :: "nat AuthenticatedClient" and request_id s
    by (subst acquire_client_admission.simps)
      (simp add: admission_turn_def sample_refusing_def sample_entry_def duration_since_def Let_def)
  define refusal where "refusal = new_GatewayError GkRateLimited ''budget''"
  have guard: "prepare_execution_start sample_refusing (sample_pending c) request_id sample_authorization s
      = Some (Err refusal, sample_authorization\<lparr>az_has_permit := False\<rparr>,
          entry_log [ReleaseCall, PermitReleased] (entry_call [BudgetChecked False] (entry_call [AdmitCall (AdmitDecided Granted)] s)))"
    for request_id s
    using admits[of "sample_identity c" request_id s]
    by (simp add: prepare_execution_start_def acquire_execution_admission_def sample_authorization_def sample_pending_def
        budget_admit_def) (simp add: sample_refusing_def refusal_def)
  have "bind_continuation sample_refusing (sample_pending c) sample_authorization plan n
      = Ok (None, ps_operation (sample_pending c))" for n
    by (simp add: bind_continuation_def sample_pending_def)
  moreover have "ee_route_model sample_refusing = None"
    by (simp add: sample_refusing_def sample_entry_def)
  ultimately obtain s where s: "enter_execution sample_refusing (sample_pending c) (ModelRequestId ''r'') sample_authorization
      \<lparr>en_tick = 1, en_log = []\<rparr> = Some (Err (refusal, s))" "AdmitCall (AdmitDecided Granted) \<in> set (en_log s)"
    using plan guard
    by (simp add: enter_execution_def early_guard_def late_guard_def route_and_bind_def Let_def reject_entry_def)
  have "\<not> ee_cancelled sample_refusing"
    "unwrap_or (duration_since (az_deadline_at sample_authorization) (ee_now sample_refusing 0)) 0 \<noteq> 0"
    by (simp_all add: sample_refusing_def sample_entry_def sample_authorization_def duration_since_def)
  then have start: "start_authorized sample_refusing (sample_pending c) sample_authorization (ModelRequestId ''r'')
       = Some (Err (refusal, en_log s))"
    unfolding start_authorized_def Let_def s(1) by simp
  show ?thesis
    using failed_start_returns_everything[OF start sample_startable] start s(2)
    by (intro exI[of _ c] exI[of _ refusal] exI[of _ "en_log s"]) (simp add: sample_authorization_def)
qed

definition sample_crowded :: EntryEnv where
  "sample_crowded = sample_entry\<lparr>ee_now := int, ee_admit := (\<lambda>_ _. AdmitDecided (AdmissionRejected ConcurrencyLimited))\<rparr>"

theorem every_start_returns_witness:
  "\<exists>c r. start_authorized sample_crowded (sample_pending c) sample_authorization (ModelRequestId ''r'') = Some r"
proof -
  have "\<forall>t \<ge> 1000. az_deadline_at sample_authorization \<le> ee_now sample_crowded t"
    by (simp add: sample_crowded_def sample_authorization_def)
  from every_start_returns[OF this] show ?thesis by blast
qed

definition sample_lease :: DefaultExecutionSession where
  "sample_lease = new_DefaultExecutionSession demo_start BoundLease True True []"

text \<open>Its detaching is dropped while the charge is being settled.\<close>

definition sample_cut :: DefaultExecutionSession where
  "sample_cut = finalize_detached demo_world (CutCleanup 0) sample_lease"

lemma sample_cut_reached: "(lease_step demo_world)\<^sup>*\<^sup>* sample_lease sample_cut"
  unfolding sample_cut_def by (rule r_into_rtranclp) (rule lease_step.detached)

lemma sample_cut_pending:
  "des_cleanup sample_cut = Some (Some (BudgetSettled (budget_charge demo_world (cancel_and_finalize demo_world demo_start))),
      [ReleaseCall, PermitReleased])"
proof -
  have "is_finalized (cancel_and_finalize demo_world demo_start)"
    using cancel_inv[OF reachable_inv[OF demo_reachable]] by (simp add: settled_def)
  then show ?thesis
    by (simp add: sample_cut_def sample_lease_def finalize_detached_def settle_if_finalized_def take_over_cleanup_def
        new_DefaultExecutionSession_def run_cleanup_def Let_def)
qed

theorem leases_are_settled_once_witness:
  "\<not> lease_is_finalized sample_cut \<and> lease_is_finalized (finalize_detached demo_world Uncut sample_cut)"
  using leases_are_settled_once[OF demo_reachable _ sample_cut_reached[unfolded sample_lease_def]] sample_cut_pending
  by (simp add: opened_def lease_is_finalized_def)

theorem dropped_session_leaks_nothing_witness:
  "AbandonCall \<in> set (dropped_effects sample_cut)
     \<and> count_list (des_log sample_cut @ dropped_effects sample_cut) PermitReleased = 1"
  using dropped_session_leaks_nothing[OF demo_reachable _ sample_cut_reached[unfolded sample_lease_def]] sample_cut_pending
  by (simp add: opened_def dropped_effects_def)

end
