(* ===== verification/Cookie_Policy.thy ===== *)
theory Cookie_Policy
  imports Account_Model
begin

text \<open>
  Which cookies of the upstream are kept and to which requests they are sent again:
  \<open>providers/openai/src/credential/cookie.rs\<close> and the cookie jar of \<open>credential/selector.rs\<close>
  (\<open>capture_response_cookies\<close>, \<open>apply_cookie_recovery\<close>).

  The \<open>url\<close> crate has parsed the URLs; parsing a \<open>Set-Cookie\<close> header (the \<open>cookie\<close> crate) and the
  calendar arithmetic of \<open>chrono\<close> are parameters. Loading and writing back the credential that holds the
  jar is left to the repository.
\<close>

section \<open>Domains and paths\<close>

datatype CookiePolicyError = EmptyAllowlist | NameNotAllowed | InvalidOrigin | InvalidCookieScope

definition to_ascii_lowercase :: "char \<Rightarrow> char" where
  "to_ascii_lowercase c = (if is_ascii_uppercase c then char_of (byte c + 32) else c)"

definition is_ascii_alphanumeric :: "char \<Rightarrow> bool" where
  "is_ascii_alphanumeric c \<longleftrightarrow>
     is_ascii_digit c \<or> is_ascii_uppercase c \<or> 97 \<le> byte c \<and> byte c \<le> 122"

text \<open>\<open>str::split\<close> at a character.\<close>

fun split_at_char :: "char \<Rightarrow> string \<Rightarrow> string list" where
  "split_at_char d [] = [[]]"
| "split_at_char d (c # cs) =
     (if c = d then [] # split_at_char d cs
      else (c # hd (split_at_char d cs)) # tl (split_at_char d cs))"

abbreviation DOT :: char where "DOT \<equiv> CHR ''.''"
abbreviation SLASH :: char where "SLASH \<equiv> CHR ''/''"

definition trim_start_matches :: "char \<Rightarrow> string \<Rightarrow> string" where
  "trim_start_matches c s = dropWhile (\<lambda>x. x = c) s"

definition trim_end_matches :: "char \<Rightarrow> string \<Rightarrow> string" where
  "trim_end_matches c s = rev (dropWhile (\<lambda>x. x = c) (rev s))"

definition label_ok :: "string \<Rightarrow> bool" where
  "label_ok label \<longleftrightarrow>
     label \<noteq> [] \<and> length label \<le> 63 \<and> hd label \<noteq> CHR ''-'' \<and> last label \<noteq> CHR ''-''
     \<and> list_all (\<lambda>b. is_ascii_alphanumeric b \<or> b = CHR ''-'') label"

definition normalize_domain :: "string \<Rightarrow> CookiePolicyError + string" where
  "normalize_domain d =
     (let domain = map to_ascii_lowercase (trim_end_matches DOT (trim_start_matches DOT (trim d))) in
      if domain = [] \<or> length domain > 253 \<or> SLASH \<in> set domain \<or> CHR '':'' \<in> set domain
         \<or> list_ex (\<lambda>label. \<not> label_ok label) (split_at_char DOT domain)
      then Err InvalidCookieScope else Ok domain)"

text \<open>\<open>str::strip_suffix\<close> and \<open>str::strip_prefix\<close>.\<close>

definition strip_suffix :: "string \<Rightarrow> string \<Rightarrow> string option" where
  "strip_suffix s t = (if suffix t s then Some (take (length s - length t) s) else None)"

definition strip_text_prefix :: "string \<Rightarrow> string \<Rightarrow> string option" where
  "strip_text_prefix s t = (if prefix t s then Some (drop (length t) s) else None)"

definition domain_matches :: "string \<Rightarrow> string \<Rightarrow> bool" where
  "domain_matches host cookie_domain \<longleftrightarrow>
     host = cookie_domain \<or> is_some_and (strip_suffix host cookie_domain) (\<lambda>p. suffix [DOT] p)"

definition cookie_path_matches :: "string \<Rightarrow> string \<Rightarrow> bool" where
  "cookie_path_matches request_path cookie_path \<longleftrightarrow>
     request_path = cookie_path
     \<or> is_some_and (strip_text_prefix request_path cookie_path)
         (\<lambda>s. suffix [SLASH] cookie_path \<or> prefix [SLASH] s)"

definition default_cookie_path :: "string \<Rightarrow> string" where
  "default_cookie_path request_path =
     (if \<not> prefix [SLASH] request_path \<or> request_path = [SLASH] then [SLASH]
      else let kept = length request_path - length (takeWhile (\<lambda>c. c \<noteq> SLASH) (rev request_path)) - 1
           in if kept = 0 then [SLASH] else take kept request_path)"


section \<open>The policy\<close>

record CodexCookiePolicy =
  allowed_names :: "string set"
  allowed_domains :: "string set"

definition new_CodexCookiePolicy :: "string list \<Rightarrow> string list \<Rightarrow> CookiePolicyError + CodexCookiePolicy" where
  "new_CodexCookiePolicy names domains =
     (case List.find (\<lambda>d. ok (normalize_domain d) = None) domains of
        Some d \<Rightarrow> Err InvalidCookieScope
      | None \<Rightarrow>
          let kept = set (List.map_filter (\<lambda>d. ok (normalize_domain d)) domains) in
          if names = [] \<or> kept = {} then Err EmptyAllowlist
          else Ok \<lparr>allowed_names = set names, allowed_domains = kept\<rparr>)"

definition official :: "CookiePolicyError + CodexCookiePolicy" where
  "official =
     new_CodexCookiePolicy
       [''__Secure-next-auth.session-token'', ''__Secure-authjs.session-token'', ''oai-did'', ''cf_clearance'',
        ''__cf_bm'', ''_cfuvid'']
       [''chatgpt.com'', ''openai.com'']"

definition is_allowed_domain :: "CodexCookiePolicy \<Rightarrow> string \<Rightarrow> bool" where
  "is_allowed_domain p domain \<longleftrightarrow> (\<exists>allowed \<in> allowed_domains p. domain_matches domain allowed)"

record ValidatedCookieScope =
  cs_domain :: string
  cs_host_only :: bool

definition validate_capture ::
  "CodexCookiePolicy \<Rightarrow> ParsedUrl \<Rightarrow> string option \<Rightarrow> string \<Rightarrow> string \<Rightarrow> CookiePolicyError + ValidatedCookieScope" where
  "validate_capture p origin domain_attribute name path =
     (if name \<notin> allowed_names p then Err NameNotAllowed
      else if length name > 256 \<or> path = [] \<or> length path > 1024 \<or> \<not> prefix [SLASH] path
      then Err InvalidCookieScope
      else case url_host origin of
        None \<Rightarrow> Err InvalidOrigin
      | Some host \<Rightarrow>
     (case normalize_domain host of
        Inl e \<Rightarrow> Err e
      | Inr origin_host \<Rightarrow>
          if url_scheme origin \<notin> {''https'', ''http''} \<or> \<not> is_allowed_domain p origin_host
          then Err InvalidOrigin
          else
            case domain_attribute of
              None \<Rightarrow> Ok \<lparr>cs_domain = origin_host, cs_host_only = True\<rparr>
            | Some d \<Rightarrow>
                (case normalize_domain d of
                   Inl e \<Rightarrow> Err e
                 | Inr domain \<Rightarrow>
                     if \<not> is_allowed_domain p domain \<or> \<not> domain_matches origin_host domain
                     then Err InvalidCookieScope
                     else Ok \<lparr>cs_domain = domain, cs_host_only = False\<rparr>)))"

definition may_replay :: "CodexCookiePolicy \<Rightarrow> ParsedUrl \<Rightarrow> string \<Rightarrow> string \<Rightarrow> bool \<Rightarrow> bool \<Rightarrow> bool" where
  "may_replay p target domain path host_only secure =
     (case url_host target of
        None \<Rightarrow> False
      | Some h \<Rightarrow>
     (case normalize_domain h of
        Inl _ \<Rightarrow> False
      | Inr target_host \<Rightarrow>
          if \<not> is_allowed_domain p target_host
             \<or> secure \<and> url_scheme target \<noteq> ''https''
             \<or> \<not> cookie_path_matches (url_path target) path
          then False
          else if host_only then target_host = domain else domain_matches target_host domain))"


section \<open>Response headers\<close>

text \<open>What the \<open>cookie\<close> crate returns for a header, and the instants \<open>chrono\<close> can represent.\<close>

record ParsedCookie =
  ck_name :: string
  ck_value :: string
  ck_domain :: "string option"
  ck_path :: "string option"
  ck_secure :: "bool option"
  ck_max_age_seconds :: "int option"
  ck_expires :: "(int \<times> nat) option"

record CookieDeps =
  cookie_parse :: "string \<Rightarrow> ParsedCookie option"
  utc_add_seconds :: "system_time \<Rightarrow> int \<Rightarrow> system_time option"
  utc_from_timestamp :: "int \<Rightarrow> nat \<Rightarrow> system_time option"

definition MAX_SET_COOKIE_HEADERS :: nat where "MAX_SET_COOKIE_HEADERS = 32"
definition MAX_SET_COOKIE_HEADER_BYTES :: nat where "MAX_SET_COOKIE_HEADER_BYTES = 16 * 1024"
definition MAX_SET_COOKIE_TOTAL_BYTES :: nat where "MAX_SET_COOKIE_TOTAL_BYTES = 64 * 1024"

record UpsertCodexCookie =
  up_account_id :: string
  up_expected_revision :: nat
  up_response_origin :: ParsedUrl
  up_domain_attribute :: "string option"
  up_name :: string
  up_value :: string
  up_path :: string
  up_secure :: bool
  up_expires_at :: "system_time option"
  up_delete :: bool

definition cookie_expiry :: "CookieDeps \<Rightarrow> ParsedCookie \<Rightarrow> system_time \<Rightarrow> system_time option option" where
  "cookie_expiry env c observed_at =
     (case ck_max_age_seconds c of
        Some seconds \<Rightarrow> map_option Some (utc_add_seconds env observed_at seconds)
      | None \<Rightarrow>
     (case ck_expires c of
        None \<Rightarrow> Some None
      | Some (seconds, nanos) \<Rightarrow> map_option Some (utc_from_timestamp env seconds nanos)))"

definition parse_response_header ::
  "CookieDeps \<Rightarrow> CodexCookiePolicy \<Rightarrow> string \<Rightarrow> nat \<Rightarrow> ParsedUrl \<Rightarrow> system_time \<Rightarrow> string \<Rightarrow> UpsertCodexCookie option" where
  "parse_response_header env p account revision origin observed_at header =
     (if header = [] \<or> length header > MAX_SET_COOKIE_HEADER_BYTES then None
      else case cookie_parse env header of
        None \<Rightarrow> None
      | Some c \<Rightarrow>
          let path = unwrap_or (ck_path c) (default_cookie_path (url_path origin)) in
          case validate_capture p origin (ck_domain c) (ck_name c) path of
            Inl _ \<Rightarrow> None
          | Inr _ \<Rightarrow>
         (case cookie_expiry env c observed_at of
            None \<Rightarrow> None
          | Some expires_at \<Rightarrow>
              let removal = is_some_and expires_at (\<lambda>e. e \<le> observed_at) in
              if ck_value c = [] \<and> \<not> removal then None
              else Some \<lparr>up_account_id = account, up_expected_revision = revision, up_response_origin = origin,
                         up_domain_attribute = ck_domain c, up_name = ck_name c, up_value = ck_value c,
                         up_path = path, up_secure = unwrap_or (ck_secure c) False, up_expires_at = expires_at,
                         up_delete = removal\<rparr>))"

record ParsedCookieBatch =
  batch_inputs :: "UpsertCodexCookie list"
  batch_rejected :: nat

text \<open>The sum of the header lengths cannot overflow: the headers are in memory.\<close>

definition parse_response_headers ::
  "CookieDeps \<Rightarrow> CodexCookiePolicy \<Rightarrow> string \<Rightarrow> nat \<Rightarrow> ParsedUrl \<Rightarrow> system_time \<Rightarrow> string list \<Rightarrow> ParsedCookieBatch" where
  "parse_response_headers env p account revision origin observed_at headers =
     (if length headers > MAX_SET_COOKIE_HEADERS
         \<or> sum_list (map length headers) > MAX_SET_COOKIE_TOTAL_BYTES
      then \<lparr>batch_inputs = [], batch_rejected = length headers\<rparr>
      else let parsed = map (parse_response_header env p account revision origin observed_at) headers
           in \<lparr>batch_inputs = List.map_filter (\<lambda>x. x) parsed,
               batch_rejected = length (filter (\<lambda>x. x = None) parsed)\<rparr>)"


section \<open>The jar\<close>

record CodexCookie =
  jar_name :: string
  jar_value :: string
  jar_domain :: string
  jar_path :: string
  jar_host_only :: bool
  jar_secure :: bool
  jar_expires_at :: "system_time option"

fun store_cookies ::
  "CodexCookiePolicy \<Rightarrow> UpsertCodexCookie list \<Rightarrow> CodexCookie list \<Rightarrow> CookiePolicyError + CodexCookie list" where
  "store_cookies p [] jar = Ok jar"
| "store_cookies p (input # inputs) jar =
     (case validate_capture p (up_response_origin input) (up_domain_attribute input) (up_name input) (up_path input) of
        Inl e \<Rightarrow> Err e
      | Inr scope \<Rightarrow>
          let kept = filter (\<lambda>c. \<not> (jar_name c = up_name input \<and> jar_domain c = cs_domain scope
                                      \<and> jar_path c = up_path input)) jar
          in store_cookies p inputs
               (if up_delete input then kept
                else kept @ [\<lparr>jar_name = up_name input, jar_value = up_value input, jar_domain = cs_domain scope,
                              jar_path = up_path input, jar_host_only = cs_host_only scope,
                              jar_secure = up_secure input, jar_expires_at = up_expires_at input\<rparr>]))"

datatype CookieRecovery = ExpireAt system_time | ClearCookies

fun recover_cookies :: "CookieRecovery \<Rightarrow> CodexCookie list \<Rightarrow> CodexCookie list" where
  "recover_cookies (ExpireAt t) jar =
     map (\<lambda>c. c\<lparr>jar_expires_at := Some (case jar_expires_at c of None \<Rightarrow> t | Some u \<Rightarrow> min u t)\<rparr>) jar"
| "recover_cookies ClearCookies jar = []"

text \<open>The cookies of a request: the ones that have not expired and may be sent to its URL.\<close>

definition replayed_cookies :: "CodexCookiePolicy \<Rightarrow> ParsedUrl \<Rightarrow> system_time \<Rightarrow> CodexCookie list \<Rightarrow> CodexCookie list" where
  "replayed_cookies p target now jar =
     filter (\<lambda>c. is_none_or (jar_expires_at c) (\<lambda>e. e > now)
                  \<and> may_replay p target (jar_domain c) (jar_path c) (jar_host_only c) (jar_secure c)) jar"


section \<open>What matching means\<close>

abbreviation labels :: "string \<Rightarrow> string list" where "labels \<equiv> split_at_char DOT"

fun join_with :: "char \<Rightarrow> string list \<Rightarrow> string" where
  "join_with d [] = []"
| "join_with d [x] = x"
| "join_with d (x # xs) = x @ d # join_with d xs"

lemma split_at_char_nonempty [simp]: "split_at_char d s \<noteq> []"
  by (cases s) auto

lemma join_split: "join_with d (split_at_char d s) = s"
proof (induction s)
  case (Cons c s)
  then show ?case by (cases "split_at_char d s"; cases "tl (split_at_char d s)") auto
qed simp

lemma join_with_append: "xs \<noteq> [] \<Longrightarrow> ys \<noteq> [] \<Longrightarrow> join_with d (xs @ ys) = join_with d xs @ d # join_with d ys"
proof (induction xs)
  case (Cons x xs)
  then show ?case by (cases xs; cases ys) auto
qed simp

lemma split_at_char_append: "split_at_char d (s @ d # t) = split_at_char d s @ split_at_char d t"
  by (induction s) auto

text \<open>A host matches a domain exactly when the labels of the domain are the last labels of the host.\<close>

lemma domain_matches_labels: "domain_matches host d \<longleftrightarrow> suffix (labels d) (labels host)"
proof
  assume "domain_matches host d"
  then show "suffix (labels d) (labels host)"
  proof (cases "host = d")
    case False
    then obtain p where "suffix d host" "strip_suffix host d = Some p" "suffix [DOT] p"
      using \<open>domain_matches host d\<close>
      by (auto simp: domain_matches_def is_some_and_iff strip_suffix_def split: if_splits)
    then obtain u where "host = (u @ [DOT]) @ d" by (auto simp: strip_suffix_def suffix_def)
    then show ?thesis using split_at_char_append [of DOT u d] by (simp add: suffix_def)
  qed simp
next
  assume "suffix (labels d) (labels host)"
  then obtain xs where xs: "labels host = xs @ labels d" by (auto simp: suffix_def)
  show "domain_matches host d"
  proof (cases "xs = []")
    case True
    then have "host = d" using xs join_split by (metis append_Nil)
    then show ?thesis by (simp add: domain_matches_def)
  next
    case False
    have "host = join_with DOT (xs @ labels d)" using xs join_split by metis
    also have "\<dots> = (join_with DOT xs @ [DOT]) @ d" using False by (simp add: join_with_append join_split)
    finally show ?thesis by (simp add: domain_matches_def strip_suffix_def suffix_def)
  qed
qed

lemma domain_matches_trans: "domain_matches a b \<Longrightarrow> domain_matches b c \<Longrightarrow> domain_matches a c"
  by (meson domain_matches_labels suffix_order.trans)

text \<open>A path matches when it is the path of the cookie or below it.\<close>

definition path_below :: "string \<Rightarrow> string \<Rightarrow> bool" where
  "path_below r c \<longleftrightarrow> r = c \<or> prefix (if suffix [SLASH] c then c else c @ [SLASH]) r"

lemma cookie_path_below: "cookie_path_matches r c \<longleftrightarrow> path_below r c"
  by (auto simp: cookie_path_matches_def path_below_def is_some_and_iff strip_text_prefix_def prefix_def)


section \<open>Cookies are sent where they came from\<close>

lemma captured_scope:
  assumes "validate_capture p origin attr name path = Ok scope"
  shows "name \<in> allowed_names p" "prefix [SLASH] path" "is_allowed_domain p (cs_domain scope)"
    "\<exists>h. Option.bind (url_host origin) (\<lambda>h. ok (normalize_domain h)) = Some h \<and> is_allowed_domain p h
        \<and> domain_matches h (cs_domain scope)
        \<and> (cs_host_only scope \<longleftrightarrow> attr = None) \<and> (attr = None \<longrightarrow> cs_domain scope = h)"
  using assms
  by (auto simp: validate_capture_def domain_matches_def split: option.splits sum.splits if_splits)

lemma replay_scope:
  assumes "may_replay p target domain path host_only secure"
  shows "\<exists>h. Option.bind (url_host target) (\<lambda>h. ok (normalize_domain h)) = Some h \<and> is_allowed_domain p h
      \<and> domain_matches h domain \<and> (host_only \<longrightarrow> h = domain)"
    "path_below (url_path target) path" "secure \<longrightarrow> url_scheme target = ''https''"
  using assms
  by (auto simp: may_replay_def cookie_path_below domain_matches_def split: option.splits sum.splits if_splits)

text \<open>C9: a cookie that was captured from one origin is sent to another URL only below the path of the cookie, over
  https when it is secure, to a host of an allowed domain; a cookie without a domain attribute only to the very host it
  came from, one with an attribute only to hosts that end, label by label, in the domain both hosts belong to.\<close>

theorem cookies_go_home:
  assumes "validate_capture p origin attr name path = Ok scope"
    "may_replay p target (cs_domain scope) path (cs_host_only scope) secure"
  shows "\<exists>from_host to_host.
      Option.bind (url_host origin) (\<lambda>h. ok (normalize_domain h)) = Some from_host
      \<and> Option.bind (url_host target) (\<lambda>h. ok (normalize_domain h)) = Some to_host
      \<and> (attr = None \<longrightarrow> to_host = from_host)
      \<and> suffix (labels (cs_domain scope)) (labels from_host) \<and> suffix (labels (cs_domain scope)) (labels to_host)
      \<and> (\<exists>allowed \<in> allowed_domains p. suffix (labels allowed) (labels to_host))
      \<and> name \<in> allowed_names p \<and> path_below (url_path target) path
      \<and> (secure \<longrightarrow> url_scheme target = ''https'')"
proof -
  obtain a where a: "Option.bind (url_host origin) (\<lambda>h. ok (normalize_domain h)) = Some a"
    "domain_matches a (cs_domain scope)" "cs_host_only scope \<longleftrightarrow> attr = None" "attr = None \<longrightarrow> cs_domain scope = a"
    using captured_scope(4) [OF assms(1)] by blast
  obtain b where b: "Option.bind (url_host target) (\<lambda>h. ok (normalize_domain h)) = Some b" "is_allowed_domain p b"
    "domain_matches b (cs_domain scope)" "cs_host_only scope \<longrightarrow> b = cs_domain scope"
    using replay_scope(1) [OF assms(2)] by blast
  show ?thesis
    using a b captured_scope(1) [OF assms(1)] replay_scope(2,3) [OF assms(2)]
    by (auto simp: is_allowed_domain_def domain_matches_labels)
qed


section \<open>The jar keeps one cookie per key\<close>

abbreviation jar_key :: "CodexCookie \<Rightarrow> string \<times> string \<times> string" where
  "jar_key c \<equiv> (jar_name c, jar_domain c, jar_path c)"

definition stored_cookie :: "ValidatedCookieScope \<Rightarrow> UpsertCodexCookie \<Rightarrow> CodexCookie" where
  "stored_cookie scope input =
     \<lparr>jar_name = up_name input, jar_value = up_value input, jar_domain = cs_domain scope, jar_path = up_path input,
      jar_host_only = cs_host_only scope, jar_secure = up_secure input, jar_expires_at = up_expires_at input\<rparr>"

text \<open>The last input for a key decides, an older cookie stays when no input has its key.\<close>

definition capture_of :: "CodexCookiePolicy \<Rightarrow> UpsertCodexCookie \<Rightarrow> CookiePolicyError + ValidatedCookieScope" where
  "capture_of p input =
     validate_capture p (up_response_origin input) (up_domain_attribute input) (up_name input) (up_path input)"

definition jar_lookup :: "CodexCookie list \<Rightarrow> string \<times> string \<times> string \<Rightarrow> CodexCookie option" where
  "jar_lookup jar k = List.find (\<lambda>c. jar_key c = k) jar"

fun last_word ::
  "CodexCookiePolicy \<Rightarrow> UpsertCodexCookie list \<Rightarrow> string \<times> string \<times> string \<Rightarrow> CodexCookie option \<Rightarrow> CodexCookie option" where
  "last_word p [] k old = old"
| "last_word p (input # inputs) k old =
     last_word p inputs k
       (case capture_of p input of
          Inl _ \<Rightarrow> old
        | Inr scope \<Rightarrow>
            if (up_name input, cs_domain scope, up_path input) \<noteq> k then old
            else if up_delete input then None else Some (stored_cookie scope input))"

lemma jar_lookup_kept:
  "jar_lookup (filter (\<lambda>c. \<not> (jar_name c = n \<and> jar_domain c = d \<and> jar_path c = q)) jar) k =
     (if k = (n, d, q) then None else jar_lookup jar k)"
  by (induction jar) (auto simp: jar_lookup_def)

lemma jar_lookup_snoc: "jar_lookup (jar @ [c]) k =
    (case jar_lookup jar k of Some x \<Rightarrow> Some x | None \<Rightarrow> if jar_key c = k then Some c else None)"
  by (induction jar) (auto simp: jar_lookup_def)

definition jar_ok :: "CodexCookiePolicy \<Rightarrow> CodexCookie list \<Rightarrow> bool" where
  "jar_ok p jar \<longleftrightarrow> distinct (map jar_key jar)
     \<and> (\<forall>c \<in> set jar. is_allowed_domain p (jar_domain c) \<and> jar_name c \<in> allowed_names p \<and> prefix [SLASH] (jar_path c))"

lemma jar_ok_filter: "jar_ok p jar \<Longrightarrow> jar_ok p (filter P jar)"
  by (auto simp: jar_ok_def distinct_map_filter)

lemma jar_ok_snoc:
  assumes "jar_ok p (filter (\<lambda>c. \<not> (jar_name c = up_name i \<and> jar_domain c = cs_domain scope \<and> jar_path c = up_path i)) jar)"
    "capture_of p i = Ok scope"
  shows "jar_ok p (filter (\<lambda>c. \<not> (jar_name c = up_name i \<and> jar_domain c = cs_domain scope \<and> jar_path c = up_path i)) jar
           @ [stored_cookie scope i])"
  using assms captured_scope(1-3) [OF assms(2) [unfolded capture_of_def]]
  by (auto simp: jar_ok_def stored_cookie_def)

text \<open>Storing the cookies of a response keeps at most one cookie per name, domain and path, all of them allowed by the
  policy, and for every key the last header decides: it stores, replaces or deletes, and other cookies stay.\<close>

theorem jar_keeps_the_last_word:
  assumes "jar_ok p jar" "store_cookies p inputs jar = Ok jar'"
  shows "jar_ok p jar' \<and> (\<forall>k. jar_lookup jar' k = last_word p inputs k (jar_lookup jar k))"
  using assms
proof (induction inputs arbitrary: jar)
  case (Cons i inputs)
  then obtain scope where scope: "capture_of p i = Ok scope"
    by (auto simp: capture_of_def split: sum.splits)
  define kept where
    "kept = filter (\<lambda>c. \<not> (jar_name c = up_name i \<and> jar_domain c = cs_domain scope \<and> jar_path c = up_path i)) jar"
  define next_jar where "next_jar = (if up_delete i then kept else kept @ [stored_cookie scope i])"
  have ok: "jar_ok p next_jar"
    using jar_ok_filter [OF Cons.prems(1)] jar_ok_snoc [OF _ scope, of jar]
    by (auto simp: next_jar_def kept_def)
  have run: "store_cookies p inputs next_jar = Ok jar'"
    using Cons.prems(2) scope
    by (cases "up_delete i") (simp_all add: capture_of_def next_jar_def kept_def stored_cookie_def Let_def)
  have kept: "jar_lookup kept k = (if k = (up_name i, cs_domain scope, up_path i) then None else jar_lookup jar k)" for k
    unfolding kept_def by (rule jar_lookup_kept)
  have "jar_lookup next_jar k =
      (if (up_name i, cs_domain scope, up_path i) \<noteq> k then jar_lookup jar k
       else if up_delete i then None else Some (stored_cookie scope i))" for k
    by (auto simp: next_jar_def kept jar_lookup_snoc stored_cookie_def split: option.splits)
  then show ?case using Cons.IH [OF ok run] scope by simp
qed simp


section \<open>Two origins\<close>

definition sample_policy :: CodexCookiePolicy where
  "sample_policy = \<lparr>allowed_names = {''oai-did''}, allowed_domains = {''chatgpt.com''}\<rparr>"

definition sample_origin :: "string \<Rightarrow> string \<Rightarrow> ParsedUrl" where
  "sample_origin host path =
     \<lparr>url_text = ''https://'' @ host @ path, url_scheme = ''https'', url_host = Some host,
      url_port_or_known_default = Some 443, url_path = path, url_query = None, url_fragment = None\<rparr>"

definition sample_cookie :: "string \<Rightarrow> bool \<Rightarrow> UpsertCodexCookie" where
  "sample_cookie v removal =
     \<lparr>up_account_id = ''a'', up_expected_revision = 1, up_response_origin = sample_origin ''api.chatgpt.com'' ''/codex'',
      up_domain_attribute = Some ''.ChatGPT.com'', up_name = ''oai-did'', up_value = v, up_path = ''/codex'',
      up_secure = True, up_expires_at = None, up_delete = removal\<rparr>"

lemma sample_capture_of:
  "validate_capture sample_policy (sample_origin ''api.chatgpt.com'' ''/codex'') (Some ''.ChatGPT.com'') ''oai-did'' ''/codex''
     = Ok \<lparr>cs_domain = ''chatgpt.com'', cs_host_only = False\<rparr>"
  by code_simp

theorem cookies_go_home_witness:
  "may_replay sample_policy (sample_origin ''www.chatgpt.com'' ''/codex/responses'') ''chatgpt.com'' ''/codex'' False True
   \<and> path_below ''/codex/responses'' ''/codex''"
proof -
  have replay: "may_replay sample_policy (sample_origin ''www.chatgpt.com'' ''/codex/responses'')
      (cs_domain \<lparr>cs_domain = ''chatgpt.com'', cs_host_only = False\<rparr>) ''/codex''
      (cs_host_only \<lparr>cs_domain = ''chatgpt.com'', cs_host_only = False\<rparr>) True"
    by code_simp
  from cookies_go_home [OF sample_capture_of this] replay show ?thesis by (auto simp: sample_origin_def)
qed

theorem jar_keeps_the_last_word_witness:
  "\<exists>jar. store_cookies sample_policy [sample_cookie ''x'' False, sample_cookie ''y'' False] [] = Ok jar
     \<and> jar_ok sample_policy jar
     \<and> map_option jar_value (jar_lookup jar (''oai-did'', ''chatgpt.com'', ''/codex'')) = Some ''y''"
proof -
  have capture: "validate_capture sample_policy (up_response_origin (sample_cookie v d))
      (up_domain_attribute (sample_cookie v d)) (up_name (sample_cookie v d)) (up_path (sample_cookie v d))
      = Ok \<lparr>cs_domain = ''chatgpt.com'', cs_host_only = False\<rparr>" for v d
    using sample_capture_of by (simp add: sample_cookie_def)
  have empty: "jar_ok sample_policy []" by (simp add: jar_ok_def)
  have "\<exists>jar. store_cookies sample_policy [sample_cookie ''x'' False, sample_cookie ''y'' False] [] = Ok jar"
    by (simp add: capture Let_def)
  then obtain jar where run: "store_cookies sample_policy [sample_cookie ''x'' False, sample_cookie ''y'' False] [] = Ok jar"
    by blast
  from jar_keeps_the_last_word [OF empty run] have "jar_ok sample_policy jar"
    "jar_lookup jar k = last_word sample_policy [sample_cookie ''x'' False, sample_cookie ''y'' False] k (jar_lookup [] k)" for k
    by blast+
  then show ?thesis using run
    by (simp add: capture_of_def capture) (simp add: stored_cookie_def sample_cookie_def)
qed

end
