(* ===== verification/Request_Policy.thy ===== *)
theory Request_Policy
  imports Request_Access
begin

text \<open>
  How a plugin takes part in the choice of an account: \<open>RequestPolicyContext::select_account\<close> of
  \<open>gateway-core/src/engine/policy.rs\<close> and \<open>AttemptContext::select_account\<close> of \<open>engine/mod.rs\<close>.

  The plan of the plugin is a parameter. It sees a projection of the eligible accounts, without credentials,
  and answers with an account, a delegation or a rejection, or its call fails. The call takes time: the choice
  is checked again at the time it returns.
\<close>

section \<open>What a plan sees and answers\<close>

record AccountScheduleCandidate =
  sc_account_id :: ProviderAccountId
  sc_weight :: nat
  sc_in_flight :: nat
  sc_maximum_concurrency :: nat
  sc_last_started_at :: "system_time option"
  sc_quota_reset_at :: "system_time option"
  sc_quota_remaining_rank :: "nat option"
  sc_failure_rate_basis_points :: "nat option"
  sc_first_output_latency_ms :: "nat option"

record AccountScheduleInput =
  si_request_id :: ModelRequestId
  si_attempt_index :: nat
  si_client_key_id :: ClientApiKeyId
  si_account_group_ids :: "AccountGroupId list"
  si_extension_scope :: ExtensionCallScope
  si_provider :: ProviderKind
  si_model :: "string option"
  si_candidates :: "AccountScheduleCandidate list"

datatype AccountScheduleDecision = PickAccount ProviderAccountId | DelegateSelection | RejectSelection

datatype AccountPolicyError = PolicyRejectedSelection | PolicyFault | StaleCandidate

text \<open>Group identifiers are ordered by their text, as the derived \<open>Ord\<close> of the newtype is.\<close>

instantiation AccountGroupId :: linorder
begin

definition less_eq_AccountGroupId :: "AccountGroupId \<Rightarrow> AccountGroupId \<Rightarrow> bool" where
  "less_eq_AccountGroupId a b = (group_id_str a \<le> group_id_str b)"

definition less_AccountGroupId :: "AccountGroupId \<Rightarrow> AccountGroupId \<Rightarrow> bool" where
  "less_AccountGroupId a b = (group_id_str a < group_id_str b)"

instance
  by standard
    (auto simp: less_eq_AccountGroupId_def less_AccountGroupId_def intro: AccountGroupId.expand)

end

record RequestPolicyContext =
  rp_schedule :: "nat \<Rightarrow> AccountScheduleInput \<Rightarrow> unit + AccountScheduleDecision"
  rp_request_id :: ModelRequestId
  rp_client_key_id :: ClientApiKeyId
  rp_account_group_ids :: "AccountGroupId list"
  rp_extension_scope :: ExtensionCallScope

definition new_RequestPolicyContext ::
  "(nat \<Rightarrow> AccountScheduleInput \<Rightarrow> unit + AccountScheduleDecision) \<Rightarrow> ModelRequestId \<Rightarrow> ClientApiKeyId
   \<Rightarrow> AccountGroupId list \<Rightarrow> RequestPolicyContext" where
  "new_RequestPolicyContext schedule request_id key groups =
     \<lparr>rp_schedule = schedule, rp_request_id = request_id, rp_client_key_id = key,
      rp_account_group_ids = remdups_adj (sort groups), rp_extension_scope = {}\<rparr>"

definition policy_with_extension_scope :: "RequestPolicyContext \<Rightarrow> ExtensionCallScope \<Rightarrow> RequestPolicyContext" where
  "policy_with_extension_scope p scope = p\<lparr>rp_extension_scope := scope\<rparr>"


section \<open>Selection\<close>

definition schedule_candidate :: "AccountSelectionContext \<Rightarrow> AccountCandidate \<Rightarrow> AccountScheduleCandidate" where
  "schedule_candidate ctx c =
     \<lparr>sc_account_id = cand_id c, sc_weight = weight_get (cand_weight c), sc_in_flight = in_flight (cand_signals c),
      sc_maximum_concurrency = concurrency_get (ctx_concurrency_limit ctx (cand_account c)),
      sc_last_started_at = last_started_at (cand_signals c),
      sc_quota_reset_at = sig_quota_reset_at (cand_signals c),
      sc_quota_remaining_rank = quota_remaining_rank (cand_signals c),
      sc_failure_rate_basis_points = failure_rate_basis_points (cand_signals c),
      sc_first_output_latency_ms = first_output_latency_ms (cand_signals c)\<rparr>"

definition schedule_input ::
  "RequestPolicyContext \<Rightarrow> nat \<Rightarrow> ProviderKind \<Rightarrow> string option \<Rightarrow> AccountSelectionContext \<Rightarrow> AccountCandidate list
   \<Rightarrow> AccountScheduleInput" where
  "schedule_input p attempt_index provider model ctx eligible =
     \<lparr>si_request_id = rp_request_id p, si_attempt_index = attempt_index, si_client_key_id = rp_client_key_id p,
      si_account_group_ids = rp_account_group_ids p, si_extension_scope = rp_extension_scope p,
      si_provider = provider, si_model = model, si_candidates = map (schedule_candidate ctx) eligible\<rparr>"

text \<open>\<open>moment\<close> is the tick of the call, \<open>now\<close> the time it returns.\<close>

definition policy_select_account ::
  "RequestPolicyContext \<Rightarrow> nat \<Rightarrow> system_time \<Rightarrow> nat \<Rightarrow> ProviderKind \<Rightarrow> string option
   \<Rightarrow> AccountCandidate list \<Rightarrow> AccountSelectionContext \<Rightarrow> AccountPolicyError + AccountSelection option" where
  "policy_select_account p moment now attempt_index provider model candidates ctx =
     (let eligible = policy_candidates candidates ctx;
          current = ctx\<lparr>ctx_now := now\<rparr> in
      if eligible = [] then Ok None
      else case rp_schedule p moment (schedule_input p attempt_index provider model ctx eligible) of
        Inl _ \<Rightarrow> Err PolicyFault
      | Inr DelegateSelection \<Rightarrow>
          (case select candidates current of None \<Rightarrow> Err StaleCandidate | Some s \<Rightarrow> Ok (Some s))
      | Inr RejectSelection \<Rightarrow> Err PolicyRejectedSelection
      | Inr (PickAccount i) \<Rightarrow>
          if \<not> list_ex (\<lambda>c. cand_id c = i) eligible then Err PolicyFault
          else (case select_policy_candidate candidates current i of
                  None \<Rightarrow> Err StaleCandidate
                | Some s \<Rightarrow> Ok (Some s)))"

definition select_account ::
  "RequestPolicyContext option \<Rightarrow> nat \<Rightarrow> system_time \<Rightarrow> nat \<Rightarrow> ProviderKind \<Rightarrow> string option
   \<Rightarrow> AccountCandidate list \<Rightarrow> AccountSelectionContext \<Rightarrow> AccountPolicyError + AccountSelection option" where
  "select_account policy moment now attempt_index provider model candidates ctx =
     (case policy of
        Some p \<Rightarrow> policy_select_account p moment now attempt_index provider model candidates ctx
      | None \<Rightarrow> Ok (select candidates ctx))"


section \<open>A policy only chooses among eligible accounts\<close>

lemma select_policy_candidate_eligible:
  assumes "select_policy_candidate cs ctx i = Some s"
  shows "sel_candidate s \<in> set (policy_candidates cs ctx)" "cand_id (sel_candidate s) = i" "sel_policy_choice s"
    "sel_preferred s = Hit \<Longrightarrow> ctx_preferred_account ctx = Some i"
  using assms
  by (auto simp: select_policy_candidate_def policy_candidates_def Let_def dest: find_Some_in
      split: option.splits if_splits)

lemma select_account_eligible:
  assumes "select_account policy moment now n kind model cs ctx = Ok (Some s)"
  shows "\<exists>time \<in> {ctx_now ctx, now}. sel_candidate s \<in> set (policy_candidates cs (ctx\<lparr>ctx_now := time\<rparr>))"
  using assms select_eligible [of cs ctx s] select_eligible [of cs "ctx\<lparr>ctx_now := now\<rparr>" s]
    select_policy_candidate_eligible(1) [of cs "ctx\<lparr>ctx_now := now\<rparr>" _ s]
  by (auto simp: select_account_def policy_select_account_def Let_def
      split: option.splits sum.splits AccountScheduleDecision.splits if_splits)

lemma policy_candidates_not_excluded:
  "c \<in> set (policy_candidates cs ctx) \<Longrightarrow> c \<in> set cs \<and> cand_id c \<notin> ctx_excluded_accounts ctx"
  by (auto simp: policy_candidates_def blocker_None_iff)

text \<open>C10: whatever a plan answers, the account it gets is eligible at the time the call returns and within the scope;
  a pick is the account the plan named, and was eligible when the plan was asked; a delegation is the built-in choice.\<close>

theorem policy_choice_is_eligible:
  assumes "policy_select_account p moment now n kind model cs ctx = Ok (Some s)"
  shows "sel_candidate s \<in> set (policy_candidates cs (ctx\<lparr>ctx_now := now\<rparr>))
    \<and> is_none_or (ctx_account_scope ctx) (\<lambda>scope. allows scope (cand_id (sel_candidate s)))
    \<and> (case rp_schedule p moment (schedule_input p n kind model ctx (policy_candidates cs ctx)) of
         Inr (PickAccount i) \<Rightarrow>
           cand_id (sel_candidate s) = i \<and> sel_policy_choice s
           \<and> i \<in> cand_id ` set (policy_candidates cs ctx)
           \<and> (sel_preferred s = Hit \<longrightarrow> ctx_preferred_account ctx = Some i)
       | Inr DelegateSelection \<Rightarrow> select cs (ctx\<lparr>ctx_now := now\<rparr>) = Some s \<and> \<not> sel_policy_choice s
       | _ \<Rightarrow> False)"
proof -
  let ?now = "ctx\<lparr>ctx_now := now\<rparr>"
  have "(case rp_schedule p moment (schedule_input p n kind model ctx (policy_candidates cs ctx)) of
         Inr (PickAccount i) \<Rightarrow> select_policy_candidate cs ?now i = Some s \<and> i \<in> cand_id ` set (policy_candidates cs ctx)
       | Inr DelegateSelection \<Rightarrow> select cs ?now = Some s
       | _ \<Rightarrow> False)"
    using assms
    by (auto simp: policy_select_account_def Let_def list_ex_iff
        split: option.splits sum.splits AccountScheduleDecision.splits if_splits)
  then have "sel_candidate s \<in> set (policy_candidates cs ?now)"
    and "case rp_schedule p moment (schedule_input p n kind model ctx (policy_candidates cs ctx)) of
         Inr (PickAccount i) \<Rightarrow>
           cand_id (sel_candidate s) = i \<and> sel_policy_choice s
           \<and> i \<in> cand_id ` set (policy_candidates cs ctx)
           \<and> (sel_preferred s = Hit \<longrightarrow> ctx_preferred_account ctx = Some i)
       | Inr DelegateSelection \<Rightarrow> select cs ?now = Some s \<and> \<not> sel_policy_choice s
       | _ \<Rightarrow> False"
    using select_eligible [of cs ?now s] select_policy_candidate_eligible [of cs ?now _ s]
    by (auto split: sum.splits AccountScheduleDecision.splits)
  then show ?thesis by (auto simp: policy_candidates_def blocker_None_iff)
qed

definition sample_plan :: RequestPolicyContext where
  "sample_plan =
     new_RequestPolicyContext (\<lambda>_ i. Ok (PickAccount (sc_account_id (last (si_candidates i))))) (ModelRequestId ''r'')
       (ClientApiKeyId ''k'') []"

theorem policy_choice_is_eligible_witness:
  "\<exists>s. policy_select_account sample_plan 0 0 0 sample_kind None
          [sample_candidate ''a'' 0, sample_candidate ''b'' 0] (sample_context RoundRobin) = Ok (Some s)
     \<and> cand_id (sel_candidate s) = ProviderAccountId ''b'' \<and> sel_policy_choice s"
proof -
  have free: "scheduling_blocker (sample_candidate name 0) (sample_context RoundRobin\<lparr>ctx_now := 0\<rparr>) = None"
    "scheduling_blocker (sample_candidate name 0) (sample_context RoundRobin) = None" for name
    by (simp_all add: scheduling_blocker_def sample_context_def sample_candidate_def
        new_AccountSelectionPolicy_def new_ProviderAccount_def ctx_concurrency_limit_def
        effective_concurrency_def status_projection_def resolve_account_status_def
        bypasses_local_eligibility_def credential_error_def quota_unknown_def is_exhausted_def plain_projection_def)
  let ?cs = "[sample_candidate ''a'' 0, sample_candidate ''b'' 0]"
  have ids: "cand_id (sample_candidate name 0) = ProviderAccountId name" for name
    by (simp add: sample_candidate_def new_ProviderAccount_def)
  have eligible: "policy_candidates ?cs (sample_context RoundRobin) = ?cs"
    by (simp add: policy_candidates_def free)
  have plan: "rp_schedule sample_plan 0 (schedule_input sample_plan 0 sample_kind None (sample_context RoundRobin) ?cs) =
      Ok (PickAccount (ProviderAccountId ''b''))"
    by (simp add: sample_plan_def new_RequestPolicyContext_def schedule_input_def schedule_candidate_def ids)
  have "\<exists>s. policy_select_account sample_plan 0 0 0 sample_kind None ?cs (sample_context RoundRobin) = Ok (Some s)"
    by (simp add: policy_select_account_def eligible plan Let_def ids select_policy_candidate_def free)
  then obtain s where run: "policy_select_account sample_plan 0 0 0 sample_kind None ?cs (sample_context RoundRobin) = Ok (Some s)"
    by blast
  from policy_choice_is_eligible [OF run] run show ?thesis by (simp add: eligible plan)
qed

end
