(* ===== verification/Codex_Selector.thy ===== *)
theory Codex_Selector
  imports Request_Policy Cookie_Policy
begin

text \<open>
  How the OpenAI provider chooses the account of an attempt and takes its lease:
  \<open>select_inner\<close> of \<open>providers/openai/src/credential/selector.rs\<close>, with the parts of
  \<open>credential/repository.rs\<close> it reads credentials through. It puts together what the other theories model
  alone: the frozen scope, the eligibility of accounts and their ranking, the policy of a plugin, the wait queue of
  an account, and the cookies that are sent.

  The environment of a selection is a function of a tick, and every await takes one tick. Meanwhile other requests
  use the same wait queue: \<open>sv_others\<close> is what they did to it. The stores, the quota service and the lease port are
  parameters; a loop of reads takes one tick. What the selector does to the outside is a log; an entry for a lease
  request keeps the wait and the queue as they were when it was sent.
\<close>

section \<open>Credentials\<close>

datatype ResponsesTransport = HttpTransport | PreferWebsocket

text \<open>The runtime form of a cookie wraps its value, and is otherwise the cookie of the jar.\<close>

record 'a CodexRuntimeCredential =
  rc_transport :: ResponsesTransport
  rc_authentication :: 'a
  rc_installation_id :: string
  rc_cookies :: "CodexCookie list"

datatype CredentialRepositoryError = InvalidCredentialData | RevisionConflict | RepositoryStore

datatype CredentialSelectionError =
    SelQueueRejected QueueRejection
  | NoEligibleCredential
  | SelQuotaExhausted
  | CapacityUnavailable "duration option"
  | InvalidCredential
  | AccountSnapshotChanged
  | SelStore
  | SelCoordinator
  | SelCookiePolicy
  | SelPolicyRejected
  | SelPolicyUnavailable

fun from_repository_error :: "CredentialRepositoryError \<Rightarrow> CredentialSelectionError" where
  "from_repository_error InvalidCredentialData = InvalidCredential"
| "from_repository_error RevisionConflict = SelStore"
| "from_repository_error RepositoryStore = SelStore"

definition CODEX_PROVIDER_NAME :: ProviderKind where "CODEX_PROVIDER_NAME = ProviderKind ''openai''"

record 'c LoadedCredential =
  lc_account :: ProviderAccount
  lc_credential :: 'c

text \<open>The codec of a credential: the authentication kind of its complete data, and its runtime form.\<close>

record ('c, 'a) CredentialCodec =
  decode_complete_kind :: "'c \<Rightarrow> string option"
  decode_runtime :: "'c \<Rightarrow> 'a CodexRuntimeCredential option"

definition decode_runtime_credential ::
  "('c, 'a) CredentialCodec \<Rightarrow> 'c LoadedCredential \<Rightarrow> CredentialRepositoryError + 'a CodexRuntimeCredential" where
  "decode_runtime_credential codec loaded =
     (if account_provider (lc_account loaded) \<noteq> CODEX_PROVIDER_NAME then Err InvalidCredentialData
      else case decode_complete_kind codec (lc_credential loaded) of
        None \<Rightarrow> Err InvalidCredentialData
      | Some kind \<Rightarrow>
          if kind \<noteq> authentication_kind (lc_account loaded) then Err InvalidCredentialData
          else ok_or (decode_runtime codec (lc_credential loaded)) InvalidCredentialData)"

text \<open>\<open>load\<close> is the store's \<open>load_credential\<close>.\<close>

definition load_runtime_credential ::
  "('c, 'a) CredentialCodec \<Rightarrow>
     (ProviderAccountId \<Rightarrow> CredentialRevision \<Rightarrow> CredentialRepositoryError + 'c LoadedCredential) \<Rightarrow>
     ProviderAccount \<Rightarrow> CredentialRepositoryError + 'a CodexRuntimeCredential" where
  "load_runtime_credential codec load account =
     (if account_provider account \<noteq> CODEX_PROVIDER_NAME then Err InvalidCredentialData
      else case load (account_id account) (account_revision account) of
        Inl e \<Rightarrow> Err e
      | Inr loaded \<Rightarrow>
          if lc_account loaded \<noteq> account then Err RevisionConflict
          else decode_runtime_credential codec loaded)"


section \<open>Session affinity\<close>

datatype ProviderSessionAffinityKey = ProviderSessionAffinityKey (affinity_key_text: string)

datatype SessionAffinityLookup = SessionMissing | SessionBound ProviderAccountId | SessionUnavailable

datatype AffinityEscapeReason =
    HardUnavailable
  | EscapeQuotaExhausted
  | EscapeCooldown
  | LeaseSaturated
  | HigherPriority
  | PinnedAccount
  | SchedulingPolicy
  | SelectionInvariant

record AffinitySelection =
  af_bound_account :: "ProviderAccountId option"
  af_preferred_account :: "ProviderAccountId option"
  af_escape_reason :: "AffinityEscapeReason option"
  af_inherited :: bool

definition default_affinity :: AffinitySelection where
  "default_affinity =
     \<lparr>af_bound_account = None, af_preferred_account = None, af_escape_reason = None, af_inherited = False\<rparr>"

definition affinity_preferred :: "ProviderAccountId \<Rightarrow> AffinitySelection" where
  "affinity_preferred i =
     \<lparr>af_bound_account = Some i, af_preferred_account = Some i, af_escape_reason = None, af_inherited = False\<rparr>"

definition affinity_escaped :: "ProviderAccountId \<Rightarrow> AffinityEscapeReason \<Rightarrow> AffinitySelection" where
  "affinity_escaped i reason =
     \<lparr>af_bound_account = Some i, af_preferred_account = None, af_escape_reason = Some reason, af_inherited = False\<rparr>"

definition escape :: "AffinityEscapeReason \<Rightarrow> AffinitySelection \<Rightarrow> AffinitySelection" where
  "escape reason a =
     (if is_some (af_bound_account a) \<and> af_escape_reason a = None
      then a\<lparr>af_escape_reason := Some reason, af_preferred_account := None\<rparr> else a)"

fun preferred_escape :: "PreferredAccountSelection \<Rightarrow> AffinityEscapeReason option" where
  "preferred_escape Hit = None"
| "preferred_escape OverriddenByPolicy = Some SchedulingPolicy"
| "preferred_escape (Blocked ConcurrencyLimit) = Some LeaseSaturated"
| "preferred_escape (Blocked RequestInterval) = Some EscapeCooldown"
| "preferred_escape (Blocked LowerWeight) = Some HigherPriority"
| "preferred_escape (Blocked _) = Some HardUnavailable"
| "preferred_escape Missing = Some HardUnavailable"
| "preferred_escape NotRequested = Some SelectionInvariant"

definition observe_preferred_selection :: "PreferredAccountSelection \<Rightarrow> AffinitySelection \<Rightarrow> AffinitySelection" where
  "observe_preferred_selection p a =
     (if af_bound_account a = None \<or> is_some (af_escape_reason a) then a
      else case preferred_escape p of None \<Rightarrow> a | Some reason \<Rightarrow> escape reason a)"

definition observe_lease_busy :: "ProviderAccountId \<Rightarrow> AffinitySelection \<Rightarrow> AffinitySelection" where
  "observe_lease_busy i a = (if af_bound_account a = Some i then escape LeaseSaturated a else a)"

record AffinityTelemetry =
  at_affinity_hit :: bool
  at_escape_reason :: "AffinityEscapeReason option"
  at_account_switch :: bool

definition telemetry :: "AffinitySelection \<Rightarrow> ProviderAccountId \<Rightarrow> AffinityTelemetry" where
  "telemetry a selected =
     \<lparr>at_affinity_hit = (\<not> af_inherited a \<and> af_bound_account a = Some selected \<and> af_escape_reason a = None),
      at_escape_reason = af_escape_reason a,
      at_account_switch = is_some_and (af_bound_account a) (\<lambda>bound. bound \<noteq> selected)\<rparr>"

definition candidate_status :: "system_time \<Rightarrow> AccountCandidate \<Rightarrow> AccountStatus" where
  "candidate_status now c = status (status_projection (cand_account c) now (sig_cooldown (cand_signals c)))"

definition affinity_unavailable_reason :: "AccountCandidate \<Rightarrow> system_time \<Rightarrow> AffinityEscapeReason" where
  "affinity_unavailable_reason c now =
     (case candidate_status now c of
        QuotaExhausted \<Rightarrow> EscapeQuotaExhausted
      | RateLimited \<Rightarrow> EscapeCooldown
      | Normal \<Rightarrow> SelectionInvariant
      | Disabled \<Rightarrow> HardUnavailable
      | Error \<Rightarrow> HardUnavailable)"

definition affinity_selection_for_bound_account ::
  "ProviderAccountId \<Rightarrow> AccountCandidate list \<Rightarrow> system_time \<Rightarrow> AffinitySelection" where
  "affinity_selection_for_bound_account i candidates now =
     (case List.find (\<lambda>c. cand_id c = i) candidates of
        None \<Rightarrow> affinity_escaped i HardUnavailable
      | Some c \<Rightarrow>
          if candidate_status now c = Normal then affinity_preferred i
          else affinity_escaped i (affinity_unavailable_reason c now))"


section \<open>The request and its environment\<close>

record SelectionAttempt = AttemptContext +
  sa_policy :: AccountSelectionPolicy
  sa_wait_budget :: "system_time option"
  sa_request_policy :: "RequestPolicyContext option"

record CredentialSelectionInput =
  ci_requires_websocket :: bool
  ci_request_url :: ParsedUrl
  ci_attempt :: SelectionAttempt
  ci_affinity_key :: "ProviderSessionAffinityKey option"
  ci_root_key :: "ProviderSessionAffinityKey option"
  ci_guardian :: bool
  ci_cyber_policy_key :: "ProviderSessionAffinityKey option"
  ci_upstream_model :: "string option"

record ProviderSchedulingLeaseRequest =
  lr_provider_kind :: ProviderKind
  lr_account_id :: ProviderAccountId
  lr_credential_revision :: CredentialRevision
  lr_max_concurrent :: AccountConcurrency
  lr_request_interval :: duration
  lr_deadline :: system_time

datatype ProviderLeaseAcquisition = LeaseGranted | LeaseBusy "duration option"

record ProviderSessionExclusions =
  ex_excluded_accounts :: "ProviderAccountId set"
  ex_revision :: string

type_synonym CodexCyberPolicyScope = "ProviderSessionAffinityKey \<times> ProviderSessionExclusions option"

record ('c, 'a) SelectorEnv =
  sv_provider_kind :: ProviderKind
  sv_codec :: "('c, 'a) CredentialCodec"
  sv_cookie_policy :: CodexCookiePolicy
  sv_now :: "nat \<Rightarrow> system_time"
  sv_others :: "nat \<Rightarrow> ProviderAccountId QueueState \<Rightarrow> ProviderAccountId QueueState"
  sv_list_accounts :: "nat \<Rightarrow> CredentialRepositoryError + ProviderAccount list"
  sv_get_account :: "nat \<Rightarrow> ProviderAccountId \<Rightarrow> unit + ProviderAccount option"
  sv_load_credential ::
    "nat \<Rightarrow> ProviderAccountId \<Rightarrow> CredentialRevision \<Rightarrow> CredentialRepositoryError + 'c LoadedCredential"
  sv_cooldown :: "nat \<Rightarrow> ProviderAccountId \<Rightarrow> AccountCooldown option"
  sv_quota_signals :: "nat \<Rightarrow> ProviderAccount \<Rightarrow> AccountQuotaSignals option"
  sv_health :: "nat \<Rightarrow> ProviderAccountId \<Rightarrow> nat option \<times> nat option"
  sv_load_state :: "nat \<Rightarrow> ProviderAccountId list \<Rightarrow> unit + (ProviderAccountId \<rightharpoonup> AccountRuntimeSignals) \<times> nat"
  sv_lookup_affinity :: "nat \<Rightarrow> ProviderSessionAffinityKey \<Rightarrow> SessionAffinityLookup"
  sv_claim_affinity :: "nat \<Rightarrow> ProviderSessionAffinityKey \<Rightarrow> ProviderAccountId \<Rightarrow> ProviderAccountId option"
  sv_load_exclusions :: "nat \<Rightarrow> ProviderSessionAffinityKey \<Rightarrow> ProviderSessionExclusions option"
  sv_try_acquire :: "nat \<Rightarrow> ProviderSchedulingLeaseRequest \<Rightarrow> unit + ProviderLeaseAcquisition"

datatype SelectorEffect =
    LeaseRequested ProviderSchedulingLeaseRequest "ProviderAccountId CapacityWait" "ProviderAccountId QueueState"
  | LeaseTaken ProviderAccountId
  | LeaseDropped ProviderAccountId
  | TicketTaken "ProviderAccountId WaitTicket"
  | AffinityClaimed ProviderSessionAffinityKey ProviderAccountId
  | AffinityRenewed ProviderSessionAffinityKey ProviderAccountId

record SelectorState =
  se_tick :: nat
  se_waiting :: "ProviderAccountId CapacityWait"
  se_queue :: "ProviderAccountId QueueState"
  se_retries :: nat
  se_log :: "SelectorEffect list"

definition se_await :: "('c, 'a) SelectorEnv \<Rightarrow> SelectorState \<Rightarrow> SelectorState" where
  "se_await env s = s\<lparr>se_tick := se_tick s + 1, se_queue := sv_others env (se_tick s) (se_queue s)\<rparr>"

definition se_note :: "SelectorEffect list \<Rightarrow> SelectorState \<Rightarrow> SelectorState" where
  "se_note effects s = s\<lparr>se_log := se_log s @ effects\<rparr>"

definition is_diagnostic_attempt :: "CredentialSelectionInput \<Rightarrow> bool" where
  "is_diagnostic_attempt r = ac_diagnostic_required_account (cx_account (ci_attempt r))"

text \<open>A named slot is kept free for reviews; a review may use all of them and waits in front.\<close>

definition prioritized :: "CredentialSelectionInput \<Rightarrow> bool" where
  "prioritized r \<longleftrightarrow> ci_guardian r \<and> policy_guardian_reserved (sa_policy (ci_attempt r)) > 0"

definition request_reserved_concurrency :: "CredentialSelectionInput \<Rightarrow> nat" where
  "request_reserved_concurrency r =
     (if prioritized r then 0 else policy_guardian_reserved (sa_policy (ci_attempt r)))"

definition initial_wait :: "CredentialSelectionInput \<Rightarrow> ProviderAccountId CapacityWait" where
  "initial_wait r =
     with_priority
       (new_CapacityWait (policy_queue (sa_policy (ci_attempt r))) (cx_deadline (ci_attempt r))
          (sa_wait_budget (ci_attempt r)))
       (if prioritized r then HighPriority else NormalPriority)"

definition continuation_account :: "ProviderKind \<Rightarrow> CredentialSelectionInput \<Rightarrow> ProviderAccountId option" where
  "continuation_account kind r =
     (let attempt = ci_attempt r in
      case cx_continuation_attempt attempt of
        Native \<Rightarrow> map_option pin_account (Option.bind (cx_continuation attempt) binding_pinned)
      | ReplayOwner \<Rightarrow>
          map_option state_owner_account
            (filter_option (\<lambda>owner. state_owner_provider owner = kind) (ac_state_owner (cx_account attempt)))
      | NoContinuation \<Rightarrow> None
      | ReplayAny \<Rightarrow> None)"

definition pinned_account ::
  "ProviderKind \<Rightarrow> CredentialSelectionInput \<Rightarrow> CredentialSelectionError + ProviderAccountId option" where
  "pinned_account kind r =
     (let required = ac_required_account (cx_account (ci_attempt r)) in
      case (required, continuation_account kind r) of
        (Some x, Some y) \<Rightarrow> if x \<noteq> y then Err NoEligibleCredential else Ok (Some x)
      | (Some x, None) \<Rightarrow> Ok (Some x)
      | (None, c) \<Rightarrow> Ok c)"


section \<open>Capturing a round\<close>

text \<open>
  What one pass of the outer loop reads before it selects: the candidates with their signals, the rotation cursor,
  and what the session excludes and prefers.
\<close>

record SelectionRound =
  rd_candidates :: "AccountCandidate list"
  rd_cursor :: nat
  rd_cyber_policy_scope :: "CodexCyberPolicyScope option"
  rd_base_excluded :: "ProviderAccountId set"
  rd_affinity :: AffinitySelection
  rd_observed_account :: "ProviderAccountId option"

datatype 'r Capture = CaptureFailed CredentialSelectionError SelectorState | CaptureAgain SelectorState
  | Captured 'r SelectorState

definition MAX_ACCOUNT_SNAPSHOT_RETRIES :: nat where "MAX_ACCOUNT_SNAPSHOT_RETRIES = 3"

definition retry_account_snapshot :: "SelectorState \<Rightarrow> (CredentialSelectionError \<times> SelectorState) + SelectorState" where
  "retry_account_snapshot s =
     (if se_retries s < MAX_ACCOUNT_SNAPSHOT_RETRIES then Ok (s\<lparr>se_retries := se_retries s + 1\<rparr>)
      else Err (AccountSnapshotChanged, s))"

definition load_runtime ::
  "('c, 'a) SelectorEnv \<Rightarrow> ProviderAccount \<Rightarrow> SelectorState
   \<Rightarrow> (CredentialRepositoryError + 'a CodexRuntimeCredential) \<times> SelectorState" where
  "load_runtime env account s =
     (load_runtime_credential (sv_codec env) (sv_load_credential env (se_tick s)) account, se_await env s)"

definition in_request_scope :: "ProviderKind \<Rightarrow> CredentialSelectionInput \<Rightarrow> ProviderAccount \<Rightarrow> bool" where
  "in_request_scope kind r account \<longleftrightarrow>
     (let scope = ac_account_scope (cx_account (ci_attempt r)); i = account_id account in
      account_provider account = kind
      \<and> (is_diagnostic_attempt r \<or> is_some_and scope (\<lambda>scope. allows scope i))
      \<and> (is_diagnostic_attempt r
         \<or> is_none_or (ci_upstream_model r) (\<lambda>m. is_some_and scope (\<lambda>scope. allows_model scope i m))))"

text \<open>The transports of the accounts are looked up when the request needs a websocket.\<close>

datatype TransportCheck =
    TransportKept SelectorState
  | TransportSkipped SelectorState
  | TransportConflict SelectorState
  | TransportFailed CredentialSelectionError SelectorState

definition check_transport ::
  "('c, 'a) SelectorEnv \<Rightarrow> CredentialSelectionInput \<Rightarrow> ProviderAccountId option \<Rightarrow> ProviderAccount
   \<Rightarrow> SelectorState \<Rightarrow> TransportCheck" where
  "check_transport env r pinned account s =
     (if ci_requires_websocket r \<and> is_none_or pinned (\<lambda>i. i = account_id account)
      then case load_runtime env account s of
          (Inl RevisionConflict, s) \<Rightarrow>
            (case retry_account_snapshot s of Inl (e, s) \<Rightarrow> TransportFailed e s | Inr s \<Rightarrow> TransportConflict s)
        | (Inl e, s) \<Rightarrow>
            if e = InvalidCredentialData \<and> pinned = None then TransportSkipped s
            else TransportFailed (from_repository_error e) s
        | (Inr runtime, s) \<Rightarrow>
            if rc_transport runtime = HttpTransport then TransportSkipped s else TransportKept s
      else TransportKept s)"

fun transport_eligible ::
  "('c, 'a) SelectorEnv \<Rightarrow> CredentialSelectionInput \<Rightarrow> ProviderAccountId option \<Rightarrow> ProviderAccount list
   \<Rightarrow> SelectorState \<Rightarrow> ProviderAccount list Capture" where
  "transport_eligible env r pinned [] s = Captured [] s"
| "transport_eligible env r pinned (account # rest) s =
     (case check_transport env r pinned account s of
        TransportKept s \<Rightarrow> map_Capture ((#) account) (transport_eligible env r pinned rest s)
      | TransportSkipped s \<Rightarrow> transport_eligible env r pinned rest s
      | TransportConflict s \<Rightarrow> CaptureAgain s
      | TransportFailed e s \<Rightarrow> CaptureFailed e s)"

definition list_accounts ::
  "('c, 'a) SelectorEnv \<Rightarrow> CredentialSelectionInput \<Rightarrow> SelectorState
   \<Rightarrow> (CredentialSelectionError \<times> SelectorState) + ProviderAccount list \<times> SelectorState" where
  "list_accounts env r s =
     (let required = ac_required_account (cx_account (ci_attempt r)) in
      case (sv_list_accounts env (se_tick s), se_await env s) of
        (Inl e, s) \<Rightarrow> Err (from_repository_error e, s)
      | (Inr accounts, s) \<Rightarrow>
          if is_diagnostic_attempt r
             \<and> is_some_and required (\<lambda>i. \<not> list_ex (\<lambda>a. account_id a = i) accounts)
          then case (sv_get_account env (se_tick s) (the required), se_await env s) of
              (Inl _, s) \<Rightarrow> Err (SelStore, s)
            | (Inr None, s) \<Rightarrow> Ok (accounts, s)
            | (Inr (Some account), s) \<Rightarrow> Ok (accounts @ [account], s)
          else Ok (accounts, s))"

definition no_signals :: AccountRuntimeSignals where
  "no_signals =
     \<lparr>in_flight = 0, last_started_at = None, sig_quota_reset_at = None, quota_remaining_rank = None,
      sig_cooldown = None, failure_rate_basis_points = None, first_output_latency_ms = None\<rparr>"

definition build_candidate ::
  "('c, 'a) SelectorEnv \<Rightarrow> nat \<Rightarrow> (ProviderAccountId \<rightharpoonup> AccountCooldown) \<Rightarrow> (ProviderAccountId \<rightharpoonup> AccountRuntimeSignals)
   \<Rightarrow> ProviderAccount \<Rightarrow> AccountCandidate" where
  "build_candidate env t rate_limits signals account =
     (let health = sv_health env t (account_id account) in
      \<lparr>cand_account = account,
       cand_signals =
         with_runtime_health
           (with_rate_limit
              (with_provider_quota (unwrap_or (signals (account_id account)) no_signals) (sv_quota_signals env t account))
              (rate_limits (account_id account)))
           (fst health) (snd health)\<rparr>)"

definition resolve_session_affinity ::
  "('c, 'a) SelectorEnv \<Rightarrow> CredentialSelectionInput \<Rightarrow> AccountCandidate list \<Rightarrow> SelectorState
   \<Rightarrow> AffinitySelection \<times> SelectorState" where
  "resolve_session_affinity env r candidates s =
     (let now = sv_now env (se_tick s) in
      case ci_affinity_key r of
        None \<Rightarrow> (default_affinity, s)
      | Some key \<Rightarrow>
     (case (sv_lookup_affinity env (se_tick s) key, se_await env s) of
        (SessionBound i, s) \<Rightarrow> (affinity_selection_for_bound_account i candidates now, s)
      | (SessionMissing, s) \<Rightarrow>
          (case ci_root_key r of
             None \<Rightarrow> (default_affinity, s)
           | Some root_key \<Rightarrow>
               (case (sv_lookup_affinity env (se_tick s) root_key, se_await env s) of
                  (SessionBound i, s) \<Rightarrow>
                    ((affinity_selection_for_bound_account i candidates now)\<lparr>af_inherited := True\<rparr>, s)
                | (_, s) \<Rightarrow> (default_affinity, s)))
      | (SessionUnavailable, s) \<Rightarrow> (default_affinity, s)))"

definition prepare_cyber_policy_scope ::
  "('c, 'a) SelectorEnv \<Rightarrow> ProviderSessionAffinityKey option \<Rightarrow> SelectorState \<Rightarrow> CodexCyberPolicyScope option \<times> SelectorState" where
  "prepare_cyber_policy_scope env key s =
     (case key of
        None \<Rightarrow> (None, s)
      | Some key \<Rightarrow> (Some (key, sv_load_exclusions env (se_tick s) key), se_await env s))"

definition session_exclusions :: "CodexCyberPolicyScope option \<Rightarrow> ProviderAccountId set" where
  "session_exclusions scope =
     (case Option.bind scope snd of None \<Rightarrow> {} | Some state \<Rightarrow> ex_excluded_accounts state)"

definition base_excluded ::
  "CredentialSelectionInput \<Rightarrow> ProviderAccountId option \<Rightarrow> CodexCyberPolicyScope option \<Rightarrow> AccountCandidate list
   \<Rightarrow> ProviderAccountId set" where
  "base_excluded r pinned scope candidates =
     ac_excluded_accounts (cx_account (ci_attempt r)) \<union> session_exclusions scope
     \<union> (case pinned of None \<Rightarrow> {} | Some i \<Rightarrow> {j \<in> cand_id ` set candidates. j \<noteq> i})"

text \<open>\<open>prepare_scheduling\<close> and the reads of the cooldowns are awaits of requests that are no diagnosis.\<close>

definition scheduling_candidates ::
  "('c, 'a) SelectorEnv \<Rightarrow> CredentialSelectionInput \<Rightarrow> ProviderAccount list \<Rightarrow> SelectorState
   \<Rightarrow> (CredentialSelectionError \<times> SelectorState) + (AccountCandidate list \<times> nat) \<times> SelectorState" where
  "scheduling_candidates env r accounts s =
     (let s1 = (if is_diagnostic_attempt r then s else se_await env s);
          rate_limits = (if is_diagnostic_attempt r then Map.empty else sv_cooldown env (se_tick s1));
          s2 = (if is_diagnostic_attempt r then s1 else se_await env s1) in
      case (sv_load_state env (se_tick s2) (map account_id accounts), se_await env s2) of
        (Inl _, s) \<Rightarrow> Err (SelCoordinator, s)
      | (Inr (signals, cursor), s) \<Rightarrow>
          Ok ((map (build_candidate env (se_tick s) rate_limits signals) accounts, cursor), s))"

definition capture_round ::
  "('c, 'a) SelectorEnv \<Rightarrow> CredentialSelectionInput \<Rightarrow> ProviderAccountId option \<Rightarrow> SelectorState
   \<Rightarrow> SelectionRound Capture" where
  "capture_round env r pinned s =
     (case list_accounts env r s of
        Inl (e, s) \<Rightarrow> CaptureFailed e s
      | Inr (accounts, s) \<Rightarrow>
     (case transport_eligible env r pinned (filter (in_request_scope (sv_provider_kind env) r) accounts) s of
        CaptureFailed e s \<Rightarrow> CaptureFailed e s
      | CaptureAgain s \<Rightarrow> CaptureAgain s
      | Captured accounts s \<Rightarrow>
     (case scheduling_candidates env r accounts s of
        Inl (e, s) \<Rightarrow> CaptureFailed e s
      | Inr ((candidates, cursor), s) \<Rightarrow>
          let (affinity, s) = (if is_diagnostic_attempt r then (default_affinity, s)
                               else resolve_session_affinity env r candidates s);
              (scope, s) = prepare_cyber_policy_scope env (ci_cyber_policy_key r) s;
              affinity = (if is_some_and pinned (\<lambda>i. is_some_and (af_bound_account affinity) (\<lambda>bound. i \<noteq> bound))
                          then escape PinnedAccount affinity else affinity)
          in Captured
               \<lparr>rd_candidates = candidates, rd_cursor = cursor, rd_cyber_policy_scope = scope,
                rd_base_excluded = base_excluded r pinned scope candidates, rd_affinity = affinity,
                rd_observed_account = (if af_inherited affinity then None else af_bound_account affinity)\<rparr> s)))"


section \<open>One turn\<close>

record SelectionLoop =
  lp_excluded :: "ProviderAccountId set"
  lp_affinity :: AffinitySelection
  lp_observed_account :: "ProviderAccountId option"
  lp_shortest_retry :: "duration option"

record 'a CodexCredentialLease =
  cl_transport :: ResponsesTransport
  cl_account :: ProviderAccount
  cl_authentication :: 'a
  cl_cookies :: "CodexCookie list"
  cl_installation_id :: string
  cl_cyber_policy_scope :: "CodexCyberPolicyScope option"
  cl_allows_account_state_mutation :: bool
  cl_affinity_telemetry :: AffinityTelemetry
  cl_affinity_expected_account :: ProviderAccountId
  cl_capacity :: "AccountCapacitySnapshot option"

text \<open>A selection ends with a lease, an error, or the panic of a score that is missing.\<close>

datatype 'a SelectionOutcome = Selected "'a CodexCredentialLease" | Refused CredentialSelectionError | ScorePanic

text \<open>A turn ends the selection, starts the next turn of the round, captures a new round, or waits for capacity.\<close>

datatype 'a TurnOutcome =
    TurnDone "'a SelectionOutcome" SelectorState
  | TurnAgain SelectionLoop SelectorState
  | TurnRecapture SelectorState
  | TurnWait "ProviderAccountId WaitTicket" SelectorState

definition minimum_duration :: "duration option \<Rightarrow> duration option \<Rightarrow> duration option" where
  "minimum_duration current candidate =
     (case (current, candidate) of
        (Some a, Some b) \<Rightarrow> Some (min a b)
      | (Some a, None) \<Rightarrow> Some a
      | (None, c) \<Rightarrow> c)"

definition initial_loop :: "SelectionRound \<Rightarrow> SelectionLoop" where
  "initial_loop rd =
     \<lparr>lp_excluded = rd_base_excluded rd, lp_affinity = rd_affinity rd,
      lp_observed_account = rd_observed_account rd, lp_shortest_retry = None\<rparr>"

definition turn_preferred :: "ProviderAccountId option \<Rightarrow> SelectionLoop \<Rightarrow> ProviderAccountId option" where
  "turn_preferred pinned lp = or_else pinned (af_preferred_account (lp_affinity lp))"

definition turn_context ::
  "CredentialSelectionInput \<Rightarrow> ProviderAccountId option \<Rightarrow> system_time \<Rightarrow> SelectionRound \<Rightarrow> SelectionLoop \<Rightarrow> AccountSelectionContext" where
  "turn_context r pinned now rd lp =
     \<lparr>ctx_policy = sa_policy (ci_attempt r), ctx_now = now, ctx_excluded_accounts = lp_excluded lp,
      ctx_preferred_account = turn_preferred pinned lp, preferred_account_overrides_weight = True,
      round_robin_cursor = rd_cursor rd,
      ctx_eligibility = (if is_diagnostic_attempt r then BypassForDiagnostic else Enforce),
      ctx_account_scope = ac_account_scope (cx_account (ci_attempt r)),
      reserved_concurrency = request_reserved_concurrency r\<rparr>"

definition wait_context :: "SelectionRound \<Rightarrow> AccountSelectionContext \<Rightarrow> AccountSelectionContext" where
  "wait_context rd ctx = ctx\<lparr>ctx_excluded_accounts := rd_base_excluded rd\<rparr>"

text \<open>The bound account is waited for as long as it is eligible; waiting must not make a session switch.\<close>

definition preferred_wait ::
  "CredentialSelectionInput \<Rightarrow> ProviderAccountId option \<Rightarrow> SelectionRound \<Rightarrow> SelectionLoop \<Rightarrow> AccountSelectionContext
   \<Rightarrow> ProviderAccountId option" where
  "preferred_wait r pinned rd lp ctx =
     filter_option
       (\<lambda>i. \<not> is_diagnostic_attempt r \<and> max_waiting (policy_queue (sa_policy (ci_attempt r))) > 0
            \<and> (is_some pinned \<or> \<not> af_inherited (lp_affinity lp))
            \<and> i \<in> set (wait_candidates (rd_candidates rd) (wait_context rd ctx)))
       (turn_preferred pinned lp)"

definition turn_wait_candidates ::
  "CredentialSelectionInput \<Rightarrow> ProviderAccountId option \<Rightarrow> SelectionRound \<Rightarrow> SelectionLoop \<Rightarrow> AccountSelectionContext
   \<Rightarrow> ProviderAccountId list" where
  "turn_wait_candidates r pinned rd lp ctx =
     (let keys = wait_candidates (rd_candidates rd) (wait_context rd ctx) in
      case preferred_wait r pinned rd lp ctx of None \<Rightarrow> keys | Some i \<Rightarrow> filter (\<lambda>j. j = i) keys)"

definition yield_to_waiters :: "SelectorState \<Rightarrow> SelectionRound \<Rightarrow> AccountSelectionContext \<Rightarrow> AccountSelectionContext" where
  "yield_to_waiters s rd ctx =
     ctx\<lparr>ctx_excluded_accounts := ctx_excluded_accounts ctx
           \<union> {i \<in> cand_id ` set (rd_candidates rd). \<not> can_try (se_waiting s) (se_queue s) i}\<rparr>"

definition acceptable_selection :: "ProviderAccountId option \<Rightarrow> AccountSelection \<Rightarrow> bool" where
  "acceptable_selection waited_for s \<longleftrightarrow>
     waited_for = None \<or> sel_policy_choice s
     \<or> sel_preferred s \<notin> {Blocked ConcurrencyLimit, Blocked RequestInterval, Blocked Excluded}"

text \<open>What a round without a selection means; accounts that were only busy in this round count as candidates.\<close>

definition refusal ::
  "CredentialSelectionInput \<Rightarrow> SelectionRound \<Rightarrow> SelectionLoop \<Rightarrow> system_time \<Rightarrow> ProviderAccountId list \<Rightarrow> CredentialSelectionError" where
  "refusal r rd lp now keys =
     (let statuses = map (candidate_status now)
            (filter (\<lambda>c. cand_id c \<notin> rd_base_excluded rd) (rd_candidates rd)) in
      if keys \<noteq> [] \<or> is_some (lp_shortest_retry lp) then CapacityUnavailable (lp_shortest_retry lp)
      else if \<not> is_diagnostic_attempt r \<and> statuses \<noteq> [] \<and> list_all (\<lambda>st. st = QuotaExhausted) statuses
      then SelQuotaExhausted
      else NoEligibleCredential)"

text \<open>The synchronous part of the wait, up to the first poll of the ticket.\<close>

definition enter_wait ::
  "('c, 'a) SelectorEnv \<Rightarrow> ProviderAccountId list \<Rightarrow> SelectionRound \<Rightarrow> AccountSelectionContext \<Rightarrow> SelectorState
   \<Rightarrow> 'a TurnOutcome" where
  "enter_wait env keys rd ctx s =
     (case wait_for_capacity (sv_now env (se_tick s)) (se_waiting s) (se_queue s) keys (rd_candidates rd) ctx of
        None \<Rightarrow> TurnDone ScorePanic s
      | Some (result, w, q) \<Rightarrow>
          let s' = s\<lparr>se_waiting := w, se_queue := q\<rparr> in
          (case result of
             Inl e \<Rightarrow> TurnDone (Refused (SelQueueRejected e)) s'
           | Inr ticket \<Rightarrow>
               TurnWait ticket
                 (se_note (if wait_ticket (se_waiting s) = Some ticket then [] else [TicketTaken ticket]) s')))"

definition lease_request ::
  "('c, 'a) SelectorEnv \<Rightarrow> CredentialSelectionInput \<Rightarrow> AccountSelectionContext \<Rightarrow> ProviderAccount \<Rightarrow> ProviderSchedulingLeaseRequest" where
  "lease_request env r ctx account =
     \<lparr>lr_provider_kind = sv_provider_kind env, lr_account_id = account_id account,
      lr_credential_revision = account_revision account, lr_max_concurrent = ctx_concurrency_limit ctx account,
      lr_request_interval = policy_request_interval (sa_policy (ci_attempt r)), lr_deadline = cx_deadline (ci_attempt r)\<rparr>"

definition claim_initial_affinity ::
  "('c, 'a) SelectorEnv \<Rightarrow> CredentialSelectionInput \<Rightarrow> SelectionLoop \<Rightarrow> ProviderAccountId \<Rightarrow> SelectorState
   \<Rightarrow> ProviderAccountId option \<times> SelectorState" where
  "claim_initial_affinity env r lp i s =
     (case ci_affinity_key r of
        None \<Rightarrow> (None, s)
      | Some key \<Rightarrow>
          if is_diagnostic_attempt r \<or> is_some (lp_observed_account lp) then (None, s)
          else (sv_claim_affinity env (se_tick s) key i, se_note [AffinityClaimed key i] (se_await env s)))"

definition expected_affinity :: "ProviderAccountId option \<Rightarrow> SelectionLoop \<Rightarrow> ProviderAccountId \<Rightarrow> ProviderAccountId" where
  "expected_affinity pinned lp i =
     (if is_some_and pinned (\<lambda>p. is_some_and (lp_observed_account lp) (\<lambda>bound. p \<noteq> bound)) then i
      else unwrap_or (lp_observed_account lp) i)"

definition renew_affinity ::
  "('c, 'a) SelectorEnv \<Rightarrow> CredentialSelectionInput \<Rightarrow> SelectionLoop \<Rightarrow> ProviderAccountId \<Rightarrow> SelectorState \<Rightarrow> SelectorState" where
  "renew_affinity env r lp i s =
     (case ci_affinity_key r of
        None \<Rightarrow> s
      | Some key \<Rightarrow>
          if \<not> is_diagnostic_attempt r \<and> lp_observed_account lp = Some i
          then se_note [AffinityRenewed key i] (se_await env s) else s)"

definition leased ::
  "('c, 'a) SelectorEnv \<Rightarrow> CredentialSelectionInput \<Rightarrow> ProviderAccountId option \<Rightarrow> SelectionRound \<Rightarrow> SelectionLoop
   \<Rightarrow> AccountCapacitySnapshot option \<Rightarrow> ProviderAccount \<Rightarrow> 'a CodexRuntimeCredential \<Rightarrow> SelectorState \<Rightarrow> 'a TurnOutcome" where
  "leased env r pinned rd lp capacity account runtime s =
     (let i = account_id account;
          (claim, s) = claim_initial_affinity env r lp i (se_note [LeaseTaken i] s) in
      case filter_option (\<lambda>effective. pinned = None \<and> effective \<noteq> i) claim of
        Some effective \<Rightarrow>
          TurnAgain
            (lp\<lparr>lp_observed_account := Some effective,
                lp_affinity := affinity_selection_for_bound_account effective (rd_candidates rd) (sv_now env (se_tick s))\<rparr>)
            (se_note [LeaseDropped i] s)
      | None \<Rightarrow>
          TurnDone
            (Selected
              \<lparr>cl_transport = rc_transport runtime, cl_account = account, cl_authentication = rc_authentication runtime,
               cl_cookies = replayed_cookies (sv_cookie_policy env) (ci_request_url r) (sv_now env (se_tick s))
                              (rc_cookies runtime),
               cl_installation_id = rc_installation_id runtime, cl_cyber_policy_scope = rd_cyber_policy_scope rd,
               cl_allows_account_state_mutation = (\<not> is_diagnostic_attempt r \<or> account_enabled account),
               cl_affinity_telemetry = telemetry (lp_affinity lp) i,
               cl_affinity_expected_account = expected_affinity pinned lp i,
               cl_capacity = map_option with_acquired_request capacity\<rparr>)
            (renew_affinity env r lp i s))"

definition try_account ::
  "('c, 'a) SelectorEnv \<Rightarrow> CredentialSelectionInput \<Rightarrow> ProviderAccountId option \<Rightarrow> SelectionRound \<Rightarrow> SelectionLoop
   \<Rightarrow> AccountSelectionContext \<Rightarrow> ProviderAccountId option \<Rightarrow> AccountCapacitySnapshot option \<Rightarrow> ProviderAccount
   \<Rightarrow> SelectorState \<Rightarrow> 'a TurnOutcome" where
  "try_account env r pinned rd lp ctx waited_for capacity account s =
     (let i = account_id account in
      case load_runtime env account s of
        (Inl RevisionConflict, s) \<Rightarrow>
          (case retry_account_snapshot s of
             Inl (e, s) \<Rightarrow> TurnDone (Refused e) s
           | Inr s \<Rightarrow> TurnRecapture s)
      | (Inl e, s) \<Rightarrow> TurnDone (Refused (from_repository_error e)) s
      | (Inr runtime, s) \<Rightarrow>
          if \<not> can_try (se_waiting s) (se_queue s) i
          then TurnAgain (lp\<lparr>lp_excluded := insert i (lp_excluded lp)\<rparr>) s
          else
            let request = lease_request env r ctx account;
                s' = se_note [LeaseRequested request (se_waiting s) (se_queue s)] (se_await env s) in
            (case sv_try_acquire env (se_tick s) request of
               Inl _ \<Rightarrow> TurnDone (Refused SelCoordinator) s'
             | Inr (LeaseBusy retry_after) \<Rightarrow>
                 TurnAgain
                   (lp\<lparr>lp_affinity := (if waited_for \<noteq> Some i then observe_lease_busy i (lp_affinity lp) else lp_affinity lp),
                       lp_shortest_retry := minimum_duration (lp_shortest_retry lp) retry_after,
                       lp_excluded := insert i (lp_excluded lp)\<rparr>) s'
             | Inr LeaseGranted \<Rightarrow> leased env r pinned rd lp capacity account runtime s'))"

definition select_turn ::
  "('c, 'a) SelectorEnv \<Rightarrow> CredentialSelectionInput \<Rightarrow> ProviderAccountId option \<Rightarrow> SelectionRound \<Rightarrow> SelectionLoop
   \<Rightarrow> SelectorState \<Rightarrow> 'a TurnOutcome" where
  "select_turn env r pinned rd lp s =
     (let base = turn_context r pinned (sv_now env (se_tick s)) rd lp;
          keys = turn_wait_candidates r pinned rd lp base;
          waited_for = preferred_wait r pinned rd lp base;
          ctx = yield_to_waiters s rd base;
          s' = se_await env s in
      case select_account (sa_request_policy (ci_attempt r)) (se_tick s) (sv_now env (se_tick s'))
             (cx_attempt_index (ci_attempt r)) (sv_provider_kind env) (ci_upstream_model r) (rd_candidates rd) ctx of
        Inl StaleCandidate \<Rightarrow> TurnRecapture s'
      | Inl PolicyRejectedSelection \<Rightarrow> TurnDone (Refused SelPolicyRejected) s'
      | Inl PolicyFault \<Rightarrow> TurnDone (Refused SelPolicyUnavailable) s'
      | Inr choice \<Rightarrow>
     (case filter_option (acceptable_selection waited_for) choice of
        None \<Rightarrow>
          if \<not> is_diagnostic_attempt r \<and> max_waiting (policy_queue (sa_policy (ci_attempt r))) > 0 \<and> keys \<noteq> []
          then enter_wait env keys rd (wait_context rd base) s'
          else TurnDone (Refused (refusal r rd lp (ctx_now base) keys)) s'
      | Some selection \<Rightarrow>
          let lp = lp\<lparr>lp_affinity := observe_preferred_selection (sel_preferred selection) (lp_affinity lp)\<rparr> in
          (case List.find (\<lambda>c. cand_id c = cand_id (sel_candidate selection)) (rd_candidates rd) of
             None \<Rightarrow> TurnDone (Refused InvalidCredential) s'
           | Some c \<Rightarrow>
               try_account env r pinned rd lp ctx waited_for (capacity_snapshot (rd_candidates rd) base)
                 (cand_account c) s')))"


section \<open>A turn makes progress\<close>

text \<open>How many more turns a round can have.\<close>

definition turns_left :: "SelectionRound \<Rightarrow> SelectionLoop \<Rightarrow> nat" where
  "turns_left rd lp =
     length (filter (\<lambda>c. cand_id c \<notin> lp_excluded lp) (rd_candidates rd)) + of_bool (lp_observed_account lp = None)"

lemma excluding_makes_progress:
  assumes "c \<in> set cs" "cand_id c \<notin> X"
  shows "length (filter (\<lambda>c. cand_id c \<notin> insert (cand_id c') X) cs) \<le> length (filter (\<lambda>c. cand_id c \<notin> X) cs)"
    "length (filter (\<lambda>d. cand_id d \<notin> insert (cand_id c) X) cs) < length (filter (\<lambda>d. cand_id d \<notin> X) cs)"
proof -
  have mono: "length (filter P xs) \<le> length (filter Q xs)" if "\<And>x. P x \<Longrightarrow> Q x" for P Q :: "AccountCandidate \<Rightarrow> bool" and xs
    using that by (induction xs) auto
  show "length (filter (\<lambda>c. cand_id c \<notin> insert (cand_id c') X) cs) \<le> length (filter (\<lambda>c. cand_id c \<notin> X) cs)"
    by (rule mono) auto
  show "length (filter (\<lambda>d. cand_id d \<notin> insert (cand_id c) X) cs) < length (filter (\<lambda>d. cand_id d \<notin> X) cs)"
    using assms
  proof (induction cs)
    case (Cons d ds)
    have "length (filter (\<lambda>d. cand_id d \<notin> insert (cand_id c) X) ds) \<le> length (filter (\<lambda>d. cand_id d \<notin> X) ds)"
      by (rule mono) auto
    then show ?case using Cons by (cases "d = c") auto
  qed simp
qed

lemma leased_again:
  assumes "leased env r pinned rd lp capacity account runtime s = TurnAgain lp' s'"
  shows "lp_observed_account lp = None \<and> is_some (lp_observed_account lp') \<and> lp_excluded lp' = lp_excluded lp
    \<and> pinned = None"
  using assms
  by (auto simp: leased_def claim_initial_affinity_def Let_def filter_option_eq_Some
      split: option.splits prod.splits if_splits)

lemma try_account_cases:
  obtains
    (failed) e where "try_account env r pinned rd lp ctx waited_for capacity account s = TurnDone (Refused e) (se_await env s)"
  | (recapture) "try_account env r pinned rd lp ctx waited_for capacity account s =
        TurnRecapture ((se_await env s)\<lparr>se_retries := se_retries s + 1\<rparr>)" "se_retries s < MAX_ACCOUNT_SNAPSHOT_RETRIES"
  | (yielded) "try_account env r pinned rd lp ctx waited_for capacity account s =
        TurnAgain (lp\<lparr>lp_excluded := insert (account_id account) (lp_excluded lp)\<rparr>) (se_await env s)"
  | (coordinator) "can_try (se_waiting (se_await env s)) (se_queue (se_await env s)) (account_id account)"
      "try_account env r pinned rd lp ctx waited_for capacity account s =
        TurnDone (Refused SelCoordinator)
          (se_note [LeaseRequested (lease_request env r ctx account) (se_waiting (se_await env s)) (se_queue (se_await env s))]
             (se_await env (se_await env s)))"
  | (busy) a shortest where "can_try (se_waiting (se_await env s)) (se_queue (se_await env s)) (account_id account)"
      "try_account env r pinned rd lp ctx waited_for capacity account s =
        TurnAgain (lp\<lparr>lp_affinity := a, lp_shortest_retry := shortest,
                       lp_excluded := insert (account_id account) (lp_excluded lp)\<rparr>)
          (se_note [LeaseRequested (lease_request env r ctx account) (se_waiting (se_await env s)) (se_queue (se_await env s))]
             (se_await env (se_await env s)))"
  | (granted) runtime where "can_try (se_waiting (se_await env s)) (se_queue (se_await env s)) (account_id account)"
      "load_runtime_credential (sv_codec env) (sv_load_credential env (se_tick s)) account = Ok runtime"
      "try_account env r pinned rd lp ctx waited_for capacity account s =
        leased env r pinned rd lp capacity account runtime
          (se_note [LeaseRequested (lease_request env r ctx account) (se_waiting (se_await env s)) (se_queue (se_await env s))]
             (se_await env (se_await env s)))"
proof (cases "load_runtime_credential (sv_codec env) (sv_load_credential env (se_tick s)) account")
  case (Inl e)
  then show ?thesis
    using failed recapture
    by (cases e; cases "se_retries s < MAX_ACCOUNT_SNAPSHOT_RETRIES")
      (auto simp: try_account_def load_runtime_def retry_account_snapshot_def se_await_def)
next
  case (Inr runtime)
  note run = try_account_def load_runtime_def Let_def Inr
  show ?thesis
  proof (cases "can_try (se_waiting (se_await env s)) (se_queue (se_await env s)) (account_id account)")
    case False
    then show ?thesis using yielded by (simp add: run)
  next
    case True
    let ?answer = "sv_try_acquire env (se_tick (se_await env s)) (lease_request env r ctx account)"
    show ?thesis
    proof (cases ?answer)
      case (Inl x)
      then show ?thesis using coordinator True by (simp add: run)
    next
      case answer: (Inr x)
      show ?thesis
      proof (cases x)
        case LeaseGranted
        then show ?thesis using granted True answer Inr by (simp add: run)
      next
        case (LeaseBusy retry_after)
        show ?thesis by (rule busy [OF True]) (use LeaseBusy True answer in \<open>simp add: run\<close>)
      qed
    qed
  qed
qed

lemma try_account_again:
  assumes "try_account env r pinned rd lp ctx waited_for capacity account s = TurnAgain lp' s'"
  shows "lp_excluded lp' = insert (account_id account) (lp_excluded lp) \<and> lp_observed_account lp' = lp_observed_account lp
    \<or> lp_observed_account lp = None \<and> is_some (lp_observed_account lp') \<and> lp_excluded lp' = lp_excluded lp"
proof (rule try_account_cases [of env r pinned rd lp ctx waited_for capacity account s])
  fix runtime
  assume "try_account env r pinned rd lp ctx waited_for capacity account s =
        leased env r pinned rd lp capacity account runtime
          (se_note [LeaseRequested (lease_request env r ctx account) (se_waiting (se_await env s)) (se_queue (se_await env s))]
             (se_await env (se_await env s)))"
  from leased_again [OF assms [unfolded this]] show ?thesis by blast
qed (use assms in auto)

text \<open>A turn gives up, waits, or tries an account that passed every check.\<close>

lemma select_turn_cases:
  obtains
    (recapture) "select_turn env r pinned rd lp s = TurnRecapture (se_await env s)"
      "is_some (sa_request_policy (ci_attempt r))"
  | (refused) e where "select_turn env r pinned rd lp s = TurnDone (Refused e) (se_await env s)"
  | (wait) "select_turn env r pinned rd lp s =
        enter_wait env (turn_wait_candidates r pinned rd lp (turn_context r pinned (sv_now env (se_tick s)) rd lp)) rd
          (wait_context rd (turn_context r pinned (sv_now env (se_tick s)) rd lp)) (se_await env s)"
  | (attempt) c a waited_for capacity time where
      "select_turn env r pinned rd lp s =
        try_account env r pinned rd (lp\<lparr>lp_affinity := a\<rparr>)
          (yield_to_waiters s rd (turn_context r pinned (sv_now env (se_tick s)) rd lp))
          waited_for capacity (cand_account c) (se_await env s)"
      "c \<in> set (rd_candidates rd)"
      "cand_id c \<in> cand_id ` set (policy_candidates (rd_candidates rd)
          (yield_to_waiters s rd (turn_context r pinned (sv_now env (se_tick s)) rd lp)\<lparr>ctx_now := time\<rparr>))"
proof -
  define base where "base = turn_context r pinned (sv_now env (se_tick s)) rd lp"
  define ctx where "ctx = yield_to_waiters s rd base"
  define choice where "choice = select_account (sa_request_policy (ci_attempt r)) (se_tick s)
      (sv_now env (se_tick (se_await env s))) (cx_attempt_index (ci_attempt r)) (sv_provider_kind env)
      (ci_upstream_model r) (rd_candidates rd) ctx"
  note turn = select_turn_def Let_def base_def [symmetric] ctx_def [symmetric] choice_def [symmetric]
  note goals = that [folded base_def, folded ctx_def]
  show ?thesis
  proof (cases choice)
    case (Inl e)
    then have "is_some (sa_request_policy (ci_attempt r))"
      by (auto simp: choice_def select_account_def split: option.splits)
    then show ?thesis using goals(1,2) Inl by (cases e) (auto simp: turn)
  next
    case (Inr selection)
    show ?thesis
    proof (cases "filter_option (acceptable_selection (preferred_wait r pinned rd lp base)) selection")
      case None
      then show ?thesis
        using goals(2,3) Inr
        by (cases "\<not> is_diagnostic_attempt r \<and> max_waiting (policy_queue (sa_policy (ci_attempt r))) > 0
              \<and> turn_wait_candidates r pinned rd lp base \<noteq> []") (auto simp: turn)
    next
      case (Some x)
      then have "select_account (sa_request_policy (ci_attempt r)) (se_tick s)
          (sv_now env (se_tick (se_await env s))) (cx_attempt_index (ci_attempt r)) (sv_provider_kind env)
          (ci_upstream_model r) (rd_candidates rd) ctx = Ok (Some x)"
        using Inr by (simp add: choice_def filter_option_eq_Some)
      from select_account_eligible [OF this] obtain time
        where eligible: "sel_candidate x \<in> set (policy_candidates (rd_candidates rd) (ctx\<lparr>ctx_now := time\<rparr>))" by blast
      then have "sel_candidate x \<in> set (rd_candidates rd)" using policy_candidates_not_excluded by blast
      then have "List.find (\<lambda>c. cand_id c = cand_id (sel_candidate x)) (rd_candidates rd) \<noteq> None"
        unfolding find_None_all by blast
      then obtain c where c: "List.find (\<lambda>c. cand_id c = cand_id (sel_candidate x)) (rd_candidates rd) = Some c"
        by blast
      then have mem: "c \<in> set (rd_candidates rd)" "cand_id c = cand_id (sel_candidate x)" by (auto dest: find_Some_in)
      show ?thesis
      proof (rule goals(4))
        show "select_turn env r pinned rd lp s =
            try_account env r pinned rd
              (lp\<lparr>lp_affinity := observe_preferred_selection (sel_preferred x) (lp_affinity lp)\<rparr>) ctx
              (preferred_wait r pinned rd lp base) (capacity_snapshot (rd_candidates rd) base) (cand_account c)
              (se_await env s)"
          by (simp add: turn Inr Some c)
        show "cand_id c \<in> cand_id ` set (policy_candidates (rd_candidates rd) (ctx\<lparr>ctx_now := time\<rparr>))"
          using mem(2) eligible by force
      qed (rule mem(1))
    qed
  qed
qed

lemma turn_excludes:
  assumes "cand_id c \<in> cand_id ` set (policy_candidates (rd_candidates rd)
      (yield_to_waiters s rd (turn_context r pinned now rd lp)\<lparr>ctx_now := time\<rparr>))"
  shows "cand_id c \<notin> lp_excluded lp"
  using assms by (force simp: yield_to_waiters_def turn_context_def dest: policy_candidates_not_excluded)

lemma enter_wait_no_turn [simp]: "enter_wait env keys rd ctx s \<noteq> TurnAgain lp' s'"
    "TurnAgain lp' s' \<noteq> enter_wait env keys rd ctx s"
  by (auto simp: enter_wait_def Let_def split: option.splits sum.splits)

lemma turn_again_progress:
  assumes "select_turn env r pinned rd lp s = TurnAgain lp' s'"
  shows "turns_left rd lp' < turns_left rd lp"
proof (rule select_turn_cases [of env r pinned rd lp s])
  fix c a waited_for capacity time
  assume run: "select_turn env r pinned rd lp s =
        try_account env r pinned rd (lp\<lparr>lp_affinity := a\<rparr>)
          (yield_to_waiters s rd (turn_context r pinned (sv_now env (se_tick s)) rd lp))
          waited_for capacity (cand_account c) (se_await env s)"
    and c: "c \<in> set (rd_candidates rd)"
    and "cand_id c \<in> cand_id ` set (policy_candidates (rd_candidates rd)
          (yield_to_waiters s rd (turn_context r pinned (sv_now env (se_tick s)) rd lp)\<lparr>ctx_now := time\<rparr>))"
  then have "cand_id c \<notin> lp_excluded lp" by (intro turn_excludes)
  then show ?thesis
    using try_account_again [OF assms [unfolded run]] excluding_makes_progress(2) [OF c, of "lp_excluded lp"]
    by (auto simp: turns_left_def)
qed (use assms in auto)

function select_round ::
  "('c, 'a) SelectorEnv \<Rightarrow> CredentialSelectionInput \<Rightarrow> ProviderAccountId option \<Rightarrow> SelectionRound \<Rightarrow> SelectionLoop
   \<Rightarrow> SelectorState \<Rightarrow> 'a TurnOutcome" where
  "select_round env r pinned rd lp s =
     (case select_turn env r pinned rd lp s of
        TurnAgain lp' s' \<Rightarrow> select_round env r pinned rd lp' s'
      | TurnDone outcome s' \<Rightarrow> TurnDone outcome s'
      | TurnRecapture s' \<Rightarrow> TurnRecapture s'
      | TurnWait ticket s' \<Rightarrow> TurnWait ticket s')"
  by pat_completeness auto
termination
  by (relation "measure (\<lambda>(env, r, pinned, rd, lp, s). turns_left rd lp)") (auto dest: turn_again_progress)

declare select_round.simps [simp del]


section \<open>The selection\<close>

text \<open>\<open>WaitTicket::retry\<close>, polled once per tick; a ticket that is never served and whose deadline never comes is a
  loop that does not return.\<close>

partial_function (option) wait_retry ::
  "('c, 'a) SelectorEnv \<Rightarrow> ProviderAccountId WaitTicket \<Rightarrow> system_time \<Rightarrow> SelectorState
   \<Rightarrow> ((QueueRejection + unit) \<times> SelectorState) option" where
  "wait_retry env ticket started s =
     (case retry_poll started (sv_now env (se_tick s)) ticket (se_queue s) of
        Some result \<Rightarrow> Some (result, s)
      | None \<Rightarrow> wait_retry env ticket started (se_await env s))"

partial_function (option) select_loop ::
  "('c, 'a) SelectorEnv \<Rightarrow> CredentialSelectionInput \<Rightarrow> ProviderAccountId option \<Rightarrow> SelectorState
   \<Rightarrow> ('a SelectionOutcome \<times> SelectorState) option" where
  "select_loop env r pinned s =
     (case capture_round env r pinned s of
        CaptureFailed e s \<Rightarrow> Some (Refused e, s)
      | CaptureAgain s \<Rightarrow> select_loop env r pinned s
      | Captured rd s \<Rightarrow>
     (case select_round env r pinned rd (initial_loop rd) s of
        TurnDone outcome s \<Rightarrow> Some (outcome, s)
      | TurnRecapture s \<Rightarrow> select_loop env r pinned s
      | TurnAgain lp s \<Rightarrow> None
      | TurnWait ticket s \<Rightarrow>
          Option.bind (wait_retry env ticket (sv_now env (se_tick s)) s)
            (\<lambda>(result, s).
               case result of
                 Inl e \<Rightarrow> Some (Refused (SelQueueRejected e), s)
               | Inr _ \<Rightarrow> select_loop env r pinned s)))"

text \<open>The wait is dropped with the call and gives its place in the queue back.\<close>

definition drop_wait :: "SelectorState \<Rightarrow> SelectorState" where
  "drop_wait s =
     (let (w, q) = release_ticket (se_waiting s) (se_queue s) in s\<lparr>se_waiting := w, se_queue := q\<rparr>)"

definition initial_selector :: "CredentialSelectionInput \<Rightarrow> nat \<Rightarrow> ProviderAccountId QueueState \<Rightarrow> SelectorState" where
  "initial_selector r t queue =
     \<lparr>se_tick = t, se_waiting = initial_wait r, se_queue = queue, se_retries = 0, se_log = []\<rparr>"

definition select_inner ::
  "('c, 'a) SelectorEnv \<Rightarrow> CredentialSelectionInput \<Rightarrow> nat \<Rightarrow> ProviderAccountId QueueState
   \<Rightarrow> ('a SelectionOutcome \<times> SelectorState) option" where
  "select_inner env r t queue =
     (case pinned_account (sv_provider_kind env) r of
        Inl e \<Rightarrow> Some (Refused e, initial_selector r t queue)
      | Inr pinned \<Rightarrow>
          map_option (\<lambda>(outcome, s). (outcome, drop_wait s)) (select_loop env r pinned (initial_selector r t queue)))"

end
