(* ===== verification/Selector_Theorems.thy ===== *)
theory Selector_Theorems
  imports Codex_Selector
begin

text \<open>
  Properties of the account selection of the OpenAI provider. The locale \<open>selector_invariant\<close> says what a
  property of the selector's state needs: it survives the awaits of the selection, its lease requests, its stay in
  the wait queue, and what it does while it holds a lease. It is interpreted on the lease accounting, on the
  turns that were waited for, and on the places in the queue.
\<close>

section \<open>Awaits\<close>

inductive awaits :: "('c, 'a) SelectorEnv \<Rightarrow> SelectorState \<Rightarrow> SelectorState \<Rightarrow> bool" for env where
  here [intro]: "awaits env s s"
| later [intro]: "awaits env s t \<Longrightarrow> awaits env s (se_await env t)"

lemma awaits_trans: "awaits env t u \<Longrightarrow> awaits env s t \<Longrightarrow> awaits env s u"
  by (induction rule: awaits.induct) auto

lemma se_await_simps [simp]:
  "se_tick (se_await env s) = Suc (se_tick s)" "se_waiting (se_await env s) = se_waiting s"
  "se_retries (se_await env s) = se_retries s" "se_log (se_await env s) = se_log s"
  "se_queue (se_await env s) = sv_others env (se_tick s) (se_queue s)"
  by (simp_all add: se_await_def)

lemma se_note_simps [simp]:
  "se_tick (se_note es s) = se_tick s" "se_waiting (se_note es s) = se_waiting s"
  "se_retries (se_note es s) = se_retries s" "se_log (se_note es s) = se_log s @ es"
  "se_queue (se_note es s) = se_queue s"
  by (simp_all add: se_note_def)

lemma awaits_keeps:
  assumes "awaits env s t"
  shows "se_tick s \<le> se_tick t" "se_waiting t = se_waiting s" "se_retries t = se_retries s" "se_log t = se_log s"
  using assms by (induction rule: awaits.induct) auto


section \<open>What a capture does\<close>

lemma retry_account_snapshot_cases:
  obtains (retried) "retry_account_snapshot s = Ok (s\<lparr>se_retries := se_retries s + 1\<rparr>)"
      "se_retries s < MAX_ACCOUNT_SNAPSHOT_RETRIES"
  | (refused) "retry_account_snapshot s = Err (AccountSnapshotChanged, s)"
  using that by (cases "se_retries s < MAX_ACCOUNT_SNAPSHOT_RETRIES") (auto simp: retry_account_snapshot_def)

lemma check_transport_cases:
  obtains (kept) u where "check_transport env r pinned account s = TransportKept u" "awaits env s u"
  | (skipped) u where "check_transport env r pinned account s = TransportSkipped u" "awaits env s u"
  | (conflict) u where "check_transport env r pinned account s = TransportConflict (u\<lparr>se_retries := se_retries u + 1\<rparr>)"
      "awaits env s u" "se_retries u < MAX_ACCOUNT_SNAPSHOT_RETRIES"
  | (failed) e u where "check_transport env r pinned account s = TransportFailed e u" "awaits env s u"
proof (cases "ci_requires_websocket r \<and> is_none_or pinned (\<lambda>i. i = account_id account)")
  case False
  then show ?thesis by (intro kept) (auto simp: check_transport_def)
next
  case True
  note run = check_transport_def load_runtime_def True
  show ?thesis
  proof (cases "load_runtime_credential (sv_codec env) (sv_load_credential env (se_tick s)) account")
    case (Inr runtime)
    then show ?thesis
      using kept [of "se_await env s"] skipped [of "se_await env s"] True
      by (cases "rc_transport runtime = HttpTransport") (auto simp: run)
  next
    case (Inl e)
    show ?thesis
    proof (cases "e = RevisionConflict")
      case True
      show ?thesis
      proof (rule retry_account_snapshot_cases [of "se_await env s"])
        assume "retry_account_snapshot (se_await env s) = Ok ((se_await env s)\<lparr>se_retries := se_retries (se_await env s) + 1\<rparr>)"
          "se_retries (se_await env s) < MAX_ACCOUNT_SNAPSHOT_RETRIES"
        then show ?thesis
          using \<open>ci_requires_websocket r \<and> _\<close> Inl True by (intro conflict [of "se_await env s"]) (auto simp: run)
      next
        assume "retry_account_snapshot (se_await env s) = Err (AccountSnapshotChanged, se_await env s)"
        then show ?thesis
          using \<open>ci_requires_websocket r \<and> _\<close> Inl True
          by (intro failed [of AccountSnapshotChanged "se_await env s"]) (auto simp: run)
      qed
    next
      case False
      then show ?thesis
        using \<open>ci_requires_websocket r \<and> _\<close> Inl skipped [of "se_await env s"] failed [of _ "se_await env s"]
        by (cases e; cases pinned) (auto simp: run)
    qed
  qed
qed

lemma transport_eligible_cases:
  obtains (kept) accounts' u where "transport_eligible env r pinned accounts s = Captured accounts' u"
      "awaits env s u" "set accounts' \<subseteq> set accounts"
  | (conflict) u where "transport_eligible env r pinned accounts s = CaptureAgain (u\<lparr>se_retries := se_retries u + 1\<rparr>)"
      "awaits env s u" "se_retries u < MAX_ACCOUNT_SNAPSHOT_RETRIES"
  | (failed) e u where "transport_eligible env r pinned accounts s = CaptureFailed e u" "awaits env s u"
proof (induction accounts arbitrary: s thesis)
  case Nil
  then show ?case by auto
next
  case (Cons account rest)
  show ?case
  proof (rule check_transport_cases [of env r pinned account s])
    fix u
    assume u: "check_transport env r pinned account s = TransportKept u" "awaits env s u"
    show ?thesis
      by (rule Cons.IH [of u]) (use u Cons.prems awaits_trans [OF _ u(2)] in \<open>fastforce+\<close>)
  next
    fix u
    assume u: "check_transport env r pinned account s = TransportSkipped u" "awaits env s u"
    show ?thesis
      by (rule Cons.IH [of u]) (use u Cons.prems awaits_trans [OF _ u(2)] in \<open>fastforce+\<close>)
  qed (use Cons.prems in auto)
qed

lemma list_accounts_cases:
  obtains (listed) accounts u where "list_accounts env r s = Ok (accounts, u)" "awaits env (se_await env s) u"
  | (failed) e u where "list_accounts env r s = Err (e, u)" "awaits env (se_await env s) u"
proof (cases "sv_list_accounts env (se_tick s)")
  case (Inl e)
  then show ?thesis by (intro failed [of _ "se_await env s"]) (auto simp: list_accounts_def)
next
  case (Inr accounts)
  let ?lookup = "is_diagnostic_attempt r \<and> is_some_and (ac_required_account (cx_account (ci_attempt r)))
      (\<lambda>i. \<not> list_ex (\<lambda>a. account_id a = i) accounts)"
  let ?answer = "sv_get_account env (Suc (se_tick s)) (the (ac_required_account (cx_account (ci_attempt r))))"
  note run = list_accounts_def Let_def Inr
  show ?thesis
  proof (cases ?lookup)
    case False
    then show ?thesis by (intro listed [of accounts "se_await env s"]) (auto simp: run)
  next
    case True
    show ?thesis
    proof (cases ?answer)
      case (Inl x)
      then show ?thesis using True by (intro failed [of SelStore "se_await env (se_await env s)"]) (auto simp: run)
    next
      case answer: (Inr found)
      show ?thesis
        by (rule listed [of "case found of None \<Rightarrow> accounts | Some a \<Rightarrow> accounts @ [a]" "se_await env (se_await env s)"])
          (use True answer in \<open>auto simp: run split: option.splits\<close>)
    qed
  qed
qed

lemma scheduling_candidates_cases:
  obtains (read) candidates cursor u where "scheduling_candidates env r accounts s = Ok ((candidates, cursor), u)"
      "awaits env s u" "map cand_account candidates = accounts"
  | (failed) e u where "scheduling_candidates env r accounts s = Err (e, u)" "awaits env s u"
proof -
  define s2 where "s2 = (if is_diagnostic_attempt r then s else se_await env (se_await env s))"
  have s2: "awaits env s s2" by (auto simp: s2_def)
  have eq: "scheduling_candidates env r accounts s =
      (case sv_load_state env (se_tick s2) (map account_id accounts) of
         Inl _ \<Rightarrow> Err (SelCoordinator, se_await env s2)
       | Inr (signals, cursor) \<Rightarrow>
           Ok ((map (build_candidate env (se_tick (se_await env s2))
                       (if is_diagnostic_attempt r then Map.empty else sv_cooldown env (se_tick (se_await env s))) signals)
                  accounts, cursor), se_await env s2))"
    by (simp add: scheduling_candidates_def s2_def Let_def split: sum.splits prod.splits)
  have account: "cand_account (build_candidate env t rate signals a) = a" for t rate signals a
    by (simp add: build_candidate_def Let_def)
  show ?thesis
  proof (cases "sv_load_state env (se_tick s2) (map account_id accounts)")
    case (Inl x)
    then show ?thesis using s2 by (intro failed [of SelCoordinator "se_await env s2"]) (auto simp: eq)
  next
    case (Inr y)
    then show ?thesis
      using s2 by (cases y) (auto simp: eq comp_def account intro!: read [of _ _ "se_await env s2"])
  qed
qed

lemma resolve_session_affinity_awaits: "awaits env s (snd (resolve_session_affinity env r candidates s))"
  by (auto simp: resolve_session_affinity_def Let_def split: option.splits SessionAffinityLookup.splits)

lemma prepare_cyber_policy_scope_awaits: "awaits env s (snd (prepare_cyber_policy_scope env key s))"
  by (auto simp: prepare_cyber_policy_scope_def split: option.splits)

text \<open>Every pass of the outer loop begins with an await, and only a conflict starts it over.\<close>

lemma capture_round_cases:
  obtains
    (failed) e u where "capture_round env r pinned s = CaptureFailed e u" "awaits env (se_await env s) u"
  | (conflict) u where "capture_round env r pinned s = CaptureAgain (u\<lparr>se_retries := se_retries u + 1\<rparr>)"
      "awaits env (se_await env s) u" "se_retries u < MAX_ACCOUNT_SNAPSHOT_RETRIES"
  | (captured) rd u where "capture_round env r pinned s = Captured rd u" "awaits env (se_await env s) u"
      "\<forall>c \<in> set (rd_candidates rd). in_request_scope (sv_provider_kind env) r (cand_account c)"
      "rd_base_excluded rd = base_excluded r pinned (rd_cyber_policy_scope rd) (rd_candidates rd)"
proof (rule list_accounts_cases [of env r s])
  fix e u
  assume "list_accounts env r s = Err (e, u)" "awaits env (se_await env s) u"
  then show ?thesis by (intro failed) (auto simp: capture_round_def)
next
  fix accounts u
  assume listed: "list_accounts env r s = Ok (accounts, u)" and u: "awaits env (se_await env s) u"
  define wanted where "wanted = filter (in_request_scope (sv_provider_kind env) r) accounts"
  note run = capture_round_def listed wanted_def [symmetric]
  show ?thesis
  proof (rule transport_eligible_cases [of env r pinned wanted u])
    fix v
    assume "transport_eligible env r pinned wanted u = CaptureAgain (v\<lparr>se_retries := se_retries v + 1\<rparr>)"
      "awaits env u v" "se_retries v < MAX_ACCOUNT_SNAPSHOT_RETRIES"
    then show ?thesis using awaits_trans [OF _ u] by (intro conflict [of v]) (auto simp: run)
  next
    fix e v
    assume "transport_eligible env r pinned wanted u = CaptureFailed e v" "awaits env u v"
    then show ?thesis using awaits_trans [OF _ u] by (intro failed [of e v]) (auto simp: run)
  next
    fix kept v
    assume kept: "transport_eligible env r pinned wanted u = Captured kept v" and v: "awaits env u v"
      and sub: "set kept \<subseteq> set wanted"
    show ?thesis
    proof (rule scheduling_candidates_cases [of env r kept v])
      fix e x
      assume "scheduling_candidates env r kept v = Err (e, x)" "awaits env v x"
      then show ?thesis
        using awaits_trans [OF _ awaits_trans [OF v u]] by (intro failed [of e x]) (auto simp: run kept)
    next
      fix candidates cursor x
      assume read: "scheduling_candidates env r kept v = Ok ((candidates, cursor), x)" and x: "awaits env v x"
        and accounts: "map cand_account candidates = kept"
      obtain a y where a: "(if is_diagnostic_attempt r then (default_affinity, x)
          else resolve_session_affinity env r candidates x) = (a, y)" by fastforce
      obtain scope z where scope: "prepare_cyber_policy_scope env (ci_cyber_policy_key r) y = (scope, z)" by fastforce
      have "awaits env x y"
        using a resolve_session_affinity_awaits [of env x r candidates] by (auto split: if_splits)
      moreover have "awaits env y z"
        using prepare_cyber_policy_scope_awaits [of env y "ci_cyber_policy_key r"] scope by simp
      ultimately have z: "awaits env (se_await env s) z" using x v u by (meson awaits_trans)
      have "\<forall>c \<in> set candidates. in_request_scope (sv_provider_kind env) r (cand_account c)"
        using sub accounts by (force simp: wanted_def)
      then show ?thesis
        using z by (intro captured) (auto simp: run kept read a scope Let_def)
    qed
  qed
qed

section \<open>Invariants of a selection\<close>

lemma wait_retry_result:
  fixes env :: "('c, 'a) SelectorEnv"
  assumes "wait_retry env ticket started s = Some (res, s')"
  shows "awaits env s s' \<and> retry_poll started (sv_now env (se_tick s')) ticket (se_queue s') = Some res"
proof -
  have "awaits env s (snd y)
      \<and> retry_poll started (sv_now env (se_tick (snd y))) ticket (se_queue (snd y)) = Some (fst y)"
    if "wait_retry env ticket started s = Some y" for env :: "('c, 'a) SelectorEnv" and ticket started s y
  proof (rule wait_retry.raw_induct
      [where P = "\<lambda>env ticket started s y. awaits env s (snd y)
         \<and> retry_poll started (sv_now env (se_tick (snd y))) ticket (se_queue (snd y)) = Some (fst y)", OF _ that])
    fix f :: "('c, 'a) SelectorEnv \<Rightarrow> _" and env ticket started s y
    assume IH: "\<And>env ticket started s y. f env ticket started s = Some y \<Longrightarrow> awaits env s (snd y)
        \<and> retry_poll started (sv_now env (se_tick (snd y))) ticket (se_queue (snd y)) = Some (fst y)"
      and body: "(case retry_poll started (sv_now env (se_tick s)) ticket (se_queue s) of
          None \<Rightarrow> f env ticket started (se_await env s) | Some result \<Rightarrow> Some (result, s)) = Some y"
    show "awaits env s (snd y)
        \<and> retry_poll started (sv_now env (se_tick (snd y))) ticket (se_queue (snd y)) = Some (fst y)"
    proof (cases "retry_poll started (sv_now env (se_tick s)) ticket (se_queue s)")
      case None
      then show ?thesis using IH [of env ticket started "se_await env s" y] body awaits_trans by fastforce
    qed (use body in auto)
  qed
  from this [OF assms] show ?thesis by simp
qed

text \<open>One pass of the loop, whatever the next pass \<open>again\<close> does.\<close>

lemma select_pass_rule:
  fixes env :: "('c, 'a) SelectorEnv" and y :: "'a SelectionOutcome \<times> SelectorState"
  assumes pre: "Pre s"
    and body: "(case capture_round env r pinned s of
          CaptureFailed e s \<Rightarrow> Some (Refused e, s)
        | CaptureAgain s \<Rightarrow> again s
        | Captured rd s \<Rightarrow>
            (case select_round env r pinned rd (initial_loop rd) s of
               TurnDone outcome s \<Rightarrow> Some (outcome, s)
             | TurnAgain lp s \<Rightarrow> None
             | TurnRecapture s \<Rightarrow> again s
             | TurnWait ticket s \<Rightarrow>
                 Option.bind (wait_retry env ticket (sv_now env (se_tick s)) s)
                   (\<lambda>(result, s). case result of
                      Inl e \<Rightarrow> Some (Refused (SelQueueRejected e), s) | Inr _ \<Rightarrow> again s))) = Some y"
    and again: "\<And>u. Pre u \<Longrightarrow> again u = Some y \<Longrightarrow> Post (fst y) (snd y)"
    and failed: "\<And>e u. capture_round env r pinned s = CaptureFailed e u \<Longrightarrow> Post (Refused e) u"
    and conflict: "\<And>u. capture_round env r pinned s = CaptureAgain u \<Longrightarrow> Pre u"
    and ended: "\<And>rd u out v. capture_round env r pinned s = Captured rd u \<Longrightarrow>
        select_round env r pinned rd (initial_loop rd) u = TurnDone out v \<Longrightarrow> Post out v"
    and recaptured: "\<And>rd u v. capture_round env r pinned s = Captured rd u \<Longrightarrow>
        select_round env r pinned rd (initial_loop rd) u = TurnRecapture v \<Longrightarrow> Pre v"
    and waited: "\<And>rd u ticket v res x. capture_round env r pinned s = Captured rd u \<Longrightarrow>
        select_round env r pinned rd (initial_loop rd) u = TurnWait ticket v \<Longrightarrow>
        wait_retry env ticket (sv_now env (se_tick v)) v = Some (res, x) \<Longrightarrow>
        (case res of Inl e \<Rightarrow> Post (Refused (SelQueueRejected e)) x | Inr _ \<Rightarrow> Pre x)"
  shows "Post (fst y) (snd y)"
proof (cases "capture_round env r pinned s")
  case (CaptureFailed e u)
  then show ?thesis using body failed [OF CaptureFailed] by auto
next
  case (CaptureAgain u)
  then show ?thesis using body again conflict [OF CaptureAgain] by simp
next
  case (Captured rd u)
  show ?thesis
  proof (cases "select_round env r pinned rd (initial_loop rd) u")
    case (TurnWait ticket v)
    then obtain res x where x: "wait_retry env ticket (sv_now env (se_tick v)) v = Some (res, x)"
      "(case res of Inl e \<Rightarrow> Some (Refused (SelQueueRejected e), x) | Inr _ \<Rightarrow> again x) = Some y"
      using body Captured by (auto simp: Option.bind_eq_Some_conv)
    show ?thesis using x(2) again waited [OF Captured TurnWait x(1)] by (cases res) auto
  qed (use body again Captured ended [OF Captured] recaptured [OF Captured] in auto)
qed

text \<open>What holds at the start of every pass, and what follows when one ends the selection.\<close>

lemma select_loop_rule:
  fixes env :: "('c, 'a) SelectorEnv"
  assumes "select_loop env r pinned s = Some (out, s')" "Pre s"
    and failed: "\<And>s e u. Pre s \<Longrightarrow> capture_round env r pinned s = CaptureFailed e u \<Longrightarrow> Post (Refused e) u"
    and conflict: "\<And>s u. Pre s \<Longrightarrow> capture_round env r pinned s = CaptureAgain u \<Longrightarrow> Pre u"
    and ended: "\<And>s rd u out v. Pre s \<Longrightarrow> capture_round env r pinned s = Captured rd u \<Longrightarrow>
        select_round env r pinned rd (initial_loop rd) u = TurnDone out v \<Longrightarrow> Post out v"
    and recaptured: "\<And>s rd u v. Pre s \<Longrightarrow> capture_round env r pinned s = Captured rd u \<Longrightarrow>
        select_round env r pinned rd (initial_loop rd) u = TurnRecapture v \<Longrightarrow> Pre v"
    and waited: "\<And>s rd u ticket v res x. Pre s \<Longrightarrow> capture_round env r pinned s = Captured rd u \<Longrightarrow>
        select_round env r pinned rd (initial_loop rd) u = TurnWait ticket v \<Longrightarrow>
        wait_retry env ticket (sv_now env (se_tick v)) v = Some (res, x) \<Longrightarrow>
        (case res of Inl e \<Rightarrow> Post (Refused (SelQueueRejected e)) x | Inr _ \<Rightarrow> Pre x)"
  shows "Post out s'"
proof -
  have "env' = env \<longrightarrow> r' = r \<longrightarrow> pinned' = pinned \<longrightarrow> Pre s \<longrightarrow> Post (fst y) (snd y)"
    if "select_loop env' r' pinned' s = Some y" for env' :: "('c, 'a) SelectorEnv" and r' pinned' s y
  proof (rule select_loop.raw_induct
      [where P = "\<lambda>env' r' pinned' s y. env' = env \<longrightarrow> r' = r \<longrightarrow> pinned' = pinned \<longrightarrow> Pre s \<longrightarrow> Post (fst y) (snd y)", OF _ that])
    fix f and env' :: "('c, 'a) SelectorEnv" and r' pinned' s and y :: "'a SelectionOutcome \<times> SelectorState"
    assume IH: "\<And>env' r' pinned' s y. f env' r' pinned' s = Some y \<Longrightarrow>
        env' = env \<longrightarrow> r' = r \<longrightarrow> pinned' = pinned \<longrightarrow> Pre s \<longrightarrow> Post (fst y) (snd y)"
      and body: "(case capture_round env' r' pinned' s of
          CaptureFailed e s \<Rightarrow> Some (Refused e, s)
        | CaptureAgain s \<Rightarrow> f env' r' pinned' s
        | Captured rd s \<Rightarrow>
            (case select_round env' r' pinned' rd (initial_loop rd) s of
               TurnDone outcome s \<Rightarrow> Some (outcome, s)
             | TurnAgain lp s \<Rightarrow> None
             | TurnRecapture s \<Rightarrow> f env' r' pinned' s
             | TurnWait ticket s \<Rightarrow>
                 Option.bind (wait_retry env' ticket (sv_now env' (se_tick s)) s)
                   (\<lambda>(result, s). case result of
                      Inl e \<Rightarrow> Some (Refused (SelQueueRejected e), s) | Inr _ \<Rightarrow> f env' r' pinned' s))) = Some y"
    show "env' = env \<longrightarrow> r' = r \<longrightarrow> pinned' = pinned \<longrightarrow> Pre s \<longrightarrow> Post (fst y) (snd y)"
    proof (intro impI)
      assume eqs: "env' = env" "r' = r" "pinned' = pinned" and pre: "Pre s"
      show "Post (fst y) (snd y)"
        by (rule select_pass_rule [where Pre = Pre and Post = Post, OF pre body [unfolded eqs]])
          (use IH pre in \<open>blast intro: failed conflict ended recaptured waited\<close>)+
    qed
  qed
  from this [OF assms(1)] assms(2) show ?thesis by simp
qed

text \<open>A request for a lease fits when it asks for what the settings of the request and of the account allow: the account
  is the one the store returned for the id and the revision the lease names, and the limit is that of this account,
  less the slots that the request has to leave free.\<close>

definition request_fits :: "('c, 'a) SelectorEnv \<Rightarrow> CredentialSelectionInput \<Rightarrow> ProviderSchedulingLeaseRequest \<Rightarrow> bool" where
  "request_fits env r q \<longleftrightarrow>
     lr_provider_kind q = sv_provider_kind env \<and> lr_deadline q = cx_deadline (ci_attempt r)
     \<and> lr_request_interval q = policy_request_interval (sa_policy (ci_attempt r))
     \<and> (\<exists>time loaded account. sv_load_credential env time (lr_account_id q) (lr_credential_revision q) = Ok loaded
          \<and> account = lc_account loaded
          \<and> account_id account = lr_account_id q \<and> account_revision account = lr_credential_revision q
          \<and> lr_max_concurrent q = excluding_reserved
               (effective_concurrency account (policy_max_concurrent (sa_policy (ci_attempt r))))
               (request_reserved_concurrency r))"

definition ticket_note ::
  "ProviderAccountId WaitTicket option \<Rightarrow> QueueRejection + ProviderAccountId WaitTicket \<Rightarrow> SelectorEffect list" where
  "ticket_note held res =
     (case res of Inl _ \<Rightarrow> [] | Inr t \<Rightarrow> if held = Some t then [] else [TicketTaken t])"

fun outcome_holds ::
  "(SelectorState \<Rightarrow> bool) \<Rightarrow> (ProviderAccountId \<Rightarrow> SelectorState \<Rightarrow> bool) \<Rightarrow> 'a SelectionOutcome \<Rightarrow> SelectorState \<Rightarrow> bool" where
  "outcome_holds I H (Selected l) s = H (account_id (cl_account l)) s"
| "outcome_holds I H (Refused e) s = I s"
| "outcome_holds I H ScorePanic s = I s"

fun turn_holds ::
  "(SelectorState \<Rightarrow> bool) \<Rightarrow> (ProviderAccountId \<Rightarrow> SelectorState \<Rightarrow> bool) \<Rightarrow> 'a TurnOutcome \<Rightarrow> bool" where
  "turn_holds I H (TurnDone out s) = outcome_holds I H out s"
| "turn_holds I H (TurnAgain lp s) = I s"
| "turn_holds I H (TurnRecapture s) = I s"
| "turn_holds I H (TurnWait t s) = I s"

lemma se_note_empty [simp]: "se_note [] s = s"
  by (simp add: se_note_def)

lemma enter_wait_result:
  "enter_wait env keys rd ctx s =
     (case wait_for_capacity (sv_now env (se_tick s)) (se_waiting s) (se_queue s) keys (rd_candidates rd) ctx of
        None \<Rightarrow> TurnDone ScorePanic s
      | Some (res, w, q) \<Rightarrow>
          let s' = se_note (ticket_note (wait_ticket (se_waiting s)) res) (s\<lparr>se_waiting := w, se_queue := q\<rparr>) in
          (case res of Inl e \<Rightarrow> TurnDone (Refused (SelQueueRejected e)) s' | Inr ticket \<Rightarrow> TurnWait ticket s'))"
  by (auto simp: enter_wait_def ticket_note_def Let_def split: option.splits sum.splits)

text \<open>What a load that succeeded has checked.\<close>

lemma load_runtime_credentialD:
  assumes "load_runtime_credential codec load account = Ok runtime"
  shows "\<exists>loaded. load (account_id account) (account_revision account) = Ok loaded \<and> lc_account loaded = account
    \<and> decode_complete_kind codec (lc_credential loaded) = Some (authentication_kind account)
    \<and> decode_runtime codec (lc_credential loaded) = Some runtime"
  using assms
  by (auto simp: load_runtime_credential_def decode_runtime_credential_def ok_or_def
      split: if_splits sum.splits option.splits)

lemma lease_request_fits:
  assumes "ctx_policy ctx = sa_policy (ci_attempt r)" "reserved_concurrency ctx = request_reserved_concurrency r"
    "load_runtime_credential codec (sv_load_credential env time) account = Ok runtime"
  shows "request_fits env r (lease_request env r ctx account)"
  using load_runtime_credentialD [OF assms(3)] assms(1,2)
  by (auto simp: request_fits_def lease_request_def ctx_concurrency_limit_def)

text \<open>An account whose credential does not load is never asked for.\<close>

lemma try_account_not_loaded:
  assumes "load_runtime_credential (sv_codec env) (sv_load_credential env (se_tick s)) account = Err e"
  shows "(\<exists>e'. try_account env r pinned rd lp ctx waited_for capacity account s = TurnDone (Refused e') (se_await env s))
    \<or> try_account env r pinned rd lp ctx waited_for capacity account s =
        TurnRecapture ((se_await env s)\<lparr>se_retries := se_retries s + 1\<rparr>)"
  using assms
  by (cases e; cases "se_retries s < MAX_ACCOUNT_SNAPSHOT_RETRIES")
    (auto simp: try_account_def load_runtime_def retry_account_snapshot_def se_await_def)

lemma lease_request_account: "lr_account_id (lease_request env r ctx account) = account_id account"
  by (simp add: lease_request_def)

locale selector_invariant =
  fixes I :: "('c, 'a) SelectorEnv \<Rightarrow> CredentialSelectionInput \<Rightarrow> SelectorState \<Rightarrow> bool"
    and H :: "('c, 'a) SelectorEnv \<Rightarrow> CredentialSelectionInput \<Rightarrow> ProviderAccountId \<Rightarrow> SelectorState \<Rightarrow> bool"
  assumes await: "I env r s \<Longrightarrow> I env r (se_await env s)"
    and conflict: "I env r s \<Longrightarrow> I env r (s\<lparr>se_retries := n\<rparr>)"
    and request: "I env r s \<Longrightarrow> can_try (se_waiting s) (se_queue s) (lr_account_id q) \<Longrightarrow> request_fits env r q \<Longrightarrow>
       I env r (se_note [LeaseRequested q (se_waiting s) (se_queue s)] (se_await env s))"
    and taken: "I env r s \<Longrightarrow> H env r i (se_note [LeaseTaken i] s)"
    and held: "H env r i s \<Longrightarrow> H env r i (se_await env s)"
    and claimed: "H env r i s \<Longrightarrow> H env r i (se_note [AffinityClaimed k i] s)"
    and renewed: "H env r i s \<Longrightarrow> H env r i (se_note [AffinityRenewed k i] s)"
    and dropped: "H env r i s \<Longrightarrow> I env r (se_note [LeaseDropped i] s)"
    and joined: "I env r s \<Longrightarrow>
       wait_for_capacity now (se_waiting s) (se_queue s) keys cs ctx = Some (res, w, st) \<Longrightarrow>
       I env r (se_note (ticket_note (wait_ticket (se_waiting s)) res) (s\<lparr>se_waiting := w, se_queue := st\<rparr>))"
begin

lemma awaited: "awaits env s t \<Longrightarrow> I env r s \<Longrightarrow> I env r t"
  by (induction rule: awaits.induct) (auto intro: await)

lemma leased_holds:
  assumes "I env r s"
  shows "turn_holds (I env r) (H env r) (leased env r pinned rd lp capacity account runtime s)"
proof -
  let ?i = "account_id account"
  obtain claim t where claim: "claim_initial_affinity env r lp ?i (se_note [LeaseTaken ?i] s) = (claim, t)" by fastforce
  have "H env r ?i (se_note [LeaseTaken ?i] s)" by (rule taken [OF assms])
  then have t: "H env r ?i t"
    using claim held claimed by (auto simp: claim_initial_affinity_def split: option.splits if_splits)
  then have "H env r ?i (renew_affinity env r lp ?i t)"
    using held renewed by (auto simp: renew_affinity_def split: option.splits)
  then show ?thesis
    using t dropped
    by (cases "filter_option (\<lambda>effective. pinned = None \<and> effective \<noteq> ?i) claim") (auto simp: leased_def claim Let_def)
qed

lemma try_account_holds:
  assumes "I env r s" "ctx_policy ctx = sa_policy (ci_attempt r)" "reserved_concurrency ctx = request_reserved_concurrency r"
  shows "turn_holds (I env r) (H env r) (try_account env r pinned rd lp ctx waited_for capacity account s)"
proof (cases "load_runtime_credential (sv_codec env) (sv_load_credential env (se_tick s)) account")
  case (Inl e)
  then show ?thesis
    using await [OF assms(1)] conflict [OF await [OF assms(1)]] try_account_not_loaded [OF Inl, of r pinned rd lp ctx waited_for capacity]
    by (auto simp del: se_await_simps)
next
  case (Inr loaded)
  have s: "I env r (se_await env s)" by (rule await [OF assms(1)])
  have requested: "I env r (se_note [LeaseRequested (lease_request env r ctx account) (se_waiting (se_await env s))
      (se_queue (se_await env s))] (se_await env (se_await env s)))"
    if "can_try (se_waiting (se_await env s)) (se_queue (se_await env s)) (account_id account)"
    by (rule request [OF s _ lease_request_fits [OF assms(2,3) Inr]]) (simp only: lease_request_account that)
  show ?thesis
    by (rule try_account_cases [of env r pinned rd lp ctx waited_for capacity account s])
      (use s conflict requested leased_holds in \<open>auto simp del: se_await_simps\<close>)
qed

lemma select_turn_holds:
  assumes "I env r s"
  shows "turn_holds (I env r) (H env r) (select_turn env r pinned rd lp s)"
proof -
  have s: "I env r (se_await env s)" by (rule await [OF assms])
  have wait: "turn_holds (I env r) (H env r) (enter_wait env keys rd ctx (se_await env s))" for keys ctx
    unfolding enter_wait_result
    using s joined [OF s] by (auto simp: Let_def simp del: se_await_simps split: option.splits sum.splits)
  show ?thesis
    by (rule select_turn_cases [of env r pinned rd lp s])
      (use s wait in \<open>auto intro!: try_account_holds simp: yield_to_waiters_def turn_context_def\<close>)
qed

lemma select_round_holds:
  assumes "I env r s"
  shows "turn_holds (I env r) (H env r) (select_round env r pinned rd lp s)"
  using assms
proof (induction env r pinned rd lp s rule: select_round.induct)
  case (1 env r pinned rd lp s)
  then show ?case
    using select_turn_holds [OF 1(2), of pinned rd lp]
    by (subst select_round.simps) (cases "select_turn env r pinned rd lp s"; simp)
qed

lemma selection_holds:
  assumes "select_loop env r pinned s = Some (out, s')" "I env r s"
  shows "outcome_holds (I env r) (H env r) out s'"
proof (rule select_loop_rule [where Pre = "I env r" and Post = "outcome_holds (I env r) (H env r)", OF assms])
  have captured: "I env r u" if "I env r s" "capture_round env r pinned s = Captured rd u" for s rd u
    using that awaited [OF _ await [OF that(1)]] by (cases rule: capture_round_cases [of env r pinned s]) auto
  show "outcome_holds (I env r) (H env r) (Refused e) u" if "I env r s" "capture_round env r pinned s = CaptureFailed e u" for s e u
    using that awaited [OF _ await [OF that(1)]] by (cases rule: capture_round_cases [of env r pinned s]) auto
  show "I env r u" if "I env r s" "capture_round env r pinned s = CaptureAgain u" for s u
    using that awaited [OF _ await [OF that(1)]] conflict by (cases rule: capture_round_cases [of env r pinned s]) auto
  fix s rd u
  assume "I env r s" "capture_round env r pinned s = Captured rd u"
  from select_round_holds [OF captured [OF this], of pinned rd "initial_loop rd"]
  show "select_round env r pinned rd (initial_loop rd) u = TurnDone out v \<Longrightarrow> outcome_holds (I env r) (H env r) out v"
    "select_round env r pinned rd (initial_loop rd) u = TurnRecapture v \<Longrightarrow> I env r v"
    "select_round env r pinned rd (initial_loop rd) u = TurnWait ticket v \<Longrightarrow>
       wait_retry env ticket (sv_now env (se_tick v)) v = Some (res, x) \<Longrightarrow>
       (case res of Inl e \<Rightarrow> outcome_holds (I env r) (H env r) (Refused (SelQueueRejected e)) x | Inr _ \<Rightarrow> I env r x)"
    for out v ticket res x
    by (auto dest!: wait_retry_result dest: awaited split: sum.splits)
qed

end

section \<open>Leases and turns\<close>

definition leases_even :: "SelectorState \<Rightarrow> bool" where
  "leases_even s \<longleftrightarrow> (\<forall>j. count_list (se_log s) (LeaseTaken j) = count_list (se_log s) (LeaseDropped j))"

definition lease_out :: "ProviderAccountId \<Rightarrow> SelectorState \<Rightarrow> bool" where
  "lease_out i s \<longleftrightarrow>
     (\<forall>j. count_list (se_log s) (LeaseTaken j) = count_list (se_log s) (LeaseDropped j) + of_bool (j = i))"

lemma ticket_note_counts [simp]:
  "count_list (ticket_note held res) (LeaseTaken j) = 0" "count_list (ticket_note held res) (LeaseDropped j) = 0"
  "LeaseRequested q w st \<notin> set (ticket_note held res)"
  by (auto simp: ticket_note_def split: sum.splits)

interpretation lease_accounting: selector_invariant "\<lambda>env r. leases_even" "\<lambda>env r. lease_out"
  by unfold_locales (auto simp: leases_even_def lease_out_def)

definition turns_respected :: "('c, 'a) SelectorEnv \<Rightarrow> CredentialSelectionInput \<Rightarrow> SelectorState \<Rightarrow> bool" where
  "turns_respected env r s \<longleftrightarrow>
     (\<forall>q w st. LeaseRequested q w st \<in> set (se_log s) \<longrightarrow> can_try w st (lr_account_id q) \<and> request_fits env r q)"

interpretation no_queue_jumping: selector_invariant turns_respected "\<lambda>env r i. turns_respected env r"
  by unfold_locales (auto simp: turns_respected_def)

lemma drop_wait_simps [simp]:
  "se_log (drop_wait s) = se_log s" "se_tick (drop_wait s) = se_tick s"
  by (simp_all add: drop_wait_def Let_def split: prod.splits)

text \<open>How a selection ends.\<close>

lemma select_inner_cases:
  assumes "select_inner env r t queue = Some (out, s)"
  obtains (mismatch) "pinned_account (sv_provider_kind env) r = Err NoEligibleCredential"
      "out = Refused NoEligibleCredential" "s = initial_selector r t queue"
  | (selected) pinned s' where "pinned_account (sv_provider_kind env) r = Ok pinned"
      "select_loop env r pinned (initial_selector r t queue) = Some (out, s')" "s = drop_wait s'"
  using assms
  by (auto simp: select_inner_def pinned_account_def Let_def split: sum.splits option.splits if_splits)

text \<open>C5: whatever happens while a selection runs - lost races, retries, waits, a session that turns out to
  be bound elsewhere - every lease it took is given back, except the one it returns.\<close>

theorem selector_keeps_one_lease:
  assumes "select_inner env r t queue = Some (out, s)"
  shows "count_list (se_log s) (LeaseTaken j) =
     count_list (se_log s) (LeaseDropped j) + of_bool (\<exists>l. out = Selected l \<and> account_id (cl_account l) = j)"
  using assms
proof (cases rule: select_inner_cases)
  case (selected pinned s')
  have "leases_even (initial_selector r t queue)" by (simp add: leases_even_def initial_selector_def)
  from lease_accounting.selection_holds [OF selected(2) this] show ?thesis
    using selected(3) by (cases out) (auto simp: leases_even_def lease_out_def)
qed (simp add: initial_selector_def)

text \<open>C7: a lease is asked for only by a request whose turn it is: at that moment no waiter of its class or
  a higher one stands before it in the queue of the account. What it asks for is what it may have: the account is the
  one the store returned for the id and the revision named in the request, the limit is the concurrency of this account
  (its own or, without one, that of the policy) less the slots reserved for reviews, and the interval and the deadline
  are those of the request.\<close>

theorem selector_waits_its_turn:
  assumes "select_inner env r t queue = Some (out, s)" "LeaseRequested q w st \<in> set (se_log s)"
  shows "(case filter_option (\<lambda>ticket. ticket_key ticket = lr_account_id q) (wait_ticket w) of
           Some ticket \<Rightarrow> is_head st ticket
         | None \<Rightarrow> \<not> has_waiters_ahead_of st (lr_account_id q) (wait_priority w))
    \<and> request_fits env r q"
  using assms(1)
proof (cases rule: select_inner_cases)
  case (selected pinned s')
  have "turns_respected env r (initial_selector r t queue)" by (simp add: turns_respected_def initial_selector_def)
  from no_queue_jumping.selection_holds [OF selected(2) this] show ?thesis
    using assms(2) selected(3) by (cases out) (auto simp: turns_respected_def can_try_def)
qed (use assms(2) in \<open>simp add: initial_selector_def\<close>)


section \<open>Places in the queue\<close>

definition others_use_the_queue :: "('c, 'a) SelectorEnv \<Rightarrow> bool" where
  "others_use_the_queue env \<longleftrightarrow> (\<forall>t q. queue_step\<^sup>*\<^sup>* q (sv_others env t q))"

text \<open>A place that was taken is either gone or the one the wait holds.\<close>

definition places_known ::
  "ProviderAccountId CapacityWait \<Rightarrow> ProviderAccountId QueueState \<Rightarrow> SelectorEffect list \<Rightarrow> bool" where
  "places_known w q effects \<longleftrightarrow>
     queue_ok q
     \<and> is_none_or (wait_ticket w) (\<lambda>t. TicketTaken t \<in> set effects)
     \<and> (\<forall>t. TicketTaken t \<in> set effects \<longrightarrow> ticket_waker t < next_waker q
          \<and> (\<forall>k x. x \<in> set (waiters q k) \<and> waker x = ticket_waker t \<longrightarrow> k = ticket_key t \<and> wait_ticket w = Some t))"

lemma places_knownI:
  assumes "queue_ok q" "\<And>t. wait_ticket w = Some t \<Longrightarrow> TicketTaken t \<in> set es"
    "\<And>t. TicketTaken t \<in> set es \<Longrightarrow> ticket_waker t < next_waker q"
    "\<And>t k x. TicketTaken t \<in> set es \<Longrightarrow> x \<in> set (waiters q k) \<Longrightarrow> waker x = ticket_waker t \<Longrightarrow>
       k = ticket_key t \<and> wait_ticket w = Some t"
  shows "places_known w q es"
  using assms unfolding places_known_def is_none_or_iff by blast

lemma places_knownD:
  assumes "places_known w q es"
  shows "queue_ok q" "wait_ticket w = Some t \<Longrightarrow> TicketTaken t \<in> set es"
    "TicketTaken t \<in> set es \<Longrightarrow> ticket_waker t < next_waker q"
    "TicketTaken t \<in> set es \<Longrightarrow> x \<in> set (waiters q k) \<Longrightarrow> waker x = ticket_waker t \<Longrightarrow>
       k = ticket_key t \<and> wait_ticket w = Some t"
  using assms unfolding places_known_def is_none_or_iff by blast+

lemma places_after_steps:
  assumes "places_known w q effects" "queue_step\<^sup>*\<^sup>* q q'"
  shows "places_known w q' effects"
proof -
  have q': "queue_ok q'" "wait_queue.evolves q q'"
    using queue_steps_keep [OF assms(2)] assms(1) by (auto simp: places_known_def)
  have old: "x \<in> set (waiters q k)" if "x \<in> set (waiters q' k)" "waker x < next_waker q" for x k
  proof -
    have "subseq (filter (\<lambda>w. waker w < next_waker q) (waiters q' k)) (filter (\<lambda>w. waker w < next_waker q) (waiters q k))"
      using q'(2) unfolding wait_queue.evolves_def by blast
    moreover have "subseq [x] (filter (\<lambda>w. waker w < next_waker q) (waiters q' k))"
      using that by (simp add: subseq_singleton_left)
    ultimately have "subseq [x] (filter (\<lambda>w. waker w < next_waker q) (waiters q k))" by (meson subseq_order.trans)
    then show ?thesis by (simp add: subseq_singleton_left)
  qed
  have clock: "next_waker q \<le> next_waker q'" using q'(2) by (simp add: wait_queue.evolves_def)
  note known = places_knownD [OF assms(1)]
  show ?thesis
  proof (rule places_knownI [OF q'(1) known(2)])
    show "ticket_waker t < next_waker q'" if "TicketTaken t \<in> set effects" for t
      using known(3) [OF that] clock by simp
    show "k = ticket_key t \<and> wait_ticket w = Some t"
      if "TicketTaken t \<in> set effects" "x \<in> set (waiters q' k)" "waker x = ticket_waker t" for t k x
      using known(4) [OF that(1) old [OF that(2)] that(3)] known(3) [OF that(1)] that(3) by simp
  qed
qed

lemma release_places:
  assumes "places_known w q effects" "release_ticket w q = (w', q')"
  shows "places_known w' q' effects" "wait_ticket w' = None"
proof -
  show none: "wait_ticket w' = None" using assms(2) by (auto simp: release_ticket_def split: option.splits)
  show "places_known w' q' effects"
  proof (cases "wait_ticket w")
    case None
    then show ?thesis using assms by (simp add: release_ticket_def)
  next
    case (Some t)
    have ok: "queue_ok q" using assms(1) by (simp add: places_known_def)
    have q': "q' = leave_queue (ticket_key t) (ticket_waker t) q"
      using assms(2) Some by (auto simp: release_ticket_def drop_is_leave)
    note known = places_knownD [OF assms(1)]
    show ?thesis
    proof (rule places_knownI)
      show "queue_ok q'" unfolding q' by (rule leave_ok [OF ok])
      show "ticket_waker u < next_waker q'" if "TicketTaken u \<in> set effects" for u
        using known(3) [OF that] by (simp add: q' wait_queue.leave_clock)
      show "k = ticket_key u \<and> wait_ticket w' = Some u"
        if u: "TicketTaken u \<in> set effects" "x \<in> set (waiters q' k)" "waker x = ticket_waker u" for u k x
      proof -
        have x: "x \<in> set (waiters q k)" "k = ticket_key t \<longrightarrow> waker x \<noteq> ticket_waker t"
          using u(2) by (auto simp: q' waiters_leave [OF ok] split: if_splits)
        from known(4) [OF u(1) x(1) u(3)] have "k = ticket_key u" "u = t" using Some by simp_all
        then show ?thesis using x(2) u(3) by simp
      qed
    qed (simp add: none)
  qed
qed

lemma join_places:
  assumes "places_known w q effects" "total q < MAX_TOTAL_WAITING" "ticket_key t = k" "ticket_waker t = next_waker q"
    "wait_ticket w = None"
  shows "places_known (w\<lparr>wait_ticket := Some t\<rparr>) (join_queue k wp q) (effects @ [TicketTaken t])"
proof -
  have ok: "queue_ok q" using assms(1) by (simp add: places_known_def)
  have line: "set (waiters (join_queue k wp q) k') =
      (if k' = k then insert (newcomer_of wp q) (set (waiters q k)) else set (waiters q k'))" for k'
    by (auto simp: waiters_join [OF ok])
  note known = places_knownD [OF assms(1)]
  have clock: "next_waker (join_queue k wp q) = Suc (next_waker q)" by (simp add: wait_queue.join_clock)
  show ?thesis
  proof (rule places_knownI)
    show "queue_ok (join_queue k wp q)" by (rule join_ok [OF ok assms(2)])
    show "ticket_waker u < next_waker (join_queue k wp q)" if "TicketTaken u \<in> set (effects @ [TicketTaken t])" for u
      using that assms(4) known(3) [of u] clock by auto
    show "k' = ticket_key u \<and> wait_ticket (w\<lparr>wait_ticket := Some t\<rparr>) = Some u"
      if u: "TicketTaken u \<in> set (effects @ [TicketTaken t])" "x \<in> set (waiters (join_queue k wp q) k')"
        "waker x = ticket_waker u" for u k' x
    proof (cases "u = t")
      case True
      then have "x \<notin> set (waiters q k')" using queue_okD(3) [OF ok, of x k'] u(3) assms(4) by auto
      then show ?thesis using True u(2) assms(3) by (auto simp: line split: if_splits)
    next
      case False
      then have old: "TicketTaken u \<in> set effects" using u(1) by simp
      then have "x \<noteq> newcomer_of wp q" using known(3) [OF old] u(3) by (auto simp: newcomer_of_def)
      then have "x \<in> set (waiters q k')" using u(2) by (auto simp: line split: if_splits)
      from known(4) [OF old this u(3)] show ?thesis using assms(5) by simp
    qed
  qed simp
qed

lemma wait_places:
  assumes "places_known w q effects" "wait_with_priority now keys score w q = (res, w', q')"
  shows "places_known w' q' (effects @ ticket_note (wait_ticket w) res)"
proof -
  obtain deadline w1 q1 where prepared: "wait_prepare now keys w q = (deadline, w1, q1)" by (metis prod_cases3)
  have same: "places_known (w\<lparr>wait_started_at := a, wait_budget := b\<rparr>) q effects" for a b
    using assms(1) by (simp add: places_known_def)
  have w1: "places_known w1 q1 effects \<and> (wait_ticket w1 = wait_ticket w \<or> wait_ticket w1 = None)"
    using prepared same release_places [OF same]
    by (auto simp: wait_prepare_def Let_def split: prod.splits if_splits)
  show ?thesis
  proof (cases "wait_ticket w1")
    case (Some t)
    then show ?thesis using assms(2) w1 by (auto simp: wait_with_priority_def prepared ticket_note_def)
  next
    case None
    show ?thesis
    proof (rule enqueue_cases [of now keys "max_waiting (wait_policy w1)" deadline "wait_priority w1" score q1])
      fix e
      assume "enqueue_ranked now keys (max_waiting (wait_policy w1)) deadline (wait_priority w1) score q1 = (Err e, q1)"
      then show ?thesis
        using assms(2) w1 None by (auto simp: wait_with_priority_def prepared ticket_note_def)
    next
      fix k t
      assume t: "enqueue_ranked now keys (max_waiting (wait_policy w1)) deadline (wait_priority w1) score q1
          = (Ok t, join_queue k (wait_priority w1) q1)" "ticket_key t = k" "ticket_waker t = next_waker q1"
          "total q1 < MAX_TOTAL_WAITING"
      have "wait_ticket w \<noteq> Some t"
      proof
        assume "wait_ticket w = Some t"
        then have "TicketTaken t \<in> set effects" using assms(1) by (simp add: places_known_def)
        then show False using w1 t(3) by (auto simp: places_known_def)
      qed
      then show ?thesis
        using assms(2) t None join_places [OF _ t(4,2,3) None, of effects "wait_priority w1"] w1
        by (auto simp: wait_with_priority_def prepared ticket_note_def)
    qed
  qed
qed

lemma capacity_places:
  assumes "places_known w q effects" "wait_for_capacity now w q keys cs ctx = Some (res, w', q')"
  shows "places_known w' q' (effects @ ticket_note (wait_ticket w) res)"
  using assms wait_places [OF assms(1)]
  by (auto simp: wait_for_capacity_def wait_default_def Let_def split: if_splits)

definition places_ok :: "('c, 'a) SelectorEnv \<Rightarrow> CredentialSelectionInput \<Rightarrow> SelectorState \<Rightarrow> bool" where
  "places_ok env r s \<longleftrightarrow>
     (others_use_the_queue env \<longrightarrow> places_known (se_waiting s) (se_queue s) (se_log s))"

lemma places_other_effect:
  assumes "\<And>t. e \<noteq> TicketTaken t"
  shows "places_known w q (effects @ [e]) = places_known w q effects"
proof -
  have "TicketTaken t \<in> set (effects @ [e]) \<longleftrightarrow> TicketTaken t \<in> set effects" for t using assms [of t] by auto
  then show ?thesis by (simp only: places_known_def)
qed

lemma places_await:
  assumes "places_ok env r s"
  shows "places_ok env r (se_await env s)"
  unfolding places_ok_def
proof
  assume "others_use_the_queue env"
  then show "places_known (se_waiting (se_await env s)) (se_queue (se_await env s)) (se_log (se_await env s))"
    using assms unfolding se_await_simps places_ok_def others_use_the_queue_def by (blast intro: places_after_steps)
qed

interpretation places: selector_invariant
  "places_ok :: ('c, 'a) SelectorEnv \<Rightarrow> _" "\<lambda>env r i. places_ok env r"
proof unfold_locales
  show "places_ok env r s \<Longrightarrow> places_ok env r (se_note [LeaseRequested req (se_waiting s) (se_queue s)] (se_await env s))"
    for env :: "('c, 'a) SelectorEnv" and r s req
    using places_await by (simp add: places_ok_def places_other_effect)
  show "places_ok env r s \<Longrightarrow> wait_for_capacity now (se_waiting s) (se_queue s) keys cs ctx = Some (res, w, st) \<Longrightarrow>
      places_ok env r (se_note (ticket_note (wait_ticket (se_waiting s)) res) (s\<lparr>se_waiting := w, se_queue := st\<rparr>))"
    for env :: "('c, 'a) SelectorEnv" and r s now keys cs ctx res w st
    using capacity_places by (fastforce simp: places_ok_def)
  show "places_ok env r s \<Longrightarrow> places_ok env r (s\<lparr>se_retries := n\<rparr>)"
    for env :: "('c, 'a) SelectorEnv" and r s n by (simp add: places_ok_def)
qed ((rule places_await, assumption | simp add: places_ok_def places_other_effect)+)

text \<open>C8: however a selection ends, no place it took in the queue of an account is left behind to block others,
  as long as other requests change the queue only through its operations.\<close>

theorem selector_leaves_no_place:
  assumes "select_inner env r t queue = Some (out, s)" "TicketTaken ticket \<in> set (se_log s)"
    "queue_ok queue" "others_use_the_queue env"
  shows "\<forall>k. \<forall>x \<in> set (waiters (se_queue s) k). waker x \<noteq> ticket_waker ticket"
  using assms(1)
proof (cases rule: select_inner_cases)
  case (selected pinned s')
  have "places_ok env r (initial_selector r t queue)"
    using assms(3)
    by (simp add: places_ok_def places_known_def initial_selector_def initial_wait_def with_priority_def new_CapacityWait_def)
  from places.selection_holds [OF selected(2) this]
  have "places_known (se_waiting s') (se_queue s') (se_log s')"
    using assms(4) by (cases out) (auto simp: places_ok_def)
  from release_places [OF this] have "places_known (se_waiting s) (se_queue s) (se_log s)" "wait_ticket (se_waiting s) = None"
    using selected(3) by (auto simp: drop_wait_def Let_def split: prod.splits)
  then show ?thesis using assms(2) by (fastforce simp: places_known_def)
qed (use assms(2) in \<open>simp add: initial_selector_def\<close>)

section \<open>The account of a lease\<close>

text \<open>A lease is built from the credential that was loaded for exactly the account it is for.\<close>

definition lease_of ::
  "('c, 'a) SelectorEnv \<Rightarrow> CredentialSelectionInput \<Rightarrow> SelectionRound \<Rightarrow> ProviderAccount \<Rightarrow> 'a CodexCredentialLease \<Rightarrow> bool" where
  "lease_of env r rd account l \<longleftrightarrow>
     cl_account l = account \<and> cl_cyber_policy_scope l = rd_cyber_policy_scope rd
     \<and> (\<exists>t runtime now. load_runtime_credential (sv_codec env) (sv_load_credential env t) account = Ok runtime
          \<and> cl_authentication l = rc_authentication runtime \<and> cl_transport l = rc_transport runtime
          \<and> cl_installation_id l = rc_installation_id runtime
          \<and> cl_cookies l = replayed_cookies (sv_cookie_policy env) (ci_request_url r) now (rc_cookies runtime))"

lemma leased_selected:
  assumes "leased env r pinned rd lp capacity account runtime s = TurnDone (Selected l) s'"
    "load_runtime_credential (sv_codec env) (sv_load_credential env t) account = Ok runtime"
  shows "lease_of env r rd account l"
proof -
  obtain claim u where claim: "claim_initial_affinity env r lp (account_id account) (se_note [LeaseTaken (account_id account)] s)
      = (claim, u)" by fastforce
  have "cl_account l = account \<and> cl_cyber_policy_scope l = rd_cyber_policy_scope rd
      \<and> cl_authentication l = rc_authentication runtime \<and> cl_transport l = rc_transport runtime
      \<and> cl_installation_id l = rc_installation_id runtime
      \<and> cl_cookies l = replayed_cookies (sv_cookie_policy env) (ci_request_url r) (sv_now env (se_tick u)) (rc_cookies runtime)"
    using assms(1)
    by (cases "filter_option (\<lambda>effective. pinned = None \<and> effective \<noteq> account_id account) claim")
      (auto simp: leased_def claim Let_def)
  then show ?thesis using assms(2) unfolding lease_of_def by blast
qed

lemma try_account_selected:
  assumes "try_account env r pinned rd lp ctx waited_for capacity account s = TurnDone (Selected l) s'"
  shows "lease_of env r rd account l"
proof (rule try_account_cases [of env r pinned rd lp ctx waited_for capacity account s])
  fix runtime
  assume "try_account env r pinned rd lp ctx waited_for capacity account s =
        leased env r pinned rd lp capacity account runtime
          (se_note [LeaseRequested (lease_request env r ctx account) (se_waiting (se_await env s)) (se_queue (se_await env s))]
             (se_await env (se_await env s)))"
    and "load_runtime_credential (sv_codec env) (sv_load_credential env (se_tick s)) account = Ok runtime"
  then show ?thesis using leased_selected assms by metis
qed (use assms in auto)

lemma select_turn_selected:
  assumes "select_turn env r pinned rd lp s = TurnDone (Selected l) s'"
  shows "\<exists>c \<in> set (rd_candidates rd). lease_of env r rd (cand_account c) l \<and> cand_id c \<notin> lp_excluded lp"
proof (rule select_turn_cases [of env r pinned rd lp s])
  fix c a waited_for capacity time
  assume "select_turn env r pinned rd lp s =
        try_account env r pinned rd (lp\<lparr>lp_affinity := a\<rparr>)
          (yield_to_waiters s rd (turn_context r pinned (sv_now env (se_tick s)) rd lp))
          waited_for capacity (cand_account c) (se_await env s)"
    and "c \<in> set (rd_candidates rd)"
    and "cand_id c \<in> cand_id ` set (policy_candidates (rd_candidates rd)
          (yield_to_waiters s rd (turn_context r pinned (sv_now env (se_tick s)) rd lp)\<lparr>ctx_now := time\<rparr>))"
  then show ?thesis using assms try_account_selected turn_excludes by metis
qed (use assms in \<open>auto simp: enter_wait_def Let_def split: option.splits sum.splits\<close>)

lemma select_turn_excludes_more:
  assumes "select_turn env r pinned rd lp s = TurnAgain lp' s'"
  shows "lp_excluded lp \<subseteq> lp_excluded lp'"
proof (rule select_turn_cases [of env r pinned rd lp s])
  fix c a waited_for capacity time
  assume "select_turn env r pinned rd lp s =
        try_account env r pinned rd (lp\<lparr>lp_affinity := a\<rparr>)
          (yield_to_waiters s rd (turn_context r pinned (sv_now env (se_tick s)) rd lp))
          waited_for capacity (cand_account c) (se_await env s)"
  from try_account_again [OF assms [unfolded this]] show ?thesis by auto
qed (use assms in auto)

lemma select_round_selected:
  assumes "select_round env r pinned rd lp s = TurnDone (Selected l) s'" "rd_base_excluded rd \<subseteq> lp_excluded lp"
  shows "\<exists>c \<in> set (rd_candidates rd). lease_of env r rd (cand_account c) l \<and> cand_id c \<notin> rd_base_excluded rd"
  using assms
proof (induction env r pinned rd lp s rule: select_round.induct)
  case (1 env r pinned rd lp s)
  show ?case
  proof (cases "select_turn env r pinned rd lp s")
    case (TurnDone out u)
    then have "select_turn env r pinned rd lp s = TurnDone (Selected l) s'"
      using 1(2) by (simp add: select_round.simps [of env r pinned rd lp s])
    from select_turn_selected [OF this] show ?thesis using 1(3) by blast
  next
    case (TurnAgain lp' u)
    then have "select_round env r pinned rd lp' u = TurnDone (Selected l) s'"
      using 1(2) by (simp add: select_round.simps [of env r pinned rd lp s])
    then show ?thesis using 1(1) [OF TurnAgain] select_turn_excludes_more [OF TurnAgain] 1(3) by blast
  qed (use 1(2) in \<open>simp_all add: select_round.simps [of env r pinned rd lp s]\<close>)
qed

definition permitted ::
  "('c, 'a) SelectorEnv \<Rightarrow> CredentialSelectionInput \<Rightarrow> ProviderAccountId option \<Rightarrow> 'a CodexCredentialLease \<Rightarrow> bool" where
  "permitted env r pinned l \<longleftrightarrow>
     (\<exists>rd. lease_of env r rd (cl_account l) l \<and> in_request_scope (sv_provider_kind env) r (cl_account l)
        \<and> account_id (cl_account l) \<in> cand_id ` set (rd_candidates rd)
        \<and> account_id (cl_account l) \<notin> base_excluded r pinned (rd_cyber_policy_scope rd) (rd_candidates rd))"

lemma selection_permitted:
  assumes "select_loop env r pinned s = Some (Selected l, s')"
  shows "permitted env r pinned l"
proof -
  let ?post = "\<lambda>out (s :: SelectorState). \<forall>l. out = Selected l \<longrightarrow> permitted env r pinned l"
  have "?post (Selected l) s'"
  proof (rule select_loop_rule [where Pre = "\<lambda>_. True" and Post = ?post, OF assms])
    fix s rd u out v
    assume captured: "capture_round env r pinned s = Captured rd u"
      and finished: "select_round env r pinned rd (initial_loop rd) u = TurnDone out v"
    have rd: "\<forall>c \<in> set (rd_candidates rd). in_request_scope (sv_provider_kind env) r (cand_account c)"
      "rd_base_excluded rd = base_excluded r pinned (rd_cyber_policy_scope rd) (rd_candidates rd)"
      using captured by (auto intro: capture_round_cases [of env r pinned s])
    show "\<forall>l. out = Selected l \<longrightarrow> permitted env r pinned l"
    proof (intro allI impI)
      fix l
      assume "out = Selected l"
      then obtain c where "c \<in> set (rd_candidates rd)" "lease_of env r rd (cand_account c) l"
        "cand_id c \<notin> rd_base_excluded rd"
        using select_round_selected [of env r pinned rd "initial_loop rd" u l v] finished by (auto simp: initial_loop_def)
      moreover from this have "cl_account l = cand_account c" by (simp add: lease_of_def)
      ultimately show "permitted env r pinned l" using rd unfolding permitted_def by (intro exI [of _ rd]) auto
    qed
  qed (auto split: sum.splits)
  then show ?thesis by simp
qed

lemma pinned_account_agrees:
  assumes "pinned_account kind r = Ok pinned"
  shows "is_none_or (ac_required_account (cx_account (ci_attempt r))) (\<lambda>i. pinned = Some i)"
    "is_none_or (continuation_account kind r) (\<lambda>i. pinned = Some i)"
  using assms by (auto simp: pinned_account_def Let_def is_none_or_iff split: option.splits if_splits)

text \<open>C4: the account a selection returns is one of the provider, and - unless the request is a diagnosis, which is
  exempt from the scope - one the scope of the client allows, also for the requested model. It was not excluded by an
  earlier attempt or by the session, and is the account that a diagnosis or a continuation demands. What the lease
  carries is the credential of exactly this account at exactly this revision: the store returned it for the id and
  the revision of the account, its kind is that of the account, and the authentication, the transport and the
  installation id of the lease are the ones decoded from it; the cookies are those of this credential, and only such
  as may go to the URL of the request.\<close>

theorem selected_account_is_permitted:
  assumes "select_inner env r t queue = Some (Selected l, s)"
  shows "account_provider (cl_account l) = sv_provider_kind env
    \<and> (is_diagnostic_attempt r \<or> (\<exists>scope. ac_account_scope (cx_account (ci_attempt r)) = Some scope
         \<and> allows scope (account_id (cl_account l))
         \<and> is_none_or (ci_upstream_model r) (allows_model scope (account_id (cl_account l)))))
    \<and> account_id (cl_account l) \<notin> ac_excluded_accounts (cx_account (ci_attempt r)) \<union> session_exclusions (cl_cyber_policy_scope l)
    \<and> is_none_or (ac_required_account (cx_account (ci_attempt r))) (\<lambda>i. i = account_id (cl_account l))
    \<and> is_none_or (continuation_account (sv_provider_kind env) r) (\<lambda>i. i = account_id (cl_account l))
    \<and> (\<exists>time loaded runtime now.
         sv_load_credential env time (account_id (cl_account l)) (account_revision (cl_account l)) = Ok loaded
         \<and> lc_account loaded = cl_account l
         \<and> decode_complete_kind (sv_codec env) (lc_credential loaded) = Some (authentication_kind (cl_account l))
         \<and> decode_runtime (sv_codec env) (lc_credential loaded) = Some runtime
         \<and> cl_authentication l = rc_authentication runtime \<and> cl_transport l = rc_transport runtime
         \<and> cl_installation_id l = rc_installation_id runtime
         \<and> cl_cookies l = replayed_cookies (sv_cookie_policy env) (ci_request_url r) now (rc_cookies runtime))
    \<and> (\<forall>c \<in> set (cl_cookies l). may_replay (sv_cookie_policy env) (ci_request_url r) (jar_domain c) (jar_path c)
         (jar_host_only c) (jar_secure c))"
  using assms
proof (cases rule: select_inner_cases)
  case (selected pinned s')
  from selection_permitted [OF selected(2)] obtain rd
    where rd: "lease_of env r rd (cl_account l) l" "in_request_scope (sv_provider_kind env) r (cl_account l)"
      "account_id (cl_account l) \<in> cand_id ` set (rd_candidates rd)"
      "account_id (cl_account l) \<notin> base_excluded r pinned (rd_cyber_policy_scope rd) (rd_candidates rd)"
    unfolding permitted_def by blast
  have "is_none_or pinned (\<lambda>i. i = account_id (cl_account l))"
    using rd(3,4) by (cases pinned) (auto simp: base_excluded_def)
  then have "is_none_or (ac_required_account (cx_account (ci_attempt r))) (\<lambda>i. i = account_id (cl_account l))"
    "is_none_or (continuation_account (sv_provider_kind env) r) (\<lambda>i. i = account_id (cl_account l))"
    using pinned_account_agrees [OF selected(1)] by (auto simp: is_none_or_iff)
  moreover have "\<exists>time loaded runtime now.
         sv_load_credential env time (account_id (cl_account l)) (account_revision (cl_account l)) = Ok loaded
         \<and> lc_account loaded = cl_account l
         \<and> decode_complete_kind (sv_codec env) (lc_credential loaded) = Some (authentication_kind (cl_account l))
         \<and> decode_runtime (sv_codec env) (lc_credential loaded) = Some runtime
         \<and> cl_authentication l = rc_authentication runtime \<and> cl_transport l = rc_transport runtime
         \<and> cl_installation_id l = rc_installation_id runtime
         \<and> cl_cookies l = replayed_cookies (sv_cookie_policy env) (ci_request_url r) now (rc_cookies runtime)"
    using rd(1) load_runtime_credentialD unfolding lease_of_def by blast
  moreover have "\<forall>c \<in> set (cl_cookies l). may_replay (sv_cookie_policy env) (ci_request_url r) (jar_domain c) (jar_path c)
         (jar_host_only c) (jar_secure c)"
    using rd(1) by (auto simp: lease_of_def replayed_cookies_def)
  moreover have "account_id (cl_account l) \<notin> ac_excluded_accounts (cx_account (ci_attempt r)) \<union> session_exclusions (cl_cyber_policy_scope l)"
    using rd(1,4) by (auto simp: lease_of_def base_excluded_def)
  ultimately show ?thesis
    using rd(2) by (auto simp: in_request_scope_def Let_def is_some_and_iff is_none_or_iff)
qed simp


section \<open>Every selection returns\<close>

fun turn_state :: "'a TurnOutcome \<Rightarrow> SelectorState" where
  "turn_state (TurnDone out s) = s"
| "turn_state (TurnAgain lp s) = s"
| "turn_state (TurnRecapture s) = s"
| "turn_state (TurnWait t s) = s"

text \<open>Time only passes, and without a policy a round starts over only after a conflict it counts.\<close>

definition goes_forward :: "CredentialSelectionInput \<Rightarrow> SelectorState \<Rightarrow> 'a TurnOutcome \<Rightarrow> bool" where
  "goes_forward r s out \<longleftrightarrow>
     se_tick s \<le> se_tick (turn_state out)
     \<and> (case out of
          TurnRecapture v \<Rightarrow> is_some (sa_request_policy (ci_attempt r))
            \<or> se_retries s < MAX_ACCOUNT_SNAPSHOT_RETRIES \<and> se_retries v = se_retries s + 1
        | TurnWait ticket v \<Rightarrow> se_retries v = se_retries s \<and> wait_ticket (se_waiting v) = Some ticket
        | _ \<Rightarrow> se_retries (turn_state out) = se_retries s)
     \<and> (\<forall>v. out \<noteq> TurnDone ScorePanic v)"

lemma leased_forward:
  "goes_forward r s (leased env r pinned rd lp capacity account runtime s)"
proof -
  obtain claim u where claim: "claim_initial_affinity env r lp (account_id account) (se_note [LeaseTaken (account_id account)] s)
      = (claim, u)" by fastforce
  then have "se_tick s \<le> se_tick u" "se_retries u = se_retries s"
    by (auto simp: claim_initial_affinity_def split: option.splits if_splits)
  then show ?thesis
    by (cases "filter_option (\<lambda>effective. pinned = None \<and> effective \<noteq> account_id account) claim")
      (auto simp: leased_def claim Let_def goes_forward_def renew_affinity_def split: option.splits)
qed

lemma goes_forward_later:
  "goes_forward r t out \<Longrightarrow> se_tick s \<le> se_tick t \<Longrightarrow> se_retries t = se_retries s \<Longrightarrow> goes_forward r s out"
  by (auto simp: goes_forward_def split: TurnOutcome.splits)

lemma try_account_forward:
  "goes_forward r s (try_account env r pinned rd lp ctx waited_for capacity account s)"
proof (rule try_account_cases [of env r pinned rd lp ctx waited_for capacity account s])
  fix runtime
  assume "try_account env r pinned rd lp ctx waited_for capacity account s =
        leased env r pinned rd lp capacity account runtime
          (se_note [LeaseRequested (lease_request env r ctx account) (se_waiting (se_await env s)) (se_queue (se_await env s))]
             (se_await env (se_await env s)))"
  then show ?thesis by (simp only:) (rule goes_forward_later [OF leased_forward]; simp)
qed (auto simp: goes_forward_def)

lemma wait_with_priority_ticket:
  "wait_with_priority now keys score w q = (Ok ticket, w', q') \<Longrightarrow> wait_ticket w' = Some ticket"
  by (auto simp: wait_with_priority_def split: prod.splits option.splits sum.splits)

lemma wait_for_capacity_ticket:
  "wait_for_capacity now w q keys cs ctx = Some (Ok ticket, w', q') \<Longrightarrow> wait_ticket w' = Some ticket"
  by (auto simp: wait_for_capacity_def wait_default_def Let_def wait_with_priority_ticket split: if_splits)

lemma scored_keys_subset: "set (scored_keys now keys w q) \<subseteq> set keys"
  by (auto simp: scored_keys_def split: prod.splits)

lemma every_key_has_a_score:
  assumes "set keys \<subseteq> cand_id ` set cs"
  shows "wait_for_capacity now w q keys cs ctx \<noteq> None"
proof -
  have "map_of (map (\<lambda>c. (cand_id c, f c)) (rev cs)) k \<noteq> None" if "k \<in> set keys" for f :: "AccountCandidate \<Rightarrow> rat" and k
    using assms that by (auto simp: map_of_eq_None_iff image_comp comp_def)
  then have "\<not> list_ex (\<lambda>k. map_of (map (\<lambda>c. (cand_id c, f c)) (rev cs)) k = None) (scored_keys now keys w q)"
    for f :: "AccountCandidate \<Rightarrow> rat"
    using scored_keys_subset [of now keys w q] by (auto simp: list_ex_iff)
  then show ?thesis by (simp add: wait_for_capacity_def Let_def del: not_None_eq)
qed

lemma turn_wait_candidates_subset:
  "set (turn_wait_candidates r pinned rd lp ctx) \<subseteq> cand_id ` set (rd_candidates rd)"
  by (auto simp: turn_wait_candidates_def Let_def wait_candidates_def split: option.splits)

lemma enter_wait_forward:
  assumes "set keys \<subseteq> cand_id ` set (rd_candidates rd)"
  shows "goes_forward r s (enter_wait env keys rd ctx s)"
  using every_key_has_a_score [OF assms] wait_for_capacity_ticket
  by (fastforce simp: enter_wait_result goes_forward_def Let_def split: option.splits sum.splits)

lemma select_turn_forward: "goes_forward r s (select_turn env r pinned rd lp s)"
proof (rule select_turn_cases [of env r pinned rd lp s])
  assume "select_turn env r pinned rd lp s =
        enter_wait env (turn_wait_candidates r pinned rd lp (turn_context r pinned (sv_now env (se_tick s)) rd lp)) rd
          (wait_context rd (turn_context r pinned (sv_now env (se_tick s)) rd lp)) (se_await env s)"
  then show ?thesis
    by (simp only:) (rule goes_forward_later [OF enter_wait_forward [OF turn_wait_candidates_subset]]; simp)
next
  fix c a waited_for capacity time
  assume "select_turn env r pinned rd lp s =
        try_account env r pinned rd (lp\<lparr>lp_affinity := a\<rparr>)
          (yield_to_waiters s rd (turn_context r pinned (sv_now env (se_tick s)) rd lp))
          waited_for capacity (cand_account c) (se_await env s)"
  then show ?thesis by (simp only:) (rule goes_forward_later [OF try_account_forward]; simp)
qed (auto simp: goes_forward_def)

lemma select_round_forward: "goes_forward r s (select_round env r pinned rd lp s)"
proof (induction env r pinned rd lp s rule: select_round.induct)
  case (1 env r pinned rd lp s)
  note turn = select_turn_forward [of r s env pinned rd lp]
  show ?case
  proof (cases "select_turn env r pinned rd lp s")
    case (TurnAgain lp' u)
    then have "se_tick s \<le> se_tick u" "se_retries u = se_retries s" using turn by (simp_all add: goes_forward_def)
    from goes_forward_later [OF 1 [OF TurnAgain] this]
    have "goes_forward r s (select_round env r pinned rd lp' u)" .
    then show ?thesis using TurnAgain by (simp add: select_round.simps [of env r pinned rd lp s])
  qed (use turn in \<open>simp_all add: select_round.simps [of env r pinned rd lp s]\<close>)
qed

lemma select_round_ends: "select_round env r pinned rd lp s \<noteq> TurnAgain lp' s'"
proof (induction env r pinned rd lp s rule: select_round.induct)
  case (1 env r pinned rd lp s)
  then show ?case
    by (cases "select_turn env r pinned rd lp s") (auto simp: select_round.simps [of env r pinned rd lp s])
qed

text \<open>No place in a queue is held longer than the request may run.\<close>

definition deadlines_kept :: "('c, 'a) SelectorEnv \<Rightarrow> CredentialSelectionInput \<Rightarrow> SelectorState \<Rightarrow> bool" where
  "deadlines_kept env r s \<longleftrightarrow>
     wait_request_deadline (se_waiting s) = cx_deadline (ci_attempt r)
     \<and> is_none_or (wait_ticket (se_waiting s)) (\<lambda>t. ticket_deadline t \<le> cx_deadline (ci_attempt r))"

lemma budget_deadline_within:
  assumes "budget_deadline cell now timeout request_deadline = (deadline, cell')" "now < deadline"
  shows "deadline \<le> request_deadline"
proof (cases "now \<le> request_deadline")
  case True
  then have "duration_since request_deadline now = Some (nat (request_deadline - now))"
    by (simp add: duration_since_eq_Some)
  then show ?thesis using assms True by (auto simp: budget_deadline_def Let_def)
next
  case False
  then have "duration_since request_deadline now = None"
    by (cases "duration_since request_deadline now") (auto simp: duration_since_eq_Some)
  then show ?thesis using assms by (auto simp: budget_deadline_def Let_def)
qed

lemma release_ticket_fields:
  assumes "release_ticket w q = (w', q')"
  shows "wait_ticket w' = None" "wait_request_deadline w' = wait_request_deadline w"
  using assms by (auto simp: release_ticket_def split: option.splits)

lemma wait_with_priority_deadline:
  assumes "wait_with_priority now keys score w q = (res, w', q')"
  shows "wait_request_deadline w' = wait_request_deadline w"
    "wait_ticket w' = Some t \<Longrightarrow> wait_ticket w \<noteq> Some t \<Longrightarrow> ticket_deadline t \<le> wait_request_deadline w"
proof -
  obtain deadline w1 q1 where prepared: "wait_prepare now keys w q = (deadline, w1, q1)" by (metis prod_cases3)
  obtain cell where budget: "budget_deadline (wait_budget w) now (policy_timeout (wait_policy w)) (wait_request_deadline w)
      = (deadline, cell)"
    using prepared by (auto simp: wait_prepare_def Let_def split: prod.splits)
  have w1: "wait_request_deadline w1 = wait_request_deadline w \<and> (wait_ticket w1 = wait_ticket w \<or> wait_ticket w1 = None)"
    using prepared
    by (auto simp: wait_prepare_def Let_def release_ticket_def split: prod.splits if_splits option.splits)
  have "wait_request_deadline w' = wait_request_deadline w
    \<and> (\<forall>t. wait_ticket w' = Some t \<longrightarrow> wait_ticket w \<noteq> Some t \<longrightarrow> ticket_deadline t \<le> wait_request_deadline w)"
  proof (cases "wait_ticket w1")
    case (Some t)
    then show ?thesis using assms w1 by (auto simp: wait_with_priority_def prepared)
  next
    case None
    show ?thesis
      by (rule enqueue_cases [of now keys "max_waiting (wait_policy w1)" deadline "wait_priority w1" score q1])
        (use assms w1 None budget_deadline_within [OF budget] in \<open>auto simp: wait_with_priority_def prepared\<close>)
  qed
  then show "wait_request_deadline w' = wait_request_deadline w"
    "wait_ticket w' = Some t \<Longrightarrow> wait_ticket w \<noteq> Some t \<Longrightarrow> ticket_deadline t \<le> wait_request_deadline w" by auto
qed

lemma wait_for_capacity_deadline:
  assumes "wait_for_capacity now w q keys cs ctx = Some (res, w', q')"
  shows "wait_request_deadline w' = wait_request_deadline w"
    "wait_ticket w' = Some t \<Longrightarrow> wait_ticket w \<noteq> Some t \<Longrightarrow> ticket_deadline t \<le> wait_request_deadline w"
  using assms wait_with_priority_deadline [of now keys _ w q res w' q']
  by (auto simp: wait_for_capacity_def wait_default_def Let_def split: if_splits)

lemma deadlines_kept_joined:
  assumes "deadlines_kept env r s" "wait_for_capacity now (se_waiting s) (se_queue s) keys cs ctx = Some (res, w, st)"
  shows "deadlines_kept env r (se_note effects (s\<lparr>se_waiting := w, se_queue := st\<rparr>))"
proof -
  note kept = wait_for_capacity_deadline [OF assms(2)]
  have "ticket_deadline t \<le> cx_deadline (ci_attempt r)" if "wait_ticket w = Some t" for t
    using assms(1) kept(2) [OF that] by (cases "wait_ticket (se_waiting s) = Some t") (auto simp: deadlines_kept_def)
  then show ?thesis using assms(1) kept(1) by (simp add: deadlines_kept_def is_none_or_iff)
qed

interpretation deadlines: selector_invariant deadlines_kept "\<lambda>env r i. deadlines_kept env r"
  by unfold_locales (auto simp: deadlines_kept_joined, auto simp: deadlines_kept_def)

lemma turn_poll_after_deadline: "ticket_deadline t \<le> now \<Longrightarrow> turn_poll now t q = Some (Err QueueTimeout)"
  by (simp add: turn_poll_def)

lemma retry_poll_served_in_time: "retry_poll started now t q = Some (Ok x) \<Longrightarrow> now < ticket_deadline t"
  by (auto simp: retry_poll_def turn_poll_def split: if_splits)

lemma retry_poll_after_deadline:
  assumes "ticket_deadline t \<le> now" "started \<le> now"
  shows "retry_poll started now t q = Some (Err QueueTimeout)"
proof -
  have "started + int (min CAPACITY_RECHECK_INTERVAL (unwrap_or (duration_since (ticket_deadline t) started) 0)) \<le> now"
  proof (cases "duration_since (ticket_deadline t) started")
    case (Some d)
    then have "started + int d = ticket_deadline t" by (simp add: duration_since_eq_Some)
    moreover have "int (min CAPACITY_RECHECK_INTERVAL d) \<le> int d" by simp
    ultimately show ?thesis using assms(1) Some by simp
  qed (use assms(2) in simp)
  then show ?thesis using turn_poll_after_deadline [OF assms(1)] by (simp add: retry_poll_def)
qed

lemma wait_retry_returns:
  assumes "mono (sv_now env)" "\<forall>t \<ge> n. ticket_deadline ticket \<le> sv_now env t" "started \<le> sv_now env (se_tick s)"
  shows "\<exists>y. wait_retry env ticket started s = Some y"
  using assms(3)
proof (induction "n - se_tick s" arbitrary: s rule: less_induct)
  case less
  show ?case
  proof (cases "retry_poll started (sv_now env (se_tick s)) ticket (se_queue s)")
    case None
    then have "se_tick s < n"
      using retry_poll_after_deadline [OF _ less.prems, of ticket "se_queue s"] assms(2) by (metis not_le_imp_less option.distinct(1))
    moreover have "started \<le> sv_now env (se_tick (se_await env s))"
      using less.prems monoD [OF assms(1), of "se_tick s" "Suc (se_tick s)"] by simp
    ultimately have "\<exists>y. wait_retry env ticket started (se_await env s) = Some y" using less.hyps by simp
    then show ?thesis using None by (simp add: wait_retry.simps [of env ticket started s])
  qed (simp add: wait_retry.simps [of env ticket started s])
qed

text \<open>How many more passes a selection can have.\<close>

definition passes_left :: "nat \<Rightarrow> SelectorState \<Rightarrow> nat" where
  "passes_left n s =
     (n - se_tick s) * Suc MAX_ACCOUNT_SNAPSHOT_RETRIES + (MAX_ACCOUNT_SNAPSHOT_RETRIES - se_retries s)"

lemma passes_left_conflict:
  "se_tick s \<le> se_tick u \<Longrightarrow> se_retries s < MAX_ACCOUNT_SNAPSHOT_RETRIES \<Longrightarrow> se_retries u = se_retries s + 1 \<Longrightarrow>
     passes_left n u < passes_left n s"
  by (simp add: passes_left_def MAX_ACCOUNT_SNAPSHOT_RETRIES_def)

lemma passes_left_wait:
  assumes "se_tick s < se_tick u" "se_tick u < n"
  shows "passes_left n u < passes_left n s"
  using assms by (simp add: passes_left_def MAX_ACCOUNT_SNAPSHOT_RETRIES_def)

lemma select_loop_returns:
  assumes "mono (sv_now env)" "\<forall>t \<ge> n. cx_deadline (ci_attempt r) \<le> sv_now env t"
    "sa_request_policy (ci_attempt r) = None" "deadlines_kept env r s"
  shows "\<exists>y. select_loop env r pinned s = Some y"
  using assms(4)
proof (induction "passes_left n s" arbitrary: s rule: less_induct)
  case less
  note kept = deadlines.await [OF less.prems]
  note loop = select_loop.simps [of env r pinned s]
  show ?case
  proof (rule capture_round_cases [of env r pinned s])
    fix e u
    assume "capture_round env r pinned s = CaptureFailed e u"
    then show ?thesis by (simp add: loop)
  next
    fix u :: SelectorState
    let ?v = "u\<lparr>se_retries := se_retries u + 1\<rparr>"
    assume u: "capture_round env r pinned s = CaptureAgain ?v" "awaits env (se_await env s) u"
      "se_retries u < MAX_ACCOUNT_SNAPSHOT_RETRIES"
    have "passes_left n ?v < passes_left n s"
      using awaits_keeps [OF u(2)] u(3) by (intro passes_left_conflict) auto
    then show ?thesis
      using less.hyps deadlines.conflict [OF deadlines.awaited [OF u(2) kept]] u(1) by (simp add: loop)
  next
    fix rd u
    assume u: "capture_round env r pinned s = Captured rd u" "awaits env (se_await env s) u"
    have ku: "deadlines_kept env r u" by (rule deadlines.awaited [OF u(2) kept])
    note forward = select_round_forward [of r u env pinned rd "initial_loop rd"]
    note round = deadlines.select_round_holds [OF ku, of pinned rd "initial_loop rd"]
    have tick: "se_tick s < se_tick u" "se_retries u = se_retries s" using awaits_keeps [OF u(2)] by simp_all
    show ?thesis
    proof (cases "select_round env r pinned rd (initial_loop rd) u")
      case (TurnDone out v)
      then show ?thesis by (simp add: loop u(1))
    next
      case (TurnAgain lp v)
      then show ?thesis using select_round_ends by metis
    next
      case (TurnRecapture v)
      then have "se_tick u \<le> se_tick v" "se_retries u < MAX_ACCOUNT_SNAPSHOT_RETRIES" "se_retries v = se_retries u + 1"
        using forward assms(3) by (auto simp: goes_forward_def)
      then have "passes_left n v < passes_left n s" using tick by (intro passes_left_conflict) auto
      then show ?thesis using less.hyps round TurnRecapture by (simp add: loop u(1))
    next
      case (TurnWait ticket v)
      then have v: "se_tick u \<le> se_tick v" "wait_ticket (se_waiting v) = Some ticket" "deadlines_kept env r v"
        using forward round by (auto simp: goes_forward_def)
      then have deadline: "ticket_deadline ticket \<le> cx_deadline (ci_attempt r)" by (simp add: deadlines_kept_def)
      then have "\<forall>t \<ge> n. ticket_deadline ticket \<le> sv_now env t" using assms(2) by (meson order_trans)
      from wait_retry_returns [OF assms(1) this order_refl]
      obtain res x where x: "wait_retry env ticket (sv_now env (se_tick v)) v = Some (res, x)" by (metis surj_pair)
      show ?thesis
      proof (cases res)
        case (Inl e)
        then show ?thesis by (simp add: loop u(1) TurnWait x)
      next
        case (Inr y)
        note polled = wait_retry_result [OF x]
        have "sv_now env (se_tick x) < ticket_deadline ticket"
          using polled Inr retry_poll_served_in_time by metis
        then have "se_tick x < n" using deadline assms(2) by (meson not_less order_less_le_trans order_trans)
        moreover have "se_tick s < se_tick x" using tick v(1) awaits_keeps(1) polled by (metis order_less_le_trans)
        ultimately have "passes_left n x < passes_left n s" by (intro passes_left_wait)
        moreover have "deadlines_kept env r x" using deadlines.awaited polled v(3) by blast
        ultimately show ?thesis using less.hyps Inr by (simp add: loop u(1) TurnWait x)
      qed
    qed
  qed
qed

lemma selection_never_panics:
  assumes "select_loop env r pinned s = Some (out, s')"
  shows "out \<noteq> ScorePanic"
  by (rule select_loop_rule [where Pre = "\<lambda>_. True" and Post = "\<lambda>out _. out \<noteq> ScorePanic", OF assms])
    (use select_round_forward in \<open>fastforce simp: goes_forward_def split: sum.splits\<close>)+

text \<open>C6: unless a plugin decides, a selection ends: once the deadline of the request has passed, whatever the stores, the
  leases and the other requests do - the races it loses are counted, every place in a queue has a deadline, a turn of
  a round leaves fewer accounts to try - and it never looks for the score of an account it does not have.\<close>

theorem every_selection_returns:
  assumes "mono (sv_now env)" "\<forall>t \<ge> n. cx_deadline (ci_attempt r) \<le> sv_now env t"
    "sa_request_policy (ci_attempt r) = None"
  shows "\<exists>out s. select_inner env r t queue = Some (out, s) \<and> out \<noteq> ScorePanic"
proof (cases "pinned_account (sv_provider_kind env) r")
  case (Inl e)
  then show ?thesis by (simp add: select_inner_def)
next
  case (Inr pinned)
  have "deadlines_kept env r (initial_selector r t queue)"
    by (simp add: deadlines_kept_def initial_selector_def initial_wait_def with_priority_def new_CapacityWait_def)
  from select_loop_returns [OF assms this, of pinned] obtain out s
    where run: "select_loop env r pinned (initial_selector r t queue) = Some (out, s)" by (metis surj_pair)
  then show ?thesis using selection_never_panics [OF run] Inr by (simp add: select_inner_def)
qed

end
