(* ===== verification/Selector_Examples.thy ===== *)
theory Selector_Examples
  imports Selector_Theorems
begin

text \<open>
  Two selections that are followed step by step: one finds its account idle and gets the lease, the other finds it busy,
  takes a place in its queue and runs into the deadline. They are the inputs at which the properties of the selector
  that have hypotheses are applied.
\<close>

section \<open>A provider with one account\<close>

abbreviation account_a :: ProviderAccount where "account_a \<equiv> cand_account (sample_candidate ''a'' 0)"

definition sample_url :: ParsedUrl where
  "sample_url =
     \<lparr>url_text = ''https://chatgpt.com/codex'', url_scheme = ''https'', url_host = Some ''chatgpt.com'',
      url_port_or_known_default = Some 443, url_path = ''/codex'', url_query = None, url_fragment = None\<rparr>"

definition sample_selector :: "(unit + ProviderLeaseAcquisition) \<Rightarrow> (unit, unit) SelectorEnv" where
  "sample_selector answer =
     \<lparr>sv_provider_kind = sample_kind,
      sv_codec = \<lparr>decode_complete_kind = (\<lambda>_. Some ''oauth''),
                  decode_runtime = (\<lambda>_. Some \<lparr>rc_transport = PreferWebsocket, rc_authentication = (),
                                              rc_installation_id = ''host'', rc_cookies = []\<rparr>)\<rparr>,
      sv_cookie_policy = \<lparr>allowed_names = {''oai-did''}, allowed_domains = {''chatgpt.com''}\<rparr>,
      sv_now = int, sv_others = (\<lambda>_ q. q),
      sv_list_accounts = (\<lambda>_. Ok [account_a]), sv_get_account = (\<lambda>_ _. Ok None),
      sv_load_credential = (\<lambda>_ _ _. Ok \<lparr>lc_account = account_a, lc_credential = ()\<rparr>),
      sv_cooldown = (\<lambda>_ _. None), sv_quota_signals = (\<lambda>_ _. None), sv_health = (\<lambda>_ _. (None, None)),
      sv_load_state = (\<lambda>_ _. Ok (Map.empty, 0)),
      sv_lookup_affinity = (\<lambda>_ _. SessionMissing), sv_claim_affinity = (\<lambda>_ _ _. None),
      sv_load_exclusions = (\<lambda>_ _. None), sv_try_acquire = (\<lambda>_ _. answer)\<rparr>"

definition sample_selection :: CredentialSelectionInput where
  "sample_selection =
     \<lparr>ci_requires_websocket = False, ci_request_url = sample_url,
      ci_attempt =
        \<lparr>cx_attempt_index = 0, cx_deadline = 10,
         cx_account = (new_AccountAttemptContext {} None None)
           \<lparr>ac_account_scope := Some (new_FrozenAccountScope sample_directory AllAccounts)\<rparr>,
         cx_request_profile = None, cx_continuation = None, cx_continuation_attempt = NoContinuation,
         cx_transport = DefaultTransport,
         sa_policy = policy_with_queue (new_AccountSelectionPolicy RoundRobin (Limited 4) 0)
           \<lparr>max_waiting = 1, policy_timeout = 100\<rparr>,
         sa_wait_budget = None, sa_request_policy = None\<rparr>,
      ci_affinity_key = None, ci_root_key = None, ci_guardian = False, ci_cyber_policy_key = None,
      ci_upstream_model = None\<rparr>"

lemma sample_accounts_allowed:
  "allows (new_FrozenAccountScope sample_directory AllAccounts) (ProviderAccountId ''a'')"
  by code_simp

lemmas sample_run = sample_selector_def sample_selection_def sample_kind_def new_AccountAttemptContext_def
  is_diagnostic_attempt_def se_await_def policy_with_queue_def new_AccountSelectionPolicy_def Let_def

definition sample_rd :: SelectionRound where
  "sample_rd =
     \<lparr>rd_candidates = [sample_candidate ''a'' 0], rd_cursor = 0, rd_cyber_policy_scope = None,
      rd_base_excluded = {}, rd_affinity = default_affinity, rd_observed_account = None\<rparr>"

lemma sample_account [simp]:
  "account_id account_a = ProviderAccountId ''a''" "account_provider account_a = ProviderKind ''openai''"
  "authentication_kind account_a = ''oauth''"
  by (simp_all add: sample_candidate_def new_ProviderAccount_def)

lemma sample_signals: "cand_signals (sample_candidate ''a'' 0) = no_signals"
  by (simp add: sample_candidate_def no_signals_def)

lemma sample_build: "build_candidate (sample_selector answer) t Map.empty Map.empty account_a = sample_candidate ''a'' 0"
  by (simp add: build_candidate_def sample_selector_def sample_candidate_def no_signals_def with_rate_limit_def
      with_provider_quota_def with_runtime_health_def)

lemma sample_capture:
  assumes "se_tick s = 0"
  shows "capture_round (sample_selector answer) sample_selection None s = Captured sample_rd (s\<lparr>se_tick := 4\<rparr>)"
proof -
  have listed: "list_accounts (sample_selector answer) sample_selection s = Ok ([account_a], s\<lparr>se_tick := 1\<rparr>)"
    using assms by (simp add: list_accounts_def sample_run)
  have scope: "in_request_scope (sv_provider_kind (sample_selector answer)) sample_selection account_a"
    using sample_accounts_allowed by (simp add: in_request_scope_def sample_run)
  have read: "scheduling_candidates (sample_selector answer) sample_selection [account_a] (s\<lparr>se_tick := 1\<rparr>) =
      Ok (([sample_candidate ''a'' 0], 0), s\<lparr>se_tick := 4\<rparr>)"
    by (simp add: scheduling_candidates_def sample_run sample_build [unfolded sample_run])
  show ?thesis
    using listed scope read
    by (simp add: capture_round_def check_transport_def resolve_session_affinity_def prepare_cyber_policy_scope_def
        base_excluded_def session_exclusions_def sample_rd_def default_affinity_def sample_selection_def
        new_AccountAttemptContext_def is_diagnostic_attempt_def)
qed


definition sample_turn :: "system_time \<Rightarrow> ProviderAccountId set \<Rightarrow> AccountSelectionContext" where
  "sample_turn now excluded =
     \<lparr>ctx_policy = sa_policy (ci_attempt sample_selection), ctx_now = now, ctx_excluded_accounts = excluded,
      ctx_preferred_account = None, preferred_account_overrides_weight = True, round_robin_cursor = 0,
      ctx_eligibility = Enforce,
      ctx_account_scope = Some (new_FrozenAccountScope sample_directory AllAccounts), reserved_concurrency = 0\<rparr>"

lemma sample_turn_context:
  "lp_affinity lp = default_affinity \<Longrightarrow>
   turn_context sample_selection None now sample_rd lp = sample_turn now (lp_excluded lp)"
  by (simp add: turn_context_def sample_turn_def turn_preferred_def sample_rd_def request_reserved_concurrency_def
      prioritized_def default_affinity_def sample_run)

lemma sample_status: "status (status_projection account_a now None) = Normal"
  by (simp add: sample_candidate_def new_ProviderAccount_def status_projection_def resolve_account_status_def
      credential_error_def quota_unknown_def is_exhausted_def plain_projection_def)

lemma sample_limit: "ctx_concurrency_limit (sample_turn now X) account_a = Limited 4"
  by (simp add: ctx_concurrency_limit_def sample_turn_def sample_candidate_def new_ProviderAccount_def sample_run
      effective_concurrency_def)

lemma sample_blocker:
  "scheduling_blocker (sample_candidate ''a'' 0) (sample_turn now X) =
     (if ProviderAccountId ''a'' \<in> X then Some Excluded else None)"
  unfolding scheduling_blocker_def sample_limit
  using sample_accounts_allowed
  by (simp add: sample_turn_def sample_signals no_signals_def sample_status)

lemma sample_select:
  "select [sample_candidate ''a'' 0] (sample_turn now X) =
     (if ProviderAccountId ''a'' \<in> X then None
      else Some \<lparr>sel_candidate = sample_candidate ''a'' 0, sel_preferred = NotRequested, sel_policy_choice = False\<rparr>)"
  by (simp add: select_def sample_blocker Let_def preferred_decision_def select_in_tier_def)
    (simp add: sample_turn_def sample_run)

lemma sample_wait: "wait_candidates [sample_candidate ''a'' 0] (sample_turn now {}) = [ProviderAccountId ''a'']"
  by (simp add: wait_candidates_def sample_blocker)


section \<open>Two runs\<close>

lemma sample_selection_simps [simp]:
  "sa_request_policy (ci_attempt sample_selection) = None" "\<not> is_diagnostic_attempt sample_selection"
  "ci_affinity_key sample_selection = None" "cx_deadline (ci_attempt sample_selection) = 10"
  "policy_queue (sa_policy (ci_attempt sample_selection)) = \<lparr>max_waiting = 1, policy_timeout = 100\<rparr>"
  "rd_candidates sample_rd = [sample_candidate ''a'' 0]" "rd_base_excluded sample_rd = {}"
  "initial_loop sample_rd = \<lparr>lp_excluded = {}, lp_affinity = default_affinity, lp_observed_account = None,
     lp_shortest_retry = None\<rparr>"
  "pinned_account kind sample_selection = Ok None"
  by (simp_all add: sample_run sample_rd_def initial_loop_def pinned_account_def continuation_account_def)

definition sample_state :: "nat \<Rightarrow> SelectorEffect list \<Rightarrow> SelectorState" where
  "sample_state t effects =
     \<lparr>se_tick = t, se_waiting = initial_wait sample_selection, se_queue = empty_queue, se_retries = 0, se_log = effects\<rparr>"

lemma sample_state_simps [simp]:
  "se_tick (sample_state t es) = t" "se_queue (sample_state t es) = empty_queue"
  "se_waiting (sample_state t es) = initial_wait sample_selection" "se_log (sample_state t es) = es"
  "se_await (sample_selector answer) (sample_state t es) = sample_state (Suc t) es"
  "se_note fs (sample_state t es) = sample_state t (es @ fs)"
  by (simp_all add: sample_state_def se_await_def se_note_def sample_selector_def)

lemma sample_can_try [simp]: "can_try (initial_wait sample_selection) empty_queue k"
  by (simp add: can_try_def initial_wait_def with_priority_def new_CapacityWait_def has_waiters_ahead_of_def
      empty_queue_def)

abbreviation sample_loop :: "ProviderAccountId set \<Rightarrow> SelectionLoop" where
  "sample_loop X \<equiv> \<lparr>lp_excluded = X, lp_affinity = default_affinity, lp_observed_account = None, lp_shortest_retry = None\<rparr>"

lemma sample_yield: "yield_to_waiters (sample_state t es) sample_rd ctx = ctx"
  by (simp add: yield_to_waiters_def)

lemma sample_observe: "observe_preferred_selection p default_affinity = default_affinity"
  by (simp add: observe_preferred_selection_def default_affinity_def)

lemma sample_busy: "observe_lease_busy i default_affinity = default_affinity"
  by (simp add: observe_lease_busy_def default_affinity_def)

lemma sample_waited_for: "preferred_wait sample_selection None sample_rd (sample_loop X) ctx = None"
  by (simp add: preferred_wait_def turn_preferred_def default_affinity_def)

lemma sample_load:
  "load_runtime (sample_selector answer) account_a s =
     (Ok \<lparr>rc_transport = PreferWebsocket, rc_authentication = (), rc_installation_id = ''host'', rc_cookies = []\<rparr>,
      se_await (sample_selector answer) s)"
  by (simp add: load_runtime_def load_runtime_credential_def decode_runtime_credential_def CODEX_PROVIDER_NAME_def
      sample_selector_def)

definition sample_lease_wanted :: ProviderSchedulingLeaseRequest where
  "sample_lease_wanted =
     \<lparr>lr_provider_kind = sample_kind, lr_account_id = ProviderAccountId ''a'', lr_credential_revision = CredentialRevision 1,
      lr_max_concurrent = Limited 4, lr_request_interval = 0, lr_deadline = 10\<rparr>"

lemma sample_lease_request:
  "lease_request (sample_selector answer) sample_selection (sample_turn now X) account_a = sample_lease_wanted"
  by (simp add: lease_request_def sample_limit sample_lease_wanted_def)
    (simp add: sample_selector_def sample_candidate_def new_ProviderAccount_def sample_run)

lemma sample_first_turn:
  "select_turn (sample_selector answer) sample_selection None sample_rd (sample_loop {}) (sample_state t es) =
     try_account (sample_selector answer) sample_selection None sample_rd (sample_loop {})
       (sample_turn (sv_now (sample_selector answer) t) {}) None
       (capacity_snapshot [sample_candidate ''a'' 0] (sample_turn (sv_now (sample_selector answer) t) {}))
       account_a (sample_state (Suc t) es)"
  by (simp add: select_turn_def Let_def sample_turn_context sample_yield sample_waited_for acceptable_selection_def
      select_account_def sample_select sample_observe)


lemma sample_start:
  "initial_selector sample_selection 0 empty_queue = sample_state 0 []"
  "capture_round (sample_selector answer) sample_selection None (sample_state 0 []) = Captured sample_rd (sample_state 4 [])"
  using sample_capture [of "sample_state 0 []" answer]
  by (simp_all add: initial_selector_def sample_state_def)

lemma sample_drop: "drop_wait (sample_state t es) = sample_state t es"
  by (simp add: drop_wait_def release_ticket_def sample_state_def initial_wait_def with_priority_def new_CapacityWait_def)

definition sample_log :: "SelectorEffect list" where
  "sample_log = [LeaseRequested sample_lease_wanted (initial_wait sample_selection) empty_queue]"

lemma sample_granted:
  obtains l where
    "select_inner (sample_selector (Ok LeaseGranted)) sample_selection 0 empty_queue =
       Some (Selected l, sample_state 7 (sample_log @ [LeaseTaken (ProviderAccountId ''a'')]))"
    "cl_account l = account_a"
proof -
  let ?env = "sample_selector (Ok LeaseGranted)"
  have acquire: "sv_try_acquire ?env t q = Ok LeaseGranted" for t q by (simp add: sample_selector_def)
  have "\<exists>l. select_turn ?env sample_selection None sample_rd (sample_loop {}) (sample_state 4 []) =
      TurnDone (Selected l) (sample_state 7 (sample_log @ [LeaseTaken (ProviderAccountId ''a'')])) \<and> cl_account l = account_a"
    by (simp add: sample_first_turn try_account_def sample_load Let_def acquire sample_lease_request leased_def
        claim_initial_affinity_def renew_affinity_def filter_option_def sample_log_def)
  then obtain l where turn: "select_turn ?env sample_selection None sample_rd (sample_loop {}) (sample_state 4 []) =
      TurnDone (Selected l) (sample_state 7 (sample_log @ [LeaseTaken (ProviderAccountId ''a'')]))" "cl_account l = account_a"
    by blast
  have round: "select_round ?env sample_selection None sample_rd (sample_loop {}) (sample_state 4 []) =
      TurnDone (Selected l) (sample_state 7 (sample_log @ [LeaseTaken (ProviderAccountId ''a'')]))"
    by (subst select_round.simps) (simp add: turn)
  have "select_loop ?env sample_selection None (sample_state 0 []) =
      Some (Selected l, sample_state 7 (sample_log @ [LeaseTaken (ProviderAccountId ''a'')]))"
    by (subst select_loop.simps) (simp add: sample_start round)
  then show ?thesis by (intro that [OF _ turn(2)]) (simp add: select_inner_def sample_start sample_drop)
qed

text \<open>The busy account is waited for from tick 8; the deadline of the request comes first.\<close>

definition sample_ticket :: "ProviderAccountId WaitTicket" where
  "sample_ticket = \<lparr>ticket_key = ProviderAccountId ''a'', ticket_waker = 0, ticket_deadline = 10\<rparr>"

definition sample_waiting :: SelectorState where
  "sample_waiting =
     (sample_state 8 (sample_log @ [TicketTaken sample_ticket]))
       \<lparr>se_waiting := (initial_wait sample_selection)
          \<lparr>wait_started_at := Some 8, wait_budget := Some 108, wait_ticket := Some sample_ticket\<rparr>,
        se_queue := join_queue (ProviderAccountId ''a'') NormalPriority empty_queue\<rparr>"

lemma sample_enter_wait:
  assumes "policy_strategy (ctx_policy ctx) = RoundRobin"
  shows "enter_wait (sample_selector answer) [ProviderAccountId ''a''] sample_rd ctx (sample_state 8 sample_log) =
    TurnWait sample_ticket sample_waiting"
proof -
  let ?w = "(initial_wait sample_selection)
      \<lparr>wait_started_at := Some 8, wait_budget := Some 108, wait_ticket := Some sample_ticket\<rparr>"
  have "wait_default 8 [ProviderAccountId ''a''] (initial_wait sample_selection) empty_queue =
      (Ok sample_ticket, ?w, join_queue (ProviderAccountId ''a'') NormalPriority empty_queue)"
    by (simp add: wait_default_def wait_with_priority_def wait_prepare_def initial_wait_def with_priority_def
        new_CapacityWait_def budget_deadline_def prioritized_def enqueue_ranked_def empty_queue_def MAX_TOTAL_WAITING_def
        admitted_def waiters_def sample_ticket_def duration_since_def Let_def)
      (simp add: sample_run)
  moreover have "wait_ticket (initial_wait sample_selection) = None"
    by (simp add: initial_wait_def with_priority_def new_CapacityWait_def)
  ultimately show ?thesis
    using assms
    by (simp add: enter_wait_def wait_for_capacity_def sample_waiting_def sample_selector_def sample_state_def se_note_def)
qed

lemma sample_timeout:
  "wait_retry (sample_selector answer) sample_ticket 8 sample_waiting =
     Some (Err QueueTimeout, sample_waiting\<lparr>se_tick := 10\<rparr>)"
proof -
  have poll: "retry_poll 8 now sample_ticket q = (if now < 10 then None else Some (Err QueueTimeout))" for now q
    by (simp add: retry_poll_def turn_poll_def sample_ticket_def duration_since_def CAPACITY_RECHECK_INTERVAL_def
        from_millis_def)
  have step: "wait_retry (sample_selector answer) sample_ticket 8 s =
      (if se_tick s < 10 then wait_retry (sample_selector answer) sample_ticket 8 (s\<lparr>se_tick := Suc (se_tick s)\<rparr>)
       else Some (Err QueueTimeout, s))" for s
    by (subst wait_retry.simps) (simp add: poll sample_selector_def se_await_def)
  show ?thesis
    by (subst step, simp add: sample_waiting_def, subst step, simp, subst step, simp)
qed

lemma sample_timed_out:
  obtains s where
    "select_inner (sample_selector (Ok (LeaseBusy None))) sample_selection 0 empty_queue =
       Some (Refused (SelQueueRejected QueueTimeout), s)"
    "se_log s = sample_log @ [TicketTaken sample_ticket]"
proof -
  let ?env = "sample_selector (Ok (LeaseBusy None))"
  have acquire: "sv_try_acquire ?env t q = Ok (LeaseBusy None)" for t q by (simp add: sample_selector_def)
  have again: "select_turn ?env sample_selection None sample_rd (sample_loop {}) (sample_state 4 []) =
      TurnAgain (sample_loop {ProviderAccountId ''a''}) (sample_state 7 sample_log)"
    by (simp add: sample_first_turn try_account_def sample_load Let_def acquire sample_lease_request sample_log_def
        minimum_duration_def sample_busy)
  have keys: "turn_wait_candidates sample_selection None sample_rd (sample_loop X) (sample_turn now X) =
      [ProviderAccountId ''a'']" for X now
    using sample_wait by (simp add: turn_wait_candidates_def sample_waited_for wait_context_def sample_turn_def)
  have robin: "policy_strategy (ctx_policy (wait_context sample_rd (sample_turn now X))) = RoundRobin" for now X
    by (simp add: wait_context_def sample_turn_def sample_run)
  have wait: "select_turn ?env sample_selection None sample_rd (sample_loop {ProviderAccountId ''a''})
      (sample_state 7 sample_log) = TurnWait sample_ticket sample_waiting"
    by (simp add: select_turn_def Let_def sample_turn_context sample_yield sample_waited_for select_account_def
        sample_select keys sample_enter_wait [OF robin] filter_option_def)
  have round: "select_round ?env sample_selection None sample_rd (sample_loop {}) (sample_state 4 []) =
      TurnWait sample_ticket sample_waiting"
    by (subst select_round.simps, simp add: again, subst select_round.simps, simp add: wait)
  have "sv_now ?env (se_tick sample_waiting) = 8" by (simp add: sample_waiting_def sample_selector_def)
  then have "select_loop ?env sample_selection None (sample_state 0 []) =
      Some (Refused (SelQueueRejected QueueTimeout), sample_waiting\<lparr>se_tick := 10\<rparr>)"
    by (subst select_loop.simps) (simp add: sample_start round sample_timeout)
  then show ?thesis
    by (intro that [of "drop_wait (sample_waiting\<lparr>se_tick := 10\<rparr>)"])
      (simp_all add: select_inner_def sample_start sample_waiting_def)
qed


section \<open>The properties, applied\<close>

theorem selector_keeps_one_lease_witness:
  "\<exists>l s. select_inner (sample_selector (Ok LeaseGranted)) sample_selection 0 empty_queue = Some (Selected l, s)
     \<and> count_list (se_log s) (LeaseTaken (ProviderAccountId ''a'')) =
         count_list (se_log s) (LeaseDropped (ProviderAccountId ''a'')) + 1
     \<and> LeaseTaken (ProviderAccountId ''a'') \<in> set (se_log s)"
proof (rule sample_granted)
  fix l
  assume run: "select_inner (sample_selector (Ok LeaseGranted)) sample_selection 0 empty_queue =
       Some (Selected l, sample_state 7 (sample_log @ [LeaseTaken (ProviderAccountId ''a'')]))"
    and account: "cl_account l = account_a"
  note count = selector_keeps_one_lease [OF run, of "ProviderAccountId ''a''"]
  show ?thesis
    by (rule exI [of _ l], rule exI [of _ "sample_state 7 (sample_log @ [LeaseTaken (ProviderAccountId ''a'')])"])
      (use count run account in simp)
qed

theorem selector_waits_its_turn_witness:
  "\<not> has_waiters_ahead_of (empty_queue :: ProviderAccountId QueueState) (ProviderAccountId ''a'') NormalPriority
   \<and> request_fits (sample_selector (Ok LeaseGranted)) sample_selection sample_lease_wanted"
proof (rule sample_granted)
  fix l
  assume run: "select_inner (sample_selector (Ok LeaseGranted)) sample_selection 0 empty_queue =
       Some (Selected l, sample_state 7 (sample_log @ [LeaseTaken (ProviderAccountId ''a'')]))"
  have "LeaseRequested sample_lease_wanted (initial_wait sample_selection) empty_queue
      \<in> set (se_log (sample_state 7 (sample_log @ [LeaseTaken (ProviderAccountId ''a'')])))"
    by (simp add: sample_state_def sample_log_def)
  from selector_waits_its_turn [OF run this] show ?thesis
    by (simp add: initial_wait_def with_priority_def new_CapacityWait_def prioritized_def sample_selection_def sample_lease_wanted_def)
qed

theorem selector_leaves_no_place_witness:
  "\<exists>s. select_inner (sample_selector (Ok (LeaseBusy None))) sample_selection 0 empty_queue =
         Some (Refused (SelQueueRejected QueueTimeout), s)
     \<and> TicketTaken sample_ticket \<in> set (se_log s) \<and> (\<forall>k. \<forall>x \<in> set (waiters (se_queue s) k). waker x \<noteq> 0)"
proof (rule sample_timed_out)
  fix s
  assume run: "select_inner (sample_selector (Ok (LeaseBusy None))) sample_selection 0 empty_queue =
       Some (Refused (SelQueueRejected QueueTimeout), s)" and ran: "se_log s = sample_log @ [TicketTaken sample_ticket]"
  have ticket: "TicketTaken sample_ticket \<in> set (se_log s)" using ran by simp
  have "others_use_the_queue (sample_selector (Ok (LeaseBusy None)))"
    by (simp add: others_use_the_queue_def sample_selector_def)
  from selector_leaves_no_place [OF run ticket empty_queue_ok this] show ?thesis
    using run ticket by (auto simp: sample_ticket_def)
qed

theorem selected_account_is_permitted_witness:
  "\<exists>l s. select_inner (sample_selector (Ok LeaseGranted)) sample_selection 0 empty_queue = Some (Selected l, s)
     \<and> account_provider (cl_account l) = ProviderKind ''openai''
     \<and> allows (new_FrozenAccountScope sample_directory AllAccounts) (account_id (cl_account l))"
proof (rule sample_granted)
  fix l
  assume run: "select_inner (sample_selector (Ok LeaseGranted)) sample_selection 0 empty_queue =
       Some (Selected l, sample_state 7 (sample_log @ [LeaseTaken (ProviderAccountId ''a'')]))"
  have "ac_account_scope (cx_account (ci_attempt sample_selection)) = Some (new_FrozenAccountScope sample_directory AllAccounts)"
    "sv_provider_kind (sample_selector (Ok LeaseGranted)) = ProviderKind ''openai''"
    by (simp_all add: sample_run)
  with selected_account_is_permitted [OF run] run show ?thesis by auto
qed

theorem every_selection_returns_witness:
  "\<exists>out s. select_inner (sample_selector (Ok LeaseGranted)) sample_selection 3 empty_queue = Some (out, s) \<and> out \<noteq> ScorePanic"
proof (rule every_selection_returns [where n = 10])
  show "mono (sv_now (sample_selector (Ok LeaseGranted)))" by (simp add: sample_selector_def mono_def)
  show "\<forall>t \<ge> 10. cx_deadline (ci_attempt sample_selection) \<le> sv_now (sample_selector (Ok LeaseGranted)) t"
    by (simp add: sample_selector_def)
qed simp

end
