(* ===== verification/Spec2Isabelle.thy ===== *)
theory Spec2Isabelle
  imports Prelude Rust_Text Decimal_Text Wire_Enum Float64 Metering Account_Model Provider_Account
    Account_Scope Smart_Scheduling Account_Feedback Account_Selection Concurrency_Queue
    Connection_Budget Provider_Error Canonical_Event Response_Observation Execution_Session
    Attempt_Coordinator Coordinator_Safety Coordinator_Invariant Coordinator_Loops
    Coordinator_Theorems Json_Access Runtime_Settings Routing_Snapshot Routing_Theorems
    Sse_Codec Sse_Framing Sse_Roundtrip Restart_Circuit Request_Settings Request_Access
    Execution_Lease Execution_Entry Cookie_Policy Request_Policy Codex_Selector Selector_Theorems
    Selector_Examples
begin

text \<open>
  A verification of the core of Codex Proxy RS, the gateway that serves model requests of API
  clients from a pool of upstream provider accounts. The subject is the crate
  \<open>src/backend/crates/gateway-core\<close>, which holds the decisions of the program: which account may
  serve a request and in which order requests wait for one, which failed attempt may be replayed, what
  the client and the store see of a request, and what it costs. The other crates are adapters around
  it: protocols, providers, storage, the administration interface and the plugin runtime. Two of their
  parts are modelled as well, because they are pure and carry guarantees of their own: the codec of
  server-sent events and the circuit that stops a failing plugin from being restarted. A third is the selection of
  an account by the OpenAI provider, which is where scope, eligibility, policy and wait queue come together.

  \<^bold>\<open>How the parts interact.\<close> The facts of the store and the catalogs of the providers are compiled into a
  routing snapshot (\<open>routing/snapshot.rs\<close>). A client is authenticated against the published snapshot
  (\<open>engine/execution.rs\<close>); its key carries a routing scope, which is frozen together with the account
  directory when a request starts (\<open>account/scope.rs\<close>). A plugin may change the settings of one request
  (\<open>settings/mod.rs\<close>) and may start requests inside it, with less than the permissions of the outer one.
  The start of a request waits for admission, checks the budget, asks the routing policy, turns the request
  into a plan (candidates in order and a bound on the attempts) and binds a continuation to the account that
  holds it; the session it returns owns everything the request took and gives it back once. The coordinator
  (\<open>engine/coordinator.rs\<close>) owns the request from then on. For every attempt it asks the provider to
  start a stream; the provider selects an account (\<open>providers/openai/src/credential/selector.rs\<close> with
  \<open>account/selection.rs\<close>) from feedback about earlier requests, lets a plugin decide among the eligible
  ones (\<open>engine/policy.rs\<close>), may wait in the concurrency queue (\<open>concurrency.rs\<close>) and takes a lease; connections are opened within a
  budget (\<open>engine/connection.rs\<close>). The coordinator checks the started stream against what the request
  froze, observes the events (\<open>event.rs\<close>, \<open>engine/observation.rs\<close>), hands batches to the protocol
  adapter, and on a failure (\<open>error.rs\<close>) decides about a replay. In the end one final record with
  outcome, usage and cost (\<open>metering\<close>) is written.

  \<^bold>\<open>The theories.\<close>
  \<^item> \<open>Prelude\<close>: options, results, checked and saturating integers, time, the collections of lemmas
    shared below. Unsigned integers are naturals with the checked or saturating operation of the
    source written out at its width; words are used where the code hashes (\<open>Connection_Budget\<close>).
  \<^item> \<open>Rust_Text\<close> (\<open>validation.rs\<close>, \<open>identity.rs\<close> and the newtypes): UTF-8 text, whitespace and
    control characters as the standard library defines them, \<open>validate_text\<close> and its error order.
  \<^item> \<open>Decimal_Text\<close>, \<open>Metering\<close> (\<open>metering/\<close>, \<open>engine/budget.rs\<close>): decimal amounts with their text
    form, money, usage, cost breakdowns and multipliers, price overrides, budget limits.
  \<^item> \<open>Wire_Enum\<close>, \<open>Account_Model\<close>, \<open>Provider_Account\<close> (\<open>account/model.rs\<close>, \<open>error.rs\<close>,
    \<open>model_access.rs\<close>, \<open>location.rs\<close>, \<open>proxy.rs\<close>): enum texts, quota state, status resolution, model
    policies, the account entity with its builders, the refresh query, credential write-backs.
  \<^item> \<open>Account_Scope\<close> (\<open>account/scope.rs\<close>): the directory with its reverse indexes, client scopes,
    frozen scopes and their narrowing.
  \<^item> \<open>Float64\<close>, \<open>Smart_Scheduling\<close>, \<open>Account_Feedback\<close>, \<open>Account_Selection\<close>
    (\<open>account/smart_scheduling.rs\<close>, \<open>account/selection.rs\<close>): binary64 by rounding to nearest even on
    rationals, the coefficients, decaying failure rates and latency, eligibility, rotation
    strategies, the smart score, capacity snapshots.
  \<^item> \<open>Concurrency_Queue\<close> (\<open>concurrency.rs\<close>): the two-class wait queue as operations on its state and
    as a step relation with wake-ups.
  \<^item> \<open>Connection_Budget\<close> (\<open>engine/connection.rs\<close>): openings, startup window, retry delay.
  \<^item> \<open>Provider_Error\<close> (\<open>error.rs\<close>), \<open>Canonical_Event\<close> (\<open>event.rs\<close>), \<open>Response_Observation\<close>
    (\<open>engine/observation.rs\<close>): errors and recovery requests, event envelopes and the sequence
    validator, the observation of an attempt and the one-shot terminal observation.
  \<^item> \<open>Execution_Session\<close>, \<open>Attempt_Coordinator\<close> (\<open>engine/coordinator.rs\<close> and the types it uses): the
    session record and every operation on it. \<open>Coordinator_Safety\<close>, \<open>Coordinator_Invariant\<close>,
    \<open>Coordinator_Loops\<close> and \<open>Coordinator_Theorems\<close> prove its properties.
  \<^item> \<open>Json_Access\<close>, \<open>Runtime_Settings\<close>, \<open>Routing_Snapshot\<close> (\<open>policy/\<close>, \<open>settings/values.rs\<close>,
    \<open>settings/compiled.rs\<close>, \<open>routing/\<close>, \<open>operation.rs\<close>): client policies, compiled settings, the snapshot and
    its compilation with the bounded loop against moving catalogs, aliases and mappings of model names, what
    an operation requires, and the plan. \<open>Routing_Theorems\<close> proves their properties.
  \<^item> \<open>Request_Settings\<close> (\<open>settings/mod.rs\<close>): the settings of one request as a baseline and overrides with
    their origin.
  \<^item> \<open>Request_Access\<close> (\<open>engine/execution.rs\<close>, \<open>authentication.rs\<close>, \<open>extensions.rs\<close>, \<open>nested.rs\<close>): API keys and
    plugin authentication, frozen identities, nested and bound requests with their depth, number and scope,
    and affinity lookups.
  \<^item> \<open>Execution_Lease\<close>, \<open>Execution_Entry\<close> (\<open>engine/execution.rs\<close>, \<open>engine/admission.rs\<close>): what a running
    request holds and how it is given back, and the start of a request from admission to its session.
  \<^item> \<open>Request_Policy\<close> (\<open>engine/policy.rs\<close>): the account choice of a plugin and its check.
  \<^item> \<open>Cookie_Policy\<close> (\<open>cookie.rs\<close> and the jar of \<open>selector.rs\<close> in \<open>providers/openai/src/credential\<close>): which
    cookies of the upstream are kept and to which requests they are sent.
  \<^item> \<open>Codex_Selector\<close> (\<open>select_inner\<close> of \<open>selector.rs\<close>, the reads of \<open>repository.rs\<close>): what a selection
    captures, a turn of it, the round of turns, and the loop over rounds with its waits. \<open>Selector_Theorems\<close>
    proves its properties, \<open>Selector_Examples\<close> follows two selections step by step.
  \<^item> \<open>Sse_Codec\<close>, \<open>Sse_Framing\<close>, \<open>Sse_Roundtrip\<close> (\<open>gateway-protocol/src/openai/sse.rs\<close>): the incremental
    decoder of server-sent events in both of its modes, the event parser and the encoder.
  \<^item> \<open>Restart_Circuit\<close> (\<open>gateway-plugin/runtime/src/generation/restart_circuit.rs\<close>): failure budgets per
    plugin, attempts in flight, the stability window and eviction.

  \<^bold>\<open>State, effects and time.\<close> A mutable structure of the source is a record, a method that changes it a
  function to the changed record, an error a value of a sum. A session runs in a \<open>World\<close>: functions of
  a tick for the clock, the cancellation token, the external effects, the store, the provider, the
  stream and the plugin policy. Every wait and every store write takes a tick, so what the environment
  answers at one moment is unrelated to what it answers at another; theorems about a session hold in
  every world. Store writes are recorded in the session with their success, so that the theorems
  about the store speak of the writes themselves. Concurrent callers (the queue, the feedback
  counters, the graph of nested requests) are interleavings of atomic steps. A start keeps a log of its calls
  to ports and of the guards it releases; a call of a running request may be dropped in any of the waits of
  its cleanup and while a continuation is written, and a later call resumes it. A selection runs in an environment of the same kind; between two of its
  awaits other requests change the wait queue, and its log holds the leases, places and bindings it takes.

  \<^bold>\<open>Parameters.\<close> Code outside the source is an argument: the parser of semantic versions, the substring
  search of \<open>memchr\<close>, JSON parsing, hash values; the store, the provider catalogs and the extension preparer of a
  snapshot; the authentication plan of a plugin, the routing policy, the admission port, the store of
  continuations and the store of session affinities; the credential store and its codec, the quota service, the lease
  port, the scheduling plan of a plugin, the grammar of \<open>Set-Cookie\<close> and calendar arithmetic.

  \<^bold>\<open>Loops and bounds.\<close> Recursion follows the source where it is structural. The three loops of the
  coordinator run as long as the upstream stream lasts and are partial functions whose value \<open>None\<close> is
  a loop that never returns; \<open>cancellation_ends_every_call\<close> proves that they return once the
  cancellation is signalled. The admission loop of a start is one more, and \<open>every_start_returns\<close> proves that
  it ends with the deadline. A wait for capacity and the outer loop of a selection are the last two; the turns of a
  round are shown to end by counting the accounts left, and \<open>every_selection_returns\<close> bounds the rest by the
  snapshot conflicts and the deadline, for a request without a scheduling plugin (one that keeps answering with
  choices that went stale is stopped only by the caller). Eviction from the restart circuit is a \<open>while\<close> loop, shown to end. The
  compile loop of the snapshot and the mapping of model names carry the counters of the source (four rounds,
  twenty names). No fuel is used.

  \<^bold>\<open>Interfaces.\<close> Locales state what a client relies on and are interpreted on the model: the wire
  enums, the ordered queue lines, the opening budget, the selection strategies, and the contract of
  one turn of the pull loop (\<open>pull_contract\<close>, interpreted on the invariant, on committed sessions and
  on the clock), and what a property of a selection must survive (\<open>selector_invariant\<close>, interpreted on its
  leases, its turns, its places and its deadlines).

  \<^bold>\<open>What is proved.\<close> Of the coordinator: replays only when safe, attempts inside the frozen scope and
  within the plan, monotone send states and one final record in the store, no attempt after delivery,
  failures and cancellation finish the request, discarded attempts are paid for once. Of the
  queue: order, uniqueness, no barging, no lost wake-up, refinement of two FIFO lines. Of selection:
  exactness against checks, ranks and strategies that are spelled out on their own (\<open>may_be_scheduled\<close>,
  \<open>weights_outrank\<close>, \<open>chosen_by_strategy\<close>), fairness of the rotation, monotonicity of the score. Of the scopes and the account
  entity: exact narrowing, exact indexes, invariants of the builders. Of money and text: round trips,
  items rounded to nearest and exact sums after it, total discounts. Of events: the incremental validator decides the
  grammar of a stream. Of routing: a compiled key permits exactly what the store says, a snapshot is of one
  revision and of the catalogs the providers answered in its round, or of those of the snapshot it takes them over
  from, a plan holds exactly the providers that serve the request and every refusal names its reason. Of
  access: a request runs with the policy that its snapshot holds for its key, and a key that this snapshot lacks or
  disables starts nothing - the snapshot is the published one, or the one frozen into the settings of a client that has
  any; nested requests are bounded and only narrow, their permits never leak. Of a start and its leases: whatever fails or is dropped,
  the admission, the permit and the registration are given back once and the key is charged once, with the charge
  its own finished session owes (it is fixed from the end on, \<open>finished_charge_fixed\<close>), and plan, account, deadline and
  key are the authorised ones for the life of the session. Of a selection: its account is permitted, the lease carries
  what was decoded from the credential of exactly that account and revision, it asks for what it may have, it
  keeps at most the lease it returns, waits its turn, leaves no place behind and returns; cookies go back only where
  they came from. Of the codec: chunking is irrelevant, transparent forwarding keeps
  every byte, encoded events decode to themselves. Of the restart circuit: a start is refused exactly when
  the failures since the last stable run reach the limit.

  \<^bold>\<open>Not modelled.\<close> Dropping a call of the coordinator in the middle of a wait (the finalization future is
  owned by the session and resumed; the model runs it to its end), and dropping a start while it waits;
  tracing and diagnostics; the registry of observer plans and the middleware chain, which compose trait objects
  that run in other processes; the runtime publisher and the process lifecycle; the text of settings in
  JSON; and the adapters: HTTP and WebSocket protocols with their JSON transcoding, the rest of the provider crates
  (transport, refresh, quota, the classification and recording of failures),
  PostgreSQL and Redis stores, the plugin runtime, the administration interface and the frontend.
\<close>

end
